(* ===== verification/HK_Prelude.thy ===== *)
theory HK_Prelude
  imports Main "HOL-Library.Word"
begin

text \<open>
  Shared vocabulary of the development: the machine types of the ESP8266 code, the faults a C
  program can run into (each is a value, never an unspecified HOL term), sequencing of computations
  that may fault, and the C string functions the sources call, on lists that hold the characters
  up to the terminating NUL.  Lemma collections used by the component theories are declared here.
\<close>

unbundle bit_operations_syntax

section \<open>Machine types\<close>

type_synonym byte = "8 word"
type_synonym u16 = "16 word"
type_synonym u32 = "32 word"
type_synonym u64 = "64 word"

text \<open>
  Text and binary buffers: \<open>char *\<close> texts are \<open>string\<close>s, \<open>byte *\<close> buffers are byte lists; the two
  casts below are the C casts between them.
\<close>

definition bytes :: "string \<Rightarrow> byte list" where
  "bytes s = map of_char s"

definition chars :: "byte list \<Rightarrow> string" where
  "chars bs = map (\<lambda>b. char_of (unat b)) bs"

section \<open>Faults\<close>

text \<open>
  \<open>Oob_read\<close> and \<open>Oob_write\<close> are accesses outside an object, \<open>Null_deref\<close> a dereference of NULL,
  \<open>Dangling\<close> a use of freed memory, \<open>Double_free\<close> a second free of the same block and \<open>Hang\<close> a loop
  that does not return.
\<close>

datatype fault = Oob_read | Oob_write | Null_deref | Dangling | Double_free | Hang

definition bind_res :: "fault + 'a \<Rightarrow> ('a \<Rightarrow> fault + 'b) \<Rightarrow> fault + 'b" where
  "bind_res r f = (case r of Inl e \<Rightarrow> Inl e | Inr x \<Rightarrow> f x)"

named_theorems res_simps "evaluation of computations that may fault"

lemma bind_res_Inl [simp, res_simps]: "bind_res (Inl e) f = Inl e"
  by (simp add: bind_res_def)

lemma bind_res_Inr [simp, res_simps]: "bind_res (Inr x) f = f x"
  by (simp add: bind_res_def)

lemma bind_res_eq_Inr: "bind_res r f = Inr y \<longleftrightarrow> (\<exists>x. r = Inr x \<and> f x = Inr y)"
  by (cases r) auto

lemma bind_res_InrE [elim!]:
  assumes "bind_res r f = Inr y"
  obtains x where "r = Inr x" and "f x = Inr y"
  using assms by (auto simp: bind_res_eq_Inr)

lemma bind_res_cong [fundef_cong]:
  "r = r' \<Longrightarrow> (\<And>x. r' = Inr x \<Longrightarrow> f x = f' x) \<Longrightarrow> bind_res r f = bind_res r' f'"
  by (cases r') auto

lemma bind_res_assoc: "bind_res (bind_res r f) g = bind_res r (\<lambda>x. bind_res (f x) g)"
  by (cases r) auto

section \<open>C strings\<close>

text \<open>
  \<open>cstr_eq_n z n xs ys\<close> is \<open>strncmp(xs, ys, n) == 0\<close> with \<open>z\<close> the NUL character: a list stands for
  the characters before its terminator, so the end of a list reads as \<open>z\<close>.
\<close>

fun cstr_eq_n :: "'a \<Rightarrow> nat \<Rightarrow> 'a list \<Rightarrow> 'a list \<Rightarrow> bool" where
  "cstr_eq_n z 0 xs ys = True"
| "cstr_eq_n z (Suc n) xs ys =
     (let x = (case xs of [] \<Rightarrow> z | c # _ \<Rightarrow> c); y = (case ys of [] \<Rightarrow> z | c # _ \<Rightarrow> c)
      in x = y \<and> (x = z \<or> cstr_eq_n z n (tl xs) (tl ys)))"

definition cstr :: "'a \<Rightarrow> 'a list \<Rightarrow> 'a list" where
  "cstr z xs = takeWhile (\<lambda>c. c \<noteq> z) xs"

text \<open>\<open>strndup\<close>: at most \<open>n\<close> characters, up to a NUL.\<close>

definition strndup :: "'a \<Rightarrow> 'a list \<Rightarrow> nat \<Rightarrow> 'a list" where
  "strndup z xs n = cstr z (take n xs)"

text \<open>\<open>strncpy\<close> into a field of \<open>n\<close> characters: the string, padded with NULs, not terminated
  when it has \<open>n\<close> characters or more.\<close>

definition strncpy :: "'a \<Rightarrow> 'a list \<Rightarrow> nat \<Rightarrow> 'a list" where
  "strncpy z xs n = (let s = take n (cstr z xs) in s @ replicate (n - length s) z)"

named_theorems cstr_simps "C string functions"

lemma length_strncpy [simp, cstr_simps]: "length (strncpy z xs n) = n"
  by (simp add: strncpy_def Let_def)

lemma cstr_no_nul [simp]: "z \<notin> set xs \<Longrightarrow> cstr z xs = xs"
  by (auto simp: cstr_def takeWhile_eq_all_conv)

lemma nul_notin_cstr [simp]: "z \<notin> set (cstr z xs)"
  by (auto simp: cstr_def dest: set_takeWhileD)

lemma nul_notin_strndup [simp]: "z \<notin> set (strndup z xs n)"
  by (simp add: strndup_def)

lemma length_strndup: "length (strndup z xs n) \<le> n"
proof -
  have "length (takeWhile (\<lambda>c. c \<noteq> z) (take n xs)) \<le> length (take n xs)"
    by (rule length_takeWhile_le)
  then show ?thesis by (simp add: strndup_def cstr_def)
qed

lemma cstr_eq_n_refl [simp, cstr_simps]: "cstr_eq_n z n xs xs"
  by (induction n arbitrary: xs) (auto simp: Let_def)

lemma cstr_eq_n_sym: "cstr_eq_n z n xs ys = cstr_eq_n z n ys xs"
  by (induction n arbitrary: xs ys) (auto simp: Let_def)

lemma cstr_Cons: "cstr z (c # xs) = (if c = z then [] else c # cstr z xs)"
  by (simp add: cstr_def)

lemma cstr_eq_n_iff: "cstr_eq_n z n xs ys \<longleftrightarrow> take n (cstr z xs) = take n (cstr z ys)"
proof (induction n arbitrary: xs ys)
  case 0
  then show ?case by simp
next
  case (Suc n)
  show ?case
    by (cases xs; cases ys) (auto simp: Let_def Suc cstr_Cons cstr_def)
qed

section \<open>Lists\<close>

lemma take_replicate_append: "n \<le> length xs \<Longrightarrow> take n (xs @ ys) = take n xs"
  by simp

lemma list_update_take: "i < length xs \<Longrightarrow> xs[i := x] = take i xs @ x # drop (Suc i) xs"
  by (rule upd_conv_take_nth_drop)

section \<open>Bytes\<close>

lemma byte_bits_cases:
  "n < 8 \<Longrightarrow> (n :: nat) = 0 \<or> n = 1 \<or> n = 2 \<or> n = 3 \<or> n = 4 \<or> n = 5 \<or> n = 6 \<or> n = 7"
  by arith

lemma byte_eqI:
  assumes "\<And>n. n < 8 \<Longrightarrow> bit x n = bit (y :: byte) n"
  shows "x = y"
  by (rule bit_word_eqI) (use assms in simp)

lemma byte_add_or:
  assumes "\<And>n. n < 8 \<Longrightarrow> \<not> bit x n \<or> \<not> bit (y :: byte) n"
  shows "x + y = (x OR y)"
proof (rule disjunctive_add)
  fix n
  show "\<not> bit x n \<or> \<not> bit y n"
    by (cases "n < 8") (use assms in \<open>auto dest: bit_imp_le_length\<close>)
qed

end
