(* ===== verification/Tlv.thy ===== *)
theory Tlv
  imports HK_Prelude
begin

unbundle bit_operations_syntax

text \<open>
  The type-length-value codec of \<open>src/tlv.c\<close>, in which all pairing messages are written.  A
  \<open>tlv_values_t\<close> is the linked list of its items, in list order; an item keeps its type and its value
  (its size is the length of the value).  Allocation is taken to succeed.
\<close>

section \<open>Data\<close>

record tlv =
  tlv_type :: byte
  tlv_value :: "byte list"

type_synonym tlv_values = "tlv list"

abbreviation tlv_size :: "tlv \<Rightarrow> nat" where
  "tlv_size t \<equiv> length (tlv_value t)"

definition mk_tlv :: "byte \<Rightarrow> byte list \<Rightarrow> tlv" where
  "mk_tlv ty v = \<lparr>tlv_type = ty, tlv_value = v\<rparr>"

lemma mk_tlv_sel [simp]: "tlv_type (mk_tlv ty v) = ty" "tlv_value (mk_tlv ty v) = v"
  by (simp_all add: mk_tlv_def)

lemma mk_tlv_collapse [simp]: "mk_tlv (tlv_type t) (tlv_value t) = t"
  by (simp add: mk_tlv_def)

section \<open>Building and reading a list of values\<close>

definition tlv_new :: tlv_values where
  "tlv_new = []"

text \<open>\<open>tlv_add_value'\<close> appends at the tail of the linked list.\<close>

definition tlv_add_value' :: "tlv_values \<Rightarrow> byte \<Rightarrow> byte list \<Rightarrow> tlv_values" where
  "tlv_add_value' vs ty v = vs @ [mk_tlv ty v]"

definition tlv_add_value :: "tlv_values \<Rightarrow> byte \<Rightarrow> byte list \<Rightarrow> tlv_values" where
  "tlv_add_value vs ty v = tlv_add_value' vs ty v"

definition tlv_add_string_value :: "tlv_values \<Rightarrow> byte \<Rightarrow> string \<Rightarrow> tlv_values" where
  "tlv_add_string_value vs ty s = tlv_add_value vs ty (bytes (cstr (CHR 0x00) s))"

text \<open>The loop of \<open>tlv_add_integer_value\<close>: the low byte, then an arithmetic shift by eight.\<close>

fun le_bytes :: "nat \<Rightarrow> u32 \<Rightarrow> byte list" where
  "le_bytes 0 v = []"
| "le_bytes (Suc n) v = ucast v # le_bytes n (signed_drop_bit 8 v)"

text \<open>The bytes go to a local array of eight, so a larger size writes past it.\<close>

definition tlv_add_integer_value :: "tlv_values \<Rightarrow> byte \<Rightarrow> nat \<Rightarrow> u32 \<Rightarrow> fault + tlv_values" where
  "tlv_add_integer_value vs ty sz v =
     (if sz > 8 then Inl Oob_write else Inr (tlv_add_value vs ty (le_bytes sz v)))"

fun tlv_get_value :: "tlv_values \<Rightarrow> byte \<Rightarrow> tlv option" where
  "tlv_get_value [] ty = None"
| "tlv_get_value (t # ts) ty = (if tlv_type t = ty then Some t else tlv_get_value ts ty)"

text \<open>\<open>x = (x << 8) + value[i]\<close> for \<open>i\<close> from \<open>size - 1\<close> down to 0, in a 32-bit \<open>int\<close>.\<close>

definition le_int :: "byte list \<Rightarrow> u32" where
  "le_int v = fold (\<lambda>b x. push_bit 8 x + ucast b) (rev v) 0"

definition tlv_get_integer_value :: "tlv_values \<Rightarrow> byte \<Rightarrow> u32 \<Rightarrow> u32" where
  "tlv_get_integer_value vs ty def =
     (case tlv_get_value vs ty of None \<Rightarrow> def | Some t \<Rightarrow> le_int (tlv_value t))"

definition tlv_get_string_value :: "tlv_values \<Rightarrow> byte \<Rightarrow> string option" where
  "tlv_get_string_value vs ty =
     map_option (\<lambda>t. strndup (CHR 0x00) (chars (tlv_value t)) (tlv_size t)) (tlv_get_value vs ty)"

section \<open>Formatting\<close>

text \<open>The first loop of \<open>tlv_format\<close>: the size it reports.\<close>

fun tlv_required_size :: "tlv_values \<Rightarrow> nat" where
  "tlv_required_size [] = 0"
| "tlv_required_size (t # ts) =
     tlv_size t + 2 * ((tlv_size t + 254) div 255) + tlv_required_size ts"

text \<open>The \<open>while (remaining)\<close> loop: chunks of at most 255 bytes, each with its own header.\<close>

function tlv_format_chunks :: "byte \<Rightarrow> byte list \<Rightarrow> byte list" where
  "tlv_format_chunks ty data =
     (if data = [] then []
      else (let chunk_size = (if length data > 255 then 255 else length data)
            in ty # of_nat chunk_size # take chunk_size data
               @ tlv_format_chunks ty (drop chunk_size data)))"
  by pat_completeness auto
termination
  by (relation "measure (\<lambda>(ty, data). length data)") auto

declare tlv_format_chunks.simps [simp del]

text \<open>The second loop: the bytes the function writes through \<open>buffer\<close>.\<close>

fun tlv_format_out :: "tlv_values \<Rightarrow> byte list" where
  "tlv_format_out [] = []"
| "tlv_format_out (t # ts) =
     (if tlv_size t = 0 then [tlv_type t, 0] else tlv_format_chunks (tlv_type t) (tlv_value t))
     @ tlv_format_out ts"

text \<open>
  \<open>tlv_format values buffer &size\<close> with a buffer of \<open>cap\<close> bytes (\<open>*size == cap\<close>): \<open>Inr (-1, n, [])\<close>
  when the buffer is too small, else \<open>Inr (0, n, out)\<close> with \<open>n\<close> the value left in \<open>*size\<close> and \<open>out\<close>
  the bytes written.  Writing more than \<open>cap\<close> bytes is \<open>Oob_write\<close>.
\<close>

definition tlv_format :: "tlv_values \<Rightarrow> nat \<Rightarrow> fault + (int \<times> nat \<times> byte list)" where
  "tlv_format vs cap =
     (let required = tlv_required_size vs in
      if cap < required then Inr (- 1, required, [])
      else if length (tlv_format_out vs) > cap then Inl Oob_write
      else Inr (0, required, tlv_format_out vs))"

text \<open>
  Every caller asks for the size with a buffer of size 0, allocates it and formats again; the
  payload is the first \<open>*size\<close> bytes of the buffer.
\<close>

definition tlv_format_alloc :: "tlv_values \<Rightarrow> fault + byte list" where
  "tlv_format_alloc vs =
     bind_res (tlv_format vs 0) (\<lambda>(r0, sz, out0).
     bind_res (tlv_format vs sz) (\<lambda>(r, sz', out). Inr (take sz' out)))"

definition tlv_add_tlv_value :: "tlv_values \<Rightarrow> byte \<Rightarrow> tlv_values \<Rightarrow> fault + tlv_values" where
  "tlv_add_tlv_value vs ty value =
     bind_res (tlv_format_alloc value) (\<lambda>data. Inr (tlv_add_value' vs ty data))"

section \<open>Parsing\<close>

text \<open>
  The scan for the total size of a chunked value: \<open>rest\<close> is the buffer from index \<open>j\<close> on, up to
  \<open>length\<close>.  The reads of \<open>buffer[j+1]\<close> are not guarded by the length.
\<close>

function tlv_scan :: "byte \<Rightarrow> byte list \<Rightarrow> nat \<Rightarrow> fault + nat" where
  "tlv_scan ty [] sz = Inr sz"
| "tlv_scan ty [t] sz = (if t = ty then Inl Oob_read else Inr sz)"
| "tlv_scan ty (t # l # rest) sz =
     (if t = ty \<and> l = 255 then tlv_scan ty (drop 255 rest) (sz + 255)
      else if t = ty then Inr (sz + unat l)
      else Inr sz)"
  by pat_completeness auto
termination
  by (relation "measure (\<lambda>(ty, rest, sz). length rest)") auto

text \<open>The copy loop: \<open>rest\<close> is the buffer from index \<open>i\<close> on, \<open>acc\<close> the bytes copied so far.\<close>

function tlv_copy :: "byte list \<Rightarrow> nat \<Rightarrow> byte list \<Rightarrow> fault + (byte list \<times> byte list)" where
  "tlv_copy rest remaining acc =
     (if remaining = 0 then Inr (acc, rest)
      else (case rest of
              t # l # rest' \<Rightarrow>
                (if length rest' < unat l then Inl Oob_read
                 else tlv_copy (drop (unat l) rest') (remaining - unat l) (acc @ take (unat l) rest'))
            | _ \<Rightarrow> Inl Oob_read))"
  by pat_completeness auto
termination
  by (relation "measure (\<lambda>(rest, remaining, acc). length rest)") auto

declare tlv_copy.simps [simp del]

text \<open>
  The outer loop.  When the scanned size is 0 the copy loop is skipped and the index does not
  advance, as in the source, so the loop may not end: \<open>None\<close> is "does not return".
\<close>

partial_function (option) tlv_parse_loop :: "byte list \<Rightarrow> tlv_values \<Rightarrow> (fault + tlv_values) option"
  where
  "tlv_parse_loop rest vs =
     (case rest of
        [] \<Rightarrow> Some (Inr vs)
      | ty # _ \<Rightarrow>
          (case tlv_scan ty rest 0 of
             Inl e \<Rightarrow> Some (Inl e)
           | Inr sz \<Rightarrow>
               if sz \<noteq> 0 then
                 (case tlv_copy rest sz [] of
                    Inl e \<Rightarrow> Some (Inl e)
                  | Inr (data, rest') \<Rightarrow> tlv_parse_loop rest' (tlv_add_value' vs ty data))
               else tlv_parse_loop rest (tlv_add_value' vs ty [])))"

definition tlv_parse :: "byte list \<Rightarrow> fault + tlv_values" where
  "tlv_parse buffer = (case tlv_parse_loop buffer tlv_new of None \<Rightarrow> Inl Hang | Some r \<Rightarrow> r)"

definition tlv_get_tlv_value :: "tlv_values \<Rightarrow> byte \<Rightarrow> fault + tlv_values option" where
  "tlv_get_tlv_value vs ty =
     (case tlv_get_value vs ty of
        None \<Rightarrow> Inr None
      | Some t \<Rightarrow> bind_res (tlv_parse (tlv_value t)) (\<lambda>v. Inr (Some v)))"

section \<open>Sizes\<close>

lemma chunks_Nil [simp]: "tlv_format_chunks ty [] = []"
  by (simp add: tlv_format_chunks.simps)

lemma chunks_short: "d \<noteq> [] \<Longrightarrow> length d \<le> 255 \<Longrightarrow>
  tlv_format_chunks ty d = ty # of_nat (length d) # d"
  by (simp add: tlv_format_chunks.simps [of ty d] Let_def)

lemma chunks_long: "length d > 255 \<Longrightarrow>
  tlv_format_chunks ty d = ty # 255 # take 255 d @ tlv_format_chunks ty (drop 255 d)"
  by (auto simp add: tlv_format_chunks.simps [of ty d] Let_def)

text \<open>Induction along the chunks of a non-empty value.\<close>

lemma chunks_induct [consumes 1, case_names short long]:
  assumes "d \<noteq> []"
    and "\<And>d :: byte list. d \<noteq> [] \<Longrightarrow> length d \<le> 255 \<Longrightarrow> P d"
    and "\<And>d. length d > 255 \<Longrightarrow> P (drop 255 d) \<Longrightarrow> P d"
  shows "P d"
  using assms(1)
proof (induction d rule: length_induct)
  case (1 d)
  show ?case
  proof (cases "length d > 255")
    case True
    then have "length (drop 255 d) < length d" "drop 255 d \<noteq> []" by auto
    with 1 have "P (drop 255 d)" by blast
    with True show ?thesis by (rule assms(3))
  next
    case False
    with 1 show ?thesis by (intro assms(2)) auto
  qed
qed

lemma length_chunks:
  "length (tlv_format_chunks ty d) = length d + 2 * ((length d + 254) div 255)"
proof (cases "d = []")
  case False
  then show ?thesis
  proof (induction d rule: chunks_induct)
    case (short d)
    then have "(length d + 254) div 255 = 1"
      by (intro div_nat_eqI) (cases d; simp)+
    with short show ?case by (simp add: chunks_short)
  next
    case (long d)
    then have "(length d + 254) div 255 = Suc ((length d - 255 + 254) div 255)" by simp
    with long show ?case by (simp add: chunks_long)
  qed
qed simp

lemma length_format_out:
  "length (tlv_format_out vs)
   = tlv_required_size vs + 2 * length (filter (\<lambda>t. tlv_value t = []) vs)"
  by (induction vs) (auto simp: length_chunks)

lemma filter_len_0: "length (filter P xs) = 0 \<longleftrightarrow> \<not> (\<exists>x\<in>set xs. P x)"
  by (auto simp: filter_empty_conv)

lemma tlv_format_zero:
  "tlv_format vs 0 =
     (if tlv_required_size vs = 0
      then (if vs = [] then Inr (0, 0, []) else Inl Oob_write)
      else Inr (- 1, tlv_required_size vs, []))"
proof (cases "tlv_required_size vs = 0")
  case True
  then have "\<forall>t\<in>set vs. tlv_value t = []" by (induction vs) auto
  then have "filter (\<lambda>t. tlv_value t = []) vs = vs" by simp
  then show ?thesis
    using True length_format_out [of vs] by (auto simp: tlv_format_def Let_def)
next
  case False
  then show ?thesis by (auto simp: tlv_format_def Let_def)
qed

lemma required_pos: "tlv_value t \<noteq> [] \<Longrightarrow> t \<in> set vs \<Longrightarrow> tlv_required_size vs > 0"
  by (induction vs) auto

lemma format_alloc_eq:
  "tlv_format_alloc vs =
     (if \<exists>t\<in>set vs. tlv_value t = [] then Inl Oob_write else Inr (tlv_format_out vs))"
proof (cases "\<exists>t\<in>set vs. tlv_value t = []")
  case True
  then have "filter (\<lambda>t. tlv_value t = []) vs \<noteq> []" by (auto simp: filter_empty_conv)
  then have "length (tlv_format_out vs) > tlv_required_size vs"
    by (simp add: length_format_out)
  with True show ?thesis
    by (cases vs) (auto simp: tlv_format_alloc_def tlv_format_zero tlv_format_def Let_def)
next
  case False
  then have "filter (\<lambda>t. tlv_value t = []) vs = []" by (auto simp: filter_empty_conv)
  then have len: "length (tlv_format_out vs) = tlv_required_size vs"
    by (simp add: length_format_out)
  show ?thesis
  proof (cases vs)
    case Nil
    then show ?thesis by (simp add: tlv_format_alloc_def tlv_format_def)
  next
    case (Cons t ts)
    with False have "tlv_required_size vs > 0" using required_pos [of t vs] by auto
    with False len show ?thesis
      by (simp add: tlv_format_alloc_def tlv_format_zero tlv_format_def Let_def)
  qed
qed

section \<open>Parsing undoes formatting\<close>

lemma scan_chunks:
  assumes "d \<noteq> []"
    and "rest = [] \<or> hd rest \<noteq> ty \<or> length d mod 255 \<noteq> 0"
  shows "tlv_scan ty (tlv_format_chunks ty d @ rest) n = Inr (n + length d)"
  using assms
proof (induction d arbitrary: n rule: chunks_induct)
  case (short d)
  have full: "tlv_scan ty rest m = Inr m" if "length d = 255" for m
    using short(3) that by (cases "(ty, rest, m)" rule: tlv_scan.cases) auto
  show ?case
  proof (cases "length d = 255")
    case True
    with short full show ?thesis by (simp add: chunks_short)
  next
    case False
    with short have len: "length d < 255" by simp
    then have "(of_nat (length d) :: byte) \<noteq> 255"
      by (simp add: word_unat_eq_iff unat_of_nat)
    moreover from len have "unat (of_nat (length d) :: byte) = length d"
      by (simp add: unat_of_nat)
    ultimately show ?thesis using short by (simp add: chunks_short)
  qed
next
  case (long d)
  have "length d mod 255 = length (drop 255 d) mod 255"
    using long(1) by (simp add: le_mod_geq)
  with long.IH long.prems
  have "tlv_scan ty (tlv_format_chunks ty (drop 255 d) @ rest) (n + 255) = Inr (n + 255 + length (drop 255 d))"
    by metis
  then show ?case using long(1) by (simp add: chunks_long)
qed

lemma copy_chunks:
  "d \<noteq> [] \<Longrightarrow> tlv_copy (tlv_format_chunks ty d @ rest) (length d) acc = Inr (acc @ d, rest)"
proof (induction d arbitrary: acc rule: chunks_induct)
  case (short d)
  then have "unat (of_nat (length d) :: byte) = length d" by (simp add: unat_of_nat)
  with short show ?case
    by (simp add: chunks_short tlv_copy.simps [of "ty # _"] tlv_copy.simps [of rest])
next
  case (long d)
  then show ?case
    by (auto simp add: chunks_long tlv_copy.simps [of "ty # _"])
qed

text \<open>
  A list of values survives the wire when no value is empty and no value whose last chunk is full is
  followed by one of the same type (the parser would take the two for one chunked value).
\<close>

fun tlv_wf :: "tlv_values \<Rightarrow> bool" where
  "tlv_wf [] = True"
| "tlv_wf [t] = (tlv_value t \<noteq> [])"
| "tlv_wf (t # u # ts) =
     (tlv_value t \<noteq> [] \<and> (tlv_type t = tlv_type u \<longrightarrow> tlv_size t mod 255 \<noteq> 0) \<and> tlv_wf (u # ts))"

lemma tlv_wf_Cons:
  "tlv_wf (t # ts) \<longleftrightarrow> tlv_value t \<noteq> [] \<and> tlv_wf ts
     \<and> (ts = [] \<or> tlv_type t \<noteq> tlv_type (hd ts) \<or> tlv_size t mod 255 \<noteq> 0)"
  by (cases ts) auto

lemma chunks_hd: "d \<noteq> [] \<Longrightarrow> \<exists>xs. tlv_format_chunks ty d = ty # xs"
  by (cases "length d > 255") (auto simp: chunks_short chunks_long)

lemma hd_format_out: "ts \<noteq> [] \<Longrightarrow> hd (tlv_format_out ts) = tlv_type (hd ts)"
  by (cases ts) (auto dest: chunks_hd [of _ "tlv_type (hd ts)"])

lemma format_out_Nil_iff [simp]: "tlv_format_out ts = [] \<longleftrightarrow> ts = []"
  by (cases ts) (auto dest: chunks_hd [of _ "tlv_type (hd ts)"])

lemma parse_loop_step:
  assumes "d \<noteq> []"
    and "rest = [] \<or> hd rest \<noteq> ty \<or> length d mod 255 \<noteq> 0"
  shows "tlv_parse_loop (tlv_format_chunks ty d @ rest) vs = tlv_parse_loop rest (vs @ [mk_tlv ty d])"
proof -
  obtain xs where xs: "tlv_format_chunks ty d = ty # xs" using chunks_hd assms(1) by blast
  show ?thesis
    using scan_chunks [OF assms, of 0] copy_chunks [OF assms(1), of ty rest "[]"] assms(1)
    by (subst tlv_parse_loop.simps) (simp add: xs tlv_add_value'_def)
qed

lemma parse_loop_format:
  "tlv_wf ts \<Longrightarrow> rest = [] \<or> ts = [] \<or> tlv_size (last ts) mod 255 \<noteq> 0 \<or> hd rest \<noteq> tlv_type (last ts) \<Longrightarrow>
   tlv_parse_loop (tlv_format_out ts @ rest) vs = tlv_parse_loop rest (vs @ ts)"
proof (induction ts arbitrary: vs)
  case Nil
  then show ?case by simp
next
  case (Cons t ts)
  let ?r = "tlv_format_out ts @ rest"
  from Cons.prems have t: "tlv_value t \<noteq> []" and wf: "tlv_wf ts"
    and adj: "ts = [] \<or> tlv_type t \<noteq> tlv_type (hd ts) \<or> tlv_size t mod 255 \<noteq> 0"
    by (simp_all add: tlv_wf_Cons)
  have "?r = [] \<or> hd ?r \<noteq> tlv_type t \<or> tlv_size t mod 255 \<noteq> 0"
    using adj Cons.prems(2) hd_format_out [of ts] by (cases "ts = []") auto
  with t have "tlv_parse_loop (tlv_format_out (t # ts) @ rest) vs = tlv_parse_loop ?r (vs @ [t])"
    using parse_loop_step [of "tlv_value t" ?r "tlv_type t" vs] by simp
  also have "\<dots> = tlv_parse_loop rest ((vs @ [t]) @ ts)"
    using Cons.IH [OF wf] Cons.prems(2) by (cases "ts = []") auto
  finally show ?case by simp
qed

lemma parse_format_out: "tlv_wf vs \<Longrightarrow> tlv_parse (tlv_format_out vs) = Inr vs"
  using parse_loop_format [of vs "[]" "[]"]
  by (simp add: tlv_parse_def tlv_new_def tlv_parse_loop.simps [of "[]"])

section \<open>What a successful parse guarantees\<close>

lemma scan_size: "tlv_scan ty rest n = Inr m \<Longrightarrow> n \<le> m"
  by (induction ty rest n rule: tlv_scan.induct) (auto split: if_splits)

lemma scan_zero: "tlv_scan ty (ty # x) 0 = Inr 0 \<Longrightarrow> \<exists>y. x = 0 # y"
  by (cases x) (auto split: if_splits dest: scan_size simp: unat_eq_0)

lemma tlv_copy_step:
  assumes "tlv_copy rest n acc = Inr (data, rest')" and "n > 0"
  obtains t l r where "rest = t # l # r" and "unat l \<le> length r"
    and "tlv_copy (drop (unat l) r) (n - unat l) (acc @ take (unat l) r) = Inr (data, rest')"
  using assms by (subst (asm) tlv_copy.simps) (auto split: list.splits if_splits)

lemma copy_total:
  "tlv_copy rest n acc = Inr (data, rest') \<Longrightarrow>
   length data + length rest' + (if n > 0 then 2 else 0) \<le> length acc + length rest
   \<and> length acc + n \<le> length data"
proof (induction rest n acc rule: tlv_copy.induct)
  case (1 rest n acc)
  show ?case
  proof (cases "n = 0")
    case True
    with "1.prems" show ?thesis by (simp add: tlv_copy.simps [of _ 0])
  next
    case False
    with "1.prems" obtain t l r where rest: "rest = t # l # r" and len: "unat l \<le> length r"
      and rec: "tlv_copy (drop (unat l) r) (n - unat l) (acc @ take (unat l) r) = Inr (data, rest')"
      by (auto elim: tlv_copy_step)
    from len have "\<not> length r < unat l" by simp
    from "1.IH" [OF False rest refl this rec] len rest show ?thesis
      by (auto split: if_splits)
  qed
qed

definition tlv_weight :: "tlv_values \<Rightarrow> nat" where
  "tlv_weight vs = (\<Sum>t\<leftarrow>vs. tlv_size t + 2)"

text \<open>
  What holds when the loop returns: the buffer did not begin with an empty item, and the values
  appended are not empty and fit, with their headers, in the bytes read.
\<close>

definition loop_post :: "byte list \<Rightarrow> tlv_values \<Rightarrow> fault + tlv_values \<Rightarrow> bool" where
  "loop_post rest vs r \<longleftrightarrow>
     (\<forall>ty xs. rest \<noteq> ty # 0 # xs) \<and>
     (\<forall>ts. r = Inr ts \<longrightarrow>
        (\<exists>us. ts = vs @ us \<and> tlv_weight us \<le> length rest \<and> (\<forall>t\<in>set us. tlv_value t \<noteq> [])))"

lemma parse_loop_post:
  assumes ret: "tlv_parse_loop rest vs = Some r"
  shows "loop_post rest vs r"
proof (rule tlv_parse_loop.raw_induct [where P = loop_post, OF _ ret])
  fix f :: "byte list \<Rightarrow> tlv_values \<Rightarrow> (fault + tlv_values) option"
    and rest :: "byte list" and vs r
  assume IH: "\<And>rest vs r. f rest vs = Some r \<Longrightarrow> loop_post rest vs r"
    and eq: "(case rest of [] \<Rightarrow> Some (Inr vs)
      | ty # x \<Rightarrow> (case tlv_scan ty rest 0 of Inl e \<Rightarrow> Some (Inl e)
        | Inr sz \<Rightarrow> if sz \<noteq> 0 then
            (case tlv_copy rest sz [] of Inl e \<Rightarrow> Some (Inl e)
             | Inr (data, rest') \<Rightarrow> f rest' (tlv_add_value' vs ty data))
           else f rest (tlv_add_value' vs ty []))) = Some r"
  show "loop_post rest vs r"
  proof (cases rest)
    case Nil
    with eq show ?thesis by (auto simp: loop_post_def tlv_weight_def)
  next
    case (Cons ty x)
    show ?thesis
    proof (cases "tlv_scan ty rest 0")
      case (Inl e)
      with Cons eq show ?thesis by (auto simp: loop_post_def)
    next
      case (Inr sz)
      show ?thesis
      proof (cases "sz = 0")
        case True
        with Cons Inr eq have "f rest (tlv_add_value' vs ty []) = Some r" by simp
        from IH [OF this] scan_zero [of ty x] Inr Cons True show ?thesis
          by (auto simp: loop_post_def)
      next
        case False
        with Inr Cons have hd: "\<forall>ty xs. rest \<noteq> ty # 0 # xs" by auto
        show ?thesis
        proof (cases "tlv_copy rest sz []")
          case (Inl e)
          with eq Cons Inr False \<open>tlv_scan ty rest 0 = Inr sz\<close> hd show ?thesis
            by (auto simp: loop_post_def)
        next
          case cp: (Inr p)
          obtain data rest' where p: "p = (data, rest')" by (cases p)
          with eq Cons Inr False cp have "f rest' (tlv_add_value' vs ty data) = Some r" by simp
          from IH [OF this] hd copy_total [of rest sz "[]" data rest'] cp p False
          show ?thesis
            by (auto simp: loop_post_def tlv_add_value'_def tlv_weight_def
                intro: exI [of _ "mk_tlv ty data # _"])
        qed
      qed
    qed
  qed
qed

lemma parse_bounds:
  "tlv_parse buf = Inr vs \<Longrightarrow> tlv_weight vs \<le> length buf \<and> (\<forall>t\<in>set vs. tlv_value t \<noteq> [])"
  using parse_loop_post [of buf "[]"]
  by (auto simp: tlv_parse_def tlv_new_def loop_post_def split: option.splits)

section \<open>Empty values\<close>

text \<open>No number of iterations gets past an item of length 0.\<close>

lemma parse_loop_empty_item: "tlv_parse_loop (ty # 0 # rest) vs = None"
  using parse_loop_post [of "ty # 0 # rest" vs]
  by (cases "tlv_parse_loop (ty # 0 # rest) vs") (auto simp: loop_post_def)

lemma parse_empty_item:
  assumes "tlv_wf vs" and "vs = [] \<or> tlv_type (last vs) \<noteq> ty"
  shows "tlv_parse (tlv_format_out vs @ ty # 0 # rest) = Inl Hang"
  using parse_loop_format [OF assms(1), of "ty # 0 # rest" "[]"] assms(2) parse_loop_empty_item
  by (auto simp: tlv_parse_def tlv_new_def)

section \<open>Integers\<close>

lemma push_add_or: "push_bit 8 x + ucast (b :: byte) = (push_bit 8 x OR ucast b :: u32)"
  by (rule disjunctive_add) (auto simp: bit_simps dest: bit_imp_le_length)

lemma le_bytes_4:
  "le_bytes 4 v = [ucast v, ucast (signed_drop_bit 8 v), ucast (signed_drop_bit 16 v),
     ucast (signed_drop_bit 24 v)]"
proof -
  have 4: "(4::nat) = Suc (Suc (Suc (Suc 0)))" by simp
  show ?thesis unfolding 4 by simp
qed

lemma le_int_byte: "le_int [ucast v] = ucast (ucast v :: byte)"
  by (simp add: le_int_def)

lemma le_int_4: "le_int (le_bytes 4 v) = v"
proof (rule bit_word_eqI)
  fix n assume "n < LENGTH(32)"
  then consider "n < 8" | "8 \<le> n" "n < 16" | "16 \<le> n" "n < 24" | "24 \<le> n" "n < 32"
    by fastforce
  then show "bit (le_int (le_bytes 4 v)) n = bit v n"
    by cases (auto simp add: le_int_def le_bytes_4 push_add_or bit_simps bit_signed_drop_bit_iff)
qed

lemma ucast_byte_id: "v < 256 \<Longrightarrow> ucast (ucast v :: byte) = (v :: u32)"
  by (simp add: word_unat_eq_iff unsigned_ucast_eq word_less_nat_alt take_bit_eq_mod unat_mod_distrib)

lemma tlv_get_value_append:
  "tlv_get_value (xs @ ys) ty =
     (case tlv_get_value xs ty of None \<Rightarrow> tlv_get_value ys ty | Some t \<Rightarrow> Some t)"
  by (induction xs) auto

lemma tlv_get_value_Some: "tlv_get_value vs ty = Some t \<Longrightarrow> t \<in> set vs \<and> tlv_type t = ty"
  by (induction vs) (auto split: if_splits)

section \<open>Properties\<close>

text \<open>
  C22: Parsing undoes formatting.  A list of values in which no value is empty and no value with a
  full last chunk is followed by one of the same type is written by \<open>tlv_format\<close> into a buffer of
  exactly the size it reports, and \<open>tlv_parse\<close> returns the list unchanged, chunked values included.
\<close>

theorem tlv_parse_format:
  assumes "tlv_wf vs"
  shows "bind_res (tlv_format_alloc vs) tlv_parse = Inr vs"
proof -
  from assms have "\<forall>t\<in>set vs. tlv_value t \<noteq> []"
    by (induction vs rule: tlv_wf.induct) auto
  with parse_format_out [OF assms] show ?thesis by (simp add: format_alloc_eq)
qed

theorem tlv_parse_format_witness:
  "bind_res (tlv_format_alloc [mk_tlv 6 [3], mk_tlv 3 (replicate 384 7), mk_tlv 4 [1, 2]]) tlv_parse
   = Inr [mk_tlv 6 [3], mk_tlv 3 (replicate 384 7), mk_tlv 4 [1, 2]]"
  by (rule tlv_parse_format) simp

text \<open>
  The size pass of \<open>tlv_format\<close> counts no header for an empty value, so a caller that allocates
  the reported size gets a buffer overflow exactly when the list holds an empty value (a separator),
  and otherwise the formatted bytes fill the buffer.
\<close>

theorem tlv_format_alloc_overflow:
  "tlv_format_alloc vs =
     (if \<exists>t\<in>set vs. tlv_value t = [] then Inl Oob_write else Inr (tlv_format_out vs))"
  by (rule format_alloc_eq)

text \<open>
  A message in which well-formed values are followed by an item of length 0 makes \<open>tlv_parse\<close>
  loop forever: the index never moves past the item.
\<close>

theorem tlv_parse_empty_item_hangs:
  assumes "tlv_wf vs" and "vs = [] \<or> tlv_type (last vs) \<noteq> ty"
  shows "tlv_parse (tlv_format_out vs @ ty # 0 # rest) = Inl Hang"
  using assms by (rule parse_empty_item)

theorem tlv_parse_empty_item_hangs_witness:
  "tlv_parse (tlv_format_out [mk_tlv 1 [65]] @ 255 # 0 # [1, 1, 66]) = Inl Hang"
  by (rule tlv_parse_empty_item_hangs) simp_all

text \<open>
  Whatever bytes arrive, a parse that succeeds returns values that are not empty and that fit,
  with two header bytes each, in the buffer, so no value is longer than the message.
\<close>

theorem tlv_parse_fits:
  assumes "tlv_parse buf = Inr vs"
  shows "(\<Sum>t\<leftarrow>vs. tlv_size t + 2) \<le> length buf \<and> list_all (\<lambda>t. tlv_value t \<noteq> []) vs"
  using parse_bounds [OF assms] by (simp add: tlv_weight_def list_all_iff)

theorem tlv_parse_fits_witness:
  "(\<Sum>t\<leftarrow>[mk_tlv 6 [1]]. tlv_size t + 2) \<le> length [6 :: byte, 1, 1]
   \<and> list_all (\<lambda>t. tlv_value t \<noteq> []) [mk_tlv 6 [1]]"
proof (rule tlv_parse_fits)
  show "tlv_parse [6, 1, 1] = Inr [mk_tlv 6 [1]]"
    using parse_format_out [of "[mk_tlv 6 [1]]"] by (simp add: chunks_short)
qed

text \<open>
  Integers survive: after \<open>tlv_add_integer_value\<close> of size 1 or 4 under a new type,
  \<open>tlv_get_integer_value\<close> returns the integer (for size 1, one that fits in a byte).
\<close>

theorem tlv_integer_roundtrip:
  assumes "tlv_get_value vs ty = None" and "n = 4 \<or> n = 1 \<and> v < 256"
    and "tlv_add_integer_value vs ty n v = Inr vs'"
  shows "tlv_get_integer_value vs' ty d = v"
proof -
  from assms(2) have n: "n \<le> 8" by auto
  with assms(3) have "vs' = vs @ [mk_tlv ty (le_bytes n v)]"
    by (simp add: tlv_add_integer_value_def tlv_add_value_def tlv_add_value'_def)
  with assms(1,2) show ?thesis
    by (auto simp: tlv_get_integer_value_def tlv_get_value_append le_int_4 le_int_byte
        ucast_byte_id)
qed

theorem tlv_integer_roundtrip_witness:
  "tlv_get_integer_value [mk_tlv 6 [2]] 6 (- 1) = 2"
  by (rule tlv_integer_roundtrip [of "[]" 6 1 2])
     (simp_all add: tlv_add_integer_value_def tlv_add_value_def tlv_add_value'_def)

end
