(* ===== verification/Base64.thy ===== *)
theory Base64
  imports HK_Prelude
begin

text \<open>
  The base64 codec of \<open>src/base64.c\<close>, used for TLV and data characteristics.  Both sides are byte
  buffers; arithmetic is on \<open>unsigned char\<close> (8-bit words), as the stores to the output truncate.
\<close>

unbundle bit_operations_syntax

section \<open>Characters\<close>

definition base64_chars :: "byte list" where
  "base64_chars =
     bytes ''ABCDEFGHIJKLMNOPQRSTUVWXYZabcdefghijklmnopqrstuvwxyz0123456789+/''"

text \<open>The table is indexed with six-bit values only: lemma \<open>six_bits\<close> below.\<close>

definition base64_encode_char :: "byte \<Rightarrow> byte" where
  "base64_encode_char c = base64_chars ! unat c"

definition base64_decode_char :: "byte \<Rightarrow> byte" where
  "base64_decode_char c =
     (if of_char CHR ''A'' \<le> c \<and> c \<le> of_char CHR ''Z'' then c - of_char CHR ''A''
      else if of_char CHR ''a'' \<le> c \<and> c \<le> of_char CHR ''z'' then c - of_char CHR ''a'' + 26
      else if of_char CHR ''0'' \<le> c \<and> c \<le> of_char CHR ''9'' then c - of_char CHR ''0'' + 52
      else if c = of_char CHR ''+'' then 62
      else if c = of_char CHR ''/'' then 63
      else if c = of_char CHR ''='' then 64
      else 0)"

definition pad :: byte where
  "pad = of_char CHR ''=''"

section \<open>Sizes\<close>

definition base64_encoded_size :: "nat \<Rightarrow> nat" where
  "base64_encoded_size n = (n + 2) div 3 * 4"

text \<open>
  The two reads at the end of the encoded data are not guarded: with fewer than two characters they
  fall before its start.
\<close>

definition base64_decoded_size :: "byte list \<Rightarrow> fault + nat" where
  "base64_decoded_size e =
     (if length e < 2 then Inl Oob_read
      else Inr ((length e + 3) div 4 * 3
                - (if e ! (length e - 1) = pad then 1 else 0)
                - (if e ! (length e - 2) = pad then 1 else 0)))"

section \<open>Encoding and decoding\<close>

text \<open>One equation for the loop body, one for each of the two tails; the result is the bytes
  written, so the returned count is its length.\<close>

fun base64_encode' :: "byte list \<Rightarrow> byte list" where
  "base64_encode' (a # b # c # rest) =
     [base64_encode_char (drop_bit 2 a),
      base64_encode_char (push_bit 4 (a AND 0x3) + drop_bit 4 b),
      base64_encode_char (push_bit 2 (b AND 0xF) + drop_bit 6 c),
      base64_encode_char (c AND 0x3F)] @ base64_encode' rest"
| "base64_encode' [a] =
     [base64_encode_char (drop_bit 2 a), base64_encode_char (push_bit 4 (a AND 0x3)), pad, pad]"
| "base64_encode' [a, b] =
     [base64_encode_char (drop_bit 2 a),
      base64_encode_char (push_bit 4 (a AND 0x3) + drop_bit 4 b),
      base64_encode_char (push_bit 2 (b AND 0xF)), pad]"
| "base64_encode' [] = []"

text \<open>
  The decoding loop over blocks of four; a block whose third or fourth character decodes to 64
  ends it, whatever follows.  \<open>None\<close> is the return value \<open>-1\<close>.
\<close>

fun base64_decode_blocks :: "byte list \<Rightarrow> byte list" where
  "base64_decode_blocks (e0 # e1 # e2 # e3 # rest) =
     (let b0 = base64_decode_char e0; b1 = base64_decode_char e1;
          b2 = base64_decode_char e2; b3 = base64_decode_char e3
      in (push_bit 2 b0 + drop_bit 4 b1) #
         (if b2 = 64 then []
          else (push_bit 4 (b1 AND 0xF) + drop_bit 2 b2) #
               (if b3 = 64 then []
                else (push_bit 6 (b2 AND 0x3) + b3) # base64_decode_blocks rest)))"
| "base64_decode_blocks _ = []"

definition base64_decode' :: "byte list \<Rightarrow> byte list option" where
  "base64_decode' e = (if length e mod 4 \<noteq> 0 then None else Some (base64_decode_blocks e))"

text \<open>
  A caller allocates \<open>base64_decoded_size\<close> bytes and decodes into them; \<open>Some d\<close> is the whole
  buffer, with the bytes the decoder did not write taken from \<open>junk\<close> (the allocator's).
\<close>

definition base64_decode_alloc :: "byte list \<Rightarrow> byte list \<Rightarrow> fault + byte list option" where
  "base64_decode_alloc junk e =
     bind_res (base64_decoded_size e) (\<lambda>n.
       case base64_decode' e of
         None \<Rightarrow> Inr None
       | Some d \<Rightarrow> if length d > n then Inl Oob_write
                   else Inr (Some (d @ take (n - length d) (drop (length d) junk))))"

section \<open>Six-bit groups\<close>

lemma six_bit_word:
  assumes "take_bit 6 c = (c :: byte)"
  shows "unat c < 64"
proof -
  have "unat c = take_bit 6 (unat c)" using assms by (metis unsigned_take_bit_eq)
  then show ?thesis using take_bit_nat_less_exp [of 6 "unat c"] by simp
qed

lemma join_or:
  "push_bit 4 (a AND 3) + drop_bit 4 b = (push_bit 4 (a AND 3) OR drop_bit 4 (b :: byte))"
  "push_bit 2 (b AND 0xF) + drop_bit 6 c = (push_bit 2 (b AND 0xF) OR drop_bit 6 (c :: byte))"
  by (rule byte_add_or; drule byte_bits_cases; elim disjE; simp add: bit_simps;
      auto dest: bit_imp_le_length)+

text \<open>Every index the encoder uses is in the table.\<close>

lemma six_bits:
  "unat (drop_bit 2 (a :: byte)) < 64"
  "unat (push_bit 4 (a AND 0x3)) < 64"
  "unat (push_bit 4 (a AND 0x3) + drop_bit 4 b) < 64"
  "unat (push_bit 2 (b AND 0xF)) < 64"
  "unat (push_bit 2 (b AND 0xF) + drop_bit 6 c) < 64"
  "unat (c AND 0x3F :: byte) < 64"
  unfolding join_or
  by (rule six_bit_word, rule byte_eqI; drule byte_bits_cases; elim disjE; simp add: bit_simps;
      auto dest: bit_imp_le_length)+

text \<open>The three bytes of a group are put together again.\<close>

lemma regroup:
  "push_bit 2 (drop_bit 2 a) + drop_bit 4 (push_bit 4 (a AND 3) + drop_bit 4 b) = (a :: byte)"
  "push_bit 4 ((push_bit 4 (a AND 3) + drop_bit 4 b) AND 0xF)
     + drop_bit 2 (push_bit 2 (b AND 0xF) + drop_bit 6 c) = (b :: byte)"
  "push_bit 6 ((push_bit 2 (b AND 0xF) + drop_bit 6 c) AND 3) + (c AND 0x3F) = (c :: byte)"
  unfolding join_or
  by (subst byte_add_or; (rule byte_eqI)?; drule byte_bits_cases; elim disjE; simp add: bit_simps;
      auto dest: bit_imp_le_length)+

lemma regroup_short:
  "push_bit 2 (drop_bit 2 a) + drop_bit 4 (push_bit 4 (a AND 3)) = (a :: byte)"
  "push_bit 4 ((push_bit 4 (a AND 3) + drop_bit 4 b) AND 0xF)
     + drop_bit 2 (push_bit 2 (b AND 0xF)) = (b :: byte)"
  using regroup(1) [of a 0] regroup(2) [of a b 0] by simp_all

section \<open>Decoding undoes encoding\<close>

lemma decode_table: "list_all (\<lambda>i. base64_decode_char (base64_chars ! i) = of_nat i) [0..<64]"
  by code_simp

lemma table_no_pad: "list_all (\<lambda>i. base64_chars ! i \<noteq> pad) [0..<64]"
  by code_simp

lemma decode_encode_char: "unat c < 64 \<Longrightarrow> base64_decode_char (base64_encode_char c) = c"
  using decode_table by (auto simp: base64_encode_char_def list_all_iff)

lemma encode_char_no_pad: "unat c < 64 \<Longrightarrow> base64_encode_char c \<noteq> pad"
  using table_no_pad by (auto simp: base64_encode_char_def list_all_iff)

lemma decode_pad: "base64_decode_char pad = 64"
  by code_simp

lemma six_bit_ne_64: "unat (c :: byte) < 64 \<Longrightarrow> c \<noteq> 64"
  by auto

lemmas group_simps =
  six_bits decode_encode_char encode_char_no_pad decode_pad regroup regroup_short

lemma encoded_size_Suc3: "base64_encoded_size (n + 3) = base64_encoded_size n + 4"
proof -
  have "(n + 3 + 2) div 3 = Suc ((n + 2) div 3)" by presburger
  then show ?thesis by (simp add: base64_encoded_size_def)
qed

lemma length_encode: "length (base64_encode' d) = base64_encoded_size (length d)"
proof (induction d rule: base64_encode'.induct)
  case (1 a b c rest)
  then show ?case using encoded_size_Suc3 [of "length rest"] by (simp add: numeral_eq_Suc)
qed (simp_all add: base64_encoded_size_def)

lemma length_encode_mod: "length (base64_encode' d) mod 4 = 0"
  by (simp add: length_encode base64_encoded_size_def)

lemma decode_blocks_encode: "base64_decode_blocks (base64_encode' d) = d"
  by (induction d rule: base64_encode'.induct)
     (simp_all add: group_simps six_bits [THEN six_bit_ne_64] Let_def del: push_bit_and)

lemma decode_encode: "base64_decode' (base64_encode' d) = Some d"
  by (simp add: base64_decode'_def length_encode_mod decode_blocks_encode)

section \<open>The size of the decoded data\<close>

lemma decoded_size_Cons4:
  assumes "e \<noteq> []" and "length e mod 4 = 0"
  shows "base64_decoded_size (x0 # x1 # x2 # x3 # e) = map_sum id (\<lambda>n. n + 3) (base64_decoded_size e)"
proof -
  from assms(1) have "length e > 0" by simp
  with assms(2) have len: "length e \<ge> 4" by presburger
  let ?e = "x0 # x1 # x2 # x3 # e"
  have nth: "?e ! (length ?e - 1) = e ! (length e - 1)" "?e ! (length ?e - 2) = e ! (length e - 2)"
    using len by (auto simp: nth_Cons' numeral_2_eq_2)
  have "(length e + 4 + 3) div 4 = Suc ((length e + 3) div 4)" by presburger
  then have "(length ?e + 3) div 4 * 3 = (length e + 3) div 4 * 3 + 3" by simp
  moreover have "(length e + 3) div 4 * 3 \<ge> 3" using len by simp
  ultimately
  have "(length ?e + 3) div 4 * 3 - i - j = (length e + 3) div 4 * 3 - i - j + 3"
    if "i \<le> 1" "j \<le> 1" for i j using that by simp
  then show ?thesis
    using len by (simp only: base64_decoded_size_def nth) auto
qed

lemma decoded_size_encode:
  "d \<noteq> [] \<Longrightarrow> base64_decoded_size (base64_encode' d) = Inr (length d)"
proof (induction d rule: base64_encode'.induct)
  case (1 a b c rest)
  show ?case
  proof (cases "rest = []")
    case True
    then show ?thesis by (simp add: base64_decoded_size_def group_simps del: push_bit_and)
  next
    case False
    then have "base64_encode' rest \<noteq> []"
      by (cases rest rule: base64_encode'.cases) auto
    with 1 False show ?thesis by (simp add: decoded_size_Cons4 length_encode_mod)
  qed
qed (simp_all add: base64_decoded_size_def group_simps del: push_bit_and)

text \<open>The decoder never writes past the size computed from the padding.\<close>

lemma decoded_size_defined: "length e \<ge> 2 \<Longrightarrow> \<exists>n. base64_decoded_size e = Inr n"
  by (simp add: base64_decoded_size_def)

lemma length_decode_le:
  "length e mod 4 = 0 \<Longrightarrow> e \<noteq> [] \<Longrightarrow>
   \<exists>n. base64_decoded_size e = Inr n \<and> length (base64_decode_blocks e) \<le> n"
proof (induction e rule: base64_decode_blocks.induct)
  case (1 e0 e1 e2 e3 rest)
  show ?case
  proof (cases "rest = []")
    case True
    then show ?thesis
      by (auto simp: base64_decoded_size_def Let_def decode_pad)
  next
    case False
    from "1.prems" have mod: "length rest mod 4 = 0" by simp
    from False have "length rest > 0" by simp
    with mod have "length rest \<ge> 2" by presburger
    then obtain n where n: "base64_decoded_size rest = Inr n" using decoded_size_defined by blast
    with False mod have "base64_decoded_size (e0 # e1 # e2 # e3 # rest) = Inr (n + 3)"
      by (simp add: decoded_size_Cons4)
    with "1.IH" mod False n show ?thesis by (auto simp: Let_def)
  qed
qed auto

lemma decode_fits: "base64_decode_alloc junk e \<noteq> Inl Oob_write"
proof (cases "length e mod 4 = 0 \<and> e \<noteq> []")
  case True
  then obtain n where "base64_decoded_size e = Inr n" and "length (base64_decode_blocks e) \<le> n"
    using length_decode_le [of e] by auto
  then show ?thesis by (auto simp: base64_decode_alloc_def base64_decode'_def)
next
  case False
  then show ?thesis
    by (cases "e = []") (auto simp: base64_decode_alloc_def base64_decode'_def base64_decoded_size_def)
qed

section \<open>Properties\<close>

text \<open>
  Decoding undoes encoding: for any non-empty data, the text \<open>base64_encode_\<close> writes has the
  length \<open>base64_encoded_size\<close> promises, and decoding it into a buffer of \<open>base64_decoded_size\<close>
  bytes gives exactly the data, with nothing left over in the buffer.
\<close>

theorem base64_roundtrip:
  assumes "d \<noteq> []"
  shows "length (base64_encode' d) = base64_encoded_size (length d)
    \<and> base64_decode_alloc junk (base64_encode' d) = Inr (Some d)"
  using assms
  by (simp add: length_encode base64_decode_alloc_def decoded_size_encode decode_encode)

theorem base64_roundtrip_witness:
  "length (base64_encode' [104, 101, 108, 108, 111]) = base64_encoded_size (length [104 :: byte, 101, 108, 108, 111])
    \<and> base64_decode_alloc [] (base64_encode' [104, 101, 108, 108, 111])
      = Inr (Some [104, 101, 108, 108, 111])"
  by (rule base64_roundtrip) simp

text \<open>
  Decoding never overruns the buffer its caller sized with \<open>base64_decoded_size\<close>, for any text;
  the one fault is the size computation, which reads before the start of a text shorter than two.
\<close>

theorem base64_decode_no_overflow:
  "base64_decode_alloc junk e \<noteq> Inl Oob_write
   \<and> (base64_decode_alloc junk e = Inl Oob_read \<longleftrightarrow> length e < 2)"
  by (simp add: decode_fits)
     (auto simp: base64_decode_alloc_def base64_decode'_def base64_decoded_size_def)

end
