(* ===== verification/Query_Params.thy ===== *)
theory Query_Params
  imports HK_Prelude
begin

text \<open>
  The query-string parser of \<open>src/query_params.c\<close>, which reads the parameters of
  \<open>GET /characteristics?id=...\<close>.  The text is the list of characters before its NUL; \<open>rest\<close> is the
  text from index \<open>i\<close> on, so \<open>rest = []\<close> is \<open>s[i] == 0\<close>.
\<close>

section \<open>Data and operations\<close>

record query_param =
  qp_name :: string
  qp_value :: "string option"

definition in_name :: "char \<Rightarrow> bool" where
  "in_name c \<longleftrightarrow> c \<noteq> CHR ''='' \<and> c \<noteq> CHR ''&'' \<and> c \<noteq> CHR ''#''"

definition in_value :: "char \<Rightarrow> bool" where
  "in_value c \<longleftrightarrow> c \<noteq> CHR ''&'' \<and> c \<noteq> CHR ''#''"

text \<open>The part of the loop body from \<open>if (s[i] == '=')\<close>: the value and the text after it.\<close>

definition scan_value :: "string \<Rightarrow> string option \<times> string" where
  "scan_value r1 =
     (if r1 \<noteq> [] \<and> hd r1 = CHR ''='' then
        (let v = takeWhile in_value (tl r1)
         in (if v = [] then None else Some v, dropWhile in_value (tl r1)))
      else (None, r1))"

lemma scan_value_length: "length (snd (scan_value r)) \<le> length r"
  using le_trans [OF length_dropWhile_le [of in_value "tl r"], of "length r"]
  by (auto simp: scan_value_def Let_def)

text \<open>
  The loop of \<open>query_params_parse\<close>.  An empty name advances one character without a check for the
  end of the text, so at the end the next read is past the terminator.  New parameters go in front.
\<close>

function query_params_loop :: "string \<Rightarrow> query_param list \<Rightarrow> fault + query_param list" where
  "query_params_loop rest params =
     (let name = takeWhile in_name rest in
      if name = [] then
        (case rest of [] \<Rightarrow> Inl Oob_read | c # r \<Rightarrow> query_params_loop r params)
      else
        (let sv = scan_value (dropWhile in_name rest); r2 = snd sv;
             params' = \<lparr>qp_name = name, qp_value = fst sv\<rparr> # params
         in if r2 = [] \<or> hd r2 = CHR ''#'' then Inr params' else query_params_loop r2 params'))"
  by pat_completeness auto
termination
proof (relation "measure (\<lambda>(rest, params). length rest)", goal_cases)
  case 1
  then show ?case by simp
next
  case (2 rest params name c r)
  then show ?case by simp
next
  case (3 rest params name sv r2 params')
  have "length (takeWhile in_name rest @ dropWhile in_name rest) = length rest" by simp
  then have len: "length name + length (dropWhile in_name rest) = length rest"
    using 3 by (simp only: length_append)
  moreover have "length r2 \<le> length (dropWhile in_name rest)"
    using 3 scan_value_length by simp
  moreover have "length name > 0" using 3 by blast
  ultimately have "length r2 < length rest" by linarith
  then show ?case by simp
qed

declare query_params_loop.simps [simp del]

definition query_params_parse :: "string \<Rightarrow> fault + query_param list" where
  "query_params_parse s = query_params_loop s []"

text \<open>\<open>strcmp\<close> on the name.\<close>

fun query_params_find :: "query_param list \<Rightarrow> string \<Rightarrow> query_param option" where
  "query_params_find [] name = None"
| "query_params_find (p # ps) name =
     (if qp_name p = name then Some p else query_params_find ps name)"

section \<open>Well-formed query strings\<close>

text \<open>A client writes the parameters one after the other with \<open>&\<close> between them.\<close>

definition param_ok :: "query_param \<Rightarrow> bool" where
  "param_ok p \<longleftrightarrow> qp_name p \<noteq> [] \<and> (\<forall>c\<in>set (qp_name p). in_name c) \<and>
     (case qp_value p of None \<Rightarrow> True | Some v \<Rightarrow> v \<noteq> [] \<and> (\<forall>c\<in>set v. in_value c))"

definition param_text :: "query_param \<Rightarrow> string" where
  "param_text p = qp_name p @ (case qp_value p of None \<Rightarrow> [] | Some v \<Rightarrow> CHR ''='' # v)"

fun query_text :: "query_param list \<Rightarrow> string" where
  "query_text [] = []"
| "query_text [p] = param_text p"
| "query_text (p # q # ps) = param_text p @ CHR ''&'' # query_text (q # ps)"

lemma takeWhile_stop:
  assumes "\<forall>c\<in>set xs. P c" and "ys = [] \<or> \<not> P (hd ys)"
  shows "takeWhile P (xs @ ys) = xs" and "dropWhile P (xs @ ys) = ys"
  using assms by (cases ys; simp)+

text \<open>One parameter is consumed up to the delimiter that ends it.\<close>

lemma scan_param_value:
  assumes "param_ok p" and "r2 = [] \<or> \<not> in_value (hd r2)"
  shows "scan_value ((case qp_value p of None \<Rightarrow> [] | Some v \<Rightarrow> CHR ''='' # v) @ r2) = (qp_value p, r2)"
proof (cases "qp_value p")
  case None
  with assms(2) show ?thesis by (auto simp: scan_value_def in_value_def)
next
  case (Some v)
  then have "v \<noteq> []" and "\<forall>c\<in>set v. in_value c" using assms(1) by (simp_all add: param_ok_def)
  with takeWhile_stop [OF this(2) assms(2)] Some show ?thesis by (simp add: scan_value_def)
qed

lemma loop_param:
  assumes "param_ok p" and "r2 = [] \<or> \<not> in_value (hd r2)"
  shows "query_params_loop (param_text p @ r2) params =
    (if r2 = [] \<or> hd r2 = CHR ''#'' then Inr (p # params) else query_params_loop r2 (p # params))"
proof -
  let ?r1 = "(case qp_value p of None \<Rightarrow> [] | Some v \<Rightarrow> CHR ''='' # v) @ r2"
  have name: "\<forall>c\<in>set (qp_name p). in_name c" and ne: "qp_name p \<noteq> []"
    using assms(1) by (simp_all add: param_ok_def)
  have "?r1 = [] \<or> \<not> in_name (hd ?r1)"
    using assms(2) by (auto simp: in_name_def in_value_def split: option.split)
  from takeWhile_stop [OF name this] have
    tw: "takeWhile in_name (param_text p @ r2) = qp_name p"
    and dw: "dropWhile in_name (param_text p @ r2) = ?r1"
    by (simp_all add: param_text_def)
  have eta: "\<lparr>qp_name = qp_name p, qp_value = qp_value p\<rparr> = p" by simp
  show ?thesis
    using ne by (subst query_params_loop.simps)
      (simp add: eta tw dw scan_param_value [OF assms] Let_def del: takeWhile_append dropWhile_append)
qed

lemma loop_amp: "query_params_loop (CHR ''&'' # r) params = query_params_loop r params"
  by (subst query_params_loop.simps) (simp add: in_name_def)

lemma loop_query_text:
  "ps \<noteq> [] \<Longrightarrow> \<forall>p\<in>set ps. param_ok p \<Longrightarrow> r = [] \<or> \<not> in_value (hd r) \<Longrightarrow>
   query_params_loop (query_text ps @ r) params =
     (if r = [] \<or> hd r = CHR ''#'' then Inr (rev ps @ params)
      else query_params_loop r (rev ps @ params))"
proof (induction ps arbitrary: params rule: query_text.induct)
  case (2 p)
  then show ?case by (simp add: loop_param)
next
  case (3 p q ps)
  then show ?case
    using loop_param [of p "CHR ''&'' # query_text (q # ps) @ r" params]
    by (simp add: loop_amp in_value_def)
qed simp

lemma loop_trailing_amp: "query_params_loop [CHR ''&''] params = Inl Oob_read"
  by (simp add: loop_amp) (simp add: query_params_loop.simps [of "[]"])

lemma find_append:
  "query_params_find (ps @ qs) n =
     (case query_params_find ps n of None \<Rightarrow> query_params_find qs n | Some p \<Rightarrow> Some p)"
  by (induction ps) auto

section \<open>Properties\<close>

text \<open>
  A query string that lists well-formed parameters, optionally followed by a fragment, parses
  into exactly those parameters, last one first (so a lookup finds the last one of a name).
\<close>

theorem query_params_parse_text:
  assumes "ps \<noteq> []" and "\<forall>p\<in>set ps. param_ok p" and "frag = [] \<or> hd frag = CHR ''#''"
  shows "query_params_parse (query_text ps @ frag) = Inr (rev ps)"
  using loop_query_text [OF assms(1,2), of frag "[]"] assms(3)
  by (auto simp: query_params_parse_def in_value_def)

theorem query_params_parse_text_witness:
  "query_params_parse (query_text [\<lparr>qp_name = ''id'', qp_value = Some ''1.9,1.10''\<rparr>,
      \<lparr>qp_name = ''meta'', qp_value = Some ''1''\<rparr>, \<lparr>qp_name = ''ev'', qp_value = None\<rparr>] @ ''#x'')
   = Inr (rev [\<lparr>qp_name = ''id'', qp_value = Some ''1.9,1.10''\<rparr>,
      \<lparr>qp_name = ''meta'', qp_value = Some ''1''\<rparr>, \<lparr>qp_name = ''ev'', qp_value = None\<rparr>])"
  by (rule query_params_parse_text) (simp_all add: param_ok_def in_name_def in_value_def)

text \<open>
  A query string that ends in \<open>&\<close> is read past its terminating NUL: the parser skips the empty
  name and looks at the character after the end.  The same happens for the empty query string.
\<close>

theorem query_params_parse_trailing_amp:
  assumes "\<forall>p\<in>set ps. param_ok p"
  shows "query_params_parse (if ps = [] then [] else query_text ps @ ''&'') = Inl Oob_read"
proof (cases "ps = []")
  case True
  then show ?thesis by (simp add: query_params_parse_def query_params_loop.simps [of "[]"])
next
  case False
  then show ?thesis
    using loop_query_text [OF False assms, of "''&''" "[]"] loop_trailing_amp
    by (simp add: query_params_parse_def in_value_def)
qed

theorem query_params_parse_trailing_amp_witness:
  "query_params_parse (if [\<lparr>qp_name = ''id'', qp_value = Some ''1.9''\<rparr>] = [] then []
     else query_text [\<lparr>qp_name = ''id'', qp_value = Some ''1.9''\<rparr>] @ ''&'') = Inl Oob_read"
  by (rule query_params_parse_trailing_amp) (simp add: param_ok_def in_name_def in_value_def)

end
