(* ===== verification/CQueue.thy ===== *)
theory CQueue
  imports HK_Prelude
begin

text \<open>
  The ring buffer of \<open>src/cQueue.c\<close> and \<open>src/cQueue.h\<close>, which holds the events waiting for a client.
  A record of \<open>rec_sz\<close> bytes is one value of type \<open>'a\<close>, so slot \<open>i\<close> of the list stands for the bytes
  at \<open>queue + rec_sz * i\<close>.  Indices and counts are at most \<open>rec_nb < 2 ^ 16\<close> in every queue that
  satisfies \<open>q_inv\<close>, so their 16-bit arithmetic does not wrap.
\<close>

section \<open>Data\<close>

datatype queue_type = FIFO | LIFO

record 'a queue_t =
  impl :: queue_type
  ovw :: bool
  rec_nb :: nat
  rec_sz :: nat
  queue_sz :: nat
  queue :: "'a list option"
  q_in :: nat
  q_out :: nat
  cnt :: nat
  init_mark :: nat

definition QUEUE_INITIALIZED :: nat where
  "QUEUE_INITIALIZED = 0x5AA5"

section \<open>Operations\<close>

text \<open>The comparison with \<open>end - 1\<close> is on promoted integers.\<close>

definition inc_idx :: "nat \<Rightarrow> nat \<Rightarrow> nat \<Rightarrow> nat" where
  "inc_idx idx lim start = (if int idx < int lim - 1 then idx + 1 else start)"

definition dec_idx :: "nat \<Rightarrow> nat \<Rightarrow> nat \<Rightarrow> nat" where
  "dec_idx idx lim start = (if idx > start then idx - 1 else lim - 1)"

definition q_isInitialized :: "'a queue_t \<Rightarrow> bool" where
  "q_isInitialized q \<longleftrightarrow> init_mark q = QUEUE_INITIALIZED"

definition q_isEmpty :: "'a queue_t \<Rightarrow> bool" where
  "q_isEmpty q \<longleftrightarrow> cnt q = 0"

definition q_isFull :: "'a queue_t \<Rightarrow> bool" where
  "q_isFull q \<longleftrightarrow> cnt q = rec_nb q"

definition q_sizeof :: "'a queue_t \<Rightarrow> nat" where
  "q_sizeof q = queue_sz q"

definition q_getCount :: "'a queue_t \<Rightarrow> nat" where
  "q_getCount q = cnt q"

definition q_getRemainingCount :: "'a queue_t \<Rightarrow> nat" where
  "q_getRemainingCount q = rec_nb q - cnt q"

definition q_kill :: "'a queue_t \<Rightarrow> 'a queue_t" where
  "q_kill q = q\<lparr>init_mark := 0\<rparr>"

definition q_flush :: "'a queue_t \<Rightarrow> 'a queue_t" where
  "q_flush q = q\<lparr>q_in := 0, q_out := 0, cnt := 0\<rparr>"

text \<open>
  \<open>mem\<close> is what \<open>malloc\<close> returns: \<open>None\<close> for NULL, else as many slots as asked for, with whatever
  they hold.  The result pairs the returned pointer with the queue.
\<close>

definition q_init ::
  "'a queue_t \<Rightarrow> nat \<Rightarrow> nat \<Rightarrow> queue_type \<Rightarrow> bool \<Rightarrow> 'a list option \<Rightarrow> 'a list option \<times> 'a queue_t"
  where
  "q_init q size_rec nb_recs type overwrite mem =
     (let q1 = q_kill (q\<lparr>rec_nb := nb_recs, rec_sz := size_rec, impl := type, ovw := overwrite\<rparr>);
          q2 = q1\<lparr>queue := mem\<rparr>
      in case mem of
           None \<Rightarrow> (None, q2\<lparr>queue_sz := 0\<rparr>)
         | Some slots \<Rightarrow>
             (mem, q_flush (q2\<lparr>queue_sz := nb_recs * size_rec, init_mark := QUEUE_INITIALIZED\<rparr>)))"

definition store_slot :: "'a list option \<Rightarrow> nat \<Rightarrow> 'a \<Rightarrow> fault + 'a list option" where
  "store_slot m i x =
     (case m of None \<Rightarrow> Inl Null_deref
      | Some xs \<Rightarrow> if i < length xs then Inr (Some (xs[i := x])) else Inl Oob_write)"

definition load_slot :: "'a list option \<Rightarrow> nat \<Rightarrow> fault + 'a" where
  "load_slot m i =
     (case m of None \<Rightarrow> Inl Null_deref
      | Some xs \<Rightarrow> if i < length xs then Inr (xs ! i) else Inl Oob_read)"

definition q_push :: "'a queue_t \<Rightarrow> 'a \<Rightarrow> fault + (bool \<times> 'a queue_t)" where
  "q_push q x =
     (if \<not> ovw q \<and> q_isFull q then Inr (False, q)
      else bind_res (store_slot (queue q) (q_in q) x) (\<lambda>m.
        let q1 = q\<lparr>queue := m, q_in := inc_idx (q_in q) (rec_nb q) 0\<rparr> in
        if \<not> q_isFull q1 then Inr (True, q1\<lparr>cnt := cnt q1 + 1\<rparr>)
        else if ovw q1 \<and> impl q1 = FIFO
          then Inr (True, q1\<lparr>q_out := inc_idx (q_out q1) (rec_nb q1) 0\<rparr>)
        else Inr (True, q1)))"

text \<open>\<open>None\<close> is the return value \<open>false\<close>; \<open>Some x\<close> is \<open>true\<close> with the record copied out.\<close>

definition q_pop :: "'a queue_t \<Rightarrow> fault + ('a option \<times> 'a queue_t)" where
  "q_pop q =
     (if q_isEmpty q then Inr (None, q)
      else (case impl q of
              FIFO \<Rightarrow>
                bind_res (load_slot (queue q) (q_out q)) (\<lambda>x.
                  Inr (Some x, q\<lparr>q_out := inc_idx (q_out q) (rec_nb q) 0, cnt := cnt q - 1\<rparr>))
            | LIFO \<Rightarrow>
                (let i = dec_idx (q_in q) (rec_nb q) 0 in
                 bind_res (load_slot (queue q) i) (\<lambda>x.
                   Inr (Some x, q\<lparr>q_in := i, cnt := cnt q - 1\<rparr>)))))"

definition q_peek :: "'a queue_t \<Rightarrow> fault + 'a option" where
  "q_peek q =
     (if q_isEmpty q then Inr None
      else bind_res
        (load_slot (queue q)
           (case impl q of FIFO \<Rightarrow> q_out q | LIFO \<Rightarrow> dec_idx (q_in q) (rec_nb q) 0))
        (\<lambda>x. Inr (Some x)))"

definition q_drop :: "'a queue_t \<Rightarrow> bool \<times> 'a queue_t" where
  "q_drop q =
     (if q_isEmpty q then (False, q)
      else (case impl q of
              FIFO \<Rightarrow> (True, q\<lparr>q_out := inc_idx (q_out q) (rec_nb q) 0, cnt := cnt q - 1\<rparr>)
            | LIFO \<Rightarrow> (True, q\<lparr>q_in := dec_idx (q_in q) (rec_nb q) 0, cnt := cnt q - 1\<rparr>)))"

definition q_peekIdx :: "'a queue_t \<Rightarrow> nat \<Rightarrow> fault + 'a option" where
  "q_peekIdx q idx =
     (if idx + 1 > q_getCount q then Inr None
      else bind_res
        (load_slot (queue q) (case impl q of FIFO \<Rightarrow> (q_out q + idx) mod rec_nb q | LIFO \<Rightarrow> idx))
        (\<lambda>x. Inr (Some x)))"

text \<open>\<open>q_getCount(q) - 1\<close> is kept in a 16-bit variable.\<close>

definition q_peekPrevious :: "'a queue_t \<Rightarrow> fault + 'a option" where
  "q_peekPrevious q = q_peekIdx q (unat (of_nat (q_getCount q) - 1 :: u16))"

text \<open>The client's loop \<open>while (q_pop(q, &e)) s = body(s, e);\<close>.\<close>

function q_pop_fold :: "('s \<Rightarrow> 'a \<Rightarrow> 's) \<Rightarrow> 's \<Rightarrow> 'a queue_t \<Rightarrow> fault + ('s \<times> 'a queue_t)" where
  "q_pop_fold body s q =
     bind_res (q_pop q) (\<lambda>(r, q').
       case r of None \<Rightarrow> Inr (s, q') | Some e \<Rightarrow> q_pop_fold body (body s e) q')"
  by pat_completeness auto
termination
  by (relation "measure (\<lambda>(body, s, q). cnt q)")
     (auto simp: q_pop_def q_isEmpty_def Let_def split: if_splits queue_type.splits)

declare q_pop_fold.simps [simp del]

fun q_push_all :: "'a queue_t \<Rightarrow> 'a list \<Rightarrow> fault + 'a queue_t" where
  "q_push_all q [] = Inr q"
| "q_push_all q (x # xs) = bind_res (q_push q x) (\<lambda>(r, q'). q_push_all q' xs)"

section \<open>The contract of a bounded queue\<close>

text \<open>
  What a user of the queue relies on: \<open>items q\<close> are the records in the order \<open>q_pop\<close> gives them back,
  \<open>ins\<close> is what a push does to that list, \<open>pop_fold\<close> is the loop that empties the queue.
\<close>

locale record_queue =
  fixes inv :: "'q \<Rightarrow> bool"
    and items :: "'q \<Rightarrow> 'a list"
    and ins :: "'a \<Rightarrow> 'a list \<Rightarrow> 'a list"
    and push :: "'q \<Rightarrow> 'a \<Rightarrow> fault + (bool \<times> 'q)"
    and pop :: "'q \<Rightarrow> fault + ('a option \<times> 'q)"
    and pop_fold :: "('s \<Rightarrow> 'a \<Rightarrow> 's) \<Rightarrow> 's \<Rightarrow> 'q \<Rightarrow> fault + ('s \<times> 'q)"
    and push_all :: "'q \<Rightarrow> 'a list \<Rightarrow> fault + 'q"
  assumes push_ok: "inv q \<Longrightarrow> \<exists>q'. push q x = Inr (True, q') \<and> inv q' \<and> items q' = ins x (items q)"
    and pop_empty: "inv q \<Longrightarrow> items q = [] \<Longrightarrow> pop q = Inr (None, q)"
    and pop_first: "inv q \<Longrightarrow> items q = x # xs \<Longrightarrow>
      \<exists>q'. pop q = Inr (Some x, q') \<and> inv q' \<and> items q' = xs"
    and pop_fold_unfold: "pop_fold body s q =
      bind_res (pop q) (\<lambda>(r, q').
        case r of None \<Rightarrow> Inr (s, q') | Some e \<Rightarrow> pop_fold body (body s e) q')"
    and push_all_Nil: "push_all q [] = Inr q"
    and push_all_Cons: "push_all q (x # xs) = bind_res (push q x) (\<lambda>(r, q'). push_all q' xs)"
begin

lemma pop_fold_items:
  "inv q \<Longrightarrow> \<exists>q'. pop_fold body s q = Inr (foldl body s (items q), q') \<and> inv q' \<and> items q' = []"
proof (induction "items q" arbitrary: q s)
  case Nil
  then have "pop q = Inr (None, q)" by (simp add: pop_empty)
  with Nil show ?case by (subst pop_fold_unfold) simp
next
  case (Cons x xs)
  from pop_first [OF Cons.prems Cons.hyps(2) [symmetric]]
  obtain q' where q': "pop q = Inr (Some x, q')" "inv q'" "items q' = xs" by blast
  with Cons.hyps(1) [of q' "body s x"] Cons.hyps(2) [symmetric] show ?case
    by (subst pop_fold_unfold) simp
qed

lemma push_all_items:
  "inv q \<Longrightarrow> \<exists>q'. push_all q xs = Inr q' \<and> inv q' \<and> items q' = foldl (\<lambda>s x. ins x s) (items q) xs"
proof (induction xs arbitrary: q)
  case Nil
  then show ?case by (simp add: push_all_Nil)
next
  case (Cons x xs)
  from push_ok [OF Cons.prems, of x]
  obtain q' where "push q x = Inr (True, q')" "inv q'" "items q' = ins x (items q)" by blast
  with Cons.IH [of q'] show ?case by (simp add: push_all_Cons)
qed

lemma push_all_pop_fold:
  assumes "inv q"
  shows "\<exists>q'. bind_res (push_all q xs) (pop_fold body s)
    = Inr (foldl body s (foldl (\<lambda>s x. ins x s) (items q) xs), q') \<and> inv q' \<and> items q' = []"
proof -
  from push_all_items [OF assms, of xs] obtain q' where "push_all q xs = Inr q'" "inv q'"
    "items q' = foldl (\<lambda>s x. ins x s) (items q) xs" by blast
  with pop_fold_items [of q' body s] show ?thesis by simp
qed

end

section \<open>The abstract contents\<close>

text \<open>The records in the order \<open>q_pop\<close> returns them: oldest first in a FIFO, newest first in a LIFO.\<close>

definition q_slot :: "'a queue_t \<Rightarrow> nat \<Rightarrow> nat" where
  "q_slot q i =
     (case impl q of
        FIFO \<Rightarrow> (q_out q + i) mod rec_nb q
      | LIFO \<Rightarrow> (q_in q + (rec_nb q - 1 - i)) mod rec_nb q)"

definition q_items :: "'a queue_t \<Rightarrow> 'a list" where
  "q_items q =
     (case queue q of None \<Rightarrow> [] | Some xs \<Rightarrow> map (\<lambda>i. xs ! q_slot q i) [0..<cnt q])"

definition q_inv :: "'a queue_t \<Rightarrow> bool" where
  "q_inv q \<longleftrightarrow> 0 < rec_nb q \<and> rec_nb q < 2 ^ 16 \<and>
     (\<exists>xs. queue q = Some xs \<and> length xs = rec_nb q) \<and>
     q_in q < rec_nb q \<and> cnt q \<le> rec_nb q \<and>
     (impl q = FIFO \<longrightarrow> q_out q < rec_nb q \<and> q_in q = (q_out q + cnt q) mod rec_nb q)"

lemma length_q_items: "q_inv q \<Longrightarrow> length (q_items q) = cnt q"
  by (auto simp: q_items_def q_inv_def)

lemma inc_idx_mod: "i < n \<Longrightarrow> inc_idx i n 0 = Suc i mod n"
  by (cases "Suc i = n") (auto simp: inc_idx_def)

lemma dec_idx_mod: "i < n \<Longrightarrow> dec_idx i n 0 = (i + (n - 1)) mod n"
  by (cases i) (auto simp: dec_idx_def mod_if)

lemma mod_add_inj_le:
  assumes "(a + i) mod n = (a + j) mod n" and "i \<le> j" and "j < (n :: nat)"
  shows "i = j"
proof -
  from assms(1,2) have "n dvd (a + j) - (a + i)"
    by (metis add_le_cancel_left mod_eq_dvd_iff_nat)
  then have "n dvd j - i" by simp
  with assms(2,3) show ?thesis by (auto dest: dvd_imp_le)
qed

lemma mod_add_inj:
  assumes "(a + i) mod n = (a + j) mod n" and "i < n" and "j < (n :: nat)"
  shows "i = j"
  using assms mod_add_inj_le [of a i n j] mod_add_inj_le [of a j n i] by (cases "i \<le> j") auto

lemma q_invE:
  assumes "q_inv q"
  obtains xs where "queue q = Some xs" and "length xs = rec_nb q"
    and "0 < rec_nb q" and "q_in q < rec_nb q" and "cnt q \<le> rec_nb q"
  using assms by (auto simp: q_inv_def)

lemma q_items_nth: "queue q = Some xs \<Longrightarrow> i < cnt q \<Longrightarrow> q_items q ! i = xs ! q_slot q i"
  by (simp add: q_items_def)

section \<open>LIFO\<close>

text \<open>Slots seen from the index after a push or before a pop.\<close>

lemma lifo_slot_shift:
  assumes "i < n" and "Suc k < n"
  shows "(Suc i mod n + (n - 1 - Suc k)) mod n = (i + (n - 1 - k)) mod n"
proof -
  have "(Suc i mod n + (n - 1 - Suc k)) mod n = (Suc i + (n - 1 - Suc k)) mod n"
    by (rule mod_add_left_eq)
  also from assms(2) have "Suc i + (n - 1 - Suc k) = i + (n - 1 - k)" by simp
  finally show ?thesis .
qed

lemma lifo_slot_first: "i < n \<Longrightarrow> (Suc i mod n + (n - 1)) mod n = i"
proof -
  assume "i < n"
  have "(Suc i mod n + (n - 1)) mod n = (Suc i + (n - 1)) mod n" by (rule mod_add_left_eq)
  also from \<open>i < n\<close> have "Suc i + (n - 1) = i + n" by simp
  finally show ?thesis using \<open>i < n\<close> by simp
qed

lemma lifo_slot_pop:
  assumes "i < n" and "Suc k < n"
  shows "((i + (n - 1)) mod n + (n - 1 - k)) mod n = (i + (n - 1 - Suc k)) mod n"
proof -
  have "((i + (n - 1)) mod n + (n - 1 - k)) mod n = (i + (n - 1) + (n - 1 - k)) mod n"
    by (rule mod_add_left_eq)
  also from assms have "i + (n - 1) + (n - 1 - k) = i + (n - 1 - Suc k) + n" by simp
  finally show ?thesis by simp
qed

lemma lifo_push:
  assumes inv: "q_inv q" and lifo: "impl q = LIFO" and room: "ovw q \<or> cnt q < rec_nb q"
  shows "\<exists>q'. q_push q x = Inr (True, q') \<and> q_inv q' \<and> impl q' = LIFO \<and> ovw q' = ovw q \<and>
    rec_nb q' = rec_nb q \<and> q_items q' = take (rec_nb q) (x # q_items q)"
proof -
  from inv obtain xs where xs: "queue q = Some xs" and len: "length xs = rec_nb q"
    and n: "0 < rec_nb q" and i: "q_in q < rec_nb q" and c: "cnt q \<le> rec_nb q"
    by (rule q_invE)
  let ?c = "if cnt q = rec_nb q then cnt q else cnt q + 1"
  let ?q = "q\<lparr>queue := Some (xs[q_in q := x]), q_in := Suc (q_in q) mod rec_nb q, cnt := ?c\<rparr>"
  have "q_push q x = Inr (True, ?q)"
    using room lifo xs len i
    by (auto simp: q_push_def q_isFull_def store_slot_def inc_idx_mod Let_def)
  moreover have "q_inv ?q" using inv lifo len n c by (auto simp: q_inv_def)
  moreover have "q_items ?q = take (rec_nb q) (x # q_items q)"
  proof (rule nth_equalityI)
    have "length (q_items q) = cnt q" using inv by (rule length_q_items)
    with \<open>q_inv ?q\<close> c show "length (q_items ?q) = length (take (rec_nb q) (x # q_items q))"
      by (simp add: length_q_items min_def)
  next
    fix k assume "k < length (q_items ?q)"
    then have k: "k < ?c" using length_q_items [OF \<open>q_inv ?q\<close>] by simp
    show "q_items ?q ! k = take (rec_nb q) (x # q_items q) ! k"
    proof (cases k)
      case 0
      have "q_slot ?q 0 = q_in q" using lifo lifo_slot_first [OF i] by (simp add: q_slot_def)
      with 0 k i len n show ?thesis by (simp add: q_items_nth)
    next
      case (Suc j)
      with k c have j: "Suc j < rec_nb q" "j < cnt q" by (auto split: if_splits)
      have "(q_in q + (rec_nb q - 1 - j)) mod rec_nb q \<noteq> (q_in q + 0) mod rec_nb q"
        using mod_add_inj [of "q_in q" "rec_nb q - 1 - j" "rec_nb q" 0] j by auto
      then have ne: "(q_in q + (rec_nb q - 1 - j)) mod rec_nb q \<noteq> q_in q" using i by simp
      have "q_items ?q ! Suc j = xs[q_in q := x] ! ((q_in q + (rec_nb q - 1 - j)) mod rec_nb q)"
        using k Suc lifo lifo_slot_shift [OF i j(1)] by (simp add: q_items_def q_slot_def)
      also have "\<dots> = xs ! ((q_in q + (rec_nb q - 1 - j)) mod rec_nb q)" using ne by simp
      also have "\<dots> = q_items q ! j" using xs lifo j by (simp add: q_items_def q_slot_def)
      finally show ?thesis using Suc j k c by simp
    qed
  qed
  ultimately show ?thesis using lifo by (intro exI [of _ ?q]) simp
qed

lemma lifo_pop:
  assumes inv: "q_inv q" and lifo: "impl q = LIFO" and items: "q_items q = y # ys"
  shows "\<exists>q'. q_pop q = Inr (Some y, q') \<and> q_inv q' \<and> impl q' = LIFO \<and> ovw q' = ovw q \<and>
    rec_nb q' = rec_nb q \<and> q_items q' = ys"
proof -
  from inv obtain xs where xs: "queue q = Some xs" and len: "length xs = rec_nb q"
    and n: "0 < rec_nb q" and i: "q_in q < rec_nb q" and c: "cnt q \<le> rec_nb q"
    by (rule q_invE)
  have cnt: "cnt q = Suc (length ys)" using length_q_items [OF inv] items by simp
  let ?i = "(q_in q + (rec_nb q - 1)) mod rec_nb q"
  let ?q = "q\<lparr>q_in := ?i, cnt := length ys\<rparr>"
  have "q_slot q 0 = ?i" using lifo by (simp add: q_slot_def)
  then have y: "y = xs ! ?i" using items q_items_nth [OF xs, of 0] cnt by simp
  have "q_pop q = Inr (Some y, ?q)"
    using cnt lifo xs len i n y
    by (simp add: q_pop_def q_isEmpty_def load_slot_def dec_idx_mod Let_def)
  moreover have "q_inv ?q" using inv lifo c cnt by (auto simp: q_inv_def)
  moreover have "q_items ?q = ys"
  proof (rule nth_equalityI)
    show "length (q_items ?q) = length ys" using length_q_items [OF \<open>q_inv ?q\<close>] by simp
  next
    fix k assume "k < length (q_items ?q)"
    then have k: "k < length ys" using length_q_items [OF \<open>q_inv ?q\<close>] by simp
    with c cnt have "Suc k < rec_nb q" by simp
    from lifo_slot_pop [OF i this] k have "q_items ?q ! k = q_items q ! Suc k"
      using xs lifo cnt by (simp add: q_items_def q_slot_def del: upt_Suc)
    with items show "q_items ?q ! k = ys ! k" by simp
  qed
  ultimately show ?thesis using lifo by (intro exI [of _ ?q]) simp
qed

lemma pop_empty_queue: "q_inv q \<Longrightarrow> q_items q = [] \<Longrightarrow> q_pop q = Inr (None, q)"
  using length_q_items [of q] by (simp add: q_pop_def q_isEmpty_def)

section \<open>FIFO\<close>

lemma fifo_push:
  assumes inv: "q_inv q" and fifo: "impl q = FIFO" and room: "ovw q \<or> cnt q < rec_nb q"
  shows "\<exists>q'. q_push q x = Inr (True, q') \<and> q_inv q' \<and> impl q' = FIFO \<and> ovw q' = ovw q \<and>
    rec_nb q' = rec_nb q \<and>
    q_items q' = (if cnt q = rec_nb q then tl (q_items q) else q_items q) @ [x]"
proof -
  from inv obtain xs where xs: "queue q = Some xs" and len: "length xs = rec_nb q"
    and n: "0 < rec_nb q" and i: "q_in q < rec_nb q" and c: "cnt q \<le> rec_nb q"
    by (rule q_invE)
  from inv fifo have o: "q_out q < rec_nb q" and io: "q_in q = (q_out q + cnt q) mod rec_nb q"
    by (simp_all add: q_inv_def)
  define full where "full \<longleftrightarrow> cnt q = rec_nb q"
  let ?o = "if full then Suc (q_out q) mod rec_nb q else q_out q"
  let ?q = "q\<lparr>queue := Some (xs[q_in q := x]), q_in := Suc (q_in q) mod rec_nb q, q_out := ?o,
    cnt := if full then cnt q else cnt q + 1\<rparr>"
  have "q_push q x = Inr (True, ?q)"
    using room fifo xs len i o c
    by (auto simp: q_push_def q_isFull_def store_slot_def inc_idx_mod Let_def full_def)
  moreover have inv': "q_inv ?q"
  proof -
    have "Suc (q_out q + rec_nb q) mod rec_nb q = Suc (q_out q) mod rec_nb q"
      by (metis add_Suc mod_add_self2)
    then show ?thesis using inv fifo len n c o io by (auto simp: q_inv_def full_def mod_simps)
  qed
  moreover have "q_items ?q = (if full then tl (q_items q) else q_items q) @ [x]"
  proof (rule nth_equalityI)
    have "length (q_items q) = cnt q" using inv by (rule length_q_items)
    with length_q_items [OF inv'] n
    show "length (q_items ?q) = length ((if full then tl (q_items q) else q_items q) @ [x])"
      by (auto simp: full_def)
  next
    fix k assume "k < length (q_items ?q)"
    then have k: "k < cnt ?q" using length_q_items [OF inv'] by simp
    define m where "m = (if full then cnt q - 1 else cnt q)"
    have m: "cnt ?q = Suc m" "m < rec_nb q" using n c by (auto simp: m_def full_def)
    have lens: "length (q_items q) = cnt q" using inv by (rule length_q_items)
    have out: "?o + j = (if full then Suc (q_out q) mod rec_nb q else q_out q) + j" for j by simp
    have slot: "q_slot ?q j = (if full then q_slot q (Suc j) else q_slot q j)" for j
      using fifo by (simp add: q_slot_def mod_simps)
    have last: "q_slot ?q m = q_in q"
      using slot [of m] io fifo n by (auto simp: q_slot_def m_def full_def)
    show "q_items ?q ! k = ((if full then tl (q_items q) else q_items q) @ [x]) ! k"
    proof (cases "k = m")
      case True
      with k m last i len lens show ?thesis
        by (auto simp: q_items_nth nth_append m_def full_def)
    next
      case False
      with k m have km: "k < m" by simp
      then have "q_slot ?q k \<noteq> q_slot ?q m"
        using mod_add_inj [of "?o" k "rec_nb q" m] fifo m by (auto simp: q_slot_def)
      with last have "q_slot ?q k \<noteq> q_in q" by simp
      with km k lens slot [of k] xs show ?thesis
        by (auto simp: q_items_nth nth_append m_def nth_tl split: if_splits)
    qed
  qed
  ultimately show ?thesis using fifo by (intro exI [of _ ?q]) (simp add: full_def)
qed

lemma fifo_pop:
  assumes inv: "q_inv q" and fifo: "impl q = FIFO" and items: "q_items q = y # ys"
  shows "\<exists>q'. q_pop q = Inr (Some y, q') \<and> q_inv q' \<and> impl q' = FIFO \<and> ovw q' = ovw q \<and>
    rec_nb q' = rec_nb q \<and> q_items q' = ys"
proof -
  from inv obtain xs where xs: "queue q = Some xs" and len: "length xs = rec_nb q"
    and n: "0 < rec_nb q" and i: "q_in q < rec_nb q" and c: "cnt q \<le> rec_nb q"
    by (rule q_invE)
  from inv fifo have o: "q_out q < rec_nb q" and io: "q_in q = (q_out q + cnt q) mod rec_nb q"
    by (simp_all add: q_inv_def)
  have cnt: "cnt q = Suc (length ys)" using length_q_items [OF inv] items by simp
  let ?q = "q\<lparr>q_out := Suc (q_out q) mod rec_nb q, cnt := length ys\<rparr>"
  have "q_slot q 0 = q_out q" using fifo o by (simp add: q_slot_def)
  then have y: "y = xs ! q_out q" using items q_items_nth [OF xs, of 0] cnt by simp
  have "q_pop q = Inr (Some y, ?q)"
    using cnt fifo xs len o y
    by (simp add: q_pop_def q_isEmpty_def load_slot_def inc_idx_mod Let_def)
  moreover have inv': "q_inv ?q"
    using inv fifo c cnt n io by (auto simp: q_inv_def mod_simps)
  moreover have "q_items ?q = ys"
  proof (rule nth_equalityI)
    show "length (q_items ?q) = length ys" using length_q_items [OF inv'] by simp
  next
    fix k assume "k < length (q_items ?q)"
    then have k: "k < length ys" using length_q_items [OF inv'] by simp
    have "q_slot ?q k = q_slot q (Suc k)" using fifo by (simp add: q_slot_def mod_simps)
    with k xs cnt have "q_items ?q ! k = q_items q ! Suc k" by (simp add: q_items_nth)
    with items show "q_items ?q ! k = ys ! k" by simp
  qed
  ultimately show ?thesis using fifo by (intro exI [of _ ?q]) simp
qed

section \<open>The two disciplines meet the contract\<close>

definition ring_inv :: "queue_type \<Rightarrow> nat \<Rightarrow> 'a queue_t \<Rightarrow> bool" where
  "ring_inv ty n q \<longleftrightarrow> q_inv q \<and> impl q = ty \<and> ovw q \<and> rec_nb q = n"

definition lifo_ins :: "nat \<Rightarrow> 'a \<Rightarrow> 'a list \<Rightarrow> 'a list" where
  "lifo_ins n x xs = take n (x # xs)"

definition fifo_ins :: "nat \<Rightarrow> 'a \<Rightarrow> 'a list \<Rightarrow> 'a list" where
  "fifo_ins n x xs = (if length xs = n then tl xs else xs) @ [x]"

interpretation lifo: record_queue "ring_inv LIFO n" q_items "lifo_ins n" q_push q_pop q_pop_fold q_push_all
  for n :: nat
proof unfold_locales
  fix q :: "'a queue_t" and x
  assume "ring_inv LIFO n q"
  with lifo_push [of q x]
  show "\<exists>q'. q_push q x = Inr (True, q') \<and> ring_inv LIFO n q' \<and> q_items q' = lifo_ins n x (q_items q)"
    by (auto simp: ring_inv_def lifo_ins_def)
next
  fix q :: "'a queue_t" and x xs
  assume "ring_inv LIFO n q" and "q_items q = x # xs"
  with lifo_pop [of q x xs]
  show "\<exists>q'. q_pop q = Inr (Some x, q') \<and> ring_inv LIFO n q' \<and> q_items q' = xs"
    by (auto simp: ring_inv_def)
qed (auto simp: ring_inv_def pop_empty_queue q_pop_fold.simps [of _ _ "_ :: 'a queue_t"])

interpretation fifo: record_queue "ring_inv FIFO n" q_items "fifo_ins n" q_push q_pop q_pop_fold q_push_all
  for n :: nat
proof unfold_locales
  fix q :: "'a queue_t" and x
  assume "ring_inv FIFO n q"
  with fifo_push [of q x] length_q_items [of q]
  show "\<exists>q'. q_push q x = Inr (True, q') \<and> ring_inv FIFO n q' \<and> q_items q' = fifo_ins n x (q_items q)"
    by (auto simp: ring_inv_def fifo_ins_def)
next
  fix q :: "'a queue_t" and x xs
  assume "ring_inv FIFO n q" and "q_items q = x # xs"
  with fifo_pop [of q x xs]
  show "\<exists>q'. q_pop q = Inr (Some x, q') \<and> ring_inv FIFO n q' \<and> q_items q' = xs"
    by (auto simp: ring_inv_def)
qed (auto simp: ring_inv_def pop_empty_queue q_pop_fold.simps [of _ _ "_ :: 'a queue_t"])

lemma q_init_inv:
  assumes "q_init q sz n ty True (Some mem) = (p, q')" and "length mem = n" and "0 < n" and "n < 2 ^ 16"
  shows "ring_inv ty n q' \<and> q_items q' = []"
  using assms
  by (auto simp: q_init_def Let_def q_kill_def q_flush_def ring_inv_def q_inv_def q_items_def)

lemma foldl_lifo_ins: "foldl (\<lambda>s x. lifo_ins n x s) (take n s) xs = take n (rev xs @ s)"
proof (induction xs arbitrary: s)
  case (Cons x xs)
  have "lifo_ins n x (take n s) = take n (x # s)"
    by (cases n) (auto simp: lifo_ins_def min_def)
  with Cons [of "x # s"] show ?case by simp
qed simp

lemma foldl_fifo_ins:
  assumes "0 < n" and "length s \<le> n"
  shows "foldl (\<lambda>s x. fifo_ins n x s) s xs = drop (length (s @ xs) - n) (s @ xs)"
  using assms(2)
proof (induction xs arbitrary: s)
  case (Cons x xs)
  show ?case
  proof (cases "length s = n")
    case True
    with assms(1) obtain y ys where s: "s = y # ys" by (cases s) auto
    with True Cons.IH [of "ys @ [x]"] show ?thesis
      by (simp add: fifo_ins_def Suc_diff_le)
  next
    case False
    with Cons.prems Cons.IH [of "s @ [x]"] show ?thesis by (simp add: fifo_ins_def)
  qed
qed simp

section \<open>Properties\<close>

definition blank_queue :: "nat queue_t" where
  "blank_queue = \<lparr>impl = FIFO, ovw = False, rec_nb = 0, rec_sz = 0, queue_sz = 0, queue = None,
     q_in = 0, q_out = 0, cnt = 0, init_mark = 0\<rparr>"

text \<open>
  A last-in-first-out queue that overwrites, as every client gets one, is a stack that keeps the
  newest \<open>n\<close> records: after \<open>xs\<close> is pushed, record by record, onto a fresh queue of \<open>n\<close> slots, the
  loop \<open>while (q_pop(...))\<close> sees exactly the last \<open>n\<close> of them, newest first, and leaves it empty.
\<close>

theorem lifo_queue_keeps_newest:
  assumes "q_init q sz n LIFO True (Some mem) = (p, q1)" and "length mem = n" and "0 < n" and "n < 2 ^ 16"
  shows "\<exists>q2. bind_res (q_push_all q1 xs) (q_pop_fold body s)
    = Inr (foldl body s (take n (rev xs)), q2) \<and> q_isEmpty q2"
proof -
  from q_init_inv [OF assms] have inv: "ring_inv LIFO n q1" and "q_items q1 = []" by simp_all
  then obtain q2 where "bind_res (q_push_all q1 xs) (q_pop_fold body s)
      = Inr (foldl body s (foldl (\<lambda>s x. lifo_ins n x s) [] xs), q2)"
    and "ring_inv LIFO n q2" and "q_items q2 = []"
    using lifo.push_all_pop_fold [OF inv, of xs body s] by auto
  moreover from this have "q_isEmpty q2"
    using length_q_items [of q2] by (simp add: ring_inv_def q_isEmpty_def)
  ultimately show ?thesis using foldl_lifo_ins [of n "[]" xs] by simp
qed

theorem lifo_queue_keeps_newest_witness:
  "\<exists>q2. bind_res (q_push_all (snd (q_init blank_queue 4 4 LIFO True (Some [0, 0, 0, 0]))) [1, 2, 3, 4, 5, 6])
      (q_pop_fold (\<lambda>s e. s @ [e]) [])
    = Inr (foldl (\<lambda>s e. s @ [e]) [] (take 4 (rev [1, 2, 3, 4, 5, 6])), q2) \<and> q_isEmpty q2"
  by (rule lifo_queue_keeps_newest [OF surjective_pairing]) simp_all

text \<open>
  A first-in-first-out queue that overwrites keeps the newest \<open>n\<close> records too, and gives them
  back oldest first.
\<close>

theorem fifo_queue_keeps_newest:
  assumes "q_init q sz n FIFO True (Some mem) = (p, q1)" and "length mem = n" and "0 < n" and "n < 2 ^ 16"
  shows "\<exists>q2. bind_res (q_push_all q1 xs) (q_pop_fold body s)
    = Inr (foldl body s (drop (length xs - n) xs), q2) \<and> q_isEmpty q2"
proof -
  from q_init_inv [OF assms] have inv: "ring_inv FIFO n q1" and "q_items q1 = []" by simp_all
  then obtain q2 where "bind_res (q_push_all q1 xs) (q_pop_fold body s)
      = Inr (foldl body s (foldl (\<lambda>s x. fifo_ins n x s) [] xs), q2)"
    and "ring_inv FIFO n q2" and "q_items q2 = []"
    using fifo.push_all_pop_fold [OF inv, of xs body s] by auto
  moreover from this have "q_isEmpty q2"
    using length_q_items [of q2] by (simp add: ring_inv_def q_isEmpty_def)
  ultimately show ?thesis using foldl_fifo_ins [OF assms(3), of "[]" xs] by simp
qed

theorem fifo_queue_keeps_newest_witness:
  "\<exists>q2. bind_res (q_push_all (snd (q_init blank_queue 4 4 FIFO True (Some [0, 0, 0, 0]))) [1, 2, 3, 4, 5, 6])
      (q_pop_fold (\<lambda>s e. s @ [e]) [])
    = Inr (foldl (\<lambda>s e. s @ [e]) [] (drop (length [1 :: nat, 2, 3, 4, 5, 6] - 4) [1, 2, 3, 4, 5, 6]), q2) \<and> q_isEmpty q2"
  by (rule fifo_queue_keeps_newest [OF surjective_pairing]) simp_all

end
