(* ===== verification/Json_Stream.thy ===== *)
theory Json_Stream
  imports HK_Prelude
begin

text \<open>
  The streaming JSON writer of \<open>src/json.c\<close>: a state machine over start/end/value calls that
  formats into a fixed buffer and hands full buffers to a flush callback.  The stream keeps the
  buffer's first \<open>pos\<close> characters, the nesting stack (oldest first, its length is \<open>nesting_idx\<close>) and,
  standing for the calls of \<open>on_flush\<close>, the list of chunks flushed so far.
\<close>

section \<open>Data\<close>

definition JSON_MAX_DEPTH :: nat where
  "JSON_MAX_DEPTH = 30"

datatype json_state =
    JSON_STATE_START
  | JSON_STATE_END
  | JSON_STATE_OBJECT
  | JSON_STATE_OBJECT_KEY
  | JSON_STATE_OBJECT_VALUE
  | JSON_STATE_ARRAY
  | JSON_STATE_ARRAY_ITEM
  | JSON_STATE_ERROR

datatype json_nesting = JSON_NESTING_OBJECT | JSON_NESTING_ARRAY

record json_stream =
  js_buffer :: string
  js_size :: nat
  js_state :: json_state
  js_nesting :: "json_nesting list"
  js_on_flush :: bool
  js_flushed :: "string list"

section \<open>Output\<close>

definition json_new :: "nat \<Rightarrow> bool \<Rightarrow> json_stream" where
  "json_new buffer_size on_flush =
     \<lparr>js_buffer = [], js_size = buffer_size, js_state = JSON_STATE_START, js_nesting = [],
      js_on_flush = on_flush, js_flushed = []\<rparr>"

definition json_flush :: "json_stream \<Rightarrow> json_stream" where
  "json_flush json =
     (if js_buffer json = [] then json
      else json\<lparr>js_flushed := js_flushed json @ (if js_on_flush json then [js_buffer json] else []),
                js_buffer := []\<rparr>)"

text \<open>
  \<open>json_write\<close> with \<open>s\<close> the text \<open>vsnprintf\<close> would produce.  \<open>size - 1\<close> is unsigned, so the
  comparisons are never true for a buffer of size 0.  A text that does not fit an empty buffer is
  dropped.
\<close>

definition json_write :: "json_stream \<Rightarrow> string \<Rightarrow> json_stream" where
  "json_write json s =
     (if js_size json \<noteq> 0 \<and> length s + length (js_buffer json) > js_size json - 1 then
        (let json1 = json_flush json in
         if length s > js_size json1 - 1 then json1
         else json1\<lparr>js_buffer := js_buffer json1 @ s\<rparr>)
      else json\<lparr>js_buffer := js_buffer json @ s\<rparr>)"

section \<open>Objects and arrays\<close>

text \<open>\<open>nesting[nesting_idx++] = n\<close>.\<close>

definition push_nesting :: "json_stream \<Rightarrow> json_nesting \<Rightarrow> fault + json_stream" where
  "push_nesting json n =
     (if length (js_nesting json) < JSON_MAX_DEPTH
      then Inr (json\<lparr>js_nesting := js_nesting json @ [n]\<rparr>) else Inl Oob_write)"

text \<open>
  \<open>nesting_idx--\<close> and the state that the enclosing element continues in.  With an empty stack the
  8-bit index wraps to 255 and \<open>nesting[254]\<close> is read.
\<close>

definition pop_nesting :: "json_stream \<Rightarrow> fault + json_stream" where
  "pop_nesting json =
     (if js_nesting json = [] then Inl Oob_read
      else (let ns = butlast (js_nesting json); json1 = json\<lparr>js_nesting := ns\<rparr> in
            if ns = [] then Inr (json1\<lparr>js_state := JSON_STATE_END\<rparr>)
            else (case last ns of
                    JSON_NESTING_OBJECT \<Rightarrow> Inr (json1\<lparr>js_state := JSON_STATE_OBJECT_VALUE\<rparr>)
                  | JSON_NESTING_ARRAY \<Rightarrow> Inr (json1\<lparr>js_state := JSON_STATE_ARRAY_ITEM\<rparr>))))"

definition json_error :: "json_stream \<Rightarrow> fault + json_stream" where
  "json_error json = Inr (json\<lparr>js_state := JSON_STATE_ERROR\<rparr>)"

definition json_object_start :: "json_stream \<Rightarrow> fault + json_stream" where
  "json_object_start json =
     (let go = (\<lambda>j. push_nesting ((json_write j ''{'')\<lparr>js_state := JSON_STATE_OBJECT\<rparr>) JSON_NESTING_OBJECT) in
      case js_state json of
        JSON_STATE_ERROR \<Rightarrow> Inr json
      | JSON_STATE_ARRAY_ITEM \<Rightarrow> go (json_write json '','')
      | JSON_STATE_START \<Rightarrow> go json
      | JSON_STATE_OBJECT_KEY \<Rightarrow> go json
      | JSON_STATE_ARRAY \<Rightarrow> go json
      | _ \<Rightarrow> json_error json)"

definition json_object_end :: "json_stream \<Rightarrow> fault + json_stream" where
  "json_object_end json =
     (case js_state json of
        JSON_STATE_ERROR \<Rightarrow> Inr json
      | JSON_STATE_OBJECT \<Rightarrow> pop_nesting (json_write json ''}'')
      | JSON_STATE_OBJECT_VALUE \<Rightarrow> pop_nesting (json_write json ''}'')
      | _ \<Rightarrow> json_error json)"

definition json_array_start :: "json_stream \<Rightarrow> fault + json_stream" where
  "json_array_start json =
     (let go = (\<lambda>j. push_nesting ((json_write j ''['')\<lparr>js_state := JSON_STATE_ARRAY\<rparr>) JSON_NESTING_ARRAY) in
      case js_state json of
        JSON_STATE_ERROR \<Rightarrow> Inr json
      | JSON_STATE_ARRAY_ITEM \<Rightarrow> go (json_write json '','')
      | JSON_STATE_START \<Rightarrow> go json
      | JSON_STATE_OBJECT_KEY \<Rightarrow> go json
      | JSON_STATE_ARRAY \<Rightarrow> go json
      | _ \<Rightarrow> json_error json)"

definition json_array_end :: "json_stream \<Rightarrow> fault + json_stream" where
  "json_array_end json =
     (case js_state json of
        JSON_STATE_ERROR \<Rightarrow> Inr json
      | JSON_STATE_ARRAY \<Rightarrow> pop_nesting (json_write json '']'')
      | JSON_STATE_ARRAY_ITEM \<Rightarrow> pop_nesting (json_write json '']'')
      | _ \<Rightarrow> json_error json)"

section \<open>Values\<close>

text \<open>
  The transitions that \<open>_json_number\<close>, \<open>json_boolean\<close> and \<open>json_null\<close> write out in full, around
  their \<open>_do_write\<close> of the text \<open>s\<close>.
\<close>

definition json_scalar :: "json_stream \<Rightarrow> string \<Rightarrow> fault + json_stream" where
  "json_scalar json s =
     (case js_state json of
        JSON_STATE_ERROR \<Rightarrow> Inr json
      | JSON_STATE_START \<Rightarrow> Inr ((json_write json s)\<lparr>js_state := JSON_STATE_END\<rparr>)
      | JSON_STATE_ARRAY_ITEM \<Rightarrow>
          Inr ((json_write (json_write json '','') s)\<lparr>js_state := JSON_STATE_ARRAY_ITEM\<rparr>)
      | JSON_STATE_ARRAY \<Rightarrow> Inr ((json_write json s)\<lparr>js_state := JSON_STATE_ARRAY_ITEM\<rparr>)
      | JSON_STATE_OBJECT_KEY \<Rightarrow> Inr ((json_write json s)\<lparr>js_state := JSON_STATE_OBJECT_VALUE\<rparr>)
      | _ \<Rightarrow> json_error json)"

definition json_number :: "json_stream \<Rightarrow> string \<Rightarrow> fault + json_stream" where
  "json_number json v = json_scalar json v"

definition json_boolean :: "json_stream \<Rightarrow> bool \<Rightarrow> fault + json_stream" where
  "json_boolean json x = json_scalar json (if x then ''true'' else ''false'')"

definition json_null :: "json_stream \<Rightarrow> fault + json_stream" where
  "json_null json = json_scalar json ''null''"

text \<open>The string is written between quotes as it is, without escapes.\<close>

definition json_string :: "json_stream \<Rightarrow> string \<Rightarrow> fault + json_stream" where
  "json_string json x =
     (let s = [CHR 0x22] @ x @ [CHR 0x22] in
      case js_state json of
        JSON_STATE_ERROR \<Rightarrow> Inr json
      | JSON_STATE_START \<Rightarrow> Inr ((json_write json s)\<lparr>js_state := JSON_STATE_END\<rparr>)
      | JSON_STATE_ARRAY_ITEM \<Rightarrow>
          Inr ((json_write (json_write json '','') s)\<lparr>js_state := JSON_STATE_ARRAY_ITEM\<rparr>)
      | JSON_STATE_ARRAY \<Rightarrow> Inr ((json_write json s)\<lparr>js_state := JSON_STATE_ARRAY_ITEM\<rparr>)
      | JSON_STATE_OBJECT_VALUE \<Rightarrow>
          Inr ((json_write (json_write (json_write json '','') s) '':'')\<lparr>js_state := JSON_STATE_OBJECT_KEY\<rparr>)
      | JSON_STATE_OBJECT \<Rightarrow>
          Inr ((json_write (json_write json s) '':'')\<lparr>js_state := JSON_STATE_OBJECT_KEY\<rparr>)
      | JSON_STATE_OBJECT_KEY \<Rightarrow> Inr ((json_write json s)\<lparr>js_state := JSON_STATE_OBJECT_VALUE\<rparr>)
      | _ \<Rightarrow> json_error json)"

text \<open>The digit loop of \<open>json_uint64\<close>, from the last digit to the first.\<close>

definition digit_char :: "nat \<Rightarrow> char" where
  "digit_char d = char_of (48 + d)"

function dec_digits :: "nat \<Rightarrow> string \<Rightarrow> string" where
  "dec_digits x b =
     (let b' = digit_char (x mod 10) # b in if x div 10 = 0 then b' else dec_digits (x div 10) b')"
  by pat_completeness auto
termination
  by (relation "measure fst") auto

declare dec_digits.simps [simp del]

text \<open>\<open>%u\<close> and \<open>%d\<close>; \<open>snprintf\<close> into \<open>n\<close> bytes keeps the first \<open>n - 1\<close> characters.\<close>

definition fmt_u :: "nat \<Rightarrow> string" where
  "fmt_u x = dec_digits x []"

definition fmt_d :: "int \<Rightarrow> string" where
  "fmt_d x = (if x < 0 then CHR ''-'' # fmt_u (nat (- x)) else fmt_u (nat x))"

definition snprintf :: "nat \<Rightarrow> string \<Rightarrow> string" where
  "snprintf n s = take (n - 1) s"

definition json_uint8 :: "json_stream \<Rightarrow> byte \<Rightarrow> fault + json_stream" where
  "json_uint8 json x = json_number json (snprintf 4 (fmt_u (unat x)))"

definition json_uint16 :: "json_stream \<Rightarrow> u16 \<Rightarrow> fault + json_stream" where
  "json_uint16 json x = json_number json (snprintf 6 (fmt_u (unat x)))"

definition json_uint32 :: "json_stream \<Rightarrow> u32 \<Rightarrow> fault + json_stream" where
  "json_uint32 json x = json_number json (snprintf 11 (fmt_u (unat x)))"

definition json_uint64 :: "json_stream \<Rightarrow> u64 \<Rightarrow> fault + json_stream" where
  "json_uint64 json x = json_number json (dec_digits (unat x) [])"

definition json_integer :: "json_stream \<Rightarrow> u32 \<Rightarrow> fault + json_stream" where
  "json_integer json x = json_number json (snprintf 7 (fmt_d (sint x)))"

text \<open>
  \<open>json_float\<close> formats with \<open>%1.15g\<close>, whose digits are the C library's: \<open>fmt_g\<close> is a parameter.
\<close>

definition json_float :: "('f \<Rightarrow> string) \<Rightarrow> json_stream \<Rightarrow> 'f \<Rightarrow> fault + json_stream" where
  "json_float fmt_g json x = json_number json (snprintf 32 (fmt_g x))"

section \<open>The text of a stream\<close>

text \<open>Everything written so far: the flushed chunks and the buffer.\<close>

definition js_text :: "json_stream \<Rightarrow> string" where
  "js_text json = concat (js_flushed json) @ js_buffer json"

text \<open>The stream can take every token of at most \<open>m\<close> characters.\<close>

definition js_room :: "nat \<Rightarrow> json_stream \<Rightarrow> bool" where
  "js_room m json \<longleftrightarrow> js_on_flush json \<and> m < js_size json"

lemma js_text_update [simp]:
  "js_text (json\<lparr>js_state := st\<rparr>) = js_text json"
  "js_text (json\<lparr>js_nesting := ns\<rparr>) = js_text json"
  by (simp_all add: js_text_def)

lemma js_room_update [simp]:
  "js_room m (json\<lparr>js_state := st\<rparr>) = js_room m json"
  "js_room m (json\<lparr>js_nesting := ns\<rparr>) = js_room m json"
  by (simp_all add: js_room_def)

lemma json_flush_text [simp]: "js_on_flush json \<Longrightarrow> js_text (json_flush json) = js_text json"
  by (simp add: json_flush_def js_text_def)

lemma json_write_frame [simp]:
  "js_state (json_write json s) = js_state json"
  "js_nesting (json_write json s) = js_nesting json"
  "js_size (json_write json s) = js_size json"
  "js_on_flush (json_write json s) = js_on_flush json"
  by (simp_all add: json_write_def json_flush_def Let_def)

lemma json_write_room [simp]: "js_room m (json_write json s) = js_room m json"
  by (simp add: js_room_def)

lemma json_write_text [simp]:
  "js_room m json \<Longrightarrow> length s \<le> m \<Longrightarrow> js_text (json_write json s) = js_text json @ s"
  by (auto simp: json_write_def json_flush_def js_text_def js_room_def Let_def)

text \<open>The buffer never holds more than \<open>size - 1\<close> characters, nor does a flushed chunk.\<close>

definition js_bounded :: "json_stream \<Rightarrow> bool" where
  "js_bounded json \<longleftrightarrow> length (js_buffer json) < js_size json \<and>
     (\<forall>c\<in>set (js_flushed json). c \<noteq> [] \<and> length c < js_size json)"

lemma json_write_bounded: "js_bounded json \<Longrightarrow> js_bounded (json_write json s)"
  by (auto simp: js_bounded_def json_write_def json_flush_def Let_def)

section \<open>Documents\<close>

text \<open>What the callers write: a value, given by the calls that write it and by its text.\<close>

datatype jval =
    JScalar string
  | JString string
  | JArray "jval list"
  | JObject "(string \<times> jval) list"

fun emit :: "jval \<Rightarrow> json_stream \<Rightarrow> fault + json_stream"
  and emit_items :: "jval list \<Rightarrow> json_stream \<Rightarrow> fault + json_stream"
  and emit_members :: "(string \<times> jval) list \<Rightarrow> json_stream \<Rightarrow> fault + json_stream"
  where
  "emit (JScalar s) j = json_scalar j s"
| "emit (JString s) j = json_string j s"
| "emit (JArray vs) j =
     bind_res (json_array_start j) (\<lambda>j. bind_res (emit_items vs j) json_array_end)"
| "emit (JObject ms) j =
     bind_res (json_object_start j) (\<lambda>j. bind_res (emit_members ms j) json_object_end)"
| "emit_items [] j = Inr j"
| "emit_items (v # vs) j = bind_res (emit v j) (emit_items vs)"
| "emit_members [] j = Inr j"
| "emit_members ((k, v) # ms) j =
     bind_res (json_string j k) (\<lambda>j. bind_res (emit v j) (emit_members ms))"

text \<open>\<open>sep\<close>-separated parts, and the text of a value.\<close>

fun commas :: "string list \<Rightarrow> string" where
  "commas [] = []"
| "commas [s] = s"
| "commas (s # t # ts) = s @ '','' @ commas (t # ts)"

definition quoted :: "string \<Rightarrow> string" where
  "quoted s = [CHR 0x22] @ s @ [CHR 0x22]"

fun render :: "jval \<Rightarrow> string"
  and render_items :: "jval list \<Rightarrow> string list"
  and render_members :: "(string \<times> jval) list \<Rightarrow> string list"
  where
  "render (JScalar s) = s"
| "render (JString s) = quoted s"
| "render (JArray vs) = ''['' @ commas (render_items vs) @ '']''"
| "render (JObject ms) = ''{'' @ commas (render_members ms) @ ''}''"
| "render_items [] = []"
| "render_items (v # vs) = render v # render_items vs"
| "render_members [] = []"
| "render_members ((k, v) # ms) = (quoted k @ '':'' @ render v) # render_members ms"

fun jdepth :: "jval \<Rightarrow> nat"
  and jdepth_items :: "jval list \<Rightarrow> nat"
  and jdepth_members :: "(string \<times> jval) list \<Rightarrow> nat"
  where
  "jdepth (JScalar s) = 0"
| "jdepth (JString s) = 0"
| "jdepth (JArray vs) = Suc (jdepth_items vs)"
| "jdepth (JObject ms) = Suc (jdepth_members ms)"
| "jdepth_items [] = 0"
| "jdepth_items (v # vs) = max (jdepth v) (jdepth_items vs)"
| "jdepth_members [] = 0"
| "jdepth_members ((k, v) # ms) = max (jdepth v) (jdepth_members ms)"

text \<open>The longest token: a scalar or a quoted string, and the punctuation.\<close>

fun jtoken :: "jval \<Rightarrow> nat"
  and jtoken_items :: "jval list \<Rightarrow> nat"
  and jtoken_members :: "(string \<times> jval) list \<Rightarrow> nat"
  where
  "jtoken (JScalar s) = max 1 (length s)"
| "jtoken (JString s) = length s + 2"
| "jtoken (JArray vs) = max 1 (jtoken_items vs)"
| "jtoken (JObject ms) = max 1 (jtoken_members ms)"
| "jtoken_items [] = 1"
| "jtoken_items (v # vs) = max (jtoken v) (jtoken_items vs)"
| "jtoken_members [] = 1"
| "jtoken_members ((k, v) # ms) = max (length k + 2) (max (jtoken v) (jtoken_members ms))"

section \<open>The invariant of the stream\<close>

text \<open>The state a value leaves behind, and the separator written before it.\<close>

fun value_next :: "json_state \<Rightarrow> json_state option" where
  "value_next JSON_STATE_START = Some JSON_STATE_END"
| "value_next JSON_STATE_OBJECT_KEY = Some JSON_STATE_OBJECT_VALUE"
| "value_next JSON_STATE_ARRAY = Some JSON_STATE_ARRAY_ITEM"
| "value_next JSON_STATE_ARRAY_ITEM = Some JSON_STATE_ARRAY_ITEM"
| "value_next _ = None"

definition value_sep :: "json_state \<Rightarrow> string" where
  "value_sep st = (if st = JSON_STATE_ARRAY_ITEM then '','' else [])"

text \<open>The state agrees with the innermost open element.\<close>

definition js_wf :: "json_stream \<Rightarrow> bool" where
  "js_wf json \<longleftrightarrow> length (js_nesting json) \<le> JSON_MAX_DEPTH \<and>
     (case js_state json of
        JSON_STATE_START \<Rightarrow> js_nesting json = []
      | JSON_STATE_END \<Rightarrow> js_nesting json = []
      | JSON_STATE_OBJECT \<Rightarrow> js_nesting json \<noteq> [] \<and> last (js_nesting json) = JSON_NESTING_OBJECT
      | JSON_STATE_OBJECT_KEY \<Rightarrow> js_nesting json \<noteq> [] \<and> last (js_nesting json) = JSON_NESTING_OBJECT
      | JSON_STATE_OBJECT_VALUE \<Rightarrow> js_nesting json \<noteq> [] \<and> last (js_nesting json) = JSON_NESTING_OBJECT
      | JSON_STATE_ARRAY \<Rightarrow> js_nesting json \<noteq> [] \<and> last (js_nesting json) = JSON_NESTING_ARRAY
      | JSON_STATE_ARRAY_ITEM \<Rightarrow> js_nesting json \<noteq> [] \<and> last (js_nesting json) = JSON_NESTING_ARRAY
      | JSON_STATE_ERROR \<Rightarrow> True)"

text \<open>\<open>wrote m j st s j'\<close>: from \<open>j\<close> the text \<open>s\<close> was written, leaving \<open>j'\<close> in state \<open>st\<close>.\<close>

definition wrote :: "nat \<Rightarrow> json_stream \<Rightarrow> json_state \<Rightarrow> string \<Rightarrow> json_stream \<Rightarrow> bool" where
  "wrote m j st s j' \<longleftrightarrow> js_room m j' \<and> js_nesting j' = js_nesting j \<and> js_state j' = st \<and>
     js_text j' = js_text j @ s"

lemma scalar_wrote:
  assumes "js_room m j" and "value_next (js_state j) = Some st" and "1 \<le> m" and "length s \<le> m"
  shows "\<exists>j'. json_scalar j s = Inr j' \<and> wrote m j st (value_sep (js_state j) @ s) j'"
  using assms by (cases "js_state j") (auto simp: json_scalar_def wrote_def value_sep_def)

lemma string_wrote:
  assumes "js_room m j" and "value_next (js_state j) = Some st" and "length s + 2 \<le> m"
  shows "\<exists>j'. json_string j s = Inr j' \<and> wrote m j st (value_sep (js_state j) @ quoted s) j'"
  using assms
  by (cases "js_state j") (auto simp: json_string_def wrote_def value_sep_def quoted_def)

lemma key_wrote:
  assumes "js_room m j" and "js_state j = JSON_STATE_OBJECT \<or> js_state j = JSON_STATE_OBJECT_VALUE"
    and "length s + 2 \<le> m"
  shows "\<exists>j'. json_string j s = Inr j' \<and>
    wrote m j JSON_STATE_OBJECT_KEY ((if js_state j = JSON_STATE_OBJECT then [] else '','') @ quoted s @ '':'') j'"
  using assms by (auto simp: json_string_def wrote_def quoted_def)

text \<open>Opening an element.\<close>

lemma array_start_wrote:
  assumes "js_room m j" and "value_next (js_state j) = Some st" and "1 \<le> m"
    and "length (js_nesting j) < JSON_MAX_DEPTH"
  shows "\<exists>j'. json_array_start j = Inr j' \<and> js_room m j' \<and> js_state j' = JSON_STATE_ARRAY \<and>
    js_nesting j' = js_nesting j @ [JSON_NESTING_ARRAY] \<and>
    js_text j' = js_text j @ value_sep (js_state j) @ ''[''"
  using assms
  by (cases "js_state j") (auto simp: json_array_start_def push_nesting_def value_sep_def Let_def)

lemma object_start_wrote:
  assumes "js_room m j" and "value_next (js_state j) = Some st" and "1 \<le> m"
    and "length (js_nesting j) < JSON_MAX_DEPTH"
  shows "\<exists>j'. json_object_start j = Inr j' \<and> js_room m j' \<and> js_state j' = JSON_STATE_OBJECT \<and>
    js_nesting j' = js_nesting j @ [JSON_NESTING_OBJECT] \<and>
    js_text j' = js_text j @ value_sep (js_state j) @ ''{''"
  using assms
  by (cases "js_state j") (auto simp: json_object_start_def push_nesting_def value_sep_def Let_def)

text \<open>Closing it returns to the state its value leaves in the enclosing element.\<close>

definition outer_ok :: "json_stream \<Rightarrow> json_state \<Rightarrow> bool" where
  "outer_ok j st \<longleftrightarrow> value_next (js_state j) = Some st \<and> js_wf j"

lemma pop_nesting_outer:
  assumes "outer_ok j st" and "js_nesting j' = js_nesting j @ [n]"
  shows "pop_nesting j' = Inr (j'\<lparr>js_nesting := js_nesting j, js_state := st\<rparr>)"
  using assms
  by (cases "js_state j") (auto simp: pop_nesting_def outer_ok_def js_wf_def Let_def)

lemma array_end_wrote:
  assumes "outer_ok j st" and "js_nesting j' = js_nesting j @ [JSON_NESTING_ARRAY]"
    and "js_state j' = JSON_STATE_ARRAY \<or> js_state j' = JSON_STATE_ARRAY_ITEM"
    and "js_room m j'" and "1 \<le> m" and "js_text j' = js_text j @ s"
  shows "\<exists>j''. json_array_end j' = Inr j'' \<and> wrote m j st (s @ '']'') j''"
  using assms pop_nesting_outer [OF assms(1), of "json_write j' '']''" JSON_NESTING_ARRAY]
  by (auto simp: json_array_end_def wrote_def)

lemma object_end_wrote:
  assumes "outer_ok j st" and "js_nesting j' = js_nesting j @ [JSON_NESTING_OBJECT]"
    and "js_state j' = JSON_STATE_OBJECT \<or> js_state j' = JSON_STATE_OBJECT_VALUE"
    and "js_room m j'" and "1 \<le> m" and "js_text j' = js_text j @ s"
  shows "\<exists>j''. json_object_end j' = Inr j'' \<and> wrote m j st (s @ ''}'') j''"
  using assms pop_nesting_outer [OF assms(1), of "json_write j' ''}''" JSON_NESTING_OBJECT]
  by (auto simp: json_object_end_def wrote_def)

section \<open>The stream writes the document\<close>

lemma commas_Cons: "commas (x # xs) = x @ (if xs = [] then [] else '','' @ commas xs)"
  by (cases xs) auto

lemma render_items_Nil [simp]: "render_items vs = [] \<longleftrightarrow> vs = []"
  by (cases vs) auto

lemma render_members_Nil [simp]: "render_members ms = [] \<longleftrightarrow> ms = []"
  by (cases ms) auto

lemma jtoken_pos: "1 \<le> jtoken v" "1 \<le> jtoken_items vs" "1 \<le> jtoken_members ms"
  by (induction v and vs and ms rule: jtoken_jtoken_items_jtoken_members.induct) auto

lemma wrote_wf_item:
  "wrote m j JSON_STATE_ARRAY_ITEM s j' \<Longrightarrow> js_wf j \<Longrightarrow>
   js_state j = JSON_STATE_ARRAY \<or> js_state j = JSON_STATE_ARRAY_ITEM \<Longrightarrow> js_wf j'"
  by (auto simp: wrote_def js_wf_def)

lemma wrote_wf_object:
  "wrote m j st s j' \<Longrightarrow> js_wf j \<Longrightarrow>
   js_state j = JSON_STATE_OBJECT \<or> js_state j = JSON_STATE_OBJECT_VALUE \<or> js_state j = JSON_STATE_OBJECT_KEY \<Longrightarrow>
   st = JSON_STATE_OBJECT_VALUE \<or> st = JSON_STATE_OBJECT_KEY \<Longrightarrow> js_wf j'"
  by (auto simp: wrote_def js_wf_def)

lemma wrote_trans:
  "wrote m j st s j' \<Longrightarrow> wrote m j' st' s' j'' \<Longrightarrow> wrote m j st' (s @ s') j''"
  by (simp add: wrote_def)

lemma wroteD:
  assumes "wrote m j st s j'"
  shows "js_room m j'" and "js_nesting j' = js_nesting j" and "js_state j' = st"
    and "js_text j' = js_text j @ s"
  using assms by (simp_all add: wrote_def)

definition emits :: "nat \<Rightarrow> jval \<Rightarrow> bool" where
  "emits m v \<longleftrightarrow> (\<forall>j st. js_room m j \<longrightarrow> outer_ok j st \<longrightarrow> jtoken v \<le> m \<longrightarrow>
     length (js_nesting j) + jdepth v \<le> JSON_MAX_DEPTH \<longrightarrow>
     (\<exists>j'. emit v j = Inr j' \<and> wrote m j st (value_sep (js_state j) @ render v) j'))"

lemma emitsD:
  assumes "emits m v" and "js_room m j" and "outer_ok j st" and "jtoken v \<le> m"
    and "length (js_nesting j) + jdepth v \<le> JSON_MAX_DEPTH"
  obtains j' where "emit v j = Inr j'" and "wrote m j st (value_sep (js_state j) @ render v) j'"
  using assms by (auto simp: emits_def)

lemma emit_items_wrote:
  assumes "\<And>v. v \<in> set vs \<Longrightarrow> emits m v" and "js_room m j" and "js_wf j"
    and "js_state j = JSON_STATE_ARRAY \<or> js_state j = JSON_STATE_ARRAY_ITEM"
    and "jtoken_items vs \<le> m" and "length (js_nesting j) + jdepth_items vs \<le> JSON_MAX_DEPTH"
  shows "\<exists>j'. emit_items vs j = Inr j' \<and>
    wrote m j (if vs = [] then js_state j else JSON_STATE_ARRAY_ITEM)
      ((if vs = [] then [] else value_sep (js_state j)) @ commas (render_items vs)) j'"
  using assms
proof (induction vs arbitrary: j)
  case Nil
  then show ?case by (simp add: wrote_def)
next
  case (Cons v vs)
  from Cons.prems(3,4) have outer: "outer_ok j JSON_STATE_ARRAY_ITEM" by (auto simp: outer_ok_def)
  have "emits m v" "jtoken v \<le> m" "length (js_nesting j) + jdepth v \<le> JSON_MAX_DEPTH"
    using Cons.prems(1,5,6) by auto
  from emitsD [OF this(1) Cons.prems(2) outer this(2,3)]
  obtain j1 where j1: "emit v j = Inr j1"
    and w1: "wrote m j JSON_STATE_ARRAY_ITEM (value_sep (js_state j) @ render v) j1" by blast
  have "\<exists>j'. emit_items vs j1 = Inr j' \<and>
    wrote m j1 (if vs = [] then js_state j1 else JSON_STATE_ARRAY_ITEM)
      ((if vs = [] then [] else value_sep (js_state j1)) @ commas (render_items vs)) j'"
  proof (rule Cons.IH)
    show "js_wf j1" using wrote_wf_item [OF w1 Cons.prems(3,4)] .
  qed (use Cons.prems wroteD [OF w1] in auto)
  then obtain j2 where "emit_items vs j1 = Inr j2"
    and w: "wrote m j1 (if vs = [] then js_state j1 else JSON_STATE_ARRAY_ITEM)
      ((if vs = [] then [] else value_sep (js_state j1)) @ commas (render_items vs)) j2"
    by blast
  moreover have w2: "wrote m j1 JSON_STATE_ARRAY_ITEM
      ((if vs = [] then [] else '','') @ commas (render_items vs)) j2"
    using w wroteD(3) [OF w1] by (cases "vs = []") (simp_all add: value_sep_def)
  ultimately show ?case using j1 wrote_trans [OF w1 w2]
    by (cases "vs = []") (simp_all add: commas_Cons)
qed

lemma emit_members_wrote:
  assumes "\<And>k v. (k, v) \<in> set ms \<Longrightarrow> emits m v" and "js_room m j" and "js_wf j"
    and "js_state j = JSON_STATE_OBJECT \<or> js_state j = JSON_STATE_OBJECT_VALUE"
    and "jtoken_members ms \<le> m" and "length (js_nesting j) + jdepth_members ms \<le> JSON_MAX_DEPTH"
  shows "\<exists>j'. emit_members ms j = Inr j' \<and>
    wrote m j (if ms = [] then js_state j else JSON_STATE_OBJECT_VALUE)
      ((if ms = [] \<or> js_state j = JSON_STATE_OBJECT then [] else '','') @ commas (render_members ms)) j'"
  using assms
proof (induction ms arbitrary: j)
  case Nil
  then show ?case by (simp add: wrote_def)
next
  case (Cons kv ms)
  obtain k v where kv: "kv = (k, v)" by (cases kv)
  have "length k + 2 \<le> m" using Cons.prems(5) kv by simp
  from key_wrote [OF Cons.prems(2,4) this] obtain j0 where j0: "json_string j k = Inr j0"
    and w0: "wrote m j JSON_STATE_OBJECT_KEY
      ((if js_state j = JSON_STATE_OBJECT then [] else '','') @ quoted k @ '':'') j0" by blast
  have wf0: "js_wf j0" using wrote_wf_object [OF w0 Cons.prems(3)] Cons.prems(4) by blast
  then have outer: "outer_ok j0 JSON_STATE_OBJECT_VALUE"
    using wroteD(3) [OF w0] by (simp add: outer_ok_def)
  have "emits m v" "jtoken v \<le> m" "length (js_nesting j0) + jdepth v \<le> JSON_MAX_DEPTH"
    using Cons.prems(1,5,6) kv wroteD(2) [OF w0] by auto
  from emitsD [OF this(1) wroteD(1) [OF w0] outer this(2,3)]
  obtain j1 where j1: "emit v j0 = Inr j1"
    and w1: "wrote m j0 JSON_STATE_OBJECT_VALUE (value_sep (js_state j0) @ render v) j1" by blast
  have w1': "wrote m j0 JSON_STATE_OBJECT_VALUE (render v) j1"
    using w1 wroteD(3) [OF w0] by (simp add: value_sep_def)
  have "\<exists>j'. emit_members ms j1 = Inr j' \<and>
    wrote m j1 (if ms = [] then js_state j1 else JSON_STATE_OBJECT_VALUE)
      ((if ms = [] \<or> js_state j1 = JSON_STATE_OBJECT then [] else '','') @ commas (render_members ms)) j'"
  proof (rule Cons.IH)
    show "js_wf j1" using wrote_wf_object [OF w1 wf0] wroteD(3) [OF w0] by blast
  qed (use Cons.prems kv wroteD [OF w0] wroteD [OF w1] in auto)
  then obtain j2 where "emit_members ms j1 = Inr j2"
    and w: "wrote m j1 (if ms = [] then js_state j1 else JSON_STATE_OBJECT_VALUE)
      ((if ms = [] \<or> js_state j1 = JSON_STATE_OBJECT then [] else '','') @ commas (render_members ms)) j2"
    by blast
  moreover have w2: "wrote m j1 JSON_STATE_OBJECT_VALUE
      ((if ms = [] then [] else '','') @ commas (render_members ms)) j2"
    using w wroteD(3) [OF w1] by (cases "ms = []") simp_all
  ultimately show ?case
    using j0 j1 kv wrote_trans [OF w0 wrote_trans [OF w1' w2]]
    by (cases "ms = []"; cases "js_state j = JSON_STATE_OBJECT") (simp_all add: commas_Cons)
qed

lemma emits_all: "emits m v"
proof (induction v)
  case (JScalar s)
  show ?case
    using scalar_wrote [of m _ _ s] by (auto simp: emits_def outer_ok_def)
next
  case (JString s)
  show ?case
    using string_wrote [of m _ _ s] by (auto simp: emits_def outer_ok_def)
next
  case (JArray vs)
  show ?case
    unfolding emits_def
  proof (intro allI impI)
    fix j st
    assume room: "js_room m j" and outer: "outer_ok j st" and tok: "jtoken (JArray vs) \<le> m"
      and depth: "length (js_nesting j) + jdepth (JArray vs) \<le> JSON_MAX_DEPTH"
    from tok have m1: "1 \<le> m" by simp
    have nxt: "value_next (js_state j) = Some st" using outer by (simp add: outer_ok_def)
    from array_start_wrote [OF room nxt m1] depth
    obtain j1 where j1: "json_array_start j = Inr j1" "js_room m j1" "js_state j1 = JSON_STATE_ARRAY"
      "js_nesting j1 = js_nesting j @ [JSON_NESTING_ARRAY]"
      "js_text j1 = js_text j @ value_sep (js_state j) @ ''[''" by auto
    have "js_wf j1" using j1 depth by (simp add: js_wf_def)
    have "\<exists>j'. emit_items vs j1 = Inr j' \<and> wrote m j1 (if vs = [] then js_state j1 else JSON_STATE_ARRAY_ITEM)
        ((if vs = [] then [] else value_sep (js_state j1)) @ commas (render_items vs)) j'"
      by (rule emit_items_wrote) (use JArray j1 tok depth \<open>js_wf j1\<close> in \<open>auto intro: snds.intros\<close>)
    then obtain j2 where j2: "emit_items vs j1 = Inr j2"
      and w: "wrote m j1 (if vs = [] then js_state j1 else JSON_STATE_ARRAY_ITEM)
        ((if vs = [] then [] else value_sep (js_state j1)) @ commas (render_items vs)) j2" by blast
    have s2: "js_state j2 = JSON_STATE_ARRAY \<or> js_state j2 = JSON_STATE_ARRAY_ITEM"
      using wroteD(3) [OF w] j1(3) by simp
    have t2: "js_text j2 = js_text j @ value_sep (js_state j) @ ''['' @ commas (render_items vs)"
      using wroteD(4) [OF w] j1(3,5) by (simp add: value_sep_def)
    have n2: "js_nesting j2 = js_nesting j @ [JSON_NESTING_ARRAY]" using wroteD(2) [OF w] j1(4) by simp
    from array_end_wrote [OF outer n2 s2 wroteD(1) [OF w] m1 t2]
    obtain j3 where "json_array_end j2 = Inr j3"
      "wrote m j st (value_sep (js_state j) @ render (JArray vs)) j3" by auto
    with j1 j2 show "\<exists>j'. emit (JArray vs) j = Inr j' \<and>
      wrote m j st (value_sep (js_state j) @ render (JArray vs)) j'" by simp
  qed
next
  case (JObject ms)
  show ?case
    unfolding emits_def
  proof (intro allI impI)
    fix j st
    assume room: "js_room m j" and outer: "outer_ok j st" and tok: "jtoken (JObject ms) \<le> m"
      and depth: "length (js_nesting j) + jdepth (JObject ms) \<le> JSON_MAX_DEPTH"
    from tok have m1: "1 \<le> m" by simp
    have nxt: "value_next (js_state j) = Some st" using outer by (simp add: outer_ok_def)
    from object_start_wrote [OF room nxt m1] depth
    obtain j1 where j1: "json_object_start j = Inr j1" "js_room m j1" "js_state j1 = JSON_STATE_OBJECT"
      "js_nesting j1 = js_nesting j @ [JSON_NESTING_OBJECT]"
      "js_text j1 = js_text j @ value_sep (js_state j) @ ''{''" by auto
    have "js_wf j1" using j1 depth by (simp add: js_wf_def)
    have "\<exists>j'. emit_members ms j1 = Inr j' \<and> wrote m j1 (if ms = [] then js_state j1 else JSON_STATE_OBJECT_VALUE)
        ((if ms = [] \<or> js_state j1 = JSON_STATE_OBJECT then [] else '','') @ commas (render_members ms)) j'"
      by (rule emit_members_wrote) (use JObject j1 tok depth \<open>js_wf j1\<close> in \<open>auto intro: snds.intros\<close>)
    then obtain j2 where j2: "emit_members ms j1 = Inr j2"
      and w: "wrote m j1 (if ms = [] then js_state j1 else JSON_STATE_OBJECT_VALUE)
        ((if ms = [] \<or> js_state j1 = JSON_STATE_OBJECT then [] else '','') @ commas (render_members ms)) j2" by blast
    have s2: "js_state j2 = JSON_STATE_OBJECT \<or> js_state j2 = JSON_STATE_OBJECT_VALUE"
      using wroteD(3) [OF w] j1(3) by simp
    have t2: "js_text j2 = js_text j @ value_sep (js_state j) @ ''{'' @ commas (render_members ms)"
      using wroteD(4) [OF w] j1(3,5) by (simp add: value_sep_def)
    have n2: "js_nesting j2 = js_nesting j @ [JSON_NESTING_OBJECT]" using wroteD(2) [OF w] j1(4) by simp
    from object_end_wrote [OF outer n2 s2 wroteD(1) [OF w] m1 t2]
    obtain j3 where "json_object_end j2 = Inr j3"
      "wrote m j st (value_sep (js_state j) @ render (JObject ms)) j3" by auto
    with j1 j2 show "\<exists>j'. emit (JObject ms) j = Inr j' \<and>
      wrote m j st (value_sep (js_state j) @ render (JObject ms)) j'" by simp
  qed
qed

section \<open>Any sequence of calls\<close>

datatype json_op =
    ObjectStart | ObjectEnd | ArrayStart | ArrayEnd | Scalar string | Str string | Flush

fun json_call :: "json_op \<Rightarrow> json_stream \<Rightarrow> fault + json_stream" where
  "json_call ObjectStart j = json_object_start j"
| "json_call ObjectEnd j = json_object_end j"
| "json_call ArrayStart j = json_array_start j"
| "json_call ArrayEnd j = json_array_end j"
| "json_call (Scalar s) j = json_scalar j s"
| "json_call (Str s) j = json_string j s"
| "json_call Flush j = Inr (json_flush j)"

fun json_calls :: "json_op list \<Rightarrow> json_stream \<Rightarrow> fault + json_stream" where
  "json_calls [] j = Inr j"
| "json_calls (c # cs) j = bind_res (json_call c j) (json_calls cs)"

definition is_start :: "json_op \<Rightarrow> bool" where
  "is_start c \<longleftrightarrow> c = ObjectStart \<or> c = ArrayStart"

lemma json_write_wf [simp]: "js_wf (json_write j s) = js_wf j"
  by (cases "js_state j") (simp_all add: js_wf_def)

lemma json_flush_frame [simp]:
  "js_state (json_flush j) = js_state j" "js_nesting (json_flush j) = js_nesting j"
  by (simp_all add: json_flush_def)

lemma js_bounded_update [simp]:
  "js_bounded (j\<lparr>js_state := st\<rparr>) = js_bounded j"
  "js_bounded (j\<lparr>js_nesting := ns\<rparr>) = js_bounded j"
  by (simp_all add: js_bounded_def)

lemma json_flush_bounded: "js_bounded j \<Longrightarrow> js_bounded (json_flush j)"
  by (auto simp: js_bounded_def json_flush_def)

text \<open>One call: what it keeps, and when it writes past the nesting array.\<close>

definition call_post :: "json_op \<Rightarrow> json_stream \<Rightarrow> fault + json_stream \<Rightarrow> bool" where
  "call_post c j r \<longleftrightarrow> (case r of
     Inr j' \<Rightarrow> js_wf j' \<and> js_bounded j' \<and>
       length (js_nesting j') \<le> length (js_nesting j) + (if is_start c then 1 else 0)
   | Inl f \<Rightarrow> f = Oob_write \<and> is_start c \<and> length (js_nesting j) = JSON_MAX_DEPTH)"

lemmas call_defs =
  json_object_start_def json_object_end_def json_array_start_def json_array_end_def
  json_scalar_def json_string_def json_error_def push_nesting_def pop_nesting_def Let_def

lemma pop_nesting_post:
  assumes "js_wf j" and "js_bounded j" and "js_nesting j \<noteq> []"
  shows "\<exists>j'. pop_nesting j = Inr j' \<and> js_wf j' \<and> js_bounded j' \<and>
    length (js_nesting j') \<le> length (js_nesting j)"
  using assms
  by (cases "butlast (js_nesting j) = []")
     (auto simp: pop_nesting_def Let_def js_wf_def split: json_nesting.splits)

lemma start_post:
  assumes "js_wf j" and "js_bounded j" and "is_start c"
  shows "call_post c j (json_call c j)"
  using assms
  by (cases "js_state j")
     (auto simp: call_defs call_post_def is_start_def json_write_bounded js_wf_def)

lemma end_post:
  assumes "js_wf j" and "js_bounded j" and "c = ObjectEnd \<or> c = ArrayEnd"
  shows "call_post c j (json_call c j)"
proof -
  have err: "call_post c j (Inr (j\<lparr>js_state := JSON_STATE_ERROR\<rparr>))"
    using assms by (auto simp: call_post_def js_wf_def)
  have same: "call_post c j (Inr j)" using assms by (auto simp: call_post_def)
  have pop: "call_post c j (pop_nesting (json_write j s))" if "js_nesting j \<noteq> []" for s
    using pop_nesting_post [of "json_write j s"] assms that json_write_bounded [of j s]
    by (auto simp: call_post_def)
  show ?thesis
    using assms(1,3) err same pop
    by (cases "js_state j") (auto simp: json_object_end_def json_array_end_def json_error_def js_wf_def)
qed

lemma value_post:
  assumes "js_wf j" and "js_bounded j" and "c = Scalar s \<or> c = Str s \<or> c = Flush"
  shows "call_post c j (json_call c j)"
  using assms
  by (cases "js_state j")
     (auto simp: json_scalar_def json_string_def json_error_def call_post_def is_start_def
       json_write_bounded json_flush_bounded js_wf_def Let_def)

lemma call_post_all: "js_wf j \<Longrightarrow> js_bounded j \<Longrightarrow> call_post c j (json_call c j)"
  using start_post [of j c] end_post [of j c] value_post [of j c]
  by (cases c) (auto simp: is_start_def)

lemma calls_post:
  assumes "js_wf j" and "js_bounded j"
  shows "case json_calls cs j of
      Inr j' \<Rightarrow> js_wf j' \<and> js_bounded j'
    | Inl f \<Rightarrow> f = Oob_write \<and> JSON_MAX_DEPTH < length (js_nesting j) + length (filter is_start cs)"
  using assms
proof (induction cs arbitrary: j)
  case (Cons c cs)
  from call_post_all [OF Cons.prems, of c] show ?case
  proof (cases "json_call c j")
    case (Inr j')
    with call_post_all [OF Cons.prems, of c] have j': "js_wf j'" "js_bounded j'"
      "length (js_nesting j') \<le> length (js_nesting j) + (if is_start c then 1 else 0)"
      by (auto simp: call_post_def)
    from Cons.IH [OF j'(1,2)] j'(3) Inr show ?thesis
      by (auto split: sum.splits if_splits)
  qed (auto simp: call_post_def)
qed simp

lemma json_new_ok: "0 < n \<Longrightarrow> js_wf (json_new n b) \<and> js_bounded (json_new n b)"
  by (simp add: json_new_def js_wf_def js_bounded_def)

section \<open>Digits\<close>

lemma dec_digits_longer: "length (dec_digits x b) > length b"
proof (induction x b rule: dec_digits.induct)
  case (1 x b)
  then show ?case by (subst dec_digits.simps) (auto simp: Let_def)
qed

lemma length_dec_digits: "1 \<le> k \<Longrightarrow> length (dec_digits x b) \<le> k + length b \<longleftrightarrow> x < 10 ^ k"
proof (induction x b arbitrary: k rule: dec_digits.induct)
  case (1 x b)
  obtain k' where k: "k = Suc k'" using "1.prems" by (cases k) auto
  show ?case
  proof (cases "x div 10 = 0")
    case True
    then have "x < 10" by simp
    moreover have "(10 :: nat) \<le> 10 ^ k" using k by simp
    ultimately have "x < 10 ^ k" by linarith
    with True k show ?thesis by (subst dec_digits.simps) simp
  next
    case False
    let ?r = "dec_digits (x div 10) (digit_char (x mod 10) # b)"
    have r: "dec_digits x b = ?r" using False by (subst dec_digits.simps) simp
    show ?thesis
    proof (cases "k' = 0")
      case True
      with False k r dec_digits_longer [of "digit_char (x mod 10) # b" "x div 10"] show ?thesis by simp
    next
      case False
      with "1.IH" [of "digit_char (x mod 10) # b" k'] \<open>x div 10 \<noteq> 0\<close>
      have "length ?r \<le> k' + (1 + length b) \<longleftrightarrow> x div 10 < 10 ^ k'" by simp
      moreover have "x div 10 < 10 ^ k' \<longleftrightarrow> x < 10 ^ k" using k by (simp add: div_less_iff_less_mult mult.commute)
      ultimately show ?thesis using r k by simp
    qed
  qed
qed

lemma length_fmt_u: "1 \<le> k \<Longrightarrow> length (fmt_u x) \<le> k \<longleftrightarrow> x < 10 ^ k"
  using length_dec_digits [of k x "[]"] by (simp add: fmt_u_def)

lemma snprintf_exact: "snprintf (Suc k) s = s \<longleftrightarrow> length s \<le> k"
  by (auto simp: snprintf_def)

lemma snprintf_fmt_u: "1 \<le> k \<Longrightarrow> x < 10 ^ k \<Longrightarrow> snprintf (Suc k) (fmt_u x) = fmt_u x"
  by (simp add: snprintf_exact length_fmt_u)

text \<open>Reading the digits back.\<close>

definition dec_step :: "nat \<Rightarrow> char \<Rightarrow> nat" where
  "dec_step a c = 10 * a + (of_char c - 48)"

definition dec_value :: "string \<Rightarrow> nat" where
  "dec_value s = foldl dec_step 0 s"

lemma of_char_digit [simp]: "d < 10 \<Longrightarrow> (of_char (digit_char d) :: nat) = 48 + d"
  by (simp add: digit_char_def of_char_of)

lemma dec_step_digit: "dec_step (x div 10) (digit_char (x mod 10)) = x"
  by (simp add: dec_step_def)

lemma foldl_dec_digits: "foldl dec_step 0 (dec_digits x b) = foldl dec_step x b"
proof (induction x b rule: dec_digits.induct)
  case (1 x b)
  show ?case
  proof (cases "x div 10 = 0")
    case True
    then have "dec_step 0 (digit_char (x mod 10)) = x" using dec_step_digit [of x] by simp
    with True show ?thesis by (subst dec_digits.simps) simp
  next
    case False
    with 1 dec_step_digit [of x] show ?thesis by (subst dec_digits.simps) simp
  qed
qed

lemma dec_value_fmt_u: "dec_value (fmt_u x) = x"
  by (simp add: dec_value_def fmt_u_def foldl_dec_digits)

section \<open>A document as a sequence of calls\<close>

fun calls_of :: "jval \<Rightarrow> json_op list"
  and calls_of_items :: "jval list \<Rightarrow> json_op list"
  and calls_of_members :: "(string \<times> jval) list \<Rightarrow> json_op list"
  where
  "calls_of (JScalar s) = [Scalar s]"
| "calls_of (JString s) = [Str s]"
| "calls_of (JArray vs) = ArrayStart # calls_of_items vs @ [ArrayEnd]"
| "calls_of (JObject ms) = ObjectStart # calls_of_members ms @ [ObjectEnd]"
| "calls_of_items [] = []"
| "calls_of_items (v # vs) = calls_of v @ calls_of_items vs"
| "calls_of_members [] = []"
| "calls_of_members ((k, v) # ms) = Str k # calls_of v @ calls_of_members ms"

lemma json_calls_append: "json_calls (cs @ ds) j = bind_res (json_calls cs j) (json_calls ds)"
  by (induction cs arbitrary: j) (auto simp: bind_res_def split: sum.splits)

lemma json_calls_one: "json_calls [c] j = json_call c j"
  by (auto simp: bind_res_def split: sum.splits)

lemma emit_calls:
  "emit v j = json_calls (calls_of v) j"
  "emit_items vs j = json_calls (calls_of_items vs) j"
  "emit_members ms j = json_calls (calls_of_members ms) j"
proof (induction v and vs and ms arbitrary: j and j and j rule: calls_of_calls_of_items_calls_of_members.induct)
  case (3 vs)
  then show ?case by (auto simp: json_calls_append bind_res_def split: sum.splits)
next
  case (4 ms)
  then show ?case by (auto simp: json_calls_append bind_res_def split: sum.splits)
qed (auto simp: json_calls_append bind_res_def split: sum.splits)

lemma json_call_size: "json_call c j = Inr j' \<Longrightarrow> js_size j' = js_size j"
  by (cases c; cases "js_state j")
     (auto simp: call_defs json_flush_def split: if_splits json_nesting.splits)

lemma json_calls_size: "json_calls cs j = Inr j' \<Longrightarrow> js_size j' = js_size j"
proof (induction cs arbitrary: j)
  case (Cons c cs)
  then obtain j1 where "json_call c j = Inr j1" and "json_calls cs j1 = Inr j'"
    by (auto simp: bind_res_def split: sum.splits)
  with json_call_size Cons.IH show ?case by metis
qed simp

lemma document_flushed:
  assumes "jdepth v \<le> JSON_MAX_DEPTH" and "jtoken v < n"
  shows "\<exists>j. emit v (json_new n True) = Inr j \<and> js_state j = JSON_STATE_END \<and>
    concat (js_flushed (json_flush j)) = render v \<and>
    list_all (\<lambda>c. c \<noteq> [] \<and> length c < n) (js_flushed (json_flush j))"
proof -
  let ?j = "json_new n True"
  have room: "js_room (n - 1) ?j" and outer: "outer_ok ?j JSON_STATE_END"
    using assms(2) by (auto simp: js_room_def json_new_def outer_ok_def js_wf_def)
  obtain j where j: "emit v ?j = Inr j"
    and w: "wrote (n - 1) ?j JSON_STATE_END (value_sep (js_state ?j) @ render v) j"
  proof (rule emitsD [OF emits_all room outer, of v])
    show "jtoken v \<le> n - 1" using assms(2) by simp
    show "length (js_nesting ?j) + jdepth v \<le> JSON_MAX_DEPTH" using assms(1) by (simp add: json_new_def)
  qed
  have b: "js_bounded j"
    using calls_post [of ?j "calls_of v"] json_new_ok [of n True] assms(2) j emit_calls(1) [of v ?j]
    by simp
  have "js_size j = n"
    using json_calls_size [of "calls_of v" ?j j] j emit_calls(1) [of v ?j] by (simp add: json_new_def)
  then have sz: "js_size (json_flush j) = n" by (simp add: json_flush_def)
  have "js_on_flush j" using wroteD(1) [OF w] by (simp add: js_room_def)
  then have "concat (js_flushed (json_flush j)) = js_text j"
    by (simp add: json_flush_def js_text_def)
  moreover have "js_text j = render v" and "js_state j = JSON_STATE_END"
    using wroteD(3,4) [OF w] by (simp_all add: json_new_def value_sep_def js_text_def)
  moreover have "list_all (\<lambda>c. c \<noteq> [] \<and> length c < n) (js_flushed (json_flush j))"
    using json_flush_bounded [OF b] sz by (simp add: js_bounded_def list_all_iff)
  ultimately show ?thesis using j by simp
qed

section \<open>Properties\<close>

text \<open>
  C27: the refinement of the stream against documents.  A document nested at most 30 deep whose
  longest token is shorter than the buffer, written by the callers' sequence of calls into a new
  stream, ends in state END, and the chunks passed to \<open>on_flush\<close> up to the final \<open>json_flush\<close>, each
  shorter than the buffer, concatenate to exactly the document's text.
\<close>

theorem json_document_written:
  assumes "jdepth v \<le> JSON_MAX_DEPTH" and "jtoken v < n"
  shows "\<exists>j. emit v (json_new n True) = Inr j \<and> js_state j = JSON_STATE_END \<and>
    concat (js_flushed (json_flush j)) = render v \<and>
    list_all (\<lambda>c. c \<noteq> [] \<and> length c < n) (js_flushed (json_flush j))"
  by (rule document_flushed [OF assms])

theorem json_document_written_witness:
  "\<exists>j. emit (JObject [(''aid'', JScalar ''1''), (''s'', JArray [JString ''x'', JScalar ''null''])])
      (json_new 8 True) = Inr j \<and> js_state j = JSON_STATE_END \<and>
    concat (js_flushed (json_flush j)) =
      render (JObject [(''aid'', JScalar ''1''), (''s'', JArray [JString ''x'', JScalar ''null''])]) \<and>
    list_all (\<lambda>c. c \<noteq> [] \<and> length c < 8) (js_flushed (json_flush j))"
  by (rule json_document_written) (simp_all add: JSON_MAX_DEPTH_def)

text \<open>
  C28: whatever sequence of calls is made on a new stream, matching or not, the state stays
  consistent with the open elements and no chunk reaches the buffer's size; the only fault possible is
  the write past the nesting array, which takes more than 30 opening calls (the code has no check
  there).
\<close>

theorem json_calls_safe:
  assumes "0 < n"
  shows "case json_calls cs (json_new n b) of
      Inr j \<Rightarrow> js_wf j \<and> js_bounded j
    | Inl f \<Rightarrow> f = Oob_write \<and> JSON_MAX_DEPTH < length (filter is_start cs)"
  using calls_post [of "json_new n b" cs] json_new_ok [OF assms, of b]
  by (auto simp: json_new_def split: sum.splits)

theorem json_calls_safe_witness:
  "case json_calls (replicate 31 ArrayStart) (json_new 4 True) of
      Inr j \<Rightarrow> js_wf j \<and> js_bounded j
    | Inl f \<Rightarrow> f = Oob_write \<and> JSON_MAX_DEPTH < length (filter is_start (replicate 31 ArrayStart))"
  by (rule json_calls_safe) simp

lemma unat_bounds:
  "unat (a :: byte) < 256" "unat (b :: u16) < 65536" "unat (c :: u32) < 4294967296"
  by (rule less_le_trans [OF unsigned_less], simp)+

text \<open>
  the unsigned writers' buffers are large enough for every value of their type: each passes the
  full decimal text, and that text reads back as the value.
\<close>

theorem json_uint_exact:
  "json_uint8 j a = json_number j (fmt_u (unat a)) \<and> dec_value (fmt_u (unat a)) = unat a \<and>
   json_uint16 j b = json_number j (fmt_u (unat b)) \<and> dec_value (fmt_u (unat b)) = unat b \<and>
   json_uint32 j c = json_number j (fmt_u (unat c)) \<and> dec_value (fmt_u (unat c)) = unat c \<and>
   json_uint64 j d = json_number j (fmt_u (unat d)) \<and> dec_value (fmt_u (unat d)) = unat d"
proof -
  have "snprintf 4 (fmt_u (unat a)) = fmt_u (unat a)"
    using snprintf_fmt_u [of 3 "unat a"] unat_bounds(1) [of a] by simp
  moreover have "snprintf 6 (fmt_u (unat b)) = fmt_u (unat b)"
    using snprintf_fmt_u [of 5 "unat b"] unat_bounds(2) [of b] by simp
  moreover have "snprintf 11 (fmt_u (unat c)) = fmt_u (unat c)"
    using snprintf_fmt_u [of 10 "unat c"] unat_bounds(3) [of c] by simp
  ultimately show ?thesis
    by (simp add: json_uint8_def json_uint16_def json_uint32_def json_uint64_def dec_value_fmt_u)
       (simp add: fmt_u_def)
qed

lemma fmt_d_six: "length (fmt_d x) \<le> 6 \<longleftrightarrow> - 99999 \<le> x \<and> x \<le> 999999"
  using length_fmt_u [of 5 "nat (- x)"] length_fmt_u [of 6 "nat x"]
  by (auto simp: fmt_d_def)

text \<open>
  \<open>json_integer\<close> formats into seven bytes, so the number reaches the stream unchanged exactly
  between -99999 and 999999; any other \<open>int\<close> is cut to its first six characters.
\<close>

theorem json_integer_exact_range:
  "\<exists>j. json_integer (json_new (n + 13) True) x = Inr j \<and> js_text j = take 6 (fmt_d (sint x)) \<and>
     (js_text j = fmt_d (sint x) \<longleftrightarrow> - 99999 \<le> sint x \<and> sint x \<le> 999999)"
proof -
  have "js_room 12 (json_new (n + 13) True)" by (simp add: js_room_def json_new_def)
  moreover have "length (take 6 (fmt_d (sint x))) \<le> 12" by simp
  ultimately have "js_text (json_write (json_new (n + 13) True) (take 6 (fmt_d (sint x)))) =
      take 6 (fmt_d (sint x))"
    using json_write_text [of 12 "json_new (n + 13) True"] by (simp add: js_text_def json_new_def)
  then show ?thesis
    using fmt_d_six [of "sint x"]
    by (auto simp: json_integer_def json_number_def json_scalar_def snprintf_def json_new_def)
qed

end
