(* ===== verification/Ed25519.thy ===== *)
theory Ed25519
  imports HK_Prelude
begin

text \<open>
  Ed25519 keys and signatures: the operations of \<open>src/wolfcrypt/src/ed25519.c\<close> in the configuration of
  \<open>src/user_settings.h\<close>, and the wrappers of \<open>src/crypto.c\<close> the server calls.  The curve arithmetic
  (\<open>ge_operations.c\<close>, \<open>ge_low_mem.c\<close>) and SHA-512 are the fields of a parameter \<open>P\<close>.  An operation
  that fills a buffer returns its code, the size it stores through the size pointer and the bytes it
  wrote; a size pointer that may be NULL is an option.
\<close>

section \<open>Error codes and comparison\<close>

definition BAD_FUNC_ARG :: int where "BAD_FUNC_ARG = - 173"
definition BUFFER_E :: int where "BUFFER_E = - 132"
definition SIG_VERIFY_E :: int where "SIG_VERIFY_E = - 229"
definition MAC_CMP_FAILED_E :: int where "MAC_CMP_FAILED_E = - 213"

lemmas error_codes = BAD_FUNC_ARG_def BUFFER_E_def SIG_VERIFY_E_def MAC_CMP_FAILED_E_def

text \<open>\<open>ConstantCompare\<close> of \<open>misc.c\<close>: the differences of the bytes, or-ed together.\<close>

fun compare_sum :: "byte \<Rightarrow> byte list \<Rightarrow> byte list \<Rightarrow> byte" where
  "compare_sum s (x # xs) (y # ys) = compare_sum (s OR (x XOR y)) xs ys"
| "compare_sum s _ _ = s"

definition ConstantCompare :: "byte list \<Rightarrow> byte list \<Rightarrow> nat \<Rightarrow> int" where
  "ConstantCompare a b n = uint (compare_sum 0 (take n a) (take n b))"

section \<open>Keys\<close>

definition ED25519_KEY_SIZE :: nat where "ED25519_KEY_SIZE = 32"
definition ED25519_SIG_SIZE :: nat where "ED25519_SIG_SIZE = 64"
definition ED25519_PUB_KEY_SIZE :: nat where "ED25519_PUB_KEY_SIZE = 32"
definition ED25519_PRV_KEY_SIZE :: nat where "ED25519_PRV_KEY_SIZE = 64"

lemmas ed_sizes [simp] =
  ED25519_KEY_SIZE_def ED25519_SIG_SIZE_def ED25519_PUB_KEY_SIZE_def ED25519_PRV_KEY_SIZE_def

record ed25519_key =
  ed_p :: "byte list"
  ed_k :: "byte list"

definition ed_wf :: "ed25519_key \<Rightarrow> bool" where
  "ed_wf key \<longleftrightarrow> length (ed_p key) = 32 \<and> length (ed_k key) = 64"

text \<open>The primitives: SHA-512 over the pieces hashed (init, updates, final), group and scalars.\<close>

record ('p3, 'p2) ed_prims =
  sha512 :: "byte list list \<Rightarrow> int \<times> byte list"
  ge_scalarmult_base :: "byte list \<Rightarrow> 'p3"
  ge_p3_tobytes :: "'p3 \<Rightarrow> byte list"
  ge_frombytes_negate_vartime :: "byte list \<Rightarrow> int \<times> 'p3"
  ge_double_scalarmult_vartime :: "byte list \<Rightarrow> 'p3 \<Rightarrow> byte list \<Rightarrow> int \<times> 'p2"
  ge_tobytes :: "'p2 \<Rightarrow> byte list"
  ge_compress_key :: "byte list \<Rightarrow> byte list \<Rightarrow> int \<times> byte list"
  sc_reduce :: "byte list \<Rightarrow> byte list"
  sc_muladd :: "byte list \<Rightarrow> byte list \<Rightarrow> byte list \<Rightarrow> byte list"

text \<open>\<open>wc_ed25519_init\<close> clears the key.\<close>

definition wc_ed25519_init :: ed25519_key where
  "wc_ed25519_init = \<lparr>ed_p = replicate 32 0, ed_k = replicate 64 0\<rparr>"

text \<open>The clamping of the hashed secret in place.\<close>

definition clamp :: "byte list \<Rightarrow> byte list" where
  "clamp az = (let az = az[0 := az ! 0 AND 248]; az = az[31 := az ! 31 AND 63] in az[31 := az ! 31 OR 64])"

text \<open>\<open>wc_ed25519_make_key\<close> with \<open>rng\<close> the generator's code and block.\<close>

definition wc_ed25519_make_key ::
  "('p3, 'p2) ed_prims \<Rightarrow> int \<times> byte list \<Rightarrow> nat \<Rightarrow> ed25519_key \<Rightarrow> int \<times> ed25519_key" where
  "wc_ed25519_make_key P rng keySz key =
     (if keySz \<noteq> ED25519_KEY_SIZE then (BAD_FUNC_ARG, key)
      else if fst rng \<noteq> 0 then (fst rng, key)
      else (let k = take 32 (snd rng); (ret, az) = sha512 P [k] in
        if ret \<noteq> 0 then (ret, key\<lparr>ed_k := replicate 32 0 @ drop 32 (ed_k key)\<rparr>)
        else (let p = ge_p3_tobytes P (ge_scalarmult_base P (clamp az)) in
              (ret, key\<lparr>ed_p := p, ed_k := k @ p\<rparr>))))"

section \<open>Signing and verifying\<close>

definition wc_ed25519_sign_msg ::
  "('p3, 'p2) ed_prims \<Rightarrow> byte list option \<Rightarrow> nat \<Rightarrow> ed25519_key \<Rightarrow> int \<times> nat \<times> byte list" where
  "wc_ed25519_sign_msg P inp outLen key =
     (case inp of
        None \<Rightarrow> (BAD_FUNC_ARG, outLen, [])
      | Some m \<Rightarrow>
          if outLen < ED25519_SIG_SIZE then (BUFFER_E, ED25519_SIG_SIZE, [])
          else
            (let n = ED25519_SIG_SIZE; (ret, az) = sha512 P [take 32 (ed_k key)] in
             if ret \<noteq> 0 then (ret, n, [])
             else
               (let az = clamp az; (ret, nonce) = sha512 P [take 32 (drop 32 az), m] in
                if ret \<noteq> 0 then (ret, n, [])
                else
                  (let nonce = sc_reduce P nonce;
                       R = ge_p3_tobytes P (ge_scalarmult_base P nonce);
                       (ret, hram) = sha512 P [R, ed_p key, m] in
                   if ret \<noteq> 0 then (ret, n, R)
                   else (ret, n, R @ sc_muladd P (sc_reduce P hram) az nonce)))))"

text \<open>
  \<open>wc_ed25519_verify_msg\<close>: the code and the value stored through \<open>res\<close> (\<open>None\<close>: nothing stored).
\<close>

definition wc_ed25519_verify_msg ::
  "('p3, 'p2) ed_prims \<Rightarrow> byte list option \<Rightarrow> byte list option \<Rightarrow> ed25519_key \<Rightarrow> int \<times> int option" where
  "wc_ed25519_verify_msg P sig msg key =
     (case (sig, msg) of
        (Some s, Some m) \<Rightarrow>
          if length s < ED25519_SIG_SIZE \<or> s ! 63 AND 224 \<noteq> 0 then (BAD_FUNC_ARG, Some 0)
          else
            (let (ret, A) = ge_frombytes_negate_vartime P (ed_p key) in
             if ret \<noteq> 0 then (BAD_FUNC_ARG, Some 0)
             else
               (let (ret, h) = sha512 P [take 32 s, ed_p key, m] in
                if ret \<noteq> 0 then (ret, Some 0)
                else
                  (let (ret, R) =
                         ge_double_scalarmult_vartime P (sc_reduce P h) A (drop 32 s) in
                   if ret \<noteq> 0 then (ret, Some 0)
                   else
                     (let ret = ConstantCompare (ge_tobytes P R) s 32 in
                      if ret \<noteq> 0 then (SIG_VERIFY_E, Some 0) else (ret, Some 1)))))
      | _ \<Rightarrow> (BAD_FUNC_ARG, None))"

section \<open>Import and export\<close>

definition wc_ed25519_export_public :: "ed25519_key \<Rightarrow> nat \<Rightarrow> int \<times> nat \<times> byte list" where
  "wc_ed25519_export_public key outLen =
     (if outLen < ED25519_PUB_KEY_SIZE then (BUFFER_E, ED25519_PUB_KEY_SIZE, [])
      else (0, ED25519_PUB_KEY_SIZE, take 32 (ed_p key)))"

definition wc_ed25519_export_private :: "ed25519_key \<Rightarrow> nat \<Rightarrow> int \<times> nat \<times> byte list" where
  "wc_ed25519_export_private key outLen =
     (if outLen < ED25519_PRV_KEY_SIZE then (BUFFER_E, ED25519_PRV_KEY_SIZE, [])
      else (0, ED25519_PRV_KEY_SIZE, take 64 (ed_k key)))"

definition wc_ed25519_import_public ::
  "('p3, 'p2) ed_prims \<Rightarrow> byte list option \<Rightarrow> ed25519_key \<Rightarrow> int \<times> ed25519_key" where
  "wc_ed25519_import_public P inp key =
     (case inp of
        None \<Rightarrow> (BAD_FUNC_ARG, key)
      | Some d \<Rightarrow>
          if length d < ED25519_PUB_KEY_SIZE then (BAD_FUNC_ARG, key)
          else if hd d = 0x40 \<and> length d > ED25519_PUB_KEY_SIZE then
            (0, key\<lparr>ed_p := take 32 (tl d)\<rparr>)
          else if hd d = 0x04 \<and> length d > 2 * ED25519_PUB_KEY_SIZE then
            (let (ret, p) = ge_compress_key P (take 32 (tl d)) (take 32 (drop 33 d)) in
             (ret, key\<lparr>ed_p := p\<rparr>))
          else if length d = ED25519_PUB_KEY_SIZE then (0, key\<lparr>ed_p := d\<rparr>)
          else (BAD_FUNC_ARG, key))"

definition wc_ed25519_import_private_key ::
  "('p3, 'p2) ed_prims \<Rightarrow> byte list \<Rightarrow> byte list \<Rightarrow> ed25519_key \<Rightarrow> int \<times> ed25519_key" where
  "wc_ed25519_import_private_key P priv pub key =
     (if length priv < ED25519_KEY_SIZE \<or> length pub < ED25519_PUB_KEY_SIZE then (BAD_FUNC_ARG, key)
      else (let (ret, key) = wc_ed25519_import_public P (Some pub) key in
        if ret \<noteq> 0 then (ret, key) else (ret, key\<lparr>ed_k := take 32 priv @ ed_p key\<rparr>)))"

section \<open>The wrappers of crypto.c\<close>

definition crypto_ed25519_init :: "int \<times> ed25519_key" where
  "crypto_ed25519_init = (0, wc_ed25519_init)"

definition crypto_ed25519_generate ::
  "('p3, 'p2) ed_prims \<Rightarrow> int \<times> byte list \<Rightarrow> int \<times> ed25519_key" where
  "crypto_ed25519_generate P rng =
     (let (r, key) = crypto_ed25519_init in
      if r \<noteq> 0 then (r, key) else wc_ed25519_make_key P rng ED25519_KEY_SIZE key)"

text \<open>The size argument of \<open>crypto_ed25519_import_key\<close> is not used: 64 bytes are read.\<close>

definition crypto_ed25519_import_key ::
  "('p3, 'p2) ed_prims \<Rightarrow> ed25519_key \<Rightarrow> byte list \<Rightarrow> fault + (int \<times> ed25519_key)" where
  "crypto_ed25519_import_key P key data =
     (if length data < 64 then Inl Oob_read
      else Inr (wc_ed25519_import_private_key P (take 32 data) (take 32 (drop 32 data)) key))"

definition crypto_ed25519_export_key :: "ed25519_key \<Rightarrow> nat option \<Rightarrow> int \<times> nat option \<times> byte list" where
  "crypto_ed25519_export_key key sz =
     (case sz of
        None \<Rightarrow> (- 1, None, [])
      | Some n \<Rightarrow>
          if n < ED25519_KEY_SIZE + ED25519_PUB_KEY_SIZE
          then (- 2, Some (ED25519_KEY_SIZE + ED25519_PUB_KEY_SIZE), [])
          else (let (r, m, out) = wc_ed25519_export_private key n in (r, Some m, out)))"

definition crypto_ed25519_import_public_key ::
  "('p3, 'p2) ed_prims \<Rightarrow> ed25519_key \<Rightarrow> byte list option \<Rightarrow> int \<times> ed25519_key" where
  "crypto_ed25519_import_public_key P key data = wc_ed25519_import_public P data key"

definition crypto_ed25519_export_public_key ::
  "ed25519_key \<Rightarrow> nat option \<Rightarrow> int \<times> nat option \<times> byte list" where
  "crypto_ed25519_export_public_key key sz =
     (case sz of
        None \<Rightarrow> (- 1, None, [])
      | Some n \<Rightarrow>
          if n < ED25519_PUB_KEY_SIZE then (- 2, Some ED25519_PUB_KEY_SIZE, [])
          else (let (r, m, out) = wc_ed25519_export_public key n in (r, Some m, out)))"

definition crypto_ed25519_sign ::
  "('p3, 'p2) ed_prims \<Rightarrow> ed25519_key \<Rightarrow> byte list option \<Rightarrow> nat option \<Rightarrow>
   int \<times> nat option \<times> byte list" where
  "crypto_ed25519_sign P key message sz =
     (case sz of
        None \<Rightarrow> (- 1, None, [])
      | Some n \<Rightarrow>
          if n < ED25519_SIG_SIZE then (- 2, Some ED25519_SIG_SIZE, [])
          else (let (r, m, out) = wc_ed25519_sign_msg P message n key in (r, Some m, out)))"

text \<open>
  \<open>crypto_ed25519_verify\<close> returns \<open>!r && !verified\<close>; its callers take 0 for a good signature.
  \<open>junk\<close> is what the uninitialised \<open>verified\<close> holds.
\<close>

definition crypto_ed25519_verify ::
  "('p3, 'p2) ed_prims \<Rightarrow> int \<Rightarrow> ed25519_key \<Rightarrow> byte list option \<Rightarrow> byte list option \<Rightarrow> int" where
  "crypto_ed25519_verify P junk key message signature =
     (let (r, res) = wc_ed25519_verify_msg P signature message key;
          verified = (case res of None \<Rightarrow> junk | Some v \<Rightarrow> v) in
      if r = 0 \<and> verified = 0 then 1 else 0)"

section \<open>Lemmas\<close>

lemma byte_or_zero: "x OR y = 0 \<longleftrightarrow> x = 0 \<and> y = (0 :: byte)"
  by (metis or.left_neutral or.right_neutral or_eq_0_iff)

lemma byte_xor_zero: "x XOR y = 0 \<longleftrightarrow> x = (y :: byte)"
  by (metis xor.left_neutral xor.assoc xor_self_eq)

lemma compare_sum_zero:
  "length xs = length ys \<Longrightarrow> compare_sum s xs ys = 0 \<longleftrightarrow> s = 0 \<and> xs = ys"
  by (induction s xs ys rule: compare_sum.induct) (auto simp: byte_or_zero byte_xor_zero)

lemma ConstantCompare_zero:
  "n \<le> length a \<Longrightarrow> n \<le> length b \<Longrightarrow> ConstantCompare a b n = 0 \<longleftrightarrow> take n a = take n b"
  using compare_sum_zero [of "take n a" "take n b" 0]
  by (simp add: ConstantCompare_def uint_0_iff)

text \<open>The shape of the keys the server holds: the public half is stored twice.\<close>

definition ed_paired :: "ed25519_key \<Rightarrow> bool" where
  "ed_paired key \<longleftrightarrow> ed_wf key \<and> drop 32 (ed_k key) = ed_p key"

lemma import_public_32:
  "length d = 32 \<Longrightarrow> wc_ed25519_import_public P (Some d) key = (0, key\<lparr>ed_p := d\<rparr>)"
  by (simp add: wc_ed25519_import_public_def)

lemma import_key_64:
  "length d = 64 \<Longrightarrow> crypto_ed25519_import_key P key d =
     Inr (0, key\<lparr>ed_p := drop 32 d, ed_k := d\<rparr>)"
  using append_take_drop_id [of 32 d]
  by (simp add: crypto_ed25519_import_key_def wc_ed25519_import_private_key_def import_public_32)

lemma export_key_wf:
  "ed_wf key \<Longrightarrow> crypto_ed25519_export_key key (Some 64) = (0, Some 64, ed_k key)"
  by (simp add: crypto_ed25519_export_key_def wc_ed25519_export_private_def ed_wf_def)

lemma export_public_wf:
  "ed_wf key \<Longrightarrow> crypto_ed25519_export_public_key key (Some 32) = (0, Some 32, ed_p key)"
  by (simp add: crypto_ed25519_export_public_key_def wc_ed25519_export_public_def ed_wf_def)

lemma export_import_key:
  assumes "ed_paired key"
  shows "crypto_ed25519_import_key P k0 (snd (snd (crypto_ed25519_export_key key (Some 64)))) = Inr (0, key)"
  using assms by (simp add: ed_paired_def export_key_wf ed_wf_def import_key_64)

text \<open>The library's answer: code 0 exactly when the stored result is 1.\<close>

lemma verify_msg_code:
  "fst (wc_ed25519_verify_msg P sig msg key) = 0 \<longleftrightarrow> snd (wc_ed25519_verify_msg P sig msg key) = Some 1"
  by (auto simp: wc_ed25519_verify_msg_def Let_def error_codes split: option.splits prod.splits)

section \<open>Properties\<close>

text \<open>
  C40: \<open>crypto_ed25519_verify\<close> accepts every signature.  \<open>wc_ed25519_verify_msg\<close> returns code 0 exactly
  when it stores 1 (a valid signature), so \<open>!r && !verified\<close> is 0, the wrapper's "valid", whatever the
  key, the message, the signature and the primitives are.
\<close>

theorem crypto_ed25519_verify_accepts_all:
  "(fst (wc_ed25519_verify_msg P sig msg key) = 0 \<longleftrightarrow> snd (wc_ed25519_verify_msg P sig msg key) = Some 1)
   \<and> crypto_ed25519_verify P junk key msg sig = 0"
  using verify_msg_code [of P sig msg key]
  by (auto simp: crypto_ed25519_verify_def split: prod.splits)

text \<open>
  The library check itself is sound: it reports success only for a signature of at least 64
  bytes with the top bits of its last byte clear, a public key that decodes, and a recomputed point
  equal to the signature's first half.
\<close>

theorem wc_ed25519_verify_msg_sound:
  assumes "\<And>R. length (ge_tobytes P R) = 32"
    and "wc_ed25519_verify_msg P (Some s) (Some m) key = (0, Some 1)"
  shows "64 \<le> length s \<and> s ! 63 AND 224 = 0 \<and> fst (ge_frombytes_negate_vartime P (ed_p key)) = 0 \<and>
    ge_tobytes P (snd (ge_double_scalarmult_vartime P
        (sc_reduce P (snd (sha512 P [take 32 s, ed_p key, m])))
        (snd (ge_frombytes_negate_vartime P (ed_p key))) (drop 32 s))) = take 32 s"
  using assms(2) ConstantCompare_zero [of 32 "ge_tobytes P R" s for R] assms(1)
  by (auto simp: wc_ed25519_verify_msg_def Let_def error_codes split: if_splits prod.splits)

text \<open>Primitives over bytes alone, to evaluate the operations on.\<close>

definition toy_prims :: "(byte list, byte list) ed_prims" where
  "toy_prims = \<lparr>sha512 = (\<lambda>ms. (0, take 64 (concat ms @ replicate 64 0))),
     ge_scalarmult_base = (\<lambda>a. take 32 (a @ replicate 32 0)),
     ge_p3_tobytes = (\<lambda>p. take 32 (p @ replicate 32 0)),
     ge_frombytes_negate_vartime = (\<lambda>b. (0, b)),
     ge_double_scalarmult_vartime = (\<lambda>h A s. (0, h)),
     ge_tobytes = (\<lambda>p. take 32 (p @ replicate 32 0)),
     ge_compress_key = (\<lambda>x y. (0, x)),
     sc_reduce = (\<lambda>h. take 32 (h @ replicate 32 0)),
     sc_muladd = (\<lambda>h a r. take 32 (h @ replicate 32 0))\<rparr>"

theorem wc_ed25519_verify_msg_sound_witness:
  "64 \<le> length (replicate 64 (7 :: byte)) \<and> replicate 64 (7 :: byte) ! 63 AND 224 = 0 \<and>
    fst (ge_frombytes_negate_vartime toy_prims (ed_p wc_ed25519_init)) = 0 \<and>
    ge_tobytes toy_prims (snd (ge_double_scalarmult_vartime toy_prims
        (sc_reduce toy_prims (snd (sha512 toy_prims [take 32 (replicate 64 7), ed_p wc_ed25519_init, [1]])))
        (snd (ge_frombytes_negate_vartime toy_prims (ed_p wc_ed25519_init))) (drop 32 (replicate 64 7))))
    = take 32 (replicate 64 7)"
proof (rule wc_ed25519_verify_msg_sound)
  show "length (ge_tobytes toy_prims R) = 32" for R by (simp add: toy_prims_def)
  show "wc_ed25519_verify_msg toy_prims (Some (replicate 64 7)) (Some [1]) wc_ed25519_init = (0, Some 1)"
    by code_simp
qed

text \<open>
  A key survives export and import: for any key whose private buffer ends with its public half,
  as \<open>wc_ed25519_make_key\<close> leaves it, importing the 64 exported bytes restores both buffers.
\<close>

theorem ed25519_key_roundtrip:
  assumes "wc_ed25519_make_key P rng ED25519_KEY_SIZE k0 = (0, key)"
    and "\<And>p. length (ge_p3_tobytes P p) = 32" and "32 \<le> length (snd rng)"
  shows "crypto_ed25519_import_key P k1 (snd (snd (crypto_ed25519_export_key key (Some 64)))) = Inr (0, key)"
proof (rule export_import_key)
  show "ed_paired key"
    using assms by (auto simp: wc_ed25519_make_key_def ed_paired_def ed_wf_def Let_def
        split: if_splits prod.splits)
qed

theorem ed25519_key_roundtrip_witness:
  "\<exists>key. wc_ed25519_make_key toy_prims (0, replicate 32 9) ED25519_KEY_SIZE wc_ed25519_init = (0, key) \<and>
    crypto_ed25519_import_key toy_prims wc_ed25519_init
      (snd (snd (crypto_ed25519_export_key key (Some 64)))) = Inr (0, key)"
proof -
  have "fst (wc_ed25519_make_key toy_prims (0, replicate 32 9) ED25519_KEY_SIZE wc_ed25519_init) = 0"
    by (simp add: wc_ed25519_make_key_def toy_prims_def Let_def)
  then obtain key where key: "wc_ed25519_make_key toy_prims (0, replicate 32 9) ED25519_KEY_SIZE wc_ed25519_init = (0, key)"
    by (metis prod.collapse)
  show ?thesis
    using key ed25519_key_roundtrip [OF key, of wc_ed25519_init] by (simp add: toy_prims_def)
qed

end
