(* ===== verification/Storage.thy ===== *)
theory Storage
  imports HK_Prelude Ed25519
begin

text \<open>
  The persistent storage of \<open>src/storage.c\<close>: one flash sector with a magic, the accessory's id and
  key, and sixteen 80-byte pairing records.  The SDK's flash calls and the address of the EEPROM
  sector are the fields of a parameter \<open>B\<close> over a device state \<open>'w\<close>; every operation returns the new
  device state.  A read that fails leaves whatever the SDK left in the buffer, and the loops go on
  with it, as the code does; \<open>uninit n\<close> is the content of an uninitialised object of \<open>n\<close> bytes.
\<close>

section \<open>The flash interface\<close>

record 'w board =
  spi_flash_read :: "'w \<Rightarrow> nat \<Rightarrow> byte list \<Rightarrow> bool \<times> byte list"
  spi_flash_write :: "'w \<Rightarrow> nat \<Rightarrow> byte list \<Rightarrow> bool \<times> 'w"
  spi_flash_erase_sector :: "'w \<Rightarrow> nat \<Rightarrow> bool \<times> 'w"
  STORAGE_BASE_ADDR :: nat
  uninit :: "nat \<Rightarrow> byte list"

definition SPI_FLASH_SECTOR_SIZE :: nat where "SPI_FLASH_SECTOR_SIZE = 4096"

definition spiflash_erase_sector :: "'w board \<Rightarrow> 'w \<Rightarrow> nat \<Rightarrow> bool \<times> 'w" where
  "spiflash_erase_sector B w addr = spi_flash_erase_sector B w (addr div SPI_FLASH_SECTOR_SIZE)"

section \<open>Layout\<close>

definition ACCESSORY_ID_SIZE :: nat where "ACCESSORY_ID_SIZE = 17"
definition DEVICE_ID_SIZE :: nat where "DEVICE_ID_SIZE = 36"
definition PAIRINGS_OFFSET :: nat where "PAIRINGS_OFFSET = 128"
definition MAX_PAIRINGS :: nat where "MAX_PAIRINGS = 16"
definition ACCESSORY_KEY_SIZE :: nat where "ACCESSORY_KEY_SIZE = 64"

definition MAGIC_ADDR :: "'w board \<Rightarrow> nat" where "MAGIC_ADDR B = STORAGE_BASE_ADDR B + 0"
definition ACCESSORY_ID_ADDR :: "'w board \<Rightarrow> nat" where "ACCESSORY_ID_ADDR B = STORAGE_BASE_ADDR B + 4"
definition ACCESSORY_KEY_ADDR :: "'w board \<Rightarrow> nat" where "ACCESSORY_KEY_ADDR B = STORAGE_BASE_ADDR B + 32"
definition PAIRINGS_ADDR :: "'w board \<Rightarrow> nat" where "PAIRINGS_ADDR B = STORAGE_BASE_ADDR B + PAIRINGS_OFFSET"

lemmas layout_defs =
  ACCESSORY_ID_SIZE_def DEVICE_ID_SIZE_def PAIRINGS_OFFSET_def MAX_PAIRINGS_def ACCESSORY_KEY_SIZE_def
  MAGIC_ADDR_def ACCESSORY_ID_ADDR_def ACCESSORY_KEY_ADDR_def PAIRINGS_ADDR_def SPI_FLASH_SECTOR_SIZE_def

text \<open>\<open>"HAP"\<close> with its NUL.\<close>

definition magic1 :: "byte list" where "magic1 = [0x48, 0x41, 0x50, 0]"

record pairing_data =
  pd_magic :: "byte list"
  pd_permissions :: byte
  pd_device_id :: "byte list"
  pd_public_key :: "byte list"
  pd_reserved :: "byte list"

definition PAIRING_SIZE :: nat where "PAIRING_SIZE = 80"

definition pairing_data_of :: "byte list \<Rightarrow> pairing_data" where
  "pairing_data_of d = \<lparr>pd_magic = take 4 d, pd_permissions = d ! 4,
     pd_device_id = take 36 (drop 5 d), pd_public_key = take 32 (drop 41 d),
     pd_reserved = take 7 (drop 73 d)\<rparr>"

definition pairing_data_bytes :: "pairing_data \<Rightarrow> byte list" where
  "pairing_data_bytes p =
     pd_magic p @ [pd_permissions p] @ pd_device_id p @ pd_public_key p @ pd_reserved p"

text \<open>\<open>pairing_t\<close> of \<open>pairing.h\<close>.\<close>

record pairing =
  p_id :: int
  p_device_id :: "byte list"
  p_device_key :: ed25519_key
  p_permissions :: byte

section \<open>Formatting\<close>

definition homekit_storage_init :: "'w board \<Rightarrow> 'w \<Rightarrow> int \<times> 'w" where
  "homekit_storage_init B w =
     (let (_, magic) = spi_flash_read B w (MAGIC_ADDR B) (replicate 4 0) in
      if \<not> cstr_eq_n 0 4 magic magic1 then
        (let (ok, w) = spiflash_erase_sector B w (STORAGE_BASE_ADDR B) in
         if \<not> ok then (- 1, w)
         else (let (ok, w) = spi_flash_write B w (MAGIC_ADDR B) (strncpy 0 magic1 4) in
               if \<not> ok then (- 1, w) else (1, w)))
      else (0, w))"

definition homekit_storage_reset :: "'w board \<Rightarrow> 'w \<Rightarrow> int \<times> 'w" where
  "homekit_storage_reset B w =
     (let (ok, w) = spi_flash_write B w (MAGIC_ADDR B) (replicate 4 0) in
      if \<not> ok then (- 1, w) else homekit_storage_init B w)"

section \<open>The accessory's id and key\<close>

definition homekit_storage_save_accessory_id :: "'w board \<Rightarrow> 'w \<Rightarrow> byte list \<Rightarrow> fault + 'w" where
  "homekit_storage_save_accessory_id B w accessory_id =
     (if length accessory_id < ACCESSORY_ID_SIZE then Inl Oob_read
      else Inr (snd (spi_flash_write B w (ACCESSORY_ID_ADDR B) (take ACCESSORY_ID_SIZE accessory_id))))"

definition ishex :: "byte \<Rightarrow> bool" where
  "ishex c0 =
     (let c = (if 0x61 \<le> c0 \<and> c0 \<le> 0x7A then c0 - 0x20 else c0) in
      0x30 \<le> c \<and> c \<le> 0x39 \<or> 0x41 \<le> c \<and> c \<le> 0x46)"

fun check_accessory_id :: "nat \<Rightarrow> byte list \<Rightarrow> int" where
  "check_accessory_id i [] = 0"
| "check_accessory_id i (c # cs) =
     (if i mod 3 = 2 then (if c \<noteq> 0x3A then - 3 else check_accessory_id (Suc i) cs)
      else if \<not> ishex c then - 4 else check_accessory_id (Suc i) cs)"

text \<open>\<open>data\<close> is the caller's buffer of 18 bytes; the result is the code and the buffer.\<close>

definition homekit_storage_load_accessory_id :: "'w board \<Rightarrow> 'w \<Rightarrow> byte list \<Rightarrow> int \<times> byte list" where
  "homekit_storage_load_accessory_id B w data =
     (let (ok, d) = spi_flash_read B w (ACCESSORY_ID_ADDR B) (take ACCESSORY_ID_SIZE data);
          data = d @ drop ACCESSORY_ID_SIZE data in
      if \<not> ok then (- 1, data)
      else if data ! 0 = 0 then (- 2, data)
      else (let data = data[ACCESSORY_ID_SIZE := 0] in
            (check_accessory_id 0 (take ACCESSORY_ID_SIZE data), data)))"

definition homekit_storage_save_accessory_key :: "'w board \<Rightarrow> 'w \<Rightarrow> ed25519_key \<Rightarrow> 'w" where
  "homekit_storage_save_accessory_key B w key =
     (let (r, _, key_data) = crypto_ed25519_export_key key (Some ACCESSORY_KEY_SIZE) in
      if r \<noteq> 0 then w else snd (spi_flash_write B w (ACCESSORY_KEY_ADDR B) key_data))"

definition homekit_storage_load_accessory_key ::
  "'w board \<Rightarrow> ('p3, 'p2) ed_prims \<Rightarrow> 'w \<Rightarrow> ed25519_key \<Rightarrow> fault + (int \<times> ed25519_key)" where
  "homekit_storage_load_accessory_key B P w key =
     (let (ok, key_data) = spi_flash_read B w (ACCESSORY_KEY_ADDR B) (uninit B ACCESSORY_KEY_SIZE) in
      if \<not> ok then Inr (- 1, key)
      else bind_res (crypto_ed25519_import_key P (snd crypto_ed25519_init) key_data)
             (\<lambda>(r, key). Inr (if r \<noteq> 0 then - 2 else 0, key)))"

section \<open>Pairing records\<close>

definition pairing_addr :: "'w board \<Rightarrow> nat \<Rightarrow> nat" where
  "pairing_addr B i = PAIRINGS_ADDR B + PAIRING_SIZE * i"

definition has_magic :: "byte list \<Rightarrow> bool" where
  "has_magic d \<longleftrightarrow> cstr_eq_n 0 4 (pd_magic (pairing_data_of d)) magic1"

definition has_device :: "byte list \<Rightarrow> byte list \<Rightarrow> bool" where
  "has_device d device_id \<longleftrightarrow>
     cstr_eq_n 0 DEVICE_ID_SIZE (pd_device_id (pairing_data_of d)) device_id"

text \<open>The loops run over the indices 0 to 15; \<open>d\<close> is the record buffer they share.\<close>

fun can_add_loop :: "'w board \<Rightarrow> 'w \<Rightarrow> nat list \<Rightarrow> byte list \<Rightarrow> bool" where
  "can_add_loop B w [] d = False"
| "can_add_loop B w (i # is) d =
     (let (_, d) = spi_flash_read B w (pairing_addr B i) d in
      if \<not> has_magic d then True else can_add_loop B w is d)"

definition homekit_storage_can_add_pairing :: "'w board \<Rightarrow> 'w \<Rightarrow> bool" where
  "homekit_storage_can_add_pairing B w = can_add_loop B w [0..<MAX_PAIRINGS] (uninit B PAIRING_SIZE)"

fun find_empty_loop :: "'w board \<Rightarrow> 'w \<Rightarrow> nat list \<Rightarrow> byte list \<Rightarrow> nat option" where
  "find_empty_loop B w [] d = None"
| "find_empty_loop B w (i # is) d =
     (let (_, d) = spi_flash_read B w (pairing_addr B i) d in
      if list_all (\<lambda>b. b = 0xff) d then Some i else find_empty_loop B w is d)"

text \<open>\<open>None\<close> for -1.\<close>

definition find_empty_block :: "'w board \<Rightarrow> 'w \<Rightarrow> nat option" where
  "find_empty_block B w = find_empty_loop B w [0..<MAX_PAIRINGS] (uninit B PAIRING_SIZE)"

text \<open>
  The compaction loop over the sector's copy: the destination of \<open>memcpy\<close> is indexed with the flash
  address \<open>PAIRINGS_ADDR\<close>, not with the offset.
\<close>

fun compact_loop :: "'w board \<Rightarrow> nat list \<Rightarrow> byte list \<Rightarrow> nat \<Rightarrow> fault + (byte list \<times> nat)" where
  "compact_loop B [] data nxt = Inr (data, nxt)"
| "compact_loop B (i # is) data nxt =
     (let d = take PAIRING_SIZE (drop (PAIRINGS_OFFSET + PAIRING_SIZE * i) data) in
      if \<not> has_magic d then compact_loop B is data nxt
      else if i = nxt then compact_loop B is data (nxt + 1)
      else (let dst = PAIRINGS_ADDR B + PAIRING_SIZE * nxt in
            if dst + PAIRING_SIZE \<le> length data
            then compact_loop B is (take dst data @ d @ drop (dst + PAIRING_SIZE) data) (nxt + 1)
            else Inl Oob_write))"

definition compact_data :: "'w board \<Rightarrow> 'w \<Rightarrow> fault + (int \<times> 'w)" where
  "compact_data B w =
     (let (ok, data) = spi_flash_read B w (STORAGE_BASE_ADDR B) (uninit B SPI_FLASH_SECTOR_SIZE) in
      if \<not> ok then Inr (- 1, w)
      else bind_res (compact_loop B [0..<MAX_PAIRINGS] data 0) (\<lambda>(data, nxt).
        if nxt = MAX_PAIRINGS then Inr (0, w)
        else (let (r, w) = homekit_storage_reset B w in
          if r \<noteq> 0 then Inr (- 1, w)
          else (let (ok, w) = spi_flash_write B w (STORAGE_BASE_ADDR B)
                                (take (PAIRINGS_OFFSET + PAIRING_SIZE * nxt) data) in
                Inr (if ok then 0 else - 1, w)))))"

text \<open>\<open>find_empty_block\<close>, after a compaction when there is none.\<close>

definition block_for_write :: "'w board \<Rightarrow> 'w \<Rightarrow> fault + (nat option \<times> 'w)" where
  "block_for_write B w =
     (case find_empty_block B w of
        Some i \<Rightarrow> Inr (Some i, w)
      | None \<Rightarrow> bind_res (compact_data B w) (\<lambda>(_, w). Inr (find_empty_block B w, w)))"

definition new_pairing_data :: "byte list \<Rightarrow> byte list \<Rightarrow> byte \<Rightarrow> pairing_data" where
  "new_pairing_data device_id key permissions =
     \<lparr>pd_magic = strncpy 0 magic1 4, pd_permissions = permissions,
      pd_device_id = strncpy 0 device_id DEVICE_ID_SIZE, pd_public_key = key,
      pd_reserved = replicate 7 0\<rparr>"

definition homekit_storage_add_pairing ::
  "'w board \<Rightarrow> 'w \<Rightarrow> byte list \<Rightarrow> ed25519_key \<Rightarrow> byte \<Rightarrow> fault + (int \<times> 'w)" where
  "homekit_storage_add_pairing B w device_id device_key permissions =
     bind_res (block_for_write B w) (\<lambda>(blk, w).
       case blk of
         None \<Rightarrow> Inr (- 2, w)
       | Some i \<Rightarrow>
           (let (r, _, key) = crypto_ed25519_export_public_key device_key (Some 32) in
            if r \<noteq> 0 then Inr (- 1, w)
            else (let (ok, w) = spi_flash_write B w (pairing_addr B i)
                        (pairing_data_bytes (new_pairing_data device_id key permissions)) in
                  Inr (if ok then 0 else - 1, w))))"

fun update_loop ::
  "'w board \<Rightarrow> 'w \<Rightarrow> nat list \<Rightarrow> byte list \<Rightarrow> byte list \<Rightarrow> byte \<Rightarrow> fault + (int \<times> 'w)" where
  "update_loop B w [] d device_id permissions = Inr (- 1, w)"
| "update_loop B w (i # is) d device_id permissions =
     (let (_, d) = spi_flash_read B w (pairing_addr B i) d in
      if has_magic d \<and> has_device d device_id then
        bind_res (block_for_write B w) (\<lambda>(blk, w).
          case blk of
            None \<Rightarrow> Inr (- 2, w)
          | Some j \<Rightarrow>
              (let (ok, w) = spi_flash_write B w (pairing_addr B j)
                     (pairing_data_bytes ((pairing_data_of d)\<lparr>pd_permissions := permissions\<rparr>)) in
               if \<not> ok then Inr (- 1, w)
               else (let (ok, w) = spi_flash_write B w (pairing_addr B i) (replicate PAIRING_SIZE 0) in
                     Inr (if ok then 0 else - 2, w))))
      else update_loop B w is d device_id permissions)"

definition homekit_storage_update_pairing ::
  "'w board \<Rightarrow> 'w \<Rightarrow> byte list \<Rightarrow> byte \<Rightarrow> fault + (int \<times> 'w)" where
  "homekit_storage_update_pairing B w device_id permissions =
     update_loop B w [0..<MAX_PAIRINGS] (uninit B PAIRING_SIZE) device_id permissions"

fun remove_loop :: "'w board \<Rightarrow> 'w \<Rightarrow> nat list \<Rightarrow> byte list \<Rightarrow> byte list \<Rightarrow> int \<times> 'w" where
  "remove_loop B w [] d device_id = (0, w)"
| "remove_loop B w (i # is) d device_id =
     (let (_, d) = spi_flash_read B w (pairing_addr B i) d in
      if has_magic d \<and> has_device d device_id then
        (let (ok, w) = spi_flash_write B w (pairing_addr B i) (replicate PAIRING_SIZE 0) in
         (if ok then 0 else - 2, w))
      else remove_loop B w is d device_id)"

definition homekit_storage_remove_pairing :: "'w board \<Rightarrow> 'w \<Rightarrow> byte list \<Rightarrow> int \<times> 'w" where
  "homekit_storage_remove_pairing B w device_id =
     remove_loop B w [0..<MAX_PAIRINGS] (uninit B PAIRING_SIZE) device_id"

section \<open>Lookup and iteration\<close>

text \<open>Filling a \<open>pairing_t\<close> from a record: the code of the key import and the pairing.\<close>

definition load_pairing ::
  "('p3, 'p2) ed_prims \<Rightarrow> nat \<Rightarrow> byte list \<Rightarrow> pairing \<Rightarrow> int \<times> pairing" where
  "load_pairing P i d pairing =
     (let data = pairing_data_of d;
          (r, key) = crypto_ed25519_import_public_key P (snd crypto_ed25519_init) (Some (pd_public_key data)) in
      if r \<noteq> 0 then (r, pairing\<lparr>p_device_key := key\<rparr>)
      else (0, pairing\<lparr>p_device_key := key, p_id := int i,
                 p_device_id := strncpy 0 (pd_device_id data) DEVICE_ID_SIZE @ [0],
                 p_permissions := pd_permissions data\<rparr>))"

fun find_loop ::
  "'w board \<Rightarrow> ('p3, 'p2) ed_prims \<Rightarrow> 'w \<Rightarrow> nat list \<Rightarrow> byte list \<Rightarrow> byte list \<Rightarrow> pairing \<Rightarrow> int \<times> pairing"
  where
  "find_loop B P w [] d device_id pairing = (- 1, pairing)"
| "find_loop B P w (i # is) d device_id pairing =
     (let (_, d) = spi_flash_read B w (pairing_addr B i) d in
      if has_magic d \<and> has_device d device_id then
        (let (r, pairing) = load_pairing P i d pairing in (if r \<noteq> 0 then - 2 else 0, pairing))
      else find_loop B P w is d device_id pairing)"

definition homekit_storage_find_pairing ::
  "'w board \<Rightarrow> ('p3, 'p2) ed_prims \<Rightarrow> 'w \<Rightarrow> byte list \<Rightarrow> pairing \<Rightarrow> int \<times> pairing" where
  "homekit_storage_find_pairing B P w device_id pairing =
     find_loop B P w [0..<MAX_PAIRINGS] (uninit B PAIRING_SIZE) device_id pairing"

text \<open>The iterator is its index; the result is the code, the index and the pairing.\<close>

definition homekit_storage_pairing_iterator_init :: nat where
  "homekit_storage_pairing_iterator_init = 0"

function next_loop ::
  "'w board \<Rightarrow> ('p3, 'p2) ed_prims \<Rightarrow> 'w \<Rightarrow> nat \<Rightarrow> byte list \<Rightarrow> pairing \<Rightarrow> int \<times> nat \<times> pairing" where
  "next_loop B P w idx d pairing =
     (if idx < MAX_PAIRINGS then
        (let (_, d) = spi_flash_read B w (pairing_addr B idx) d in
         if has_magic d then
           (let (r, pairing) = load_pairing P idx d pairing in
            if r \<noteq> 0 then next_loop B P w (idx + 1) d pairing else (0, idx + 1, pairing))
         else next_loop B P w (idx + 1) d pairing)
      else (- 1, idx, pairing))"
  by pat_completeness auto
termination
  by (relation "measure (\<lambda>(_, _, _, idx, _). MAX_PAIRINGS - idx)") auto

declare next_loop.simps [simp del]

definition homekit_storage_next_pairing ::
  "'w board \<Rightarrow> ('p3, 'p2) ed_prims \<Rightarrow> 'w \<Rightarrow> nat \<Rightarrow> pairing \<Rightarrow> int \<times> nat \<times> pairing" where
  "homekit_storage_next_pairing B P w idx pairing = next_loop B P w idx (uninit B PAIRING_SIZE) pairing"

section \<open>Records and bytes\<close>

lemma PAIRING_SIZE_80 [simp]: "PAIRING_SIZE = 80"
  by (simp add: PAIRING_SIZE_def)

text \<open>\<open>same_dev\<close>: the device identifiers \<open>strncmp\<close> takes for equal.\<close>

definition same_dev :: "byte list \<Rightarrow> byte list \<Rightarrow> bool" where
  "same_dev d e \<longleftrightarrow> cstr_eq_n 0 DEVICE_ID_SIZE d e"

lemma same_dev_iff: "same_dev d e \<longleftrightarrow> take 36 (cstr 0 d) = take 36 (cstr 0 e)"
  by (simp add: same_dev_def DEVICE_ID_SIZE_def cstr_eq_n_iff)

lemma same_dev_refl [simp]: "same_dev d d"
  by (simp add: same_dev_iff)

lemma same_dev_sym: "same_dev d e = same_dev e d"
  by (auto simp: same_dev_iff)

lemma same_dev_trans: "same_dev d e \<Longrightarrow> same_dev d f \<longleftrightarrow> same_dev e f"
  by (simp add: same_dev_iff)

lemma cstr_strncpy: "cstr z (strncpy z d n) = take n (cstr z d)"
proof -
  let ?s = "take n (cstr z d)"
  have "c \<noteq> z" if "c \<in> set ?s" for c
    using in_set_takeD [OF that] nul_notin_cstr [of z d] by auto
  then have "takeWhile (\<lambda>c. c \<noteq> z) (?s @ replicate m z) = ?s @ takeWhile (\<lambda>c. c \<noteq> z) (replicate m z)" for m
    by (rule takeWhile_append2)
  moreover have "takeWhile (\<lambda>c. c \<noteq> z) (replicate m z) = []" for m
    by (cases m) simp_all
  moreover have "cstr z (strncpy z d n) =
      takeWhile (\<lambda>c. c \<noteq> z) (?s @ replicate (n - length ?s) z)"
    unfolding strncpy_def Let_def by (simp only: cstr_def [of z "_ @ _"])
  ultimately show ?thesis by simp
qed

lemma same_dev_strncpy [simp]: "same_dev (strncpy 0 d DEVICE_ID_SIZE) e = same_dev d e"
  by (simp add: same_dev_iff cstr_strncpy DEVICE_ID_SIZE_def)

definition pd_wf :: "pairing_data \<Rightarrow> bool" where
  "pd_wf p \<longleftrightarrow> length (pd_magic p) = 4 \<and> length (pd_device_id p) = 36 \<and>
     length (pd_public_key p) = 32 \<and> length (pd_reserved p) = 7"

lemma length_pairing_data_bytes: "pd_wf p \<Longrightarrow> length (pairing_data_bytes p) = 80"
  by (simp add: pd_wf_def pairing_data_bytes_def)

lemma pairing_data_of_bytes: "pd_wf p \<Longrightarrow> pairing_data_of (pairing_data_bytes p) = p"
  by (cases p) (simp add: pd_wf_def pairing_data_of_def pairing_data_bytes_def nth_append)

lemma pairing_data_of_wf: "length d = 80 \<Longrightarrow> pd_wf (pairing_data_of d)"
  by (simp add: pd_wf_def pairing_data_of_def)

lemma new_pairing_data_wf: "length key = 32 \<Longrightarrow> pd_wf (new_pairing_data dev key perms)"
  by (simp add: pd_wf_def new_pairing_data_def DEVICE_ID_SIZE_def)

lemma strncpy_magic1 [simp]: "strncpy 0 magic1 4 = magic1"
  by (simp add: magic1_def strncpy_def cstr_def)

definition live_for :: "byte list \<Rightarrow> byte list \<Rightarrow> bool" where
  "live_for dev s \<longleftrightarrow> has_magic s \<and> has_device s dev"

lemma live_for_same: "same_dev d e \<Longrightarrow> live_for d s = live_for e s"
  by (auto simp: live_for_def has_device_def same_dev_iff DEVICE_ID_SIZE_def cstr_eq_n_iff)

lemma has_device_same: "has_device s dev = same_dev (pd_device_id (pairing_data_of s)) dev"
  by (simp add: has_device_def same_dev_def)

lemma has_magic_new: "length key = 32 \<Longrightarrow> has_magic (pairing_data_bytes (new_pairing_data dev key perms))"
  using pairing_data_of_bytes [OF new_pairing_data_wf, of key dev perms]
  by (simp add: has_magic_def new_pairing_data_def)

lemma has_device_new:
  "length key = 32 \<Longrightarrow> has_device (pairing_data_bytes (new_pairing_data dev key perms)) e = same_dev dev e"
  using pairing_data_of_bytes [OF new_pairing_data_wf, of key dev perms]
  by (simp add: has_device_same new_pairing_data_def)

definition blank :: "byte list \<Rightarrow> bool" where
  "blank s \<longleftrightarrow> list_all (\<lambda>b. b = 0xff) s"

lemma not_live_blank: "length s = 80 \<Longrightarrow> blank s \<Longrightarrow> \<not> has_magic s"
proof
  assume s: "length s = 80" "blank s" "has_magic s"
  then have "s \<noteq> []" and "hd s = 0xff" by (cases s; simp add: blank_def)+
  then obtain t where "s = 0xff # t" by (cases s) auto
  with s(3) show False
    by (simp add: has_magic_def pairing_data_of_def magic1_def cstr_eq_n_iff cstr_Cons)
qed

lemma not_live_zero: "\<not> has_magic (replicate 80 0)"
  by (simp add: has_magic_def pairing_data_of_def magic1_def cstr_eq_n_iff cstr_def)

lemma not_blank_zero: "\<not> blank (replicate 80 0)"
  by (simp add: blank_def list_all_iff)

text \<open>What a pairing looks like once loaded from a record.\<close>

definition pairing_at :: "nat \<Rightarrow> byte list \<Rightarrow> pairing" where
  "pairing_at i s = \<lparr>p_id = int i,
     p_device_id = strncpy 0 (pd_device_id (pairing_data_of s)) DEVICE_ID_SIZE @ [0],
     p_device_key = wc_ed25519_init\<lparr>ed_p := pd_public_key (pairing_data_of s)\<rparr>,
     p_permissions = pd_permissions (pairing_data_of s)\<rparr>"

lemma load_pairing_at: "length s = 80 \<Longrightarrow> load_pairing P i s pairing = (0, pairing_at i s)"
  using pairing_data_of_wf [of s]
  by (simp add: load_pairing_def pairing_at_def crypto_ed25519_import_public_key_def
      crypto_ed25519_init_def import_public_32 pd_wf_def Let_def)

section \<open>NOR flash\<close>

text \<open>
  The documented behaviour of the flash in the EEPROM sector: a read returns the memory, a write can
  only clear bits, an erase sets the whole sector to ones; other addresses keep their content.
\<close>

locale nor_flash =
  fixes B :: "'w board" and mem :: "'w \<Rightarrow> nat \<Rightarrow> byte"
  assumes aligned: "STORAGE_BASE_ADDR B mod 4096 = 0"
    and uninit_length: "length (uninit B n) = n"
    and read: "STORAGE_BASE_ADDR B \<le> a \<Longrightarrow> a + length buf \<le> STORAGE_BASE_ADDR B + 4096 \<Longrightarrow>
      spi_flash_read B w a buf = (True, map (mem w) [a..<a + length buf])"
    and write_ok: "STORAGE_BASE_ADDR B \<le> a \<Longrightarrow> a + length d \<le> STORAGE_BASE_ADDR B + 4096 \<Longrightarrow>
      fst (spi_flash_write B w a d)"
    and write_mem: "STORAGE_BASE_ADDR B \<le> a \<Longrightarrow> a + length d \<le> STORAGE_BASE_ADDR B + 4096 \<Longrightarrow>
      mem (snd (spi_flash_write B w a d)) x =
        (if a \<le> x \<and> x < a + length d then mem w x AND d ! (x - a) else mem w x)"
    and erase_ok: "fst (spi_flash_erase_sector B w (STORAGE_BASE_ADDR B div 4096))"
    and erase_mem: "mem (snd (spi_flash_erase_sector B w (STORAGE_BASE_ADDR B div 4096))) x =
        (if STORAGE_BASE_ADDR B \<le> x \<and> x < STORAGE_BASE_ADDR B + 4096 then 0xff else mem w x)"

text \<open>The sector seen as a list of records, and as a map from device identifiers.\<close>

definition region :: "'w board \<Rightarrow> ('w \<Rightarrow> nat \<Rightarrow> byte) \<Rightarrow> 'w \<Rightarrow> nat \<Rightarrow> nat \<Rightarrow> byte list" where
  "region B mem w off n = map (mem w) [STORAGE_BASE_ADDR B + off..<STORAGE_BASE_ADDR B + off + n]"

definition slot :: "'w board \<Rightarrow> ('w \<Rightarrow> nat \<Rightarrow> byte) \<Rightarrow> 'w \<Rightarrow> nat \<Rightarrow> byte list" where
  "slot B mem w i = region B mem w (128 + 80 * i) 80"

definition lookup_slot :: "'w board \<Rightarrow> ('w \<Rightarrow> nat \<Rightarrow> byte) \<Rightarrow> 'w \<Rightarrow> byte list \<Rightarrow> nat option" where
  "lookup_slot B mem w dev = find (\<lambda>i. live_for dev (slot B mem w i)) [0..<16]"

definition stored :: "'w board \<Rightarrow> ('w \<Rightarrow> nat \<Rightarrow> byte) \<Rightarrow> 'w \<Rightarrow> byte list \<Rightarrow> (byte list \<times> byte) option" where
  "stored B mem w dev = map_option (\<lambda>i. let p = pairing_data_of (slot B mem w i) in
     (pd_public_key p, pd_permissions p)) (lookup_slot B mem w dev)"

definition free_slots :: "'w board \<Rightarrow> ('w \<Rightarrow> nat \<Rightarrow> byte) \<Rightarrow> 'w \<Rightarrow> nat" where
  "free_slots B mem w = card {i. i < 16 \<and> blank (slot B mem w i)}"

text \<open>No device has two live records.\<close>

definition unique_devices :: "'w board \<Rightarrow> ('w \<Rightarrow> nat \<Rightarrow> byte) \<Rightarrow> 'w \<Rightarrow> bool" where
  "unique_devices B mem w \<longleftrightarrow> (\<forall>i<16. \<forall>j<16. \<forall>d. live_for d (slot B mem w i) \<longrightarrow>
     live_for d (slot B mem w j) \<longrightarrow> i = j)"

lemma length_region [simp]: "length (region B mem w off n) = n"
  by (simp add: region_def)

lemma length_slot [simp]: "length (slot B mem w i) = 80"
  by (simp add: slot_def)

lemma lookup_slotD: "lookup_slot B mem w dev = Some i \<Longrightarrow> i < 16 \<and> live_for dev (slot B mem w i)"
  by (auto simp: lookup_slot_def find_Some_iff)

lemma lookup_slot_None: "lookup_slot B mem w dev = None \<longleftrightarrow> (\<forall>i<16. \<not> live_for dev (slot B mem w i))"
  by (auto simp: lookup_slot_def find_None_iff)

lemma lookup_slot_unique:
  assumes "unique_devices B mem w" and "i < 16" and "live_for dev (slot B mem w i)"
  shows "lookup_slot B mem w dev = Some i"
proof (cases "lookup_slot B mem w dev")
  case None
  with assms show ?thesis by (auto simp: lookup_slot_None)
next
  case (Some j)
  with lookup_slotD [OF Some] assms show ?thesis by (auto simp: unique_devices_def)
qed

lemma stored_None: "stored B mem w dev = None \<longleftrightarrow> lookup_slot B mem w dev = None"
  by (simp add: stored_def)

lemma stored_same: "same_dev d e \<Longrightarrow> stored B mem w d = stored B mem w e"
  by (simp add: stored_def lookup_slot_def live_for_same)

lemma and_ff [simp]: "0xff AND x = (x :: byte)"
proof -
  have "(0xff :: byte) = - 1" by simp
  then show ?thesis by (simp only: and.left_neutral)
qed

lemma slot_addr_apart: "(i :: nat) \<noteq> j \<Longrightarrow> k < 80 \<Longrightarrow> l < 80 \<Longrightarrow> 80 * i + k \<noteq> 80 * j + l"
proof
  assume "i \<noteq> j" "k < 80" "l < 80" and e: "80 * i + k = 80 * j + l"
  then have "(80 * i + k) div 80 = i" and "(80 * j + l) div 80 = j" by simp_all
  with e \<open>i \<noteq> j\<close> show False by simp
qed

text \<open>What the loops compute, on the slots.\<close>

context nor_flash
begin

lemma read_region:
  assumes "off + length buf \<le> 4096"
  shows "spi_flash_read B w (STORAGE_BASE_ADDR B + off) buf = (True, region B mem w off (length buf))"
  using read [of "STORAGE_BASE_ADDR B + off" buf w] assms by (simp add: region_def add.assoc)

lemma read_slot:
  "i < 16 \<Longrightarrow> length d = 80 \<Longrightarrow> spi_flash_read B w (pairing_addr B i) d = (True, slot B mem w i)"
  using read_region [of "128 + 80 * i" d w]
  by (simp add: slot_def pairing_addr_def PAIRINGS_ADDR_def PAIRINGS_OFFSET_def add.assoc)

lemma write_region_ok:
  "off + length d \<le> 4096 \<Longrightarrow> fst (spi_flash_write B w (STORAGE_BASE_ADDR B + off) d)"
  using write_ok [of "STORAGE_BASE_ADDR B + off" d w] by simp

lemma write_region_same:
  assumes "off + length d \<le> 4096"
  shows "region B mem (snd (spi_flash_write B w (STORAGE_BASE_ADDR B + off) d)) off (length d) =
    map2 (AND) (region B mem w off (length d)) d"
  using assms
  by (intro nth_equalityI) (simp_all add: region_def write_mem [of "STORAGE_BASE_ADDR B + off" d])

lemma write_region_other:
  assumes "off + length d \<le> 4096" and "off' + n \<le> off \<or> off + length d \<le> off'"
  shows "region B mem (snd (spi_flash_write B w (STORAGE_BASE_ADDR B + off) d)) off' n = region B mem w off' n"
  using assms
  by (intro nth_equalityI) (auto simp: region_def write_mem [of "STORAGE_BASE_ADDR B + off" d])

lemma write_slot_ok: "i < 16 \<Longrightarrow> length d = 80 \<Longrightarrow> fst (spi_flash_write B w (pairing_addr B i) d)"
  using write_region_ok [of "128 + 80 * i" d w]
  by (simp add: pairing_addr_def PAIRINGS_ADDR_def PAIRINGS_OFFSET_def add.assoc)

lemma write_slot:
  assumes "j < 16" and "length d = 80"
  shows "slot B mem (snd (spi_flash_write B w (pairing_addr B j) d)) i =
    (if i = j then map2 (AND) (slot B mem w j) d else slot B mem w i)"
proof -
  have a: "pairing_addr B j = STORAGE_BASE_ADDR B + (128 + 80 * j)"
    by (simp add: pairing_addr_def PAIRINGS_ADDR_def PAIRINGS_OFFSET_def)
  show ?thesis
    using write_region_same [of "128 + 80 * j" d w] assms
      write_region_other [of "128 + 80 * j" d "128 + 80 * i" 80 w]
    by (cases "i < j"; cases "i = j") (simp_all add: a slot_def)
qed

lemma map2_and_blank: "blank s \<Longrightarrow> length s = length d \<Longrightarrow> map2 (AND) s d = d"
  by (induction s d rule: list_induct2') (auto simp: blank_def)

lemma map2_and_zero: "length s = n \<Longrightarrow> map2 (AND) s (replicate n 0) = replicate n (0 :: byte)"
  by (intro nth_equalityI) auto

lemma write_blank_slot:
  assumes "j < 16" and "length d = 80" and "blank (slot B mem w j)"
  shows "slot B mem (snd (spi_flash_write B w (pairing_addr B j) d)) i =
    (if i = j then d else slot B mem w i)"
  using assms by (simp add: write_slot map2_and_blank)

lemma clear_slot:
  assumes "j < 16"
  shows "slot B mem (snd (spi_flash_write B w (pairing_addr B j) (replicate 80 0))) i =
    (if i = j then replicate 80 0 else slot B mem w i)"
  using assms by (simp add: write_slot map2_and_zero)

lemma find_empty_loop_eq:
  "list_all (\<lambda>i. i < 16) is \<Longrightarrow> length d = 80 \<Longrightarrow>
   find_empty_loop B w is d = find (\<lambda>i. blank (slot B mem w i)) is"
  by (induction "is" arbitrary: d) (simp_all add: read_slot blank_def)

lemma can_add_loop_eq:
  "list_all (\<lambda>i. i < 16) is \<Longrightarrow> length d = 80 \<Longrightarrow>
   can_add_loop B w is d = list_ex (\<lambda>i. \<not> has_magic (slot B mem w i)) is"
  by (induction "is" arbitrary: d) (simp_all add: read_slot)

lemma find_loop_eq:
  "list_all (\<lambda>i. i < 16) is \<Longrightarrow> length d = 80 \<Longrightarrow>
   find_loop B P w is d dev p = (case find (\<lambda>i. live_for dev (slot B mem w i)) is of
     None \<Rightarrow> (- 1, p) | Some i \<Rightarrow> (0, pairing_at i (slot B mem w i)))"
  by (induction "is" arbitrary: d) (simp_all add: read_slot live_for_def load_pairing_at)

lemma remove_loop_eq:
  "list_all (\<lambda>i. i < 16) is \<Longrightarrow> length d = 80 \<Longrightarrow>
   remove_loop B w is d dev = (case find (\<lambda>i. live_for dev (slot B mem w i)) is of
     None \<Rightarrow> (0, w)
   | Some i \<Rightarrow> (0, snd (spi_flash_write B w (pairing_addr B i) (replicate 80 0))))"
  by (induction "is" arbitrary: d)
     (auto simp: read_slot live_for_def write_slot_ok split: prod.splits dest: arg_cong [of _ _ fst])

lemma indices [simp]: "list_all (\<lambda>i. i < 16) [0..<16]" "length (uninit B 80) = 80"
  by (simp_all add: list_all_iff uninit_length)

lemma find_empty_block_eq: "find_empty_block B w = find (\<lambda>i. blank (slot B mem w i)) [0..<16]"
  by (simp add: find_empty_block_def find_empty_loop_eq MAX_PAIRINGS_def)

lemma can_add_eq:
  "homekit_storage_can_add_pairing B w \<longleftrightarrow> (\<exists>i<16. \<not> has_magic (slot B mem w i))"
  by (auto simp: homekit_storage_can_add_pairing_def can_add_loop_eq MAX_PAIRINGS_def list_ex_iff)

lemma find_pairing_eq:
  "homekit_storage_find_pairing B P w dev p = (case lookup_slot B mem w dev of
     None \<Rightarrow> (- 1, p) | Some i \<Rightarrow> (0, pairing_at i (slot B mem w i)))"
  by (simp add: homekit_storage_find_pairing_def find_loop_eq MAX_PAIRINGS_def lookup_slot_def)

lemma remove_pairing_eq:
  "homekit_storage_remove_pairing B w dev = (case lookup_slot B mem w dev of
     None \<Rightarrow> (0, w)
   | Some i \<Rightarrow> (0, snd (spi_flash_write B w (pairing_addr B i) (replicate 80 0))))"
  by (simp add: homekit_storage_remove_pairing_def remove_loop_eq MAX_PAIRINGS_def lookup_slot_def)

end

section \<open>The store as a map\<close>

text \<open>One record replaced: what changes in the views.\<close>

lemma stored_cong:
  assumes "\<And>i. i < 16 \<Longrightarrow> live_for e (slot B mem w' i) = live_for e (slot B mem w i)"
    and "\<And>i. i < 16 \<Longrightarrow> live_for e (slot B mem w i) \<Longrightarrow> slot B mem w' i = slot B mem w i"
  shows "stored B mem w' e = stored B mem w e"
proof -
  have l: "lookup_slot B mem w' e = lookup_slot B mem w e"
    unfolding lookup_slot_def by (rule find_cong) (use assms(1) in auto)
  show ?thesis
  proof (cases "lookup_slot B mem w e")
    case (Some i)
    with lookup_slotD [OF Some] assms(2) [of i] l show ?thesis by (simp add: stored_def)
  qed (simp add: stored_def l)
qed

lemma stored_unique:
  assumes "unique_devices B mem w" and "i < 16" and "live_for dev (slot B mem w i)"
    and "slot B mem w i = s"
  shows "stored B mem w dev = Some (pd_public_key (pairing_data_of s), pd_permissions (pairing_data_of s))"
  using lookup_slot_unique [OF assms(1-3)] assms(4) by (simp add: stored_def Let_def)

lemma free_slots_use:
  assumes "j < 16" and "blank (slot B mem w j)" and "\<not> blank d"
    and "\<And>i. slot B mem w' i = (if i = j then d else slot B mem w i)"
  shows "Suc (free_slots B mem w') = free_slots B mem w"
proof -
  have "{i. i < 16 \<and> blank (slot B mem w' i)} = {i. i < 16 \<and> blank (slot B mem w i)} - {j}"
    using assms(3,4) by auto
  moreover have "Suc (card ({i. i < 16 \<and> blank (slot B mem w i)} - {j})) = card {i. i < 16 \<and> blank (slot B mem w i)}"
    by (rule card_Suc_Diff1) (use assms(1,2) in auto)
  ultimately show ?thesis by (simp add: free_slots_def)
qed

lemma free_slots_same:
  assumes "\<not> blank (slot B mem w j)" and "\<not> blank d"
    and "\<And>i. slot B mem w' i = (if i = j then d else slot B mem w i)"
  shows "free_slots B mem w' = free_slots B mem w"
proof -
  have "{i. i < 16 \<and> blank (slot B mem w' i)} = {i. i < 16 \<and> blank (slot B mem w i)}"
    using assms by auto
  then show ?thesis by (simp add: free_slots_def)
qed

lemma live_not_blank: "length s = 80 \<Longrightarrow> live_for dev s \<Longrightarrow> \<not> blank s"
  using not_live_blank [of s] by (auto simp: live_for_def)

lemma free_slots_pos: "0 < free_slots B mem w \<longleftrightarrow> (\<exists>i<16. blank (slot B mem w i))"
  by (auto simp: free_slots_def card_gt_0_iff)

context nor_flash
begin

lemma find_empty_block_free:
  assumes "0 < free_slots B mem w"
  obtains j where "j < 16" and "blank (slot B mem w j)" and "block_for_write B w = Inr (Some j, w)"
proof -
  from assms obtain j where "find_empty_block B w = Some j"
    by (cases "find_empty_block B w") (auto simp: free_slots_pos find_empty_block_eq find_None_iff)
  moreover from this have "j < 16" and "blank (slot B mem w j)"
    by (auto simp: find_empty_block_eq find_Some_iff)
  ultimately show thesis using that by (simp add: block_for_write_def)
qed

lemma add_pairing_free:
  assumes free: "0 < free_slots B mem w" and key: "ed_wf key" and new: "stored B mem w dev = None"
    and uniq: "unique_devices B mem w"
  shows "\<exists>w'. homekit_storage_add_pairing B w dev key perms = Inr (0, w') \<and> unique_devices B mem w' \<and>
    stored B mem w' = (\<lambda>e. if same_dev dev e then Some (ed_p key, perms) else stored B mem w e) \<and>
    Suc (free_slots B mem w') = free_slots B mem w"
proof -
  obtain j where j: "j < 16" "blank (slot B mem w j)" "block_for_write B w = Inr (Some j, w)"
    using find_empty_block_free [OF free] .
  let ?d = "pairing_data_bytes (new_pairing_data dev (ed_p key) perms)"
  let ?w = "snd (spi_flash_write B w (pairing_addr B j) ?d)"
  have k: "length (ed_p key) = 32" using key by (simp add: ed_wf_def)
  have len: "length ?d = 80" by (simp add: length_pairing_data_bytes new_pairing_data_wf k)
  have s: "slot B mem ?w i = (if i = j then ?d else slot B mem w i)" for i
    by (rule write_blank_slot [OF j(1) len j(2)])
  have live: "live_for e ?d = same_dev dev e" for e
    by (simp add: live_for_def has_magic_new has_device_new k)
  have nb: "\<not> live_for e (slot B mem w j)" for e
    using live_not_blank [of "slot B mem w j" e] j(2) by auto
  have old: "\<not> live_for e (slot B mem w i)" if "i < 16" "same_dev dev e" for i e
    using new that by (auto simp: stored_None lookup_slot_None live_for_same)
  have u: "unique_devices B mem ?w"
    using uniq old nb by (auto simp: unique_devices_def s live)
  have "stored B mem ?w e = Some (ed_p key, perms)" if "same_dev dev e" for e
    using stored_unique [OF u j(1), of e ?d] that
    by (simp add: s live pairing_data_of_bytes new_pairing_data_wf k)
       (simp add: new_pairing_data_def)
  moreover have "stored B mem ?w e = stored B mem w e" if "\<not> same_dev dev e" for e
    by (rule stored_cong) (use that nb in \<open>auto simp: s live\<close>)
  moreover have "Suc (free_slots B mem ?w) = free_slots B mem w"
    using free_slots_use [OF j(1,2) _ s] live_not_blank [OF len, of dev] live by auto
  moreover have "homekit_storage_add_pairing B w dev key perms = Inr (0, ?w)"
    using write_slot_ok [OF j(1) len, of w]
    by (cases "spi_flash_write B w (pairing_addr B j) ?d")
       (simp add: homekit_storage_add_pairing_def j(3) export_public_wf [OF key] Let_def)
  ultimately show ?thesis using u by auto
qed

lemma remove_pairing_map:
  assumes uniq: "unique_devices B mem w"
  shows "\<exists>w'. homekit_storage_remove_pairing B w dev = (0, w') \<and> unique_devices B mem w' \<and>
    stored B mem w' = (\<lambda>e. if same_dev dev e then None else stored B mem w e) \<and>
    free_slots B mem w' = free_slots B mem w"
proof (cases "lookup_slot B mem w dev")
  case None
  then have "stored B mem w e = None" if "same_dev dev e" for e
    using stored_same [OF that, of B mem w] by (metis stored_None)
  then have "stored B mem w = (\<lambda>e. if same_dev dev e then None else stored B mem w e)"
    by auto
  with None uniq show ?thesis by (simp add: remove_pairing_eq)
next
  case (Some i)
  note i = lookup_slotD [OF Some]
  let ?w = "snd (spi_flash_write B w (pairing_addr B i) (replicate 80 0))"
  have s: "slot B mem ?w k = (if k = i then replicate 80 0 else slot B mem w k)" for k
    using i by (simp add: clear_slot)
  have dead: "\<not> live_for e (replicate 80 0)" for e by (simp add: live_for_def not_live_zero)
  have "unique_devices B mem ?w" using uniq by (simp add: unique_devices_def s dead)
  moreover have "stored B mem ?w e = None" if "same_dev dev e" for e
    using uniq i that live_for_same [OF that]
    by (auto simp: stored_None lookup_slot_None s dead unique_devices_def)
  moreover have "stored B mem ?w e = stored B mem w e" if ne: "\<not> same_dev dev e" for e
  proof (rule stored_cong)
    have nl: "\<not> live_for e (slot B mem w i)"
      using i ne by (auto simp: live_for_def has_device_same same_dev_iff)
    then show "live_for e (slot B mem ?w k) = live_for e (slot B mem w k)" for k by (simp add: s dead)
    show "slot B mem ?w k = slot B mem w k" if "live_for e (slot B mem w k)" for k
      using that nl by (auto simp: s)
  qed
  moreover have "free_slots B mem ?w = free_slots B mem w"
    by (rule free_slots_same [OF _ not_blank_zero s]) (use i live_not_blank in auto)
  ultimately show ?thesis using Some by (auto simp: remove_pairing_eq)
qed

end

definition with_permissions :: "byte list \<Rightarrow> byte \<Rightarrow> byte list" where
  "with_permissions s perms = pairing_data_bytes ((pairing_data_of s)\<lparr>pd_permissions := perms\<rparr>)"

lemma with_permissions_of:
  assumes "length s = 80"
  shows "pairing_data_of (with_permissions s perms) = (pairing_data_of s)\<lparr>pd_permissions := perms\<rparr>"
    and "length (with_permissions s perms) = 80"
proof -
  have "pd_wf ((pairing_data_of s)\<lparr>pd_permissions := perms\<rparr>)"
    using pairing_data_of_wf [OF assms] by (simp add: pd_wf_def)
  then show "pairing_data_of (with_permissions s perms) = (pairing_data_of s)\<lparr>pd_permissions := perms\<rparr>"
    and "length (with_permissions s perms) = 80"
    by (simp_all add: with_permissions_def pairing_data_of_bytes length_pairing_data_bytes)
qed

lemma live_with_permissions: "length s = 80 \<Longrightarrow> live_for dev (with_permissions s perms) = live_for dev s"
  by (simp add: live_for_def has_magic_def has_device_def with_permissions_of)

context nor_flash
begin

lemma update_loop_eq:
  assumes "block_for_write B w = Inr (Some j, w)" and "j < 16"
  shows "list_all (\<lambda>i. i < 16) is \<Longrightarrow> length d = 80 \<Longrightarrow>
    update_loop B w is d dev perms = (case find (\<lambda>i. live_for dev (slot B mem w i)) is of
      None \<Rightarrow> Inr (- 1, w)
    | Some i \<Rightarrow> Inr (0, snd (spi_flash_write B
        (snd (spi_flash_write B w (pairing_addr B j) (with_permissions (slot B mem w i) perms)))
        (pairing_addr B i) (replicate 80 0))))"
proof (induction "is" arbitrary: d)
  case (Cons i "is")
  show ?case
  proof (cases "live_for dev (slot B mem w i)")
    case True
    let ?d = "with_permissions (slot B mem w i) perms"
    obtain w1 where w1: "spi_flash_write B w (pairing_addr B j) ?d = (True, w1)"
      using write_slot_ok [OF assms(2), of ?d w] with_permissions_of(2) [of "slot B mem w i" perms]
      by (cases "spi_flash_write B w (pairing_addr B j) ?d") auto
    obtain w2 where w2: "spi_flash_write B w1 (pairing_addr B i) (replicate 80 0) = (True, w2)"
      using write_slot_ok [of i "replicate 80 0" w1] Cons.prems
      by (cases "spi_flash_write B w1 (pairing_addr B i) (replicate 80 0)") auto
    show ?thesis
      using True Cons.prems w1 w2
      by (simp add: read_slot live_for_def assms(1) with_permissions_def)
  qed (use Cons in \<open>auto simp: read_slot live_for_def\<close>)
qed simp

lemma update_pairing_map:
  assumes free: "0 < free_slots B mem w" and uniq: "unique_devices B mem w"
    and old: "stored B mem w dev = Some (k, p)"
  shows "\<exists>w'. homekit_storage_update_pairing B w dev perms = Inr (0, w') \<and> unique_devices B mem w' \<and>
    stored B mem w' = (\<lambda>e. if same_dev dev e then Some (k, perms) else stored B mem w e) \<and>
    Suc (free_slots B mem w') = free_slots B mem w"
proof -
  obtain j where j: "j < 16" "blank (slot B mem w j)" "block_for_write B w = Inr (Some j, w)"
    using find_empty_block_free [OF free] .
  from old obtain i where l: "lookup_slot B mem w dev = Some i"
    by (cases "lookup_slot B mem w dev") (auto simp: stored_def)
  note i = lookup_slotD [OF l]
  from old l have k: "k = pd_public_key (pairing_data_of (slot B mem w i))"
    by (simp add: stored_def Let_def)
  let ?d = "with_permissions (slot B mem w i) perms"
  let ?w1 = "snd (spi_flash_write B w (pairing_addr B j) ?d)"
  let ?w = "snd (spi_flash_write B ?w1 (pairing_addr B i) (replicate 80 0))"
  have ij: "i \<noteq> j" using i j(2) live_not_blank [of "slot B mem w i" dev] by auto
  have s1: "slot B mem ?w1 n = (if n = j then ?d else slot B mem w n)" for n
    by (rule write_blank_slot [OF j(1) _ j(2)]) (simp add: with_permissions_of)
  have s2: "slot B mem ?w n = (if n = i then replicate 80 0 else slot B mem ?w1 n)" for n
    using i by (simp add: clear_slot)
  have s: "slot B mem ?w n = (if n = i then replicate 80 0 else if n = j then ?d else slot B mem w n)" for n
    by (simp add: s1 s2)
  have dead: "\<not> live_for e (replicate 80 0)" for e by (simp add: live_for_def not_live_zero)
  have live: "live_for e ?d = live_for e (slot B mem w i)" for e by (simp add: live_with_permissions)
  have nb: "\<not> live_for e (slot B mem w j)" for e
    using live_not_blank [of "slot B mem w j" e] j(2) by auto
  have u: "unique_devices B mem ?w"
    unfolding unique_devices_def s using uniq i(1)
    by (auto simp: dead live unique_devices_def i split: if_splits)
  have "stored B mem ?w e = Some (k, perms)" if "same_dev dev e" for e
    using stored_unique [OF u j(1), of e ?d] i that live_for_same [OF that] ij
    by (simp add: s live with_permissions_of k)
  moreover have "stored B mem ?w e = stored B mem w e" if ne: "\<not> same_dev dev e" for e
  proof (rule stored_cong)
    have nl: "\<not> live_for e (slot B mem w i)"
      using i ne by (auto simp: live_for_def has_device_same same_dev_iff)
    then show "live_for e (slot B mem ?w n) = live_for e (slot B mem w n)" for n
      by (simp add: s dead live nb)
    show "slot B mem ?w n = slot B mem w n" if "live_for e (slot B mem w n)" for n
      using that nl nb by (auto simp: s)
  qed
  moreover have "Suc (free_slots B mem ?w1) = free_slots B mem w"
    by (rule free_slots_use [OF j(1,2) _ s1]) (use live_not_blank [of ?d dev] live i in \<open>simp add: with_permissions_of\<close>)
  moreover have "free_slots B mem ?w = free_slots B mem ?w1"
    by (rule free_slots_same [OF _ not_blank_zero s2])
       (use live_not_blank [of "slot B mem w i" dev] i ij in \<open>simp add: s1\<close>)
  moreover have "homekit_storage_update_pairing B w dev perms = Inr (0, ?w)"
    using l by (simp add: homekit_storage_update_pairing_def MAX_PAIRINGS_def lookup_slot_def
        update_loop_eq [OF j(3,1)])
  ultimately show ?thesis using u by auto
qed

end

section \<open>Sequences of operations\<close>

datatype pairing_op =
    PAdd "byte list" ed25519_key byte
  | PUpdate "byte list" byte
  | PRemove "byte list"

type_synonym pairing_map = "byte list \<Rightarrow> (byte list \<times> byte) option"

fun map_op :: "pairing_map \<Rightarrow> pairing_op \<Rightarrow> pairing_map" where
  "map_op m (PAdd d k p) = (\<lambda>e. if same_dev d e then Some (ed_p k, p) else m e)"
| "map_op m (PUpdate d p) = (case m d of None \<Rightarrow> m
     | Some (k, _) \<Rightarrow> (\<lambda>e. if same_dev d e then Some (k, p) else m e))"
| "map_op m (PRemove d) = (\<lambda>e. if same_dev d e then None else m e)"

fun op_cost :: "pairing_op \<Rightarrow> nat" where
  "op_cost (PRemove d) = 0"
| "op_cost _ = 1"

text \<open>The callers add a device only when it is not stored.\<close>

fun op_ok :: "pairing_map \<Rightarrow> pairing_op \<Rightarrow> bool" where
  "op_ok m (PAdd d k p) \<longleftrightarrow> m d = None \<and> ed_wf k"
| "op_ok m _ \<longleftrightarrow> True"

fun ops_ok :: "pairing_map \<Rightarrow> pairing_op list \<Rightarrow> bool" where
  "ops_ok m [] \<longleftrightarrow> True"
| "ops_ok m (x # xs) \<longleftrightarrow> op_ok m x \<and> ops_ok (map_op m x) xs"

fun run_ops :: "('w \<Rightarrow> pairing_op \<Rightarrow> fault + (int \<times> 'w)) \<Rightarrow> 'w \<Rightarrow> pairing_op list \<Rightarrow> fault + 'w" where
  "run_ops step w [] = Inr w"
| "run_ops step w (x # xs) = bind_res (step w x) (\<lambda>(_, w). run_ops step w xs)"

fun storage_op :: "'w board \<Rightarrow> 'w \<Rightarrow> pairing_op \<Rightarrow> fault + (int \<times> 'w)" where
  "storage_op B w (PAdd d k p) = homekit_storage_add_pairing B w d k p"
| "storage_op B w (PUpdate d p) = homekit_storage_update_pairing B w d p"
| "storage_op B w (PRemove d) = Inr (homekit_storage_remove_pairing B w d)"

text \<open>The interface the pairing handlers rely on: each operation acts on a map, at a cost in room.\<close>

locale pairing_store =
  fixes step :: "'w \<Rightarrow> pairing_op \<Rightarrow> fault + (int \<times> 'w)"
    and inv :: "'w \<Rightarrow> bool" and room :: "'w \<Rightarrow> nat" and view :: "'w \<Rightarrow> pairing_map"
  assumes step_map: "inv w \<Longrightarrow> op_ok (view w) x \<Longrightarrow> op_cost x \<le> room w \<Longrightarrow>
    \<exists>r w'. step w x = Inr (r, w') \<and> inv w' \<and> view w' = map_op (view w) x \<and> room w \<le> room w' + op_cost x"
begin

lemma run_map:
  "inv w \<Longrightarrow> ops_ok (view w) xs \<Longrightarrow> (\<Sum>x\<leftarrow>xs. op_cost x) \<le> room w \<Longrightarrow>
   \<exists>w'. run_ops step w xs = Inr w' \<and> inv w' \<and> view w' = foldl map_op (view w) xs"
proof (induction xs arbitrary: w)
  case (Cons x xs)
  from Cons.prems have "op_ok (view w) x" and "op_cost x \<le> room w" by simp_all
  from step_map [OF Cons.prems(1) this] obtain r w1 where
    w1: "step w x = Inr (r, w1)" "inv w1" "view w1 = map_op (view w) x" "room w \<le> room w1 + op_cost x"
    by blast
  have "\<exists>w'. run_ops step w1 xs = Inr w' \<and> inv w' \<and> view w' = foldl map_op (view w1) xs"
    by (rule Cons.IH) (use Cons.prems w1 in auto)
  with w1 show ?case by simp
qed simp

end

lemma update_loop_none:
  assumes "nor_flash B mem"
  shows "list_all (\<lambda>i. i < 16) is \<Longrightarrow> length d = 80 \<Longrightarrow> find (\<lambda>i. live_for dev (slot B mem w i)) is = None \<Longrightarrow>
    update_loop B w is d dev perms = Inr (- 1, w)"
proof (induction "is" arbitrary: d)
  case (Cons i "is")
  then show ?case
    by (auto simp: nor_flash.read_slot [OF assms] live_for_def split: if_splits)
qed simp

sublocale nor_flash \<subseteq> store: pairing_store
  "storage_op B" "unique_devices B mem" "free_slots B mem" "stored B mem"
proof
  fix w x
  assume w: "unique_devices B mem w" and ok: "op_ok (stored B mem w) x" and room: "op_cost x \<le> free_slots B mem w"
  show "\<exists>r w'. storage_op B w x = Inr (r, w') \<and> unique_devices B mem w' \<and>
    stored B mem w' = map_op (stored B mem w) x \<and> free_slots B mem w \<le> free_slots B mem w' + op_cost x"
  proof (cases x)
    case (PAdd d k p)
    with add_pairing_free [of w k d p] w ok room show ?thesis by force
  next
    case (PUpdate d p)
    show ?thesis
    proof (cases "stored B mem w d")
      case None
      then have "lookup_slot B mem w d = None" by (metis stored_None)
      with update_loop_none [OF nor_flash_axioms, of "[0..<16]" "uninit B 80" d w p] PUpdate w None
      show ?thesis by (simp add: homekit_storage_update_pairing_def MAX_PAIRINGS_def lookup_slot_def)
    next
      case (Some kp)
      with update_pairing_map [of w d "fst kp" "snd kp" p] PUpdate w room show ?thesis
        by (cases kp) force
    qed
  next
    case (PRemove d)
    with remove_pairing_map [OF w, of d] show ?thesis by force
  qed
qed

section \<open>Flash in memory\<close>

text \<open>A board whose flash is a map from addresses, with the EEPROM sector of a 4 MB chip.\<close>

definition ram_mem :: "(nat \<Rightarrow> byte) \<Rightarrow> nat \<Rightarrow> byte" where
  "ram_mem w = w"

definition ram_board :: "(nat \<Rightarrow> byte) board" where
  "ram_board = \<lparr>
     spi_flash_read = (\<lambda>w a buf. (True, map w [a..<a + length buf])),
     spi_flash_write = (\<lambda>w a d. (True, \<lambda>x. if a \<le> x \<and> x < a + length d then w x AND d ! (x - a) else w x)),
     spi_flash_erase_sector = (\<lambda>w n. (True, \<lambda>x. if n * 4096 \<le> x \<and> x < n * 4096 + 4096 then 0xff else w x)),
     STORAGE_BASE_ADDR = 0x3FB000,
     uninit = (\<lambda>n. replicate n 0)\<rparr>"

interpretation ram: nor_flash ram_board ram_mem
  by unfold_locales (auto simp: ram_board_def ram_mem_def)

text \<open>What a caller learns from \<open>homekit_storage_find_pairing\<close>.\<close>

definition found_pairing :: "'w board \<Rightarrow> ('p3, 'p2) ed_prims \<Rightarrow> 'w \<Rightarrow> pairing_map" where
  "found_pairing B P w dev = (let (r, p) = homekit_storage_find_pairing B P w dev
       \<lparr>p_id = 0, p_device_id = [], p_device_key = wc_ed25519_init, p_permissions = 0\<rparr> in
     if r = 0 then Some (ed_p (p_device_key p), p_permissions p) else None)"

context nor_flash
begin

lemma found_pairing_stored: "found_pairing B P w = stored B mem w"
  by (rule ext) (simp add: found_pairing_def find_pairing_eq stored_def pairing_at_def Let_def split: option.splits)

end

section \<open>Formatting and compaction\<close>

text \<open>A sector just formatted: the magic, and nothing but ones after it.\<close>

definition formatted :: "'w board \<Rightarrow> ('w \<Rightarrow> nat \<Rightarrow> byte) \<Rightarrow> 'w \<Rightarrow> bool" where
  "formatted B mem w \<longleftrightarrow> region B mem w 0 4 = magic1 \<and> region B mem w 4 4092 = replicate 4092 0xff"

lemma region_sub:
  assumes "region B mem w off n = replicate n v" and "off \<le> off'" and "off' + m \<le> off + n"
  shows "region B mem w off' m = replicate m v"
proof (rule nth_equalityI)
  fix i assume "i < length (region B mem w off' m)"
  then have i: "i < m" by simp
  then have "region B mem w off' m ! i = region B mem w off n ! (off' - off + i)"
    using assms(2,3) by (simp add: region_def add.assoc)
  also have "\<dots> = v" using assms i by simp
  finally show "region B mem w off' m ! i = replicate m v ! i" using i by simp
qed simp

lemma formatted_slot: "formatted B mem w \<Longrightarrow> i < 16 \<Longrightarrow> slot B mem w i = replicate 80 0xff"
  unfolding slot_def formatted_def by (rule region_sub [where off = 4 and n = 4092]) auto

lemma formatted_blank: "formatted B mem w \<Longrightarrow> i < 16 \<Longrightarrow> blank (slot B mem w i)"
  by (simp add: formatted_slot blank_def list_all_iff)

lemma formatted_views:
  assumes "formatted B mem w"
  shows "stored B mem w = (\<lambda>_. None)" and "unique_devices B mem w" and "free_slots B mem w = 16"
proof -
  have dead: "\<not> live_for e (slot B mem w i)" if "i < 16" for e i
    using live_not_blank [of "slot B mem w i" e] formatted_blank [OF assms that] by auto
  then show "stored B mem w = (\<lambda>_. None)"
    by (simp add: fun_eq_iff stored_None lookup_slot_None)
  show "unique_devices B mem w" using dead by (simp add: unique_devices_def)
  have "{i. i < 16 \<and> blank (slot B mem w i)} = {i. i < 16}" using formatted_blank [OF assms] by auto
  then show "free_slots B mem w = 16" by (simp add: free_slots_def)
qed

context nor_flash
begin

lemma erase_ok': "fst (spiflash_erase_sector B w (STORAGE_BASE_ADDR B))"
  using erase_ok by (simp add: spiflash_erase_sector_def SPI_FLASH_SECTOR_SIZE_def)

lemma erase_region:
  "off + n \<le> 4096 \<Longrightarrow>
   region B mem (snd (spiflash_erase_sector B w (STORAGE_BASE_ADDR B))) off n = replicate n 0xff"
  by (rule nth_equalityI)
     (auto simp: region_def spiflash_erase_sector_def SPI_FLASH_SECTOR_SIZE_def erase_mem)

lemma init_eq:
  "homekit_storage_init B w =
     (if cstr_eq_n 0 4 (region B mem w 0 4) magic1 then (0, w)
      else (1, snd (spi_flash_write B (snd (spiflash_erase_sector B w (STORAGE_BASE_ADDR B)))
                 (STORAGE_BASE_ADDR B) magic1)))"
proof -
  have m: "spi_flash_read B w (STORAGE_BASE_ADDR B) (replicate 4 0) = (True, region B mem w 0 4)"
    using read_region [of 0 "replicate 4 0" w] by simp
  obtain w1 where w1: "spiflash_erase_sector B w (STORAGE_BASE_ADDR B) = (True, w1)"
    using erase_ok' [of w] by (cases "spiflash_erase_sector B w (STORAGE_BASE_ADDR B)") auto
  obtain w2 where w2: "spi_flash_write B w1 (STORAGE_BASE_ADDR B) magic1 = (True, w2)"
    using write_region_ok [of 0 magic1 w1]
    by (cases "spi_flash_write B w1 (STORAGE_BASE_ADDR B) magic1") (auto simp: magic1_def)
  show ?thesis by (simp add: homekit_storage_init_def MAGIC_ADDR_def m w1 w2)
qed

lemma format_formatted:
  "formatted B mem (snd (spi_flash_write B (snd (spiflash_erase_sector B w (STORAGE_BASE_ADDR B)))
     (STORAGE_BASE_ADDR B) magic1))"
proof -
  let ?w = "snd (spiflash_erase_sector B w (STORAGE_BASE_ADDR B))"
  have l: "length magic1 = 4" by (simp add: magic1_def)
  have e: "region B mem ?w 0 4 = replicate 4 0xff" "region B mem ?w 4 4092 = replicate 4092 0xff"
    by (simp_all only: erase_region)
  have "region B mem (snd (spi_flash_write B ?w (STORAGE_BASE_ADDR B) magic1)) 0 4 =
      map2 (AND) (region B mem ?w 0 4) magic1"
    using write_region_same [of 0 magic1 ?w] by (simp add: l)
  also have "\<dots> = magic1" by (rule map2_and_blank) (simp_all add: e l blank_def list_all_iff)
  finally show ?thesis
    using write_region_other [of 0 magic1 4 4092 ?w] e(2) by (simp add: formatted_def l)
qed

lemma init_cases:
  obtains "homekit_storage_init B w = (0, w)" and "cstr_eq_n 0 4 (region B mem w 0 4) magic1"
  | w' where "homekit_storage_init B w = (1, w')" and "formatted B mem w'"
      and "\<not> cstr_eq_n 0 4 (region B mem w 0 4) magic1"
  using format_formatted [of w] by (cases "cstr_eq_n 0 4 (region B mem w 0 4) magic1") (auto simp: init_eq)

lemma reset_formats: "\<exists>w'. homekit_storage_reset B w = (1, w') \<and> formatted B mem w'"
proof -
  obtain w1 where w1: "spi_flash_write B w (STORAGE_BASE_ADDR B) (replicate 4 0) = (True, w1)"
    using write_region_ok [of 0 "replicate 4 0" w]
    by (cases "spi_flash_write B w (STORAGE_BASE_ADDR B) (replicate 4 0)") auto
  have "region B mem w1 0 4 = replicate 4 0"
    using write_region_same [of 0 "replicate 4 0" w] w1 map2_and_zero [of "region B mem w 0 4" 4]
    by simp
  then have "\<not> cstr_eq_n 0 4 (region B mem w1 0 4) magic1"
    by (simp add: magic1_def cstr_eq_n_iff cstr_def)
  with format_formatted [of w1] show ?thesis
    by (auto simp: homekit_storage_reset_def MAGIC_ADDR_def w1 init_eq)
qed

lemma sector_slot: "i < 16 \<Longrightarrow> take 80 (drop (128 + 80 * i) (region B mem w 0 4096)) = slot B mem w i"
  by (rule nth_equalityI) (simp_all add: slot_def region_def add.assoc)

end

text \<open>The compaction loop on an image of the sector.\<close>

definition image_slot :: "byte list \<Rightarrow> nat \<Rightarrow> byte list" where
  "image_slot data i = take 80 (drop (128 + 80 * i) data)"

lemma compact_loop_dead:
  "list_all (\<lambda>i. \<not> has_magic (image_slot data i)) is \<Longrightarrow> compact_loop B is data nxt = Inr (data, nxt)"
  by (induction "is") (auto simp: PAIRINGS_OFFSET_def image_slot_def)

lemma compact_loop_live:
  "k \<le> m \<Longrightarrow> list_all (\<lambda>i. has_magic (image_slot data i)) [k..<m] \<Longrightarrow>
   compact_loop B ([k..<m] @ is) data k = compact_loop B is data m"
proof (induction "m - k" arbitrary: k)
  case (Suc n)
  then have k: "[k..<m] = k # [Suc k..<m]" by (simp add: upt_conv_Cons)
  with Suc.hyps(1) [of "Suc k"] Suc.hyps(2) Suc.prems show ?case
    by (simp add: PAIRINGS_OFFSET_def image_slot_def)
qed simp

lemma compact_loop_overrun:
  assumes "4096 \<le> STORAGE_BASE_ADDR B" and "length data = 4096"
  shows "list_all (\<lambda>i. nxt < i) is \<Longrightarrow> list_ex (\<lambda>i. has_magic (image_slot data i)) is \<Longrightarrow>
    compact_loop B is data nxt = Inl Oob_write"
  using assms
  by (induction "is") (auto simp: PAIRINGS_OFFSET_def image_slot_def PAIRINGS_ADDR_def Let_def)

lemma upt_split: "m \<le> 16 \<Longrightarrow> [0..<16] = [0..<m] @ [m..<16]"
  using upt_add_eq_append [of 0 m "16 - m"] by simp

context nor_flash
begin

lemma image_slots: "i < 16 \<Longrightarrow> image_slot (region B mem w 0 4096) i = slot B mem w i"
  using sector_slot by (simp add: image_slot_def)

lemma compact_prefix:
  assumes "m \<le> 16" and "\<And>i. i < m \<Longrightarrow> has_magic (slot B mem w i)"
  shows "compact_loop B [0..<16] (region B mem w 0 4096) 0 =
    compact_loop B [m..<16] (region B mem w 0 4096) m"
  unfolding upt_split [OF assms(1)]
  by (rule compact_loop_live) (use assms image_slots in \<open>auto simp: list_all_iff\<close>)

lemma compact_data_loop:
  "compact_data B w = bind_res (compact_loop B [0..<16] (region B mem w 0 4096) 0) (\<lambda>(data, nxt).
     if nxt = MAX_PAIRINGS then Inr (0, w) else Inr (- 1, snd (homekit_storage_reset B w)))"
proof -
  have "spi_flash_read B w (STORAGE_BASE_ADDR B) (uninit B 4096) = (True, region B mem w 0 4096)"
    using read_region [of 0 "uninit B 4096" w] by (simp add: uninit_length)
  with reset_formats [of w] show ?thesis
    by (auto simp: compact_data_def SPI_FLASH_SECTOR_SIZE_def MAX_PAIRINGS_def intro!: bind_res_cong)
qed

lemma compact_full:
  assumes "\<And>i. i < 16 \<Longrightarrow> has_magic (slot B mem w i)"
  shows "compact_data B w = Inr (0, w)"
  using compact_prefix [of 16 w] assms by (simp add: compact_data_loop MAX_PAIRINGS_def)

lemma compact_wipe:
  assumes "m < 16" and "\<And>i. i < 16 \<Longrightarrow> has_magic (slot B mem w i) \<longleftrightarrow> i < m"
  shows "\<exists>w'. compact_data B w = Inr (- 1, w') \<and> formatted B mem w'"
proof -
  have "compact_loop B [m..<16] (region B mem w 0 4096) m = Inr (region B mem w 0 4096, m)"
    by (rule compact_loop_dead) (use assms image_slots in \<open>auto simp: list_all_iff\<close>)
  with compact_prefix [of m w] assms reset_formats [of w] show ?thesis
    by (auto simp: compact_data_loop MAX_PAIRINGS_def)
qed

lemma compact_overrun:
  assumes "4096 \<le> STORAGE_BASE_ADDR B" and ij: "i < j" "j < 16"
    and dead: "\<not> has_magic (slot B mem w i)" and live: "has_magic (slot B mem w j)"
  shows "compact_data B w = Inl Oob_write"
proof -
  define m where "m = (LEAST i. \<not> has_magic (slot B mem w i))"
  have m: "\<not> has_magic (slot B mem w m)" "m \<le> i" and below: "\<And>k. k < m \<Longrightarrow> has_magic (slot B mem w k)"
    using LeastI [of "\<lambda>i. \<not> has_magic (slot B mem w i)" i] Least_le [of "\<lambda>i. \<not> has_magic (slot B mem w i)" i]
      not_less_Least dead by (auto simp: m_def)
  have up: "[m..<16] = m # [Suc m..<16]" using m ij by (simp add: upt_conv_Cons)
  have "compact_loop B [Suc m..<16] (region B mem w 0 4096) m = Inl Oob_write"
    by (rule compact_loop_overrun [OF assms(1)])
       (use ij m live image_slots in \<open>auto simp: list_all_iff list_ex_iff intro!: bexI [of _ j]\<close>)
  moreover have "compact_loop B [m..<16] (region B mem w 0 4096) m =
      compact_loop B [Suc m..<16] (region B mem w 0 4096) m"
    using m ij image_slots [of m w] by (simp add: up image_slot_def PAIRINGS_OFFSET_def)
  ultimately show ?thesis
    using compact_prefix [of m w] m ij below by (simp add: compact_data_loop)
qed

end

section \<open>The accessory's identity\<close>

context nor_flash
begin

lemma save_region_erased:
  assumes "off + length d \<le> 4096" and "region B mem w off (length d) = replicate (length d) 0xff"
  shows "region B mem (snd (spi_flash_write B w (STORAGE_BASE_ADDR B + off) d)) off (length d) = d"
  using write_region_same [OF assms(1), of w] assms(2) map2_and_blank [of "replicate (length d) 0xff" d]
  by (simp add: blank_def list_all_iff)

lemma load_accessory_id_eq:
  assumes "length buf = 18"
  shows "homekit_storage_load_accessory_id B w buf =
    (let d = region B mem w 4 17; data = d @ drop 17 buf in
     if hd d = 0 then (- 2, data) else (check_accessory_id 0 d, d @ [0]))"
proof -
  have r: "spi_flash_read B w (STORAGE_BASE_ADDR B + 4) (take 17 buf) = (True, region B mem w 4 17)"
    using read_region [of 4 "take 17 buf" w] assms by simp
  obtain x where "drop 17 buf = [x]"
    using assms by (cases "drop 17 buf"; cases "tl (drop 17 buf)") (auto dest: arg_cong [of _ _ length])
  moreover have "(region B mem w 4 17 @ [x])[17 := 0] = region B mem w 4 17 @ [0]"
    by (simp add: list_update_append)
  moreover have "region B mem w 4 17 ! 0 = hd (region B mem w 4 17)"
    by (simp add: hd_conv_nth flip: length_greater_0_conv)
  moreover have "region B mem w 4 17 \<noteq> []" by (simp flip: length_greater_0_conv)
  ultimately show ?thesis
    by (simp add: homekit_storage_load_accessory_id_def ACCESSORY_ID_ADDR_def ACCESSORY_ID_SIZE_def r
        Let_def nth_append)
qed

lemma load_accessory_key_eq:
  "homekit_storage_load_accessory_key B P w key =
    Inr (0, \<lparr>ed_p = drop 32 (region B mem w 32 64), ed_k = region B mem w 32 64\<rparr>)"
proof -
  have r: "spi_flash_read B w (STORAGE_BASE_ADDR B + 32) (uninit B 64) = (True, region B mem w 32 64)"
    using read_region [of 32 "uninit B 64" w] by (simp add: uninit_length)
  then show ?thesis
    by (simp add: homekit_storage_load_accessory_key_def ACCESSORY_KEY_ADDR_def ACCESSORY_KEY_SIZE_def
        import_key_64 crypto_ed25519_init_def wc_ed25519_init_def)
qed

lemma identity_roundtrip:
  assumes "formatted B mem w" and "17 \<le> length i" and "check_accessory_id 0 (take 17 i) = 0"
    and "ed_paired key" and "length buf = 18"
  shows "\<exists>w1. homekit_storage_save_accessory_id B w i = Inr w1 \<and>
    homekit_storage_load_accessory_id B (homekit_storage_save_accessory_key B w1 key) buf = (0, take 17 i @ [0]) \<and>
    homekit_storage_load_accessory_key B P (homekit_storage_save_accessory_key B w1 key) k0 = Inr (0, key)"
proof -
  let ?w1 = "snd (spi_flash_write B w (STORAGE_BASE_ADDR B + 4) (take 17 i))"
  let ?w2 = "snd (spi_flash_write B ?w1 (STORAGE_BASE_ADDR B + 32) (ed_k key))"
  from assms(4) have k: "ed_wf key" "length (ed_k key) = 64" "drop 32 (ed_k key) = ed_p key"
    by (simp_all add: ed_paired_def ed_wf_def)
  have ff: "region B mem w 4 17 = replicate 17 0xff" "region B mem w 32 64 = replicate 64 0xff"
    using assms(1) by (auto simp: formatted_def intro: region_sub [where off = 4 and n = 4092])
  have "region B mem ?w1 4 17 = take 17 i"
    using save_region_erased [of 4 "take 17 i" w] assms(2) ff by (simp add: min_absorb2)
  moreover have "region B mem ?w1 32 64 = replicate 64 0xff"
    using write_region_other [of 4 "take 17 i" 32 64 w] ff assms(2) by simp
  ultimately have r: "region B mem ?w2 4 17 = take 17 i" "region B mem ?w2 32 64 = ed_k key"
    using save_region_erased [of 32 "ed_k key" ?w1] write_region_other [of 32 "ed_k key" 4 17 ?w1] k
    by simp_all
  obtain c cs where c: "take 17 i = c # cs" using assms(2) by (cases "take 17 i") auto
  with assms(3) have "c \<noteq> 0" by (auto simp: ishex_def)
  then have "homekit_storage_load_accessory_id B ?w2 buf = (0, take 17 i @ [0])"
    using load_accessory_id_eq [OF assms(5), of ?w2] r c assms(3) by simp
  moreover have "homekit_storage_load_accessory_key B P ?w2 k0 = Inr (0, key)"
    by (simp add: load_accessory_key_eq r k(3))
  moreover have "homekit_storage_save_accessory_id B w i = Inr ?w1"
    using assms(2) by (simp add: homekit_storage_save_accessory_id_def ACCESSORY_ID_SIZE_def ACCESSORY_ID_ADDR_def)
  moreover have "homekit_storage_save_accessory_key B ?w1 key = ?w2"
    using export_key_wf [OF k(1)]
    by (simp add: homekit_storage_save_accessory_key_def ACCESSORY_KEY_SIZE_def ACCESSORY_KEY_ADDR_def)
  ultimately show ?thesis by metis
qed

lemma check_accessory_id_erased: "check_accessory_id 0 (replicate 17 0xff) = - 4"
proof -
  have "replicate 17 (0xff :: byte) = 0xff # replicate 16 0xff" by (simp add: numeral_eq_Suc)
  then show ?thesis by (simp add: ishex_def)
qed

text \<open>Adding after a compaction that wiped the sector.\<close>

lemma add_pairing_wiped:
  assumes "find_empty_block B w = None" and "m < 16"
    and "\<And>i. i < 16 \<Longrightarrow> has_magic (slot B mem w i) \<longleftrightarrow> i < m" and "ed_wf key" and "length buf = 18"
  shows "\<exists>w'. homekit_storage_add_pairing B w dev key perms = Inr (0, w') \<and>
    stored B mem w' = (\<lambda>e. if same_dev dev e then Some (ed_p key, perms) else None) \<and>
    fst (homekit_storage_load_accessory_id B w' buf) = - 4"
proof -
  obtain w1 where w1: "compact_data B w = Inr (- 1, w1)" "formatted B mem w1"
    using compact_wipe assms(2,3) by blast
  note v = formatted_views [OF w1(2)]
  have "find_empty_block B w1 = Some 0"
    using formatted_blank [OF w1(2)] by (simp add: find_empty_block_eq upt_rec)
  then have "block_for_write B w = block_for_write B w1"
    by (simp add: block_for_write_def assms(1) w1(1))
  then have eq: "homekit_storage_add_pairing B w dev key perms = homekit_storage_add_pairing B w1 dev key perms"
    by (simp add: homekit_storage_add_pairing_def)
  obtain w' where w': "homekit_storage_add_pairing B w1 dev key perms = Inr (0, w')"
    "stored B mem w' = (\<lambda>e. if same_dev dev e then Some (ed_p key, perms) else stored B mem w1 e)"
    using add_pairing_free [of w1 key dev perms] v assms(4) by auto
  let ?d = "pairing_data_bytes (new_pairing_data dev (ed_p key) perms)"
  have "ed_wf key \<Longrightarrow> length ?d = 80"
    by (simp add: length_pairing_data_bytes new_pairing_data_wf ed_wf_def)
  moreover have "w' = snd (spi_flash_write B w1 (STORAGE_BASE_ADDR B + 128) ?d)"
    using w'(1) \<open>find_empty_block B w1 = Some 0\<close> assms(4)
    by (auto simp: homekit_storage_add_pairing_def block_for_write_def export_public_wf pairing_addr_def
        PAIRINGS_ADDR_def PAIRINGS_OFFSET_def split: prod.splits)
  ultimately have "region B mem w' 4 17 = replicate 17 0xff"
    using write_region_other [of 128 ?d 4 17 w1] assms(4) w1(2)
    by (auto simp: formatted_def intro: region_sub [where off = 4 and n = 4092])
  then have "fst (homekit_storage_load_accessory_id B w' buf) = - 4"
    using load_accessory_id_eq [OF assms(5), of w'] check_accessory_id_erased by simp
  with eq w' v show ?thesis by auto
qed

end

context nor_flash
begin

lemma operations_map:
  assumes "unique_devices B mem w" and "ops_ok (found_pairing B P w) xs"
    and "(\<Sum>x\<leftarrow>xs. op_cost x) \<le> free_slots B mem w"
  shows "\<exists>w'. run_ops (storage_op B) w xs = Inr w' \<and> unique_devices B mem w' \<and>
    found_pairing B P w' = foldl map_op (found_pairing B P w) xs"
  using store.run_map [of w xs] assms by (simp add: found_pairing_stored)

lemma full_add:
  "homekit_storage_can_add_pairing B w = (\<exists>i<16. \<not> has_magic (slot B mem w i))
    \<and> (homekit_storage_can_add_pairing B w \<or> homekit_storage_add_pairing B w dev key perms = Inr (- 2, w))"
proof -
  have "homekit_storage_add_pairing B w dev key perms = Inr (- 2, w)"
    if live: "\<And>i. i < 16 \<Longrightarrow> has_magic (slot B mem w i)"
  proof -
    have "\<not> blank (slot B mem w i)" if "i < 16" for i
      using live [OF that] not_live_blank [of "slot B mem w i"] by auto
    then have "find_empty_block B w = None" by (auto simp: find_empty_block_eq find_None_iff)
    then show ?thesis
      using compact_full live by (simp add: homekit_storage_add_pairing_def block_for_write_def)
  qed
  then show ?thesis by (auto simp: can_add_eq)
qed

lemma init_formats:
  "\<exists>w'. homekit_storage_init B w =
      (if cstr_eq_n 0 4 (region B mem w 0 4) magic1 then (0, w) else (1, w')) \<and>
    formatted B mem w' \<and> homekit_storage_init B w' = (0, w') \<and>
    fst (homekit_storage_reset B w) = 1 \<and> formatted B mem (snd (homekit_storage_reset B w))"
proof -
  let ?f = "snd (spi_flash_write B (snd (spiflash_erase_sector B w (STORAGE_BASE_ADDR B)))
    (STORAGE_BASE_ADDR B) magic1)"
  have "formatted B mem ?f" by (rule format_formatted)
  moreover from this have "homekit_storage_init B ?f = (0, ?f)"
    using init_eq [of ?f] by (simp add: formatted_def)
  moreover have "fst (homekit_storage_reset B w) = 1 \<and> formatted B mem (snd (homekit_storage_reset B w))"
    using reset_formats [of w] by auto
  ultimately show ?thesis using init_eq [of w] by blast
qed

end

section \<open>Properties\<close>

text \<open>A key and flash contents to evaluate the properties on: all ones, and one live record then zeros.\<close>

definition sample_key :: ed25519_key where
  "sample_key = \<lparr>ed_p = replicate 32 5, ed_k = replicate 64 5\<rparr>"

lemma sample_key_ok: "ed_wf sample_key" "ed_paired sample_key"
  by (simp_all add: sample_key_def ed_wf_def ed_paired_def drop_replicate)

definition erased_ram :: "nat \<Rightarrow> byte" where
  "erased_ram = (\<lambda>_. 0xff)"

definition one_pairing_ram :: "nat \<Rightarrow> byte" where
  "one_pairing_ram x = (if x = 0x3FB080 then 0x48 else if x = 0x3FB081 then 0x41
     else if x = 0x3FB082 then 0x50 else 0)"

definition late_pairing_ram :: "nat \<Rightarrow> byte" where
  "late_pairing_ram x = (if x = 0x3FB0D0 then 0x48 else if x = 0x3FB0D1 then 0x41
     else if x = 0x3FB0D2 then 0x50 else 0)"

lemma erased_ram_views:
  "free_slots ram_board ram_mem erased_ram = 16" "unique_devices ram_board ram_mem erased_ram"
  "stored ram_board ram_mem erased_ram = (\<lambda>_. None)"
proof -
  have s: "slot ram_board ram_mem erased_ram i = replicate 80 0xff" for i
    by (rule nth_equalityI) (simp_all add: slot_def region_def ram_mem_def erased_ram_def)
  have b: "blank (slot ram_board ram_mem erased_ram i)" for i by (simp add: s blank_def list_all_iff)
  have d: "\<not> live_for e (slot ram_board ram_mem erased_ram i)" for e i
    using live_not_blank [of "slot ram_board ram_mem erased_ram i" e] b by auto
  show "free_slots ram_board ram_mem erased_ram = 16" by (simp add: free_slots_def b)
  show "unique_devices ram_board ram_mem erased_ram" using d by (simp add: unique_devices_def)
  show "stored ram_board ram_mem erased_ram = (\<lambda>_. None)"
    using d by (simp add: fun_eq_iff stored_None lookup_slot_None)
qed

lemma take_4: "4 \<le> length xs \<Longrightarrow> take 4 xs = [xs ! 0, xs ! 1, xs ! 2, xs ! 3]"
proof -
  assume "4 \<le> length xs"
  then have "take 4 xs = map ((!) xs) [0..<4]" by (intro nth_equalityI) simp_all
  moreover have "[0..<4] = [0, 1, 2, 3 :: nat]" by (simp add: upt_rec)
  ultimately show ?thesis by simp
qed

lemma ram_magic:
  "has_magic (slot ram_board ram_mem w i) \<longleftrightarrow>
     w (0x3FB080 + 80 * i) = 0x48 \<and> w (0x3FB081 + 80 * i) = 0x41 \<and>
     w (0x3FB082 + 80 * i) = 0x50 \<and> w (0x3FB083 + 80 * i) = 0"
proof -
  have "take 4 (slot ram_board ram_mem w i) =
      [w (0x3FB080 + 80 * i), w (0x3FB081 + 80 * i), w (0x3FB082 + 80 * i), w (0x3FB083 + 80 * i)]"
    by (simp add: take_4 slot_def region_def ram_mem_def ram_board_def)
  then show ?thesis
    by (auto simp: has_magic_def pairing_data_of_def magic1_def cstr_eq_n_iff cstr_Cons cstr_def)
qed

lemma ram_blank: "i < 16 \<Longrightarrow> w (0x3FB084 + 80 * i) = 0 \<Longrightarrow> \<not> blank (slot ram_board ram_mem w i)"
  by (auto simp: blank_def list_all_iff slot_def region_def ram_mem_def ram_board_def
      intro!: bexI [of _ "0x3FB084 + 80 * i"])

lemma sample_ram_full:
  "find_empty_block ram_board one_pairing_ram = None" "find_empty_block ram_board late_pairing_ram = None"
proof -
  have "one_pairing_ram (0x3FB084 + 80 * i) = 0" and "late_pairing_ram (0x3FB084 + 80 * i) = 0" for i
    unfolding one_pairing_ram_def late_pairing_ram_def by (auto, presburger+)
  then show "find_empty_block ram_board one_pairing_ram = None"
    and "find_empty_block ram_board late_pairing_ram = None"
    using ram_blank by (auto simp: ram.find_empty_block_eq find_None_iff)
qed

text \<open>
  C13: The pairing store refines a map.  On any flash with the documented behaviour, any sequence of
  adds (of devices not stored), permission updates and removals whose adds and updates fit in the
  unused records runs without a fault, keeps at most one live record per device, and afterwards
  \<open>homekit_storage_find_pairing\<close> returns for every device identifier exactly what the same operations
  give on a map from identifiers to key and permissions.
\<close>

theorem storage_operations_refine_map:
  assumes "nor_flash B mem" and "unique_devices B mem w" and "ops_ok (found_pairing B P w) xs"
    and "(\<Sum>x\<leftarrow>xs. op_cost x) \<le> free_slots B mem w"
  shows "\<exists>w'. run_ops (storage_op B) w xs = Inr w' \<and> unique_devices B mem w' \<and>
    found_pairing B P w' = foldl map_op (found_pairing B P w) xs"
  using assms by (rule nor_flash.operations_map)

theorem storage_operations_refine_map_witness:
  "\<exists>w'. run_ops (storage_op ram_board) erased_ram
      [PAdd [65] sample_key 1, PAdd [66] sample_key 0, PUpdate [65] 0, PRemove [66]] = Inr w' \<and>
    unique_devices ram_board ram_mem w' \<and>
    found_pairing ram_board toy_prims w' = foldl map_op (found_pairing ram_board toy_prims erased_ram)
      [PAdd [65] sample_key 1, PAdd [66] sample_key 0, PUpdate [65] 0, PRemove [66]]"
proof (rule storage_operations_refine_map)
  show "nor_flash ram_board ram_mem" by (rule ram.nor_flash_axioms)
  show "ops_ok (found_pairing ram_board toy_prims erased_ram)
      [PAdd [65] sample_key 1, PAdd [66] sample_key 0, PUpdate [65] 0, PRemove [66]]"
    by (simp add: ram.found_pairing_stored erased_ram_views sample_key_ok same_dev_iff cstr_def)
qed (simp_all add: erased_ram_views)

text \<open>
  Compaction wipes the store.  When no record is unused but some are cleared, and the live ones
  come first, adding a pairing reports success, but \<open>compact_data\<close> has taken the 1 that
  \<open>homekit_storage_reset\<close> returns after formatting for an error and has not written the records
  back: every other pairing is gone, and so is the accessory's id.
\<close>

theorem storage_compaction_wipes:
  assumes "nor_flash B mem" and "find_empty_block B w = None" and "m < 16"
    and "\<And>i. i < 16 \<Longrightarrow> has_magic (slot B mem w i) = (i < m)" and "ed_wf key" and "length buf = 18"
  shows "\<exists>w'. homekit_storage_add_pairing B w dev key perms = Inr (0, w') \<and>
    found_pairing B P w' = (\<lambda>e. if same_dev dev e then Some (ed_p key, perms) else None) \<and>
    fst (homekit_storage_load_accessory_id B w' buf) = - 4"
  using nor_flash.add_pairing_wiped [OF assms, of dev perms]
  by (simp add: nor_flash.found_pairing_stored [OF assms(1)])

theorem storage_compaction_wipes_witness:
  "\<exists>w'. homekit_storage_add_pairing ram_board one_pairing_ram [65] sample_key 1 = Inr (0, w') \<and>
    found_pairing ram_board toy_prims w' = (\<lambda>e. if same_dev [65] e then Some (ed_p sample_key, 1) else None) \<and>
    fst (homekit_storage_load_accessory_id ram_board w' (replicate 18 0)) = - 4"
proof (rule storage_compaction_wipes)
  show "nor_flash ram_board ram_mem" by (rule ram.nor_flash_axioms)
  show "(1 :: nat) < 16" by simp
  show "has_magic (slot ram_board ram_mem one_pairing_ram i) = (i < 1)" for i
    by (auto simp: ram_magic one_pairing_ram_def)
qed (simp_all add: sample_ram_full sample_key_ok)

text \<open>
  Compaction can write outside its buffer.  When no record is unused and a cleared record comes
  before a live one, the copy inside \<open>compact_data\<close> is indexed with a flash address, so on any board
  whose EEPROM sector is not the first one, adding a pairing writes out of bounds.
\<close>

theorem storage_compaction_overruns:
  assumes "nor_flash B mem" and "find_empty_block B w = None" and "4096 \<le> STORAGE_BASE_ADDR B"
    and "i < j" and "j < 16" and "\<not> has_magic (slot B mem w i)" and "has_magic (slot B mem w j)"
  shows "homekit_storage_add_pairing B w dev key perms = Inl Oob_write"
  using nor_flash.compact_overrun [OF assms(1,3-7)] assms(2)
  by (simp add: homekit_storage_add_pairing_def block_for_write_def)

theorem storage_compaction_overruns_witness:
  "homekit_storage_add_pairing ram_board late_pairing_ram [65] sample_key 1 = Inl Oob_write"
proof (rule storage_compaction_overruns [of _ ram_mem _ 0 1])
  show "nor_flash ram_board ram_mem" by (rule ram.nor_flash_axioms)
  show "\<not> has_magic (slot ram_board ram_mem late_pairing_ram 0)"
    and "has_magic (slot ram_board ram_mem late_pairing_ram 1)"
    by (simp_all add: ram_magic late_pairing_ram_def)
qed (simp_all add: sample_ram_full, simp add: ram_board_def)

text \<open>
  The capacity check is right: \<open>homekit_storage_can_add_pairing\<close> is false exactly when all sixteen
  records are live, and then adding returns -2 and leaves the flash as it was.
\<close>

theorem storage_full:
  assumes "nor_flash B mem"
  shows "homekit_storage_can_add_pairing B w = (\<exists>i<16. \<not> has_magic (slot B mem w i))
    \<and> (homekit_storage_can_add_pairing B w \<or> homekit_storage_add_pairing B w dev key perms = Inr (- 2, w))"
  using nor_flash.full_add [OF assms] by blast

theorem storage_full_witness:
  "homekit_storage_can_add_pairing ram_board one_pairing_ram =
      (\<exists>i<16. \<not> has_magic (slot ram_board ram_mem one_pairing_ram i))
    \<and> (homekit_storage_can_add_pairing ram_board one_pairing_ram
      \<or> homekit_storage_add_pairing ram_board one_pairing_ram [65] sample_key 1 = Inr (- 2, one_pairing_ram))"
  by (rule storage_full) (rule ram.nor_flash_axioms)

text \<open>
  What the accessory saves it loads: on a formatted sector a well-formed id and a key with its
  public half survive \<open>save\<close> and \<open>load\<close>, the key saved after the id leaving the id intact.
\<close>

theorem accessory_identity_roundtrip:
  assumes "nor_flash B mem" and "formatted B mem w" and "17 \<le> length i"
    and "check_accessory_id 0 (take 17 i) = 0" and "ed_paired key" and "length buf = 18"
  shows "\<exists>w1. homekit_storage_save_accessory_id B w i = Inr w1 \<and>
    homekit_storage_load_accessory_id B (homekit_storage_save_accessory_key B w1 key) buf = (0, take 17 i @ [0]) \<and>
    homekit_storage_load_accessory_key B P (homekit_storage_save_accessory_key B w1 key) k0 = Inr (0, key)"
  using assms by (rule nor_flash.identity_roundtrip)

theorem accessory_identity_roundtrip_witness:
  "\<exists>w1. homekit_storage_save_accessory_id ram_board (snd (homekit_storage_reset ram_board erased_ram))
        (bytes ''AA:BB:CC:0D:1E:FF'') = Inr w1 \<and>
    homekit_storage_load_accessory_id ram_board (homekit_storage_save_accessory_key ram_board w1 sample_key)
        (replicate 18 0) = (0, take 17 (bytes ''AA:BB:CC:0D:1E:FF'') @ [0]) \<and>
    homekit_storage_load_accessory_key ram_board toy_prims
        (homekit_storage_save_accessory_key ram_board w1 sample_key) wc_ed25519_init = Inr (0, sample_key)"
proof (rule accessory_identity_roundtrip)
  show "nor_flash ram_board ram_mem" by (rule ram.nor_flash_axioms)
  show "formatted ram_board ram_mem (snd (homekit_storage_reset ram_board erased_ram))"
    using ram.reset_formats [of erased_ram] by auto
  show "check_accessory_id 0 (take 17 (bytes ''AA:BB:CC:0D:1E:FF'')) = 0" by code_simp
qed (simp_all add: sample_key_ok bytes_def)

text \<open>
  Initialisation: \<open>homekit_storage_init\<close> leaves a sector with the magic alone, formats any other
  one and says so, and a second call changes nothing; \<open>homekit_storage_reset\<close> always formats and
  returns 1.
\<close>

theorem storage_init_formats:
  assumes "nor_flash B mem"
  shows "\<exists>w'. homekit_storage_init B w =
      (if cstr_eq_n 0 4 (region B mem w 0 4) magic1 then (0, w) else (1, w')) \<and>
    formatted B mem w' \<and> homekit_storage_init B w' = (0, w') \<and>
    fst (homekit_storage_reset B w) = 1 \<and> formatted B mem (snd (homekit_storage_reset B w))"
  using nor_flash.init_formats [OF assms] .

theorem storage_init_formats_witness:
  "\<exists>w'. homekit_storage_init ram_board one_pairing_ram =
      (if cstr_eq_n 0 4 (region ram_board ram_mem one_pairing_ram 0 4) magic1 then (0, one_pairing_ram) else (1, w')) \<and>
    formatted ram_board ram_mem w' \<and> homekit_storage_init ram_board w' = (0, w') \<and>
    fst (homekit_storage_reset ram_board one_pairing_ram) = 1 \<and>
    formatted ram_board ram_mem (snd (homekit_storage_reset ram_board one_pairing_ram))"
  by (rule storage_init_formats) (rule ram.nor_flash_axioms)

end
