(* ===== verification/Accessories.thy ===== *)
theory Accessories
  imports Complex_Main HK_Prelude Tlv
begin

text \<open>
  The accessory database of \<open>src/accessories.c\<close>, \<open>src/types.c\<close> and \<open>src/homekit/types.h\<close>: values and
  their comparison and copying, the tree of accessories, services and characteristics with the
  assignment of ids and the lookups, and the notification callbacks.  The tree is a list of records;
  the code's pointer to a characteristic is its path (three positions).  Function and context pointers
  are numbers.  A float is the rational number it stands for; NaN and infinities are left out.
\<close>

section \<open>Values\<close>

datatype homekit_format =
    homekit_format_bool
  | homekit_format_uint8
  | homekit_format_uint16
  | homekit_format_uint32
  | homekit_format_uint64
  | homekit_format_int
  | homekit_format_float
  | homekit_format_string
  | homekit_format_tlv
  | homekit_format_data

datatype homekit_unit =
    homekit_unit_none
  | homekit_unit_celsius
  | homekit_unit_percentage
  | homekit_unit_arcdegrees
  | homekit_unit_lux
  | homekit_unit_seconds

definition homekit_permissions_paired_read :: u32 where "homekit_permissions_paired_read = 1"
definition homekit_permissions_paired_write :: u32 where "homekit_permissions_paired_write = 2"
definition homekit_permissions_notify :: u32 where "homekit_permissions_notify = 4"
definition homekit_permissions_additional_authorization :: u32 where
  "homekit_permissions_additional_authorization = 8"
definition homekit_permissions_timed_write :: u32 where "homekit_permissions_timed_write = 16"
definition homekit_permissions_hidden :: u32 where "homekit_permissions_hidden = 32"

lemmas permission_defs =
  homekit_permissions_paired_read_def homekit_permissions_paired_write_def homekit_permissions_notify_def
  homekit_permissions_additional_authorization_def homekit_permissions_timed_write_def
  homekit_permissions_hidden_def

text \<open>
  The union is one field per view: its integer members share the 64-bit word \<open>v_num\<close> (\<open>int_value\<close> is
  its low half), the pointers are \<open>None\<close> for NULL.
\<close>

record homekit_value =
  v_is_null :: bool
  v_is_static :: bool
  v_format :: homekit_format
  v_num :: u64
  v_float :: rat
  v_string :: "string option"
  v_tlv :: "tlv_values option"
  v_data :: "byte list option"
  v_data_size :: nat

definition int_value :: "homekit_value \<Rightarrow> u32" where
  "int_value v = ucast (v_num v)"

definition bool_value :: "homekit_value \<Rightarrow> bool" where
  "bool_value v \<longleftrightarrow> (ucast (v_num v) :: byte) \<noteq> 0"

definition zero_value :: homekit_value where
  "zero_value = \<lparr>v_is_null = False, v_is_static = False, v_format = homekit_format_bool, v_num = 0,
     v_float = 0, v_string = None, v_tlv = None, v_data = None, v_data_size = 0\<rparr>"

definition HOMEKIT_NULL :: homekit_value where
  "HOMEKIT_NULL = zero_value\<lparr>v_is_null := True\<rparr>"
definition HOMEKIT_BOOL :: "bool \<Rightarrow> homekit_value" where
  "HOMEKIT_BOOL b = zero_value\<lparr>v_num := (if b then 1 else 0)\<rparr>"
definition HOMEKIT_INT :: "u32 \<Rightarrow> homekit_value" where
  "HOMEKIT_INT i = zero_value\<lparr>v_format := homekit_format_int, v_num := ucast i\<rparr>"
definition HOMEKIT_UINT8 :: "byte \<Rightarrow> homekit_value" where
  "HOMEKIT_UINT8 i = zero_value\<lparr>v_format := homekit_format_uint8, v_num := ucast i\<rparr>"
definition HOMEKIT_UINT16 :: "u16 \<Rightarrow> homekit_value" where
  "HOMEKIT_UINT16 i = zero_value\<lparr>v_format := homekit_format_uint16, v_num := ucast i\<rparr>"
definition HOMEKIT_UINT32 :: "u32 \<Rightarrow> homekit_value" where
  "HOMEKIT_UINT32 i = zero_value\<lparr>v_format := homekit_format_uint32, v_num := ucast i\<rparr>"
definition HOMEKIT_UINT64 :: "u64 \<Rightarrow> homekit_value" where
  "HOMEKIT_UINT64 i = zero_value\<lparr>v_format := homekit_format_uint64, v_num := i\<rparr>"
definition HOMEKIT_FLOAT :: "rat \<Rightarrow> homekit_value" where
  "HOMEKIT_FLOAT f = zero_value\<lparr>v_format := homekit_format_float, v_float := f\<rparr>"
definition HOMEKIT_STRING :: "string option \<Rightarrow> homekit_value" where
  "HOMEKIT_STRING s = zero_value\<lparr>v_format := homekit_format_string, v_string := s\<rparr>"
definition HOMEKIT_TLV :: "tlv_values option \<Rightarrow> homekit_value" where
  "HOMEKIT_TLV t = zero_value\<lparr>v_format := homekit_format_tlv, v_tlv := t\<rparr>"
definition HOMEKIT_DATA :: "byte list option \<Rightarrow> nat \<Rightarrow> homekit_value" where
  "HOMEKIT_DATA d n = zero_value\<lparr>v_format := homekit_format_data, v_data := d, v_data_size := n\<rparr>"

text \<open>
  The constructors of \<open>types.c\<close> start from an uninitialised local; \<open>junk\<close> is its content.  The null
  constructor writes one flag.
\<close>

definition HOMEKIT_DEFAULT_CPP :: "homekit_value \<Rightarrow> homekit_value" where
  "HOMEKIT_DEFAULT_CPP junk = junk"
definition HOMEKIT_NULL_CPP :: "homekit_value \<Rightarrow> homekit_value" where
  "HOMEKIT_NULL_CPP junk = junk\<lparr>v_is_null := True\<rparr>"
definition low_bytes :: "nat \<Rightarrow> u64 \<Rightarrow> u64 \<Rightarrow> u64" where
  "low_bytes n x old = (take_bit (8 * n) x OR (old AND push_bit (8 * n) (- 1)))"
definition HOMEKIT_BOOL_CPP :: "homekit_value \<Rightarrow> bool \<Rightarrow> homekit_value" where
  "HOMEKIT_BOOL_CPP junk b = (HOMEKIT_DEFAULT_CPP junk)\<lparr>v_format := homekit_format_bool,
     v_num := low_bytes 1 (if b then 1 else 0) (v_num junk)\<rparr>"
definition HOMEKIT_INT_CPP :: "homekit_value \<Rightarrow> u32 \<Rightarrow> homekit_value" where
  "HOMEKIT_INT_CPP junk i = (HOMEKIT_DEFAULT_CPP junk)\<lparr>v_format := homekit_format_int,
     v_num := low_bytes 4 (ucast i) (v_num junk)\<rparr>"
definition HOMEKIT_UINT8_CPP :: "homekit_value \<Rightarrow> byte \<Rightarrow> homekit_value" where
  "HOMEKIT_UINT8_CPP junk i = (HOMEKIT_DEFAULT_CPP junk)\<lparr>v_format := homekit_format_uint8,
     v_num := low_bytes 1 (ucast i) (v_num junk)\<rparr>"
definition HOMEKIT_UINT16_CPP :: "homekit_value \<Rightarrow> u16 \<Rightarrow> homekit_value" where
  "HOMEKIT_UINT16_CPP junk i = (HOMEKIT_DEFAULT_CPP junk)\<lparr>v_format := homekit_format_uint16,
     v_num := low_bytes 2 (ucast i) (v_num junk)\<rparr>"
definition HOMEKIT_UINT32_CPP :: "homekit_value \<Rightarrow> u32 \<Rightarrow> homekit_value" where
  "HOMEKIT_UINT32_CPP junk i = (HOMEKIT_DEFAULT_CPP junk)\<lparr>v_format := homekit_format_uint32,
     v_num := low_bytes 4 (ucast i) (v_num junk)\<rparr>"
definition HOMEKIT_UINT64_CPP :: "homekit_value \<Rightarrow> u64 \<Rightarrow> homekit_value" where
  "HOMEKIT_UINT64_CPP junk i = (HOMEKIT_DEFAULT_CPP junk)\<lparr>v_format := homekit_format_uint64, v_num := i\<rparr>"
definition HOMEKIT_FLOAT_CPP :: "homekit_value \<Rightarrow> rat \<Rightarrow> homekit_value" where
  "HOMEKIT_FLOAT_CPP junk f = (HOMEKIT_DEFAULT_CPP junk)\<lparr>v_format := homekit_format_float, v_float := f\<rparr>"
definition HOMEKIT_STRING_CPP :: "homekit_value \<Rightarrow> string option \<Rightarrow> homekit_value" where
  "HOMEKIT_STRING_CPP junk s = (HOMEKIT_DEFAULT_CPP junk)\<lparr>v_format := homekit_format_string, v_string := s\<rparr>"
definition HOMEKIT_TLV_CPP :: "homekit_value \<Rightarrow> tlv_values option \<Rightarrow> homekit_value" where
  "HOMEKIT_TLV_CPP junk t = (HOMEKIT_DEFAULT_CPP junk)\<lparr>v_format := homekit_format_tlv, v_tlv := t\<rparr>"
definition HOMEKIT_DATA_CPP :: "homekit_value \<Rightarrow> byte list option \<Rightarrow> nat \<Rightarrow> homekit_value" where
  "HOMEKIT_DATA_CPP junk d n = (HOMEKIT_DEFAULT_CPP junk)\<lparr>v_format := homekit_format_data,
     v_data := d, v_data_size := n\<rparr>"

section \<open>Comparing and copying values\<close>

text \<open>The TLV lists are compared item by item, the bytes of an item with \<open>strncmp\<close>.\<close>

fun tlv_items_equal :: "tlv_values \<Rightarrow> tlv_values \<Rightarrow> bool" where
  "tlv_items_equal (a # as) (b # bs) =
     (if tlv_type a \<noteq> tlv_type b \<or> tlv_size a \<noteq> tlv_size b then False
      else if \<not> cstr_eq_n 0 (tlv_size a) (tlv_value a) (tlv_value b) then False
      else tlv_items_equal as bs)"
| "tlv_items_equal as bs \<longleftrightarrow> as = [] \<and> bs = []"

definition homekit_value_equal :: "homekit_value \<Rightarrow> homekit_value \<Rightarrow> fault + bool" where
  "homekit_value_equal a b =
     (if v_is_null a \<noteq> v_is_null b then Inr False
      else if v_format a \<noteq> v_format b then Inr False
      else case v_format a of
        homekit_format_bool \<Rightarrow> Inr (bool_value a = bool_value b)
      | homekit_format_float \<Rightarrow> Inr (v_float a = v_float b)
      | homekit_format_string \<Rightarrow>
          (case (v_string a, v_string b) of
             (Some s, Some t) \<Rightarrow> Inr (s = t)
           | _ \<Rightarrow> Inl Null_deref)
      | homekit_format_tlv \<Rightarrow>
          (case (v_tlv a, v_tlv b) of
             (None, None) \<Rightarrow> Inr True
           | (Some s, Some t) \<Rightarrow> Inr (tlv_items_equal s t)
           | _ \<Rightarrow> Inr False)
      | homekit_format_data \<Rightarrow>
          (case (v_data a, v_data b) of
             (None, None) \<Rightarrow> Inr True
           | (Some s, Some t) \<Rightarrow>
               if v_data_size a \<noteq> v_data_size b then Inr False
               else if length s < v_data_size a \<or> length t < v_data_size a then Inl Oob_read
               else Inr (take (v_data_size a) s = take (v_data_size a) t)
           | _ \<Rightarrow> Inr False)
      | _ \<Rightarrow> Inr (int_value a = int_value b))"

fun tlv_add_all :: "tlv_values \<Rightarrow> tlv_values \<Rightarrow> tlv_values" where
  "tlv_add_all dst [] = dst"
| "tlv_add_all dst (v # vs) = tlv_add_all (tlv_add_value dst (tlv_type v) (take (tlv_size v) (tlv_value v))) vs"

definition homekit_value_copy :: "homekit_value \<Rightarrow> fault + homekit_value" where
  "homekit_value_copy src =
     (let dst = zero_value\<lparr>v_format := v_format src, v_is_null := v_is_null src\<rparr> in
      if v_is_null src then Inr dst
      else case v_format src of
        homekit_format_bool \<Rightarrow> Inr (dst\<lparr>v_num := (if bool_value src then 1 else 0)\<rparr>)
      | homekit_format_float \<Rightarrow> Inr (dst\<lparr>v_float := v_float src\<rparr>)
      | homekit_format_string \<Rightarrow>
          if v_is_static src then Inr (dst\<lparr>v_string := v_string src, v_is_static := True\<rparr>)
          else (case v_string src of None \<Rightarrow> Inl Null_deref | Some s \<Rightarrow> Inr (dst\<lparr>v_string := Some s\<rparr>))
      | homekit_format_tlv \<Rightarrow>
          if v_is_static src then Inr (dst\<lparr>v_tlv := v_tlv src, v_is_static := True\<rparr>)
          else (case v_tlv src of None \<Rightarrow> Inl Null_deref
                | Some t \<Rightarrow> Inr (dst\<lparr>v_tlv := Some (tlv_add_all tlv_new t)\<rparr>))
      | homekit_format_data \<Rightarrow>
          if v_is_static src
          then Inr (dst\<lparr>v_data := v_data src, v_data_size := v_data_size src, v_is_static := True\<rparr>)
          else (case v_data src of
                  None \<Rightarrow> if v_data_size src = 0 then Inr (dst\<lparr>v_data := Some []\<rparr>) else Inl Null_deref
                | Some d \<Rightarrow>
                    if length d < v_data_size src then Inl Oob_read
                    else Inr (dst\<lparr>v_data := Some (take (v_data_size src) d), v_data_size := v_data_size src\<rparr>))
      | _ \<Rightarrow> Inr (dst\<lparr>v_num := ucast (int_value src)\<rparr>))"

definition homekit_value_clone :: "homekit_value \<Rightarrow> fault + homekit_value" where
  "homekit_value_clone v = homekit_value_copy v"

section \<open>The tree\<close>

datatype getter_ex = Old_getter | User_getter_ex nat
datatype setter_ex = Old_setter | User_setter_ex nat

record homekit_characteristic =
  c_id :: u32
  c_type :: string
  c_description :: "string option"
  c_format :: homekit_format
  c_unit :: homekit_unit
  c_permissions :: u32
  c_value :: homekit_value
  c_min_value :: "rat option"
  c_max_value :: "rat option"
  c_min_step :: "rat option"
  c_max_len :: "int option"
  c_max_data_len :: "int option"
  c_valid_values :: "byte list"
  c_valid_values_ranges :: "(byte \<times> byte) list"
  c_getter :: "nat option"
  c_setter :: "nat option"
  c_callbacks :: "(nat \<times> nat) list"
  c_getter_ex :: "getter_ex option"
  c_setter_ex :: "setter_ex option"
  c_context :: nat

text \<open>A linked service is its position among the accessory's services.\<close>

record homekit_service =
  s_id :: u32
  s_type :: string
  s_hidden :: bool
  s_primary :: bool
  s_linked :: "nat list option"
  s_characteristics :: "homekit_characteristic list"

record homekit_accessory =
  a_id :: u32
  a_category :: nat
  a_config_number :: u16
  a_services :: "homekit_service list"

type_synonym ch_path = "nat \<times> nat \<times> nat"

definition valid_path :: "homekit_accessory list \<Rightarrow> ch_path \<Rightarrow> bool" where
  "valid_path as p = (case p of (i, j, k) \<Rightarrow> i < length as \<and> j < length (a_services (as ! i)) \<and>
     k < length (s_characteristics (a_services (as ! i) ! j)))"

definition get_ch :: "homekit_accessory list \<Rightarrow> ch_path \<Rightarrow> homekit_characteristic" where
  "get_ch as p = (case p of (i, j, k) \<Rightarrow> s_characteristics (a_services (as ! i) ! j) ! k)"

definition set_ch ::
  "homekit_accessory list \<Rightarrow> ch_path \<Rightarrow> homekit_characteristic \<Rightarrow> homekit_accessory list" where
  "set_ch as p c = (case p of (i, j, k) \<Rightarrow>
     as[i := (as ! i)\<lparr>a_services := (a_services (as ! i))[j :=
       (a_services (as ! i) ! j)\<lparr>s_characteristics :=
         (s_characteristics (a_services (as ! i) ! j))[k := c]\<rparr>]\<rparr>])"

section \<open>Initialisation\<close>

text \<open>\<open>assign_id n id\<close>: the counter and the id after an element with declared id \<open>id\<close> (0 for none).\<close>

definition assign_id :: "u32 \<Rightarrow> u32 \<Rightarrow> u32 \<times> u32" where
  "assign_id n i = (if i \<noteq> 0 then (if i \<ge> n then i + 1 else n, i) else (n + 1, n))"

definition init_characteristic :: "u32 \<Rightarrow> homekit_characteristic \<Rightarrow> u32 \<times> homekit_characteristic" where
  "init_characteristic iid ch =
     (let (iid, i) = assign_id iid (c_id ch) in
      (iid, ch\<lparr>c_id := i,
               c_getter_ex := (if c_getter_ex ch = None \<and> c_getter ch \<noteq> None then Some Old_getter
                               else c_getter_ex ch),
               c_setter_ex := (if c_setter_ex ch = None \<and> c_setter ch \<noteq> None then Some Old_setter
                               else c_setter_ex ch),
               c_value := (c_value ch)\<lparr>v_format := c_format ch\<rparr>\<rparr>))"

fun init_characteristics ::
  "u32 \<Rightarrow> homekit_characteristic list \<Rightarrow> u32 \<times> homekit_characteristic list" where
  "init_characteristics iid [] = (iid, [])"
| "init_characteristics iid (ch # chs) =
     (let (iid, ch) = init_characteristic iid ch; (iid, chs) = init_characteristics iid chs in
      (iid, ch # chs))"

fun init_services :: "u32 \<Rightarrow> homekit_service list \<Rightarrow> u32 \<times> homekit_service list" where
  "init_services iid [] = (iid, [])"
| "init_services iid (s # ss) =
     (let (iid, i) = assign_id iid (s_id s);
          (iid, chs) = init_characteristics iid (s_characteristics s);
          (iid, ss) = init_services iid ss in
      (iid, s\<lparr>s_id := i, s_characteristics := chs\<rparr> # ss))"

fun init_accessories :: "u32 \<Rightarrow> homekit_accessory list \<Rightarrow> homekit_accessory list" where
  "init_accessories aid [] = []"
| "init_accessories aid (a # as) =
     (let (aid, i) = assign_id aid (a_id a) in
      a\<lparr>a_id := i, a_services := snd (init_services 1 (a_services a))\<rparr> # init_accessories aid as)"

definition homekit_accessories_init :: "homekit_accessory list \<Rightarrow> homekit_accessory list" where
  "homekit_accessories_init as = init_accessories 1 as"

section \<open>Lookups\<close>

definition homekit_accessory_by_id :: "homekit_accessory list \<Rightarrow> u32 \<Rightarrow> homekit_accessory option" where
  "homekit_accessory_by_id as aid = find (\<lambda>a. a_id a = aid) as"

definition homekit_service_by_type :: "homekit_accessory \<Rightarrow> string \<Rightarrow> homekit_service option" where
  "homekit_service_by_type a ty = find (\<lambda>s. s_type s = ty) (a_services a)"

definition homekit_service_characteristic_by_type ::
  "homekit_service \<Rightarrow> string \<Rightarrow> homekit_characteristic option" where
  "homekit_service_characteristic_by_type s ty = find (\<lambda>c. c_type c = ty) (s_characteristics s)"

fun find_in_chs :: "(homekit_characteristic \<Rightarrow> bool) \<Rightarrow> homekit_characteristic list \<Rightarrow> nat \<Rightarrow> nat option" where
  "find_in_chs P [] k = None"
| "find_in_chs P (c # cs) k = (if P c then Some k else find_in_chs P cs (Suc k))"

fun find_in_services ::
  "(homekit_characteristic \<Rightarrow> bool) \<Rightarrow> homekit_service list \<Rightarrow> nat \<Rightarrow> (nat \<times> nat) option" where
  "find_in_services P [] j = None"
| "find_in_services P (s # ss) j =
     (case find_in_chs P (s_characteristics s) 0 of
        Some k \<Rightarrow> Some (j, k)
      | None \<Rightarrow> find_in_services P ss (Suc j))"

fun find_in_accessories ::
  "u32 \<Rightarrow> (homekit_characteristic \<Rightarrow> bool) \<Rightarrow> homekit_accessory list \<Rightarrow> nat \<Rightarrow> ch_path option" where
  "find_in_accessories aid P [] i = None"
| "find_in_accessories aid P (a # as) i =
     (if a_id a \<noteq> aid then find_in_accessories aid P as (Suc i)
      else (case find_in_services P (a_services a) 0 of
              Some (j, k) \<Rightarrow> Some (i, j, k)
            | None \<Rightarrow> find_in_accessories aid P as (Suc i)))"

definition homekit_characteristic_by_aid_and_iid ::
  "homekit_accessory list \<Rightarrow> u32 \<Rightarrow> u32 \<Rightarrow> ch_path option" where
  "homekit_characteristic_by_aid_and_iid as aid iid = find_in_accessories aid (\<lambda>c. c_id c = iid) as 0"

definition homekit_characteristic_find_by_type ::
  "homekit_accessory list \<Rightarrow> u32 \<Rightarrow> string \<Rightarrow> ch_path option" where
  "homekit_characteristic_find_by_type as aid ty = find_in_accessories aid (\<lambda>c. c_type c = ty) as 0"

section \<open>Notification callbacks\<close>

text \<open>The calls \<open>homekit_characteristic_notify\<close> makes, in order, with their arguments.\<close>

fun notify_calls :: "(nat \<times> nat) list \<Rightarrow> homekit_value \<Rightarrow> (nat \<times> homekit_value \<times> nat) list" where
  "notify_calls [] v = []"
| "notify_calls ((f, x) # cs) v = (f, v, x) # notify_calls cs v"

definition homekit_characteristic_notify ::
  "homekit_characteristic \<Rightarrow> homekit_value \<Rightarrow> (nat \<times> homekit_value \<times> nat) list" where
  "homekit_characteristic_notify ch v = notify_calls (c_callbacks ch) v"

text \<open>The walk to the end of a list that is not empty, giving up when the callback is found.\<close>

fun add_callback :: "(nat \<times> nat) list \<Rightarrow> nat \<times> nat \<Rightarrow> (nat \<times> nat) list" where
  "add_callback [] c = [c]"
| "add_callback (d # ds) c = (if d = c then d # ds else d # add_callback ds c)"

definition homekit_characteristic_add_notify_callback ::
  "homekit_characteristic \<Rightarrow> nat \<Rightarrow> nat \<Rightarrow> homekit_characteristic" where
  "homekit_characteristic_add_notify_callback ch f x = ch\<lparr>c_callbacks := add_callback (c_callbacks ch) (f, x)\<rparr>"

text \<open>The two loops of the removal: at the head, then behind it.\<close>

fun drop_head_callbacks :: "(nat \<times> nat) list \<Rightarrow> nat \<times> nat \<Rightarrow> (nat \<times> nat) list" where
  "drop_head_callbacks [] c = []"
| "drop_head_callbacks (d # ds) c = (if d \<noteq> c then d # ds else drop_head_callbacks ds c)"

fun drop_next_callbacks :: "(nat \<times> nat) list \<Rightarrow> nat \<times> nat \<Rightarrow> (nat \<times> nat) list" where
  "drop_next_callbacks (d # e # es) c =
     (if e = c then drop_next_callbacks (d # es) c else d # drop_next_callbacks (e # es) c)"
| "drop_next_callbacks ds c = ds"

definition remove_callback :: "(nat \<times> nat) list \<Rightarrow> nat \<times> nat \<Rightarrow> (nat \<times> nat) list" where
  "remove_callback cs c =
     (let cs = drop_head_callbacks cs c in if cs = [] then [] else drop_next_callbacks cs c)"

definition homekit_characteristic_remove_notify_callback ::
  "homekit_characteristic \<Rightarrow> nat \<Rightarrow> nat \<Rightarrow> homekit_characteristic" where
  "homekit_characteristic_remove_notify_callback ch f x =
     ch\<lparr>c_callbacks := remove_callback (c_callbacks ch) (f, x)\<rparr>"

definition homekit_accessories_clear_notify_callbacks ::
  "homekit_accessory list \<Rightarrow> nat \<Rightarrow> nat \<Rightarrow> homekit_accessory list" where
  "homekit_accessories_clear_notify_callbacks as f x =
     map (\<lambda>a. a\<lparr>a_services := map (\<lambda>s. s\<lparr>s_characteristics :=
       map (\<lambda>ch. homekit_characteristic_remove_notify_callback ch f x) (s_characteristics s)\<rparr>) (a_services a)\<rparr>) as"

fun has_callback :: "(nat \<times> nat) list \<Rightarrow> nat \<times> nat \<Rightarrow> bool" where
  "has_callback [] c = False"
| "has_callback (d # ds) c = (if d = c then True else has_callback ds c)"

definition homekit_characteristic_has_notify_callback :: "homekit_characteristic \<Rightarrow> nat \<Rightarrow> nat \<Rightarrow> bool" where
  "homekit_characteristic_has_notify_callback ch f x = has_callback (c_callbacks ch) (f, x)"

section \<open>Clones\<close>

text \<open>
  A clone is one allocated block: the structure (of \<open>sz\<close> bytes, the pointer size is 4), its texts and
  its arrays.  \<open>clone_size\<close> is what \<open>homekit_characteristic_clone\<close> allocates; \<open>clone_extents\<close> are the
  places it then writes, as offset and length, in order.
\<close>

definition align_size :: "nat \<Rightarrow> nat" where
  "align_size n = (if n mod 4 \<noteq> 0 then n + (4 - n mod 4) else n)"

definition description_len :: "homekit_characteristic \<Rightarrow> nat" where
  "description_len ch = (case c_description ch of None \<Rightarrow> 0 | Some d \<Rightarrow> length d + 1)"

definition clone_size :: "nat \<Rightarrow> homekit_characteristic \<Rightarrow> nat" where
  "clone_size sz ch =
     align_size (sz + (length (c_type ch) + 1) + description_len ch)
     + (if c_min_value ch \<noteq> None then 4 else 0) + (if c_max_value ch \<noteq> None then 4 else 0)
     + (if c_min_step ch \<noteq> None then 4 else 0) + (if c_max_len ch \<noteq> None then 4 else 0)
     + (if c_max_data_len ch \<noteq> None then 4 else 0)
     + (if c_valid_values ch \<noteq> [] then align_size (length (c_valid_values ch)) else 0)
     + (if c_valid_values_ranges ch \<noteq> [] then align_size (2 * length (c_valid_values_ranges ch)) else 0)
     + align_size 12 * length (c_callbacks ch)"

text \<open>\<open>put b n step\<close>: when \<open>b\<close>, write \<open>n\<close> bytes at the position and advance it by \<open>step\<close>.\<close>

definition put :: "bool \<Rightarrow> nat \<Rightarrow> nat \<Rightarrow> nat \<times> (nat \<times> nat) list \<Rightarrow> nat \<times> (nat \<times> nat) list" where
  "put b n step pe = (if b then (fst pe + step, snd pe @ [(fst pe, n)]) else pe)"

definition clone_extents :: "nat \<Rightarrow> homekit_characteristic \<Rightarrow> (nat \<times> nat) list" where
  "clone_extents sz ch =
     (let tl = length (c_type ch) + 1; dl = description_len ch;
          pe = put True sz sz (0, []);
          pe = put True tl tl pe;
          pe = put True dl dl pe;
          pe = (align_size (fst pe), snd pe);
          pe = put (c_min_value ch \<noteq> None) 4 4 pe;
          pe = put (c_max_value ch \<noteq> None) 4 4 pe;
          pe = put (c_min_step ch \<noteq> None) 4 4 pe;
          pe = put (c_max_len ch \<noteq> None) 4 4 pe;
          pe = put (c_max_data_len ch \<noteq> None) 4 4 pe;
          pe = put (c_valid_values ch \<noteq> []) (length (c_valid_values ch)) (align_size (length (c_valid_values ch))) pe;
          n = 4 * length (c_valid_values_ranges ch);
          pe = put (c_valid_values_ranges ch \<noteq> []) n (align_size n) pe;
          n = 12 * length (c_callbacks ch);
          pe = put (c_callbacks ch \<noteq> []) n n pe in
      snd pe)"

text \<open>
  The clone.  The ranges are copied with the size of a pointer per range instead of the two bytes of
  a range, so the copy reads past the source array.  \<open>description\<close> always points behind the type; when
  the source has none, \<open>tail\<close> is the text found there.
\<close>

definition homekit_characteristic_clone ::
  "nat \<Rightarrow> string \<Rightarrow> homekit_characteristic \<Rightarrow> fault + homekit_characteristic" where
  "homekit_characteristic_clone sz tail ch =
     bind_res (homekit_value_copy (c_value ch)) (\<lambda>v.
       if c_valid_values_ranges ch \<noteq> [] then Inl Oob_read
       else if \<not> list_all (\<lambda>(p, n). p + n \<le> clone_size sz ch) (clone_extents sz ch) then Inl Oob_write
       else Inr (ch\<lparr>c_value := v,
                    c_description := Some (case c_description ch of None \<Rightarrow> tail | Some d \<Rightarrow> d)\<rparr>))"

definition service_clone_size :: "nat \<Rightarrow> homekit_service \<Rightarrow> nat" where
  "service_clone_size sz s = align_size (sz + (length (s_type s) + 1))
     + (case s_linked s of None \<Rightarrow> 0 | Some l \<Rightarrow> 4 * (length l + 1)) + 4 * (length (s_characteristics s) + 1)"

definition service_clone_extents :: "nat \<Rightarrow> homekit_service \<Rightarrow> (nat \<times> nat) list" where
  "service_clone_extents sz s =
     (let tl = length (s_type s) + 1; n = (case s_linked s of None \<Rightarrow> 0 | Some l \<Rightarrow> 4 * (length l + 1));
          m = 4 * (length (s_characteristics s) + 1);
          pe = put True sz sz (0, []);
          pe = put True tl (align_size tl) pe;
          pe = put (s_linked s \<noteq> None) n n pe;
          pe = put True m m pe in
      snd pe)"

definition homekit_service_clone :: "nat \<Rightarrow> homekit_service \<Rightarrow> fault + homekit_service" where
  "homekit_service_clone sz s =
     (if list_all (\<lambda>(p, n). p + n \<le> service_clone_size sz s) (service_clone_extents sz s)
      then Inr s else Inl Oob_write)"

definition accessory_clone_size :: "nat \<Rightarrow> homekit_accessory \<Rightarrow> nat" where
  "accessory_clone_size sz a = sz + 4 * length (a_services a) + 4"

definition accessory_clone_extents :: "nat \<Rightarrow> homekit_accessory \<Rightarrow> (nat \<times> nat) list" where
  "accessory_clone_extents sz a =
     (let n = 4 * (length (a_services a) + 1);
          pe = put True sz (align_size sz) (0, []);
          pe = put True n n pe in
      snd pe)"

definition homekit_accessory_clone :: "nat \<Rightarrow> homekit_accessory \<Rightarrow> fault + homekit_accessory" where
  "homekit_accessory_clone sz a =
     (if list_all (\<lambda>(p, n). p + n \<le> accessory_clone_size sz a) (accessory_clone_extents sz a)
      then Inr a else Inl Oob_write)"

section \<open>Lemmas on values\<close>

lemma tlv_items_equal_refl: "tlv_items_equal ts ts"
  by (induction ts) simp_all

lemma tlv_add_all_id: "tlv_add_all vs ts = vs @ ts"
  by (induction ts arbitrary: vs) (simp_all add: tlv_add_value_def tlv_add_value'_def)

text \<open>The pointer that a value's format selects is not NULL, and its data has the declared size.\<close>

definition value_ok :: "homekit_value \<Rightarrow> bool" where
  "value_ok v \<longleftrightarrow> \<not> v_is_null v \<and> (case v_format v of
     homekit_format_string \<Rightarrow> v_string v \<noteq> None
   | homekit_format_tlv \<Rightarrow> v_tlv v \<noteq> None
   | homekit_format_data \<Rightarrow> (case v_data v of None \<Rightarrow> False | Some d \<Rightarrow> v_data_size v = length d)
   | _ \<Rightarrow> True)"

lemma u32_through_u64: "ucast (ucast (x :: u32) :: u64) = x"
  by (rule bit_word_eqI) (simp add: bit_unsigned_iff)

lemma value_copy_total:
  assumes "value_ok v"
  shows "\<exists>v'. homekit_value_copy v = Inr v' \<and> homekit_value_equal v v' = Inr True \<and> value_ok v'"
  using assms
  by (cases "v_format v"; cases "v_is_static v"; cases "v_string v"; cases "v_tlv v"; cases "v_data v")
     (auto simp: homekit_value_copy_def homekit_value_equal_def value_ok_def zero_value_def Let_def
       tlv_add_all_id tlv_new_def tlv_items_equal_refl int_value_def bool_value_def u32_through_u64)

section \<open>Lemmas on identifiers\<close>

text \<open>The ids of an accessory in the order they are assigned.\<close>

definition service_ids :: "homekit_service \<Rightarrow> u32 list" where
  "service_ids s = s_id s # map c_id (s_characteristics s)"

definition accessory_ids :: "homekit_accessory \<Rightarrow> u32 list" where
  "accessory_ids a = concat (map service_ids (a_services a))"

fun assign_ids :: "u32 \<Rightarrow> u32 list \<Rightarrow> u32 \<times> u32 list" where
  "assign_ids n [] = (n, [])"
| "assign_ids n (x # xs) =
     (let (n, i) = assign_id n x; (n, is) = assign_ids n xs in (n, i # is))"

text \<open>
  \<open>ids_fit n xs\<close>: every declared id is at least the counter it meets and the counter does not wrap.
\<close>

fun ids_fit :: "nat \<Rightarrow> u32 list \<Rightarrow> bool" where
  "ids_fit n [] \<longleftrightarrow> True"
| "ids_fit n (x # xs) \<longleftrightarrow>
     (let m = (if x = 0 then n else unat x) in n \<le> m \<and> m + 1 < 2 ^ 32 \<and> ids_fit (m + 1) xs)"

lemma assign_ids_append:
  "assign_ids n (xs @ ys) =
     (let (m, as) = assign_ids n xs; (k, bs) = assign_ids m ys in (k, as @ bs))"
  by (induction xs arbitrary: n) (simp_all add: Let_def split: prod.splits)

lemma unat_Suc_lt: "unat (x :: u32) + 1 < 2 ^ 32 \<Longrightarrow> unat (x + 1) = unat x + 1"
  using unat_add_lem [of x 1] by simp

lemma assign_ids_sorted:
  "ids_fit (unat n) xs \<Longrightarrow> 0 < n \<Longrightarrow>
   sorted_wrt (<) (snd (assign_ids n xs)) \<and> (\<forall>i\<in>set (snd (assign_ids n xs)). n \<le> i)"
proof (induction xs arbitrary: n)
  case (Cons x xs)
  define i where "i = (if x = 0 then n else x)"
  have fit: "unat n \<le> unat i" "unat i + 1 < 2 ^ 32" "ids_fit (unat i + 1) xs"
    using Cons.prems(1) by (auto simp: i_def Let_def split: if_splits)
  have le: "n \<le> i" using fit(1) by (simp add: word_le_nat_alt)
  have un: "unat (i + 1) = unat i + 1" using fit(2) by (rule unat_Suc_lt)
  have "0 < i + 1" using un by (simp add: word_less_nat_alt)
  with Cons.IH [of "i + 1"] fit(3) un
  have IH: "sorted_wrt (<) (snd (assign_ids (i + 1) xs))" "\<forall>k\<in>set (snd (assign_ids (i + 1) xs)). i + 1 \<le> k"
    by simp_all
  have "assign_id n x = (i + 1, i)" using le by (simp add: assign_id_def i_def split: if_splits)
  then have "snd (assign_ids n (x # xs)) = i # snd (assign_ids (i + 1) xs)" by (simp add: split_beta)
  moreover have "i < k" if "i + 1 \<le> k" for k
    using that un by (simp add: word_le_nat_alt word_less_nat_alt)
  ultimately show ?case using IH le by force
qed simp

lemma init_characteristics_ids:
  "assign_ids n (map c_id chs) =
     (fst (init_characteristics n chs), map c_id (snd (init_characteristics n chs)))"
  by (induction chs arbitrary: n) (simp_all add: init_characteristic_def Let_def split_beta)

lemma init_services_ids:
  "assign_ids n (concat (map service_ids ss)) =
     (fst (init_services n ss), concat (map service_ids (snd (init_services n ss))))"
proof (induction ss arbitrary: n)
  case (Cons s ss)
  show ?case
    using Cons [of "fst (init_characteristics (fst (assign_id n (s_id s))) (s_characteristics s))"]
    by (simp add: service_ids_def assign_ids_append Let_def split_beta init_characteristics_ids)
qed simp

lemma init_services_shape:
  "length (snd (init_services n ss)) = length ss
   \<and> (\<forall>j<length ss. length (s_characteristics (snd (init_services n ss) ! j)) = length (s_characteristics (ss ! j)))"
proof -
  have chs: "length (snd (init_characteristics m cs)) = length cs" for m cs
    by (induction cs arbitrary: m) (simp_all add: Let_def split_beta)
  show ?thesis
    by (induction ss arbitrary: n) (auto simp: Let_def split_beta nth_Cons chs split: nat.splits)
qed

lemma init_accessories_nth:
  "i < length as \<Longrightarrow> a_services (init_accessories n as ! i) = snd (init_services 1 (a_services (as ! i)))"
  by (induction as arbitrary: n i) (auto simp: Let_def split_beta nth_Cons split: nat.splits)

lemma length_init_accessories [simp]: "length (init_accessories n as) = length as"
  by (induction as arbitrary: n) (simp_all add: Let_def split_beta)

lemma init_accessories_ids: "map a_id (init_accessories n as) = snd (assign_ids n (map a_id as))"
  by (induction as arbitrary: n) (simp_all add: Let_def split_beta)

lemma find_in_chs_here:
  "distinct (map c_id cs) \<Longrightarrow> k < length cs \<Longrightarrow>
   find_in_chs (\<lambda>c. c_id c = c_id (cs ! k)) cs n = Some (n + k)"
proof (induction cs arbitrary: k n)
  case (Cons c cs)
  show ?case
  proof (cases k)
    case (Suc l)
    with Cons.prems have "c_id c \<noteq> c_id (cs ! l)" by (metis Suc_less_eq distinct.simps(2) in_set_conv_nth length_Cons length_map list.simps(9) nth_map)
    with Suc Cons show ?thesis by simp
  qed simp
qed simp

lemma find_in_chs_none: "i \<notin> set (map c_id cs) \<Longrightarrow> find_in_chs (\<lambda>c. c_id c = i) cs n = None"
  by (induction cs arbitrary: n) auto

lemma find_in_services_here:
  "distinct (concat (map service_ids ss)) \<Longrightarrow> j < length ss \<Longrightarrow> k < length (s_characteristics (ss ! j)) \<Longrightarrow>
   find_in_services (\<lambda>c. c_id c = c_id (s_characteristics (ss ! j) ! k)) ss n = Some (n + j, k)"
proof (induction ss arbitrary: j n)
  case (Cons s ss)
  show ?case
  proof (cases j)
    case 0
    with Cons.prems find_in_chs_here [of "s_characteristics s" k 0] show ?thesis
      by (simp add: service_ids_def)
  next
    case (Suc l)
    let ?c = "s_characteristics (ss ! l) ! k"
    have "c_id ?c \<in> set (concat (map service_ids ss))"
      using Cons.prems Suc by (auto simp: service_ids_def intro!: bexI [of _ "ss ! l"])
    moreover have "set (map c_id (s_characteristics s)) \<inter> set (concat (map service_ids ss)) = {}"
    proof -
      have "distinct (service_ids s @ concat (map service_ids ss))" using Cons.prems(1) by simp
      then have "set (service_ids s) \<inter> set (concat (map service_ids ss)) = {}" by (rule distinct_append [THEN iffD1, THEN conjunct2, THEN conjunct2])
      moreover have "set (map c_id (s_characteristics s)) \<subseteq> set (service_ids s)" by (auto simp: service_ids_def)
      ultimately show ?thesis by blast
    qed
    ultimately have "c_id ?c \<notin> set (map c_id (s_characteristics s))" by blast
    with Suc Cons find_in_chs_none show ?thesis by (simp add: service_ids_def)
  qed
qed simp

lemma find_in_accessories_here:
  "distinct (map a_id as) \<Longrightarrow> i < length as \<Longrightarrow> find_in_services P (a_services (as ! i)) 0 = Some (j, k) \<Longrightarrow>
   find_in_accessories (a_id (as ! i)) P as n = Some (n + i, j, k)"
proof (induction as arbitrary: i n)
  case (Cons a as)
  show ?case
  proof (cases i)
    case (Suc l)
    with Cons.prems have "a_id a \<noteq> a_id (as ! l)" by (metis Suc_less_eq distinct.simps(2) in_set_conv_nth length_Cons length_map list.simps(9) nth_map)
    with Suc Cons show ?thesis by simp
  qed (use Cons.prems in simp)
qed simp

section \<open>Lemmas on callbacks\<close>

text \<open>
  The contract of a set of subscribers, which the event code of the server relies on, and what it
  gives for a sequence of subscriptions (\<open>True\<close>) and cancellations.
\<close>

locale subscriber_set =
  fixes add :: "'q \<Rightarrow> 'c \<Rightarrow> 'q" and remove :: "'q \<Rightarrow> 'c \<Rightarrow> 'q" and has :: "'q \<Rightarrow> 'c \<Rightarrow> bool"
    and once :: "'q \<Rightarrow> bool"
  assumes has_add: "has (add q c) d \<longleftrightarrow> d = c \<or> has q d"
    and has_remove: "has (remove q c) d \<longleftrightarrow> d \<noteq> c \<and> has q d"
    and once_add: "once q \<Longrightarrow> once (add q c)"
    and once_remove: "once q \<Longrightarrow> once (remove q c)"
begin

lemma has_trace:
  "has (foldl (\<lambda>q (on, d). if on then add q d else remove q d) q tr) c =
   foldl (\<lambda>b (on, d). if d = c then on else b) (has q c) tr"
  by (induction tr arbitrary: q) (auto simp: has_add has_remove split_beta)

lemma once_trace: "once q \<Longrightarrow> once (foldl (\<lambda>q (on, d). if on then add q d else remove q d) q tr)"
  by (induction tr arbitrary: q) (auto simp: once_add once_remove)

end

lemma has_callback_iff: "has_callback cs c \<longleftrightarrow> c \<in> set cs"
  by (induction cs) auto

lemma add_callback_eq: "add_callback cs c = (if c \<in> set cs then cs else cs @ [c])"
  by (induction cs) auto

lemma drop_next_eq: "d \<noteq> c \<Longrightarrow> drop_next_callbacks (d # ds) c = d # filter (\<lambda>e. e \<noteq> c) ds"
  by (induction "d # ds" c arbitrary: d ds rule: drop_next_callbacks.induct) auto

lemma drop_head_eq: "drop_head_callbacks cs c = dropWhile (\<lambda>d. d = c) cs"
  by (induction cs) auto

lemma remove_callback_eq: "remove_callback cs c = filter (\<lambda>d. d \<noteq> c) cs"
proof (cases "drop_head_callbacks cs c")
  case Nil
  then show ?thesis
    by (auto simp: remove_callback_def drop_head_eq dropWhile_eq_Nil_conv filter_empty_conv)
next
  case (Cons d ds)
  then have dw: "dropWhile (\<lambda>d. d = c) cs = d # ds" by (simp add: drop_head_eq)
  then have "d \<noteq> c" using hd_dropWhile [of "\<lambda>d. d = c" cs] by simp
  moreover have "filter (\<lambda>d. d \<noteq> c) cs = filter (\<lambda>d. d \<noteq> c) (dropWhile (\<lambda>d. d = c) cs)"
    by (induction cs) auto
  ultimately show ?thesis by (simp add: remove_callback_def Cons drop_next_eq dw)
qed

interpretation callbacks: subscriber_set add_callback remove_callback has_callback distinct
  by unfold_locales (auto simp: has_callback_iff add_callback_eq remove_callback_eq)

lemma notify_calls_eq: "notify_calls cs v = map (\<lambda>(f, x). (f, v, x)) cs"
  by (induction cs) auto

section \<open>Lemmas on clones\<close>

lemma align_size_ge: "n \<le> align_size n"
  unfolding align_size_def by (rule if_split [THEN iffD2]) (intro conjI impI le_add1 order_refl)

lemma align_size_add: "m mod 4 = 0 \<Longrightarrow> align_size (m + n) = m + align_size n"
  by (auto simp: align_size_def mod_add_eq [of m 4 n, symmetric])

definition extents_ok :: "nat \<times> (nat \<times> nat) list \<Rightarrow> bool" where
  "extents_ok pe \<longleftrightarrow> list_all (\<lambda>(p, n). p + n \<le> fst pe) (snd pe)"

lemma extents_ok_put: "extents_ok pe \<Longrightarrow> n \<le> step \<Longrightarrow> extents_ok (put b n step pe)"
  by (fastforce simp: extents_ok_def put_def list_all_iff)

lemma fst_put [simp]: "fst (put b n step pe) = fst pe + (if b then step else 0)"
  by (simp add: put_def)

lemma extents_ok_align: "extents_ok pe \<Longrightarrow> extents_ok (align_size (fst pe), snd pe)"
  using align_size_ge [of "fst pe"] by (fastforce simp: extents_ok_def list_all_iff)

lemma extents_ok_Nil: "extents_ok (n, [])"
  by (simp add: extents_ok_def)

lemmas extents_intros = extents_ok_put extents_ok_align extents_ok_Nil align_size_ge order_refl

lemma extents_okD: "extents_ok pe \<Longrightarrow> fst pe \<le> m \<Longrightarrow> list_all (\<lambda>(p, n). p + n \<le> m) (snd pe)"
  by (fastforce simp: extents_ok_def list_all_iff)

lemma characteristic_clone_fits:
  assumes "c_valid_values_ranges ch = []"
  shows "list_all (\<lambda>(p, n). p + n \<le> clone_size sz ch) (clone_extents sz ch)"
  unfolding clone_extents_def Let_def
  by (rule extents_okD) (intro extents_intros, simp add: clone_size_def align_size_def assms)

lemma service_clone_fits:
  assumes "sz mod 4 = 0"
  shows "list_all (\<lambda>(p, n). p + n \<le> service_clone_size sz s) (service_clone_extents sz s)"
  unfolding service_clone_extents_def Let_def
  by (rule extents_okD)
     (intro extents_intros, use align_size_add [OF assms, of "Suc (length (s_type s))"] in
       \<open>simp add: service_clone_size_def split: option.split\<close>)

lemma accessory_clone_fits:
  assumes "sz mod 4 = 0"
  shows "list_all (\<lambda>(p, n). p + n \<le> accessory_clone_size sz a) (accessory_clone_extents sz a)"
  unfolding accessory_clone_extents_def Let_def
  by (rule extents_okD)
     (intro extents_intros, use assms in \<open>simp add: accessory_clone_size_def align_size_def\<close>)

section \<open>Properties\<close>

text \<open>Records to evaluate the properties on.\<close>

definition sample_ch :: "u32 \<Rightarrow> string \<Rightarrow> homekit_characteristic" where
  "sample_ch i ty = \<lparr>c_id = i, c_type = ty, c_description = None, c_format = homekit_format_bool,
     c_unit = homekit_unit_none, c_permissions = 5, c_value = HOMEKIT_BOOL True, c_min_value = None,
     c_max_value = Some 100, c_min_step = None, c_max_len = None, c_max_data_len = None,
     c_valid_values = [1, 2, 3], c_valid_values_ranges = [], c_getter = Some 1, c_setter = None,
     c_callbacks = [(1, 7)], c_getter_ex = None, c_setter_ex = None, c_context = 0\<rparr>"

definition sample_service :: "u32 \<Rightarrow> homekit_characteristic list \<Rightarrow> homekit_service" where
  "sample_service i chs = \<lparr>s_id = i, s_type = ''3E'', s_hidden = False, s_primary = True,
     s_linked = None, s_characteristics = chs\<rparr>"

definition sample_accessories :: "homekit_accessory list" where
  "sample_accessories =
     [\<lparr>a_id = 0, a_category = 1, a_config_number = 1,
       a_services = [sample_service 0 [sample_ch 0 ''23''],
                     sample_service 9 [sample_ch 0 ''25'', sample_ch 20 ''26'']]\<rparr>,
      \<lparr>a_id = 5, a_category = 2, a_config_number = 1,
       a_services = [sample_service 0 [sample_ch 0 ''23'']]\<rparr>]"

text \<open>
  A copied value compares equal to its source, for every format, whenever the source is not null,
  the pointer its format selects is not NULL and its data has the declared size; the copy is again such
  a value, so copies of copies compare equal too.
\<close>

theorem value_copy_equal:
  assumes "value_ok v"
  shows "\<exists>v'. homekit_value_copy v = Inr v' \<and> homekit_value_equal v v' = Inr True \<and> value_ok v'"
  using assms by (rule value_copy_total)

theorem value_copy_equal_witness:
  "\<exists>v'. homekit_value_copy (HOMEKIT_TLV (Some [mk_tlv 1 [2, 0, 3]])) = Inr v' \<and>
     homekit_value_equal (HOMEKIT_TLV (Some [mk_tlv 1 [2, 0, 3]])) v' = Inr True \<and> value_ok v'"
  by (rule value_copy_equal) (simp add: value_ok_def HOMEKIT_TLV_def zero_value_def)

text \<open>
  64-bit values lose their upper half: two of them compare equal exactly when their lower 32 bits
  agree, and a copy keeps the lower 32 bits only.
\<close>

theorem value_uint64_low_half:
  "homekit_value_equal (HOMEKIT_UINT64 a) (HOMEKIT_UINT64 b) = Inr (take_bit 32 a = take_bit 32 b)
   \<and> homekit_value_copy (HOMEKIT_UINT64 a) = Inr (HOMEKIT_UINT64 (take_bit 32 a))"
proof -
  have "ucast a = (ucast b :: u32) \<longleftrightarrow> take_bit 32 a = take_bit 32 b"
    by (auto simp: unsigned_ucast_eq word_unat_eq_iff unsigned_take_bit_eq)
  moreover have "ucast (ucast a :: u32) = (take_bit 32 a :: u64)"
    by (simp add: word_unat_eq_iff unsigned_ucast_eq unsigned_take_bit_eq)
  ultimately show ?thesis
    by (simp add: homekit_value_equal_def homekit_value_copy_def HOMEKIT_UINT64_def zero_value_def
        int_value_def Let_def)
qed

text \<open>
  C36: Identifiers.  When every declared id is at least the counter it meets (ids left at 0 always
  are) and the counters do not wrap, \<open>homekit_accessories_init\<close> gives strictly increasing aids, within
  each accessory strictly increasing iids over its services and characteristics, and looking a
  characteristic up by the two ids it got returns that very characteristic.
\<close>

theorem init_ids_found:
  assumes "ids_fit 1 (map a_id as)" and "list_all (\<lambda>a. ids_fit 1 (accessory_ids a)) as"
    and "valid_path as (i, j, k)"
  shows "let as' = homekit_accessories_init as in
    sorted_wrt (<) (map a_id as') \<and> sorted_wrt (<) (accessory_ids (as' ! i)) \<and>
    homekit_characteristic_by_aid_and_iid as' (a_id (as' ! i)) (c_id (get_ch as' (i, j, k))) = Some (i, j, k)"
proof -
  let ?as = "homekit_accessories_init as" and ?ss = "a_services (as ! i)"
  have i: "i < length as" "j < length ?ss" "k < length (s_characteristics (?ss ! j))"
    using assms(3) by (simp_all add: valid_path_def)
  have aids: "sorted_wrt (<) (map a_id ?as)"
    using assign_ids_sorted [of 1 "map a_id as"] assms(1)
    by (simp add: homekit_accessories_init_def init_accessories_ids)
  have serv: "a_services (?as ! i) = snd (init_services 1 ?ss)"
    using i(1) by (simp add: homekit_accessories_init_def init_accessories_nth)
  have "ids_fit 1 (accessory_ids (as ! i))" using assms(2) i(1) by (simp add: list_all_length)
  then have iids: "sorted_wrt (<) (accessory_ids (?as ! i))"
    using assign_ids_sorted [of 1 "accessory_ids (as ! i)"] init_services_ids [of 1 ?ss]
    by (simp add: accessory_ids_def serv)
  have d: "distinct (map a_id ?as)" "distinct (concat (map service_ids (a_services (?as ! i))))"
    using aids iids by (simp_all add: strict_sorted_iff accessory_ids_def)
  have len: "length ?as = length as" by (simp add: homekit_accessories_init_def)
  have "j < length (a_services (?as ! i))" "k < length (s_characteristics (a_services (?as ! i) ! j))"
    using i init_services_shape [of 1 ?ss] by (simp_all add: serv)
  with find_in_services_here [OF d(2), of j k 0]
  have "find_in_services (\<lambda>c. c_id c = c_id (get_ch ?as (i, j, k))) (a_services (?as ! i)) 0 = Some (j, k)"
    by (simp add: get_ch_def)
  with find_in_accessories_here [OF d(1), of i] i(1) len aids iids show ?thesis
    by (simp add: homekit_characteristic_by_aid_and_iid_def Let_def)
qed

theorem init_ids_found_witness:
  "let as' = homekit_accessories_init sample_accessories in
    sorted_wrt (<) (map a_id as') \<and> sorted_wrt (<) (accessory_ids (as' ! 0)) \<and>
    homekit_characteristic_by_aid_and_iid as' (a_id (as' ! 0)) (c_id (get_ch as' (0, 1, 1))) = Some (0, 1, 1)"
  by (rule init_ids_found)
     (simp_all add: sample_accessories_def sample_service_def sample_ch_def accessory_ids_def
       service_ids_def valid_path_def)

text \<open>A sequence of requests: \<open>True\<close> adds a callback, \<open>False\<close> removes it.\<close>

definition after_requests :: "(nat \<times> nat) list \<Rightarrow> (bool \<times> nat \<times> nat) list \<Rightarrow> (nat \<times> nat) list" where
  "after_requests cs tr = foldl (\<lambda>q (on, d). if on then add_callback q d else remove_callback q d) cs tr"

definition last_request :: "nat \<times> nat \<Rightarrow> bool \<Rightarrow> (bool \<times> nat \<times> nat) list \<Rightarrow> bool" where
  "last_request c b tr = foldl (\<lambda>b (on, d). if d = c then on else b) b tr"

text \<open>
  A subscription takes effect: after any sequence of adding and removing callbacks on a
  characteristic, a callback is registered exactly when the last request about it was to add it (or it
  was registered before and none was made), and a list without repetitions stays so, so that a
  notification calls each registered callback once.
\<close>

theorem callbacks_follow_requests:
  assumes "distinct cs"
  shows "has_callback (after_requests cs tr) c = last_request c (has_callback cs c) tr
    \<and> distinct (notify_calls (after_requests cs tr) v)"
proof -
  have "distinct (notify_calls ds v)" if "distinct ds" for ds
    using that by (auto simp: notify_calls_eq distinct_map inj_on_def)
  then show ?thesis
    using assms callbacks.has_trace [of cs tr c] callbacks.once_trace [of cs tr]
    by (simp add: after_requests_def last_request_def)
qed

theorem callbacks_follow_requests_witness:
  "has_callback (after_requests [(1, 2)] [(True, (1, 3)), (False, (1, 2))]) (1, 3) =
      last_request (1, 3) (has_callback [(1, 2)] (1, 3)) [(True, (1, 3)), (False, (1, 2))]
    \<and> distinct (notify_calls (after_requests [(1, 2)] [(True, (1, 3)), (False, (1, 2))]) HOMEKIT_NULL)"
  by (rule callbacks_follow_requests) simp

text \<open>
  Cloning stays in its block: everything \<open>homekit_characteristic_clone\<close> writes for a
  characteristic without value ranges fits in what it allocated, so the clone exists whenever its value
  can be copied; with value ranges it reads past the source's array.  Service and accessory clones
  always fit.
\<close>

theorem clones_fit:
  assumes "sz mod 4 = 0" and "homekit_value_copy (c_value ch) = Inr v"
  shows "homekit_characteristic_clone sz tail ch =
      (if c_valid_values_ranges ch = []
       then Inr (ch\<lparr>c_value := v, c_description := Some (case c_description ch of None \<Rightarrow> tail | Some d \<Rightarrow> d)\<rparr>)
       else Inl Oob_read)
    \<and> homekit_service_clone sz s = Inr s \<and> homekit_accessory_clone sz a = Inr a"
  using assms characteristic_clone_fits service_clone_fits accessory_clone_fits
  by (simp add: homekit_characteristic_clone_def homekit_service_clone_def homekit_accessory_clone_def)

theorem clones_fit_witness:
  "homekit_characteristic_clone 112 [] (sample_ch 1 ''23'') =
      (if c_valid_values_ranges (sample_ch 1 ''23'') = []
       then Inr ((sample_ch 1 ''23'')\<lparr>c_value := HOMEKIT_BOOL True,
         c_description := Some (case c_description (sample_ch 1 ''23'') of None \<Rightarrow> [] | Some d \<Rightarrow> d)\<rparr>)
       else Inl Oob_read)
    \<and> homekit_service_clone 112 (sample_service 1 []) = Inr (sample_service 1 [])
    \<and> homekit_accessory_clone 112 (sample_accessories ! 0) = Inr (sample_accessories ! 0)"
  by (rule clones_fit)
     (simp_all add: sample_ch_def homekit_value_copy_def HOMEKIT_BOOL_def zero_value_def bool_value_def)

end
