(* ===== verification/Characteristics.thy ===== *)
theory Characteristics
  imports Accessories
begin

text \<open>
  The Apple-defined services and characteristics of \<open>src/homekit/characteristics.h\<close>: each service's type
  identifier, and for each characteristic the record its \<open>HOMEKIT_DECLARE_CHARACTERISTIC_*\<close> macro
  initialises, as a function of the macro's argument.  Members a macro does not name are zero, as in any
  C initialiser; identifiers have the short form (\<open>HOMEKIT_SHORT_APPLE_UUIDS\<close> is defined).  Integer
  arguments are C \<open>int\<close>s, converted to the width of the member they initialise.
\<close>

section \<open>Services\<close>

definition HOMEKIT_SERVICE_ACCESSORY_INFORMATION :: string where "HOMEKIT_SERVICE_ACCESSORY_INFORMATION = ''3E''"
definition HOMEKIT_SERVICE_FAN :: string where "HOMEKIT_SERVICE_FAN = ''40''"
definition HOMEKIT_SERVICE_GARAGE_DOOR_OPENER :: string where "HOMEKIT_SERVICE_GARAGE_DOOR_OPENER = ''41''"
definition HOMEKIT_SERVICE_LIGHTBULB :: string where "HOMEKIT_SERVICE_LIGHTBULB = ''43''"
definition HOMEKIT_SERVICE_LOCK_MANAGEMENT :: string where "HOMEKIT_SERVICE_LOCK_MANAGEMENT = ''44''"
definition HOMEKIT_SERVICE_LOCK_MECHANISM :: string where "HOMEKIT_SERVICE_LOCK_MECHANISM = ''45''"
definition HOMEKIT_SERVICE_OUTLET :: string where "HOMEKIT_SERVICE_OUTLET = ''47''"
definition HOMEKIT_SERVICE_SWITCH :: string where "HOMEKIT_SERVICE_SWITCH = ''49''"
definition HOMEKIT_SERVICE_THERMOSTAT :: string where "HOMEKIT_SERVICE_THERMOSTAT = ''4A''"
definition HOMEKIT_SERVICE_AIR_QUALITY_SENSOR :: string where "HOMEKIT_SERVICE_AIR_QUALITY_SENSOR = ''8D''"
definition HOMEKIT_SERVICE_SECURITY_SYSTEM :: string where "HOMEKIT_SERVICE_SECURITY_SYSTEM = ''7E''"
definition HOMEKIT_SERVICE_CARBON_MONOXIDE_SENSOR :: string where "HOMEKIT_SERVICE_CARBON_MONOXIDE_SENSOR = ''7F''"
definition HOMEKIT_SERVICE_CONTACT_SENSOR :: string where "HOMEKIT_SERVICE_CONTACT_SENSOR = ''80''"
definition HOMEKIT_SERVICE_DOOR :: string where "HOMEKIT_SERVICE_DOOR = ''81''"
definition HOMEKIT_SERVICE_HUMIDITY_SENSOR :: string where "HOMEKIT_SERVICE_HUMIDITY_SENSOR = ''82''"
definition HOMEKIT_SERVICE_LEAK_SENSOR :: string where "HOMEKIT_SERVICE_LEAK_SENSOR = ''83''"
definition HOMEKIT_SERVICE_LIGHT_SENSOR :: string where "HOMEKIT_SERVICE_LIGHT_SENSOR = ''84''"
definition HOMEKIT_SERVICE_MOTION_SENSOR :: string where "HOMEKIT_SERVICE_MOTION_SENSOR = ''85''"
definition HOMEKIT_SERVICE_OCCUPANCY_SENSOR :: string where "HOMEKIT_SERVICE_OCCUPANCY_SENSOR = ''86''"
definition HOMEKIT_SERVICE_SMOKE_SENSOR :: string where "HOMEKIT_SERVICE_SMOKE_SENSOR = ''87''"
definition HOMEKIT_SERVICE_STATELESS_PROGRAMMABLE_SWITCH :: string where "HOMEKIT_SERVICE_STATELESS_PROGRAMMABLE_SWITCH = ''89''"
definition HOMEKIT_SERVICE_TEMPERATURE_SENSOR :: string where "HOMEKIT_SERVICE_TEMPERATURE_SENSOR = ''8A''"
definition HOMEKIT_SERVICE_WINDOW :: string where "HOMEKIT_SERVICE_WINDOW = ''8B''"
definition HOMEKIT_SERVICE_WINDOW_COVERING :: string where "HOMEKIT_SERVICE_WINDOW_COVERING = ''8C''"
definition HOMEKIT_SERVICE_BATTERY_SERVICE :: string where "HOMEKIT_SERVICE_BATTERY_SERVICE = ''96''"
definition HOMEKIT_SERVICE_CARBON_DIOXIDE_SENSOR :: string where "HOMEKIT_SERVICE_CARBON_DIOXIDE_SENSOR = ''97''"
definition HOMEKIT_SERVICE_CAMERA_RTP_STREAM_MANAGEMENT :: string where "HOMEKIT_SERVICE_CAMERA_RTP_STREAM_MANAGEMENT = ''110''"
definition HOMEKIT_SERVICE_MICROPHONE :: string where "HOMEKIT_SERVICE_MICROPHONE = ''112''"
definition HOMEKIT_SERVICE_SPEAKER :: string where "HOMEKIT_SERVICE_SPEAKER = ''113''"
definition HOMEKIT_SERVICE_DOORBELL :: string where "HOMEKIT_SERVICE_DOORBELL = ''121''"
definition HOMEKIT_SERVICE_FAN2 :: string where "HOMEKIT_SERVICE_FAN2 = ''B7''"
definition HOMEKIT_SERVICE_SLAT :: string where "HOMEKIT_SERVICE_SLAT = ''B9''"
definition HOMEKIT_SERVICE_FILTER_MAINTENANCE :: string where "HOMEKIT_SERVICE_FILTER_MAINTENANCE = ''BA''"
definition HOMEKIT_SERVICE_AIR_PURIFIER :: string where "HOMEKIT_SERVICE_AIR_PURIFIER = ''BB''"
definition HOMEKIT_SERVICE_SERVICE_LABEL :: string where "HOMEKIT_SERVICE_SERVICE_LABEL = ''CC''"
definition HOMEKIT_SERVICE_FAUCET :: string where "HOMEKIT_SERVICE_FAUCET = ''D7''"
definition HOMEKIT_SERVICE_IRRIGATION_SYSTEM :: string where "HOMEKIT_SERVICE_IRRIGATION_SYSTEM = ''CF''"
definition HOMEKIT_SERVICE_VALVE :: string where "HOMEKIT_SERVICE_VALVE = ''D0''"
definition HOMEKIT_SERVICE_HEATER_COOLER :: string where "HOMEKIT_SERVICE_HEATER_COOLER = ''BC''"
definition HOMEKIT_SERVICE_HUMIDIFIER_DEHUMIDIFIER :: string where "HOMEKIT_SERVICE_HUMIDIFIER_DEHUMIDIFIER = ''BD''"
definition HOMEKIT_SERVICE_TELEVISION :: string where "HOMEKIT_SERVICE_TELEVISION = ''D8''"
definition HOMEKIT_SERVICE_INPUT_SOURCE :: string where "HOMEKIT_SERVICE_INPUT_SOURCE = ''D9''"
definition HOMEKIT_SERVICE_TELEVISION_SPEAKER :: string where "HOMEKIT_SERVICE_TELEVISION_SPEAKER = ''113''"

section \<open>Characteristics\<close>

text \<open>A characteristic all of whose members are zero.\<close>

definition no_characteristic :: homekit_characteristic where
  "no_characteristic = \<lparr>c_id = 0, c_type = [], c_description = None, c_format = homekit_format_bool,
     c_unit = homekit_unit_none, c_permissions = 0, c_value = zero_value, c_min_value = None,
     c_max_value = None, c_min_step = None, c_max_len = None, c_max_data_len = None, c_valid_values = [],
     c_valid_values_ranges = [], c_getter = None, c_setter = None, c_callbacks = [], c_getter_ex = None,
     c_setter_ex = None, c_context = 0\<rparr>"

definition HOMEKIT_DECLARE_CHARACTERISTIC_ADMINISTRATOR_ONLY_ACCESS :: "bool \<Rightarrow> homekit_characteristic" where
  "HOMEKIT_DECLARE_CHARACTERISTIC_ADMINISTRATOR_ONLY_ACCESS x = no_characteristic\<lparr>
     c_type := ''1'', c_description := Some ''Administrator Only Access'',
     c_format := homekit_format_bool,
     c_permissions := homekit_permissions_paired_read OR homekit_permissions_paired_write OR homekit_permissions_notify,
     c_value := HOMEKIT_BOOL x\<rparr>"

definition HOMEKIT_DECLARE_CHARACTERISTIC_AUDIO_FEEDBACK :: "bool \<Rightarrow> homekit_characteristic" where
  "HOMEKIT_DECLARE_CHARACTERISTIC_AUDIO_FEEDBACK x = no_characteristic\<lparr>
     c_type := ''5'', c_description := Some ''Audio Feedback'', c_format := homekit_format_bool,
     c_permissions := homekit_permissions_paired_read OR homekit_permissions_paired_write OR homekit_permissions_notify,
     c_value := HOMEKIT_BOOL x\<rparr>"

definition HOMEKIT_DECLARE_CHARACTERISTIC_BRIGHTNESS :: "u32 \<Rightarrow> homekit_characteristic" where
  "HOMEKIT_DECLARE_CHARACTERISTIC_BRIGHTNESS x = no_characteristic\<lparr>
     c_type := ''8'', c_description := Some ''Brightness'', c_format := homekit_format_int,
     c_unit := homekit_unit_percentage,
     c_permissions := homekit_permissions_paired_read OR homekit_permissions_paired_write OR homekit_permissions_notify,
     c_min_value := Some 0, c_max_value := Some 100, c_min_step := Some 1,
     c_value := HOMEKIT_INT x\<rparr>"

definition HOMEKIT_DECLARE_CHARACTERISTIC_COOLING_THRESHOLD_TEMPERATURE :: "rat \<Rightarrow> homekit_characteristic" where
  "HOMEKIT_DECLARE_CHARACTERISTIC_COOLING_THRESHOLD_TEMPERATURE x = no_characteristic\<lparr>
     c_type := ''D'', c_description := Some ''Cooling Threshold Temperature'',
     c_format := homekit_format_float, c_unit := homekit_unit_celsius,
     c_permissions := homekit_permissions_paired_read OR homekit_permissions_paired_write OR homekit_permissions_notify,
     c_min_value := Some 10, c_max_value := Some 35, c_min_step := Some (1 / 10),
     c_value := HOMEKIT_FLOAT x\<rparr>"

definition HOMEKIT_DECLARE_CHARACTERISTIC_CURRENT_DOOR_STATE :: "u32 \<Rightarrow> homekit_characteristic" where
  "HOMEKIT_DECLARE_CHARACTERISTIC_CURRENT_DOOR_STATE x = no_characteristic\<lparr>
     c_type := ''E'', c_description := Some ''Current Door State'',
     c_format := homekit_format_uint8,
     c_permissions := homekit_permissions_paired_read OR homekit_permissions_notify,
     c_min_value := Some 0, c_max_value := Some 4, c_min_step := Some 1,
     c_valid_values := [0, 1, 2, 3, 4], c_value := HOMEKIT_UINT8 (ucast x)\<rparr>"

definition HOMEKIT_DECLARE_CHARACTERISTIC_CURRENT_HEATING_COOLING_STATE :: "u32 \<Rightarrow> homekit_characteristic" where
  "HOMEKIT_DECLARE_CHARACTERISTIC_CURRENT_HEATING_COOLING_STATE x = no_characteristic\<lparr>
     c_type := ''F'', c_description := Some ''Current Heating Cooling State'',
     c_format := homekit_format_uint8,
     c_permissions := homekit_permissions_paired_read OR homekit_permissions_notify,
     c_min_value := Some 0, c_max_value := Some 2, c_min_step := Some 1,
     c_valid_values := [0, 1, 2], c_value := HOMEKIT_UINT8 (ucast x)\<rparr>"

definition HOMEKIT_DECLARE_CHARACTERISTIC_CURRENT_RELATIVE_HUMIDITY :: "rat \<Rightarrow> homekit_characteristic" where
  "HOMEKIT_DECLARE_CHARACTERISTIC_CURRENT_RELATIVE_HUMIDITY x = no_characteristic\<lparr>
     c_type := ''10'', c_description := Some ''Current Relative Humidity'',
     c_format := homekit_format_float, c_unit := homekit_unit_percentage,
     c_permissions := homekit_permissions_paired_read OR homekit_permissions_notify,
     c_min_value := Some 0, c_max_value := Some 100, c_min_step := Some 1,
     c_value := HOMEKIT_FLOAT x\<rparr>"

definition HOMEKIT_DECLARE_CHARACTERISTIC_CURRENT_TEMPERATURE :: "rat \<Rightarrow> homekit_characteristic" where
  "HOMEKIT_DECLARE_CHARACTERISTIC_CURRENT_TEMPERATURE x = no_characteristic\<lparr>
     c_type := ''11'', c_description := Some ''Current Temperature'',
     c_format := homekit_format_float, c_unit := homekit_unit_celsius,
     c_permissions := homekit_permissions_paired_read OR homekit_permissions_notify,
     c_min_value := Some 0, c_max_value := Some 100, c_min_step := Some (1 / 10),
     c_value := HOMEKIT_FLOAT x\<rparr>"

definition HOMEKIT_DECLARE_CHARACTERISTIC_FIRMWARE_REVISION :: "string option \<Rightarrow> homekit_characteristic" where
  "HOMEKIT_DECLARE_CHARACTERISTIC_FIRMWARE_REVISION x = no_characteristic\<lparr>
     c_type := ''52'', c_description := Some ''Firmware Revision'',
     c_format := homekit_format_string, c_permissions := homekit_permissions_paired_read,
     c_value := HOMEKIT_STRING x\<rparr>"

definition HOMEKIT_DECLARE_CHARACTERISTIC_HARDWARE_REVISION :: "string option \<Rightarrow> homekit_characteristic" where
  "HOMEKIT_DECLARE_CHARACTERISTIC_HARDWARE_REVISION x = no_characteristic\<lparr>
     c_type := ''53'', c_description := Some ''Hardware Revision'',
     c_format := homekit_format_string, c_permissions := homekit_permissions_paired_read,
     c_value := HOMEKIT_STRING x\<rparr>"

definition HOMEKIT_DECLARE_CHARACTERISTIC_HEATING_THRESHOLD_TEMPERATURE :: "rat \<Rightarrow> homekit_characteristic" where
  "HOMEKIT_DECLARE_CHARACTERISTIC_HEATING_THRESHOLD_TEMPERATURE x = no_characteristic\<lparr>
     c_type := ''12'', c_description := Some ''Heating Threshold Temperature'',
     c_format := homekit_format_float, c_unit := homekit_unit_celsius,
     c_permissions := homekit_permissions_paired_read OR homekit_permissions_paired_write OR homekit_permissions_notify,
     c_min_value := Some 0, c_max_value := Some 25, c_min_step := Some (1 / 10),
     c_value := HOMEKIT_FLOAT x\<rparr>"

definition HOMEKIT_DECLARE_CHARACTERISTIC_HUE :: "rat \<Rightarrow> homekit_characteristic" where
  "HOMEKIT_DECLARE_CHARACTERISTIC_HUE x = no_characteristic\<lparr>
     c_type := ''13'', c_description := Some ''Hue'', c_format := homekit_format_float,
     c_unit := homekit_unit_arcdegrees,
     c_permissions := homekit_permissions_paired_read OR homekit_permissions_paired_write OR homekit_permissions_notify,
     c_min_value := Some 0, c_max_value := Some 360, c_min_step := Some 1,
     c_value := HOMEKIT_FLOAT x\<rparr>"

definition HOMEKIT_DECLARE_CHARACTERISTIC_IDENTIFY :: "nat option \<Rightarrow> homekit_characteristic" where
  "HOMEKIT_DECLARE_CHARACTERISTIC_IDENTIFY x = no_characteristic\<lparr>
     c_type := ''14'', c_description := Some ''Identify'', c_format := homekit_format_bool,
     c_permissions := homekit_permissions_paired_write, c_setter := x\<rparr>"

definition HOMEKIT_DECLARE_CHARACTERISTIC_LOCK_CONTROL_POINT :: homekit_characteristic where
  "HOMEKIT_DECLARE_CHARACTERISTIC_LOCK_CONTROL_POINT = no_characteristic\<lparr>
     c_type := ''19'', c_description := Some ''Lock Control Point'',
     c_format := homekit_format_tlv, c_permissions := homekit_permissions_paired_write\<rparr>"

definition HOMEKIT_DECLARE_CHARACTERISTIC_LOCK_CURRENT_STATE :: "u32 \<Rightarrow> homekit_characteristic" where
  "HOMEKIT_DECLARE_CHARACTERISTIC_LOCK_CURRENT_STATE x = no_characteristic\<lparr>
     c_type := ''1D'', c_description := Some ''Lock Current State'',
     c_format := homekit_format_uint8,
     c_permissions := homekit_permissions_paired_read OR homekit_permissions_notify,
     c_min_value := Some 0, c_max_value := Some 3, c_min_step := Some 1,
     c_valid_values := [0, 1, 2, 3], c_value := HOMEKIT_UINT8 (ucast x)\<rparr>"

definition HOMEKIT_DECLARE_CHARACTERISTIC_LOCK_LAST_KNOWN_ACTION :: "u32 \<Rightarrow> homekit_characteristic" where
  "HOMEKIT_DECLARE_CHARACTERISTIC_LOCK_LAST_KNOWN_ACTION x = no_characteristic\<lparr>
     c_type := ''1C'', c_description := Some ''Lock Last Known Action'',
     c_format := homekit_format_uint8,
     c_permissions := homekit_permissions_paired_read OR homekit_permissions_notify,
     c_min_value := Some 0, c_max_value := Some 8, c_min_step := Some 1,
     c_valid_values := [0, 1, 2, 3, 4, 5, 6, 7, 8], c_value := HOMEKIT_UINT8 (ucast x)\<rparr>"

definition HOMEKIT_DECLARE_CHARACTERISTIC_LOCK_MANAGEMENT_AUTO_SECURITY_TIMEOUT :: "u32 \<Rightarrow> homekit_characteristic" where
  "HOMEKIT_DECLARE_CHARACTERISTIC_LOCK_MANAGEMENT_AUTO_SECURITY_TIMEOUT x = no_characteristic\<lparr>
     c_type := ''1A'', c_description := Some ''Lock Management Auto Security Timeout'',
     c_format := homekit_format_uint32, c_unit := homekit_unit_seconds,
     c_permissions := homekit_permissions_paired_read OR homekit_permissions_paired_write OR homekit_permissions_notify,
     c_value := HOMEKIT_UINT32 x\<rparr>"

definition HOMEKIT_DECLARE_CHARACTERISTIC_LOCK_TARGET_STATE :: "u32 \<Rightarrow> homekit_characteristic" where
  "HOMEKIT_DECLARE_CHARACTERISTIC_LOCK_TARGET_STATE x = no_characteristic\<lparr>
     c_type := ''1E'', c_description := Some ''Lock Target State'',
     c_format := homekit_format_uint8,
     c_permissions := homekit_permissions_paired_read OR homekit_permissions_paired_write OR homekit_permissions_notify,
     c_min_value := Some 0, c_max_value := Some 1, c_min_step := Some 1,
     c_valid_values := [0, 1], c_value := HOMEKIT_UINT8 (ucast x)\<rparr>"

definition HOMEKIT_DECLARE_CHARACTERISTIC_LOGS :: homekit_characteristic where
  "HOMEKIT_DECLARE_CHARACTERISTIC_LOGS = no_characteristic\<lparr>
     c_type := ''1F'', c_description := Some ''Logs'', c_format := homekit_format_tlv,
     c_permissions := homekit_permissions_paired_read OR homekit_permissions_notify\<rparr>"

definition HOMEKIT_DECLARE_CHARACTERISTIC_MANUFACTURER :: "string option \<Rightarrow> homekit_characteristic" where
  "HOMEKIT_DECLARE_CHARACTERISTIC_MANUFACTURER x = no_characteristic\<lparr>
     c_type := ''20'', c_description := Some ''Manufacturer'',
     c_format := homekit_format_string, c_permissions := homekit_permissions_paired_read,
     c_value := HOMEKIT_STRING x\<rparr>"

definition HOMEKIT_DECLARE_CHARACTERISTIC_MODEL :: "string option \<Rightarrow> homekit_characteristic" where
  "HOMEKIT_DECLARE_CHARACTERISTIC_MODEL x = no_characteristic\<lparr>
     c_type := ''21'', c_description := Some ''Model'', c_format := homekit_format_string,
     c_permissions := homekit_permissions_paired_read, c_value := HOMEKIT_STRING x\<rparr>"

definition HOMEKIT_DECLARE_CHARACTERISTIC_MOTION_DETECTED :: "bool \<Rightarrow> homekit_characteristic" where
  "HOMEKIT_DECLARE_CHARACTERISTIC_MOTION_DETECTED x = no_characteristic\<lparr>
     c_type := ''22'', c_description := Some ''Motion Detected'',
     c_format := homekit_format_bool,
     c_permissions := homekit_permissions_paired_read OR homekit_permissions_notify,
     c_value := HOMEKIT_BOOL x\<rparr>"

definition HOMEKIT_DECLARE_CHARACTERISTIC_NAME :: "string option \<Rightarrow> homekit_characteristic" where
  "HOMEKIT_DECLARE_CHARACTERISTIC_NAME x = no_characteristic\<lparr>
     c_type := ''23'', c_description := Some ''Name'', c_format := homekit_format_string,
     c_permissions := homekit_permissions_paired_read, c_value := HOMEKIT_STRING x\<rparr>"

definition HOMEKIT_DECLARE_CHARACTERISTIC_OBSTRUCTION_DETECTED :: "bool \<Rightarrow> homekit_characteristic" where
  "HOMEKIT_DECLARE_CHARACTERISTIC_OBSTRUCTION_DETECTED x = no_characteristic\<lparr>
     c_type := ''24'', c_description := Some ''Obstruction Detected'',
     c_format := homekit_format_bool,
     c_permissions := homekit_permissions_paired_read OR homekit_permissions_notify,
     c_value := HOMEKIT_BOOL x\<rparr>"

definition HOMEKIT_DECLARE_CHARACTERISTIC_ON :: "bool \<Rightarrow> homekit_characteristic" where
  "HOMEKIT_DECLARE_CHARACTERISTIC_ON x = no_characteristic\<lparr>
     c_type := ''25'', c_description := Some ''On'', c_format := homekit_format_bool,
     c_permissions := homekit_permissions_paired_read OR homekit_permissions_paired_write OR homekit_permissions_notify,
     c_value := HOMEKIT_BOOL x\<rparr>"

definition HOMEKIT_DECLARE_CHARACTERISTIC_OUTLET_IN_USE :: "bool \<Rightarrow> homekit_characteristic" where
  "HOMEKIT_DECLARE_CHARACTERISTIC_OUTLET_IN_USE x = no_characteristic\<lparr>
     c_type := ''26'', c_description := Some ''Outlet In Use'', c_format := homekit_format_bool,
     c_permissions := homekit_permissions_paired_read OR homekit_permissions_notify,
     c_value := HOMEKIT_BOOL x\<rparr>"

definition HOMEKIT_DECLARE_CHARACTERISTIC_ROTATION_DIRECTION :: "u32 \<Rightarrow> homekit_characteristic" where
  "HOMEKIT_DECLARE_CHARACTERISTIC_ROTATION_DIRECTION x = no_characteristic\<lparr>
     c_type := ''28'', c_description := Some ''Rotation Direction'',
     c_format := homekit_format_int,
     c_permissions := homekit_permissions_paired_read OR homekit_permissions_paired_write OR homekit_permissions_notify,
     c_min_value := Some 0, c_max_value := Some 1, c_min_step := Some 1,
     c_valid_values := [0, 1]\<rparr>"

definition HOMEKIT_DECLARE_CHARACTERISTIC_ROTATION_SPEED :: "rat \<Rightarrow> homekit_characteristic" where
  "HOMEKIT_DECLARE_CHARACTERISTIC_ROTATION_SPEED x = no_characteristic\<lparr>
     c_type := ''29'', c_description := Some ''Rotation Speed'',
     c_format := homekit_format_float, c_unit := homekit_unit_percentage,
     c_permissions := homekit_permissions_paired_read OR homekit_permissions_paired_write OR homekit_permissions_notify,
     c_min_value := Some 0, c_max_value := Some 100, c_min_step := Some 1\<rparr>"

definition HOMEKIT_DECLARE_CHARACTERISTIC_SATURATION :: "rat \<Rightarrow> homekit_characteristic" where
  "HOMEKIT_DECLARE_CHARACTERISTIC_SATURATION x = no_characteristic\<lparr>
     c_type := ''2F'', c_description := Some ''Saturation'', c_format := homekit_format_float,
     c_unit := homekit_unit_percentage,
     c_permissions := homekit_permissions_paired_read OR homekit_permissions_paired_write OR homekit_permissions_notify,
     c_min_value := Some 0, c_max_value := Some 100, c_min_step := Some 1,
     c_value := HOMEKIT_FLOAT x\<rparr>"

definition HOMEKIT_DECLARE_CHARACTERISTIC_SERIAL_NUMBER :: "string option \<Rightarrow> homekit_characteristic" where
  "HOMEKIT_DECLARE_CHARACTERISTIC_SERIAL_NUMBER x = no_characteristic\<lparr>
     c_type := ''30'', c_description := Some ''Serial Number'',
     c_format := homekit_format_string, c_permissions := homekit_permissions_paired_read,
     c_value := HOMEKIT_STRING x\<rparr>"

definition HOMEKIT_DECLARE_CHARACTERISTIC_TARGET_DOOR_STATE :: "u32 \<Rightarrow> homekit_characteristic" where
  "HOMEKIT_DECLARE_CHARACTERISTIC_TARGET_DOOR_STATE x = no_characteristic\<lparr>
     c_type := ''32'', c_description := Some ''Target Door State'',
     c_format := homekit_format_uint8,
     c_permissions := homekit_permissions_paired_read OR homekit_permissions_paired_write OR homekit_permissions_notify,
     c_min_value := Some 0, c_max_value := Some 1, c_min_step := Some 1,
     c_valid_values := [0, 1], c_value := HOMEKIT_UINT8 (ucast x)\<rparr>"

definition HOMEKIT_DECLARE_CHARACTERISTIC_TARGET_HEATING_COOLING_STATE :: "u32 \<Rightarrow> homekit_characteristic" where
  "HOMEKIT_DECLARE_CHARACTERISTIC_TARGET_HEATING_COOLING_STATE x = no_characteristic\<lparr>
     c_type := ''33'', c_description := Some ''Target Heating Cooling State'',
     c_format := homekit_format_uint8,
     c_permissions := homekit_permissions_paired_read OR homekit_permissions_paired_write OR homekit_permissions_notify,
     c_min_value := Some 0, c_max_value := Some 3, c_min_step := Some 1,
     c_valid_values := [0, 1, 2, 3], c_value := HOMEKIT_UINT8 (ucast x)\<rparr>"

definition HOMEKIT_DECLARE_CHARACTERISTIC_TARGET_RELATIVE_HUMIDITY :: "rat \<Rightarrow> homekit_characteristic" where
  "HOMEKIT_DECLARE_CHARACTERISTIC_TARGET_RELATIVE_HUMIDITY x = no_characteristic\<lparr>
     c_type := ''34'', c_description := Some ''Target Relative Humidity'',
     c_format := homekit_format_float, c_unit := homekit_unit_percentage,
     c_permissions := homekit_permissions_paired_read OR homekit_permissions_paired_write OR homekit_permissions_notify,
     c_min_value := Some 0, c_max_value := Some 100, c_min_step := Some 1,
     c_value := HOMEKIT_FLOAT x\<rparr>"

definition HOMEKIT_DECLARE_CHARACTERISTIC_TARGET_TEMPERATURE :: "rat \<Rightarrow> homekit_characteristic" where
  "HOMEKIT_DECLARE_CHARACTERISTIC_TARGET_TEMPERATURE x = no_characteristic\<lparr>
     c_type := ''35'', c_description := Some ''Target Temperature'',
     c_format := homekit_format_float, c_unit := homekit_unit_celsius,
     c_permissions := homekit_permissions_paired_read OR homekit_permissions_paired_write OR homekit_permissions_notify,
     c_min_value := Some 10, c_max_value := Some 38, c_min_step := Some (1 / 10),
     c_value := HOMEKIT_FLOAT x\<rparr>"

definition HOMEKIT_DECLARE_CHARACTERISTIC_TEMPERATURE_DISPLAY_UNITS :: "u32 \<Rightarrow> homekit_characteristic" where
  "HOMEKIT_DECLARE_CHARACTERISTIC_TEMPERATURE_DISPLAY_UNITS x = no_characteristic\<lparr>
     c_type := ''36'', c_description := Some ''Temperature Display Units'',
     c_format := homekit_format_uint8,
     c_permissions := homekit_permissions_paired_read OR homekit_permissions_paired_write OR homekit_permissions_notify,
     c_min_value := Some 0, c_max_value := Some 1, c_min_step := Some 1,
     c_valid_values := [0, 1], c_value := HOMEKIT_UINT8 (ucast x)\<rparr>"

definition HOMEKIT_DECLARE_CHARACTERISTIC_VERSION :: "string option \<Rightarrow> homekit_characteristic" where
  "HOMEKIT_DECLARE_CHARACTERISTIC_VERSION x = no_characteristic\<lparr>
     c_type := ''37'', c_description := Some ''Version'', c_format := homekit_format_string,
     c_permissions := homekit_permissions_paired_read, c_value := HOMEKIT_STRING x\<rparr>"

definition HOMEKIT_DECLARE_CHARACTERISTIC_AIR_PARTICULATE_DENSITY :: "u32 \<Rightarrow> homekit_characteristic" where
  "HOMEKIT_DECLARE_CHARACTERISTIC_AIR_PARTICULATE_DENSITY x = no_characteristic\<lparr>
     c_type := ''64'', c_description := Some ''Air Particulate Density'',
     c_format := homekit_format_float,
     c_permissions := homekit_permissions_paired_read OR homekit_permissions_notify,
     c_min_value := Some 0, c_max_value := Some 1000, c_value := HOMEKIT_UINT8 (ucast x)\<rparr>"

definition HOMEKIT_DECLARE_CHARACTERISTIC_AIR_PARTICULATE_SIZE :: "u32 \<Rightarrow> homekit_characteristic" where
  "HOMEKIT_DECLARE_CHARACTERISTIC_AIR_PARTICULATE_SIZE x = no_characteristic\<lparr>
     c_type := ''65'', c_description := Some ''Air Particulate Size'',
     c_format := homekit_format_uint8,
     c_permissions := homekit_permissions_paired_read OR homekit_permissions_notify,
     c_min_value := Some 0, c_max_value := Some 1, c_min_step := Some 1,
     c_valid_values := [0, 1], c_value := HOMEKIT_UINT8 (ucast x)\<rparr>"

definition HOMEKIT_DECLARE_CHARACTERISTIC_SECURITY_SYSTEM_CURRENT_STATE :: "u32 \<Rightarrow> homekit_characteristic" where
  "HOMEKIT_DECLARE_CHARACTERISTIC_SECURITY_SYSTEM_CURRENT_STATE x = no_characteristic\<lparr>
     c_type := ''66'', c_description := Some ''Security System Current State'',
     c_format := homekit_format_uint8,
     c_permissions := homekit_permissions_paired_read OR homekit_permissions_notify,
     c_min_value := Some 0, c_max_value := Some 4, c_min_step := Some 1,
     c_valid_values := [0, 1, 2, 3, 4], c_value := HOMEKIT_UINT8 (ucast x)\<rparr>"

definition HOMEKIT_DECLARE_CHARACTERISTIC_SECURITY_SYSTEM_TARGET_STATE :: "u32 \<Rightarrow> homekit_characteristic" where
  "HOMEKIT_DECLARE_CHARACTERISTIC_SECURITY_SYSTEM_TARGET_STATE x = no_characteristic\<lparr>
     c_type := ''67'', c_description := Some ''Security System Target State'',
     c_format := homekit_format_uint8,
     c_permissions := homekit_permissions_paired_read OR homekit_permissions_paired_write OR homekit_permissions_notify,
     c_min_value := Some 0, c_max_value := Some 3, c_min_step := Some 1,
     c_valid_values := [0, 1, 2, 3], c_value := HOMEKIT_UINT8 (ucast x)\<rparr>"

definition HOMEKIT_DECLARE_CHARACTERISTIC_BATTERY_LEVEL :: "u32 \<Rightarrow> homekit_characteristic" where
  "HOMEKIT_DECLARE_CHARACTERISTIC_BATTERY_LEVEL x = no_characteristic\<lparr>
     c_type := ''68'', c_description := Some ''Battery Level'',
     c_format := homekit_format_uint8, c_unit := homekit_unit_percentage,
     c_permissions := homekit_permissions_paired_read OR homekit_permissions_notify,
     c_min_value := Some 0, c_max_value := Some 100, c_min_step := Some 1,
     c_value := HOMEKIT_UINT8 (ucast x)\<rparr>"

definition HOMEKIT_DECLARE_CHARACTERISTIC_CONTACT_SENSOR_STATE :: "u32 \<Rightarrow> homekit_characteristic" where
  "HOMEKIT_DECLARE_CHARACTERISTIC_CONTACT_SENSOR_STATE x = no_characteristic\<lparr>
     c_type := ''6A'', c_description := Some ''Contact Sensor State'',
     c_format := homekit_format_uint8,
     c_permissions := homekit_permissions_paired_read OR homekit_permissions_notify,
     c_min_value := Some 0, c_max_value := Some 1, c_min_step := Some 1,
     c_valid_values := [0, 1], c_value := HOMEKIT_UINT8 (ucast x)\<rparr>"

definition HOMEKIT_DECLARE_CHARACTERISTIC_CURRENT_AMBIENT_LIGHT_LEVEL :: "rat \<Rightarrow> homekit_characteristic" where
  "HOMEKIT_DECLARE_CHARACTERISTIC_CURRENT_AMBIENT_LIGHT_LEVEL x = no_characteristic\<lparr>
     c_type := ''6B'', c_description := Some ''Current Ambient Light Level'',
     c_format := homekit_format_float, c_unit := homekit_unit_lux,
     c_permissions := homekit_permissions_paired_read OR homekit_permissions_notify,
     c_min_value := Some (1 / 10000), c_max_value := Some 100000,
     c_value := HOMEKIT_FLOAT x\<rparr>"

definition HOMEKIT_DECLARE_CHARACTERISTIC_CURRENT_HORIZONTAL_TILT_ANGLE :: "u32 \<Rightarrow> homekit_characteristic" where
  "HOMEKIT_DECLARE_CHARACTERISTIC_CURRENT_HORIZONTAL_TILT_ANGLE x = no_characteristic\<lparr>
     c_type := ''6C'', c_description := Some ''Current Horizontal Tilt Angle'',
     c_format := homekit_format_int, c_unit := homekit_unit_arcdegrees,
     c_permissions := homekit_permissions_paired_read OR homekit_permissions_notify,
     c_min_value := Some (- 90), c_max_value := Some 90, c_min_step := Some 1,
     c_value := HOMEKIT_INT x\<rparr>"

definition HOMEKIT_DECLARE_CHARACTERISTIC_CURRENT_POSITION :: "u32 \<Rightarrow> homekit_characteristic" where
  "HOMEKIT_DECLARE_CHARACTERISTIC_CURRENT_POSITION x = no_characteristic\<lparr>
     c_type := ''6D'', c_description := Some ''Current Position'',
     c_format := homekit_format_uint8, c_unit := homekit_unit_percentage,
     c_permissions := homekit_permissions_paired_read OR homekit_permissions_notify,
     c_min_value := Some 0, c_max_value := Some 100, c_min_step := Some 1,
     c_value := HOMEKIT_UINT8 (ucast x)\<rparr>"

definition HOMEKIT_DECLARE_CHARACTERISTIC_CURRENT_VERTICAL_TILT_ANGLE :: "u32 \<Rightarrow> homekit_characteristic" where
  "HOMEKIT_DECLARE_CHARACTERISTIC_CURRENT_VERTICAL_TILT_ANGLE x = no_characteristic\<lparr>
     c_type := ''6E'', c_description := Some ''Current Vertical Tilt Angle'',
     c_format := homekit_format_int, c_unit := homekit_unit_arcdegrees,
     c_permissions := homekit_permissions_paired_read OR homekit_permissions_notify,
     c_min_value := Some (- 90), c_max_value := Some 90, c_min_step := Some 1,
     c_value := HOMEKIT_INT x\<rparr>"

definition HOMEKIT_DECLARE_CHARACTERISTIC_HOLD_POSITION :: "bool \<Rightarrow> homekit_characteristic" where
  "HOMEKIT_DECLARE_CHARACTERISTIC_HOLD_POSITION x = no_characteristic\<lparr>
     c_type := ''6F'', c_description := Some ''Hold Position'', c_format := homekit_format_bool,
     c_permissions := homekit_permissions_paired_write, c_value := HOMEKIT_BOOL x\<rparr>"

definition HOMEKIT_DECLARE_CHARACTERISTIC_LEAK_DETECTED :: "u32 \<Rightarrow> homekit_characteristic" where
  "HOMEKIT_DECLARE_CHARACTERISTIC_LEAK_DETECTED x = no_characteristic\<lparr>
     c_type := ''70'', c_description := Some ''Leak Detected'',
     c_format := homekit_format_uint8,
     c_permissions := homekit_permissions_paired_read OR homekit_permissions_notify,
     c_min_value := Some 0, c_max_value := Some 1, c_min_step := Some 1,
     c_valid_values := [0, 1], c_value := HOMEKIT_UINT8 (ucast x)\<rparr>"

definition HOMEKIT_DECLARE_CHARACTERISTIC_OCCUPANCY_DETECTED :: "u32 \<Rightarrow> homekit_characteristic" where
  "HOMEKIT_DECLARE_CHARACTERISTIC_OCCUPANCY_DETECTED x = no_characteristic\<lparr>
     c_type := ''71'', c_description := Some ''Occupancy Detected'',
     c_format := homekit_format_uint8,
     c_permissions := homekit_permissions_paired_read OR homekit_permissions_notify,
     c_min_value := Some 0, c_max_value := Some 1, c_min_step := Some 1,
     c_valid_values := [0, 1], c_value := HOMEKIT_UINT8 (ucast x)\<rparr>"

definition HOMEKIT_DECLARE_CHARACTERISTIC_POSITION_STATE :: "u32 \<Rightarrow> homekit_characteristic" where
  "HOMEKIT_DECLARE_CHARACTERISTIC_POSITION_STATE x = no_characteristic\<lparr>
     c_type := ''72'', c_description := Some ''Position State'',
     c_format := homekit_format_uint8,
     c_permissions := homekit_permissions_paired_read OR homekit_permissions_notify,
     c_min_value := Some 0, c_max_value := Some 2, c_min_step := Some 1,
     c_valid_values := [0, 1, 2], c_value := HOMEKIT_UINT8 (ucast x)\<rparr>"

definition HOMEKIT_DECLARE_CHARACTERISTIC_PROGRAMMABLE_SWITCH_EVENT :: "u32 \<Rightarrow> homekit_characteristic" where
  "HOMEKIT_DECLARE_CHARACTERISTIC_PROGRAMMABLE_SWITCH_EVENT x = no_characteristic\<lparr>
     c_type := ''73'', c_description := Some ''Programmable Switch Event'',
     c_format := homekit_format_uint8,
     c_permissions := homekit_permissions_paired_read OR homekit_permissions_notify,
     c_min_value := Some 0, c_max_value := Some 2, c_min_step := Some 1,
     c_valid_values := [0, 1, 2], c_value := HOMEKIT_UINT8 (ucast x)\<rparr>"

definition HOMEKIT_DECLARE_CHARACTERISTIC_STATUS_ACTIVE :: "bool \<Rightarrow> homekit_characteristic" where
  "HOMEKIT_DECLARE_CHARACTERISTIC_STATUS_ACTIVE x = no_characteristic\<lparr>
     c_type := ''75'', c_description := Some ''Status Active'', c_format := homekit_format_bool,
     c_permissions := homekit_permissions_paired_read OR homekit_permissions_notify,
     c_value := HOMEKIT_BOOL x\<rparr>"

definition HOMEKIT_DECLARE_CHARACTERISTIC_SMOKE_DETECTED :: "u32 \<Rightarrow> homekit_characteristic" where
  "HOMEKIT_DECLARE_CHARACTERISTIC_SMOKE_DETECTED x = no_characteristic\<lparr>
     c_type := ''76'', c_description := Some ''Smoke Detected'',
     c_format := homekit_format_uint8,
     c_permissions := homekit_permissions_paired_read OR homekit_permissions_notify,
     c_min_value := Some 0, c_max_value := Some 1, c_min_step := Some 1,
     c_valid_values := [0, 1], c_value := HOMEKIT_UINT8 (ucast x)\<rparr>"

definition HOMEKIT_DECLARE_CHARACTERISTIC_STATUS_FAULT :: "u32 \<Rightarrow> homekit_characteristic" where
  "HOMEKIT_DECLARE_CHARACTERISTIC_STATUS_FAULT x = no_characteristic\<lparr>
     c_type := ''77'', c_description := Some ''Status Fault'', c_format := homekit_format_uint8,
     c_permissions := homekit_permissions_paired_read OR homekit_permissions_notify,
     c_min_value := Some 0, c_max_value := Some 1, c_min_step := Some 1,
     c_valid_values := [0, 1], c_value := HOMEKIT_UINT8 (ucast x)\<rparr>"

definition HOMEKIT_DECLARE_CHARACTERISTIC_STATUS_JAMMED :: "u32 \<Rightarrow> homekit_characteristic" where
  "HOMEKIT_DECLARE_CHARACTERISTIC_STATUS_JAMMED x = no_characteristic\<lparr>
     c_type := ''78'', c_description := Some ''Status Jammed'',
     c_format := homekit_format_uint8,
     c_permissions := homekit_permissions_paired_read OR homekit_permissions_notify,
     c_min_value := Some 0, c_max_value := Some 1, c_min_step := Some 1,
     c_valid_values := [0, 1], c_value := HOMEKIT_UINT8 (ucast x)\<rparr>"

definition HOMEKIT_DECLARE_CHARACTERISTIC_STATUS_LOW_BATTERY :: "u32 \<Rightarrow> homekit_characteristic" where
  "HOMEKIT_DECLARE_CHARACTERISTIC_STATUS_LOW_BATTERY x = no_characteristic\<lparr>
     c_type := ''79'', c_description := Some ''Status Low Battery'',
     c_format := homekit_format_uint8,
     c_permissions := homekit_permissions_paired_read OR homekit_permissions_notify,
     c_min_value := Some 0, c_max_value := Some 1, c_min_step := Some 1,
     c_valid_values := [0, 1], c_value := HOMEKIT_UINT8 (ucast x)\<rparr>"

definition HOMEKIT_DECLARE_CHARACTERISTIC_STATUS_TAMPERED :: "u32 \<Rightarrow> homekit_characteristic" where
  "HOMEKIT_DECLARE_CHARACTERISTIC_STATUS_TAMPERED x = no_characteristic\<lparr>
     c_type := ''7A'', c_description := Some ''Status Tampered'',
     c_format := homekit_format_uint8,
     c_permissions := homekit_permissions_paired_read OR homekit_permissions_notify,
     c_min_value := Some 0, c_max_value := Some 1, c_min_step := Some 1,
     c_valid_values := [0, 1], c_value := HOMEKIT_UINT8 (ucast x)\<rparr>"

definition HOMEKIT_DECLARE_CHARACTERISTIC_TARGET_HORIZONTAL_TILT_ANGLE :: "u32 \<Rightarrow> homekit_characteristic" where
  "HOMEKIT_DECLARE_CHARACTERISTIC_TARGET_HORIZONTAL_TILT_ANGLE x = no_characteristic\<lparr>
     c_type := ''7B'', c_description := Some ''Target Horizontal Tilt Angle'',
     c_format := homekit_format_int, c_unit := homekit_unit_arcdegrees,
     c_permissions := homekit_permissions_paired_read OR homekit_permissions_paired_write OR homekit_permissions_notify,
     c_min_value := Some (- 90), c_max_value := Some 90, c_min_step := Some 1,
     c_value := HOMEKIT_INT x\<rparr>"

definition HOMEKIT_DECLARE_CHARACTERISTIC_TARGET_POSITION :: "u32 \<Rightarrow> homekit_characteristic" where
  "HOMEKIT_DECLARE_CHARACTERISTIC_TARGET_POSITION x = no_characteristic\<lparr>
     c_type := ''7C'', c_description := Some ''Target Position'',
     c_format := homekit_format_uint8, c_unit := homekit_unit_percentage,
     c_permissions := homekit_permissions_paired_read OR homekit_permissions_paired_write OR homekit_permissions_notify,
     c_min_value := Some 0, c_max_value := Some 100, c_min_step := Some 1,
     c_value := HOMEKIT_UINT8 (ucast x)\<rparr>"

definition HOMEKIT_DECLARE_CHARACTERISTIC_TARGET_VERTICAL_TILT_ANGLE :: "u32 \<Rightarrow> homekit_characteristic" where
  "HOMEKIT_DECLARE_CHARACTERISTIC_TARGET_VERTICAL_TILT_ANGLE x = no_characteristic\<lparr>
     c_type := ''7D'', c_description := Some ''Target Vertical Tilt Angle'',
     c_format := homekit_format_int, c_unit := homekit_unit_arcdegrees,
     c_permissions := homekit_permissions_paired_read OR homekit_permissions_paired_write OR homekit_permissions_notify,
     c_min_value := Some (- 90), c_max_value := Some 90, c_min_step := Some 1,
     c_value := HOMEKIT_UINT8 (ucast x)\<rparr>"

definition HOMEKIT_DECLARE_CHARACTERISTIC_SECURITY_SYSTEM_ALARM_TYPE :: "u32 \<Rightarrow> homekit_characteristic" where
  "HOMEKIT_DECLARE_CHARACTERISTIC_SECURITY_SYSTEM_ALARM_TYPE x = no_characteristic\<lparr>
     c_type := ''8E'', c_description := Some ''Security System Alarm Type'',
     c_format := homekit_format_uint8,
     c_permissions := homekit_permissions_paired_read OR homekit_permissions_notify,
     c_min_value := Some 0, c_max_value := Some 1, c_min_step := Some 1,
     c_value := HOMEKIT_UINT8 (ucast x)\<rparr>"

definition HOMEKIT_DECLARE_CHARACTERISTIC_CHARGING_STATE :: "u32 \<Rightarrow> homekit_characteristic" where
  "HOMEKIT_DECLARE_CHARACTERISTIC_CHARGING_STATE x = no_characteristic\<lparr>
     c_type := ''8F'', c_description := Some ''Charging State'',
     c_format := homekit_format_uint8,
     c_permissions := homekit_permissions_paired_read OR homekit_permissions_notify,
     c_min_value := Some 0, c_max_value := Some 2, c_min_step := Some 1,
     c_valid_values := [0, 1, 2], c_value := HOMEKIT_UINT8 (ucast x)\<rparr>"

definition HOMEKIT_DECLARE_CHARACTERISTIC_CARBON_MONOXIDE_DETECTED :: "u32 \<Rightarrow> homekit_characteristic" where
  "HOMEKIT_DECLARE_CHARACTERISTIC_CARBON_MONOXIDE_DETECTED x = no_characteristic\<lparr>
     c_type := ''69'', c_description := Some ''Carbon Monoxide Detected'',
     c_format := homekit_format_uint8,
     c_permissions := homekit_permissions_paired_read OR homekit_permissions_notify,
     c_min_value := Some 0, c_max_value := Some 1, c_min_step := Some 1,
     c_valid_values := [0, 1], c_value := HOMEKIT_UINT8 (ucast x)\<rparr>"

definition HOMEKIT_DECLARE_CHARACTERISTIC_CARBON_MONOXIDE_LEVEL :: "rat \<Rightarrow> homekit_characteristic" where
  "HOMEKIT_DECLARE_CHARACTERISTIC_CARBON_MONOXIDE_LEVEL x = no_characteristic\<lparr>
     c_type := ''90'', c_description := Some ''Carbon Monoxide Level'',
     c_format := homekit_format_float,
     c_permissions := homekit_permissions_paired_read OR homekit_permissions_notify,
     c_min_value := Some 0, c_max_value := Some 100, c_value := HOMEKIT_FLOAT x\<rparr>"

definition HOMEKIT_DECLARE_CHARACTERISTIC_CARBON_MONOXIDE_PEAK_LEVEL :: "rat \<Rightarrow> homekit_characteristic" where
  "HOMEKIT_DECLARE_CHARACTERISTIC_CARBON_MONOXIDE_PEAK_LEVEL x = no_characteristic\<lparr>
     c_type := ''91'', c_description := Some ''Carbon Monoxide Peak Level'',
     c_format := homekit_format_float,
     c_permissions := homekit_permissions_paired_read OR homekit_permissions_notify,
     c_min_value := Some 0, c_max_value := Some 100, c_value := HOMEKIT_FLOAT x\<rparr>"

definition HOMEKIT_DECLARE_CHARACTERISTIC_CARBON_DIOXIDE_DETECTED :: "u32 \<Rightarrow> homekit_characteristic" where
  "HOMEKIT_DECLARE_CHARACTERISTIC_CARBON_DIOXIDE_DETECTED x = no_characteristic\<lparr>
     c_type := ''92'', c_description := Some ''Carbon Dioxide Detected'',
     c_format := homekit_format_uint8,
     c_permissions := homekit_permissions_paired_read OR homekit_permissions_notify,
     c_min_value := Some 0, c_max_value := Some 1, c_min_step := Some 1,
     c_valid_values := [0, 1], c_value := HOMEKIT_UINT8 (ucast x)\<rparr>"

definition HOMEKIT_DECLARE_CHARACTERISTIC_CARBON_DIOXIDE_LEVEL :: "rat \<Rightarrow> homekit_characteristic" where
  "HOMEKIT_DECLARE_CHARACTERISTIC_CARBON_DIOXIDE_LEVEL x = no_characteristic\<lparr>
     c_type := ''93'', c_description := Some ''Carbon Dioxide Level'',
     c_format := homekit_format_float,
     c_permissions := homekit_permissions_paired_read OR homekit_permissions_notify,
     c_min_value := Some 0, c_max_value := Some 100000, c_value := HOMEKIT_FLOAT x\<rparr>"

definition HOMEKIT_DECLARE_CHARACTERISTIC_CARBON_DIOXIDE_PEAK_LEVEL :: "rat \<Rightarrow> homekit_characteristic" where
  "HOMEKIT_DECLARE_CHARACTERISTIC_CARBON_DIOXIDE_PEAK_LEVEL x = no_characteristic\<lparr>
     c_type := ''94'', c_description := Some ''Carbon Dioxide Peak Level'',
     c_format := homekit_format_float,
     c_permissions := homekit_permissions_paired_read OR homekit_permissions_notify,
     c_min_value := Some 0, c_max_value := Some 100000, c_value := HOMEKIT_FLOAT x\<rparr>"

definition HOMEKIT_DECLARE_CHARACTERISTIC_AIR_QUALITY :: "u32 \<Rightarrow> homekit_characteristic" where
  "HOMEKIT_DECLARE_CHARACTERISTIC_AIR_QUALITY x = no_characteristic\<lparr>
     c_type := ''95'', c_description := Some ''Air Quality'', c_format := homekit_format_uint8,
     c_permissions := homekit_permissions_paired_read OR homekit_permissions_notify,
     c_min_value := Some 0, c_max_value := Some 5, c_min_step := Some 1,
     c_valid_values := [0, 1, 2, 3, 4, 5], c_value := HOMEKIT_UINT8 (ucast x)\<rparr>"

definition HOMEKIT_DECLARE_CHARACTERISTIC_STREAMING_STATUS :: homekit_characteristic where
  "HOMEKIT_DECLARE_CHARACTERISTIC_STREAMING_STATUS = no_characteristic\<lparr>
     c_type := ''120'', c_description := Some ''Streaming Status'',
     c_format := homekit_format_tlv,
     c_permissions := homekit_permissions_paired_read OR homekit_permissions_notify\<rparr>"

definition HOMEKIT_DECLARE_CHARACTERISTIC_SUPPORTED_VIDEO_STREAM_CONFIGURATION :: homekit_characteristic where
  "HOMEKIT_DECLARE_CHARACTERISTIC_SUPPORTED_VIDEO_STREAM_CONFIGURATION = no_characteristic\<lparr>
     c_type := ''114'', c_description := Some ''Supported Video Stream Configuration'',
     c_format := homekit_format_tlv, c_permissions := homekit_permissions_paired_read\<rparr>"

definition HOMEKIT_DECLARE_CHARACTERISTIC_SUPPORTED_AUDIO_STREAM_CONFIGURATION :: homekit_characteristic where
  "HOMEKIT_DECLARE_CHARACTERISTIC_SUPPORTED_AUDIO_STREAM_CONFIGURATION = no_characteristic\<lparr>
     c_type := ''115'', c_description := Some ''Supported Audio Stream Configuration'',
     c_format := homekit_format_tlv, c_permissions := homekit_permissions_paired_read\<rparr>"

definition HOMEKIT_DECLARE_CHARACTERISTIC_SUPPORTED_RTP_CONFIGURATION :: homekit_characteristic where
  "HOMEKIT_DECLARE_CHARACTERISTIC_SUPPORTED_RTP_CONFIGURATION = no_characteristic\<lparr>
     c_type := ''116'', c_description := Some ''Supported RTP Configuration'',
     c_format := homekit_format_tlv, c_permissions := homekit_permissions_paired_read\<rparr>"

definition HOMEKIT_DECLARE_CHARACTERISTIC_SETUP_ENDPOINTS :: homekit_characteristic where
  "HOMEKIT_DECLARE_CHARACTERISTIC_SETUP_ENDPOINTS = no_characteristic\<lparr>
     c_type := ''118'', c_description := Some ''Setup Endpoints'',
     c_format := homekit_format_tlv,
     c_permissions := homekit_permissions_paired_read OR homekit_permissions_paired_write\<rparr>"

definition HOMEKIT_DECLARE_CHARACTERISTIC_SELECTED_RTP_STREAM_CONFIGURATION :: homekit_characteristic where
  "HOMEKIT_DECLARE_CHARACTERISTIC_SELECTED_RTP_STREAM_CONFIGURATION = no_characteristic\<lparr>
     c_type := ''117'', c_description := Some ''Selected RTP Stream Configuration'',
     c_format := homekit_format_tlv,
     c_permissions := homekit_permissions_paired_read OR homekit_permissions_paired_write\<rparr>"

definition HOMEKIT_DECLARE_CHARACTERISTIC_VOLUME :: "u32 \<Rightarrow> homekit_characteristic" where
  "HOMEKIT_DECLARE_CHARACTERISTIC_VOLUME x = no_characteristic\<lparr>
     c_type := ''119'', c_description := Some ''Volume'', c_format := homekit_format_uint8,
     c_unit := homekit_unit_percentage,
     c_permissions := homekit_permissions_paired_read OR homekit_permissions_paired_write OR homekit_permissions_notify,
     c_min_value := Some 0, c_max_value := Some 100, c_min_step := Some 1,
     c_value := HOMEKIT_UINT8 (ucast x)\<rparr>"

definition HOMEKIT_DECLARE_CHARACTERISTIC_MUTE :: "bool \<Rightarrow> homekit_characteristic" where
  "HOMEKIT_DECLARE_CHARACTERISTIC_MUTE x = no_characteristic\<lparr>
     c_type := ''11A'', c_description := Some ''Mute'', c_format := homekit_format_bool,
     c_permissions := homekit_permissions_paired_read OR homekit_permissions_paired_write OR homekit_permissions_notify,
     c_value := HOMEKIT_BOOL x\<rparr>"

definition HOMEKIT_DECLARE_CHARACTERISTIC_NIGHT_VISION :: "bool \<Rightarrow> homekit_characteristic" where
  "HOMEKIT_DECLARE_CHARACTERISTIC_NIGHT_VISION x = no_characteristic\<lparr>
     c_type := ''11B'', c_description := Some ''Night Vision'', c_format := homekit_format_bool,
     c_permissions := homekit_permissions_paired_read OR homekit_permissions_paired_write OR homekit_permissions_notify,
     c_value := HOMEKIT_BOOL x\<rparr>"

definition HOMEKIT_DECLARE_CHARACTERISTIC_OPTICAL_ZOOM :: "rat \<Rightarrow> homekit_characteristic" where
  "HOMEKIT_DECLARE_CHARACTERISTIC_OPTICAL_ZOOM x = no_characteristic\<lparr>
     c_type := ''11C'', c_description := Some ''Optical Zoom'',
     c_format := homekit_format_float,
     c_permissions := homekit_permissions_paired_read OR homekit_permissions_paired_write OR homekit_permissions_notify,
     c_value := HOMEKIT_FLOAT x\<rparr>"

definition HOMEKIT_DECLARE_CHARACTERISTIC_DIGITAL_ZOOM :: "rat \<Rightarrow> homekit_characteristic" where
  "HOMEKIT_DECLARE_CHARACTERISTIC_DIGITAL_ZOOM x = no_characteristic\<lparr>
     c_type := ''11D'', c_description := Some ''Digital Zoom'',
     c_format := homekit_format_float,
     c_permissions := homekit_permissions_paired_read OR homekit_permissions_paired_write OR homekit_permissions_notify,
     c_value := HOMEKIT_FLOAT x\<rparr>"

definition HOMEKIT_DECLARE_CHARACTERISTIC_IMAGE_ROTATION :: "rat \<Rightarrow> homekit_characteristic" where
  "HOMEKIT_DECLARE_CHARACTERISTIC_IMAGE_ROTATION x = no_characteristic\<lparr>
     c_type := ''11E'', c_description := Some ''Image Rotation'',
     c_format := homekit_format_float,
     c_permissions := homekit_permissions_paired_read OR homekit_permissions_paired_write OR homekit_permissions_notify,
     c_valid_values := [0, 90, 180, 270], c_value := HOMEKIT_FLOAT x\<rparr>"

definition HOMEKIT_DECLARE_CHARACTERISTIC_IMAGE_MIRRORING :: "bool \<Rightarrow> homekit_characteristic" where
  "HOMEKIT_DECLARE_CHARACTERISTIC_IMAGE_MIRRORING x = no_characteristic\<lparr>
     c_type := ''11F'', c_description := Some ''Image Mirroring'',
     c_format := homekit_format_bool,
     c_permissions := homekit_permissions_paired_read OR homekit_permissions_paired_write OR homekit_permissions_notify,
     c_value := HOMEKIT_BOOL x\<rparr>"

definition HOMEKIT_DECLARE_CHARACTERISTIC_ACCESSORY_FLAGS :: "u32 \<Rightarrow> homekit_characteristic" where
  "HOMEKIT_DECLARE_CHARACTERISTIC_ACCESSORY_FLAGS x = no_characteristic\<lparr>
     c_type := ''A6'', c_description := Some ''Accessory Flags'',
     c_format := homekit_format_uint32,
     c_permissions := homekit_permissions_paired_read OR homekit_permissions_notify,
     c_valid_values := [0, 1], c_value := HOMEKIT_UINT32 x\<rparr>"

definition HOMEKIT_DECLARE_CHARACTERISTIC_LOCK_PHYSICAL_CONTROLS :: "u32 \<Rightarrow> homekit_characteristic" where
  "HOMEKIT_DECLARE_CHARACTERISTIC_LOCK_PHYSICAL_CONTROLS x = no_characteristic\<lparr>
     c_type := ''A7'', c_description := Some ''Lock Physical Controls'',
     c_format := homekit_format_uint8,
     c_permissions := homekit_permissions_paired_read OR homekit_permissions_paired_write OR homekit_permissions_notify,
     c_min_value := Some 0, c_max_value := Some 1, c_min_step := Some 1,
     c_valid_values := [0, 1], c_value := HOMEKIT_UINT8 (ucast x)\<rparr>"

definition HOMEKIT_DECLARE_CHARACTERISTIC_CURRENT_AIR_PURIFIER_STATE :: "u32 \<Rightarrow> homekit_characteristic" where
  "HOMEKIT_DECLARE_CHARACTERISTIC_CURRENT_AIR_PURIFIER_STATE x = no_characteristic\<lparr>
     c_type := ''A9'', c_description := Some ''Current Air Purifier State'',
     c_format := homekit_format_uint8,
     c_permissions := homekit_permissions_paired_read OR homekit_permissions_notify,
     c_min_value := Some 0, c_max_value := Some 2, c_min_step := Some 1,
     c_valid_values := [0, 1, 2], c_value := HOMEKIT_UINT8 (ucast x)\<rparr>"

definition HOMEKIT_DECLARE_CHARACTERISTIC_CURRENT_SLAT_STATE :: "u32 \<Rightarrow> homekit_characteristic" where
  "HOMEKIT_DECLARE_CHARACTERISTIC_CURRENT_SLAT_STATE x = no_characteristic\<lparr>
     c_type := ''AA'', c_description := Some ''Current Slat State'',
     c_format := homekit_format_uint8,
     c_permissions := homekit_permissions_paired_read OR homekit_permissions_notify,
     c_min_value := Some 0, c_max_value := Some 2, c_min_step := Some 1,
     c_valid_values := [0, 1, 2], c_value := HOMEKIT_UINT8 (ucast x)\<rparr>"

definition HOMEKIT_DECLARE_CHARACTERISTIC_SLAT_TYPE :: "u32 \<Rightarrow> homekit_characteristic" where
  "HOMEKIT_DECLARE_CHARACTERISTIC_SLAT_TYPE x = no_characteristic\<lparr>
     c_type := ''C0'', c_description := Some ''Slat Type'', c_format := homekit_format_uint8,
     c_permissions := homekit_permissions_paired_read, c_min_value := Some 0,
     c_max_value := Some 1, c_min_step := Some 1, c_value := HOMEKIT_UINT8 (ucast x)\<rparr>"

definition HOMEKIT_DECLARE_CHARACTERISTIC_FILTER_LIFE_LEVEL :: "rat \<Rightarrow> homekit_characteristic" where
  "HOMEKIT_DECLARE_CHARACTERISTIC_FILTER_LIFE_LEVEL x = no_characteristic\<lparr>
     c_type := ''AB'', c_description := Some ''Filter Life Level'',
     c_format := homekit_format_float,
     c_permissions := homekit_permissions_paired_read OR homekit_permissions_notify,
     c_min_value := Some 0, c_max_value := Some 100, c_min_step := Some 1,
     c_value := HOMEKIT_FLOAT x\<rparr>"

definition HOMEKIT_DECLARE_CHARACTERISTIC_FILTER_CHANGE_INDICATION :: "u32 \<Rightarrow> homekit_characteristic" where
  "HOMEKIT_DECLARE_CHARACTERISTIC_FILTER_CHANGE_INDICATION x = no_characteristic\<lparr>
     c_type := ''AC'', c_description := Some ''Filter Change Indication'',
     c_format := homekit_format_uint8,
     c_permissions := homekit_permissions_paired_read OR homekit_permissions_notify,
     c_min_value := Some 0, c_max_value := Some 1, c_min_step := Some 1,
     c_valid_values := [0, 1], c_value := HOMEKIT_UINT8 (ucast x)\<rparr>"

definition HOMEKIT_DECLARE_CHARACTERISTIC_RESET_FILTER_INDICATION :: "u32 \<Rightarrow> homekit_characteristic" where
  "HOMEKIT_DECLARE_CHARACTERISTIC_RESET_FILTER_INDICATION x = no_characteristic\<lparr>
     c_type := ''AD'', c_description := Some ''Reset Filter Indication'',
     c_format := homekit_format_uint8,
     c_permissions := homekit_permissions_paired_read OR homekit_permissions_paired_write OR homekit_permissions_notify,
     c_min_value := Some 1, c_max_value := Some 1, c_value := HOMEKIT_UINT8 (ucast x)\<rparr>"

definition HOMEKIT_DECLARE_CHARACTERISTIC_TARGET_AIR_PURIFIER_STATE :: "u32 \<Rightarrow> homekit_characteristic" where
  "HOMEKIT_DECLARE_CHARACTERISTIC_TARGET_AIR_PURIFIER_STATE x = no_characteristic\<lparr>
     c_type := ''A8'', c_description := Some ''Target Air Purifier State'',
     c_format := homekit_format_uint8,
     c_permissions := homekit_permissions_paired_read OR homekit_permissions_paired_write OR homekit_permissions_notify,
     c_min_value := Some 0, c_max_value := Some 1, c_min_step := Some 1,
     c_valid_values := [0, 1], c_value := HOMEKIT_UINT8 (ucast x)\<rparr>"

definition HOMEKIT_DECLARE_CHARACTERISTIC_TARGET_FAN_STATE :: "u32 \<Rightarrow> homekit_characteristic" where
  "HOMEKIT_DECLARE_CHARACTERISTIC_TARGET_FAN_STATE x = no_characteristic\<lparr>
     c_type := ''BF'', c_description := Some ''Target Fan State'',
     c_format := homekit_format_uint8,
     c_permissions := homekit_permissions_paired_read OR homekit_permissions_paired_write OR homekit_permissions_notify,
     c_min_value := Some 0, c_max_value := Some 1, c_min_step := Some 1,
     c_valid_values := [0, 1], c_value := HOMEKIT_UINT8 (ucast x)\<rparr>"

definition HOMEKIT_DECLARE_CHARACTERISTIC_CURRENT_FAN_STATE :: "u32 \<Rightarrow> homekit_characteristic" where
  "HOMEKIT_DECLARE_CHARACTERISTIC_CURRENT_FAN_STATE x = no_characteristic\<lparr>
     c_type := ''AF'', c_description := Some ''Current Fan State'',
     c_format := homekit_format_uint8,
     c_permissions := homekit_permissions_paired_read OR homekit_permissions_notify,
     c_min_value := Some 0, c_max_value := Some 2, c_min_step := Some 1,
     c_valid_values := [0, 1, 2], c_value := HOMEKIT_UINT8 (ucast x)\<rparr>"

definition HOMEKIT_DECLARE_CHARACTERISTIC_ACTIVE :: "u32 \<Rightarrow> homekit_characteristic" where
  "HOMEKIT_DECLARE_CHARACTERISTIC_ACTIVE x = no_characteristic\<lparr>
     c_type := ''B0'', c_description := Some ''Active'', c_format := homekit_format_uint8,
     c_permissions := homekit_permissions_paired_read OR homekit_permissions_paired_write OR homekit_permissions_notify,
     c_min_value := Some 0, c_max_value := Some 1, c_valid_values := [0, 1],
     c_value := HOMEKIT_UINT8 (ucast x)\<rparr>"

definition HOMEKIT_DECLARE_CHARACTERISTIC_SWING_MODE :: "u32 \<Rightarrow> homekit_characteristic" where
  "HOMEKIT_DECLARE_CHARACTERISTIC_SWING_MODE x = no_characteristic\<lparr>
     c_type := ''B6'', c_description := Some ''Swing Mode'', c_format := homekit_format_uint8,
     c_permissions := homekit_permissions_paired_read OR homekit_permissions_paired_write OR homekit_permissions_notify,
     c_min_value := Some 0, c_max_value := Some 1, c_min_step := Some 1,
     c_valid_values := [0, 1], c_value := HOMEKIT_UINT8 (ucast x)\<rparr>"

definition HOMEKIT_DECLARE_CHARACTERISTIC_CURRENT_TILT_ANGLE :: "u32 \<Rightarrow> homekit_characteristic" where
  "HOMEKIT_DECLARE_CHARACTERISTIC_CURRENT_TILT_ANGLE x = no_characteristic\<lparr>
     c_type := ''C1'', c_description := Some ''Current Tilt Angle'',
     c_format := homekit_format_int, c_unit := homekit_unit_arcdegrees,
     c_permissions := homekit_permissions_paired_read OR homekit_permissions_notify,
     c_min_value := Some (- 90), c_max_value := Some 90, c_min_step := Some 1,
     c_value := HOMEKIT_INT x\<rparr>"

definition HOMEKIT_DECLARE_CHARACTERISTIC_TARGET_TILT_ANGLE :: "u32 \<Rightarrow> homekit_characteristic" where
  "HOMEKIT_DECLARE_CHARACTERISTIC_TARGET_TILT_ANGLE x = no_characteristic\<lparr>
     c_type := ''C2'', c_description := Some ''Target Tilt Angle'',
     c_format := homekit_format_int, c_unit := homekit_unit_arcdegrees,
     c_permissions := homekit_permissions_paired_read OR homekit_permissions_paired_write OR homekit_permissions_notify,
     c_min_value := Some (- 90), c_max_value := Some 90, c_min_step := Some 1,
     c_value := HOMEKIT_INT x\<rparr>"

definition HOMEKIT_DECLARE_CHARACTERISTIC_OZONE_DENSITY :: "rat \<Rightarrow> homekit_characteristic" where
  "HOMEKIT_DECLARE_CHARACTERISTIC_OZONE_DENSITY x = no_characteristic\<lparr>
     c_type := ''C3'', c_description := Some ''Ozone Density'',
     c_format := homekit_format_float,
     c_permissions := homekit_permissions_paired_read OR homekit_permissions_notify,
     c_min_value := Some 0, c_max_value := Some 1000, c_value := HOMEKIT_FLOAT x\<rparr>"

definition HOMEKIT_DECLARE_CHARACTERISTIC_NITROGEN_DIOXIDE_DENSITY :: "rat \<Rightarrow> homekit_characteristic" where
  "HOMEKIT_DECLARE_CHARACTERISTIC_NITROGEN_DIOXIDE_DENSITY x = no_characteristic\<lparr>
     c_type := ''C4'', c_description := Some ''Nitrogen Dioxide Density'',
     c_format := homekit_format_float,
     c_permissions := homekit_permissions_paired_read OR homekit_permissions_notify,
     c_min_value := Some 0, c_max_value := Some 1000, c_value := HOMEKIT_FLOAT x\<rparr>"

definition HOMEKIT_DECLARE_CHARACTERISTIC_SULPHUR_DIOXIDE_DENSITY :: "rat \<Rightarrow> homekit_characteristic" where
  "HOMEKIT_DECLARE_CHARACTERISTIC_SULPHUR_DIOXIDE_DENSITY x = no_characteristic\<lparr>
     c_type := ''C5'', c_description := Some ''Sulphur Dioxide Density'',
     c_format := homekit_format_float,
     c_permissions := homekit_permissions_paired_read OR homekit_permissions_notify,
     c_min_value := Some 0, c_max_value := Some 1000, c_value := HOMEKIT_FLOAT x\<rparr>"

definition HOMEKIT_DECLARE_CHARACTERISTIC_PM25_DENSITY :: "rat \<Rightarrow> homekit_characteristic" where
  "HOMEKIT_DECLARE_CHARACTERISTIC_PM25_DENSITY x = no_characteristic\<lparr>
     c_type := ''C6'', c_description := Some ''PM25 Density'', c_format := homekit_format_float,
     c_permissions := homekit_permissions_paired_read OR homekit_permissions_notify,
     c_min_value := Some 0, c_max_value := Some 1000, c_value := HOMEKIT_FLOAT x\<rparr>"

definition HOMEKIT_DECLARE_CHARACTERISTIC_PM10_DENSITY :: "rat \<Rightarrow> homekit_characteristic" where
  "HOMEKIT_DECLARE_CHARACTERISTIC_PM10_DENSITY x = no_characteristic\<lparr>
     c_type := ''C7'', c_description := Some ''PM10 Density'', c_format := homekit_format_float,
     c_permissions := homekit_permissions_paired_read OR homekit_permissions_notify,
     c_min_value := Some 0, c_max_value := Some 1000, c_value := HOMEKIT_FLOAT x\<rparr>"

definition HOMEKIT_DECLARE_CHARACTERISTIC_VOC_DENSITY :: "rat \<Rightarrow> homekit_characteristic" where
  "HOMEKIT_DECLARE_CHARACTERISTIC_VOC_DENSITY x = no_characteristic\<lparr>
     c_type := ''C8'', c_description := Some ''VOC Density'', c_format := homekit_format_float,
     c_permissions := homekit_permissions_paired_read OR homekit_permissions_notify,
     c_min_value := Some 0, c_max_value := Some 1000, c_value := HOMEKIT_FLOAT x\<rparr>"

definition HOMEKIT_DECLARE_CHARACTERISTIC_SERVICE_LABEL_INDEX :: "u32 \<Rightarrow> homekit_characteristic" where
  "HOMEKIT_DECLARE_CHARACTERISTIC_SERVICE_LABEL_INDEX x = no_characteristic\<lparr>
     c_type := ''CB'', c_description := Some ''Service Label Index'',
     c_format := homekit_format_uint8, c_permissions := homekit_permissions_paired_read,
     c_min_value := Some 1, c_min_step := Some 1, c_value := HOMEKIT_UINT8 (ucast x)\<rparr>"

definition HOMEKIT_DECLARE_CHARACTERISTIC_SERVICE_LABEL_NAMESPACE :: "u32 \<Rightarrow> homekit_characteristic" where
  "HOMEKIT_DECLARE_CHARACTERISTIC_SERVICE_LABEL_NAMESPACE x = no_characteristic\<lparr>
     c_type := ''CD'', c_description := Some ''Service Label Namespace'',
     c_format := homekit_format_uint8, c_permissions := homekit_permissions_paired_read,
     c_min_value := Some 0, c_max_value := Some 1, c_min_step := Some 1,
     c_valid_values := [0, 1], c_value := HOMEKIT_UINT8 (ucast x)\<rparr>"

definition HOMEKIT_DECLARE_CHARACTERISTIC_COLOR_TEMPERATURE :: "u32 \<Rightarrow> homekit_characteristic" where
  "HOMEKIT_DECLARE_CHARACTERISTIC_COLOR_TEMPERATURE x = no_characteristic\<lparr>
     c_type := ''CE'', c_description := Some ''Color Temperature'',
     c_format := homekit_format_uint32,
     c_permissions := homekit_permissions_paired_read OR homekit_permissions_paired_write OR homekit_permissions_notify,
     c_min_value := Some 50, c_max_value := Some 400, c_min_step := Some 1,
     c_value := HOMEKIT_UINT32 x\<rparr>"

definition HOMEKIT_DECLARE_CHARACTERISTIC_IN_USE :: "u32 \<Rightarrow> homekit_characteristic" where
  "HOMEKIT_DECLARE_CHARACTERISTIC_IN_USE x = no_characteristic\<lparr>
     c_type := ''D2'', c_description := Some ''In Use'', c_format := homekit_format_uint8,
     c_permissions := homekit_permissions_paired_read OR homekit_permissions_notify,
     c_min_value := Some 0, c_max_value := Some 1, c_min_step := Some 1,
     c_valid_values := [0, 1], c_value := HOMEKIT_UINT8 (ucast x)\<rparr>"

definition HOMEKIT_DECLARE_CHARACTERISTIC_IS_CONFIGURED :: "u32 \<Rightarrow> homekit_characteristic" where
  "HOMEKIT_DECLARE_CHARACTERISTIC_IS_CONFIGURED x = no_characteristic\<lparr>
     c_type := ''D6'', c_description := Some ''Is Configured'',
     c_format := homekit_format_uint8,
     c_permissions := homekit_permissions_paired_read OR homekit_permissions_paired_write OR homekit_permissions_notify,
     c_min_value := Some 0, c_max_value := Some 1, c_valid_values := [0, 1],
     c_value := HOMEKIT_UINT8 (ucast x)\<rparr>"

definition HOMEKIT_DECLARE_CHARACTERISTIC_PROGRAM_MODE :: "u32 \<Rightarrow> homekit_characteristic" where
  "HOMEKIT_DECLARE_CHARACTERISTIC_PROGRAM_MODE x = no_characteristic\<lparr>
     c_type := ''D1'', c_description := Some ''Program Mode'', c_format := homekit_format_uint8,
     c_permissions := homekit_permissions_paired_read OR homekit_permissions_notify,
     c_min_value := Some 0, c_max_value := Some 2, c_min_step := Some 1,
     c_valid_values := [0, 1, 2], c_value := HOMEKIT_UINT8 (ucast x)\<rparr>"

definition HOMEKIT_DECLARE_CHARACTERISTIC_REMAINING_DURATION :: "u32 \<Rightarrow> homekit_characteristic" where
  "HOMEKIT_DECLARE_CHARACTERISTIC_REMAINING_DURATION x = no_characteristic\<lparr>
     c_type := ''D4'', c_description := Some ''Remaining Duration'',
     c_format := homekit_format_uint32,
     c_permissions := homekit_permissions_paired_read OR homekit_permissions_notify,
     c_min_value := Some 0, c_max_value := Some 3600, c_min_step := Some 1,
     c_value := HOMEKIT_UINT32 x\<rparr>"

definition HOMEKIT_DECLARE_CHARACTERISTIC_SET_DURATION :: "u32 \<Rightarrow> homekit_characteristic" where
  "HOMEKIT_DECLARE_CHARACTERISTIC_SET_DURATION x = no_characteristic\<lparr>
     c_type := ''D3'', c_description := Some ''Remaining Duration'',
     c_format := homekit_format_uint32,
     c_permissions := homekit_permissions_paired_read OR homekit_permissions_paired_write OR homekit_permissions_notify,
     c_min_value := Some 0, c_max_value := Some 3600, c_min_step := Some 1,
     c_value := HOMEKIT_UINT32 x\<rparr>"

definition HOMEKIT_DECLARE_CHARACTERISTIC_VALVE_TYPE :: "u32 \<Rightarrow> homekit_characteristic" where
  "HOMEKIT_DECLARE_CHARACTERISTIC_VALVE_TYPE x = no_characteristic\<lparr>
     c_type := ''D5'', c_description := Some ''Valve Type'', c_format := homekit_format_uint8,
     c_permissions := homekit_permissions_paired_read OR homekit_permissions_notify,
     c_min_value := Some 0, c_max_value := Some 3, c_min_step := Some 1,
     c_valid_values := [0, 1, 2, 3], c_value := HOMEKIT_UINT8 (ucast x)\<rparr>"

definition HOMEKIT_DECLARE_CHARACTERISTIC_CURRENT_HEATER_COOLER_STATE :: "u32 \<Rightarrow> homekit_characteristic" where
  "HOMEKIT_DECLARE_CHARACTERISTIC_CURRENT_HEATER_COOLER_STATE x = no_characteristic\<lparr>
     c_type := ''B1'', c_description := Some ''Current Heater Cooler State'',
     c_format := homekit_format_uint8,
     c_permissions := homekit_permissions_paired_read OR homekit_permissions_notify,
     c_min_value := Some 0, c_max_value := Some 3, c_min_step := Some 1,
     c_valid_values := [0, 1, 2, 3], c_value := HOMEKIT_UINT8 (ucast x)\<rparr>"

definition HOMEKIT_DECLARE_CHARACTERISTIC_TARGET_HEATER_COOLER_STATE :: "u32 \<Rightarrow> homekit_characteristic" where
  "HOMEKIT_DECLARE_CHARACTERISTIC_TARGET_HEATER_COOLER_STATE x = no_characteristic\<lparr>
     c_type := ''B2'', c_description := Some ''Target Heater Cooler State'',
     c_format := homekit_format_uint8,
     c_permissions := homekit_permissions_paired_read OR homekit_permissions_paired_write OR homekit_permissions_notify,
     c_min_value := Some 0, c_max_value := Some 2, c_min_step := Some 1,
     c_valid_values := [0, 1, 2], c_value := HOMEKIT_UINT8 (ucast x)\<rparr>"

definition HOMEKIT_DECLARE_CHARACTERISTIC_CURRENT_HUMIDIFIER_DEHUMIDIFIER_STATE :: "u32 \<Rightarrow> homekit_characteristic" where
  "HOMEKIT_DECLARE_CHARACTERISTIC_CURRENT_HUMIDIFIER_DEHUMIDIFIER_STATE x = no_characteristic\<lparr>
     c_type := ''B3'', c_description := Some ''Current Humidifier Dehumidifier State'',
     c_format := homekit_format_uint8,
     c_permissions := homekit_permissions_paired_read OR homekit_permissions_notify,
     c_min_value := Some 0, c_max_value := Some 3, c_min_step := Some 1,
     c_valid_values := [0, 1, 2, 3], c_value := HOMEKIT_UINT8 (ucast x)\<rparr>"

definition HOMEKIT_DECLARE_CHARACTERISTIC_TARGET_HUMIDIFIER_DEHUMIDIFIER_STATE :: "u32 \<Rightarrow> homekit_characteristic" where
  "HOMEKIT_DECLARE_CHARACTERISTIC_TARGET_HUMIDIFIER_DEHUMIDIFIER_STATE x = no_characteristic\<lparr>
     c_type := ''B4'', c_description := Some ''Target Humidifier Dehumidifier State'',
     c_format := homekit_format_uint8,
     c_permissions := homekit_permissions_paired_read OR homekit_permissions_paired_write OR homekit_permissions_notify,
     c_min_value := Some 0, c_max_value := Some 2, c_min_step := Some 1,
     c_valid_values := [0, 1, 2], c_value := HOMEKIT_UINT8 (ucast x)\<rparr>"

definition HOMEKIT_DECLARE_CHARACTERISTIC_WATER_LEVEL :: "rat \<Rightarrow> homekit_characteristic" where
  "HOMEKIT_DECLARE_CHARACTERISTIC_WATER_LEVEL x = no_characteristic\<lparr>
     c_type := ''B5'', c_description := Some ''Water Level'', c_format := homekit_format_float,
     c_unit := homekit_unit_percentage,
     c_permissions := homekit_permissions_paired_read OR homekit_permissions_notify,
     c_min_value := Some 0, c_max_value := Some 100, c_min_step := Some 1,
     c_value := HOMEKIT_FLOAT x\<rparr>"

definition HOMEKIT_DECLARE_CHARACTERISTIC_RELATIVE_HUMIDITY_DEHUMIDIFIER_THRESHOLD :: "rat \<Rightarrow> homekit_characteristic" where
  "HOMEKIT_DECLARE_CHARACTERISTIC_RELATIVE_HUMIDITY_DEHUMIDIFIER_THRESHOLD x = no_characteristic\<lparr>
     c_type := ''C9'', c_description := Some ''Relative Humidity Dehumidifier Threshold'',
     c_format := homekit_format_float, c_unit := homekit_unit_percentage,
     c_permissions := homekit_permissions_paired_read OR homekit_permissions_paired_write OR homekit_permissions_notify,
     c_min_value := Some 0, c_max_value := Some 100, c_min_step := Some 1,
     c_value := HOMEKIT_FLOAT x\<rparr>"

definition HOMEKIT_DECLARE_CHARACTERISTIC_RELATIVE_HUMIDITY_HUMIDIFIER_THRESHOLD :: "rat \<Rightarrow> homekit_characteristic" where
  "HOMEKIT_DECLARE_CHARACTERISTIC_RELATIVE_HUMIDITY_HUMIDIFIER_THRESHOLD x = no_characteristic\<lparr>
     c_type := ''CA'', c_description := Some ''Relative Humidity Humidifier Threshold'',
     c_format := homekit_format_float, c_unit := homekit_unit_percentage,
     c_permissions := homekit_permissions_paired_read OR homekit_permissions_paired_write OR homekit_permissions_notify,
     c_min_value := Some 0, c_max_value := Some 100, c_min_step := Some 1,
     c_value := HOMEKIT_FLOAT x\<rparr>"

definition HOMEKIT_DECLARE_CHARACTERISTIC_ACTIVE_IDENTIFIER :: "u32 \<Rightarrow> homekit_characteristic" where
  "HOMEKIT_DECLARE_CHARACTERISTIC_ACTIVE_IDENTIFIER x = no_characteristic\<lparr>
     c_type := ''E7'', c_description := Some ''Active Identifier'',
     c_format := homekit_format_uint32,
     c_permissions := homekit_permissions_paired_read OR homekit_permissions_paired_write OR homekit_permissions_notify,
     c_value := HOMEKIT_UINT32 x\<rparr>"

definition HOMEKIT_DECLARE_CHARACTERISTIC_CONFIGURED_NAME :: "string option \<Rightarrow> homekit_characteristic" where
  "HOMEKIT_DECLARE_CHARACTERISTIC_CONFIGURED_NAME x = no_characteristic\<lparr>
     c_type := ''E3'', c_description := Some ''Configured Name'',
     c_format := homekit_format_string,
     c_permissions := homekit_permissions_paired_read OR homekit_permissions_paired_write OR homekit_permissions_notify,
     c_value := (HOMEKIT_STRING x)\<lparr>v_is_static := True\<rparr>\<rparr>"

definition HOMEKIT_DECLARE_CHARACTERISTIC_SLEEP_DISCOVERY_MODE :: "u32 \<Rightarrow> homekit_characteristic" where
  "HOMEKIT_DECLARE_CHARACTERISTIC_SLEEP_DISCOVERY_MODE x = no_characteristic\<lparr>
     c_type := ''E8'', c_description := Some ''Sleep Discovery Mode'',
     c_format := homekit_format_uint8,
     c_permissions := homekit_permissions_paired_read OR homekit_permissions_notify,
     c_min_value := Some 0, c_max_value := Some 1, c_valid_values := [0, 1],
     c_value := HOMEKIT_UINT8 (ucast x)\<rparr>"

definition HOMEKIT_DECLARE_CHARACTERISTIC_CLOSED_CAPTIONS :: "u32 \<Rightarrow> homekit_characteristic" where
  "HOMEKIT_DECLARE_CHARACTERISTIC_CLOSED_CAPTIONS x = no_characteristic\<lparr>
     c_type := ''DD'', c_description := Some ''Closed Captions'',
     c_format := homekit_format_uint8,
     c_permissions := homekit_permissions_paired_read OR homekit_permissions_paired_write OR homekit_permissions_notify,
     c_min_value := Some 0, c_max_value := Some 1, c_valid_values := [0, 1],
     c_value := HOMEKIT_UINT8 (ucast x)\<rparr>"

definition HOMEKIT_DECLARE_CHARACTERISTIC_DISPLAY_ORDER :: "u32 \<Rightarrow> homekit_characteristic" where
  "HOMEKIT_DECLARE_CHARACTERISTIC_DISPLAY_ORDER x = no_characteristic\<lparr>
     c_type := ''136'', c_description := Some ''Display Order'', c_format := homekit_format_tlv,
     c_permissions := homekit_permissions_paired_read OR homekit_permissions_paired_write OR homekit_permissions_notify,
     c_value := HOMEKIT_UINT8 (ucast x)\<rparr>"

definition HOMEKIT_DECLARE_CHARACTERISTIC_CURRENT_MEDIA_STATE :: "u32 \<Rightarrow> homekit_characteristic" where
  "HOMEKIT_DECLARE_CHARACTERISTIC_CURRENT_MEDIA_STATE x = no_characteristic\<lparr>
     c_type := ''E0'', c_description := Some ''Current Media State'',
     c_format := homekit_format_uint8,
     c_permissions := homekit_permissions_paired_read OR homekit_permissions_notify,
     c_min_value := Some 0, c_max_value := Some 3, c_valid_values := [0, 1, 2, 3],
     c_value := HOMEKIT_UINT8 (ucast x)\<rparr>"

definition HOMEKIT_DECLARE_CHARACTERISTIC_TARGET_MEDIA_STATE :: "u32 \<Rightarrow> homekit_characteristic" where
  "HOMEKIT_DECLARE_CHARACTERISTIC_TARGET_MEDIA_STATE x = no_characteristic\<lparr>
     c_type := ''137'', c_description := Some ''Target Media State'',
     c_format := homekit_format_uint8,
     c_permissions := homekit_permissions_paired_read OR homekit_permissions_paired_write OR homekit_permissions_notify,
     c_min_value := Some 0, c_max_value := Some 2, c_valid_values := [0, 1, 2],
     c_value := HOMEKIT_UINT8 (ucast x)\<rparr>"

definition HOMEKIT_DECLARE_CHARACTERISTIC_PICTURE_MODE :: "u32 \<Rightarrow> homekit_characteristic" where
  "HOMEKIT_DECLARE_CHARACTERISTIC_PICTURE_MODE x = no_characteristic\<lparr>
     c_type := ''E2'', c_description := Some ''Picture Mode'',
     c_format := homekit_format_uint16,
     c_permissions := homekit_permissions_paired_read OR homekit_permissions_paired_write OR homekit_permissions_notify,
     c_min_value := Some 0, c_max_value := Some 13,
     c_valid_values := [0, 1, 2, 3, 4, 5, 6, 7, 8, 9, 10, 11, 12, 13],
     c_value := HOMEKIT_UINT16 (ucast x)\<rparr>"

definition HOMEKIT_DECLARE_CHARACTERISTIC_POWER_MODE_SELECTION :: homekit_characteristic where
  "HOMEKIT_DECLARE_CHARACTERISTIC_POWER_MODE_SELECTION = no_characteristic\<lparr>
     c_type := ''DF'', c_description := Some ''Power Mode Selection'',
     c_format := homekit_format_uint8, c_permissions := homekit_permissions_paired_write,
     c_min_value := Some 0, c_max_value := Some 1, c_valid_values := [0, 1]\<rparr>"

definition HOMEKIT_DECLARE_CHARACTERISTIC_REMOTE_KEY :: homekit_characteristic where
  "HOMEKIT_DECLARE_CHARACTERISTIC_REMOTE_KEY = no_characteristic\<lparr>
     c_type := ''E1'', c_description := Some ''Remote Key'', c_format := homekit_format_uint8,
     c_permissions := homekit_permissions_paired_write, c_min_value := Some 0,
     c_max_value := Some 16,
     c_valid_values := [0, 1, 2, 3, 4, 5, 6, 7, 8, 9, 10, 11, 12, 13, 14, 15, 16]\<rparr>"

definition HOMEKIT_DECLARE_CHARACTERISTIC_INPUT_SOURCE_TYPE :: "u32 \<Rightarrow> homekit_characteristic" where
  "HOMEKIT_DECLARE_CHARACTERISTIC_INPUT_SOURCE_TYPE x = no_characteristic\<lparr>
     c_type := ''DB'', c_description := Some ''Input Source Type'',
     c_format := homekit_format_uint8,
     c_permissions := homekit_permissions_paired_read OR homekit_permissions_notify,
     c_min_value := Some 0, c_max_value := Some 10,
     c_valid_values := [0, 1, 2, 3, 4, 5, 6, 7, 8, 9, 10],
     c_value := HOMEKIT_UINT8 (ucast x)\<rparr>"

definition HOMEKIT_DECLARE_CHARACTERISTIC_INPUT_DEVICE_TYPE :: "u32 \<Rightarrow> homekit_characteristic" where
  "HOMEKIT_DECLARE_CHARACTERISTIC_INPUT_DEVICE_TYPE x = no_characteristic\<lparr>
     c_type := ''DC'', c_description := Some ''Input Device Type'',
     c_format := homekit_format_uint8,
     c_permissions := homekit_permissions_paired_read OR homekit_permissions_notify,
     c_min_value := Some 0, c_max_value := Some 5, c_valid_values := [0, 1, 2, 3, 4, 5],
     c_value := HOMEKIT_UINT8 (ucast x)\<rparr>"

definition HOMEKIT_DECLARE_CHARACTERISTIC_IDENTIFIER :: "u32 \<Rightarrow> homekit_characteristic" where
  "HOMEKIT_DECLARE_CHARACTERISTIC_IDENTIFIER x = no_characteristic\<lparr>
     c_type := ''E6'', c_description := Some ''Identifier'', c_format := homekit_format_uint32,
     c_permissions := homekit_permissions_paired_read, c_min_value := Some 0,
     c_min_step := Some 1, c_value := HOMEKIT_UINT32 x\<rparr>"

definition HOMEKIT_DECLARE_CHARACTERISTIC_CURRENT_VISIBILITY_STATE :: "u32 \<Rightarrow> homekit_characteristic" where
  "HOMEKIT_DECLARE_CHARACTERISTIC_CURRENT_VISIBILITY_STATE x = no_characteristic\<lparr>
     c_type := ''135'', c_description := Some ''Current Visibility State'',
     c_format := homekit_format_uint8,
     c_permissions := homekit_permissions_paired_read OR homekit_permissions_notify,
     c_min_value := Some 0, c_max_value := Some 3, c_valid_values := [0, 1, 2, 3],
     c_value := HOMEKIT_UINT8 (ucast x)\<rparr>"

definition HOMEKIT_DECLARE_CHARACTERISTIC_TARGET_VISIBILITY_STATE :: "u32 \<Rightarrow> homekit_characteristic" where
  "HOMEKIT_DECLARE_CHARACTERISTIC_TARGET_VISIBILITY_STATE x = no_characteristic\<lparr>
     c_type := ''134'', c_description := Some ''Target Visibility State'',
     c_format := homekit_format_uint8,
     c_permissions := homekit_permissions_paired_read OR homekit_permissions_paired_write OR homekit_permissions_notify,
     c_min_value := Some 0, c_max_value := Some 1, c_valid_values := [0, 1],
     c_value := HOMEKIT_UINT8 (ucast x)\<rparr>"

definition HOMEKIT_DECLARE_CHARACTERISTIC_VOLUME_CONTROL_TYPE :: "u32 \<Rightarrow> homekit_characteristic" where
  "HOMEKIT_DECLARE_CHARACTERISTIC_VOLUME_CONTROL_TYPE x = no_characteristic\<lparr>
     c_type := ''E9'', c_description := Some ''Volume Control Type'',
     c_format := homekit_format_uint8,
     c_permissions := homekit_permissions_paired_read OR homekit_permissions_notify,
     c_min_value := Some 0, c_max_value := Some 3, c_valid_values := [0, 1, 2, 3],
     c_value := HOMEKIT_UINT8 (ucast x)\<rparr>"

definition HOMEKIT_DECLARE_CHARACTERISTIC_VOLUME_SELECTOR :: homekit_characteristic where
  "HOMEKIT_DECLARE_CHARACTERISTIC_VOLUME_SELECTOR = no_characteristic\<lparr>
     c_type := ''EA'', c_description := Some ''Volume Selector'',
     c_format := homekit_format_uint8, c_permissions := homekit_permissions_paired_write,
     c_min_value := Some 0, c_max_value := Some 1, c_valid_values := [0, 1]\<rparr>"

section \<open>The table\<close>

text \<open>Every characteristic of the header, declared with arguments of each type.\<close>

definition all_characteristics ::
  "u32 \<Rightarrow> bool \<Rightarrow> rat \<Rightarrow> string option \<Rightarrow> nat option \<Rightarrow> homekit_characteristic list" where
  "all_characteristics i b f s g =
   [
    HOMEKIT_DECLARE_CHARACTERISTIC_ADMINISTRATOR_ONLY_ACCESS b,
    HOMEKIT_DECLARE_CHARACTERISTIC_AUDIO_FEEDBACK b,
    HOMEKIT_DECLARE_CHARACTERISTIC_BRIGHTNESS i,
    HOMEKIT_DECLARE_CHARACTERISTIC_COOLING_THRESHOLD_TEMPERATURE f,
    HOMEKIT_DECLARE_CHARACTERISTIC_CURRENT_DOOR_STATE i,
    HOMEKIT_DECLARE_CHARACTERISTIC_CURRENT_HEATING_COOLING_STATE i,
    HOMEKIT_DECLARE_CHARACTERISTIC_CURRENT_RELATIVE_HUMIDITY f,
    HOMEKIT_DECLARE_CHARACTERISTIC_CURRENT_TEMPERATURE f,
    HOMEKIT_DECLARE_CHARACTERISTIC_FIRMWARE_REVISION s,
    HOMEKIT_DECLARE_CHARACTERISTIC_HARDWARE_REVISION s,
    HOMEKIT_DECLARE_CHARACTERISTIC_HEATING_THRESHOLD_TEMPERATURE f,
    HOMEKIT_DECLARE_CHARACTERISTIC_HUE f, HOMEKIT_DECLARE_CHARACTERISTIC_IDENTIFY g,
    HOMEKIT_DECLARE_CHARACTERISTIC_LOCK_CONTROL_POINT,
    HOMEKIT_DECLARE_CHARACTERISTIC_LOCK_CURRENT_STATE i,
    HOMEKIT_DECLARE_CHARACTERISTIC_LOCK_LAST_KNOWN_ACTION i,
    HOMEKIT_DECLARE_CHARACTERISTIC_LOCK_MANAGEMENT_AUTO_SECURITY_TIMEOUT i,
    HOMEKIT_DECLARE_CHARACTERISTIC_LOCK_TARGET_STATE i, HOMEKIT_DECLARE_CHARACTERISTIC_LOGS,
    HOMEKIT_DECLARE_CHARACTERISTIC_MANUFACTURER s, HOMEKIT_DECLARE_CHARACTERISTIC_MODEL s,
    HOMEKIT_DECLARE_CHARACTERISTIC_MOTION_DETECTED b, HOMEKIT_DECLARE_CHARACTERISTIC_NAME s,
    HOMEKIT_DECLARE_CHARACTERISTIC_OBSTRUCTION_DETECTED b, HOMEKIT_DECLARE_CHARACTERISTIC_ON b,
    HOMEKIT_DECLARE_CHARACTERISTIC_OUTLET_IN_USE b,
    HOMEKIT_DECLARE_CHARACTERISTIC_ROTATION_DIRECTION i,
    HOMEKIT_DECLARE_CHARACTERISTIC_ROTATION_SPEED f,
    HOMEKIT_DECLARE_CHARACTERISTIC_SATURATION f, HOMEKIT_DECLARE_CHARACTERISTIC_SERIAL_NUMBER s,
    HOMEKIT_DECLARE_CHARACTERISTIC_TARGET_DOOR_STATE i,
    HOMEKIT_DECLARE_CHARACTERISTIC_TARGET_HEATING_COOLING_STATE i,
    HOMEKIT_DECLARE_CHARACTERISTIC_TARGET_RELATIVE_HUMIDITY f,
    HOMEKIT_DECLARE_CHARACTERISTIC_TARGET_TEMPERATURE f,
    HOMEKIT_DECLARE_CHARACTERISTIC_TEMPERATURE_DISPLAY_UNITS i,
    HOMEKIT_DECLARE_CHARACTERISTIC_VERSION s,
    HOMEKIT_DECLARE_CHARACTERISTIC_AIR_PARTICULATE_DENSITY i,
    HOMEKIT_DECLARE_CHARACTERISTIC_AIR_PARTICULATE_SIZE i,
    HOMEKIT_DECLARE_CHARACTERISTIC_SECURITY_SYSTEM_CURRENT_STATE i,
    HOMEKIT_DECLARE_CHARACTERISTIC_SECURITY_SYSTEM_TARGET_STATE i,
    HOMEKIT_DECLARE_CHARACTERISTIC_BATTERY_LEVEL i,
    HOMEKIT_DECLARE_CHARACTERISTIC_CONTACT_SENSOR_STATE i,
    HOMEKIT_DECLARE_CHARACTERISTIC_CURRENT_AMBIENT_LIGHT_LEVEL f,
    HOMEKIT_DECLARE_CHARACTERISTIC_CURRENT_HORIZONTAL_TILT_ANGLE i,
    HOMEKIT_DECLARE_CHARACTERISTIC_CURRENT_POSITION i,
    HOMEKIT_DECLARE_CHARACTERISTIC_CURRENT_VERTICAL_TILT_ANGLE i,
    HOMEKIT_DECLARE_CHARACTERISTIC_HOLD_POSITION b,
    HOMEKIT_DECLARE_CHARACTERISTIC_LEAK_DETECTED i,
    HOMEKIT_DECLARE_CHARACTERISTIC_OCCUPANCY_DETECTED i,
    HOMEKIT_DECLARE_CHARACTERISTIC_POSITION_STATE i,
    HOMEKIT_DECLARE_CHARACTERISTIC_PROGRAMMABLE_SWITCH_EVENT i,
    HOMEKIT_DECLARE_CHARACTERISTIC_STATUS_ACTIVE b,
    HOMEKIT_DECLARE_CHARACTERISTIC_SMOKE_DETECTED i,
    HOMEKIT_DECLARE_CHARACTERISTIC_STATUS_FAULT i,
    HOMEKIT_DECLARE_CHARACTERISTIC_STATUS_JAMMED i,
    HOMEKIT_DECLARE_CHARACTERISTIC_STATUS_LOW_BATTERY i,
    HOMEKIT_DECLARE_CHARACTERISTIC_STATUS_TAMPERED i,
    HOMEKIT_DECLARE_CHARACTERISTIC_TARGET_HORIZONTAL_TILT_ANGLE i,
    HOMEKIT_DECLARE_CHARACTERISTIC_TARGET_POSITION i,
    HOMEKIT_DECLARE_CHARACTERISTIC_TARGET_VERTICAL_TILT_ANGLE i,
    HOMEKIT_DECLARE_CHARACTERISTIC_SECURITY_SYSTEM_ALARM_TYPE i,
    HOMEKIT_DECLARE_CHARACTERISTIC_CHARGING_STATE i,
    HOMEKIT_DECLARE_CHARACTERISTIC_CARBON_MONOXIDE_DETECTED i,
    HOMEKIT_DECLARE_CHARACTERISTIC_CARBON_MONOXIDE_LEVEL f,
    HOMEKIT_DECLARE_CHARACTERISTIC_CARBON_MONOXIDE_PEAK_LEVEL f,
    HOMEKIT_DECLARE_CHARACTERISTIC_CARBON_DIOXIDE_DETECTED i,
    HOMEKIT_DECLARE_CHARACTERISTIC_CARBON_DIOXIDE_LEVEL f,
    HOMEKIT_DECLARE_CHARACTERISTIC_CARBON_DIOXIDE_PEAK_LEVEL f,
    HOMEKIT_DECLARE_CHARACTERISTIC_AIR_QUALITY i,
    HOMEKIT_DECLARE_CHARACTERISTIC_STREAMING_STATUS,
    HOMEKIT_DECLARE_CHARACTERISTIC_SUPPORTED_VIDEO_STREAM_CONFIGURATION,
    HOMEKIT_DECLARE_CHARACTERISTIC_SUPPORTED_AUDIO_STREAM_CONFIGURATION,
    HOMEKIT_DECLARE_CHARACTERISTIC_SUPPORTED_RTP_CONFIGURATION,
    HOMEKIT_DECLARE_CHARACTERISTIC_SETUP_ENDPOINTS,
    HOMEKIT_DECLARE_CHARACTERISTIC_SELECTED_RTP_STREAM_CONFIGURATION,
    HOMEKIT_DECLARE_CHARACTERISTIC_VOLUME i, HOMEKIT_DECLARE_CHARACTERISTIC_MUTE b,
    HOMEKIT_DECLARE_CHARACTERISTIC_NIGHT_VISION b,
    HOMEKIT_DECLARE_CHARACTERISTIC_OPTICAL_ZOOM f,
    HOMEKIT_DECLARE_CHARACTERISTIC_DIGITAL_ZOOM f,
    HOMEKIT_DECLARE_CHARACTERISTIC_IMAGE_ROTATION f,
    HOMEKIT_DECLARE_CHARACTERISTIC_IMAGE_MIRRORING b,
    HOMEKIT_DECLARE_CHARACTERISTIC_ACCESSORY_FLAGS i,
    HOMEKIT_DECLARE_CHARACTERISTIC_LOCK_PHYSICAL_CONTROLS i,
    HOMEKIT_DECLARE_CHARACTERISTIC_CURRENT_AIR_PURIFIER_STATE i,
    HOMEKIT_DECLARE_CHARACTERISTIC_CURRENT_SLAT_STATE i,
    HOMEKIT_DECLARE_CHARACTERISTIC_SLAT_TYPE i,
    HOMEKIT_DECLARE_CHARACTERISTIC_FILTER_LIFE_LEVEL f,
    HOMEKIT_DECLARE_CHARACTERISTIC_FILTER_CHANGE_INDICATION i,
    HOMEKIT_DECLARE_CHARACTERISTIC_RESET_FILTER_INDICATION i,
    HOMEKIT_DECLARE_CHARACTERISTIC_TARGET_AIR_PURIFIER_STATE i,
    HOMEKIT_DECLARE_CHARACTERISTIC_TARGET_FAN_STATE i,
    HOMEKIT_DECLARE_CHARACTERISTIC_CURRENT_FAN_STATE i, HOMEKIT_DECLARE_CHARACTERISTIC_ACTIVE i,
    HOMEKIT_DECLARE_CHARACTERISTIC_SWING_MODE i,
    HOMEKIT_DECLARE_CHARACTERISTIC_CURRENT_TILT_ANGLE i,
    HOMEKIT_DECLARE_CHARACTERISTIC_TARGET_TILT_ANGLE i,
    HOMEKIT_DECLARE_CHARACTERISTIC_OZONE_DENSITY f,
    HOMEKIT_DECLARE_CHARACTERISTIC_NITROGEN_DIOXIDE_DENSITY f,
    HOMEKIT_DECLARE_CHARACTERISTIC_SULPHUR_DIOXIDE_DENSITY f,
    HOMEKIT_DECLARE_CHARACTERISTIC_PM25_DENSITY f,
    HOMEKIT_DECLARE_CHARACTERISTIC_PM10_DENSITY f, HOMEKIT_DECLARE_CHARACTERISTIC_VOC_DENSITY f,
    HOMEKIT_DECLARE_CHARACTERISTIC_SERVICE_LABEL_INDEX i,
    HOMEKIT_DECLARE_CHARACTERISTIC_SERVICE_LABEL_NAMESPACE i,
    HOMEKIT_DECLARE_CHARACTERISTIC_COLOR_TEMPERATURE i, HOMEKIT_DECLARE_CHARACTERISTIC_IN_USE i,
    HOMEKIT_DECLARE_CHARACTERISTIC_IS_CONFIGURED i,
    HOMEKIT_DECLARE_CHARACTERISTIC_PROGRAM_MODE i,
    HOMEKIT_DECLARE_CHARACTERISTIC_REMAINING_DURATION i,
    HOMEKIT_DECLARE_CHARACTERISTIC_SET_DURATION i, HOMEKIT_DECLARE_CHARACTERISTIC_VALVE_TYPE i,
    HOMEKIT_DECLARE_CHARACTERISTIC_CURRENT_HEATER_COOLER_STATE i,
    HOMEKIT_DECLARE_CHARACTERISTIC_TARGET_HEATER_COOLER_STATE i,
    HOMEKIT_DECLARE_CHARACTERISTIC_CURRENT_HUMIDIFIER_DEHUMIDIFIER_STATE i,
    HOMEKIT_DECLARE_CHARACTERISTIC_TARGET_HUMIDIFIER_DEHUMIDIFIER_STATE i,
    HOMEKIT_DECLARE_CHARACTERISTIC_WATER_LEVEL f,
    HOMEKIT_DECLARE_CHARACTERISTIC_RELATIVE_HUMIDITY_DEHUMIDIFIER_THRESHOLD f,
    HOMEKIT_DECLARE_CHARACTERISTIC_RELATIVE_HUMIDITY_HUMIDIFIER_THRESHOLD f,
    HOMEKIT_DECLARE_CHARACTERISTIC_ACTIVE_IDENTIFIER i,
    HOMEKIT_DECLARE_CHARACTERISTIC_CONFIGURED_NAME s,
    HOMEKIT_DECLARE_CHARACTERISTIC_SLEEP_DISCOVERY_MODE i,
    HOMEKIT_DECLARE_CHARACTERISTIC_CLOSED_CAPTIONS i,
    HOMEKIT_DECLARE_CHARACTERISTIC_DISPLAY_ORDER i,
    HOMEKIT_DECLARE_CHARACTERISTIC_CURRENT_MEDIA_STATE i,
    HOMEKIT_DECLARE_CHARACTERISTIC_TARGET_MEDIA_STATE i,
    HOMEKIT_DECLARE_CHARACTERISTIC_PICTURE_MODE i,
    HOMEKIT_DECLARE_CHARACTERISTIC_POWER_MODE_SELECTION,
    HOMEKIT_DECLARE_CHARACTERISTIC_REMOTE_KEY,
    HOMEKIT_DECLARE_CHARACTERISTIC_INPUT_SOURCE_TYPE i,
    HOMEKIT_DECLARE_CHARACTERISTIC_INPUT_DEVICE_TYPE i,
    HOMEKIT_DECLARE_CHARACTERISTIC_IDENTIFIER i,
    HOMEKIT_DECLARE_CHARACTERISTIC_CURRENT_VISIBILITY_STATE i,
    HOMEKIT_DECLARE_CHARACTERISTIC_TARGET_VISIBILITY_STATE i,
    HOMEKIT_DECLARE_CHARACTERISTIC_VOLUME_CONTROL_TYPE i,
    HOMEKIT_DECLARE_CHARACTERISTIC_VOLUME_SELECTOR]"

definition all_services :: "string list" where
  "all_services =
   [
    HOMEKIT_SERVICE_ACCESSORY_INFORMATION, HOMEKIT_SERVICE_FAN,
    HOMEKIT_SERVICE_GARAGE_DOOR_OPENER, HOMEKIT_SERVICE_LIGHTBULB,
    HOMEKIT_SERVICE_LOCK_MANAGEMENT, HOMEKIT_SERVICE_LOCK_MECHANISM, HOMEKIT_SERVICE_OUTLET,
    HOMEKIT_SERVICE_SWITCH, HOMEKIT_SERVICE_THERMOSTAT, HOMEKIT_SERVICE_AIR_QUALITY_SENSOR,
    HOMEKIT_SERVICE_SECURITY_SYSTEM, HOMEKIT_SERVICE_CARBON_MONOXIDE_SENSOR,
    HOMEKIT_SERVICE_CONTACT_SENSOR, HOMEKIT_SERVICE_DOOR, HOMEKIT_SERVICE_HUMIDITY_SENSOR,
    HOMEKIT_SERVICE_LEAK_SENSOR, HOMEKIT_SERVICE_LIGHT_SENSOR, HOMEKIT_SERVICE_MOTION_SENSOR,
    HOMEKIT_SERVICE_OCCUPANCY_SENSOR, HOMEKIT_SERVICE_SMOKE_SENSOR,
    HOMEKIT_SERVICE_STATELESS_PROGRAMMABLE_SWITCH, HOMEKIT_SERVICE_TEMPERATURE_SENSOR,
    HOMEKIT_SERVICE_WINDOW, HOMEKIT_SERVICE_WINDOW_COVERING, HOMEKIT_SERVICE_BATTERY_SERVICE,
    HOMEKIT_SERVICE_CARBON_DIOXIDE_SENSOR, HOMEKIT_SERVICE_CAMERA_RTP_STREAM_MANAGEMENT,
    HOMEKIT_SERVICE_MICROPHONE, HOMEKIT_SERVICE_SPEAKER, HOMEKIT_SERVICE_DOORBELL,
    HOMEKIT_SERVICE_FAN2, HOMEKIT_SERVICE_SLAT, HOMEKIT_SERVICE_FILTER_MAINTENANCE,
    HOMEKIT_SERVICE_AIR_PURIFIER, HOMEKIT_SERVICE_SERVICE_LABEL, HOMEKIT_SERVICE_FAUCET,
    HOMEKIT_SERVICE_IRRIGATION_SYSTEM, HOMEKIT_SERVICE_VALVE, HOMEKIT_SERVICE_HEATER_COOLER,
    HOMEKIT_SERVICE_HUMIDIFIER_DEHUMIDIFIER, HOMEKIT_SERVICE_TELEVISION,
    HOMEKIT_SERVICE_INPUT_SOURCE, HOMEKIT_SERVICE_TELEVISION_SPEAKER]"

lemmas characteristic_defs =
  HOMEKIT_DECLARE_CHARACTERISTIC_ADMINISTRATOR_ONLY_ACCESS_def
  HOMEKIT_DECLARE_CHARACTERISTIC_AUDIO_FEEDBACK_def
  HOMEKIT_DECLARE_CHARACTERISTIC_BRIGHTNESS_def
  HOMEKIT_DECLARE_CHARACTERISTIC_COOLING_THRESHOLD_TEMPERATURE_def
  HOMEKIT_DECLARE_CHARACTERISTIC_CURRENT_DOOR_STATE_def
  HOMEKIT_DECLARE_CHARACTERISTIC_CURRENT_HEATING_COOLING_STATE_def
  HOMEKIT_DECLARE_CHARACTERISTIC_CURRENT_RELATIVE_HUMIDITY_def
  HOMEKIT_DECLARE_CHARACTERISTIC_CURRENT_TEMPERATURE_def
  HOMEKIT_DECLARE_CHARACTERISTIC_FIRMWARE_REVISION_def
  HOMEKIT_DECLARE_CHARACTERISTIC_HARDWARE_REVISION_def
  HOMEKIT_DECLARE_CHARACTERISTIC_HEATING_THRESHOLD_TEMPERATURE_def
  HOMEKIT_DECLARE_CHARACTERISTIC_HUE_def
  HOMEKIT_DECLARE_CHARACTERISTIC_IDENTIFY_def
  HOMEKIT_DECLARE_CHARACTERISTIC_LOCK_CONTROL_POINT_def
  HOMEKIT_DECLARE_CHARACTERISTIC_LOCK_CURRENT_STATE_def
  HOMEKIT_DECLARE_CHARACTERISTIC_LOCK_LAST_KNOWN_ACTION_def
  HOMEKIT_DECLARE_CHARACTERISTIC_LOCK_MANAGEMENT_AUTO_SECURITY_TIMEOUT_def
  HOMEKIT_DECLARE_CHARACTERISTIC_LOCK_TARGET_STATE_def
  HOMEKIT_DECLARE_CHARACTERISTIC_LOGS_def
  HOMEKIT_DECLARE_CHARACTERISTIC_MANUFACTURER_def
  HOMEKIT_DECLARE_CHARACTERISTIC_MODEL_def
  HOMEKIT_DECLARE_CHARACTERISTIC_MOTION_DETECTED_def
  HOMEKIT_DECLARE_CHARACTERISTIC_NAME_def
  HOMEKIT_DECLARE_CHARACTERISTIC_OBSTRUCTION_DETECTED_def
  HOMEKIT_DECLARE_CHARACTERISTIC_ON_def
  HOMEKIT_DECLARE_CHARACTERISTIC_OUTLET_IN_USE_def
  HOMEKIT_DECLARE_CHARACTERISTIC_ROTATION_DIRECTION_def
  HOMEKIT_DECLARE_CHARACTERISTIC_ROTATION_SPEED_def
  HOMEKIT_DECLARE_CHARACTERISTIC_SATURATION_def
  HOMEKIT_DECLARE_CHARACTERISTIC_SERIAL_NUMBER_def
  HOMEKIT_DECLARE_CHARACTERISTIC_TARGET_DOOR_STATE_def
  HOMEKIT_DECLARE_CHARACTERISTIC_TARGET_HEATING_COOLING_STATE_def
  HOMEKIT_DECLARE_CHARACTERISTIC_TARGET_RELATIVE_HUMIDITY_def
  HOMEKIT_DECLARE_CHARACTERISTIC_TARGET_TEMPERATURE_def
  HOMEKIT_DECLARE_CHARACTERISTIC_TEMPERATURE_DISPLAY_UNITS_def
  HOMEKIT_DECLARE_CHARACTERISTIC_VERSION_def
  HOMEKIT_DECLARE_CHARACTERISTIC_AIR_PARTICULATE_DENSITY_def
  HOMEKIT_DECLARE_CHARACTERISTIC_AIR_PARTICULATE_SIZE_def
  HOMEKIT_DECLARE_CHARACTERISTIC_SECURITY_SYSTEM_CURRENT_STATE_def
  HOMEKIT_DECLARE_CHARACTERISTIC_SECURITY_SYSTEM_TARGET_STATE_def
  HOMEKIT_DECLARE_CHARACTERISTIC_BATTERY_LEVEL_def
  HOMEKIT_DECLARE_CHARACTERISTIC_CONTACT_SENSOR_STATE_def
  HOMEKIT_DECLARE_CHARACTERISTIC_CURRENT_AMBIENT_LIGHT_LEVEL_def
  HOMEKIT_DECLARE_CHARACTERISTIC_CURRENT_HORIZONTAL_TILT_ANGLE_def
  HOMEKIT_DECLARE_CHARACTERISTIC_CURRENT_POSITION_def
  HOMEKIT_DECLARE_CHARACTERISTIC_CURRENT_VERTICAL_TILT_ANGLE_def
  HOMEKIT_DECLARE_CHARACTERISTIC_HOLD_POSITION_def
  HOMEKIT_DECLARE_CHARACTERISTIC_LEAK_DETECTED_def
  HOMEKIT_DECLARE_CHARACTERISTIC_OCCUPANCY_DETECTED_def
  HOMEKIT_DECLARE_CHARACTERISTIC_POSITION_STATE_def
  HOMEKIT_DECLARE_CHARACTERISTIC_PROGRAMMABLE_SWITCH_EVENT_def
  HOMEKIT_DECLARE_CHARACTERISTIC_STATUS_ACTIVE_def
  HOMEKIT_DECLARE_CHARACTERISTIC_SMOKE_DETECTED_def
  HOMEKIT_DECLARE_CHARACTERISTIC_STATUS_FAULT_def
  HOMEKIT_DECLARE_CHARACTERISTIC_STATUS_JAMMED_def
  HOMEKIT_DECLARE_CHARACTERISTIC_STATUS_LOW_BATTERY_def
  HOMEKIT_DECLARE_CHARACTERISTIC_STATUS_TAMPERED_def
  HOMEKIT_DECLARE_CHARACTERISTIC_TARGET_HORIZONTAL_TILT_ANGLE_def
  HOMEKIT_DECLARE_CHARACTERISTIC_TARGET_POSITION_def
  HOMEKIT_DECLARE_CHARACTERISTIC_TARGET_VERTICAL_TILT_ANGLE_def
  HOMEKIT_DECLARE_CHARACTERISTIC_SECURITY_SYSTEM_ALARM_TYPE_def
  HOMEKIT_DECLARE_CHARACTERISTIC_CHARGING_STATE_def
  HOMEKIT_DECLARE_CHARACTERISTIC_CARBON_MONOXIDE_DETECTED_def
  HOMEKIT_DECLARE_CHARACTERISTIC_CARBON_MONOXIDE_LEVEL_def
  HOMEKIT_DECLARE_CHARACTERISTIC_CARBON_MONOXIDE_PEAK_LEVEL_def
  HOMEKIT_DECLARE_CHARACTERISTIC_CARBON_DIOXIDE_DETECTED_def
  HOMEKIT_DECLARE_CHARACTERISTIC_CARBON_DIOXIDE_LEVEL_def
  HOMEKIT_DECLARE_CHARACTERISTIC_CARBON_DIOXIDE_PEAK_LEVEL_def
  HOMEKIT_DECLARE_CHARACTERISTIC_AIR_QUALITY_def
  HOMEKIT_DECLARE_CHARACTERISTIC_STREAMING_STATUS_def
  HOMEKIT_DECLARE_CHARACTERISTIC_SUPPORTED_VIDEO_STREAM_CONFIGURATION_def
  HOMEKIT_DECLARE_CHARACTERISTIC_SUPPORTED_AUDIO_STREAM_CONFIGURATION_def
  HOMEKIT_DECLARE_CHARACTERISTIC_SUPPORTED_RTP_CONFIGURATION_def
  HOMEKIT_DECLARE_CHARACTERISTIC_SETUP_ENDPOINTS_def
  HOMEKIT_DECLARE_CHARACTERISTIC_SELECTED_RTP_STREAM_CONFIGURATION_def
  HOMEKIT_DECLARE_CHARACTERISTIC_VOLUME_def
  HOMEKIT_DECLARE_CHARACTERISTIC_MUTE_def
  HOMEKIT_DECLARE_CHARACTERISTIC_NIGHT_VISION_def
  HOMEKIT_DECLARE_CHARACTERISTIC_OPTICAL_ZOOM_def
  HOMEKIT_DECLARE_CHARACTERISTIC_DIGITAL_ZOOM_def
  HOMEKIT_DECLARE_CHARACTERISTIC_IMAGE_ROTATION_def
  HOMEKIT_DECLARE_CHARACTERISTIC_IMAGE_MIRRORING_def
  HOMEKIT_DECLARE_CHARACTERISTIC_ACCESSORY_FLAGS_def
  HOMEKIT_DECLARE_CHARACTERISTIC_LOCK_PHYSICAL_CONTROLS_def
  HOMEKIT_DECLARE_CHARACTERISTIC_CURRENT_AIR_PURIFIER_STATE_def
  HOMEKIT_DECLARE_CHARACTERISTIC_CURRENT_SLAT_STATE_def
  HOMEKIT_DECLARE_CHARACTERISTIC_SLAT_TYPE_def
  HOMEKIT_DECLARE_CHARACTERISTIC_FILTER_LIFE_LEVEL_def
  HOMEKIT_DECLARE_CHARACTERISTIC_FILTER_CHANGE_INDICATION_def
  HOMEKIT_DECLARE_CHARACTERISTIC_RESET_FILTER_INDICATION_def
  HOMEKIT_DECLARE_CHARACTERISTIC_TARGET_AIR_PURIFIER_STATE_def
  HOMEKIT_DECLARE_CHARACTERISTIC_TARGET_FAN_STATE_def
  HOMEKIT_DECLARE_CHARACTERISTIC_CURRENT_FAN_STATE_def
  HOMEKIT_DECLARE_CHARACTERISTIC_ACTIVE_def
  HOMEKIT_DECLARE_CHARACTERISTIC_SWING_MODE_def
  HOMEKIT_DECLARE_CHARACTERISTIC_CURRENT_TILT_ANGLE_def
  HOMEKIT_DECLARE_CHARACTERISTIC_TARGET_TILT_ANGLE_def
  HOMEKIT_DECLARE_CHARACTERISTIC_OZONE_DENSITY_def
  HOMEKIT_DECLARE_CHARACTERISTIC_NITROGEN_DIOXIDE_DENSITY_def
  HOMEKIT_DECLARE_CHARACTERISTIC_SULPHUR_DIOXIDE_DENSITY_def
  HOMEKIT_DECLARE_CHARACTERISTIC_PM25_DENSITY_def
  HOMEKIT_DECLARE_CHARACTERISTIC_PM10_DENSITY_def
  HOMEKIT_DECLARE_CHARACTERISTIC_VOC_DENSITY_def
  HOMEKIT_DECLARE_CHARACTERISTIC_SERVICE_LABEL_INDEX_def
  HOMEKIT_DECLARE_CHARACTERISTIC_SERVICE_LABEL_NAMESPACE_def
  HOMEKIT_DECLARE_CHARACTERISTIC_COLOR_TEMPERATURE_def
  HOMEKIT_DECLARE_CHARACTERISTIC_IN_USE_def
  HOMEKIT_DECLARE_CHARACTERISTIC_IS_CONFIGURED_def
  HOMEKIT_DECLARE_CHARACTERISTIC_PROGRAM_MODE_def
  HOMEKIT_DECLARE_CHARACTERISTIC_REMAINING_DURATION_def
  HOMEKIT_DECLARE_CHARACTERISTIC_SET_DURATION_def
  HOMEKIT_DECLARE_CHARACTERISTIC_VALVE_TYPE_def
  HOMEKIT_DECLARE_CHARACTERISTIC_CURRENT_HEATER_COOLER_STATE_def
  HOMEKIT_DECLARE_CHARACTERISTIC_TARGET_HEATER_COOLER_STATE_def
  HOMEKIT_DECLARE_CHARACTERISTIC_CURRENT_HUMIDIFIER_DEHUMIDIFIER_STATE_def
  HOMEKIT_DECLARE_CHARACTERISTIC_TARGET_HUMIDIFIER_DEHUMIDIFIER_STATE_def
  HOMEKIT_DECLARE_CHARACTERISTIC_WATER_LEVEL_def
  HOMEKIT_DECLARE_CHARACTERISTIC_RELATIVE_HUMIDITY_DEHUMIDIFIER_THRESHOLD_def
  HOMEKIT_DECLARE_CHARACTERISTIC_RELATIVE_HUMIDITY_HUMIDIFIER_THRESHOLD_def
  HOMEKIT_DECLARE_CHARACTERISTIC_ACTIVE_IDENTIFIER_def
  HOMEKIT_DECLARE_CHARACTERISTIC_CONFIGURED_NAME_def
  HOMEKIT_DECLARE_CHARACTERISTIC_SLEEP_DISCOVERY_MODE_def
  HOMEKIT_DECLARE_CHARACTERISTIC_CLOSED_CAPTIONS_def
  HOMEKIT_DECLARE_CHARACTERISTIC_DISPLAY_ORDER_def
  HOMEKIT_DECLARE_CHARACTERISTIC_CURRENT_MEDIA_STATE_def
  HOMEKIT_DECLARE_CHARACTERISTIC_TARGET_MEDIA_STATE_def
  HOMEKIT_DECLARE_CHARACTERISTIC_PICTURE_MODE_def
  HOMEKIT_DECLARE_CHARACTERISTIC_POWER_MODE_SELECTION_def
  HOMEKIT_DECLARE_CHARACTERISTIC_REMOTE_KEY_def
  HOMEKIT_DECLARE_CHARACTERISTIC_INPUT_SOURCE_TYPE_def
  HOMEKIT_DECLARE_CHARACTERISTIC_INPUT_DEVICE_TYPE_def
  HOMEKIT_DECLARE_CHARACTERISTIC_IDENTIFIER_def
  HOMEKIT_DECLARE_CHARACTERISTIC_CURRENT_VISIBILITY_STATE_def
  HOMEKIT_DECLARE_CHARACTERISTIC_TARGET_VISIBILITY_STATE_def
  HOMEKIT_DECLARE_CHARACTERISTIC_VOLUME_CONTROL_TYPE_def
  HOMEKIT_DECLARE_CHARACTERISTIC_VOLUME_SELECTOR_def

lemmas service_defs =
  HOMEKIT_SERVICE_ACCESSORY_INFORMATION_def
  HOMEKIT_SERVICE_FAN_def
  HOMEKIT_SERVICE_GARAGE_DOOR_OPENER_def
  HOMEKIT_SERVICE_LIGHTBULB_def
  HOMEKIT_SERVICE_LOCK_MANAGEMENT_def
  HOMEKIT_SERVICE_LOCK_MECHANISM_def
  HOMEKIT_SERVICE_OUTLET_def
  HOMEKIT_SERVICE_SWITCH_def
  HOMEKIT_SERVICE_THERMOSTAT_def
  HOMEKIT_SERVICE_AIR_QUALITY_SENSOR_def
  HOMEKIT_SERVICE_SECURITY_SYSTEM_def
  HOMEKIT_SERVICE_CARBON_MONOXIDE_SENSOR_def
  HOMEKIT_SERVICE_CONTACT_SENSOR_def
  HOMEKIT_SERVICE_DOOR_def
  HOMEKIT_SERVICE_HUMIDITY_SENSOR_def
  HOMEKIT_SERVICE_LEAK_SENSOR_def
  HOMEKIT_SERVICE_LIGHT_SENSOR_def
  HOMEKIT_SERVICE_MOTION_SENSOR_def
  HOMEKIT_SERVICE_OCCUPANCY_SENSOR_def
  HOMEKIT_SERVICE_SMOKE_SENSOR_def
  HOMEKIT_SERVICE_STATELESS_PROGRAMMABLE_SWITCH_def
  HOMEKIT_SERVICE_TEMPERATURE_SENSOR_def
  HOMEKIT_SERVICE_WINDOW_def
  HOMEKIT_SERVICE_WINDOW_COVERING_def
  HOMEKIT_SERVICE_BATTERY_SERVICE_def
  HOMEKIT_SERVICE_CARBON_DIOXIDE_SENSOR_def
  HOMEKIT_SERVICE_CAMERA_RTP_STREAM_MANAGEMENT_def
  HOMEKIT_SERVICE_MICROPHONE_def
  HOMEKIT_SERVICE_SPEAKER_def
  HOMEKIT_SERVICE_DOORBELL_def
  HOMEKIT_SERVICE_FAN2_def
  HOMEKIT_SERVICE_SLAT_def
  HOMEKIT_SERVICE_FILTER_MAINTENANCE_def
  HOMEKIT_SERVICE_AIR_PURIFIER_def
  HOMEKIT_SERVICE_SERVICE_LABEL_def
  HOMEKIT_SERVICE_FAUCET_def
  HOMEKIT_SERVICE_IRRIGATION_SYSTEM_def
  HOMEKIT_SERVICE_VALVE_def
  HOMEKIT_SERVICE_HEATER_COOLER_def
  HOMEKIT_SERVICE_HUMIDIFIER_DEHUMIDIFIER_def
  HOMEKIT_SERVICE_TELEVISION_def
  HOMEKIT_SERVICE_INPUT_SOURCE_def
  HOMEKIT_SERVICE_TELEVISION_SPEAKER_def

lemmas constructor_defs =
  HOMEKIT_BOOL_def HOMEKIT_INT_def HOMEKIT_UINT8_def HOMEKIT_UINT16_def HOMEKIT_UINT32_def HOMEKIT_FLOAT_def
  HOMEKIT_STRING_def zero_value_def

section \<open>What the table guarantees\<close>

text \<open>The bounds and the list of values of a characteristic fit together.\<close>

definition bounds_ok :: "homekit_characteristic \<Rightarrow> bool" where
  "bounds_ok c \<longleftrightarrow>
     (case (c_min_value c, c_max_value c) of
        (Some a, Some b) \<Rightarrow> a \<le> b \<and> list_all (\<lambda>v. a \<le> of_nat (unat v) \<and> of_nat (unat v) \<le> b) (c_valid_values c)
      | _ \<Rightarrow> True) \<and>
     distinct (c_valid_values c) \<and>
     (case c_min_step c of None \<Rightarrow> True | Some d \<Rightarrow> 0 < d)"

text \<open>Some operation is allowed, and events are sent only for what may be read.\<close>

definition permissions_ok :: "homekit_characteristic \<Rightarrow> bool" where
  "permissions_ok c \<longleftrightarrow>
     (c_permissions c AND (homekit_permissions_paired_read OR homekit_permissions_paired_write) \<noteq> 0) \<and>
     (c_permissions c AND homekit_permissions_notify \<noteq> 0 \<longrightarrow>
        c_permissions c AND homekit_permissions_paired_read \<noteq> 0)"

lemma table_bounds: "list_all bounds_ok (all_characteristics i b f s g)"
  unfolding all_characteristics_def bounds_ok_def
  by (simp add: characteristic_defs no_characteristic_def)

lemma table_permissions: "list_all permissions_ok (all_characteristics i b f s g)"
  unfolding all_characteristics_def permissions_ok_def
  by (simp add: characteristic_defs no_characteristic_def permission_defs)

lemma table_types: "distinct (map c_type (all_characteristics i b f s g))"
  unfolding all_characteristics_def by (simp add: characteristic_defs)

text \<open>
  The table of characteristics: whatever the arguments, all 136 declarations have different types, the
  minimum never exceeds the maximum, every listed valid value lies between them and is listed once, steps
  are positive, each characteristic can be read or written and events are offered only for readable
  ones.  Service types differ too, but for the two names of the speaker service.
\<close>

theorem characteristic_table_consistent:
  "distinct (map c_type (all_characteristics i b f s g)) \<and>
    list_all bounds_ok (all_characteristics i b f s g) \<and>
    list_all permissions_ok (all_characteristics i b f s g) \<and>
    HOMEKIT_SERVICE_TELEVISION_SPEAKER = HOMEKIT_SERVICE_SPEAKER \<and>
    distinct (remove1 HOMEKIT_SERVICE_TELEVISION_SPEAKER all_services)"
proof (intro conjI)
  show "distinct (remove1 HOMEKIT_SERVICE_TELEVISION_SPEAKER all_services)"
    unfolding all_services_def by (simp add: service_defs)
qed (simp_all add: table_types table_bounds table_permissions service_defs)

text \<open>
  Values have the format their characteristic declares.  Among the macros that initialise a value from
  their argument there are three exceptions, where \<open>homekit_accessories_init\<close> overwrites the
  format of the value without converting it: an 8-bit integer in the float of the particulate density
  (64), in the signed target vertical tilt angle (7D) and in the TLV of the display order (136).
  The tilt angle keeps the low 8 bits of its argument, so the legal angle \<open>-90\<close> becomes 166, outside
  the declared range.
\<close>

theorem characteristic_value_formats:
  "map c_type (filter (\<lambda>c. c_format c \<noteq> v_format (c_value c) \<and> c_value c \<noteq> zero_value)
      (all_characteristics i b f (Some s) g)) = [''64'', ''7D'', ''136''] \<and>
    uint (int_value (c_value (HOMEKIT_DECLARE_CHARACTERISTIC_TARGET_VERTICAL_TILT_ANGLE i))) = uint i mod 256 \<and>
    uint (int_value (c_value (HOMEKIT_DECLARE_CHARACTERISTIC_TARGET_VERTICAL_TILT_ANGLE (- 90)))) = 166"
proof (intro conjI)
  show "map c_type (filter (\<lambda>c. c_format c \<noteq> v_format (c_value c) \<and> c_value c \<noteq> zero_value)
      (all_characteristics i b f (Some s) g)) = [''64'', ''7D'', ''136'']"
    unfolding all_characteristics_def
    by (simp add: characteristic_defs no_characteristic_def constructor_defs)
  show *: "uint (int_value (c_value (HOMEKIT_DECLARE_CHARACTERISTIC_TARGET_VERTICAL_TILT_ANGLE x))) = uint x mod 256" for x
  proof -
    have "int_value (c_value (HOMEKIT_DECLARE_CHARACTERISTIC_TARGET_VERTICAL_TILT_ANGLE x)) = take_bit 8 x"
      by (simp add: HOMEKIT_DECLARE_CHARACTERISTIC_TARGET_VERTICAL_TILT_ANGLE_def constructor_defs int_value_def)
        (rule bit_word_eqI, auto simp: bit_simps)
    then show ?thesis by (simp only: unsigned_take_bit_eq) (simp add: take_bit_eq_mod)
  qed
  show "uint (int_value (c_value (HOMEKIT_DECLARE_CHARACTERISTIC_TARGET_VERTICAL_TILT_ANGLE (- 90)))) = 166"
    unfolding * by simp
qed

lemma int_value_INT: "int_value (HOMEKIT_INT m) = m"
  by (simp add: int_value_def HOMEKIT_INT_def) (rule bit_word_eqI, auto simp: bit_simps)

text \<open>
  Arguments and constants the header loses: the macros of the two rotation characteristics take a
  value and drop it (the characteristic is the same for every argument, with the value zero, while
  brightness and hue store theirs), and the valid image rotation of 270 degrees, written in a
  \<open>uint8_t\<close> array, is 14.
\<close>

theorem macro_arguments_lost:
  "HOMEKIT_DECLARE_CHARACTERISTIC_ROTATION_SPEED x = HOMEKIT_DECLARE_CHARACTERISTIC_ROTATION_SPEED y \<and>
    HOMEKIT_DECLARE_CHARACTERISTIC_ROTATION_DIRECTION m = HOMEKIT_DECLARE_CHARACTERISTIC_ROTATION_DIRECTION n \<and>
    c_value (HOMEKIT_DECLARE_CHARACTERISTIC_ROTATION_SPEED x) = zero_value \<and>
    int_value (c_value (HOMEKIT_DECLARE_CHARACTERISTIC_BRIGHTNESS m)) = m \<and>
    v_float (c_value (HOMEKIT_DECLARE_CHARACTERISTIC_HUE x)) = x \<and>
    map unat (c_valid_values (HOMEKIT_DECLARE_CHARACTERISTIC_IMAGE_ROTATION x)) = [0, 90, 180, 14]"
  by (simp add: HOMEKIT_DECLARE_CHARACTERISTIC_ROTATION_SPEED_def HOMEKIT_DECLARE_CHARACTERISTIC_ROTATION_DIRECTION_def
      HOMEKIT_DECLARE_CHARACTERISTIC_BRIGHTNESS_def HOMEKIT_DECLARE_CHARACTERISTIC_HUE_def no_characteristic_def
      HOMEKIT_DECLARE_CHARACTERISTIC_IMAGE_ROTATION_def int_value_INT HOMEKIT_FLOAT_def)

end
