(* ===== verification/Le_Words.thy ===== *)
theory Le_Words
  imports HK_Prelude
begin

text \<open>
  Little-endian words in memory, as the ciphers read and write them, and the numbers they stand for.
  The lemmas turn shifts, masks and disjunctions of words into division, remainder and sums, for
  the limb arithmetic of \<open>Poly1305\<close>.
\<close>

text \<open>The bytes of a word in memory, and the word at four bytes of memory.\<close>

definition word_bytes :: "u32 \<Rightarrow> byte list" where
  "word_bytes w = [ucast w, ucast (drop_bit 8 w), ucast (drop_bit 16 w), ucast (drop_bit 24 w)]"

definition U8TO32 :: "byte list \<Rightarrow> nat \<Rightarrow> u32" where
  "U8TO32 p i = (ucast (p ! i) OR push_bit 8 (ucast (p ! (i + 1)))
     OR push_bit 16 (ucast (p ! (i + 2))) OR push_bit 24 (ucast (p ! (i + 3))))"

section \<open>Numbers of byte lists\<close>

fun le_num :: "byte list \<Rightarrow> nat" where
  "le_num [] = 0"
| "le_num (b # bs) = unat b + 256 * le_num bs"

named_theorems le_simps "little-endian numbers"

lemma unat_byte_lt: "unat (b :: byte) < 256"
  using unsigned_less [of b] by simp

lemma le_num_append [le_simps]: "le_num (xs @ ys) = le_num xs + 256 ^ length xs * le_num ys"
  by (induction xs) (auto simp: algebra_simps)

lemma le_num_bound: "le_num xs < 256 ^ length xs"
proof (induction xs)
  case (Cons b bs)
  have "unat b + 256 * le_num bs < 256 + 256 * le_num bs" using unat_byte_lt [of b] by simp
  also have "\<dots> \<le> 256 * 256 ^ length bs" using Cons by simp
  finally show ?case by simp
qed simp

lemma le_num_replicate_0 [simp]: "le_num (replicate n 0) = 0"
  by (induction n) auto

lemma le_num_div_256: "le_num xs div 256 ^ n = le_num (drop n xs)"
proof (induction n arbitrary: xs)
  case (Suc n)
  show ?case
  proof (cases xs)
    case (Cons b bs)
    have "le_num xs div 256 ^ Suc n = le_num xs div 256 div 256 ^ n"
      by (simp add: div_mult2_eq)
    also have "le_num xs div 256 = le_num bs"
      using Cons unat_byte_lt [of b] by simp
    finally show ?thesis using Cons Suc by simp
  qed simp
qed simp

lemma le_num_mod_256: "le_num xs mod 256 ^ n = le_num (take n xs)"
proof (cases "n \<le> length xs")
  case True
  have "le_num xs = le_num (take n xs) + 256 ^ n * le_num (drop n xs)"
    using True le_num_append [of "take n xs" "drop n xs"] by simp
  moreover have "le_num (take n xs) < 256 ^ n"
    using le_num_bound [of "take n xs"] True by simp
  ultimately show ?thesis by simp
next
  case False
  have "le_num xs < 256 ^ length xs" by (rule le_num_bound)
  also have "(256 :: nat) ^ length xs \<le> 256 ^ n"
    by (rule power_increasing) (use False in auto)
  finally have "le_num xs < 256 ^ n" .
  then show ?thesis using False by simp
qed

lemma le_num_limb:
  assumes "j + n \<le> 8 * k"
  shows "le_num (take k (drop i p)) div 2 ^ j mod 2 ^ n = le_num p div 2 ^ (8 * i + j) mod 2 ^ n"
proof -
  have e: "(256 :: nat) ^ m = 2 ^ (8 * m)" for m by (simp add: power_mult)
  have "le_num (take k (drop i p)) = le_num p div 2 ^ (8 * i) mod 2 ^ (8 * k)"
    by (simp add: le_num_mod_256 [symmetric] le_num_div_256 [symmetric] e)
  then have "le_num (take k (drop i p)) div 2 ^ j mod 2 ^ n
      = take_bit n (drop_bit j (take_bit (8 * k) (drop_bit (8 * i) (le_num p))))"
    by (simp add: take_bit_eq_mod drop_bit_eq_div)
  also have "\<dots> = take_bit n (drop_bit (8 * i + j) (le_num p))"
    using assms by (auto simp: drop_bit_take_bit ac_simps min_def)
  finally show ?thesis by (simp add: take_bit_eq_mod drop_bit_eq_div)
qed

section \<open>Words as numbers\<close>

lemma or_plus:
  fixes a b :: "'a::len word"
  assumes "unat a < 2 ^ k"
  shows "a OR push_bit k b = a + push_bit k b"
proof (rule disjunctive_add [symmetric])
  fix n
  have "take_bit k a = a"
    using assms by (metis take_bit_nat_eq_self_iff unsigned_take_bit_eq word_unat_eq_iff)
  then have "\<not> bit a n" if "k \<le> n"
    using that by (metis bit_take_bit_iff linorder_not_less)
  then show "\<not> bit a n \<or> \<not> bit (push_bit k b) n"
    by (auto simp: bit_push_bit_iff)
qed

lemma unat_add_small:
  fixes a b :: "'a::len word"
  shows "unat a + unat b < 2 ^ LENGTH('a) \<Longrightarrow> unat (a + b) = unat a + unat b"
  by (simp add: unat_word_ariths)

lemma unat_mult_small:
  fixes a b :: "'a::len word"
  shows "unat a * unat b < 2 ^ LENGTH('a) \<Longrightarrow> unat (a * b) = unat a * unat b"
  by (simp add: unat_word_ariths)

lemma unat_push_bit_small:
  fixes a :: "'a::len word"
  shows "unat a * 2 ^ k < 2 ^ LENGTH('a) \<Longrightarrow> unat (push_bit k a) = unat a * 2 ^ k"
  by (simp add: unsigned_push_bit_eq take_bit_eq_mod) (simp add: push_bit_eq_mult)

lemma unat_ucast_up:
  fixes a :: "'a::len word"
  assumes "LENGTH('a) \<le> LENGTH('b::len)"
  shows "unat (ucast a :: 'b word) = unat a"
proof -
  have "unat a < 2 ^ LENGTH('a)" by (rule unsigned_less)
  also have "\<dots> \<le> (2 :: nat) ^ LENGTH('b)" by (rule power_increasing) (use assms in auto)
  finally show ?thesis by (simp add: unsigned_ucast_eq take_bit_nat_eq_self_iff)
qed

lemma unat_drop_bit: "unat (drop_bit k (a :: 'a::len word)) = unat a div 2 ^ k"
  unfolding unat_drop_bit_eq by (rule drop_bit_eq_div)

lemma unat_or_push:
  fixes a b :: "'a::len word"
  assumes a: "unat a < 2 ^ k" and b: "unat b * 2 ^ k + 2 ^ k \<le> 2 ^ LENGTH('a)"
  shows "unat (a OR push_bit k b) = unat a + unat b * 2 ^ k"
proof -
  have "unat (push_bit k b) = unat b * 2 ^ k"
    by (rule unat_push_bit_small) (use b in \<open>simp add: less_le_trans [OF _ b]\<close>)
  then show ?thesis
    using a b by (simp add: or_plus unat_add_small)
qed

lemma unat_ucast_byte32 [simp]: "unat (ucast (b :: byte) :: u32) = unat b"
  by (rule unat_ucast_up) simp

lemma unat_ucast_32_64 [simp]: "unat (ucast (b :: u32) :: u64) = unat b"
  by (rule unat_ucast_up) simp

lemma unat_U8TO32:
  assumes "i + 4 \<le> length p"
  shows "unat (U8TO32 p i) = le_num (take 4 (drop i p))"
proof -
  define a b c d where "a = p ! i" and "b = p ! (i + 1)" and "c = p ! (i + 2)" and "d = p ! (i + 3)"
  have "take 4 (drop i p) = [a, b, c, d]"
    using assms by (auto simp: a_def b_def c_def d_def take_Suc_conv_app_nth numeral_eq_Suc nth_append
        intro!: nth_equalityI simp: less_Suc_eq)
  moreover have "unat (U8TO32 p i) = unat a + unat b * 2 ^ 8 + unat c * 2 ^ 16 + unat d * 2 ^ 24"
  proof -
    let ?y = "ucast a OR push_bit 8 (ucast b) :: u32"
    let ?z = "?y OR push_bit 16 (ucast c)"
    note lt = unat_byte_lt [of a] unat_byte_lt [of b] unat_byte_lt [of c] unat_byte_lt [of d]
    have y: "unat ?y = unat a + unat b * 2 ^ 8"
      using lt(1,2) by (subst unat_or_push) auto
    have z: "unat ?z = unat a + unat b * 2 ^ 8 + unat c * 2 ^ 16"
      using lt(1-3) y by (subst unat_or_push) auto
    show ?thesis
      unfolding U8TO32_def a_def [symmetric] b_def [symmetric] c_def [symmetric] d_def [symmetric]
      using lt z by (simp only: or.assoc [symmetric], subst unat_or_push) auto
  qed
  ultimately show ?thesis
    by simp
qed

lemma length_word_bytes [simp]: "length (word_bytes w) = 4"
  by (simp add: word_bytes_def)

lemma le_num_word_bytes: "le_num (word_bytes w) = unat w"
proof -
  have b: "unat (ucast x :: byte) = unat x mod 256" for x :: u32
    by (simp add: unsigned_ucast_eq take_bit_eq_mod)
  have "unat w < 2 ^ 32" using unsigned_less [of w] by simp
  then have "unat w div 16777216 mod 256 = unat w div 16777216" by simp
  moreover have "unat w div 65536 = unat w div 256 div 256" "unat w div 16777216 = unat w div 256 div 256 div 256"
    by (simp_all add: div_mult2_eq [symmetric])
  ultimately show ?thesis
    by (simp add: word_bytes_def b unat_drop_bit)
qed

lemma U8TO32_word_bytes: "U8TO32 (word_bytes w) 0 = w"
proof -
  have "unat (U8TO32 (word_bytes w) 0) = unat w"
    by (simp add: unat_U8TO32 le_num_word_bytes)
  then show ?thesis by (simp add: word_unat_eq_iff)
qed

end
