(* ===== verification/Chacha20.thy ===== *)
theory Chacha20
  imports Le_Words Ed25519
begin

text \<open>
  The ChaCha20 stream cipher of \<open>src/wolfcrypt/src/chacha.c\<close>, in the portable C configuration the
  ESP8266 (32-bit, little endian) builds.  Words keep their width; the context is its array of
  sixteen words.  The lemmas show that a call encrypts with a key stream that depends only on the
  context and the block counter, so that the same call decrypts.
\<close>

definition rotlFixed :: "u32 \<Rightarrow> nat \<Rightarrow> u32" where
  "rotlFixed x y = (push_bit y x OR drop_bit (32 - y) x)"

definition QUARTERROUND :: "nat \<Rightarrow> nat \<Rightarrow> nat \<Rightarrow> nat \<Rightarrow> u32 list \<Rightarrow> u32 list" where
  "QUARTERROUND a b c d x =
     (let x = x[a := x ! a + x ! b]; x = x[d := rotlFixed (x ! d XOR x ! a) 16];
          x = x[c := x ! c + x ! d]; x = x[b := rotlFixed (x ! b XOR x ! c) 12];
          x = x[a := x ! a + x ! b]; x = x[d := rotlFixed (x ! d XOR x ! a) 8];
          x = x[c := x ! c + x ! d]; x = x[b := rotlFixed (x ! b XOR x ! c) 7] in x)"

text \<open>One pass of the round loop, which runs ten times.\<close>

definition double_round :: "u32 list \<Rightarrow> u32 list" where
  "double_round x =
     (let x = QUARTERROUND 0 4 8 12 x; x = QUARTERROUND 1 5 9 13 x;
          x = QUARTERROUND 2 6 10 14 x; x = QUARTERROUND 3 7 11 15 x;
          x = QUARTERROUND 0 5 10 15 x; x = QUARTERROUND 1 6 11 12 x;
          x = QUARTERROUND 2 7 8 13 x; x = QUARTERROUND 3 4 9 14 x in x)"

fun rounds :: "nat \<Rightarrow> u32 list \<Rightarrow> u32 list" where
  "rounds 0 x = x"
| "rounds (Suc n) x = rounds n (double_round x)"

definition wc_Chacha_wordtobyte :: "u32 list \<Rightarrow> u32 list" where
  "wc_Chacha_wordtobyte inp = map2 (+) (rounds 10 inp) inp"

definition sigma :: "u32 list" where
  "sigma = [0x61707865, 0x3320646e, 0x79622d32, 0x6b206574]"

definition tau :: "u32 list" where
  "tau = [0x61707865, 0x3120646e, 0x79622d36, 0x6b206574]"

text \<open>The context is its array \<open>X\<close> of sixteen words.\<close>

definition wc_Chacha_SetKey :: "u32 list \<Rightarrow> byte list \<Rightarrow> int \<times> u32 list" where
  "wc_Chacha_SetKey X key =
     (if length key \<noteq> 16 \<and> length key \<noteq> 32 then (BAD_FUNC_ARG, X)
      else (let k = (if length key = 32 then 16 else 0);
                constants = (if length key = 32 then sigma else tau) in
        (0, constants @ map (U8TO32 key) [0, 4, 8, 12] @ map (U8TO32 key) [k, k + 4, k + 8, k + 12] @ drop 12 X)))"

definition wc_Chacha_SetIV :: "u32 list \<Rightarrow> byte list \<Rightarrow> u32 \<Rightarrow> u32 list" where
  "wc_Chacha_SetIV X inIv counter = take 12 X @ [counter, U8TO32 inIv 0, U8TO32 inIv 4, U8TO32 inIv 8]"

definition key_block :: "u32 list \<Rightarrow> byte list" where
  "key_block X = concat (map word_bytes (wc_Chacha_wordtobyte X))"

function wc_Chacha_encrypt_bytes :: "u32 list \<Rightarrow> byte list \<Rightarrow> u32 list \<times> byte list" where
  "wc_Chacha_encrypt_bytes X m =
     (if m = [] then (X, [])
      else (let out = key_block X; X' = X[12 := X ! 12 + 1] in
            if length m \<le> 64 then (X', map2 (XOR) m out)
            else (let (X'', c) = wc_Chacha_encrypt_bytes X' (drop 64 m) in
                  (X'', map2 (XOR) (take 64 m) out @ c))))"
  by pat_completeness auto
termination
  by (relation "measure (\<lambda>(_, m). length m)") auto

declare wc_Chacha_encrypt_bytes.simps [simp del]

definition wc_Chacha_Process :: "u32 list \<Rightarrow> byte list \<Rightarrow> u32 list \<times> byte list" where
  "wc_Chacha_Process X inp = wc_Chacha_encrypt_bytes X inp"


section \<open>The key stream\<close>

text \<open>The key stream of \<open>n\<close> blocks: the counter is word 12 of the context and wraps at 32 bits.\<close>

definition key_stream :: "u32 list \<Rightarrow> nat \<Rightarrow> byte list" where
  "key_stream X n = concat (map (\<lambda>i. key_block (X[12 := X ! 12 + of_nat i])) [0..<n])"

definition blocks_of :: "nat \<Rightarrow> nat" where
  "blocks_of n = (n + 63) div 64"

lemma length_QUARTERROUND [simp]: "length (QUARTERROUND a b c d x) = length x"
  by (simp add: QUARTERROUND_def Let_def)

lemma length_rounds [simp]: "length (rounds n x) = length x"
  by (induction n arbitrary: x) (auto simp: double_round_def Let_def)

lemma length_key_block: "length X = 16 \<Longrightarrow> length (key_block X) = 64"
  by (simp add: key_block_def wc_Chacha_wordtobyte_def length_concat comp_def sum_list_triv)

lemma length_key_stream: "length X = 16 \<Longrightarrow> length (key_stream X n) = 64 * n"
  by (simp add: key_stream_def length_concat comp_def length_key_block sum_list_triv)

lemma key_stream_Suc:
  assumes "length X = 16"
  shows "key_stream X (Suc n) = key_block X @ key_stream (X[12 := X ! 12 + 1]) n"
proof -
  have "key_stream X (Suc n) = key_block X @ concat (map (\<lambda>i. key_block (X[12 := X ! 12 + of_nat i])) (map Suc [0..<n]))"
    by (simp add: key_stream_def upt_conv_Cons map_Suc_upt del: upt_Suc)
  then show ?thesis
    using assms by (simp add: key_stream_def comp_def add.assoc)
qed

lemma blocks_of_small: "0 < n \<Longrightarrow> n \<le> 64 \<Longrightarrow> blocks_of n = 1"
  by (simp add: blocks_of_def)

lemma blocks_of_step: "64 < n \<Longrightarrow> blocks_of n = Suc (blocks_of (n - 64))"
  by (simp add: blocks_of_def)

lemma map2_append_right: "length xs \<le> length ys \<Longrightarrow> map2 f xs (ys @ zs) = map2 f xs ys"
  by (simp add: zip_append2)

lemma encrypt_bytes_stream:
  assumes "length X = 16"
  shows "wc_Chacha_encrypt_bytes X m =
    (X[12 := X ! 12 + of_nat (blocks_of (length m))], map2 (XOR) m (key_stream X (blocks_of (length m))))"
  using assms
proof (induction X m rule: wc_Chacha_encrypt_bytes.induct)
  case (1 X m)
  let ?X = "X[12 := X ! 12 + 1]"
  consider "m = []" | "m \<noteq> []" "length m \<le> 64" | "64 < length m"
    by fastforce
  then show ?case
  proof cases
    case 1
    then show ?thesis by (simp add: wc_Chacha_encrypt_bytes.simps blocks_of_def)
  next
    case 2
    then show ?thesis
      using "1.prems" by (simp add: wc_Chacha_encrypt_bytes.simps blocks_of_small key_stream_Suc) (simp add: key_stream_def)
  next
    case 3
    let ?n = "blocks_of (length m - 64)"
    have m: "m = take 64 m @ drop 64 m" by simp
    have IH: "wc_Chacha_encrypt_bytes ?X (drop 64 m) =
        (?X[12 := ?X ! 12 + of_nat ?n], map2 (XOR) (drop 64 m) (key_stream ?X ?n))"
    proof -
      have "m \<noteq> []" using 3 by auto
      then show ?thesis using "1.IH" [OF _ refl refl] 3 "1.prems" by auto
    qed
    have "wc_Chacha_encrypt_bytes X m =
        (X[12 := X ! 12 + of_nat (Suc ?n)], map2 (XOR) (take 64 m) (key_block X) @ map2 (XOR) (drop 64 m) (key_stream ?X ?n))"
      by (subst wc_Chacha_encrypt_bytes.simps) (use 3 IH "1.prems" in \<open>auto simp: Let_def ac_simps\<close>)
    also have "map2 (XOR) (take 64 m) (key_block X) @ map2 (XOR) (drop 64 m) (key_stream ?X ?n)
        = map2 (XOR) m (key_stream X (Suc ?n))"
      by (subst (3) m) (use 3 "1.prems" in \<open>simp add: key_stream_Suc zip_append length_key_block del: append_take_drop_id\<close>)
    finally show ?thesis using 3 by (simp add: blocks_of_step)
  qed
qed

lemma map2_xor_twice:
  fixes ks :: "byte list"
  assumes "length m \<le> length ks"
  shows "map2 (XOR) (map2 (XOR) m ks) ks = m"
  using assms
proof (induction m arbitrary: ks)
  case (Cons b m)
  then show ?case by (cases ks) (auto simp: xor.assoc)
qed simp

lemma length_encrypt_bytes [simp]:
  "length X = 16 \<Longrightarrow> length (snd (wc_Chacha_encrypt_bytes X m)) = length m"
  by (simp add: encrypt_bytes_stream length_key_stream blocks_of_def)

lemma Process_twice:
  assumes "length X = 16"
  shows "wc_Chacha_Process X (snd (wc_Chacha_Process X m)) = (fst (wc_Chacha_Process X m), m)"
proof -
  have "length m \<le> length (key_stream X (blocks_of (length m)))"
    using assms by (simp add: length_key_stream blocks_of_def)
  then show ?thesis
    using assms by (simp add: wc_Chacha_Process_def encrypt_bytes_stream map2_xor_twice)
qed

end
