(* ===== verification/Poly1305.thy ===== *)
theory Poly1305
  imports Le_Words
begin

text \<open>
  The Poly1305 authenticator of \<open>src/wolfcrypt/src/poly1305.c\<close>, in the portable C configuration of the
  ESP8266: numbers modulo \<open>2 ^ 130 - 5\<close> kept in five limbs of 26 bits, products in 64 bits.  The
  lemmas read the limbs as numbers: one block multiplies and reduces without any overflow.  The
  theory \<open>Poly1305_Tag\<close> continues with whole messages and the tag.
\<close>

type_synonym limbs = "u32 \<times> u32 \<times> u32 \<times> u32 \<times> u32"

text \<open>\<open>leftover\<close> is the length of \<open>po_buffer\<close>.\<close>

record poly1305 =
  po_r :: limbs
  po_h :: limbs
  po_pad :: "u32 \<times> u32 \<times> u32 \<times> u32"
  po_buffer :: "byte list"
  po_finished :: bool

text \<open>\<open>(word32)d & 0x3ffffff\<close> and \<open>(word32)(d >> 26)\<close>.\<close>

definition lo26 :: "u64 \<Rightarrow> u32" where
  "lo26 d = (ucast d AND 0x3ffffff)"

definition hi26 :: "u64 \<Rightarrow> u32" where
  "hi26 d = ucast (drop_bit 26 d)"

text \<open>One turn of the loop of \<open>poly1305_blocks\<close>.\<close>

definition poly1305_step :: "u32 \<Rightarrow> limbs \<Rightarrow> limbs \<Rightarrow> byte list \<Rightarrow> limbs" where
  "poly1305_step hibit r h m =
     (case (r, h) of ((r0, r1, r2, r3, r4), (h0, h1, h2, h3, h4)) \<Rightarrow>
        let s1 = r1 * 5; s2 = r2 * 5; s3 = r3 * 5; s4 = r4 * 5;
            h0 = h0 + (U8TO32 m 0 AND 0x3ffffff);
            h1 = h1 + (drop_bit 2 (U8TO32 m 3) AND 0x3ffffff);
            h2 = h2 + (drop_bit 4 (U8TO32 m 6) AND 0x3ffffff);
            h3 = h3 + (drop_bit 6 (U8TO32 m 9) AND 0x3ffffff);
            h4 = h4 + (drop_bit 8 (U8TO32 m 12) OR hibit);
            d0 = (ucast h0 * ucast r0 + ucast h1 * ucast s4 + ucast h2 * ucast s3
                  + ucast h3 * ucast s2 + ucast h4 * ucast s1 :: u64);
            d1 = (ucast h0 * ucast r1 + ucast h1 * ucast r0 + ucast h2 * ucast s4
                  + ucast h3 * ucast s3 + ucast h4 * ucast s2 :: u64);
            d2 = (ucast h0 * ucast r2 + ucast h1 * ucast r1 + ucast h2 * ucast r0
                  + ucast h3 * ucast s4 + ucast h4 * ucast s3 :: u64);
            d3 = (ucast h0 * ucast r3 + ucast h1 * ucast r2 + ucast h2 * ucast r1
                  + ucast h3 * ucast r0 + ucast h4 * ucast s4 :: u64);
            d4 = (ucast h0 * ucast r4 + ucast h1 * ucast r3 + ucast h2 * ucast r2
                  + ucast h3 * ucast r1 + ucast h4 * ucast r0 :: u64);
            c = hi26 d0; h0 = lo26 d0;
            d1 = d1 + ucast c; c = hi26 d1; h1 = lo26 d1;
            d2 = d2 + ucast c; c = hi26 d2; h2 = lo26 d2;
            d3 = d3 + ucast c; c = hi26 d3; h3 = lo26 d3;
            d4 = d4 + ucast c; c = hi26 d4; h4 = lo26 d4;
            h0 = h0 + c * 5; c = drop_bit 26 h0; h0 = h0 AND 0x3ffffff;
            h1 = h1 + c in
        (h0, h1, h2, h3, h4))"

function blocks_loop :: "u32 \<Rightarrow> limbs \<Rightarrow> limbs \<Rightarrow> byte list \<Rightarrow> limbs" where
  "blocks_loop hibit r h m =
     (if length m \<ge> 16 then blocks_loop hibit r (poly1305_step hibit r h m) (drop 16 m) else h)"
  by pat_completeness auto
termination
  by (relation "measure (\<lambda>(_, _, _, m). length m)") auto

declare blocks_loop.simps [simp del]

definition poly1305_blocks :: "poly1305 \<Rightarrow> byte list \<Rightarrow> poly1305" where
  "poly1305_blocks ctx m =
     ctx\<lparr>po_h := blocks_loop (if po_finished ctx then 0 else 0x1000000) (po_r ctx) (po_h ctx) m\<rparr>"

definition poly1305_block :: "poly1305 \<Rightarrow> byte list \<Rightarrow> poly1305" where
  "poly1305_block ctx m = poly1305_blocks ctx (take 16 m)"

definition wc_Poly1305SetKey :: "byte list \<Rightarrow> poly1305" where
  "wc_Poly1305SetKey key =
     \<lparr>po_r = (U8TO32 key 0 AND 0x3ffffff, drop_bit 2 (U8TO32 key 3) AND 0x3ffff03,
              drop_bit 4 (U8TO32 key 6) AND 0x3ffc0ff, drop_bit 6 (U8TO32 key 9) AND 0x3f03fff,
              drop_bit 8 (U8TO32 key 12) AND 0x00fffff),
      po_h = (0, 0, 0, 0, 0),
      po_pad = (U8TO32 key 16, U8TO32 key 20, U8TO32 key 24, U8TO32 key 28),
      po_buffer = [], po_finished = False\<rparr>"

definition wc_Poly1305Update :: "poly1305 \<Rightarrow> byte list \<Rightarrow> poly1305" where
  "wc_Poly1305Update ctx m =
     (let fin = (\<lambda>ctx m.
            (let want = length m div 16 * 16;
                 ctx = (if length m \<ge> 16 then poly1305_blocks ctx (take want m) else ctx);
                 m = drop want m in
             if m \<noteq> [] then ctx\<lparr>po_buffer := po_buffer ctx @ m\<rparr> else ctx)) in
      if po_buffer ctx \<noteq> [] then
        (let want = min (16 - length (po_buffer ctx)) (length m);
             ctx = ctx\<lparr>po_buffer := po_buffer ctx @ take want m\<rparr>; m = drop want m in
         if length (po_buffer ctx) < 16 then ctx
         else fin ((poly1305_block ctx (po_buffer ctx))\<lparr>po_buffer := []\<rparr>) m)
      else fin ctx m)"

text \<open>The last block, padded with a one and zeros.\<close>

definition last_block :: "poly1305 \<Rightarrow> poly1305" where
  "last_block ctx =
     (if po_buffer ctx \<noteq> [] then
        poly1305_block (ctx\<lparr>po_finished := True\<rparr>)
          (po_buffer ctx @ [1] @ replicate (15 - length (po_buffer ctx)) 0)
      else ctx)"

text \<open>The carries, the reduction and the addition of the pad.\<close>

definition poly1305_tag :: "limbs \<Rightarrow> u32 \<times> u32 \<times> u32 \<times> u32 \<Rightarrow> byte list" where
  "poly1305_tag h pad =
     (case (h, pad) of ((h0, h1, h2, h3, h4), (p0, p1, p2, p3)) \<Rightarrow>
        let c = drop_bit 26 h1; h1 = h1 AND 0x3ffffff;
            h2 = h2 + c; c = drop_bit 26 h2; h2 = h2 AND 0x3ffffff;
            h3 = h3 + c; c = drop_bit 26 h3; h3 = h3 AND 0x3ffffff;
            h4 = h4 + c; c = drop_bit 26 h4; h4 = h4 AND 0x3ffffff;
            h0 = h0 + c * 5; c = drop_bit 26 h0; h0 = h0 AND 0x3ffffff;
            h1 = h1 + c;
            g0 = h0 + 5; c = drop_bit 26 g0; g0 = g0 AND 0x3ffffff;
            g1 = h1 + c; c = drop_bit 26 g1; g1 = g1 AND 0x3ffffff;
            g2 = h2 + c; c = drop_bit 26 g2; g2 = g2 AND 0x3ffffff;
            g3 = h3 + c; c = drop_bit 26 g3; g3 = g3 AND 0x3ffffff;
            g4 = h4 + c - 0x4000000;
            mask = drop_bit 31 g4 - 1;
            g0 = g0 AND mask; g1 = g1 AND mask; g2 = g2 AND mask; g3 = g3 AND mask; g4 = g4 AND mask;
            mask = NOT mask;
            h0 = (h0 AND mask) OR g0; h1 = (h1 AND mask) OR g1; h2 = (h2 AND mask) OR g2;
            h3 = (h3 AND mask) OR g3; h4 = (h4 AND mask) OR g4;
            h0' = (h0 OR push_bit 26 h1);
            h1' = (drop_bit 6 h1 OR push_bit 20 h2);
            h2' = (drop_bit 12 h2 OR push_bit 14 h3);
            h3' = (drop_bit 18 h3 OR push_bit 8 h4);
            f0 = (ucast h0' + ucast p0 :: u64);
            f1 = (ucast h1' + ucast p1 + drop_bit 32 f0 :: u64);
            f2 = (ucast h2' + ucast p2 + drop_bit 32 f1 :: u64);
            f3 = (ucast h3' + ucast p3 + drop_bit 32 f2 :: u64) in
        word_bytes (ucast f0) @ word_bytes (ucast f1) @ word_bytes (ucast f2) @ word_bytes (ucast f3))"

definition wc_Poly1305Final :: "poly1305 \<Rightarrow> byte list" where
  "wc_Poly1305Final ctx = (let ctx = last_block ctx in poly1305_tag (po_h ctx) (po_pad ctx))"

section \<open>Limbs as numbers\<close>

abbreviation B26 :: nat where "B26 \<equiv> 67108864"

definition num5 :: "nat \<Rightarrow> nat \<Rightarrow> nat \<Rightarrow> nat \<Rightarrow> nat \<Rightarrow> nat" where
  "num5 a b c d e = a + B26 * (b + B26 * (c + B26 * (d + B26 * e)))"

definition poly_p :: nat where
  "poly_p = 2 ^ 130 - 5"

fun limbs_num :: "limbs \<Rightarrow> nat" where
  "limbs_num (a, b, c, d, e) = num5 (unat a) (unat b) (unat c) (unat d) (unat e)"

text \<open>Between blocks only limb 1 may exceed 26 bits, by less than 64.\<close>

fun limbs_ok :: "limbs \<Rightarrow> bool" where
  "limbs_ok (a, b, c, d, e) \<longleftrightarrow> unat a < B26 \<and> unat b < B26 + 64 \<and> unat c < B26 \<and> unat d < B26 \<and> unat e < B26"

fun key_ok :: "limbs \<Rightarrow> bool" where
  "key_ok (a, b, c, d, e) \<longleftrightarrow> unat a < B26 \<and> unat b < B26 \<and> unat c < B26 \<and> unat d < B26 \<and> unat e < 1048576"

lemma unat_mask26 [le_simps]: "unat (x AND 0x3ffffff :: u32) = unat x mod B26"
proof -
  have "x AND 0x3ffffff = take_bit 26 x"
    by (simp add: take_bit_eq_mask mask_numeral)
  then have "unat (x AND 0x3ffffff) = take_bit 26 (unat x)"
    by (simp only: unsigned_take_bit_eq)
  then show ?thesis by (simp add: take_bit_eq_mod)
qed

lemma unat_lo26 [le_simps]: "unat (lo26 d) = unat d mod B26"
  by (simp add: lo26_def unat_mask26 unsigned_ucast_eq take_bit_eq_mod mod_mod_cancel)

lemma unat_hi26 [le_simps]:
  assumes "unat d < 2 ^ 58"
  shows "unat (hi26 d) = unat d div B26"
  using assms by (simp add: hi26_def unsigned_ucast_eq unat_drop_bit take_bit_eq_mod)

lemma unat_drop26 [le_simps]: "unat (drop_bit 26 (x :: u32)) = unat x div B26"
  by (simp add: unat_drop_bit)

lemma unat_times5 [le_simps]: "unat (x :: u32) < 2 ^ 29 \<Longrightarrow> unat (x * 5) = unat x * 5"
  by (simp add: unat_mult_small)

lemma unat_prod_64:
  fixes a b :: u32
  assumes "unat a < 2 ^ 28" and "unat b < 2 ^ 29"
  shows "unat (ucast a * ucast b :: u64) = unat a * unat b \<and> unat a * unat b < 2 ^ 57"
proof -
  have "unat a * unat b < 2 ^ 28 * 2 ^ 29"
    by (rule mult_strict_mono) (use assms in auto)
  then show ?thesis by (simp add: unat_mult_small)
qed

text \<open>Five products of a limb (below \<open>2 ^ 27 + 64\<close>) with a key limb or its fivefold.\<close>

lemma unat_dot5:
  fixes a0 a1 a2 a3 a4 b0 b1 b2 b3 b4 :: u32
  assumes "unat a0 < 2 ^ 28" "unat a1 < 2 ^ 28" "unat a2 < 2 ^ 28" "unat a3 < 2 ^ 28" "unat a4 < 2 ^ 28"
    and "unat b0 < 2 ^ 29" "unat b1 < 2 ^ 29" "unat b2 < 2 ^ 29" "unat b3 < 2 ^ 29" "unat b4 < 2 ^ 29"
  shows "unat (ucast a0 * ucast b0 + ucast a1 * ucast b1 + ucast a2 * ucast b2 + ucast a3 * ucast b3
      + ucast a4 * ucast b4 :: u64) =
    unat a0 * unat b0 + unat a1 * unat b1 + unat a2 * unat b2 + unat a3 * unat b3 + unat a4 * unat b4"
proof -
  note p = unat_prod_64 [OF assms(1) assms(6)] unat_prod_64 [OF assms(2) assms(7)]
    unat_prod_64 [OF assms(3) assms(8)] unat_prod_64 [OF assms(4) assms(9)] unat_prod_64 [OF assms(5) assms(10)]
  show ?thesis
    using p by (simp add: unat_add_small)
qed

section \<open>One block\<close>

text \<open>The arithmetic of the loop body on numbers.\<close>

definition carry_chain :: "nat \<Rightarrow> nat \<Rightarrow> nat \<Rightarrow> nat \<Rightarrow> nat \<Rightarrow> nat \<times> nat \<times> nat \<times> nat \<times> nat" where
  "carry_chain d0 d1 d2 d3 d4 =
     (let d1 = d1 + d0 div B26; d2 = d2 + d1 div B26; d3 = d3 + d2 div B26; d4 = d4 + d3 div B26;
          h0 = d0 mod B26 + d4 div B26 * 5 in
      (h0 mod B26, d1 mod B26 + h0 div B26, d2 mod B26, d3 mod B26, d4 mod B26))"

lemma num5_carry:
  assumes "carry_chain d0 d1 d2 d3 d4 = (a, b, c, d, e)"
  shows "\<exists>k. num5 d0 d1 d2 d3 d4 = num5 a b c d e + k * poly_p"
proof -
  define c1 c2 c3 c4 c5 where "c1 = d0 div B26" and "c2 = (d1 + c1) div B26" and "c3 = (d2 + c2) div B26"
    and "c4 = (d3 + c3) div B26" and "c5 = (d4 + c4) div B26"
  define h0 where "h0 = d0 mod B26 + c5 * 5"
  have abc: "a = h0 mod B26" "b = (d1 + c1) mod B26 + h0 div B26" "c = (d2 + c2) mod B26"
      "d = (d3 + c3) mod B26" "e = (d4 + c4) mod B26"
    using assms by (simp_all add: carry_chain_def Let_def c1_def c2_def c3_def c4_def c5_def h0_def)
  have D: "d0 = d0 mod B26 + B26 * c1" "d1 + c1 = (d1 + c1) mod B26 + B26 * c2"
      "d2 + c2 = c + B26 * c3" "d3 + c3 = d + B26 * c4" "d4 + c4 = e + B26 * c5"
      "d0 mod B26 + c5 * 5 = a + B26 * (h0 div B26)"
    by (simp_all only: abc c1_def c2_def c3_def c4_def c5_def mod_mult_div_eq h0_def)
  have "num5 d0 d1 d2 d3 d4 = num5 a b c d e + c5 * poly_p"
    using D abc(2) by (simp add: num5_def poly_p_def)
  then show ?thesis ..
qed

lemma carry_chain_bounds:
  assumes c: "carry_chain d0 d1 d2 d3 d4 = (a, b, c, d, e)"
    and d: "d0 < 2 ^ 58" "d1 < 2 ^ 58" "d2 < 2 ^ 58" "d3 < 2 ^ 58" "d4 < 2 ^ 55 + 2 ^ 53"
  shows "a < B26 \<and> b < B26 + 64 \<and> c < B26 \<and> d < B26 \<and> e < B26"
proof -
  define e1 where "e1 = d1 + d0 div B26"
  define e2 where "e2 = d2 + e1 div B26"
  define e3 where "e3 = d3 + e2 div B26"
  define e4 where "e4 = d4 + e3 div B26"
  define h0 where "h0 = d0 mod B26 + e4 div B26 * 5"
  have abc: "a = h0 mod B26" "b = e1 mod B26 + h0 div B26" "c = e2 mod B26" "d = e3 mod B26" "e = e4 mod B26"
    using c by (simp_all only: carry_chain_def Let_def e1_def e2_def e3_def e4_def h0_def prod.inject)
  have "e1 < 2 ^ 59" unfolding e1_def using d(1,2) by simp
  then have "e2 < 2 ^ 59" unfolding e2_def using d(3) by simp
  then have "e3 < 2 ^ 59" unfolding e3_def using d(4) by simp
  then have "e4 < 2 ^ 55 + 2 ^ 54" unfolding e4_def using d(5) by simp
  then have "e4 div B26 < 805306369" by simp
  moreover have "d0 mod B26 < B26" by simp
  ultimately have "h0 < 64 * B26" unfolding h0_def by linarith
  then have "h0 div B26 < 64" by (simp add: less_mult_imp_div_less)
  moreover have "e1 mod B26 < B26" by simp
  ultimately show ?thesis unfolding abc by simp
qed

text \<open>A product of a number in five limbs with the key, and its reduction by \<open>2 ^ 130 = 5\<close>.\<close>

lemma mult5_int:
  fixes B :: int
  shows "(a0 + B * (a1 + B * (a2 + B * (a3 + B * a4)))) * (b0 + B * (b1 + B * (b2 + B * (b3 + B * b4)))) =
    (a0 * b0 + a1 * (b4 * 5) + a2 * (b3 * 5) + a3 * (b2 * 5) + a4 * (b1 * 5))
    + B * ((a0 * b1 + a1 * b0 + a2 * (b4 * 5) + a3 * (b3 * 5) + a4 * (b2 * 5))
    + B * ((a0 * b2 + a1 * b1 + a2 * b0 + a3 * (b4 * 5) + a4 * (b3 * 5))
    + B * ((a0 * b3 + a1 * b2 + a2 * b1 + a3 * b0 + a4 * (b4 * 5))
    + B * (a0 * b4 + a1 * b3 + a2 * b2 + a3 * b1 + a4 * b0))))
    + (B ^ 5 - 5) * ((a1 * b4 + a2 * b3 + a3 * b2 + a4 * b1)
      + B * ((a2 * b4 + a3 * b3 + a4 * b2) + B * ((a3 * b4 + a4 * b3) + B * (a4 * b4))))"
  by algebra

lemma mod_eq_int:
  assumes "int l = int r + int p * int k"
  shows "l mod p = r mod p"
proof -
  have "int l = int (r + p * k)" using assms by simp
  then have "l = r + p * k" by (simp only: of_nat_eq_iff)
  then show ?thesis by simp
qed

lemma num5_mult:
  "num5 a0 a1 a2 a3 a4 * num5 b0 b1 b2 b3 b4 mod poly_p =
    num5 (a0 * b0 + a1 * (b4 * 5) + a2 * (b3 * 5) + a3 * (b2 * 5) + a4 * (b1 * 5))
      (a0 * b1 + a1 * b0 + a2 * (b4 * 5) + a3 * (b3 * 5) + a4 * (b2 * 5))
      (a0 * b2 + a1 * b1 + a2 * b0 + a3 * (b4 * 5) + a4 * (b3 * 5))
      (a0 * b3 + a1 * b2 + a2 * b1 + a3 * b0 + a4 * (b4 * 5))
      (a0 * b4 + a1 * b3 + a2 * b2 + a3 * b1 + a4 * b0) mod poly_p"
  (is "?l mod _ = ?r mod _")
proof -
  define k where "k = (a1 * b4 + a2 * b3 + a3 * b2 + a4 * b1)
    + B26 * ((a2 * b4 + a3 * b3 + a4 * b2) + B26 * ((a3 * b4 + a4 * b3) + B26 * (a4 * b4)))"
  have p: "int poly_p = int B26 ^ 5 - 5" by (simp add: poly_p_def)
  have "int ?l = int ?r + int poly_p * int k"
    unfolding p num5_def k_def of_nat_mult of_nat_add of_nat_numeral by (rule mult5_int)
  then show ?thesis by (rule mod_eq_int)
qed

text \<open>The limbs of a block of 16 bytes.\<close>

lemma unat_block_limb:
  assumes "i + 4 \<le> length m" and "j \<le> 6"
  shows "unat (drop_bit j (U8TO32 m i) AND 0x3ffffff) = le_num m div 2 ^ (8 * i + j) mod B26"
  using le_num_limb [of j 26 4 i m] assms by (simp add: unat_mask26 unat_drop_bit unat_U8TO32)

lemma unat_top_limb:
  assumes "length m = 16" and "hibit = 0 \<or> hibit = 0x1000000"
  shows "unat (drop_bit 8 (U8TO32 m 12) OR hibit) = le_num m div 2 ^ 104 + unat hibit"
proof -
  have "le_num m < 2 ^ 128" using le_num_bound [of m] assms(1) by simp
  then have n: "le_num m div 2 ^ 104 mod 2 ^ 24 = le_num m div 2 ^ 104" by simp
  have u: "unat (drop_bit 8 (U8TO32 m 12)) = le_num m div 2 ^ 104"
    using le_num_limb [of 8 24 4 12 m] assms(1) n le_num_bound [of "drop 12 m"]
    by (simp add: unat_drop_bit unat_U8TO32)
  moreover have "le_num m div 2 ^ 104 < 2 ^ 24"
    using n by (metis mod_less_divisor zero_less_numeral zero_less_power)
  moreover have "unat (drop_bit 8 (U8TO32 m 12) OR push_bit 24 1) = unat (drop_bit 8 (U8TO32 m 12)) + 1 * 2 ^ 24"
    using calculation by (subst unat_or_push) simp_all
  ultimately show ?thesis
    using assms(2) by (auto simp: push_bit_eq_mult)
qed

lemma num5_digits:
  "num5 (n mod B26) (n div 2 ^ 26 mod B26) (n div 2 ^ 52 mod B26) (n div 2 ^ 78 mod B26) (n div 2 ^ 104 + x)
    = n + x * 2 ^ 104"
proof -
  define q1 q2 q3 q4 where "q1 = n div B26" and "q2 = q1 div B26" and "q3 = q2 div B26" and "q4 = q3 div B26"
  have "n div 2 ^ 26 = q1" "n div 2 ^ 52 = q2" "n div 2 ^ 78 = q3" "n div 2 ^ 104 = q4"
    by (simp_all add: q1_def q2_def q3_def q4_def div_mult2_eq [symmetric])
  moreover have "n = n mod B26 + B26 * q1" "q1 = q1 mod B26 + B26 * q2" "q2 = q2 mod B26 + B26 * q3"
      "q3 = q3 mod B26 + B26 * q4"
    by (simp_all only: q1_def q2_def q3_def q4_def mod_mult_div_eq)
  ultimately show ?thesis
    by (simp add: num5_def)
qed

lemma num5_add: "num5 a b c d e + num5 a' b' c' d' e' = num5 (a + a') (b + b') (c + c') (d + d') (e + e')"
  by (simp add: num5_def algebra_simps)

text \<open>The carries of the loop body on words are those on numbers.\<close>

definition carry_words :: "u64 \<Rightarrow> u64 \<Rightarrow> u64 \<Rightarrow> u64 \<Rightarrow> u64 \<Rightarrow> limbs" where
  "carry_words d0 d1 d2 d3 d4 =
     (let d1 = d1 + ucast (hi26 d0); d2 = d2 + ucast (hi26 d1); d3 = d3 + ucast (hi26 d2);
          d4 = d4 + ucast (hi26 d3); h0 = lo26 d0 + hi26 d4 * 5 in
      (h0 AND 0x3ffffff, lo26 d1 + drop_bit 26 h0, lo26 d2, lo26 d3, lo26 d4))"

lemma unat_carry_add:
  fixes d c :: u64
  assumes "unat d < 2 ^ 57" and "unat c < 2 ^ 58"
  shows "unat (d + ucast (hi26 c)) = unat d + unat c div B26"
proof -
  have "unat (ucast (hi26 c) :: u64) = unat c div B26"
    using assms(2) by (simp add: unat_hi26)
  moreover have "unat c div B26 < 2 ^ 32"
    using assms(2) by simp
  ultimately show ?thesis
    using assms(1) by (subst unat_add_small) simp_all
qed

lemma unat_carry_words:
  assumes d: "unat d0 < 2 ^ 58" "unat d1 < 2 ^ 57" "unat d2 < 2 ^ 57" "unat d3 < 2 ^ 57" "unat d4 < 2 ^ 55 + 2 ^ 53"
    and x: "carry_words d0 d1 d2 d3 d4 = (x0, x1, x2, x3, x4)"
  shows "carry_chain (unat d0) (unat d1) (unat d2) (unat d3) (unat d4)
    = (unat x0, unat x1, unat x2, unat x3, unat x4)"
proof -
  define e1 where "e1 = d1 + ucast (hi26 d0)"
  define e2 where "e2 = d2 + ucast (hi26 e1)"
  define e3 where "e3 = d3 + ucast (hi26 e2)"
  define e4 where "e4 = d4 + ucast (hi26 e3)"
  define h0 where "h0 = lo26 d0 + hi26 e4 * 5"
  have x': "x0 = h0 AND 0x3ffffff" "x1 = lo26 e1 + drop_bit 26 h0" "x2 = lo26 e2" "x3 = lo26 e3" "x4 = lo26 e4"
    using x by (simp_all only: carry_words_def Let_def e1_def e2_def e3_def e4_def h0_def prod.inject)
  have u1: "unat e1 = unat d1 + unat d0 div B26" unfolding e1_def by (rule unat_carry_add) (use d in simp_all)
  then have b1: "unat e1 < 2 ^ 58" using d(1,2) by simp
  have u2: "unat e2 = unat d2 + unat e1 div B26" unfolding e2_def by (rule unat_carry_add) (use d b1 in simp_all)
  then have b2: "unat e2 < 2 ^ 58" using d(3) b1 by simp
  have u3: "unat e3 = unat d3 + unat e2 div B26" unfolding e3_def by (rule unat_carry_add) (use d b2 in simp_all)
  then have b3: "unat e3 < 2 ^ 58" using d(4) b2 by simp
  have u4: "unat e4 = unat d4 + unat e3 div B26" unfolding e4_def by (rule unat_carry_add) (use d b3 in simp_all)
  then have b4: "unat e4 < 2 ^ 55 + 2 ^ 54" using d(5) b3 by simp
  have h4: "unat (hi26 e4) = unat e4 div B26" by (rule unat_hi26) (use b4 in simp)
  have b5: "unat e4 div B26 < 805306369" using b4 by simp
  have b6: "unat (hi26 e4 * 5) = unat e4 div B26 * 5"
    using b5 h4 by (subst unat_mult_small) simp_all
  have l: "unat (lo26 d0) < B26" by (simp add: unat_lo26)
  have uh: "unat h0 = unat d0 mod B26 + unat e4 div B26 * 5"
    unfolding h0_def using b5 b6 l by (subst unat_add_small) (simp_all add: unat_lo26)
  have "unat h0 < 2 ^ 32" using unsigned_less [of h0] by simp
  then have "unat h0 div B26 < 64" by simp
  moreover have "unat (lo26 e1) < B26" by (simp add: unat_lo26)
  ultimately have "unat x1 = unat e1 mod B26 + unat h0 div B26"
    unfolding x' by (subst unat_add_small) (simp_all add: unat_lo26 unat_drop26)
  then show ?thesis
    unfolding carry_chain_def Let_def u1 [symmetric] u2 [symmetric] u3 [symmetric] u4 [symmetric] uh [symmetric]
    by (simp add: x' unat_lo26 unat_mask26)
qed

definition dots :: "limbs \<Rightarrow> limbs \<Rightarrow> u64 \<times> u64 \<times> u64 \<times> u64 \<times> u64" where
  "dots r h =
     (case (r, h) of ((r0, r1, r2, r3, r4), (h0, h1, h2, h3, h4)) \<Rightarrow>
       (ucast h0 * ucast r0 + ucast h1 * ucast (r4 * 5) + ucast h2 * ucast (r3 * 5)
          + ucast h3 * ucast (r2 * 5) + ucast h4 * ucast (r1 * 5),
        ucast h0 * ucast r1 + ucast h1 * ucast r0 + ucast h2 * ucast (r4 * 5)
          + ucast h3 * ucast (r3 * 5) + ucast h4 * ucast (r2 * 5),
        ucast h0 * ucast r2 + ucast h1 * ucast r1 + ucast h2 * ucast r0
          + ucast h3 * ucast (r4 * 5) + ucast h4 * ucast (r3 * 5),
        ucast h0 * ucast r3 + ucast h1 * ucast r2 + ucast h2 * ucast r1
          + ucast h3 * ucast r0 + ucast h4 * ucast (r4 * 5),
        ucast h0 * ucast r4 + ucast h1 * ucast r3 + ucast h2 * ucast r2
          + ucast h3 * ucast r1 + ucast h4 * ucast r0))"

definition add_block :: "u32 \<Rightarrow> limbs \<Rightarrow> byte list \<Rightarrow> limbs" where
  "add_block hibit h m =
     (case h of (h0, h1, h2, h3, h4) \<Rightarrow>
       (h0 + (U8TO32 m 0 AND 0x3ffffff), h1 + (drop_bit 2 (U8TO32 m 3) AND 0x3ffffff),
        h2 + (drop_bit 4 (U8TO32 m 6) AND 0x3ffffff), h3 + (drop_bit 6 (U8TO32 m 9) AND 0x3ffffff),
        h4 + (drop_bit 8 (U8TO32 m 12) OR hibit)))"

lemma poly1305_step_parts:
  "poly1305_step hibit r h m =
    (case dots r (add_block hibit h m) of (d0, d1, d2, d3, d4) \<Rightarrow> carry_words d0 d1 d2 d3 d4)"
  by (simp only: poly1305_step_def dots_def add_block_def carry_words_def Let_def split: prod.splits) auto

lemma unat_dots:
  fixes r0 r1 r2 r3 r4 h0 h1 h2 h3 h4 :: u32
  defines "H \<equiv> 2 * B26 + 64"
  assumes k: "key_ok (r0, r1, r2, r3, r4)"
    and h: "unat h0 \<le> H" "unat h1 \<le> H" "unat h2 \<le> H" "unat h3 \<le> H" "unat h4 \<le> H"
    and d: "dots (r0, r1, r2, r3, r4) (h0, h1, h2, h3, h4) = (d0, d1, d2, d3, d4)"
  shows "num5 (unat d0) (unat d1) (unat d2) (unat d3) (unat d4) mod poly_p =
      num5 (unat h0) (unat h1) (unat h2) (unat h3) (unat h4) * limbs_num (r0, r1, r2, r3, r4) mod poly_p"
    and "unat d0 < 2 ^ 58" and "unat d1 < 2 ^ 57" and "unat d2 < 2 ^ 57" and "unat d3 < 2 ^ 57"
    and "unat d4 < 2 ^ 55 + 2 ^ 53"
proof -
  have r: "unat r0 \<le> B26" "unat r1 \<le> B26" "unat r2 \<le> B26" "unat r3 \<le> B26" "unat r4 \<le> 1048576"
    using k by auto
  have s: "unat (r1 * 5) = unat r1 * 5" "unat (r2 * 5) = unat r2 * 5" "unat (r3 * 5) = unat r3 * 5"
      "unat (r4 * 5) = unat r4 * 5"
    using r by (auto intro!: unat_times5)
  have h28: "unat h0 < 2 ^ 28" "unat h1 < 2 ^ 28" "unat h2 < 2 ^ 28" "unat h3 < 2 ^ 28" "unat h4 < 2 ^ 28"
    using h by (simp_all add: H_def)
  have r29: "unat r0 < 2 ^ 29" "unat r1 < 2 ^ 29" "unat r2 < 2 ^ 29" "unat r3 < 2 ^ 29" "unat r4 < 2 ^ 29"
      "unat (r1 * 5) < 2 ^ 29" "unat (r2 * 5) < 2 ^ 29" "unat (r3 * 5) < 2 ^ 29" "unat (r4 * 5) < 2 ^ 29"
    using r by (simp_all add: s)
  have D: "d0 = ucast h0 * ucast r0 + ucast h1 * ucast (r4 * 5) + ucast h2 * ucast (r3 * 5)
          + ucast h3 * ucast (r2 * 5) + ucast h4 * ucast (r1 * 5)"
      "d1 = ucast h0 * ucast r1 + ucast h1 * ucast r0 + ucast h2 * ucast (r4 * 5)
          + ucast h3 * ucast (r3 * 5) + ucast h4 * ucast (r2 * 5)"
      "d2 = ucast h0 * ucast r2 + ucast h1 * ucast r1 + ucast h2 * ucast r0
          + ucast h3 * ucast (r4 * 5) + ucast h4 * ucast (r3 * 5)"
      "d3 = ucast h0 * ucast r3 + ucast h1 * ucast r2 + ucast h2 * ucast r1
          + ucast h3 * ucast r0 + ucast h4 * ucast (r4 * 5)"
      "d4 = ucast h0 * ucast r4 + ucast h1 * ucast r3 + ucast h2 * ucast r2
          + ucast h3 * ucast r1 + ucast h4 * ucast r0"
    using d by (simp_all only: dots_def prod.case prod.inject)
  have u0: "unat d0 = unat h0 * unat r0 + unat h1 * (unat r4 * 5) + unat h2 * (unat r3 * 5)
      + unat h3 * (unat r2 * 5) + unat h4 * (unat r1 * 5)"
    unfolding D using unat_dot5 [OF h28 r29(1,9,8,7,6)] by (simp only: s)
  have u1: "unat d1 = unat h0 * unat r1 + unat h1 * unat r0 + unat h2 * (unat r4 * 5)
      + unat h3 * (unat r3 * 5) + unat h4 * (unat r2 * 5)"
    unfolding D using unat_dot5 [OF h28 r29(2,1,9,8,7)] by (simp only: s)
  have u2: "unat d2 = unat h0 * unat r2 + unat h1 * unat r1 + unat h2 * unat r0
      + unat h3 * (unat r4 * 5) + unat h4 * (unat r3 * 5)"
    unfolding D using unat_dot5 [OF h28 r29(3,2,1,9,8)] by (simp only: s)
  have u3: "unat d3 = unat h0 * unat r3 + unat h1 * unat r2 + unat h2 * unat r1
      + unat h3 * unat r0 + unat h4 * (unat r4 * 5)"
    unfolding D using unat_dot5 [OF h28 r29(4,3,2,1,9)] by (simp only: s)
  have u4: "unat d4 = unat h0 * unat r4 + unat h1 * unat r3 + unat h2 * unat r2 + unat h3 * unat r1
      + unat h4 * unat r0"
    unfolding D using unat_dot5 [OF h28 r29(5,4,3,2,1)] by (simp only: s)
  show "num5 (unat d0) (unat d1) (unat d2) (unat d3) (unat d4) mod poly_p =
      num5 (unat h0) (unat h1) (unat h2) (unat h3) (unat h4) * limbs_num (r0, r1, r2, r3, r4) mod poly_p"
    unfolding limbs_num.simps num5_mult u0 u1 u2 u3 u4 ..
  note m = mult_le_mono
  show "unat d0 < 2 ^ 58"
    using m [OF h(1) r(1)] m [OF h(2) r(5)] m [OF h(3) r(4)] m [OF h(4) r(3)] m [OF h(5) r(2)]
    by (simp add: u0 H_def)
  show "unat d1 < 2 ^ 57"
    using m [OF h(1) r(2)] m [OF h(2) r(1)] m [OF h(3) r(5)] m [OF h(4) r(4)] m [OF h(5) r(3)]
    by (simp add: u1 H_def)
  show "unat d2 < 2 ^ 57"
    using m [OF h(1) r(3)] m [OF h(2) r(2)] m [OF h(3) r(1)] m [OF h(4) r(5)] m [OF h(5) r(4)]
    by (simp add: u2 H_def)
  show "unat d3 < 2 ^ 57"
    using m [OF h(1) r(4)] m [OF h(2) r(3)] m [OF h(3) r(2)] m [OF h(4) r(1)] m [OF h(5) r(5)]
    by (simp add: u3 H_def)
  show "unat d4 < 2 ^ 55 + 2 ^ 53"
    using m [OF h(1) r(5)] m [OF h(2) r(4)] m [OF h(3) r(3)] m [OF h(4) r(2)] m [OF h(5) r(1)]
    by (simp add: u4 H_def)
qed

lemma unat_add_block:
  fixes h0 h1 h2 h3 h4 :: u32
  assumes h: "limbs_ok (h0, h1, h2, h3, h4)" and m: "length m = 16" and hibit: "hibit = 0 \<or> hibit = 0x1000000"
    and a: "add_block hibit (h0, h1, h2, h3, h4) m = (a0, a1, a2, a3, a4)"
  shows "num5 (unat a0) (unat a1) (unat a2) (unat a3) (unat a4)
      = limbs_num (h0, h1, h2, h3, h4) + le_num m + unat hibit * 2 ^ 104"
    and "unat a0 \<le> 2 * B26 + 64" and "unat a1 \<le> 2 * B26 + 64" and "unat a2 \<le> 2 * B26 + 64"
    and "unat a3 \<le> 2 * B26 + 64" and "unat a4 \<le> 2 * B26 + 64"
proof -
  let ?n = "le_num m"
  have A: "a0 = h0 + (U8TO32 m 0 AND 0x3ffffff)" "a1 = h1 + (drop_bit 2 (U8TO32 m 3) AND 0x3ffffff)"
      "a2 = h2 + (drop_bit 4 (U8TO32 m 6) AND 0x3ffffff)" "a3 = h3 + (drop_bit 6 (U8TO32 m 9) AND 0x3ffffff)"
      "a4 = h4 + (drop_bit 8 (U8TO32 m 12) OR hibit)"
    using a by (simp_all only: add_block_def prod.case prod.inject)
  have t0: "unat (U8TO32 m 0 AND 0x3ffffff) = ?n mod B26"
    using unat_block_limb [of 0 m 0] m by simp
  have t1: "unat (drop_bit 2 (U8TO32 m 3) AND 0x3ffffff) = ?n div 2 ^ 26 mod B26"
    using unat_block_limb [of 3 m 2] m by simp
  have t2: "unat (drop_bit 4 (U8TO32 m 6) AND 0x3ffffff) = ?n div 2 ^ 52 mod B26"
    using unat_block_limb [of 6 m 4] m by simp
  have t3: "unat (drop_bit 6 (U8TO32 m 9) AND 0x3ffffff) = ?n div 2 ^ 78 mod B26"
    using unat_block_limb [of 9 m 6] m by simp
  have t4: "unat (drop_bit 8 (U8TO32 m 12) OR hibit) = ?n div 2 ^ 104 + unat hibit"
    using m hibit by (rule unat_top_limb)
  have "?n < 2 ^ 128" using le_num_bound [of m] m by simp
  then have b4: "?n div 2 ^ 104 < 16777216" by (simp add: less_mult_imp_div_less)
  have bh: "unat hibit \<le> 16777216" using hibit by auto
  have lt: "x mod B26 < B26" for x by simp
  have add: "unat (x + y) = unat x + unat y" if "unat x \<le> B26 + 64" "unat y < B26" for x y :: u32
    using that by (subst unat_add_small) simp_all
  have u: "unat a0 = unat h0 + ?n mod B26" "unat a1 = unat h1 + ?n div 2 ^ 26 mod B26"
      "unat a2 = unat h2 + ?n div 2 ^ 52 mod B26" "unat a3 = unat h3 + ?n div 2 ^ 78 mod B26"
      "unat a4 = unat h4 + (?n div 2 ^ 104 + unat hibit)"
    unfolding A using h b4 bh
    by (simp_all only: add t0 t1 t2 t3 t4 limbs_ok.simps lt) (simp_all add: add t0 t1 t2 t3 t4)
  show "num5 (unat a0) (unat a1) (unat a2) (unat a3) (unat a4)
      = limbs_num (h0, h1, h2, h3, h4) + le_num m + unat hibit * 2 ^ 104"
    unfolding u num5_add [symmetric] num5_digits by simp
  show "unat a0 \<le> 2 * B26 + 64" "unat a1 \<le> 2 * B26 + 64" "unat a2 \<le> 2 * B26 + 64"
      "unat a3 \<le> 2 * B26 + 64" "unat a4 \<le> 2 * B26 + 64"
    using h b4 bh lt [of ?n] lt [of "?n div 2 ^ 26"] lt [of "?n div 2 ^ 52"] lt [of "?n div 2 ^ 78"]
    unfolding u limbs_ok.simps by linarith+
qed

lemma poly1305_step_num:
  assumes k: "key_ok r" and h: "limbs_ok h" and m: "length m = 16" and hibit: "hibit = 0 \<or> hibit = 0x1000000"
  shows "limbs_ok (poly1305_step hibit r h m)"
    and "limbs_num (poly1305_step hibit r h m) mod poly_p
      = (limbs_num h + (le_num m + unat hibit * 2 ^ 104)) * limbs_num r mod poly_p"
proof -
  obtain r0 r1 r2 r3 r4 where r: "r = (r0, r1, r2, r3, r4)" by (cases r)
  obtain h0 h1 h2 h3 h4 where hh: "h = (h0, h1, h2, h3, h4)" by (cases h)
  obtain a0 a1 a2 a3 a4 where a: "add_block hibit (h0, h1, h2, h3, h4) m = (a0, a1, a2, a3, a4)"
    by (cases "add_block hibit (h0, h1, h2, h3, h4) m")
  obtain d0 d1 d2 d3 d4 where d: "dots (r0, r1, r2, r3, r4) (a0, a1, a2, a3, a4) = (d0, d1, d2, d3, d4)"
    by (cases "dots (r0, r1, r2, r3, r4) (a0, a1, a2, a3, a4)")
  obtain x0 x1 x2 x3 x4 where x: "carry_words d0 d1 d2 d3 d4 = (x0, x1, x2, x3, x4)"
    by (cases "carry_words d0 d1 d2 d3 d4")
  have step: "poly1305_step hibit r h m = (x0, x1, x2, x3, x4)"
    by (simp add: poly1305_step_parts r hh a d x)
  note A = unat_add_block [OF h [unfolded hh] m hibit a]
  note D = unat_dots [OF k [unfolded r] A(2-6) d]
  note X = unat_carry_words [OF D(2-6) x]
  have b: "unat d0 < 2 ^ 58" "unat d1 < 2 ^ 58" "unat d2 < 2 ^ 58" "unat d3 < 2 ^ 58"
    using D(2-5) by simp_all
  show "limbs_ok (poly1305_step hibit r h m)"
    unfolding step limbs_ok.simps by (rule carry_chain_bounds [OF X b D(6)])
  obtain k where "num5 (unat d0) (unat d1) (unat d2) (unat d3) (unat d4)
      = num5 (unat x0) (unat x1) (unat x2) (unat x3) (unat x4) + k * poly_p"
    using num5_carry [OF X] ..
  then have "limbs_num (x0, x1, x2, x3, x4) mod poly_p
      = num5 (unat d0) (unat d1) (unat d2) (unat d3) (unat d4) mod poly_p"
    by simp
  then show "limbs_num (poly1305_step hibit r h m) mod poly_p
      = (limbs_num h + (le_num m + unat hibit * 2 ^ 104)) * limbs_num r mod poly_p"
    unfolding step using D(1) A(1) by (simp add: r hh add.assoc)
qed

end
