(* ===== verification/Poly1305_Tag.thy ===== *)
theory Poly1305_Tag
  imports Poly1305
begin

text \<open>
  Poly1305 over whole messages: the specification of RFC 8439 as numbers, the state invariant of
  \<open>wc_Poly1305Update\<close>, which may get the message in any pieces, and the carries, reduction and
  addition of \<open>wc_Poly1305Final\<close>.  The result is that the code computes the specified tag.
\<close>

section \<open>The key\<close>

definition clamp_mask :: nat where
  "clamp_mask = 0x0ffffffc0ffffffc0ffffffc0fffffff"

text \<open>The two halves of the key as numbers, the first one clamped.\<close>

definition poly_r :: "byte list \<Rightarrow> nat" where
  "poly_r key = le_num (take 16 key) AND clamp_mask"

definition poly_s :: "byte list \<Rightarrow> nat" where
  "poly_s key = le_num (take 16 (drop 16 key))"

lemma unat_key_limb:
  assumes "i + 4 \<le> length m" and "j + n \<le> 32" and "unat mk < 2 ^ n"
  shows "unat (drop_bit j (U8TO32 m i) AND mk) = (le_num m div 2 ^ (8 * i + j) mod 2 ^ n) AND unat mk"
proof -
  have "unat (drop_bit j (U8TO32 m i) AND mk) = unat (drop_bit j (U8TO32 m i)) AND take_bit n (unat mk)"
    using assms(3) by (simp add: unsigned_and_eq take_bit_nat_eq_self)
  also have "\<dots> = take_bit n (unat (drop_bit j (U8TO32 m i))) AND take_bit n (unat mk)"
    by (rule bit_eqI) (auto simp: bit_simps)
  also have "take_bit n (unat (drop_bit j (U8TO32 m i))) = le_num m div 2 ^ (8 * i + j) mod 2 ^ n"
    using le_num_limb [of j n 4 i m] assms(1,2) by (simp add: take_bit_eq_mod unat_drop_bit unat_U8TO32)
  also have "take_bit n (unat mk) = unat mk"
    using assms(3) by (simp add: take_bit_nat_eq_self)
  finally show ?thesis .
qed

lemma clamp_digit:
  "(n AND clamp_mask) div 2 ^ k mod B26 = (n div 2 ^ k mod B26) AND (clamp_mask div 2 ^ k mod B26)"
proof -
  have "take_bit 26 (drop_bit k (n AND clamp_mask))
      = take_bit 26 (drop_bit k n) AND take_bit 26 (drop_bit k clamp_mask)"
    by (simp only: drop_bit_and take_bit_and)
  then show ?thesis by (simp add: take_bit_eq_mod drop_bit_eq_div)
qed

lemma key_digit:
  assumes "length key = 32" and ij: "8 * i + j + 26 \<le> 128" "j \<le> 6" and k: "k = 8 * i + j"
    and m: "unat mk = clamp_mask div 2 ^ k mod B26"
  shows "unat (drop_bit j (U8TO32 key i) AND mk) = poly_r key div 2 ^ k mod B26"
proof -
  have lt: "unat mk < 2 ^ 26" unfolding m by simp
  have "le_num (take 16 key) div 2 ^ k mod B26 = le_num key div 2 ^ k mod B26"
    using le_num_limb [of k 26 16 0 key] ij k by simp
  then show ?thesis
    using unat_key_limb [of i key j 26 mk] lt assms(1) ij
    by (simp only: poly_r_def clamp_digit m k) simp
qed

lemma SetKey_limbs:
  assumes "length key = 32"
  shows "key_ok (po_r (wc_Poly1305SetKey key))" and "limbs_num (po_r (wc_Poly1305SetKey key)) = poly_r key"
proof -
  let ?n = "le_num (take 16 key)"
  have d: "le_num key div 2 ^ a mod 2 ^ b = ?n div 2 ^ a mod 2 ^ b" if "a + b \<le> 128" for a b
    using le_num_limb [of a b 16 0 key] that by simp
  have C: "clamp_mask div 2 ^ 0 mod B26 = 0x3ffffff" "clamp_mask div 2 ^ 26 mod B26 = 0x3ffff03"
      "clamp_mask div 2 ^ 52 mod B26 = 0x3ffc0ff" "clamp_mask div 2 ^ 78 mod B26 = 0x3f03fff"
      "clamp_mask div 2 ^ 104 = 0x00fffff"
    by (simp_all add: clamp_mask_def)
  have k: "unat (drop_bit 0 (U8TO32 key 0) AND 0x3ffffff) = poly_r key div 2 ^ 0 mod B26"
    by (rule key_digit [OF assms]) (simp_all only: C, simp_all)
  have k1: "unat (drop_bit 2 (U8TO32 key 3) AND 0x3ffff03) = poly_r key div 2 ^ 26 mod B26"
    by (rule key_digit [OF assms]) (simp_all only: C, simp_all)
  have k2: "unat (drop_bit 4 (U8TO32 key 6) AND 0x3ffc0ff) = poly_r key div 2 ^ 52 mod B26"
    by (rule key_digit [OF assms]) (simp_all only: C, simp_all)
  have k3: "unat (drop_bit 6 (U8TO32 key 9) AND 0x3f03fff) = poly_r key div 2 ^ 78 mod B26"
    by (rule key_digit [OF assms]) (simp_all only: C, simp_all)
  have top: "unat (drop_bit 8 (U8TO32 key 12) AND 0x00fffff) = poly_r key div 2 ^ 104"
  proof -
    have "poly_r key div 2 ^ 104 = drop_bit 104 ?n AND drop_bit 104 clamp_mask"
      by (simp only: poly_r_def drop_bit_eq_div [symmetric] drop_bit_and)
    also have "drop_bit 104 clamp_mask = mask 20"
      by (simp only: drop_bit_eq_div C) (simp add: mask_eq_exp_minus_1)
    also have "drop_bit 104 ?n AND mask 20 = take_bit 20 (drop_bit 104 ?n) AND mask 20"
      by (rule bit_eqI) (auto simp: bit_simps)
    also have "\<dots> = (?n div 2 ^ 104 mod 2 ^ 20) AND 0x00fffff"
      by (simp only: drop_bit_eq_div take_bit_eq_mod) (simp add: mask_eq_exp_minus_1)
    finally show ?thesis
      using unat_key_limb [of 12 key 8 20 "0x00fffff"] d [of 104 20] assms by simp
  qed
  have r: "po_r (wc_Poly1305SetKey key) = (drop_bit 0 (U8TO32 key 0) AND 0x3ffffff,
      drop_bit 2 (U8TO32 key 3) AND 0x3ffff03, drop_bit 4 (U8TO32 key 6) AND 0x3ffc0ff,
      drop_bit 6 (U8TO32 key 9) AND 0x3f03fff, drop_bit 8 (U8TO32 key 12) AND 0x00fffff)"
    by (simp add: wc_Poly1305SetKey_def)
  show "limbs_num (po_r (wc_Poly1305SetKey key)) = poly_r key"
    unfolding r limbs_num.simps k k1 k2 k3 top using num5_digits [of "poly_r key" 0] by simp
  have "unat (drop_bit 8 (U8TO32 key 12) AND 0x00fffff) < 1048576"
  proof -
    have "drop_bit 8 (U8TO32 key 12) AND 0x00fffff = take_bit 20 (drop_bit 8 (U8TO32 key 12))"
      by (simp add: take_bit_eq_mask mask_numeral)
    then have "unat (drop_bit 8 (U8TO32 key 12) AND 0x00fffff) = take_bit 20 (unat (drop_bit 8 (U8TO32 key 12)))"
      by (simp only: unsigned_take_bit_eq)
    then show ?thesis by (simp add: take_bit_eq_mod)
  qed
  then show "key_ok (po_r (wc_Poly1305SetKey key))"
    unfolding r key_ok.simps k k1 k2 k3 by simp
qed

section \<open>The specification of RFC 8439\<close>

function poly_acc :: "nat \<Rightarrow> nat \<Rightarrow> byte list \<Rightarrow> nat" where
  "poly_acc r a m =
     (if m = [] then a else poly_acc r ((a + le_num (take 16 m @ [1])) * r mod poly_p) (drop 16 m))"
  by pat_completeness auto
termination
  by (relation "measure (\<lambda>(_, _, m). length m)") auto

declare poly_acc.simps [simp del]

definition poly1305_mac :: "byte list \<Rightarrow> byte list \<Rightarrow> nat" where
  "poly1305_mac key m = (poly_acc (poly_r key) 0 m + poly_s key) mod 2 ^ 128"

lemma poly_acc_Nil [simp]: "poly_acc r a [] = a"
  by (simp add: poly_acc.simps)

lemma poly_acc_block:
  "length b = 16 \<Longrightarrow> poly_acc r a (b @ m) = poly_acc r ((a + (le_num b + 2 ^ 128)) * r mod poly_p) m"
  by (subst poly_acc.simps) (auto simp: le_simps)

lemma poly_acc_last:
  "b \<noteq> [] \<Longrightarrow> length b \<le> 16 \<Longrightarrow> poly_acc r a b = (a + le_num (b @ [1])) * r mod poly_p"
  by (subst poly_acc.simps) simp

lemma poly_acc_append:
  assumes "16 dvd length x"
  shows "poly_acc r a (x @ y) = poly_acc r (poly_acc r a x) y"
  using assms
proof (induction r a x rule: poly_acc.induct)
  case (1 r a x)
  show ?case
  proof (cases "x = []")
    case False
    then have l: "16 \<le> length x" using "1.prems" by (meson dvd_imp_le length_greater_0_conv)
    then have b: "length (take 16 x) = 16" by simp
    have x: "x = take 16 x @ drop 16 x" by simp
    have "poly_acc r a (x @ y) = poly_acc r a (take 16 x @ drop 16 x @ y)"
      by (simp only: append_assoc [symmetric] append_take_drop_id)
    also have "\<dots> = poly_acc r ((a + (le_num (take 16 x) + 2 ^ 128)) * r mod poly_p) (drop 16 x @ y)"
      by (rule poly_acc_block [OF b])
    also have "\<dots> = poly_acc r (poly_acc r ((a + (le_num (take 16 x) + 2 ^ 128)) * r mod poly_p) (drop 16 x)) y"
      using "1.IH" [OF False] "1.prems" l b by (simp add: le_simps dvd_minus_self)
    also have "poly_acc r ((a + (le_num (take 16 x) + 2 ^ 128)) * r mod poly_p) (drop 16 x) = poly_acc r a x"
      using poly_acc_block [OF b, of r a "drop 16 x"] by simp
    finally show ?thesis .
  qed simp
qed

section \<open>Whole blocks\<close>

lemma blocks_loop_num:
  assumes "key_ok r" and "limbs_ok h" and "16 dvd length m"
  shows "limbs_ok (blocks_loop 0x1000000 r h m) \<and>
    limbs_num (blocks_loop 0x1000000 r h m) mod poly_p = poly_acc (limbs_num r) (limbs_num h mod poly_p) m"
  using assms
proof (induction "0x1000000 :: u32" r h m rule: blocks_loop.induct)
  case (1 r h m)
  show ?case
  proof (cases "16 \<le> length m")
    case True
    have b: "length (take 16 m) = 16" using True by simp
    let ?h = "poly1305_step 0x1000000 r h (take 16 m)"
    have u: "U8TO32 m i = U8TO32 (take 16 m) i" if "i \<le> 12" for i
      using that by (simp add: U8TO32_def)
    have st: "poly1305_step 0x1000000 r h m = ?h"
      using u [of 0] u [of 3] u [of 6] u [of 9] u [of 12] by (simp add: poly1305_step_parts add_block_def)
    note S = poly1305_step_num [OF "1.prems"(1,2) b, of "0x1000000"]
    have s1: "limbs_ok ?h" using S(1) by simp
    have s2: "limbs_num ?h mod poly_p = (limbs_num h mod poly_p + (le_num (take 16 m) + 2 ^ 128)) * limbs_num r mod poly_p"
    proof -
      have "(a mod p + c) * d mod p = (a + c) * d mod p" for a c d p :: nat
        by (metis mod_add_left_eq mod_mult_left_eq)
      then show ?thesis using S(2) by simp
    qed
    have "limbs_ok (blocks_loop 0x1000000 r ?h (drop 16 m)) \<and>
        limbs_num (blocks_loop 0x1000000 r ?h (drop 16 m)) mod poly_p
        = poly_acc (limbs_num r) (limbs_num ?h mod poly_p) (drop 16 m)"
      using "1.hyps" [OF True] "1.prems" s1 True by (simp add: st dvd_minus_self)
    moreover have "blocks_loop 0x1000000 r h m = blocks_loop 0x1000000 r ?h (drop 16 m)"
      using True by (subst blocks_loop.simps) (simp add: st)
    moreover have "poly_acc (limbs_num r) (limbs_num h mod poly_p) m
        = poly_acc (limbs_num r) (limbs_num ?h mod poly_p) (drop 16 m)"
      unfolding s2 using poly_acc_block [OF b, of "limbs_num r" "limbs_num h mod poly_p" "drop 16 m"] by simp
    ultimately show ?thesis by simp
  next
    case False
    then have "m = []" using "1.prems"(3) by (metis dvd_imp_le length_greater_0_conv)
    then show ?thesis using "1.prems" by (simp add: blocks_loop.simps)
  qed
qed

section \<open>Messages in pieces\<close>

text \<open>The context after the bytes \<open>m\<close>: whole blocks are in the accumulator, the rest in the buffer.\<close>

definition full :: "byte list \<Rightarrow> nat" where
  "full m = length m div 16 * 16"

definition absorbed :: "byte list \<Rightarrow> poly1305 \<Rightarrow> byte list \<Rightarrow> bool" where
  "absorbed key ctx m \<longleftrightarrow>
     po_r ctx = po_r (wc_Poly1305SetKey key) \<and> po_pad ctx = po_pad (wc_Poly1305SetKey key) \<and>
     \<not> po_finished ctx \<and> limbs_ok (po_h ctx) \<and> po_buffer ctx = drop (full m) m \<and>
     limbs_num (po_h ctx) mod poly_p = poly_acc (poly_r key) 0 (take (full m) m)"

text \<open>Where every update continues the bytes absorbed, updates in sequence absorb the concatenation.\<close>

locale streaming =
  fixes holds :: "'ctx \<Rightarrow> 'a list \<Rightarrow> bool"
    and update :: "'ctx \<Rightarrow> 'a list \<Rightarrow> 'ctx"
  assumes update: "holds c m \<Longrightarrow> holds (update c x) (m @ x)"
begin

lemma updates: "holds c m \<Longrightarrow> holds (fold (\<lambda>x c. update c x) xs c) (m @ concat xs)"
proof (induction xs arbitrary: c m)
  case (Cons x xs)
  then show ?case using Cons.IH [OF update [OF Cons.prems]] by simp
qed simp

end

lemma absorbed_SetKey: "length key = 32 \<Longrightarrow> absorbed key (wc_Poly1305SetKey key) []"
  by (simp add: absorbed_def full_def) (simp add: wc_Poly1305SetKey_def num5_def)

lemma absorbed_blocks:
  assumes k: "length key = 32" and a: "absorbed key ctx m" and m: "16 dvd length m" and x: "16 dvd length x"
  shows "absorbed key (poly1305_blocks ctx x) (m @ x)"
proof -
  have f: "full m = length m" "full x = length x" "full (m @ x) = length (m @ x)"
    using m x by (simp_all add: full_def)
  note A = a [unfolded absorbed_def f]
  have ok: "key_ok (po_r ctx)" using A SetKey_limbs(1) [OF k] by simp
  have "limbs_ok (po_h ctx)" using A by simp
  note B = blocks_loop_num [OF ok this x]
  show ?thesis
    using A B poly_acc_append [OF m] SetKey_limbs(2) [OF k] x m
    by (simp add: absorbed_def f poly1305_blocks_def)
qed

lemma absorbed_buffer:
  assumes "absorbed key ctx m" and "16 dvd length m" and "length b < 16"
  shows "absorbed key (ctx\<lparr>po_buffer := b\<rparr>) (m @ b)"
proof -
  have "full m = length m" "full (m @ b) = length m"
    using assms(2,3) by (auto simp: full_def)
  then show ?thesis using assms(1) by (simp add: absorbed_def)
qed

lemma absorbed_whole:
  assumes "absorbed key ctx m"
  shows "absorbed key (ctx\<lparr>po_buffer := []\<rparr>) (take (full m) m)" and "16 dvd length (take (full m) m)"
    and "m = take (full m) m @ po_buffer ctx" and "length (po_buffer ctx) < 16"
proof -
  have l: "length (take (full m) m) = full m" by (simp add: full_def)
  then have "full (take (full m) m) = full m" by (simp add: full_def)
  then show "absorbed key (ctx\<lparr>po_buffer := []\<rparr>) (take (full m) m)"
    using assms by (simp add: absorbed_def)
  show "16 dvd length (take (full m) m)" unfolding l by (simp add: full_def)
  show "m = take (full m) m @ po_buffer ctx" using assms by (simp add: absorbed_def)
  have "length m - full m < 16" by (simp add: full_def minus_div_mult_eq_mod)
  then show "length (po_buffer ctx) < 16" using assms by (simp add: absorbed_def)
qed

text \<open>The end of \<open>wc_Poly1305Update\<close>, from a context without leftover.\<close>

definition update_rest :: "poly1305 \<Rightarrow> byte list \<Rightarrow> poly1305" where
  "update_rest ctx m =
     (let want = length m div 16 * 16;
          ctx = (if length m \<ge> 16 then poly1305_blocks ctx (take want m) else ctx);
          m = drop want m in
      if m \<noteq> [] then ctx\<lparr>po_buffer := po_buffer ctx @ m\<rparr> else ctx)"

lemma Update_alt:
  "wc_Poly1305Update ctx m =
     (if po_buffer ctx \<noteq> [] then
        (let want = min (16 - length (po_buffer ctx)) (length m);
             ctx = ctx\<lparr>po_buffer := po_buffer ctx @ take want m\<rparr>; m = drop want m in
         if length (po_buffer ctx) < 16 then ctx
         else update_rest ((poly1305_block ctx (po_buffer ctx))\<lparr>po_buffer := []\<rparr>) m)
      else update_rest ctx m)"
  unfolding wc_Poly1305Update_def update_rest_def Let_def by (rule refl)

lemma po_buffer_blocks [simp]: "po_buffer (poly1305_blocks ctx x) = po_buffer ctx"
  by (simp add: poly1305_blocks_def)

lemma blocks_buffer: "(poly1305_blocks ctx x)\<lparr>po_buffer := b\<rparr> = poly1305_blocks (ctx\<lparr>po_buffer := b\<rparr>) x"
  by (simp add: poly1305_blocks_def)

lemma absorbed_rest:
  assumes k: "length key = 32" and a: "absorbed key ctx m" "16 dvd length m" "po_buffer ctx = []"
  shows "absorbed key (update_rest ctx x) (m @ x)"
proof -
  let ?c = "if length x \<ge> 16 then poly1305_blocks ctx (take (full x) x) else ctx"
  have d: "16 dvd length (take (full x) x)" by (simp add: full_def)
  have c: "absorbed key ?c (m @ take (full x) x)"
  proof (cases "length x \<ge> 16")
    case True
    then show ?thesis using absorbed_blocks [OF k a(1,2) d] by simp
  next
    case False
    then show ?thesis using a(1) by (simp add: full_def)
  qed
  have b: "po_buffer ?c = []" using a(3) by simp
  have l: "length (drop (full x) x) < 16" by (simp add: full_def minus_div_mult_eq_mod)
  have "absorbed key (?c\<lparr>po_buffer := drop (full x) x\<rparr>) ((m @ take (full x) x) @ drop (full x) x)"
    by (rule absorbed_buffer [OF c _ l]) (use a(2) d in simp)
  moreover have "update_rest ctx x = ?c\<lparr>po_buffer := drop (full x) x\<rparr>"
    using b by (auto simp: update_rest_def Let_def full_def)
  ultimately show ?thesis by simp
qed

lemma absorbed_update:
  assumes k: "length key = 32" and a: "absorbed key ctx m"
  shows "absorbed key (wc_Poly1305Update ctx x) (m @ x)"
proof -
  note W = absorbed_whole [OF a]
  let ?M = "take (full m) m" and ?b = "po_buffer ctx"
  define want where "want = min (16 - length ?b) (length x)"
  let ?ctx = "ctx\<lparr>po_buffer := ?b @ take want x\<rparr>"
  consider "?b = []" | "?b \<noteq> []" "length (?b @ take want x) < 16" | "?b \<noteq> []" "\<not> length (?b @ take want x) < 16"
    by blast
  then show ?thesis
  proof cases
    case 1
    then have "16 dvd length m" using W(2,3) by (metis append_Nil2)
    then show ?thesis
      using absorbed_rest [OF k a] 1 by (simp add: Update_alt)
  next
    case 2
    then have x: "take want x = x" using W(4) by (auto simp: want_def min_def split: if_splits)
    have "wc_Poly1305Update ctx x = ?ctx"
      unfolding Update_alt Let_def want_def [symmetric] using 2 by simp
    moreover have "absorbed key (ctx\<lparr>po_buffer := []\<rparr>\<lparr>po_buffer := ?b @ take want x\<rparr>) (?M @ (?b @ take want x))"
      by (rule absorbed_buffer [OF W(1,2) 2(2)])
    ultimately show ?thesis using W(3) x by (metis append_assoc poly1305.update_convs(4) poly1305.surjective)
  next
    case 3
    then have l: "length (?b @ take want x) = 16" using W(4) by (auto simp: want_def min_def split: if_splits)
    let ?c = "poly1305_blocks (ctx\<lparr>po_buffer := []\<rparr>) (?b @ take want x)"
    have "absorbed key ?c (?M @ (?b @ take want x))"
      by (rule absorbed_blocks [OF k W(1,2)]) (simp only: l dvd_refl)
    then have "absorbed key (update_rest ?c (drop want x)) ((?M @ (?b @ take want x)) @ drop want x)"
      by (rule absorbed_rest [OF k]) (use W(2) l in \<open>simp_all del: length_take length_append add: length_append [of ?M]\<close>)
    moreover have "wc_Poly1305Update ctx x = update_rest ?c (drop want x)"
      unfolding Update_alt Let_def want_def [symmetric]
      using 3 take_all [of "?b @ take want x" 16] l
      by (simp add: poly1305_block_def blocks_buffer del: take_append length_append take_take)
    moreover have "(?M @ (?b @ take want x)) @ drop want x = m @ x"
      using W(3) by (metis append_assoc append_take_drop_id)
    ultimately show ?thesis by (simp only:)
  qed
qed

lemma blocks_loop_16:
  assumes "length b = 16"
  shows "blocks_loop hibit r h b = poly1305_step hibit r h b"
  using assms by (simp add: blocks_loop.simps)

lemma last_block_num:
  assumes k: "length key = 32" and a: "absorbed key ctx m"
  shows "limbs_ok (po_h (last_block ctx)) \<and> po_pad (last_block ctx) = po_pad ctx \<and>
    limbs_num (po_h (last_block ctx)) mod poly_p = poly_acc (poly_r key) 0 m"
proof (cases "po_buffer ctx = []")
  case True
  then have "take (full m) m = m" using absorbed_whole(3) [OF a] by simp
  then show ?thesis using a True by (simp add: last_block_def absorbed_def)
next
  case False
  let ?b = "po_buffer ctx"
  let ?p = "?b @ [1] @ replicate (15 - length ?b) 0"
  note W = absorbed_whole [OF a]
  have l: "length ?p = 16" using W(4) by simp
  have n: "le_num ?p = le_num (?b @ [1])" by (simp add: le_simps)
  have ok: "key_ok (po_r ctx)" "limbs_ok (po_h ctx)" "limbs_num (po_r ctx) = poly_r key"
    using a SetKey_limbs [OF k] by (simp_all add: absorbed_def)
  have h: "po_h (last_block ctx) = poly1305_step 0 (po_r ctx) (po_h ctx) ?p"
    using False l blocks_loop_16 [OF l] by (simp add: last_block_def poly1305_block_def poly1305_blocks_def)
  note S = poly1305_step_num [OF ok(1,2) l, of 0]
  have "poly_acc (poly_r key) 0 m = poly_acc (poly_r key) (poly_acc (poly_r key) 0 (take (full m) m)) ?b"
    using poly_acc_append [OF W(2)] W(3) by metis
  also have "\<dots> = (limbs_num (po_h ctx) mod poly_p + le_num (?b @ [1])) * poly_r key mod poly_p"
    using a False W(4) by (simp add: absorbed_def poly_acc_last)
  also have "\<dots> = (limbs_num (po_h ctx) + le_num (?b @ [1])) * poly_r key mod poly_p"
    by (metis mod_add_left_eq mod_mult_left_eq)
  finally have "poly_acc (poly_r key) 0 m = limbs_num (po_h (last_block ctx)) mod poly_p"
    unfolding h using S(2) ok(3) n by simp
  moreover have "po_pad (last_block ctx) = po_pad ctx"
    by (simp add: last_block_def poly1305_block_def poly1305_blocks_def)
  ultimately show ?thesis using S(1) by (simp add: h)
qed

section \<open>The tag\<close>

text \<open>The three parts of \<open>wc_Poly1305Final\<close>: the carries, the reduction, the addition.\<close>

definition final_carry :: "limbs \<Rightarrow> limbs" where
  "final_carry h =
     (case h of (h0, h1, h2, h3, h4) \<Rightarrow>
        let c = drop_bit 26 h1; h1 = h1 AND 0x3ffffff;
            h2 = h2 + c; c = drop_bit 26 h2; h2 = h2 AND 0x3ffffff;
            h3 = h3 + c; c = drop_bit 26 h3; h3 = h3 AND 0x3ffffff;
            h4 = h4 + c; c = drop_bit 26 h4; h4 = h4 AND 0x3ffffff;
            h0 = h0 + c * 5; c = drop_bit 26 h0; h0 = h0 AND 0x3ffffff in
        (h0, h1 + c, h2, h3, h4))"

definition final_reduce :: "limbs \<Rightarrow> limbs" where
  "final_reduce h =
     (case h of (h0, h1, h2, h3, h4) \<Rightarrow>
        let g0 = h0 + 5; c = drop_bit 26 g0; g0 = g0 AND 0x3ffffff;
            g1 = h1 + c; c = drop_bit 26 g1; g1 = g1 AND 0x3ffffff;
            g2 = h2 + c; c = drop_bit 26 g2; g2 = g2 AND 0x3ffffff;
            g3 = h3 + c; c = drop_bit 26 g3; g3 = g3 AND 0x3ffffff;
            g4 = h4 + c - 0x4000000;
            mask = drop_bit 31 g4 - 1;
            g0 = g0 AND mask; g1 = g1 AND mask; g2 = g2 AND mask; g3 = g3 AND mask; g4 = g4 AND mask;
            mask = NOT mask in
        ((h0 AND mask) OR g0, (h1 AND mask) OR g1, (h2 AND mask) OR g2, (h3 AND mask) OR g3,
         (h4 AND mask) OR g4))"

definition final_add :: "limbs \<Rightarrow> u32 \<times> u32 \<times> u32 \<times> u32 \<Rightarrow> byte list" where
  "final_add h pad =
     (case (h, pad) of ((h0, h1, h2, h3, h4), (p0, p1, p2, p3)) \<Rightarrow>
        let f0 = (ucast (h0 OR push_bit 26 h1) + ucast p0 :: u64);
            f1 = (ucast (drop_bit 6 h1 OR push_bit 20 h2) + ucast p1 + drop_bit 32 f0 :: u64);
            f2 = (ucast (drop_bit 12 h2 OR push_bit 14 h3) + ucast p2 + drop_bit 32 f1 :: u64);
            f3 = (ucast (drop_bit 18 h3 OR push_bit 8 h4) + ucast p3 + drop_bit 32 f2 :: u64) in
        word_bytes (ucast f0) @ word_bytes (ucast f1) @ word_bytes (ucast f2) @ word_bytes (ucast f3))"

lemma poly1305_tag_parts: "poly1305_tag h pad = final_add (final_reduce (final_carry h)) pad"
  by (cases h; cases pad)
    (simp only: poly1305_tag_def final_carry_def final_reduce_def final_add_def Let_def prod.case)

fun limbs_tight :: "limbs \<Rightarrow> bool" where
  "limbs_tight (a, b, c, d, e) \<longleftrightarrow> unat a < B26 \<and> unat b < B26 \<and> unat c < B26 \<and> unat d < B26 \<and> unat e < B26"

lemma carry_div: "x = x mod B26 + B26 * (x div B26)"
  by simp

lemma unat_and_add:
  fixes x y :: u32
  assumes "unat x + unat y < 2 ^ 32"
  shows "unat (x + y) = unat x + unat y"
  using assms by (simp add: unat_add_small)

lemma final_carry_num:
  assumes "limbs_ok h"
  shows "limbs_tight (final_carry h)" and "limbs_num (final_carry h) mod poly_p = limbs_num h mod poly_p"
proof -
  obtain h0 h1 h2 h3 h4 where h: "h = (h0, h1, h2, h3, h4)" by (cases h)
  define c1 where "c1 = drop_bit 26 h1"
  define k2 where "k2 = h2 + c1"
  define c2 where "c2 = drop_bit 26 k2"
  define k3 where "k3 = h3 + c2"
  define c3 where "c3 = drop_bit 26 k3"
  define k4 where "k4 = h4 + c3"
  define c4 where "c4 = drop_bit 26 k4"
  define k0 where "k0 = h0 + c4 * 5"
  define c0 where "c0 = drop_bit 26 k0"
  define k1 where "k1 = (h1 AND 0x3ffffff) + c0"
  have b: "unat h0 < B26" "unat h1 < B26 + 64" "unat h2 < B26" "unat h3 < B26" "unat h4 < B26"
    using assms h by auto
  have e: "final_carry h = (k0 AND 0x3ffffff, k1, k2 AND 0x3ffffff, k3 AND 0x3ffffff, k4 AND 0x3ffffff)"
    by (simp only: h final_carry_def Let_def prod.case k0_def k1_def k2_def k3_def k4_def c0_def c1_def c2_def c3_def c4_def)
  have c1: "unat c1 = unat h1 div B26" by (simp add: c1_def unat_drop26)
  then have l1: "unat c1 \<le> 1" using b by simp
  have k2: "unat k2 = unat h2 + unat c1" unfolding k2_def using b l1 by (simp add: unat_and_add)
  have c2: "unat c2 = unat k2 div B26" by (simp add: c2_def unat_drop26)
  then have l2: "unat c2 \<le> unat c1" using k2 b l1 by (cases "unat c1") auto
  have k3: "unat k3 = unat h3 + unat c2" unfolding k3_def using b l1 l2 by (simp add: unat_and_add)
  have c3: "unat c3 = unat k3 div B26" by (simp add: c3_def unat_drop26)
  then have l3: "unat c3 \<le> unat c2" using k3 b l1 l2 by (cases "unat c2") auto
  have k4: "unat k4 = unat h4 + unat c3" unfolding k4_def using b l1 l2 l3 by (simp add: unat_and_add)
  have c4: "unat c4 = unat k4 div B26" by (simp add: c4_def unat_drop26)
  then have l4: "unat c4 \<le> unat c3" using k4 b l1 l2 l3 by (cases "unat c3") auto
  have m4: "unat (c4 * 5) = unat c4 * 5" by (rule unat_times5) (use l1 l2 l3 l4 in simp)
  have k0: "unat k0 = unat h0 + unat c4 * 5" unfolding k0_def using b l1 l2 l3 l4 m4 by (simp add: unat_and_add)
  have c0: "unat c0 = unat k0 div B26" by (simp add: c0_def unat_drop26)
  then have l0: "unat c0 \<le> unat c4" using k0 b l1 l2 l3 l4 by (cases "unat c4") auto
  have k1: "unat k1 = unat h1 mod B26 + unat c0"
  proof -
    have "unat (h1 AND 0x3ffffff) < B26" unfolding unat_mask26 by simp
    moreover have "unat c0 \<le> 1" using l0 l1 l2 l3 l4 by linarith
    ultimately have "unat (h1 AND 0x3ffffff) + unat c0 < 2 ^ 32" by simp
    then show ?thesis unfolding k1_def by (simp only: unat_and_add unat_mask26)
  qed
  have k1b: "unat k1 < B26"
  proof (cases "unat c1 = 0")
    case True
    then show ?thesis using k1 l0 l2 l3 l4 by simp
  next
    case False
    then have "unat c1 = 1" using l1 by simp
    then have "unat h1 = unat h1 mod B26 + B26" using carry_div [of "unat h1"] c1 by simp
    then have "unat h1 mod B26 < 64" using b(2) by linarith
    then show ?thesis using k1 l0 l1 l2 l3 l4 by simp
  qed
  then show "limbs_tight (final_carry h)" by (simp add: e unat_mask26)
  define m1 m2 m3 m4 m0 where "m1 = unat h1 mod B26" and "m2 = unat k2 mod B26" and "m3 = unat k3 mod B26"
    and "m4 = unat k4 mod B26" and "m0 = unat k0 mod B26"
  note ds = m0_def m1_def m2_def m3_def m4_def
  have "unat h1 = m1 + B26 * unat c1" "unat k2 = m2 + B26 * unat c2" "unat k3 = m3 + B26 * unat c3"
      "unat k4 = m4 + B26 * unat c4" "unat k0 = m0 + B26 * unat c0"
    unfolding ds c0 c1 c2 c3 c4 by (rule carry_div)+
  moreover have "limbs_num (final_carry h) = num5 m0 (m1 + unat c0) m2 m3 m4"
    unfolding e limbs_num.simps unat_mask26 k1 ds ..
  ultimately have "limbs_num h = limbs_num (final_carry h) + unat c4 * 1361129467683753853853498429727072845819"
    using k0 k2 k3 k4 unfolding h limbs_num.simps num5_def by simp
  then have "limbs_num h = limbs_num (final_carry h) + unat c4 * poly_p"
    by (simp add: poly_p_def)
  then show "limbs_num (final_carry h) mod poly_p = limbs_num h mod poly_p" by simp
qed

lemma select_mask:
  fixes h g :: u32
  shows "(h AND NOT 0) OR (g AND 0) = h" and "(h AND NOT (- 1)) OR (g AND (- 1)) = g"
  by simp_all

lemma num5_less:
  assumes "a < B26" "b < B26" "c < B26" "d < B26" "e < B26"
  shows "num5 a b c d e < 2 ^ 130"
  using assms by (simp add: num5_def)

lemma sub_wrap:
  fixes x :: u32
  assumes "unat x \<le> B26"
  shows "drop_bit 31 (x - 0x4000000) - 1 = (if unat x = B26 then - 1 else 0)"
    and "unat x = B26 \<Longrightarrow> x - 0x4000000 = 0"
proof -
  have x: "x = 0x4000000" if "unat x = B26"
    using that by (simp add: word_unat_eq_iff)
  then show "unat x = B26 \<Longrightarrow> x - 0x4000000 = 0" by simp
  show "drop_bit 31 (x - 0x4000000) - 1 = (if unat x = B26 then - 1 else 0)"
  proof (cases "unat x = B26")
    case True
    then show ?thesis using x by simp
  next
    case False
    then have lt: "unat x < B26" using assms by simp
    have "x - 0x4000000 = x + 0xFC000000" by simp
    moreover have "unat (x + 0xFC000000) = unat x + 0xFC000000"
      using lt by (subst unat_and_add) simp_all
    ultimately have "unat (x - 0x4000000) = unat x + 0xFC000000" by (simp only:)
    moreover have "(unat x + 0xFC000000) div 2 ^ 31 = 1" using lt by simp
    ultimately have "unat (drop_bit 31 (x - 0x4000000)) = 1" by (simp only: unat_drop_bit)
    then have "drop_bit 31 (x - 0x4000000) = 1"
      by (simp add: word_unat_eq_iff)
    then show ?thesis using False by simp
  qed
qed

lemma final_reduce_num:
  assumes "limbs_tight h"
  shows "limbs_tight (final_reduce h) \<and> limbs_num (final_reduce h) = limbs_num h mod poly_p"
proof -
  obtain h0 h1 h2 h3 h4 where h: "h = (h0, h1, h2, h3, h4)" by (cases h)
  define k0 where "k0 = h0 + 5"
  define k1 where "k1 = h1 + drop_bit 26 k0"
  define k2 where "k2 = h2 + drop_bit 26 k1"
  define k3 where "k3 = h3 + drop_bit 26 k2"
  define k4 where "k4 = h4 + drop_bit 26 k3"
  define mk where "mk = drop_bit 31 (k4 - 0x4000000) - 1"
  have e: "final_reduce h = ((h0 AND NOT mk) OR (k0 AND 0x3ffffff AND mk), (h1 AND NOT mk) OR (k1 AND 0x3ffffff AND mk),
      (h2 AND NOT mk) OR (k2 AND 0x3ffffff AND mk), (h3 AND NOT mk) OR (k3 AND 0x3ffffff AND mk),
      (h4 AND NOT mk) OR ((k4 - 0x4000000) AND mk))"
    unfolding h final_reduce_def Let_def prod.case k0_def k1_def k2_def k3_def k4_def mk_def
    by (simp only: and.assoc)
  have b: "unat h0 < B26" "unat h1 < B26" "unat h2 < B26" "unat h3 < B26" "unat h4 < B26"
    using assms h by auto
  have step: "unat (x + drop_bit 26 y) = unat x + unat y div B26 \<and> unat y div B26 \<le> 1 \<and>
      unat (x + drop_bit 26 y) \<le> B26" if "unat x < B26" "unat y \<le> B26 + 4" for x y :: u32
  proof -
    have "unat (drop_bit 26 y) = unat y div B26" by (rule unat_drop26)
    moreover have "unat y div B26 \<le> 1" using that(2) by simp
    moreover have "unat (x + drop_bit 26 y) = unat x + unat (drop_bit 26 y)"
      using calculation that(1) by (intro unat_and_add) simp
    ultimately show ?thesis using that(1) by simp
  qed
  have u0: "unat k0 = unat h0 + 5" "unat k0 \<le> B26 + 4"
    unfolding k0_def using b by (subst unat_and_add, simp, simp, simp add: unat_and_add)
  note u1 = step [OF b(2) u0(2), folded k1_def]
  note u2 = step [OF b(3), of k1, folded k2_def]
  note u3 = step [OF b(4), of k2, folded k3_def]
  note u4 = step [OF b(5), of k3, folded k4_def]
  have U: "unat k1 = unat h1 + unat k0 div B26" "unat k2 = unat h2 + unat k1 div B26"
      "unat k3 = unat h3 + unat k2 div B26" "unat k4 = unat h4 + unat k3 div B26" "unat k4 \<le> B26"
    using u1 u2 u3 u4 by simp_all
  define G where "G = num5 (unat k0 mod B26) (unat k1 mod B26) (unat k2 mod B26) (unat k3 mod B26) 0"
  have H: "limbs_num h + 5 = G + 20282409603651670423947251286016 * unat k4"
  proof -
    define m0 q0 where "m0 = unat k0 mod B26" and "q0 = unat k0 div B26"
    define m1 q1 where "m1 = unat k1 mod B26" and "q1 = unat k1 div B26"
    define m2 q2 where "m2 = unat k2 mod B26" and "q2 = unat k2 div B26"
    define m3 q3 where "m3 = unat k3 mod B26" and "q3 = unat k3 div B26"
    note ds = m0_def q0_def m1_def q1_def m2_def q2_def m3_def q3_def
    have "unat k0 = m0 + B26 * q0" "unat k1 = m1 + B26 * q1" "unat k2 = m2 + B26 * q2" "unat k3 = m3 + B26 * q3"
      unfolding ds by (rule carry_div)+
    moreover have "unat k1 = unat h1 + q0" "unat k2 = unat h2 + q1" "unat k3 = unat h3 + q2" "unat k4 = unat h4 + q3"
      unfolding ds by (rule U)+
    ultimately show ?thesis
      unfolding h limbs_num.simps G_def num5_def m0_def [symmetric] m1_def [symmetric] m2_def [symmetric] m3_def [symmetric]
      using u0(1) by simp
  qed
  have hb: "limbs_num h < 2 ^ 130" unfolding h limbs_num.simps using b by (rule num5_less)
  show ?thesis
  proof (cases "unat k4 = B26")
    case True
    then have m: "mk = - 1" "k4 - 0x4000000 = 0" using sub_wrap [OF U(5)] by (simp_all add: mk_def)
    have r: "final_reduce h = (k0 AND 0x3ffffff, k1 AND 0x3ffffff, k2 AND 0x3ffffff, k3 AND 0x3ffffff, 0)"
      unfolding e m by simp
    have n: "limbs_num (final_reduce h) = G"
      unfolding r limbs_num.simps unat_mask26 G_def by simp
    have "limbs_num h = G + poly_p" using H True by (simp add: poly_p_def)
    moreover from this have "G < poly_p" using hb by (simp add: poly_p_def)
    ultimately have "limbs_num h mod poly_p = G" by simp
    moreover have "limbs_tight (final_reduce h)"
      unfolding r limbs_tight.simps unat_mask26 by simp
    ultimately show ?thesis using n by simp
  next
    case False
    then have m: "mk = 0" using sub_wrap(1) [OF U(5)] by (simp add: mk_def)
    have r: "final_reduce h = h" unfolding e m by (simp add: h)
    have "G < 2 ^ 104"
    proof -
      have "x mod B26 < B26" for x by simp
      then have "unat k0 mod B26 < B26" "unat k1 mod B26 < B26" "unat k2 mod B26 < B26" "unat k3 mod B26 < B26" by blast+
      then show ?thesis unfolding G_def num5_def by simp
    qed
    moreover have "unat k4 + 1 \<le> B26" using False U(5) by simp
    ultimately have "G + 20282409603651670423947251286016 * unat k4 < 2 ^ 130" by simp
    then have "limbs_num h < poly_p" unfolding H [symmetric] poly_p_def by simp
    then show ?thesis using assms r by simp
  qed
qed

definition num4 :: "nat \<Rightarrow> nat \<Rightarrow> nat \<Rightarrow> nat \<Rightarrow> nat" where
  "num4 a b c d = a + 4294967296 * (b + 4294967296 * (c + 4294967296 * d))"

lemma unat_push_bit_mod: "unat (push_bit k (a :: u32)) = unat a * 2 ^ k mod 2 ^ 32"
proof -
  have "push_bit k a = a * 2 ^ k" by (simp add: push_bit_eq_mult)
  also have "a * 2 ^ k = of_nat (unat a * 2 ^ k)" by simp
  finally show ?thesis by (simp only: unat_of_nat) (simp add: take_bit_eq_mod)
qed

lemma unat_or_push_mod:
  fixes a b :: u32
  assumes "unat a < 2 ^ k" and "k + n = 32"
  shows "unat (a OR push_bit k b) = unat a + 2 ^ k * (unat b mod 2 ^ n)"
proof -
  have e: "(2 :: nat) ^ 32 = 2 ^ k * 2 ^ n" using assms(2) by (metis power_add)
  have p: "unat (push_bit k b) = 2 ^ k * (unat b mod 2 ^ n)"
    unfolding unat_push_bit_mod e by (metis mult.commute mult_mod_right)
  have "unat b mod 2 ^ n + 1 \<le> 2 ^ n" by (simp add: Suc_leI)
  then have "2 ^ k * (unat b mod 2 ^ n + 1) \<le> 2 ^ k * 2 ^ n" by (rule mult_le_mono2)
  then have "unat a + 2 ^ k * (unat b mod 2 ^ n) < 2 ^ 32"
    using assms(1) unfolding e by simp
  then show ?thesis
    using assms(1) by (simp add: or_plus unat_and_add p)
qed

lemma unat_low32: "unat (ucast (f :: u64) :: u32) = unat f mod 4294967296"
  by (simp add: unsigned_ucast_eq take_bit_eq_mod)

lemma final_words:
  fixes h0 h1 h2 h3 h4 :: u32
  assumes "limbs_tight (h0, h1, h2, h3, h4)"
  shows "num4 (unat (h0 OR push_bit 26 h1)) (unat (drop_bit 6 h1 OR push_bit 20 h2))
      (unat (drop_bit 12 h2 OR push_bit 14 h3)) (unat (drop_bit 18 h3 OR push_bit 8 h4))
    = limbs_num (h0, h1, h2, h3, h4) mod 2 ^ 128"
proof -
  have b: "unat h0 < B26" "unat h1 < B26" "unat h2 < B26" "unat h3 < B26" "unat h4 < B26"
    using assms by auto
  define a1 b1 where "a1 = unat h1 mod 2 ^ 6" and "b1 = unat h1 div 2 ^ 6"
  define a2 b2 where "a2 = unat h2 mod 2 ^ 12" and "b2 = unat h2 div 2 ^ 12"
  define a3 b3 where "a3 = unat h3 mod 2 ^ 18" and "b3 = unat h3 div 2 ^ 18"
  define a4 b4 where "a4 = unat h4 mod 2 ^ 24" and "b4 = unat h4 div 2 ^ 24"
  note ds = a1_def b1_def a2_def b2_def a3_def b3_def a4_def b4_def
  have dm: "x = x mod 2 ^ k + 2 ^ k * (x div 2 ^ k)" for x k :: nat by simp
  have h: "unat h1 = a1 + 2 ^ 6 * b1" "unat h2 = a2 + 2 ^ 12 * b2" "unat h3 = a3 + 2 ^ 18 * b3"
      "unat h4 = a4 + 2 ^ 24 * b4"
    unfolding ds by (rule dm)+
  have bb: "b1 < 2 ^ 20" "b2 < 2 ^ 14" "b3 < 2 ^ 8"
    using b unfolding ds by simp_all
  have aa: "a1 < 2 ^ 6" "a2 < 2 ^ 12" "a3 < 2 ^ 18" "a4 < 2 ^ 24"
    unfolding ds by simp_all
  have w0: "unat (h0 OR push_bit 26 h1) = unat h0 + 2 ^ 26 * a1"
    unfolding ds by (rule unat_or_push_mod) (use b in simp_all)
  have w1: "unat (drop_bit 6 h1 OR push_bit 20 h2) = b1 + 2 ^ 20 * a2"
    using unat_or_push_mod [of "drop_bit 6 h1" 20 12 h2] bb by (simp only: unat_drop_bit ds)
  have w2: "unat (drop_bit 12 h2 OR push_bit 14 h3) = b2 + 2 ^ 14 * a3"
    using unat_or_push_mod [of "drop_bit 12 h2" 14 18 h3] bb by (simp only: unat_drop_bit ds)
  have w3: "unat (drop_bit 18 h3 OR push_bit 8 h4) = b3 + 2 ^ 8 * a4"
    using unat_or_push_mod [of "drop_bit 18 h3" 8 24 h4] bb by (simp only: unat_drop_bit ds)
  let ?w = "num4 (unat h0 + 2 ^ 26 * a1) (b1 + 2 ^ 20 * a2) (b2 + 2 ^ 14 * a3) (b3 + 2 ^ 8 * a4)"
  have "limbs_num (h0, h1, h2, h3, h4) = ?w + 2 ^ 128 * b4"
    unfolding limbs_num.simps num5_def num4_def h by simp
  moreover have "?w < 2 ^ 128"
    using b(1) aa bb unfolding num4_def by simp
  ultimately show ?thesis unfolding w0 w1 w2 w3 by simp
qed

lemma final_add_num:
  assumes "limbs_tight h"
  shows "length (final_add h (p0, p1, p2, p3)) = 16"
    and "le_num (final_add h (p0, p1, p2, p3))
      = (limbs_num h + num4 (unat p0) (unat p1) (unat p2) (unat p3)) mod 2 ^ 128"
proof -
  obtain h0 h1 h2 h3 h4 where h: "h = (h0, h1, h2, h3, h4)" by (cases h)
  define w0 where "w0 = h0 OR push_bit 26 h1"
  define w1 where "w1 = drop_bit 6 h1 OR push_bit 20 h2"
  define w2 where "w2 = drop_bit 12 h2 OR push_bit 14 h3"
  define w3 where "w3 = drop_bit 18 h3 OR push_bit 8 h4"
  define f0 where "f0 = (ucast w0 + ucast p0 :: u64)"
  define f1 where "f1 = (ucast w1 + ucast p1 + drop_bit 32 f0 :: u64)"
  define f2 where "f2 = (ucast w2 + ucast p2 + drop_bit 32 f1 :: u64)"
  define f3 where "f3 = (ucast w3 + ucast p3 + drop_bit 32 f2 :: u64)"
  have e: "final_add h (p0, p1, p2, p3) =
      word_bytes (ucast f0) @ word_bytes (ucast f1) @ word_bytes (ucast f2) @ word_bytes (ucast f3)"
    unfolding h final_add_def Let_def prod.case f3_def f2_def f1_def f0_def w0_def w1_def w2_def w3_def ..
  show "length (final_add h (p0, p1, p2, p3)) = 16" by (simp add: e)
  have lt: "unat (x :: u32) < 4294967296" for x using unsigned_less [of x] by simp
  define c0 where "c0 = unat f0 div 4294967296"
  define c1 where "c1 = unat f1 div 4294967296"
  define c2 where "c2 = unat f2 div 4294967296"
  define c3 where "c3 = unat f3 div 4294967296"
  define d0 where "d0 = unat f0 mod 4294967296"
  define d1 where "d1 = unat f1 mod 4294967296"
  define d2 where "d2 = unat f2 mod 4294967296"
  define d3 where "d3 = unat f3 mod 4294967296"
  have two: "unat (ucast x + ucast y :: u64) = unat x + unat y" for x y :: u32
    using lt [of x] lt [of y] by (subst unat_add_small) simp_all
  have dr: "unat (drop_bit 32 f) = unat f div 4294967296" for f :: u64 by (simp add: unat_drop_bit)
  have add: "unat (ucast x + ucast y + drop_bit 32 f :: u64) = unat x + unat y + unat f div 4294967296"
    if "unat f div 4294967296 \<le> 2" for x y :: u32 and f :: u64
    using that lt [of x] lt [of y] by (subst unat_add_small) (simp_all add: two dr)
  have u0: "unat f0 = unat w0 + unat p0" unfolding f0_def by (rule two)
  have l0: "unat f0 div 4294967296 \<le> 2" unfolding u0 using lt [of w0] lt [of p0] by simp
  have u1: "unat f1 = unat w1 + unat p1 + c0" unfolding f1_def c0_def by (rule add [OF l0])
  have l1: "unat f1 div 4294967296 \<le> 2" unfolding u1 c0_def using lt [of w1] lt [of p1] l0 by simp
  have u2: "unat f2 = unat w2 + unat p2 + c1" unfolding f2_def c1_def by (rule add [OF l1])
  have l2: "unat f2 div 4294967296 \<le> 2" unfolding u2 c1_def using lt [of w2] lt [of p2] l1 by simp
  have u3: "unat f3 = unat w3 + unat p3 + c2" unfolding f3_def c2_def by (rule add [OF l2])
  have "x = x mod 4294967296 + 4294967296 * (x div 4294967296)" for x :: nat by simp
  then have D: "unat f0 = d0 + 4294967296 * c0" "unat f1 = d1 + 4294967296 * c1"
      "unat f2 = d2 + 4294967296 * c2" "unat f3 = d3 + 4294967296 * c3"
    unfolding c0_def c1_def c2_def c3_def d0_def d1_def d2_def d3_def by blast+
  have sum: "num4 (unat w0) (unat w1) (unat w2) (unat w3) + num4 (unat p0) (unat p1) (unat p2) (unat p3)
      = num4 d0 d1 d2 d3 + 2 ^ 128 * c3"
    using D u0 u1 u2 u3 unfolding num4_def by simp
  have "d0 < 4294967296" "d1 < 4294967296" "d2 < 4294967296" "d3 < 4294967296"
    unfolding d0_def d1_def d2_def d3_def by simp_all
  then have lt4: "num4 d0 d1 d2 d3 < 2 ^ 128" unfolding num4_def by simp
  have "le_num (final_add h (p0, p1, p2, p3)) = num4 d0 d1 d2 d3"
    by (simp add: e le_simps le_num_word_bytes unat_low32 num4_def d0_def d1_def d2_def d3_def)
  also have "\<dots> = (num4 d0 d1 d2 d3 + 2 ^ 128 * c3) mod 2 ^ 128" using lt4 by simp
  also have "\<dots> = (limbs_num h mod 2 ^ 128 + num4 (unat p0) (unat p1) (unat p2) (unat p3)) mod 2 ^ 128"
    unfolding sum [symmetric] using final_words [OF assms [unfolded h]]
    by (simp only: w0_def w1_def w2_def w3_def h)
  finally show "le_num (final_add h (p0, p1, p2, p3))
      = (limbs_num h + num4 (unat p0) (unat p1) (unat p2) (unat p3)) mod 2 ^ 128"
    by (simp only: mod_add_left_eq)
qed

lemma split_quarters:
  assumes "length xs = 16"
  shows "xs = take 4 xs @ take 4 (drop 4 xs) @ take 4 (drop 8 xs) @ take 4 (drop 12 xs)"
proof -
  have "take 4 (drop 12 xs) = drop 12 xs" using assms by simp
  moreover have "drop 8 xs = take 4 (drop 8 xs) @ drop 12 xs"
    using append_take_drop_id [of 4 "drop 8 xs"] by simp
  moreover have "drop 4 xs = take 4 (drop 4 xs) @ drop 8 xs"
    using append_take_drop_id [of 4 "drop 4 xs"] by simp
  moreover have "xs = take 4 xs @ drop 4 xs" by simp
  ultimately show ?thesis by simp
qed

lemma SetKey_pad:
  assumes "length key = 32"
  shows "\<exists>p0 p1 p2 p3. po_pad (wc_Poly1305SetKey key) = (p0, p1, p2, p3) \<and>
    num4 (unat p0) (unat p1) (unat p2) (unat p3) = poly_s key"
proof -
  let ?s = "drop 16 key"
  have l: "length ?s = 16" using assms by simp
  have "le_num ?s = le_num (take 4 ?s @ take 4 (drop 4 ?s) @ take 4 (drop 8 ?s) @ take 4 (drop 12 ?s))"
    by (simp only: split_quarters [OF l, symmetric])
  also have "\<dots> = num4 (le_num (take 4 ?s)) (le_num (take 4 (drop 4 ?s)))
      (le_num (take 4 (drop 8 ?s))) (le_num (take 4 (drop 12 ?s)))"
    using assms by (simp add: le_num_append num4_def)
  finally have "le_num ?s = num4 (le_num (take 4 ?s)) (le_num (take 4 (drop 4 ?s)))
      (le_num (take 4 (drop 8 ?s))) (le_num (take 4 (drop 12 ?s)))" .
  then show ?thesis
    using assms by (simp add: wc_Poly1305SetKey_def poly_s_def unat_U8TO32)
qed

lemma Final_mac:
  assumes k: "length key = 32" and a: "absorbed key ctx m"
  shows "length (wc_Poly1305Final ctx) = 16 \<and> le_num (wc_Poly1305Final ctx) = poly1305_mac key m"
proof -
  note L = last_block_num [OF k a]
  obtain p0 p1 p2 p3 where p: "po_pad (wc_Poly1305SetKey key) = (p0, p1, p2, p3)"
      "num4 (unat p0) (unat p1) (unat p2) (unat p3) = poly_s key"
    using SetKey_pad [OF k] by blast
  have pad: "po_pad (last_block ctx) = (p0, p1, p2, p3)" using L a p by (simp add: absorbed_def)
  let ?h = "po_h (last_block ctx)"
  have ok: "limbs_ok ?h" using L by simp
  note C = final_carry_num [OF ok]
  note R = final_reduce_num [OF C(1)]
  have t: "limbs_tight (final_reduce (final_carry ?h))" using R by simp
  have n: "limbs_num (final_reduce (final_carry ?h)) = poly_acc (poly_r key) 0 m"
    using R C(2) L by simp
  show ?thesis
    using final_add_num [OF t, of p0 p1 p2 p3] n p(2)
    by (simp add: wc_Poly1305Final_def Let_def poly1305_tag_parts pad poly1305_mac_def)
qed

interpretation poly1305: streaming "\<lambda>c m. length key = 32 \<and> absorbed key c m" wc_Poly1305Update
  for key
  by unfold_locales (simp add: absorbed_update)

end
