(* ===== verification/Chacha_Poly.thy ===== *)
theory Chacha_Poly
  imports Chacha20 Poly1305_Tag Ed25519
begin

text \<open>
  The authenticated encryption of the sessions: ChaCha20 and Poly1305 combined in
  \<open>src/wolfcrypt/src/chacha20_poly1305.c\<close>, with the wrappers of \<open>src/crypto.c\<close>.  Pointers are never NULL
  here and the update functions always return 0, so only the checks on lengths remain.  The locale
  \<open>aead\<close> is what the frames of a session need of it.
\<close>

section \<open>The combination\<close>

definition word32ToLittle64 :: "u32 \<Rightarrow> byte list" where
  "word32ToLittle64 x =
     [ucast (x AND 0x000000FF), ucast (drop_bit 8 (x AND 0x0000FF00)),
      ucast (drop_bit 16 (x AND 0x00FF0000)), ucast (drop_bit 24 (x AND 0xFF000000)), 0, 0, 0, 0]"

text \<open>\<open>-(int)len & 15\<close>.\<close>

definition padding_len :: "nat \<Rightarrow> nat" where
  "padding_len n = nat ((- int n) mod 16)"

definition pad_update :: "poly1305 \<Rightarrow> byte list \<Rightarrow> poly1305" where
  "pad_update ctx m =
     (let ctx = wc_Poly1305Update ctx m; n = padding_len (length m) in
      if n \<noteq> 0 then wc_Poly1305Update ctx (replicate n 0) else ctx)"

definition calculateAuthTag :: "byte list \<Rightarrow> byte list \<Rightarrow> byte list \<Rightarrow> byte list" where
  "calculateAuthTag authKey aad ciphertext =
     (let ctx = wc_Poly1305SetKey authKey;
          ctx = (if aad \<noteq> [] then pad_update ctx aad else ctx);
          ctx = pad_update ctx ciphertext;
          ctx = wc_Poly1305Update ctx (word32ToLittle64 (of_nat (length aad)));
          ctx = wc_Poly1305Update ctx (word32ToLittle64 (of_nat (length ciphertext))) in
      wc_Poly1305Final ctx)"

text \<open>\<open>ctx0\<close> is the uninitialised context the functions start from.\<close>

definition aead_start :: "u32 list \<Rightarrow> byte list \<Rightarrow> byte list \<Rightarrow> int \<times> u32 list \<times> byte list" where
  "aead_start ctx0 key iv =
     (let (err, X) = wc_Chacha_SetKey ctx0 key in
      if err \<noteq> 0 then (err, X, [])
      else (let X = wc_Chacha_SetIV X iv 0; (X, polyKey) = wc_Chacha_Process X (replicate 32 0) in
            (0, X, polyKey)))"

definition wc_ChaCha20Poly1305_Encrypt ::
  "u32 list \<Rightarrow> byte list \<Rightarrow> byte list \<Rightarrow> byte list \<Rightarrow> byte list \<Rightarrow> int \<times> byte list \<times> byte list" where
  "wc_ChaCha20Poly1305_Encrypt ctx0 key iv aad plaintext =
     (if plaintext = [] then (BAD_FUNC_ARG, [], [])
      else (let (err, X, polyKey) = aead_start ctx0 key iv in
        if err \<noteq> 0 then (err, [], [])
        else (let (_, ciphertext) = wc_Chacha_Process X plaintext in
              (0, ciphertext, calculateAuthTag polyKey aad ciphertext))))"

definition wc_ChaCha20Poly1305_Decrypt ::
  "u32 list \<Rightarrow> byte list \<Rightarrow> byte list \<Rightarrow> byte list \<Rightarrow> byte list \<Rightarrow> byte list \<Rightarrow> int \<times> byte list" where
  "wc_ChaCha20Poly1305_Decrypt ctx0 key iv aad ciphertext authTag =
     (if ciphertext = [] then (BAD_FUNC_ARG, [])
      else (let (err, X, polyKey) = aead_start ctx0 key iv in
        if err \<noteq> 0 then (err, [])
        else if ConstantCompare authTag (calculateAuthTag polyKey aad ciphertext) 16 \<noteq> 0
             then (MAC_CMP_FAILED_E, [])
             else (0, snd (wc_Chacha_Process X ciphertext))))"

section \<open>The wrappers of crypto.c\<close>

text \<open>The code, the size stored and the bytes written; \<open>None\<close> for a NULL size pointer.\<close>

definition crypto_chacha20poly1305_decrypt ::
  "u32 list \<Rightarrow> byte list \<Rightarrow> byte list \<Rightarrow> byte list \<Rightarrow> byte list \<Rightarrow> nat option \<Rightarrow> int \<times> nat option \<times> byte list"
  where
  "crypto_chacha20poly1305_decrypt ctx0 key nonce aad message sz =
     (if length message \<le> 16 then (- 2, sz, [])
      else case sz of
        None \<Rightarrow> (- 1, None, [])
      | Some n \<Rightarrow>
          (let len = length message - 16 in
           if n < len then (- 2, Some len, [])
           else (let (r, out) = wc_ChaCha20Poly1305_Decrypt ctx0 key nonce aad (take len message) (drop len message) in
                 (r, Some len, out))))"

definition crypto_chacha20poly1305_encrypt ::
  "u32 list \<Rightarrow> byte list \<Rightarrow> byte list \<Rightarrow> byte list \<Rightarrow> byte list \<Rightarrow> nat option \<Rightarrow> int \<times> nat option \<times> byte list"
  where
  "crypto_chacha20poly1305_encrypt ctx0 key nonce aad message sz =
     (case sz of
        None \<Rightarrow> (- 1, None, [])
      | Some n \<Rightarrow>
          (let len = length message + 16 in
           if n < len then (- 1, Some len, [])
           else (let (r, out, tag) = wc_ChaCha20Poly1305_Encrypt ctx0 key nonce aad message in
                 (r, Some len, out @ tag))))"


section \<open>The tag of the combination\<close>

text \<open>The authenticated data of RFC 8439: both texts padded to blocks of 16, then their lengths.\<close>

definition padded :: "byte list \<Rightarrow> byte list" where
  "padded m = m @ replicate (padding_len (length m)) 0"

definition aead_data :: "byte list \<Rightarrow> byte list \<Rightarrow> byte list" where
  "aead_data aad ciphertext =
     padded aad @ padded ciphertext @ word32ToLittle64 (of_nat (length aad))
     @ word32ToLittle64 (of_nat (length ciphertext))"

lemma padding_len_0 [simp]: "padding_len 0 = 0"
  by (simp add: padding_len_def)

lemma absorbed_pad_update:
  "length key = 32 \<Longrightarrow> absorbed key ctx m \<Longrightarrow> absorbed key (pad_update ctx x) (m @ padded x)"
  unfolding pad_update_def padded_def Let_def append_assoc [symmetric]
  by (simp add: absorbed_update del: append_assoc)

lemma calculateAuthTag_mac:
  assumes k: "length key = 32"
  shows "length (calculateAuthTag key aad c) = 16 \<and>
    le_num (calculateAuthTag key aad c) = poly1305_mac key (aead_data aad c)"
proof -
  let ?c0 = "wc_Poly1305SetKey key"
  let ?c1 = "if aad \<noteq> [] then pad_update ?c0 aad else ?c0"
  have "absorbed key (pad_update ?c0 aad) ([] @ padded aad)"
    by (rule absorbed_pad_update [OF k absorbed_SetKey [OF k]])
  then have 1: "absorbed key ?c1 (padded aad)"
    using absorbed_SetKey [OF k] by (auto simp: padded_def)
  note 2 = absorbed_pad_update [OF k 1, of c]
  note 3 = absorbed_update [OF k 2, of "word32ToLittle64 (of_nat (length aad))"]
  note 4 = absorbed_update [OF k 3, of "word32ToLittle64 (of_nat (length c))"]
  show ?thesis
    using Final_mac [OF k 4] by (simp add: calculateAuthTag_def aead_data_def Let_def)
qed

section \<open>Sealing and opening\<close>

text \<open>The cipher context and the one-time key of a message.\<close>

definition session_ctx :: "byte list \<Rightarrow> byte list \<Rightarrow> u32 list" where
  "session_ctx key iv = fst (snd (aead_start [] key iv))"

definition one_time_key :: "byte list \<Rightarrow> byte list \<Rightarrow> byte list" where
  "one_time_key key iv = snd (snd (aead_start [] key iv))"

lemma aead_start_key:
  assumes "length key = 32"
  shows "aead_start ctx0 key iv = (0, session_ctx key iv, one_time_key key iv)"
    and "length (session_ctx key iv) = 16" and "length (one_time_key key iv) = 32"
proof -
  have i: "wc_Chacha_SetIV (snd (wc_Chacha_SetKey ctx0 key)) iv 0 = wc_Chacha_SetIV (snd (wc_Chacha_SetKey [] key)) iv 0"
    using assms by (simp add: wc_Chacha_SetKey_def wc_Chacha_SetIV_def sigma_def)
  have l: "length (wc_Chacha_SetIV (snd (wc_Chacha_SetKey [] key)) iv 0) = 16"
    using assms by (simp add: wc_Chacha_SetKey_def wc_Chacha_SetIV_def sigma_def)
  have e: "fst (wc_Chacha_SetKey c key) = 0" for c
    using assms by (simp add: wc_Chacha_SetKey_def Let_def)
  show "aead_start ctx0 key iv = (0, session_ctx key iv, one_time_key key iv)"
    using i e by (simp add: session_ctx_def one_time_key_def aead_start_def Let_def split: prod.split)
      (metis fst_conv snd_conv)
  show "length (session_ctx key iv) = 16" "length (one_time_key key iv) = 32"
    using l e [of "[]"]
    by (auto simp: session_ctx_def one_time_key_def aead_start_def Let_def wc_Chacha_Process_def
        encrypt_bytes_stream length_key_stream blocks_of_def split: prod.split)
qed

definition sealed :: "byte list \<Rightarrow> byte list \<Rightarrow> byte list \<Rightarrow> byte list \<Rightarrow> byte list" where
  "sealed key iv aad m =
     (let c = snd (wc_Chacha_Process (session_ctx key iv) m) in c @ calculateAuthTag (one_time_key key iv) aad c)"

lemma length_sealed: "length key = 32 \<Longrightarrow> length (sealed key iv aad m) = length m + 16"
  using aead_start_key(2,3) [of key iv] calculateAuthTag_mac
  by (simp add: sealed_def Let_def wc_Chacha_Process_def)

lemma encrypt_sealed:
  "length key = 32 \<Longrightarrow> m \<noteq> [] \<Longrightarrow> length m + 16 \<le> n \<Longrightarrow>
    crypto_chacha20poly1305_encrypt ctx0 key iv aad m (Some n) = (0, Some (length m + 16), sealed key iv aad m)"
  by (simp add: crypto_chacha20poly1305_encrypt_def wc_ChaCha20Poly1305_Encrypt_def aead_start_key(1)
      sealed_def Let_def split: prod.split)

lemma decrypt_cases:
  assumes k: "length key = 32" and l: "16 < length x" "length x - 16 \<le> n"
  shows "crypto_chacha20poly1305_decrypt ctx0 key iv aad x (Some n) =
    (let c = take (length x - 16) x in
     if drop (length x - 16) x = calculateAuthTag (one_time_key key iv) aad c
     then (0, Some (length x - 16), snd (wc_Chacha_Process (session_ctx key iv) c))
     else (MAC_CMP_FAILED_E, Some (length x - 16), []))"
proof -
  let ?t = "drop (length x - 16) x"
  let ?u = "calculateAuthTag (one_time_key key iv) aad (take (length x - 16) x)"
  have "length ?u = 16" using calculateAuthTag_mac [OF aead_start_key(3) [OF k]] by simp
  moreover have "length ?t = 16" using l by simp
  ultimately have "ConstantCompare ?t ?u 16 = 0 \<longleftrightarrow> ?t = ?u"
    using ConstantCompare_zero [of 16 ?t ?u] by simp
  moreover have "take (length x - 16) x \<noteq> []" using l by auto
  ultimately show ?thesis
    using l by (simp add: crypto_chacha20poly1305_decrypt_def wc_ChaCha20Poly1305_Decrypt_def
        aead_start_key(1) [OF k] Let_def)
qed

text \<open>What a session needs of authenticated encryption, for one key.\<close>

locale aead =
  fixes seal :: "'nonce \<Rightarrow> byte list \<Rightarrow> byte list \<Rightarrow> byte list"
    and unseal :: "'nonce \<Rightarrow> byte list \<Rightarrow> byte list \<Rightarrow> byte list option"
  assumes seal_length: "length (seal n aad m) = length m + 16"
    and unseal_seal: "m \<noteq> [] \<Longrightarrow> unseal n aad (seal n aad m) = Some m"
    and unseal_only: "unseal n aad x = Some m \<Longrightarrow> x = seal n aad m"
begin

lemma unseal_iff: "m \<noteq> [] \<Longrightarrow> unseal n aad x = Some m \<longleftrightarrow> x = seal n aad m"
  using unseal_seal unseal_only by blast

lemma unseal_length: "unseal n aad x = Some m \<Longrightarrow> length x = length m + 16"
  using unseal_only seal_length by blast

end

definition code_unseal :: "u32 list \<Rightarrow> byte list \<Rightarrow> byte list \<Rightarrow> byte list \<Rightarrow> byte list \<Rightarrow> byte list option" where
  "code_unseal ctx0 key iv aad x =
     (let (r, _, out) = crypto_chacha20poly1305_decrypt ctx0 key iv aad x (Some (length x)) in
      if r = 0 then Some out else None)"

lemma stream_twice:
  assumes "length key = 32"
  shows "snd (wc_Chacha_Process (session_ctx key iv) (snd (wc_Chacha_Process (session_ctx key iv) m))) = m"
  using Process_twice [OF aead_start_key(2) [OF assms]] by simp

lemma code_unseal_sealed:
  assumes k: "length key = 32" and m: "m \<noteq> []"
  shows "code_unseal ctx0 key iv aad (sealed key iv aad m) = Some m"
proof -
  let ?c = "snd (wc_Chacha_Process (session_ctx key iv) m)"
  have l: "length ?c = length m" "length (sealed key iv aad m) = length m + 16"
    using aead_start_key(2) [OF k] length_sealed [OF k] by (simp_all add: wc_Chacha_Process_def)
  then have t: "take (length m) (sealed key iv aad m) = ?c"
      "drop (length m) (sealed key iv aad m) = calculateAuthTag (one_time_key key iv) aad ?c"
    by (simp_all add: sealed_def Let_def)
  show ?thesis
    using m l t by (simp add: code_unseal_def decrypt_cases [OF k] Let_def stream_twice [OF k])
qed

lemma code_unseal_only:
  assumes k: "length key = 32" and u: "code_unseal ctx0 key iv aad x = Some m"
  shows "x = sealed key iv aad m"
proof -
  have l: "16 < length x"
    using u by (auto simp: code_unseal_def crypto_chacha20poly1305_decrypt_def split: if_splits)
  let ?c = "take (length x - 16) x"
  have d: "drop (length x - 16) x = calculateAuthTag (one_time_key key iv) aad ?c"
      "m = snd (wc_Chacha_Process (session_ctx key iv) ?c)"
    using u l by (auto simp: code_unseal_def decrypt_cases [OF k] Let_def error_codes split: if_splits)
  then have "snd (wc_Chacha_Process (session_ctx key iv) m) = ?c"
    using stream_twice [OF k] by simp
  then show ?thesis
    unfolding sealed_def Let_def using d(1) by (metis append_take_drop_id)
qed

text \<open>The contents of a key field of 32 bytes.\<close>

definition array32 :: "byte list \<Rightarrow> byte list" where
  "array32 k = take 32 (k @ replicate 32 0)"

lemma length_array32 [simp]: "length (array32 k) = 32"
  by (simp add: array32_def)

lemma array32_id: "length k = 32 \<Longrightarrow> array32 k = k"
  by (simp add: array32_def)

interpretation session: aead "sealed (array32 k)" "code_unseal ctx0 (array32 k)"
  for k ctx0
  by unfold_locales (simp_all add: length_sealed code_unseal_sealed code_unseal_only)

section \<open>Properties\<close>

text \<open>
  The stream cipher: encrypting any text exclusive-ors it with the key stream of the context, whose
  blocks are the ChaCha20 blocks of successive counters, moves the counter on by the number of blocks,
  and encrypting the result again from the same context gives the text back.
\<close>

theorem chacha_process_stream:
  assumes "length X = 16"
  shows "wc_Chacha_Process X m =
      (X[12 := X ! 12 + of_nat (blocks_of (length m))], map2 (XOR) m (key_stream X (blocks_of (length m))))
    \<and> snd (wc_Chacha_Process X (snd (wc_Chacha_Process X m))) = m"
  using assms encrypt_bytes_stream [of X m] Process_twice [of X m] by (simp add: wc_Chacha_Process_def)

theorem chacha_process_stream_witness:
  "length (replicate 16 (7 :: u32)) = 16 \<and>
    snd (wc_Chacha_Process (replicate 16 7) (snd (wc_Chacha_Process (replicate 16 7) [1, 2, 3]))) = [1, 2, 3]"
  using chacha_process_stream [of "replicate 16 7" "[1, 2, 3]"] by (metis length_replicate)

text \<open>
  C16: The limb arithmetic of Poly1305 is exact: for a 32-byte key and a message passed in any pieces, the
  16 bytes \<open>wc_Poly1305Final\<close> writes are, as a little-endian number, the tag of RFC 8439: the polynomial of
  the 16-byte blocks in the clamped key modulo \<open>2 ^ 130 - 5\<close>, plus the second half of the key, modulo
  \<open>2 ^ 128\<close>.
\<close>

theorem poly1305_tag_exact:
  assumes "length key = 32"
  shows "length (wc_Poly1305Final (fold (\<lambda>x c. wc_Poly1305Update c x) pieces (wc_Poly1305SetKey key))) = 16 \<and>
    le_num (wc_Poly1305Final (fold (\<lambda>x c. wc_Poly1305Update c x) pieces (wc_Poly1305SetKey key)))
      = poly1305_mac key (concat pieces)"
  using poly1305.updates [of key "wc_Poly1305SetKey key" "[]" pieces] assms
  by (auto intro!: Final_mac absorbed_SetKey)

theorem poly1305_tag_exact_witness:
  "length (replicate 32 (9 :: byte)) = 32 \<and>
    le_num (wc_Poly1305Final (wc_Poly1305Update (wc_Poly1305Update (wc_Poly1305SetKey (replicate 32 9)) [1, 2]) [3]))
      = poly1305_mac (replicate 32 9) [1, 2, 3]"
  using poly1305_tag_exact [of "replicate 32 9" "[[1, 2], [3]]"] by simp

text \<open>
  C14: Sealing and opening: with a 32-byte key, \<open>crypto_chacha20poly1305_encrypt\<close> of a non-empty message
  into a large enough buffer returns 0 and 16 bytes more than the message, and
  \<open>crypto_chacha20poly1305_decrypt\<close> of these bytes with the same key, nonce and additional data returns 0
  and the message.
\<close>

theorem crypto_aead_roundtrip:
  assumes "length key = 32" and "m \<noteq> []" and "length m + 16 \<le> n"
  shows "\<exists>x. crypto_chacha20poly1305_encrypt ctx0 key nonce aad m (Some n) = (0, Some (length m + 16), x) \<and>
    length x = length m + 16 \<and>
    crypto_chacha20poly1305_decrypt ctx1 key nonce aad x (Some (length x)) = (0, Some (length m), m)"
proof (intro exI conjI)
  let ?x = "sealed key nonce aad m"
  show "crypto_chacha20poly1305_encrypt ctx0 key nonce aad m (Some n) = (0, Some (length m + 16), ?x)"
    by (rule encrypt_sealed [OF assms])
  show l: "length ?x = length m + 16"
    using session.seal_length [of key] by (simp add: array32_id assms)
  have "code_unseal ctx1 key nonce aad ?x = Some m"
    using session.unseal_seal [OF assms(2), of ctx1 key] by (simp add: array32_id assms)
  then show "crypto_chacha20poly1305_decrypt ctx1 key nonce aad ?x (Some (length ?x)) = (0, Some (length m), m)"
    using l assms by (auto simp: code_unseal_def decrypt_cases Let_def error_codes split: if_splits)
qed

theorem crypto_aead_roundtrip_witness:
  "\<exists>x. crypto_chacha20poly1305_encrypt [] (replicate 32 1) (replicate 12 2) [3] [4, 5] (Some 18) = (0, Some 18, x) \<and>
    length x = 18 \<and>
    crypto_chacha20poly1305_decrypt [] (replicate 32 1) (replicate 12 2) [3] x (Some (length x)) = (0, Some 2, [4, 5])"
  using crypto_aead_roundtrip [of "replicate 32 1" "[4, 5]" 18 "[]" "replicate 12 2" "[3]" "[]"]
  by (simp add: numeral_2_eq_2 [symmetric])

text \<open>
  C15: Only sealed bytes open: when \<open>crypto_chacha20poly1305_decrypt\<close> returns 0 with a 32-byte key, its
  input is exactly what \<open>crypto_chacha20poly1305_encrypt\<close> writes for the bytes it returns, and the last 16
  bytes of the input are the Poly1305 tag, under the one-time key of the nonce, of the additional data
  and the rest of the input.
\<close>

theorem crypto_decrypt_authentic:
  assumes "length key = 32"
    and "crypto_chacha20poly1305_decrypt ctx0 key nonce aad x (Some n) = (0, sz, m)"
  shows "crypto_chacha20poly1305_encrypt ctx1 key nonce aad m (Some (length x)) = (0, Some (length x), x) \<and>
    le_num (drop (length x - 16) x) =
      poly1305_mac (one_time_key key nonce) (aead_data aad (take (length x - 16) x))"
proof -
  have l: "16 < length x" "length x - 16 \<le> n"
    using assms(2) by (auto simp: crypto_chacha20poly1305_decrypt_def Let_def split: if_splits)
  let ?c = "take (length x - 16) x"
  have d: "drop (length x - 16) x = calculateAuthTag (one_time_key key nonce) aad ?c"
      "m = snd (wc_Chacha_Process (session_ctx key nonce) ?c)"
    using assms(2) l by (auto simp: decrypt_cases [OF assms(1)] Let_def error_codes split: if_splits)
  have u: "code_unseal ctx0 key nonce aad x = Some m"
    using d l by (simp add: code_unseal_def decrypt_cases [OF assms(1)] Let_def)
  then have x: "x = sealed key nonce aad m" "length x = length m + 16"
    using session.unseal_only [of ctx0 key] session.unseal_length [of ctx0 key]
    by (simp_all add: array32_id assms(1))
  moreover have "m \<noteq> []" using x(2) l by auto
  ultimately have "crypto_chacha20poly1305_encrypt ctx1 key nonce aad m (Some (length x)) = (0, Some (length x), x)"
    using encrypt_sealed [OF assms(1), of m "length x" ctx1 nonce aad] by simp
  then show ?thesis
    using d(1) calculateAuthTag_mac [OF aead_start_key(3) [OF assms(1)]] by simp
qed

theorem crypto_decrypt_authentic_witness:
  "length (replicate 32 (1 :: byte)) = 32 \<and>
    (let x = snd (snd (crypto_chacha20poly1305_encrypt [] (replicate 32 1) (replicate 12 2) [3] [4, 5] (Some 18))) in
     crypto_chacha20poly1305_encrypt [] (replicate 32 1) (replicate 12 2) [3] [4, 5] (Some (length x)) = (0, Some (length x), x) \<and>
     le_num (drop 2 x) = poly1305_mac (one_time_key (replicate 32 1) (replicate 12 2)) (aead_data [3] (take 2 x)))"
proof -
  let ?k = "replicate 32 (1 :: byte)" and ?n = "replicate 12 (2 :: byte)"
  let ?x = "sealed ?k ?n [3] [4, 5]"
  have e: "crypto_chacha20poly1305_encrypt [] ?k ?n [3] [4, 5] (Some 18) = (0, Some 18, ?x)"
    using encrypt_sealed [of ?k "[4, 5]" 18 "[]" ?n "[3]"] by simp
  have l: "length ?x = 18" using length_sealed [of ?k ?n "[3]" "[4, 5]"] by simp
  have "code_unseal [] ?k ?n [3] ?x = Some [4, 5]" by (rule code_unseal_sealed) simp_all
  then have "crypto_chacha20poly1305_decrypt [] ?k ?n [3] ?x (Some 18)
      = (0, fst (snd (crypto_chacha20poly1305_decrypt [] ?k ?n [3] ?x (Some 18))), [4, 5])"
    using l by (auto simp: code_unseal_def split: if_splits prod.splits)
  from crypto_decrypt_authentic [OF _ this, of "[]"] show ?thesis
    using e l by simp
qed

end
