(* ===== verification/Sha512.thy ===== *)
theory Sha512
  imports HK_Prelude
begin

text \<open>
  The hash function of \<open>src/wolfcrypt/src/sha512.c\<close>, the portable branch the ESP8266 builds (little
  endian, partially unrolled loop), and its equivalence with the definition of FIPS 180-4.  Pointers are
  never NULL and the memory for the schedule is always there, so every function returns 0 and only its
  effect is modelled.  The buffer is kept as the bytes that are waiting in it: the code never reads
  more of it before it writes it.
\<close>

section \<open>The compression function\<close>

text \<open>The 64-bit literals, written by halves.\<close>

definition W64LIT :: "u32 \<Rightarrow> u32 \<Rightarrow> u64" where
  "W64LIT hi lo = (push_bit 32 (ucast hi) OR ucast lo)"

definition K512 :: "u64 list" where
  "K512 = [
    W64LIT 0x428a2f98 0xd728ae22, W64LIT 0x71374491 0x23ef65cd, W64LIT 0xb5c0fbcf 0xec4d3b2f, W64LIT 0xe9b5dba5 0x8189dbbc,
    W64LIT 0x3956c25b 0xf348b538, W64LIT 0x59f111f1 0xb605d019, W64LIT 0x923f82a4 0xaf194f9b, W64LIT 0xab1c5ed5 0xda6d8118,
    W64LIT 0xd807aa98 0xa3030242, W64LIT 0x12835b01 0x45706fbe, W64LIT 0x243185be 0x4ee4b28c, W64LIT 0x550c7dc3 0xd5ffb4e2,
    W64LIT 0x72be5d74 0xf27b896f, W64LIT 0x80deb1fe 0x3b1696b1, W64LIT 0x9bdc06a7 0x25c71235, W64LIT 0xc19bf174 0xcf692694,
    W64LIT 0xe49b69c1 0x9ef14ad2, W64LIT 0xefbe4786 0x384f25e3, W64LIT 0x0fc19dc6 0x8b8cd5b5, W64LIT 0x240ca1cc 0x77ac9c65,
    W64LIT 0x2de92c6f 0x592b0275, W64LIT 0x4a7484aa 0x6ea6e483, W64LIT 0x5cb0a9dc 0xbd41fbd4, W64LIT 0x76f988da 0x831153b5,
    W64LIT 0x983e5152 0xee66dfab, W64LIT 0xa831c66d 0x2db43210, W64LIT 0xb00327c8 0x98fb213f, W64LIT 0xbf597fc7 0xbeef0ee4,
    W64LIT 0xc6e00bf3 0x3da88fc2, W64LIT 0xd5a79147 0x930aa725, W64LIT 0x06ca6351 0xe003826f, W64LIT 0x14292967 0x0a0e6e70,
    W64LIT 0x27b70a85 0x46d22ffc, W64LIT 0x2e1b2138 0x5c26c926, W64LIT 0x4d2c6dfc 0x5ac42aed, W64LIT 0x53380d13 0x9d95b3df,
    W64LIT 0x650a7354 0x8baf63de, W64LIT 0x766a0abb 0x3c77b2a8, W64LIT 0x81c2c92e 0x47edaee6, W64LIT 0x92722c85 0x1482353b,
    W64LIT 0xa2bfe8a1 0x4cf10364, W64LIT 0xa81a664b 0xbc423001, W64LIT 0xc24b8b70 0xd0f89791, W64LIT 0xc76c51a3 0x0654be30,
    W64LIT 0xd192e819 0xd6ef5218, W64LIT 0xd6990624 0x5565a910, W64LIT 0xf40e3585 0x5771202a, W64LIT 0x106aa070 0x32bbd1b8,
    W64LIT 0x19a4c116 0xb8d2d0c8, W64LIT 0x1e376c08 0x5141ab53, W64LIT 0x2748774c 0xdf8eeb99, W64LIT 0x34b0bcb5 0xe19b48a8,
    W64LIT 0x391c0cb3 0xc5c95a63, W64LIT 0x4ed8aa4a 0xe3418acb, W64LIT 0x5b9cca4f 0x7763e373, W64LIT 0x682e6ff3 0xd6b2b8a3,
    W64LIT 0x748f82ee 0x5defb2fc, W64LIT 0x78a5636f 0x43172f60, W64LIT 0x84c87814 0xa1f0ab72, W64LIT 0x8cc70208 0x1a6439ec,
    W64LIT 0x90befffa 0x23631e28, W64LIT 0xa4506ceb 0xde82bde9, W64LIT 0xbef9a3f7 0xb2c67915, W64LIT 0xc67178f2 0xe372532b,
    W64LIT 0xca273ece 0xea26619c, W64LIT 0xd186b8c7 0x21c0c207, W64LIT 0xeada7dd6 0xcde0eb1e, W64LIT 0xf57d4f7f 0xee6ed178,
    W64LIT 0x06f067aa 0x72176fba, W64LIT 0x0a637dc5 0xa2c898a6, W64LIT 0x113f9804 0xbef90dae, W64LIT 0x1b710b35 0x131c471b,
    W64LIT 0x28db77f5 0x23047d84, W64LIT 0x32caab7b 0x40c72493, W64LIT 0x3c9ebe0a 0x15c9bebc, W64LIT 0x431d67c4 0x9c100d4c,
    W64LIT 0x4cc5d4be 0xcb3e42b6, W64LIT 0x597f299c 0xfc657e2a, W64LIT 0x5fcb6fab 0x3ad6faec, W64LIT 0x6c44198c 0x4a475817
  ]"

definition rotrFixed64 :: "u64 \<Rightarrow> nat \<Rightarrow> u64" where
  "rotrFixed64 x y = (drop_bit y x OR push_bit (64 - y) x)"

definition rotlFixed64 :: "u64 \<Rightarrow> nat \<Rightarrow> u64" where
  "rotlFixed64 x y = (push_bit y x OR drop_bit (64 - y) x)"

definition Ch :: "u64 \<Rightarrow> u64 \<Rightarrow> u64 \<Rightarrow> u64" where
  "Ch x y z = (z XOR (x AND (y XOR z)))"

definition Maj :: "u64 \<Rightarrow> u64 \<Rightarrow> u64 \<Rightarrow> u64" where
  "Maj x y z = ((x AND y) OR (z AND (x OR y)))"

definition big_S0 :: "u64 \<Rightarrow> u64" where
  "big_S0 x = (rotrFixed64 x 28 XOR rotrFixed64 x 34 XOR rotrFixed64 x 39)"
definition big_S1 :: "u64 \<Rightarrow> u64" where
  "big_S1 x = (rotrFixed64 x 14 XOR rotrFixed64 x 18 XOR rotrFixed64 x 41)"
definition small_s0 :: "u64 \<Rightarrow> u64" where
  "small_s0 x = (rotrFixed64 x 1 XOR rotrFixed64 x 8 XOR drop_bit 7 x)"
definition small_s1 :: "u64 \<Rightarrow> u64" where
  "small_s1 x = (rotrFixed64 x 19 XOR rotrFixed64 x 61 XOR drop_bit 6 x)"

text \<open>\<open>(k - i) & 7\<close>, the position of the \<open>k\<close>-th working variable in round \<open>i\<close>, and \<open>(i - k) & 15\<close>.\<close>

definition at7 :: "nat \<Rightarrow> nat \<Rightarrow> nat" where
  "at7 k i = nat ((int k - int i) mod 8)"

definition at15 :: "nat \<Rightarrow> nat \<Rightarrow> nat" where
  "at15 i k = nat ((int i - int k) mod 16)"

definition blk0 :: "u64 list \<Rightarrow> nat \<Rightarrow> u64 list \<Rightarrow> u64 list" where
  "blk0 buffer i W = W[i := buffer ! i]"

definition blk2 :: "nat \<Rightarrow> u64 list \<Rightarrow> u64 list" where
  "blk2 i W = W[at15 i 0 := W ! at15 i 0 +
     (small_s1 (W ! at15 i 2) + W ! at15 i 7 + small_s0 (W ! at15 i 15))]"

text \<open>The macro \<open>R(i)\<close> of the round \<open>i + j\<close>, on the schedule \<open>W\<close> and the working variables \<open>T\<close>.\<close>

definition sha512_R :: "u64 list \<Rightarrow> nat \<Rightarrow> nat \<Rightarrow> u64 list \<times> u64 list \<Rightarrow> u64 list \<times> u64 list" where
  "sha512_R buffer j i WT =
     (let (W, T) = WT;
          W = (if j \<noteq> 0 then blk2 i W else blk0 buffer i W);
          T = T[at7 7 i := T ! at7 7 i + (big_S1 (T ! at7 4 i) + Ch (T ! at7 4 i) (T ! at7 5 i) (T ! at7 6 i)
                + K512 ! (i + j) + W ! at15 i 0)];
          T = T[at7 3 i := T ! at7 3 i + T ! at7 7 i];
          T = T[at7 7 i := T ! at7 7 i + (big_S0 (T ! at7 0 i) + Maj (T ! at7 0 i) (T ! at7 1 i) (T ! at7 2 i))]
      in (W, T))"

text \<open>The schedule is written before it is read, so its first contents do not matter.\<close>

definition Transform_Sha512 :: "u64 list \<Rightarrow> u64 list \<Rightarrow> u64 list" where
  "Transform_Sha512 digest buffer =
     (let (W, T) = fold (\<lambda>j. fold (sha512_R buffer j) [0..<16]) [0, 16, 32, 48, 64] (replicate 16 0, digest) in
      map (\<lambda>k. digest ! k + T ! at7 k 0) [0..<8])"

section \<open>Streaming\<close>

record wc_Sha512 =
  sha_digest :: "u64 list"
  sha_buffer :: "byte list"
  sha_loLen :: u64
  sha_hiLen :: u64

definition InitSha512 :: wc_Sha512 where
  "InitSha512 =
     \<lparr>sha_digest = [W64LIT 0x6a09e667 0xf3bcc908, W64LIT 0xbb67ae85 0x84caa73b, W64LIT 0x3c6ef372 0xfe94f82b, W64LIT 0xa54ff53a 0x5f1d36f1,
                    W64LIT 0x510e527f 0xade682d1, W64LIT 0x9b05688c 0x2b3e6c1f, W64LIT 0x1f83d9ab 0xfb41bd6b, W64LIT 0x5be0cd19 0x137e2179],
      sha_buffer = [], sha_loLen = 0, sha_hiLen = 0\<rparr>"

definition WC_SHA512_BLOCK_SIZE :: nat where "WC_SHA512_BLOCK_SIZE = 128"
definition WC_SHA512_PAD_SIZE :: nat where "WC_SHA512_PAD_SIZE = 112"
definition WC_SHA512_DIGEST_SIZE :: nat where "WC_SHA512_DIGEST_SIZE = 64"

lemmas sha512_sizes = WC_SHA512_BLOCK_SIZE_def WC_SHA512_PAD_SIZE_def WC_SHA512_DIGEST_SIZE_def

definition ByteReverseWord64 :: "u64 \<Rightarrow> u64" where
  "ByteReverseWord64 value =
     (let value = (drop_bit 8 (value AND 0xFF00FF00FF00FF00) OR push_bit 8 (value AND 0x00FF00FF00FF00FF));
          value = (drop_bit 16 (value AND 0xFFFF0000FFFF0000) OR push_bit 16 (value AND 0x0000FFFF0000FFFF)) in
      rotlFixed64 value 32)"

text \<open>Eight bytes in memory as a word, and a word as eight bytes.\<close>

definition load64 :: "byte list \<Rightarrow> u64" where
  "load64 b = fold (\<lambda>x w. push_bit 8 w OR ucast x) (rev (take 8 b)) 0"

definition store64 :: "u64 \<Rightarrow> byte list" where
  "store64 w = map (\<lambda>i. ucast (drop_bit (8 * i) w)) [0..<8]"

text \<open>\<open>ByteReverseWords64\<close> of the \<open>n\<close> words of a buffer.\<close>

definition ByteReverseWords64 :: "byte list \<Rightarrow> nat \<Rightarrow> u64 list" where
  "ByteReverseWords64 buffer n = map (\<lambda>i. ByteReverseWord64 (load64 (drop (8 * i) buffer))) [0..<n]"

definition AddLength :: "wc_Sha512 \<Rightarrow> nat \<Rightarrow> wc_Sha512" where
  "AddLength sha len =
     (let tmp = sha_loLen sha; sha = sha\<lparr>sha_loLen := tmp + of_nat len\<rparr> in
      if sha_loLen sha < tmp then sha\<lparr>sha_hiLen := sha_hiLen sha + 1\<rparr> else sha)"

definition sha512_block :: "wc_Sha512 \<Rightarrow> byte list \<Rightarrow> wc_Sha512" where
  "sha512_block sha block =
     sha\<lparr>sha_digest := Transform_Sha512 (sha_digest sha) (ByteReverseWords64 block 16), sha_buffer := []\<rparr>"

text \<open>The loop over whole blocks; what is left goes to the buffer.\<close>

function sha512_blocks :: "wc_Sha512 \<Rightarrow> byte list \<Rightarrow> wc_Sha512" where
  "sha512_blocks sha data =
     (if length data \<ge> WC_SHA512_BLOCK_SIZE
      then sha512_blocks (sha512_block sha (take WC_SHA512_BLOCK_SIZE data)) (drop WC_SHA512_BLOCK_SIZE data)
      else if data \<noteq> [] then sha\<lparr>sha_buffer := data\<rparr> else sha)"
  by pat_completeness auto
termination
  by (relation "measure (\<lambda>(sha, data). length data)") (auto simp: sha512_sizes)

declare sha512_blocks.simps [simp del]

definition Sha512Update :: "wc_Sha512 \<Rightarrow> byte list \<Rightarrow> wc_Sha512" where
  "Sha512Update sha data =
     (let (sha, data) =
        (if sha_buffer sha \<noteq> [] then
           (let add = min (length data) (WC_SHA512_BLOCK_SIZE - length (sha_buffer sha));
                sha = sha\<lparr>sha_buffer := sha_buffer sha @ take add data\<rparr> in
            (if length (sha_buffer sha) = WC_SHA512_BLOCK_SIZE
             then AddLength (sha512_block sha (sha_buffer sha)) WC_SHA512_BLOCK_SIZE else sha,
             drop add data))
         else (sha, data));
        blocksLen = length data div WC_SHA512_BLOCK_SIZE * WC_SHA512_BLOCK_SIZE in
      sha512_blocks (AddLength sha blocksLen) data)"

definition Sha512Final :: "wc_Sha512 \<Rightarrow> byte list" where
  "Sha512Final sha =
     (let sha = AddLength sha (length (sha_buffer sha));
          local = sha_buffer sha @ [0x80];
          (sha, local) =
            (if length local > WC_SHA512_PAD_SIZE
             then (sha512_block sha (local @ replicate (WC_SHA512_BLOCK_SIZE - length local) 0), [])
             else (sha, local));
          local = local @ replicate (WC_SHA512_PAD_SIZE - length local) 0;
          hiLen = drop_bit 61 (sha_loLen sha) + push_bit 3 (sha_hiLen sha);
          loLen = push_bit 3 (sha_loLen sha);
          digest = Transform_Sha512 (sha_digest sha) (ByteReverseWords64 local 14 @ [hiLen, loLen]) in
      concat (map (\<lambda>w. store64 (ByteReverseWord64 w)) digest))"

definition wc_InitSha512 :: wc_Sha512 where
  "wc_InitSha512 = InitSha512"

definition wc_Sha512Update :: "wc_Sha512 \<Rightarrow> byte list \<Rightarrow> wc_Sha512" where
  "wc_Sha512Update sha data = Sha512Update sha data"

text \<open>The digest, and the state, which is initialised again.\<close>

definition wc_Sha512Final :: "wc_Sha512 \<Rightarrow> byte list \<times> wc_Sha512" where
  "wc_Sha512Final sha = (Sha512Final sha, InitSha512)"

section \<open>FIPS 180-4\<close>

text \<open>The message schedule, a round on the working variables, and the compression of one block.\<close>

fun schedule :: "u64 list \<Rightarrow> nat \<Rightarrow> u64" where
  "schedule M t =
     (if t < 16 then M ! t
      else small_s1 (schedule M (t - 2)) + schedule M (t - 7) + small_s0 (schedule M (t - 15)) + schedule M (t - 16))"

declare schedule.simps [simp del]

fun sha_round :: "u64 \<Rightarrow> u64 list \<Rightarrow> u64 list" where
  "sha_round kw [a, b, c, d, e, f, g, h] =
     (let T1 = h + big_S1 e + ((e AND f) XOR (NOT e AND g)) + kw;
          T2 = big_S0 a + ((a AND b) XOR (a AND c) XOR (b AND c)) in
      [T1 + T2, a, b, c, d + T1, e, f, g])"
| "sha_round kw vs = vs"

fun sha_rounds :: "u64 list \<Rightarrow> nat \<Rightarrow> u64 list \<Rightarrow> u64 list" where
  "sha_rounds M 0 vs = vs"
| "sha_rounds M (Suc t) vs = sha_round (K512 ! t + schedule M t) (sha_rounds M t vs)"

definition compress :: "u64 list \<Rightarrow> u64 list \<Rightarrow> u64 list" where
  "compress H M = map2 (+) H (sha_rounds M 80 H)"

definition be64 :: "byte list \<Rightarrow> u64" where
  "be64 b = fold (\<lambda>x w. push_bit 8 w OR ucast x) (take 8 b) 0"

definition be64_bytes :: "u64 \<Rightarrow> byte list" where
  "be64_bytes w = map (\<lambda>i. ucast (drop_bit (56 - 8 * i) w)) [0..<8]"

definition block_words :: "byte list \<Rightarrow> u64 list" where
  "block_words b = map (\<lambda>i. be64 (drop (8 * i) b)) [0..<16]"

function hash_blocks :: "u64 list \<Rightarrow> byte list \<Rightarrow> u64 list" where
  "hash_blocks H m = (if length m < 128 then H else hash_blocks (compress H (block_words (take 128 m))) (drop 128 m))"
  by pat_completeness auto
termination
  by (relation "measure (\<lambda>(H, m). length m)") auto

declare hash_blocks.simps [simp del]

text \<open>A one bit, zeros up to 16 bytes before the end of a block, and the length in bits in 16 bytes.\<close>

definition sha_padding :: "nat \<Rightarrow> byte list" where
  "sha_padding n = [0x80] @ replicate (nat ((111 - int n) mod 128)) 0 @
     be64_bytes (of_nat (8 * n div 2 ^ 64)) @ be64_bytes (of_nat (8 * n))"

definition sha512_hash :: "byte list \<Rightarrow> byte list" where
  "sha512_hash m = concat (map be64_bytes (hash_blocks (sha_digest InitSha512) (m @ sha_padding (length m))))"

section \<open>The rounds\<close>

lemma Ch_spec: "Ch x y z = ((x AND y) XOR (NOT x AND z))"
  by (rule bit_word_eqI) (auto simp: Ch_def bit_simps)

lemma Maj_spec: "Maj x y z = ((x AND y) XOR (x AND z) XOR (y AND z))"
  by (rule bit_word_eqI) (auto simp: Maj_def bit_simps)

lemma length_sha_round [simp]: "length (sha_round kw vs) = length vs"
  by (cases "(kw, vs)" rule: sha_round.cases) (simp_all add: Let_def)

lemma length_sha_rounds [simp]: "length (sha_rounds M t vs) = length vs"
  by (induction t) simp_all

text \<open>The loops over \<open>j\<close> and \<open>i\<close> are one loop over the rounds.\<close>

lemma loops_as_one:
  "fold (\<lambda>j. fold (f j) [0..<16]) [0, 16, 32, 48, 64] WT = fold (\<lambda>t. f (16 * (t div 16)) (t mod 16)) [0..<80] WT"
proof -
  let ?g = "\<lambda>(j, i). f j i"
  have "fold (\<lambda>j. fold (f j) [0..<16]) [0, 16, 32, 48, 64] WT =
      fold ?g (concat (map (\<lambda>j. map (Pair j) [0..<16]) [0, 16, 32, 48, 64])) WT"
    by (simp add: fold_map comp_def)
  also have "concat (map (\<lambda>j. map (Pair j) [0..<16]) [0, 16, 32, 48, 64]) =
      map (\<lambda>t. (16 * (t div 16), t mod 16)) [0..<80 :: nat]"
    by code_simp
  also have "fold ?g (map (\<lambda>t. (16 * (t div 16), t mod 16)) [0..<80]) WT =
      fold (\<lambda>t. f (16 * (t div 16)) (t mod 16)) [0..<80] WT"
    by (simp add: fold_map comp_def)
  finally show ?thesis .
qed

text \<open>
  After \<open>t\<close> rounds the \<open>k\<close>-th working variable is at \<open>(k - t) & 7\<close>, and the schedule holds its last
  sixteen words.
\<close>

definition round_inv :: "u64 list \<Rightarrow> u64 list \<Rightarrow> nat \<Rightarrow> u64 list \<times> u64 list \<Rightarrow> bool" where
  "round_inv M H t WT \<longleftrightarrow> length (fst WT) = 16 \<and> length (snd WT) = 8 \<and>
     (\<forall>k<8. snd WT ! at7 k t = sha_rounds M t H ! k) \<and>
     (\<forall>s<t. t \<le> s + 16 \<longrightarrow> fst WT ! (s mod 16) = schedule M s)"

lemma mod_8_16: "(int t mod 16) mod 8 = int t mod 8"
  by (rule mod_mod_cancel) simp

lemma at7_mod: "at7 k (t mod 16) = at7 k t"
proof -
  have "(int k - int (t mod 16)) mod 8 = (int k - int t) mod 8"
    by (rule mod_diff_cong) (simp_all add: zmod_int mod_8_16)
  then show ?thesis by (simp add: at7_def)
qed

lemma at7_less [simp]: "at7 k t < 8"
  by (simp add: at7_def nat_less_iff)

lemma at7_0 [simp]: "k < 8 \<Longrightarrow> at7 k 0 = k"
  by (simp add: at7_def)

lemma at7_inj [simp]:
  assumes "k < 8" and "l < 8"
  shows "at7 k t = at7 l t \<longleftrightarrow> k = l"
proof
  assume "at7 k t = at7 l t"
  then have "(int k - int t) mod 8 = (int l - int t) mod 8"
    by (simp add: at7_def)
  then have "int k mod 8 = int l mod 8"
    by (metis mod_add_cong diff_add_cancel)
  then show "k = l" using assms by simp
qed simp

lemma at7_Suc: "at7 0 (Suc t) = at7 7 t" "at7 (Suc k) (Suc t) = at7 k t"
proof -
  have "(0 - (int t + 1)) mod 8 = (7 - int t) mod 8" by presburger
  then show "at7 0 (Suc t) = at7 7 t" by (simp add: at7_def algebra_simps)
  show "at7 (Suc k) (Suc t) = at7 k t" by (simp add: at7_def)
qed

lemma at7_numeral: "at7 (numeral k) (Suc t) = at7 (pred_numeral k) t"
  by (simp only: numeral_eq_Suc at7_Suc)

lemma at15_mod: "k \<le> t \<Longrightarrow> at15 (t mod 16) k = (t - k) mod 16"
proof -
  assume k: "k \<le> t"
  have "(int (t mod 16) - int k) mod 16 = int ((t - k) mod 16)"
    using k by (simp add: zmod_int of_nat_diff mod_diff_left_eq)
  then show ?thesis by (simp add: at15_def)
qed

lemma list8:
  assumes "length vs = 8"
  shows "vs = [vs ! 0, vs ! 1, vs ! 2, vs ! 3, vs ! 4, vs ! 5, vs ! 6, vs ! 7]"
proof (rule nth_equalityI)
  fix k assume "k < length vs"
  then have "k = 0 \<or> k = 1 \<or> k = 2 \<or> k = 3 \<or> k = 4 \<or> k = 5 \<or> k = 6 \<or> k = 7" using assms by linarith
  then show "vs ! k = [vs ! 0, vs ! 1, vs ! 2, vs ! 3, vs ! 4, vs ! 5, vs ! 6, vs ! 7] ! k" by auto
qed (simp add: assms)

lemma schedule_step:
  assumes "round_inv M H t (W, T)" and "length M = 16"
  defines "W' \<equiv> (if 16 * (t div 16) \<noteq> 0 then blk2 (t mod 16) W else blk0 M (t mod 16) W)"
  shows "W' ! (t mod 16) = schedule M t" and "length W' = 16"
    and "s < t \<Longrightarrow> Suc t \<le> s + 16 \<Longrightarrow> W' ! (s mod 16) = schedule M s"
proof -
  have l: "length W = 16" using assms(1) by (simp add: round_inv_def)
  then show "length W' = 16" by (simp add: W'_def blk2_def blk0_def)
  have old: "W ! (s mod 16) = schedule M s" if "s < t" "t \<le> s + 16" for s
    using assms(1) that by (simp add: round_inv_def)
  show "W' ! (t mod 16) = schedule M t"
  proof (cases "t < 16")
    case True
    then show ?thesis using l by (simp add: W'_def blk0_def schedule.simps)
  next
    case False
    have "W ! (t mod 16) = schedule M (t - 16)"
      using old [of "t - 16"] False by (simp add: mod_if [of t])
    moreover have "W ! ((t - k) mod 16) = schedule M (t - k)" if "0 < k" "k \<le> 16" for k
      using old [of "t - k"] that False by simp
    moreover have "t div 16 \<noteq> 0" using False by (simp add: div_eq_0_iff)
    ultimately show ?thesis
      using False l by (simp add: W'_def blk2_def at15_mod schedule.simps [of M t] add_ac)
  qed
  show "W' ! (s mod 16) = schedule M s" if "s < t" "Suc t \<le> s + 16"
  proof -
    have "s mod 16 \<noteq> t mod 16"
    proof
      assume "s mod 16 = t mod 16"
      then have "16 dvd t - s" using that(1) by (metis mod_eq_dvd_iff_nat less_imp_le_nat)
      then show False using that by (auto dest: dvd_imp_le)
    qed
    then show ?thesis
      using old [of s] that by (auto simp: W'_def blk2_def blk0_def at15_mod)
  qed
qed

lemma round_step:
  assumes "round_inv M H t WT" and "length M = 16" and "length H = 8"
  shows "round_inv M H (Suc t) (sha512_R M (16 * (t div 16)) (t mod 16) WT)"
proof -
  obtain W T where WT [simp]: "WT = (W, T)" by (cases WT)
  define W' where "W' = (if 16 * (t div 16) \<noteq> 0 then blk2 (t mod 16) W else blk0 M (t mod 16) W)"
  note W' = schedule_step [OF assms(1) [unfolded WT] assms(2), folded W'_def]
  let ?vs = "sha_rounds M t H"
  have lT: "length T = 8" and T: "\<And>k. k < 8 \<Longrightarrow> T ! at7 k t = ?vs ! k"
    using assms(1) by (simp_all add: round_inv_def)
  have k: "t mod 16 + 16 * (t div 16) = t" by simp
  have w: "W' ! at15 (t mod 16) 0 = schedule M t" using W'(1) by (simp add: at15_mod)
  let ?kw = "K512 ! t + schedule M t"
  have vs: "sha_round ?kw ?vs =
    (let T1 = ?vs ! 7 + big_S1 (?vs ! 4) + Ch (?vs ! 4) (?vs ! 5) (?vs ! 6) + ?kw;
         T2 = big_S0 (?vs ! 0) + Maj (?vs ! 0) (?vs ! 1) (?vs ! 2) in
     [T1 + T2, ?vs ! 0, ?vs ! 1, ?vs ! 2, ?vs ! 3 + T1, ?vs ! 4, ?vs ! 5, ?vs ! 6])"
    by (subst list8 [of ?vs]) (simp_all add: Ch_spec Maj_spec assms(3))
  obtain T' where R: "sha512_R M (16 * (t div 16)) (t mod 16) WT = (W', T')"
    and T': "T' = (let T = T[at7 7 t := T ! at7 7 t + (big_S1 (T ! at7 4 t) + Ch (T ! at7 4 t) (T ! at7 5 t) (T ! at7 6 t)
                + K512 ! t + schedule M t)];
          T = T[at7 3 t := T ! at7 3 t + T ! at7 7 t] in
          T[at7 7 t := T ! at7 7 t + (big_S0 (T ! at7 0 t) + Maj (T ! at7 0 t) (T ! at7 1 t) (T ! at7 2 t))])"
    unfolding sha512_R_def WT Let_def prod.case W'_def [symmetric] w k at7_mod by simp
  have l': "length T' = 8" by (simp add: T' lT Let_def)
  have n: "T' ! at7 k (Suc t) = sha_round ?kw ?vs ! k" if "k < 8" for k
  proof -
    have "k = 0 \<or> k = Suc 0 \<or> k = Suc 1 \<or> k = Suc 2 \<or> k = Suc 3 \<or> k = Suc 4 \<or> k = Suc 5 \<or> k = Suc 6"
      using that by linarith
    then show ?thesis
      unfolding vs T' by (elim disjE) (simp_all add: Let_def at7_Suc at7_numeral lT T add_ac)
  qed
  have s: "W' ! (s mod 16) = schedule M s" if "s < Suc t" "Suc t \<le> s + 16" for s
    using W'(1) W'(3) [of s] that by (cases "s = t") auto
  show ?thesis
    unfolding R using W'(2) l' n s by (simp add: round_inv_def)
qed

lemma transform_compress:
  assumes "length M = 16" and "length H = 8"
  shows "Transform_Sha512 H M = compress H M"
proof -
  have inv: "round_inv M H n (fold (\<lambda>t. sha512_R M (16 * (t div 16)) (t mod 16)) [0..<n] (replicate 16 0, H))" for n
  proof (induction n)
    case 0
    then show ?case using assms by (simp add: round_inv_def)
  next
    case (Suc n)
    then show ?case using round_step [OF Suc assms] by simp
  qed
  obtain W T where WT: "fold (\<lambda>t. sha512_R M (16 * (t div 16)) (t mod 16)) [0..<80] (replicate 16 0, H) = (W, T)"
    by fastforce
  have "T ! at7 k 80 = sha_rounds M 80 H ! k" if "k < 8" for k
    using inv [of 80] that unfolding WT by (simp add: round_inv_def)
  moreover have "at7 k 80 = k" if "k < 8" for k
  proof -
    have "(int k - 80) mod 8 = int k" using that by presburger
    then show ?thesis by (simp add: at7_def)
  qed
  ultimately show ?thesis
    using assms(2) unfolding Transform_Sha512_def loops_as_one WT compress_def
    by (intro nth_equalityI) simp_all
qed

section \<open>Bytes\<close>

lemma mask_bits:
  "n < 64 \<Longrightarrow> bit (0xFF00FF00FF00FF00 :: u64) n \<longleftrightarrow> odd (n div 8)"
  "n < 64 \<Longrightarrow> bit (0x00FF00FF00FF00FF :: u64) n \<longleftrightarrow> even (n div 8)"
  "n < 64 \<Longrightarrow> bit (0xFFFF0000FFFF0000 :: u64) n \<longleftrightarrow> odd (n div 16)"
  "n < 64 \<Longrightarrow> bit (0x0000FFFF0000FFFF :: u64) n \<longleftrightarrow> even (n div 16)"
proof -
  have "list_all (\<lambda>n. (bit (0xFF00FF00FF00FF00 :: u64) n \<longleftrightarrow> odd (n div 8))
      \<and> (bit (0x00FF00FF00FF00FF :: u64) n \<longleftrightarrow> even (n div 8))
      \<and> (bit (0xFFFF0000FFFF0000 :: u64) n \<longleftrightarrow> odd (n div 16))
      \<and> (bit (0x0000FFFF0000FFFF :: u64) n \<longleftrightarrow> even (n div 16))) [0..<64]"
    by code_simp
  then show "n < 64 \<Longrightarrow> bit (0xFF00FF00FF00FF00 :: u64) n \<longleftrightarrow> odd (n div 8)"
    "n < 64 \<Longrightarrow> bit (0x00FF00FF00FF00FF :: u64) n \<longleftrightarrow> even (n div 8)"
    "n < 64 \<Longrightarrow> bit (0xFFFF0000FFFF0000 :: u64) n \<longleftrightarrow> odd (n div 16)"
    "n < 64 \<Longrightarrow> bit (0x0000FFFF0000FFFF :: u64) n \<longleftrightarrow> even (n div 16)"
    by (auto simp: list_all_iff)
qed

definition swap8 :: "u64 \<Rightarrow> u64" where
  "swap8 w = (drop_bit 8 (w AND 0xFF00FF00FF00FF00) OR push_bit 8 (w AND 0x00FF00FF00FF00FF))"

definition swap16 :: "u64 \<Rightarrow> u64" where
  "swap16 w = (drop_bit 16 (w AND 0xFFFF0000FFFF0000) OR push_bit 16 (w AND 0x0000FFFF0000FFFF))"

lemma ByteReverseWord64_swaps: "ByteReverseWord64 w = rotlFixed64 (swap16 (swap8 w)) 32"
  unfolding ByteReverseWord64_def swap8_def swap16_def Let_def ..

lemma high_bit: "64 \<le> n \<Longrightarrow> \<not> bit (w :: u64) n"
  using bit_imp_le_length [of w n] by auto

lemma byte_bit_div:
  assumes "n < 8"
  shows "(8 * i + n) div 8 = (i :: nat)" and "(8 * i + n) div 16 = (i div 2 :: nat)"
proof -
  show "(8 * i + n) div 8 = i" using assms by simp
  then show "(8 * i + n) div 16 = i div 2"
    using div_mult2_eq [of "8 * i + n" 8 2] by simp
qed

lemma swap8_bits:
  "bit (swap8 w) k \<longleftrightarrow> bit w (8 + k) \<and> bit (0xFF00FF00FF00FF00 :: u64) (8 + k) \<or>
    8 \<le> k \<and> k < 64 \<and> bit w (k - 8) \<and> bit (0x00FF00FF00FF00FF :: u64) (k - 8)"
  unfolding swap8_def bit_or_iff bit_drop_bit_eq bit_push_bit_iff comp_def bit_and_iff by simp

lemma swap16_bits:
  "bit (swap16 w) k \<longleftrightarrow> bit w (16 + k) \<and> bit (0xFFFF0000FFFF0000 :: u64) (16 + k) \<or>
    16 \<le> k \<and> k < 64 \<and> bit w (k - 16) \<and> bit (0x0000FFFF0000FFFF :: u64) (k - 16)"
  unfolding swap16_def bit_or_iff bit_drop_bit_eq bit_push_bit_iff comp_def bit_and_iff by simp

lemma parity_shift:
  assumes "0 < (w :: nat)"
  shows "even ((w + k) div w) \<longleftrightarrow> odd (k div w :: nat)"
    and "w \<le> k \<Longrightarrow> even ((k - w) div w) \<longleftrightarrow> odd (k div w)"
    and "odd (k div w) \<Longrightarrow> w \<le> k"
proof -
  have "(w + k) div w = Suc (k div w)" using assms by (simp add: div_add_self1)
  then show "even ((w + k) div w) \<longleftrightarrow> odd (k div w)" by (simp only: even_Suc)
  show "even ((k - w) div w) \<longleftrightarrow> odd (k div w)" if "w \<le> k"
    using le_div_geq [OF assms that] by (simp only: even_Suc not_not)
  show "w \<le> k" if "odd (k div w)" using that by (cases "k < w") auto
qed

lemma swap8_up:
  assumes "k + 8 < 64" and "even (k div 8)"
  shows "bit (swap8 w) k \<longleftrightarrow> bit w (k + 8)"
proof -
  have d: "odd ((8 + k) div 8)" "8 \<le> k \<Longrightarrow> odd ((k - 8) div 8)"
    using assms(2) parity_shift [of 8 k] by simp_all
  have l: "8 + k < 64" "k - 8 < 64" using assms(1) by simp_all
  note iffD2 [OF mask_bits(1) [OF l(1)] d(1)]
  moreover have "8 \<le> k \<Longrightarrow> \<not> bit (0x00FF00FF00FF00FF :: u64) (k - 8)"
    using d(2) unfolding mask_bits(2) [OF l(2)] by blast
  ultimately show ?thesis unfolding swap8_bits add.commute [of k] by blast
qed

lemma swap8_down:
  assumes "k < 64" and "odd (k div 8)"
  shows "bit (swap8 w) k \<longleftrightarrow> bit w (k - 8)"
proof -
  have k: "8 \<le> k" "even ((k - 8) div 8)" "even ((8 + k) div 8)"
    using assms(2) parity_shift [of 8 k] by simp_all
  have "\<not> bit (0xFF00FF00FF00FF00 :: u64) (8 + k)"
  proof (cases "8 + k < 64")
    case True
    then show ?thesis unfolding mask_bits(1) [OF True] using k(3) by blast
  qed (rule high_bit, simp)
  moreover have l: "k - 8 < 64" using assms(1) by simp
  note iffD2 [OF mask_bits(2) [OF l] k(2)]
  ultimately show ?thesis using k(1) assms(1) unfolding swap8_bits by blast
qed

lemma swap16_up:
  assumes "k + 16 < 64" and "even (k div 16)"
  shows "bit (swap16 w) k \<longleftrightarrow> bit w (k + 16)"
proof -
  have d: "odd ((16 + k) div 16)" "16 \<le> k \<Longrightarrow> odd ((k - 16) div 16)"
    using assms(2) parity_shift [of 16 k] by simp_all
  have l: "16 + k < 64" "k - 16 < 64" using assms(1) by simp_all
  note iffD2 [OF mask_bits(3) [OF l(1)] d(1)]
  moreover have "16 \<le> k \<Longrightarrow> \<not> bit (0x0000FFFF0000FFFF :: u64) (k - 16)"
    using d(2) unfolding mask_bits(4) [OF l(2)] by blast
  ultimately show ?thesis unfolding swap16_bits add.commute [of k] by blast
qed

lemma swap16_down:
  assumes "k < 64" and "odd (k div 16)"
  shows "bit (swap16 w) k \<longleftrightarrow> bit w (k - 16)"
proof -
  have k: "16 \<le> k" "even ((k - 16) div 16)" "even ((16 + k) div 16)"
    using assms(2) parity_shift [of 16 k] by simp_all
  have "\<not> bit (0xFFFF0000FFFF0000 :: u64) (16 + k)"
  proof (cases "16 + k < 64")
    case True
    then show ?thesis unfolding mask_bits(3) [OF True] using k(3) by blast
  qed (rule high_bit, simp)
  moreover have l: "k - 16 < 64" using assms(1) by simp
  note iffD2 [OF mask_bits(4) [OF l] k(2)]
  ultimately show ?thesis using k(1) assms(1) unfolding swap16_bits by blast
qed

lemma swap8_bit:
  assumes "n < 8" and "i < 8"
  shows "bit (swap8 w) (8 * i + n) = bit w (8 * (if even i then i + 1 else i - 1) + n)"
proof (cases "even i")
  case True
  have "8 * i + n + 8 < 64" using assms True by presburger
  then have "bit (swap8 w) (8 * i + n) \<longleftrightarrow> bit w (8 * i + n + 8)"
    by (rule swap8_up) (use True assms in \<open>simp add: byte_bit_div\<close>)
  then show ?thesis using True by (simp add: algebra_simps)
next
  case False
  then obtain j where "i = Suc j" by (cases i) auto
  then show ?thesis using swap8_down [of "8 * i + n" w] False assms byte_bit_div [of n i] by simp
qed

lemma swap16_bit:
  assumes "n < 8" and "i < 8"
  shows "bit (swap16 w) (8 * i + n) = bit w (8 * (if even (i div 2) then i + 2 else i - 2) + n)"
proof (cases "even (i div 2)")
  case True
  have "i < 6" using assms(2) True byte_bits_cases [of i] by auto
  then have "8 * i + n + 16 < 64" using assms by simp
  then have "bit (swap16 w) (8 * i + n) \<longleftrightarrow> bit w (8 * i + n + 16)"
    by (rule swap16_up) (use True assms in \<open>simp add: byte_bit_div\<close>)
  then show ?thesis using True by (simp add: algebra_simps)
next
  case False
  have "2 \<le> i" using False by (cases "i < 2") auto
  then obtain j where "i = j + 2" by (metis le_add_diff_inverse2)
  then show ?thesis using swap16_down [of "8 * i + n" w] False assms byte_bit_div [of n i] by simp
qed

lemma rotl32_bit:
  assumes "n < 8" and "i < 8"
  shows "bit (rotlFixed64 w 32) (8 * i + n) = bit w (8 * (if i < 4 then i + 4 else i - 4) + n)"
proof (cases "i < 4")
  case True
  then have "8 * i + n < 32" using assms by simp
  then show ?thesis using True by (simp add: rotlFixed64_def bit_or_iff bit_drop_bit_eq bit_push_bit_iff algebra_simps)
next
  case False
  then have "32 \<le> 8 * i + n" "8 * i + n < 64" "\<not> bit w (32 + (8 * i + n))"
    using assms high_bit [of "32 + (8 * i + n)"] by auto
  moreover obtain j where "i = j + 4" using False by (metis le_add_diff_inverse2 not_less)
  ultimately show ?thesis using False by (simp add: rotlFixed64_def bit_or_iff bit_drop_bit_eq bit_push_bit_iff)
qed

lemma bit_ByteReverseWord64:
  assumes "n < 8" and "i < 8"
  shows "bit (ByteReverseWord64 w) (8 * i + n) = bit w (8 * (7 - i) + n)"
proof -
  let ?r = "if i < 4 then i + 4 else i - 4"
  let ?s = "if even (?r div 2) then ?r + 2 else ?r - 2"
  let ?t = "if even ?s then ?s + 1 else ?s - 1"
  have "?r < 8 \<and> ?s < 8 \<and> ?t = 7 - i"
    using byte_bits_cases [OF assms(2)] by (elim disjE) simp_all
  then show ?thesis
    using rotl32_bit [OF assms, of "swap16 (swap8 w)"] swap16_bit [OF assms(1), of ?r "swap8 w"]
      swap8_bit [OF assms(1), of ?s w]
    by (simp only: ByteReverseWord64_swaps)
qed

lemma bytes_of_word_eqI:
  assumes "\<And>i n. i < 8 \<Longrightarrow> n < 8 \<Longrightarrow> bit (w :: u64) (8 * i + n) = bit v (8 * i + n)"
  shows "w = v"
proof (rule bit_word_eqI)
  fix k assume "k < LENGTH(64)"
  then show "bit w k = bit v k"
    using assms [of "k div 8" "k mod 8"] by (simp add: mult_div_mod_eq)
qed

lemma store_reversed: "store64 (ByteReverseWord64 w) = be64_bytes w"
proof (rule nth_equalityI)
  fix i assume "i < length (store64 (ByteReverseWord64 w))"
  then have i: "i < 8" by (simp add: store64_def)
  then have "56 - 8 * i = 8 * (7 - i)" by simp
  then show "store64 (ByteReverseWord64 w) ! i = be64_bytes w ! i"
    using i bit_ByteReverseWord64 [of _ i w] by (intro byte_eqI)
      (simp add: store64_def be64_bytes_def bit_simps)
qed (simp add: store64_def be64_bytes_def)

lemma bytes_word_bit:
  "n < 8 \<Longrightarrow> i < length xs \<Longrightarrow> length xs \<le> 8 \<Longrightarrow>
    bit (fold (\<lambda>(x :: byte) w. push_bit 8 w OR ucast x) xs (0 :: u64)) (8 * i + n) = bit (xs ! (length xs - 1 - i)) n"
proof (induction xs arbitrary: i rule: rev_induct)
  case (snoc x xs)
  have x: "\<not> bit x (8 + k)" for k using bit_imp_le_length [of x "8 + k"] by auto
  show ?case
  proof (cases i)
    case 0
    then show ?thesis using snoc.prems(1) by (simp add: bit_or_iff bit_push_bit_iff bit_ucast_iff)
  next
    case (Suc j)
    then have "length xs - Suc j < length xs" using snoc.prems by simp
    then show ?thesis
      using Suc snoc.IH [of j] snoc.prems x [of "8 * j + n"]
      by (simp add: bit_or_iff bit_push_bit_iff bit_ucast_iff nth_append add.assoc)
  qed
qed simp

lemma reversed_load:
  assumes "8 \<le> length b"
  shows "ByteReverseWord64 (load64 b) = be64 b"
proof (rule bytes_of_word_eqI)
  fix i n :: nat assume i: "i < 8" and n: "n < 8"
  have "bit (load64 b) (8 * (7 - i) + n) = bit (b ! (7 - i)) n"
    using bytes_word_bit [OF n, of "7 - i" "rev (take 8 b)"] i assms
    by (simp add: load64_def rev_nth min_def)
  moreover have "bit (be64 b) (8 * i + n) = bit (b ! (7 - i)) n"
    using bytes_word_bit [OF n, of i "take 8 b"] i assms by (simp add: be64_def min_def)
  ultimately show "bit (ByteReverseWord64 (load64 b)) (8 * i + n) = bit (be64 b) (8 * i + n)"
    by (simp only: bit_ByteReverseWord64 [OF n i])
qed

lemma reversed_block:
  assumes "8 * n \<le> length b"
  shows "ByteReverseWords64 b n = map (\<lambda>i. be64 (drop (8 * i) b)) [0..<n]"
  unfolding ByteReverseWords64_def by (intro map_cong refl reversed_load) (use assms in auto)

section \<open>The stream\<close>

text \<open>The state after the bytes \<open>m\<close>.\<close>

definition whole :: "byte list \<Rightarrow> nat" where
  "whole m = 128 * (length m div 128)"

definition sha_state :: "byte list \<Rightarrow> wc_Sha512" where
  "sha_state m = \<lparr>sha_digest = hash_blocks (sha_digest InitSha512) m, sha_buffer = drop (whole m) m,
     sha_loLen = of_nat (whole m), sha_hiLen = 0\<rparr>"

lemma length_compress [simp]: "length (compress H M) = length H"
  by (simp add: compress_def)

lemma length_hash_blocks [simp]: "length (hash_blocks H m) = length H"
  by (induction H m rule: hash_blocks.induct) (simp add: hash_blocks.simps)

lemma hash_blocks_short [simp]: "length m < 128 \<Longrightarrow> hash_blocks H m = H"
  by (simp add: hash_blocks.simps)

lemma hash_blocks_append: "length b mod 128 = 0 \<Longrightarrow> hash_blocks H (b @ m) = hash_blocks (hash_blocks H b) m"
proof (induction H b rule: hash_blocks.induct)
  case (1 H b)
  show ?case
  proof (cases "length b < 128")
    case True
    then have "b = []" using 1(2) by simp
    then show ?thesis by simp
  next
    case False
    then have "length (drop 128 b) mod 128 = 0" using 1(2) by (simp add: le_mod_geq)
    then show ?thesis
      using 1(1) [OF False] False
      by (simp add: hash_blocks.simps [of H b] hash_blocks.simps [of H "b @ m"])
  qed
qed

lemma sha_state_init: "InitSha512 = sha_state []"
  by (simp add: sha_state_def whole_def InitSha512_def)

lemma AddLength_nat:
  assumes "sha_loLen sha = of_nat a" and "a + n < 2 ^ 64"
  shows "AddLength sha n = sha\<lparr>sha_loLen := of_nat (a + n)\<rparr>"
proof -
  have "unat (of_nat (a + n) :: u64) = a + n" "unat (of_nat a :: u64) = a"
    using assms(2) by (simp_all add: unat_of_nat del: of_nat_add)
  then have "\<not> (of_nat (a + n) :: u64) < of_nat a" by (simp only: word_less_nat_alt)
  then show ?thesis using assms(1) by (simp add: AddLength_def)
qed

lemma block_compress:
  assumes "length (sha_digest sha) = 8" and "length b = 128"
  shows "sha512_block sha b = sha\<lparr>sha_digest := compress (sha_digest sha) (block_words b), sha_buffer := []\<rparr>"
  using assms by (simp add: sha512_block_def transform_compress reversed_block block_words_def)

lemma whole_step: "128 \<le> length m \<Longrightarrow> whole m = 128 + whole (drop 128 m)"
  by (simp add: whole_def le_div_geq algebra_simps)

lemma whole_short: "length m < 128 \<Longrightarrow> whole m = 0"
  by (simp add: whole_def)

lemma blocks_hash:
  "length (sha_digest sha) = 8 \<Longrightarrow> sha_buffer sha = [] \<Longrightarrow>
    sha512_blocks sha m = sha\<lparr>sha_digest := hash_blocks (sha_digest sha) m, sha_buffer := drop (whole m) m\<rparr>"
proof (induction sha m rule: sha512_blocks.induct)
  case (1 sha m)
  show ?case
  proof (cases "128 \<le> length m")
    case True
    then show ?thesis
      using 1 by (simp add: sha512_blocks.simps [of sha m] sha512_sizes block_compress whole_step
          hash_blocks.simps [of _ m] add.commute)
  next
    case False
    then show ?thesis
      using 1(3) by (simp add: sha512_blocks.simps [of sha m] sha512_sizes whole_short)
  qed
qed

lemma whole_append: "length b mod 128 = 0 \<Longrightarrow> whole (b @ m) = length b + whole m"
proof -
  assume "length b mod 128 = 0"
  then obtain q where "length b = 128 * q" by (auto simp: mod_eq_0_iff_dvd elim: dvdE)
  then show ?thesis by (simp add: whole_def)
qed

lemma whole_le: "whole m \<le> length m" "length m - whole m < 128" "whole m mod 128 = 0"
proof -
  have "length m = 128 * (length m div 128) + length m mod 128" by simp
  then have *: "length m = whole m + length m mod 128" by (simp add: whole_def)
  then show "whole m \<le> length m" by linarith
  have "length m mod 128 < 128" by simp
  then show "length m - whole m < 128" using * by linarith
  show "whole m mod 128 = 0" by (simp add: whole_def)
qed

lemma digest8 [simp]: "length (sha_digest InitSha512) = 8"
  by (simp add: InitSha512_def)

lemma sha_state_sel [simp]:
  "sha_digest (sha_state m) = hash_blocks (sha_digest InitSha512) m" "sha_buffer (sha_state m) = drop (whole m) m"
  "sha_loLen (sha_state m) = of_nat (whole m)" "sha_hiLen (sha_state m) = 0"
  by (simp_all add: sha_state_def)

text \<open>Whole blocks can be taken off the front.\<close>

lemma update_blocks:
  assumes "length b mod 128 = 0" and "length (b @ m) < 2 ^ 61"
  shows "sha512_blocks (AddLength (sha_state b) (length m div 128 * 128)) m = sha_state (b @ m)"
proof -
  have w: "whole b = length b" using whole_append [OF assms(1), of "[]"] by (simp add: whole_short)
  have m: "length m div 128 * 128 = whole m" by (simp add: whole_def)
  have "AddLength (sha_state b) (whole m) = (sha_state b)\<lparr>sha_loLen := of_nat (length b + whole m)\<rparr>"
    using assms(2) whole_le(1) [of m] by (intro AddLength_nat) (simp_all add: w)
  then show ?thesis
    by (simp add: m blocks_hash w whole_append [OF assms(1)] hash_blocks_append [OF assms(1)]
        sha_state_def)
qed

lemma update_state:
  assumes "length (m @ d) < 2 ^ 61"
  shows "Sha512Update (sha_state m) d = sha_state (m @ d)"
proof -
  define b p where "b = take (whole m) m" and "p = drop (whole m) m"
  have m: "m = b @ p" "length b mod 128 = 0" "length p < 128" "length b = whole m"
    using whole_le [of m] by (simp_all add: b_def p_def min_def)
  show ?thesis
  proof (cases "p = []")
    case True
    then show ?thesis
      using update_blocks [OF m(2), of d] assms m
      by (simp add: Sha512Update_def Let_def sha512_sizes whole_append whole_short)
  next
    case False
    define add where "add = min (length d) (128 - length p)"
    have sb: "sha_buffer (sha_state m) = p" using p_def by simp
    show ?thesis
    proof (cases "length p + add = 128")
      case True
      define f' where "f' = p @ take add d"
      have f: "length f' = 128" using True m(3) by (simp add: f'_def add_def min_def split: if_splits)
      have bf: "length (b @ f') mod 128 = 0" using m(2) f by (simp add: mod_add_eq [symmetric])
      have "sha512_block ((sha_state m)\<lparr>sha_buffer := f'\<rparr>) f' =
          (sha_state m)\<lparr>sha_digest := compress (sha_digest (sha_state m)) (block_words f'), sha_buffer := []\<rparr>"
        using f by (subst block_compress) simp_all
      moreover have "compress (sha_digest (sha_state m)) (block_words f') = hash_blocks (sha_digest InitSha512) (b @ f')"
        using m(2,3) f by (simp add: m(1) hash_blocks_append hash_blocks.simps [of _ f'])
      moreover have "whole m + 128 < 2 ^ 64" using whole_le(1) [of m] assms by simp
      then have "AddLength ((sha_state m)\<lparr>sha_digest := x, sha_buffer := []\<rparr>) 128 =
          (sha_state m)\<lparr>sha_digest := x, sha_buffer := [], sha_loLen := of_nat (whole m + 128)\<rparr>" for x
        by (subst AddLength_nat [where a = "whole m"]) simp_all
      ultimately have "AddLength (sha512_block ((sha_state m)\<lparr>sha_buffer := f'\<rparr>) f') 128 = sha_state (b @ f')"
        using whole_append [OF bf, of "[]"] f m(4) by (simp add: sha_state_def whole_short)
      then have "Sha512Update (sha_state m) d =
          sha512_blocks (AddLength (sha_state (b @ f')) (length (drop add d) div 128 * 128)) (drop add d)"
        using False sb f by (simp add: Sha512Update_def Let_def sha512_sizes add_def f'_def)
      also have "\<dots> = sha_state ((b @ f') @ drop add d)"
        by (rule update_blocks [OF bf]) (use assms m(1) in \<open>simp add: f'_def\<close>)
      finally show ?thesis by (simp add: m(1) f'_def)
    next
      case 2: False
      then have add: "add = length d" "length p + length d < 128" using m(3) by (auto simp: add_def min_def split: if_splits)
      have "AddLength ((sha_state m)\<lparr>sha_buffer := p @ d\<rparr>) 0 = (sha_state m)\<lparr>sha_buffer := p @ d\<rparr>"
        using AddLength_nat [of "(sha_state m)\<lparr>sha_buffer := p @ d\<rparr>" "whole m" 0] whole_le(1) [of m] assms by simp
      then have "Sha512Update (sha_state m) d = (sha_state m)\<lparr>sha_buffer := p @ d\<rparr>"
        using False sb add by (simp add: Sha512Update_def Let_def sha512_sizes sha512_blocks.simps)
      moreover have "whole (b @ p @ d) = length b" "whole (b @ p) = length b"
          "hash_blocks H (b @ p @ d) = hash_blocks H (b @ p)" for H
        using m(2,3) add(2) by (simp_all add: whole_append hash_blocks_append whole_short)
      ultimately show ?thesis unfolding m(1) append_assoc by (simp add: sha_state_def)
    qed
  qed
qed

lemma update_all: "length (m @ concat ds) < 2 ^ 61 \<Longrightarrow>
    fold (\<lambda>d sha. wc_Sha512Update sha d) ds (sha_state m) = sha_state (m @ concat ds)"
  by (induction ds arbitrary: m) (simp_all add: wc_Sha512Update_def update_state)

section \<open>The digest\<close>

lemma padding_zeros:
  "length p < 112 \<Longrightarrow> nat ((111 - int (128 * q + length p)) mod 128) = 111 - length p"
  "112 \<le> length p \<Longrightarrow> length p < 128 \<Longrightarrow> nat ((111 - int (128 * q + length p)) mod 128) = 239 - length p"
proof -
  show "nat ((111 - int (128 * q + length p)) mod 128) = 111 - length p" if "length p < 112"
  proof -
    have "111 - int (128 * q + length p) = (111 - int (length p)) + 128 * (- int q)" by simp
    then have "(111 - int (128 * q + length p)) mod 128 = (111 - int (length p)) mod 128"
      by (simp only: mod_mult_self2)
    then show ?thesis using that by simp
  qed
  show "nat ((111 - int (128 * q + length p)) mod 128) = 239 - length p"
    if "112 \<le> length p" "length p < 128"
  proof -
    have "111 - int (128 * q + length p) = (239 - int (length p)) + 128 * (- int q - 1)" by simp
    then have "(111 - int (128 * q + length p)) mod 128 = (239 - int (length p)) mod 128"
      by (simp only: mod_mult_self2)
    then show ?thesis using that by simp
  qed
qed

lemma be64_of_bytes:
  assumes "8 \<le> length (be64_bytes w @ x)"
  shows "be64 (be64_bytes w @ x) = w"
proof (rule bytes_of_word_eqI)
  fix i n :: nat assume i: "i < 8" and n: "n < 8"
  have l: "length (be64_bytes w) = 8" by (simp add: be64_bytes_def)
  have "bit (be64 (be64_bytes w @ x)) (8 * i + n) = bit (be64_bytes w ! (7 - i)) n"
    using bytes_word_bit [OF n, of i "be64_bytes w"] i l by (simp add: be64_def)
  also have "be64_bytes w ! (7 - i) = ucast (drop_bit (56 - 8 * (7 - i)) w)"
    unfolding be64_bytes_def by (subst nth_map) simp_all
  also have "56 - 8 * (7 - i) = 8 * i" using i by simp
  also have "bit (ucast (drop_bit (8 * i) w) :: byte) n = bit w (8 * i + n)"
    using n by (simp add: bit_ucast_iff bit_drop_bit_eq)
  finally show "bit (be64 (be64_bytes w @ x)) (8 * i + n) = bit w (8 * i + n)" .
qed

lemma last_block_words:
  assumes "length b = 112"
  shows "block_words (b @ be64_bytes hi @ be64_bytes lo) = ByteReverseWords64 b 14 @ [hi, lo]"
proof -
  have l: "length (be64_bytes w) = 8" for w by (simp add: be64_bytes_def)
  have "[0..<16] = [0..<14] @ [14, 15 :: nat]" by (simp add: upt_rec)
  moreover have "be64 (drop (8 * i) (b @ x)) = be64 (drop (8 * i) b)" if "i < 14" for i x
    using that assms by (simp add: be64_def)
  moreover have "be64 (be64_bytes lo) = lo" using be64_of_bytes [of lo "[]"] l by simp
  ultimately show ?thesis
    using assms by (simp add: block_words_def reversed_block be64_of_bytes l)
qed

lemma bit_length_words:
  assumes "n < 2 ^ 61"
  shows "drop_bit 61 (of_nat n :: u64) + push_bit 3 0 = of_nat (8 * n div 2 ^ 64)"
    and "push_bit 3 (of_nat n :: u64) = of_nat (8 * n)"
proof -
  have u: "unat (of_nat n :: u64) = n" using assms by (simp add: unat_of_nat)
  have "drop_bit 61 (of_nat n :: u64) = 0"
  proof (rule word_unat_eq_iff [THEN iffD2])
    have "unat (drop_bit 61 (of_nat n :: u64)) = n div 2 ^ 61"
      by (simp only: unat_drop_bit_eq u) (simp only: drop_bit_eq_div)
    then show "unat (drop_bit 61 (of_nat n :: u64)) = unat (0 :: u64)" using assms by simp
  qed
  moreover have "8 * n div 2 ^ 64 = 0" using assms by simp
  ultimately show "drop_bit 61 (of_nat n :: u64) + push_bit 3 0 = of_nat (8 * n div 2 ^ 64)" by simp
  show "push_bit 3 (of_nat n :: u64) = of_nat (8 * n)"
    by (simp add: push_bit_eq_mult mult.commute)
qed

lemma final_state:
  assumes "length m < 2 ^ 61"
  shows "Sha512Final (sha_state m) = sha512_hash m"
proof -
  define b p where "b = take (whole m) m" and "p = drop (whole m) m"
  have m: "m = b @ p" "length b mod 128 = 0" "length p < 128" "length b = whole m"
    using whole_le [of m] by (simp_all add: b_def p_def min_def)
  obtain q where q: "length b = 128 * q" using m(2) by (auto simp: mod_eq_0_iff_dvd elim: dvdE)
  have len: "whole m + length p = length m" using whole_le(1) [of m] p_def by simp
  let ?H = "hash_blocks (sha_digest InitSha512) b"
  let ?lens = "be64_bytes (of_nat (8 * length m div 2 ^ 64)) @ be64_bytes (of_nat (8 * length m))"
  have lens: "length ?lens = 16" by (simp add: be64_bytes_def)
  have st: "sha_state m = \<lparr>sha_digest = ?H, sha_buffer = p, sha_loLen = of_nat (whole m), sha_hiLen = 0\<rparr>"
  proof -
    have "hash_blocks (sha_digest InitSha512) m = ?H"
      unfolding m(1) hash_blocks_append [OF m(2)] using m(3) by simp
    then show ?thesis by (simp add: sha_state_def p_def)
  qed
  have al: "AddLength (sha_state m) (length p) = (sha_state m)\<lparr>sha_loLen := of_nat (length m)\<rparr>"
    using len assms by (subst AddLength_nat [where a = "whole m"]) simp_all
  have tail: "(\<lambda>w. store64 (ByteReverseWord64 w)) = be64_bytes" by (simp add: store_reversed fun_eq_iff)
  have H8: "length ?H = 8" by simp
  have last: "Transform_Sha512 H (ByteReverseWords64 c 14 @ [of_nat (8 * length m div 2 ^ 64), of_nat (8 * length m)])
      = compress H (block_words (c @ ?lens))" if "length H = 8" "length c = 112" for H c
    using that by (subst transform_compress) (simp_all add: last_block_words ByteReverseWords64_def)
  have one: "hash_blocks H x = compress H (block_words x)" if "length x = 128" for H x
    using that by (simp add: hash_blocks.simps [of H x])
  show ?thesis
  proof (cases "length p < 112")
    case True
    define c where "c = p @ [0x80] @ replicate (111 - length p) 0"
    have c: "length c = 112" using True by (simp add: c_def)
    have "sha512_hash m = concat (map be64_bytes (hash_blocks (sha_digest InitSha512) (b @ (c @ ?lens))))"
      unfolding sha512_hash_def sha_padding_def len [symmetric] m(4) [symmetric] q
        padding_zeros(1) [OF True] c_def by (simp add: m(1) q)
    also have "\<dots> = concat (map be64_bytes (compress ?H (block_words (c @ ?lens))))"
      using c lens by (simp only: hash_blocks_append [OF m(2)] one length_append)
    finally have "sha512_hash m = concat (map be64_bytes (compress ?H (block_words (c @ ?lens))))" .
    moreover have "Sha512Final (sha_state m) =
        concat (map be64_bytes (Transform_Sha512 ?H (ByteReverseWords64 c 14 @
          [drop_bit 61 (of_nat (length m)) + push_bit 3 0, push_bit 3 (of_nat (length m))])))"
      using True al unfolding Sha512Final_def st by (simp add: sha512_sizes tail c_def Let_def)
    ultimately show ?thesis
      using last [OF H8 c] by (simp only: bit_length_words [OF assms])
  next
    case False
    then have p: "112 \<le> length p" by simp
    define c1 c where "c1 = p @ [0x80] @ replicate (127 - length p) 0" and "c = replicate 112 (0 :: byte)"
    have c: "length c1 = 128" "length c = 112" using m(3) by (simp_all add: c1_def c_def)
    have zeros: "replicate (239 - length p) 0 = replicate (127 - length p) 0 @ c"
      using m(3) by (simp add: c_def replicate_add [symmetric])
    have "sha512_hash m = concat (map be64_bytes (hash_blocks (sha_digest InitSha512) (b @ (c1 @ (c @ ?lens)))))"
      unfolding sha512_hash_def sha_padding_def len [symmetric] m(4) [symmetric] q
        padding_zeros(2) [OF p m(3)] c1_def zeros by (simp add: m(1) q)
    also have "\<dots> = concat (map be64_bytes (compress (compress ?H (block_words c1)) (block_words (c @ ?lens))))"
    proof -
      have "length c1 mod 128 = 0" using c(1) by simp
      from hash_blocks_append [OF this] show ?thesis
        using c lens by (simp only: hash_blocks_append [OF m(2)] one length_append)
    qed
    finally have "sha512_hash m =
      concat (map be64_bytes (compress (compress ?H (block_words c1)) (block_words (c @ ?lens))))" .
    moreover have "sha512_block ((sha_state m)\<lparr>sha_loLen := of_nat (length m)\<rparr>) c1 =
        (sha_state m)\<lparr>sha_loLen := of_nat (length m), sha_digest := compress ?H (block_words c1), sha_buffer := []\<rparr>"
      using c(1) unfolding st by (subst block_compress) simp_all
    then have "Sha512Final (sha_state m) =
        concat (map be64_bytes (Transform_Sha512 (compress ?H (block_words c1)) (ByteReverseWords64 c 14 @
          [drop_bit 61 (of_nat (length m)) + push_bit 3 0, push_bit 3 (of_nat (length m))])))"
      using p al unfolding Sha512Final_def st by (simp add: sha512_sizes tail c1_def c_def Let_def)
    ultimately show ?thesis
      using last [of "compress ?H (block_words c1)", OF _ c(2)] by (simp only: bit_length_words [OF assms] length_compress H8)
  qed
qed

text \<open>Hashing in pieces, as all callers do.\<close>

definition sha512_pieces :: "byte list list \<Rightarrow> byte list" where
  "sha512_pieces ds = fst (wc_Sha512Final (fold (\<lambda>d sha. wc_Sha512Update sha d) ds wc_InitSha512))"

lemma pieces_sha512: "length (concat ds) < 2 ^ 61 \<Longrightarrow> sha512_pieces ds = sha512_hash (concat ds)"
proof -
  assume l: "length (concat ds) < 2 ^ 61"
  have "wc_InitSha512 = sha_state []" by (simp only: wc_InitSha512_def sha_state_init)
  then have "sha512_pieces ds = Sha512Final (sha_state (concat ds))"
    using update_all [of "[]" ds] l by (simp add: sha512_pieces_def wc_Sha512Final_def)
  then show ?thesis using final_state [OF l] by simp
qed

lemma length_sha512 [simp]: "length (sha512_hash m) = 64"
  by (simp add: sha512_hash_def length_concat comp_def be64_bytes_def sum_list_triv)

end
