(* ===== verification/Hmac.thy ===== *)
theory Hmac
  imports Sha512
begin

text \<open>
  HMAC and HKDF of \<open>src/wolfcrypt/src/hmac.c\<close>, for SHA-512, the hash the library calls them with, and
  \<open>crypto_hkdf\<close> of \<open>src/crypto.c\<close>.  A pointer with its size is a byte list, NULL with size 0 being the
  empty list; the arguments the functions reject (NULL with a positive size, other hashes) do not occur,
  so every function returns 0.
\<close>

section \<open>HMAC\<close>

definition IPAD :: byte where "IPAD = 0x36"
definition OPAD :: byte where "OPAD = 0x5C"

record hmac_t =
  hm_hash :: wc_Sha512
  hm_ipad :: "byte list"
  hm_opad :: "byte list"
  hm_innerHashKeyed :: bool

text \<open>A key longer than a block is hashed first.\<close>

definition wc_HmacSetKey :: "byte list \<Rightarrow> hmac_t" where
  "wc_HmacSetKey key =
     (let hash = wc_InitSha512;
          (ip, hash) = (if length key \<le> WC_SHA512_BLOCK_SIZE then (key, hash)
                        else wc_Sha512Final (wc_Sha512Update hash key));
          ip = ip @ replicate (WC_SHA512_BLOCK_SIZE - length ip) 0 in
      \<lparr>hm_hash = hash, hm_ipad = map (\<lambda>b. b XOR IPAD) ip, hm_opad = map (\<lambda>b. b XOR OPAD) ip,
       hm_innerHashKeyed = False\<rparr>)"

definition HmacKeyInnerHash :: "hmac_t \<Rightarrow> hmac_t" where
  "HmacKeyInnerHash hmac =
     hmac\<lparr>hm_hash := wc_Sha512Update (hm_hash hmac) (hm_ipad hmac), hm_innerHashKeyed := True\<rparr>"

definition wc_HmacUpdate :: "hmac_t \<Rightarrow> byte list \<Rightarrow> hmac_t" where
  "wc_HmacUpdate hmac msg =
     (let hmac = (if \<not> hm_innerHashKeyed hmac then HmacKeyInnerHash hmac else hmac) in
      hmac\<lparr>hm_hash := wc_Sha512Update (hm_hash hmac) msg\<rparr>)"

definition wc_HmacFinal :: "hmac_t \<Rightarrow> byte list" where
  "wc_HmacFinal hmac =
     (let hmac = (if \<not> hm_innerHashKeyed hmac then HmacKeyInnerHash hmac else hmac);
          (innerHash, hash) = wc_Sha512Final (hm_hash hmac);
          hash = wc_Sha512Update hash (hm_opad hmac);
          hash = wc_Sha512Update hash innerHash in
      fst (wc_Sha512Final hash))"

section \<open>HKDF\<close>

definition wc_HKDF_Extract :: "byte list option \<Rightarrow> byte list \<Rightarrow> byte list" where
  "wc_HKDF_Extract salt inKey =
     (let localSalt = (case salt of None \<Rightarrow> replicate WC_SHA512_DIGEST_SIZE 0 | Some s \<Rightarrow> s) in
      wc_HmacFinal (wc_HmacUpdate (wc_HmacSetKey localSalt) inKey))"

text \<open>The loop from \<open>outIdx = outSz - left\<close> on; \<open>tmp\<close> is the last block, which the first turn does not read.\<close>

function HKDF_Expand_loop :: "byte list \<Rightarrow> byte list \<Rightarrow> nat \<Rightarrow> byte \<Rightarrow> byte list \<Rightarrow> byte list" where
  "HKDF_Expand_loop inKey info left n tmp =
     (if left = 0 then []
      else (let myHmac = wc_HmacSetKey inKey;
                myHmac = wc_HmacUpdate myHmac (if n = 1 then [] else take WC_SHA512_DIGEST_SIZE tmp);
                myHmac = wc_HmacUpdate myHmac info;
                myHmac = wc_HmacUpdate myHmac [n];
                tmp = wc_HmacFinal myHmac in
            take (min left WC_SHA512_DIGEST_SIZE) tmp
            @ HKDF_Expand_loop inKey info (left - WC_SHA512_DIGEST_SIZE) (n + 1) tmp))"
  by pat_completeness auto
termination
  by (relation "measure (\<lambda>(inKey, info, left, n, tmp). left)") (auto simp: sha512_sizes)

declare HKDF_Expand_loop.simps [simp del]

definition wc_HKDF_Expand :: "byte list \<Rightarrow> byte list \<Rightarrow> nat \<Rightarrow> byte list" where
  "wc_HKDF_Expand inKey info outSz = HKDF_Expand_loop inKey info outSz 1 []"

definition wc_HKDF :: "byte list \<Rightarrow> byte list option \<Rightarrow> byte list \<Rightarrow> nat \<Rightarrow> byte list" where
  "wc_HKDF inKey salt info outSz = wc_HKDF_Expand (wc_HKDF_Extract salt inKey) info outSz"

definition HKDF_HASH_SIZE :: nat where "HKDF_HASH_SIZE = 32"

text \<open>The code, the size stored and the bytes written.\<close>

definition crypto_hkdf ::
  "byte list \<Rightarrow> byte list \<Rightarrow> byte list \<Rightarrow> nat option \<Rightarrow> int \<times> nat option \<times> byte list" where
  "crypto_hkdf key salt info sz =
     (case sz of
        None \<Rightarrow> (- 1, None, [])
      | Some n \<Rightarrow> if n < 32 then (- 2, Some 32, []) else (0, Some 32, wc_HKDF key (Some salt) info 32))"

section \<open>RFC 2104 and RFC 5869\<close>

definition hmac_key :: "byte list \<Rightarrow> byte list" where
  "hmac_key key = (let k = (if length key \<le> 128 then key else sha512_hash key) in k @ replicate (128 - length k) 0)"

definition hmac_sha512 :: "byte list \<Rightarrow> byte list \<Rightarrow> byte list" where
  "hmac_sha512 key m =
     sha512_hash (map (\<lambda>b. b XOR 0x5C) (hmac_key key) @ sha512_hash (map (\<lambda>b. b XOR 0x36) (hmac_key key) @ m))"

text \<open>The state of an HMAC computation after the bytes \<open>m\<close>.\<close>

definition hmac_state :: "byte list \<Rightarrow> byte list \<Rightarrow> hmac_t \<Rightarrow> bool" where
  "hmac_state key m h \<longleftrightarrow>
     hm_ipad h = map (\<lambda>b. b XOR IPAD) (hmac_key key) \<and> hm_opad h = map (\<lambda>b. b XOR OPAD) (hmac_key key) \<and>
     (if hm_innerHashKeyed h then hm_hash h = sha_state (map (\<lambda>b. b XOR IPAD) (hmac_key key) @ m)
      else m = [] \<and> hm_hash h = sha_state [])"

lemma length_hmac_key [simp]: "length (hmac_key key) = 128"
  by (simp add: hmac_key_def Let_def)

lemma init_state: "wc_InitSha512 = sha_state []"
  by (simp only: wc_InitSha512_def sha_state_init)

lemma final_sha512: "length m < 2 ^ 61 \<Longrightarrow> wc_Sha512Final (sha_state m) = (sha512_hash m, sha_state [])"
  by (simp add: wc_Sha512Final_def final_state sha_state_init [symmetric])

lemma update_sha512: "length (m @ d) < 2 ^ 61 \<Longrightarrow> wc_Sha512Update (sha_state m) d = sha_state (m @ d)"
  by (simp only: wc_Sha512Update_def update_state)

lemma hmac_SetKey: "length key < 2 ^ 61 \<Longrightarrow> hmac_state key [] (wc_HmacSetKey key)"
  by (auto simp: hmac_state_def wc_HmacSetKey_def hmac_key_def init_state update_sha512 final_sha512
      sha512_sizes Let_def)

lemma hmac_keyed:
  assumes "hmac_state key m h" and "length m < 2 ^ 60"
  shows "hmac_state key m (if \<not> hm_innerHashKeyed h then HmacKeyInnerHash h else h)"
    and "hm_innerHashKeyed (if \<not> hm_innerHashKeyed h then HmacKeyInnerHash h else h)"
  using assms by (auto simp: hmac_state_def HmacKeyInnerHash_def update_sha512)

lemma hmac_Update:
  assumes "hmac_state key m h" and "length (m @ d) < 2 ^ 60"
  shows "hmac_state key (m @ d) (wc_HmacUpdate h d)"
  using hmac_keyed [OF assms(1)] assms(2)
  by (auto simp: wc_HmacUpdate_def hmac_state_def update_sha512 HmacKeyInnerHash_def)

lemma hmac_Final:
  assumes "hmac_state key m h" and "length m < 2 ^ 60"
  shows "wc_HmacFinal h = hmac_sha512 key m"
  using hmac_keyed [OF assms] assms(2)
  by (simp add: wc_HmacFinal_def hmac_state_def hmac_sha512_def IPAD_def OPAD_def final_sha512 update_sha512
      del: if_not_P)

lemma hkdf_32:
  assumes "length key < 2 ^ 59" and "length salt < 2 ^ 59" and "length info < 2 ^ 59"
  shows "wc_HKDF key (Some salt) info 32 = take 32 (hmac_sha512 (hmac_sha512 salt key) (info @ [1]))"
proof -
  have prk: "wc_HKDF_Extract (Some salt) key = hmac_sha512 salt key"
    using hmac_Final [OF hmac_Update [OF hmac_SetKey, of salt key]] assms by (simp add: wc_HKDF_Extract_def)
  let ?k = "hmac_sha512 salt key"
  have "length ?k = 64" by (simp add: hmac_sha512_def)
  then have "hmac_state ?k [] (wc_HmacSetKey ?k)" by (intro hmac_SetKey) simp
  from hmac_Update [OF hmac_Update [OF hmac_Update [OF this, of "[]"], of info], of "[1]"]
  have "hmac_state ?k (info @ [1]) (wc_HmacUpdate (wc_HmacUpdate (wc_HmacUpdate (wc_HmacSetKey ?k) []) info) [1])"
    using assms(3) by simp
  then have "wc_HmacFinal (wc_HmacUpdate (wc_HmacUpdate (wc_HmacUpdate (wc_HmacSetKey ?k) []) info) [1])
      = hmac_sha512 ?k (info @ [1])"
    using assms(3) by (intro hmac_Final) simp_all
  then show ?thesis
    by (simp add: wc_HKDF_def prk wc_HKDF_Expand_def HKDF_Expand_loop.simps [of ?k info 32]
        HKDF_Expand_loop.simps [of ?k info 0] sha512_sizes Let_def)
qed

section \<open>Properties\<close>



text \<open>
  C30: Key derivation: with room for 32 bytes, \<open>crypto_hkdf\<close> returns 0 and the 32 bytes of HKDF-SHA-512 of
  RFC 5869, \<open>HMAC(HMAC(salt, key), info | 1)\<close> cut to 32 bytes.
\<close>

theorem crypto_hkdf_exact:
  assumes "length key < 2 ^ 59" and "length salt < 2 ^ 59" and "length info < 2 ^ 59" and "32 \<le> n"
  shows "crypto_hkdf key salt info (Some n) =
    (0, Some 32, take 32 (hmac_sha512 (hmac_sha512 salt key) (info @ [1])))"
  using assms by (simp add: crypto_hkdf_def hkdf_32)

theorem crypto_hkdf_exact_witness:
  "crypto_hkdf [] [1] [2] (Some 32) = (0, Some 32, take 32 (hmac_sha512 (hmac_sha512 [1] []) ([2] @ [1])))"
  by (rule crypto_hkdf_exact) simp_all

end
