(* ===== verification/Srp.thy ===== *)
theory Srp
  imports Hmac Ed25519 Le_Words
begin

text \<open>
  The secure remote password protocol of \<open>src/wolfcrypt/src/srp.c\<close> with SHA-512, and its wrappers in
  \<open>src/crypto.c\<close>.  An \<open>mp_int\<close> is the integer it stands for, so that \<open>mp_exptmod\<close>, \<open>mp_mulmod\<close>, \<open>mp_sub\<close>
  and the others are the arithmetic they compute; memory allocation succeeds and pointers that the
  callers never pass as NULL are not options.  The session key is computed by \<open>wc_SrpSetKeyH\<close>, which
  \<open>crypto_srp_new\<close> installs.  Random bytes are arguments.
\<close>

section \<open>Big integers\<close>

text \<open>\<open>mp_read_unsigned_bin\<close>, big-endian; \<open>mp_to_unsigned_bin\<close> writes no leading zeros.\<close>

definition mp_read_unsigned_bin :: "byte list \<Rightarrow> int" where
  "mp_read_unsigned_bin b = int (le_num (rev b))"

function mp_bytes :: "nat \<Rightarrow> byte list" where
  "mp_bytes n = (if n = 0 then [] else mp_bytes (n div 256) @ [of_nat (n mod 256)])"
  by pat_completeness auto
termination
  by (relation "measure id") auto

declare mp_bytes.simps [simp del]

definition mp_to_unsigned_bin :: "int \<Rightarrow> byte list" where
  "mp_to_unsigned_bin x = mp_bytes (nat x)"

definition mp_unsigned_bin_size :: "int \<Rightarrow> nat" where
  "mp_unsigned_bin_size x = length (mp_to_unsigned_bin x)"

definition mp_exptmod :: "int \<Rightarrow> int \<Rightarrow> int \<Rightarrow> int" where
  "mp_exptmod b e n = b ^ nat e mod n"

definition mp_mulmod :: "int \<Rightarrow> int \<Rightarrow> int \<Rightarrow> int" where
  "mp_mulmod a b n = a * b mod n"

section \<open>The state\<close>

definition SRP_CALL_ORDER_E :: int where "SRP_CALL_ORDER_E = - 218"
definition SRP_VERIFY_E :: int where "SRP_VERIFY_E = - 219"
definition SRP_BAD_KEY_E :: int where "SRP_BAD_KEY_E = - 220"

lemmas srp_errors = SRP_CALL_ORDER_E_def SRP_VERIFY_E_def SRP_BAD_KEY_E_def BAD_FUNC_ARG_def BUFFER_E_def

definition SRP_MODULUS_MIN_BITS :: nat where "SRP_MODULUS_MIN_BITS = 512"

datatype srp_side = SRP_CLIENT_SIDE | SRP_SERVER_SIDE

record srp_t =
  srp_side :: srp_side
  srp_user :: "byte list option"
  srp_salt :: "byte list option"
  srp_N :: int
  srp_g :: int
  srp_k :: "byte list"
  srp_auth :: int
  srp_priv :: int
  srp_client_proof :: wc_Sha512
  srp_server_proof :: wc_Sha512
  srp_key :: "byte list option"

text \<open>A NULL key has size 0.\<close>

definition key_bytes :: "srp_t \<Rightarrow> byte list" where
  "key_bytes srp = (case srp_key srp of None \<Rightarrow> [] | Some k \<Rightarrow> k)"

text \<open>The hash of several pieces.\<close>

definition SrpHash :: "byte list list \<Rightarrow> byte list" where
  "SrpHash ds = fst (wc_Sha512Final (fold (\<lambda>d sha. wc_Sha512Update sha d) ds wc_InitSha512))"

definition wc_SrpInit :: "srp_side \<Rightarrow> srp_t" where
  "wc_SrpInit side =
     \<lparr>srp_side = side, srp_user = None, srp_salt = None, srp_N = 0, srp_g = 0, srp_k = replicate 64 0,
      srp_auth = 0, srp_priv = 0, srp_client_proof = wc_InitSha512, srp_server_proof = wc_InitSha512,
      srp_key = None\<rparr>"

definition wc_SrpSetUsername :: "srp_t \<Rightarrow> byte list \<Rightarrow> int \<times> srp_t" where
  "wc_SrpSetUsername srp username = (0, srp\<lparr>srp_user := Some username\<rparr>)"

definition wc_SrpSetParams :: "srp_t \<Rightarrow> byte list \<Rightarrow> byte list \<Rightarrow> byte list \<Rightarrow> int \<times> srp_t" where
  "wc_SrpSetParams srp N g salt =
     (if length N < length g then (BAD_FUNC_ARG, srp)
      else case srp_user srp of
        None \<Rightarrow> (SRP_CALL_ORDER_E, srp)
      | Some user \<Rightarrow>
          (let srp = srp\<lparr>srp_N := mp_read_unsigned_bin N\<rparr> in
           if srp_N srp < 2 ^ (SRP_MODULUS_MIN_BITS - 1) then (BAD_FUNC_ARG, srp)
           else (let srp = srp\<lparr>srp_g := mp_read_unsigned_bin g\<rparr> in
             if \<not> srp_N srp > srp_g srp then (BAD_FUNC_ARG, srp)
             else (let srp = srp\<lparr>srp_salt := Some salt,
                          srp_k := SrpHash ([N] @ replicate (length N - length g) [0] @ [g])\<rparr>;
                        digest1 = map2 (XOR) (SrpHash [N]) (SrpHash [g]);
                        digest2 = SrpHash [user];
                        proof = wc_Sha512Update (wc_Sha512Update (wc_Sha512Update (srp_client_proof srp)
                                  digest1) digest2) salt in
                    (0, srp\<lparr>srp_client_proof := proof\<rparr>)))))"

definition wc_SrpSetPassword :: "srp_t \<Rightarrow> byte list \<Rightarrow> int \<times> srp_t" where
  "wc_SrpSetPassword srp password =
     (if srp_side srp \<noteq> SRP_CLIENT_SIDE then (BAD_FUNC_ARG, srp)
      else case srp_salt srp of
        None \<Rightarrow> (SRP_CALL_ORDER_E, srp)
      | Some salt \<Rightarrow>
          (let user = (case srp_user srp of None \<Rightarrow> [] | Some u \<Rightarrow> u);
               digest = SrpHash [user, [0x3A], password];
               digest = SrpHash [salt, digest] in
           (0, srp\<lparr>srp_auth := mp_read_unsigned_bin digest\<rparr>)))"

text \<open>The code and the verifier written to a buffer of \<open>n\<close> bytes.\<close>

definition wc_SrpGetVerifier :: "srp_t \<Rightarrow> nat \<Rightarrow> int \<times> byte list" where
  "wc_SrpGetVerifier srp n =
     (if srp_side srp \<noteq> SRP_CLIENT_SIDE then (BAD_FUNC_ARG, [])
      else if srp_auth srp = 0 then (SRP_CALL_ORDER_E, [])
      else (let v = mp_exptmod (srp_g srp) (srp_auth srp) (srp_N srp) in
            if n < mp_unsigned_bin_size v then (BUFFER_E, []) else (0, mp_to_unsigned_bin v)))"

definition wc_SrpSetVerifier :: "srp_t \<Rightarrow> byte list \<Rightarrow> int \<times> srp_t" where
  "wc_SrpSetVerifier srp verifier =
     (if srp_side srp \<noteq> SRP_SERVER_SIDE then (BAD_FUNC_ARG, srp)
      else (0, srp\<lparr>srp_auth := mp_read_unsigned_bin verifier\<rparr>))"

definition wc_SrpSetPrivate :: "srp_t \<Rightarrow> byte list \<Rightarrow> int \<times> srp_t" where
  "wc_SrpSetPrivate srp priv =
     (if priv = [] then (BAD_FUNC_ARG, srp)
      else if srp_auth srp = 0 then (SRP_CALL_ORDER_E, srp)
      else (let srp = srp\<lparr>srp_priv := mp_read_unsigned_bin priv mod srp_N srp\<rparr> in
            (if srp_priv srp = 0 then SRP_BAD_KEY_E else 0, srp)))"

text \<open>
  \<open>random\<close> are the 32 bytes that \<open>wc_SrpGenPrivate\<close> draws when there is no private value yet; the
  random number generator does not fail.  The code, the state and the bytes and size written.
\<close>

definition wc_SrpGetPublic :: "byte list \<Rightarrow> srp_t \<Rightarrow> nat \<Rightarrow> int \<times> srp_t \<times> byte list" where
  "wc_SrpGetPublic random srp n =
     (if srp_auth srp = 0 then (SRP_CALL_ORDER_E, srp, [])
      else if n < mp_unsigned_bin_size (srp_N srp) then (BUFFER_E, srp, [])
      else (let (r, srp) = (if srp_priv srp = 0 then wc_SrpSetPrivate srp random else (0, srp)) in
        if r \<noteq> 0 then (r, srp, [])
        else case srp_side srp of
          SRP_CLIENT_SIDE \<Rightarrow> (0, srp, mp_to_unsigned_bin (mp_exptmod (srp_g srp) (srp_priv srp) (srp_N srp)))
        | SRP_SERVER_SIDE \<Rightarrow>
            (let i = mp_read_unsigned_bin (srp_k srp) in
             if i = 0 then (SRP_BAD_KEY_E, srp, [])
             else (let pubkey = mp_exptmod (srp_g srp) (srp_priv srp) (srp_N srp);
                       j = mp_mulmod i (srp_auth srp) (srp_N srp) in
                   (0, srp, mp_to_unsigned_bin ((j + pubkey) mod srp_N srp))))))"

section \<open>The session key and the proofs\<close>

definition wc_SrpSetKeyH :: "srp_t \<Rightarrow> byte list \<Rightarrow> srp_t" where
  "wc_SrpSetKeyH srp secret = srp\<lparr>srp_key := Some (SrpHash [secret])\<rparr>"

text \<open>\<open>secretSz - size\<close> zeros, computed in 32 bits.\<close>

definition srp_padding :: "nat \<Rightarrow> nat \<Rightarrow> byte list list" where
  "srp_padding secretSz n = replicate (nat ((int secretSz - int n) mod 2 ^ 32)) [0]"

text \<open>The secret each side computes, or the error; \<open>u\<close> is the scrambling parameter.\<close>

definition srp_client_secret :: "srp_t \<Rightarrow> int \<Rightarrow> byte list \<Rightarrow> int + int" where
  "srp_client_secret srp u serverPubKey =
     (let temp1 = mp_read_unsigned_bin (srp_k srp) in
      if temp1 = 0 then Inl SRP_BAD_KEY_E
      else (let temp2 = mp_exptmod (srp_g srp) (srp_auth srp) (srp_N srp);
                s = mp_mulmod temp1 temp2 (srp_N srp);
                temp2 = mp_read_unsigned_bin serverPubKey in
            if temp2 = 0 then Inl SRP_BAD_KEY_E
            else if \<not> temp2 < srp_N srp then Inl SRP_BAD_KEY_E
            else (let temp1 = temp2 - s;
                      s = mp_mulmod u (srp_auth srp) (srp_N srp);
                      temp2 = srp_priv srp + s in
                  Inr (mp_exptmod temp1 temp2 (srp_N srp)))))"

definition srp_server_secret :: "srp_t \<Rightarrow> int \<Rightarrow> byte list \<Rightarrow> int + int" where
  "srp_server_secret srp u clientPubKey =
     (let temp1 = mp_exptmod (srp_auth srp) u (srp_N srp);
          s = mp_read_unsigned_bin clientPubKey in
      if s = 0 then Inl SRP_BAD_KEY_E
      else if \<not> s < srp_N srp then Inl SRP_BAD_KEY_E
      else (let temp2 = mp_mulmod s temp1 (srp_N srp) in
            if \<not> temp2 > 1 then Inl SRP_BAD_KEY_E
            else if temp2 = srp_N srp - 1 then Inl SRP_BAD_KEY_E
            else Inr (mp_exptmod temp2 (srp_priv srp) (srp_N srp))))"

text \<open>\<open>None\<close> is a NULL key pointer; a size of 0 is rejected as well.\<close>

definition wc_SrpComputeKey :: "srp_t \<Rightarrow> byte list option \<Rightarrow> byte list option \<Rightarrow> int \<times> srp_t" where
  "wc_SrpComputeKey srp clientPubKey serverPubKey =
     (case (clientPubKey, serverPubKey) of
        (Some A, Some B) \<Rightarrow>
          (if A = [] \<or> B = [] then (BAD_FUNC_ARG, srp)
           else if srp_priv srp = 0 then (SRP_CALL_ORDER_E, srp)
           else (let secretSz = mp_unsigned_bin_size (srp_N srp);
                     digest = SrpHash (srp_padding secretSz (length A) @ [A] @ srp_padding secretSz (length B) @ [B]);
                     u = mp_read_unsigned_bin digest;
                     s = (case srp_side srp of SRP_CLIENT_SIDE \<Rightarrow> srp_client_secret srp u B
                                             | SRP_SERVER_SIDE \<Rightarrow> srp_server_secret srp u A) in
                 case s of
                   Inl r \<Rightarrow> (r, srp)
                 | Inr s \<Rightarrow>
                     (let srp = wc_SrpSetKeyH srp (mp_to_unsigned_bin s);
                          cp = wc_Sha512Update (wc_Sha512Update (wc_Sha512Update (srp_client_proof srp) A) B)
                                 (key_bytes srp) in
                      (0, srp\<lparr>srp_client_proof := cp, srp_server_proof := wc_Sha512Update (srp_server_proof srp) A\<rparr>))))
      | _ \<Rightarrow> (BAD_FUNC_ARG, srp))"

text \<open>Taking a digest initialises the hash again.\<close>

definition wc_SrpGetProof :: "srp_t \<Rightarrow> nat \<Rightarrow> int \<times> srp_t \<times> byte list" where
  "wc_SrpGetProof srp n =
     (if n < WC_SHA512_DIGEST_SIZE then (BUFFER_E, srp, [])
      else case srp_side srp of
        SRP_CLIENT_SIDE \<Rightarrow>
          (let (proof, h) = wc_Sha512Final (srp_client_proof srp);
               sp = wc_Sha512Update (wc_Sha512Update (srp_server_proof srp) proof) (key_bytes srp) in
           (0, srp\<lparr>srp_client_proof := h, srp_server_proof := sp\<rparr>, proof))
      | SRP_SERVER_SIDE \<Rightarrow>
          (let (proof, h) = wc_Sha512Final (srp_server_proof srp) in
           (0, srp\<lparr>srp_server_proof := h\<rparr>, proof)))"

definition wc_SrpVerifyPeersProof :: "srp_t \<Rightarrow> byte list \<Rightarrow> int \<times> srp_t" where
  "wc_SrpVerifyPeersProof srp proof =
     (if length proof \<noteq> WC_SHA512_DIGEST_SIZE then (BUFFER_E, srp)
      else case srp_side srp of
        SRP_CLIENT_SIDE \<Rightarrow>
          (let (digest, h) = wc_Sha512Final (srp_server_proof srp) in
           (if proof \<noteq> digest then SRP_VERIFY_E else 0, srp\<lparr>srp_server_proof := h\<rparr>))
      | SRP_SERVER_SIDE \<Rightarrow>
          (let (digest, h) = wc_Sha512Final (srp_client_proof srp);
               sp = wc_Sha512Update (wc_Sha512Update (srp_server_proof srp) proof) (key_bytes srp) in
           (if proof \<noteq> digest then SRP_VERIFY_E else 0,
            srp\<lparr>srp_client_proof := h, srp_server_proof := sp\<rparr>)))"

section \<open>The wrappers of crypto.c\<close>

definition SRP_N_bytes :: "byte list" where
  "SRP_N_bytes = [
    0xff, 0xff, 0xff, 0xff, 0xff, 0xff, 0xff, 0xff, 0xc9, 0x0f, 0xda, 0xa2,
    0x21, 0x68, 0xc2, 0x34, 0xc4, 0xc6, 0x62, 0x8b, 0x80, 0xdc, 0x1c, 0xd1,
    0x29, 0x02, 0x4e, 0x08, 0x8a, 0x67, 0xcc, 0x74, 0x02, 0x0b, 0xbe, 0xa6,
    0x3b, 0x13, 0x9b, 0x22, 0x51, 0x4a, 0x08, 0x79, 0x8e, 0x34, 0x04, 0xdd,
    0xef, 0x95, 0x19, 0xb3, 0xcd, 0x3a, 0x43, 0x1b, 0x30, 0x2b, 0x0a, 0x6d,
    0xf2, 0x5f, 0x14, 0x37, 0x4f, 0xe1, 0x35, 0x6d, 0x6d, 0x51, 0xc2, 0x45,
    0xe4, 0x85, 0xb5, 0x76, 0x62, 0x5e, 0x7e, 0xc6, 0xf4, 0x4c, 0x42, 0xe9,
    0xa6, 0x37, 0xed, 0x6b, 0x0b, 0xff, 0x5c, 0xb6, 0xf4, 0x06, 0xb7, 0xed,
    0xee, 0x38, 0x6b, 0xfb, 0x5a, 0x89, 0x9f, 0xa5, 0xae, 0x9f, 0x24, 0x11,
    0x7c, 0x4b, 0x1f, 0xe6, 0x49, 0x28, 0x66, 0x51, 0xec, 0xe4, 0x5b, 0x3d,
    0xc2, 0x00, 0x7c, 0xb8, 0xa1, 0x63, 0xbf, 0x05, 0x98, 0xda, 0x48, 0x36,
    0x1c, 0x55, 0xd3, 0x9a, 0x69, 0x16, 0x3f, 0xa8, 0xfd, 0x24, 0xcf, 0x5f,
    0x83, 0x65, 0x5d, 0x23, 0xdc, 0xa3, 0xad, 0x96, 0x1c, 0x62, 0xf3, 0x56,
    0x20, 0x85, 0x52, 0xbb, 0x9e, 0xd5, 0x29, 0x07, 0x70, 0x96, 0x96, 0x6d,
    0x67, 0x0c, 0x35, 0x4e, 0x4a, 0xbc, 0x98, 0x04, 0xf1, 0x74, 0x6c, 0x08,
    0xca, 0x18, 0x21, 0x7c, 0x32, 0x90, 0x5e, 0x46, 0x2e, 0x36, 0xce, 0x3b,
    0xe3, 0x9e, 0x77, 0x2c, 0x18, 0x0e, 0x86, 0x03, 0x9b, 0x27, 0x83, 0xa2,
    0xec, 0x07, 0xa2, 0x8f, 0xb5, 0xc5, 0x5d, 0xf0, 0x6f, 0x4c, 0x52, 0xc9,
    0xde, 0x2b, 0xcb, 0xf6, 0x95, 0x58, 0x17, 0x18, 0x39, 0x95, 0x49, 0x7c,
    0xea, 0x95, 0x6a, 0xe5, 0x15, 0xd2, 0x26, 0x18, 0x98, 0xfa, 0x05, 0x10,
    0x15, 0x72, 0x8e, 0x5a, 0x8a, 0xaa, 0xc4, 0x2d, 0xad, 0x33, 0x17, 0x0d,
    0x04, 0x50, 0x7a, 0x33, 0xa8, 0x55, 0x21, 0xab, 0xdf, 0x1c, 0xba, 0x64,
    0xec, 0xfb, 0x85, 0x04, 0x58, 0xdb, 0xef, 0x0a, 0x8a, 0xea, 0x71, 0x57,
    0x5d, 0x06, 0x0c, 0x7d, 0xb3, 0x97, 0x0f, 0x85, 0xa6, 0xe1, 0xe4, 0xc7,
    0xab, 0xf5, 0xae, 0x8c, 0xdb, 0x09, 0x33, 0xd7, 0x1e, 0x8c, 0x94, 0xe0,
    0x4a, 0x25, 0x61, 0x9d, 0xce, 0xe3, 0xd2, 0x26, 0x1a, 0xd2, 0xee, 0x6b,
    0xf1, 0x2f, 0xfa, 0x06, 0xd9, 0x8a, 0x08, 0x64, 0xd8, 0x76, 0x02, 0x73,
    0x3e, 0xc8, 0x6a, 0x64, 0x52, 0x1f, 0x2b, 0x18, 0x17, 0x7b, 0x20, 0x0c,
    0xbb, 0xe1, 0x17, 0x57, 0x7a, 0x61, 0x5d, 0x6c, 0x77, 0x09, 0x88, 0xc0,
    0xba, 0xd9, 0x46, 0xe2, 0x08, 0xe2, 0x4f, 0xa0, 0x74, 0xe5, 0xab, 0x31,
    0x43, 0xdb, 0x5b, 0xfc, 0xe0, 0xfd, 0x10, 0x8e, 0x4b, 0x82, 0xd1, 0x20,
    0xa9, 0x3a, 0xd2, 0xca, 0xff, 0xff, 0xff, 0xff, 0xff, 0xff, 0xff, 0xff
  ]"

definition SRP_g_bytes :: "byte list" where
  "SRP_g_bytes = [0x05]"

definition crypto_srp_new :: srp_t where
  "crypto_srp_new = wc_SrpInit SRP_CLIENT_SIDE"

text \<open>\<open>salt\<close> are the 16 random bytes.\<close>

definition crypto_srp_init :: "byte list \<Rightarrow> srp_t \<Rightarrow> byte list \<Rightarrow> byte list \<Rightarrow> int \<times> srp_t" where
  "crypto_srp_init salt srp username password =
     (let (r, srp) = wc_SrpSetUsername srp username in
      if r \<noteq> 0 then (r, srp)
      else let (r, srp) = wc_SrpSetParams srp SRP_N_bytes SRP_g_bytes salt in
      if r \<noteq> 0 then (r, srp)
      else let (r, srp) = wc_SrpSetPassword srp password in
      if r \<noteq> 0 then (r, srp)
      else let (r, verifier) = wc_SrpGetVerifier srp 1024 in
      if r \<noteq> 0 then (r, srp)
      else wc_SrpSetVerifier (srp\<lparr>srp_side := SRP_SERVER_SIDE\<rparr>) verifier)"

text \<open>A NULL salt has size 0.  The code, the size stored and the bytes written.\<close>

definition crypto_srp_get_salt :: "srp_t \<Rightarrow> nat \<Rightarrow> int \<times> nat \<times> byte list" where
  "crypto_srp_get_salt srp n =
     (let salt = (case srp_salt srp of None \<Rightarrow> [] | Some s \<Rightarrow> s) in
      if n < length salt then (- 2, length salt, []) else (0, length salt, salt))"

definition crypto_srp_get_public_key :: "byte list \<Rightarrow> srp_t \<Rightarrow> nat \<Rightarrow> int \<times> srp_t \<times> nat \<times> byte list" where
  "crypto_srp_get_public_key random srp n =
     (if n < 384 then (- 2, srp, 384, [])
      else (let (r, srp, out) = wc_SrpGetPublic random srp n in
            (r, srp, if r = 0 then length out else n, out)))"

definition crypto_srp_compute_key :: "srp_t \<Rightarrow> byte list option \<Rightarrow> byte list option \<Rightarrow> int \<times> srp_t" where
  "crypto_srp_compute_key srp client_public_key server_public_key =
     wc_SrpComputeKey srp client_public_key server_public_key"

definition crypto_srp_verify :: "srp_t \<Rightarrow> byte list \<Rightarrow> int \<times> srp_t" where
  "crypto_srp_verify srp proof = wc_SrpVerifyPeersProof srp proof"

definition crypto_srp_get_proof :: "srp_t \<Rightarrow> nat \<Rightarrow> int \<times> srp_t \<times> nat \<times> byte list" where
  "crypto_srp_get_proof srp n =
     (if n < WC_SHA512_DIGEST_SIZE then (- 2, srp, WC_SHA512_DIGEST_SIZE, [])
      else (let (r, srp, proof) = wc_SrpGetProof srp n in
            (r, srp, if r = 0 then WC_SHA512_DIGEST_SIZE else n, proof)))"

definition crypto_srp_hkdf :: "srp_t \<Rightarrow> byte list \<Rightarrow> byte list \<Rightarrow> nat option \<Rightarrow> int \<times> nat option \<times> byte list" where
  "crypto_srp_hkdf srp salt info sz = crypto_hkdf (key_bytes srp) salt info sz"

section \<open>Numbers as bytes\<close>

lemma mp_bytes_0 [simp]: "mp_bytes 0 = []"
  by (simp add: mp_bytes.simps)

lemma mp_bytes_Nil [simp]: "mp_bytes n = [] \<longleftrightarrow> n = 0"
  by (subst mp_bytes.simps) simp

lemma le_num_mp_bytes [simp]: "le_num (rev (mp_bytes n)) = n"
proof (induction n rule: mp_bytes.induct)
  case (1 n)
  show ?case
  proof (cases "n = 0")
    case False
    then show ?thesis using 1 [OF False] by (simp add: mp_bytes.simps [of n] unat_of_nat mult_div_mod_eq)
  qed simp
qed

lemma read_to_bin [simp]: "0 \<le> x \<Longrightarrow> mp_read_unsigned_bin (mp_to_unsigned_bin x) = x"
  by (simp add: mp_read_unsigned_bin_def mp_to_unsigned_bin_def)

lemma to_bin_Nil [simp]: "mp_to_unsigned_bin x = [] \<longleftrightarrow> x \<le> 0"
  by (auto simp: mp_to_unsigned_bin_def)

lemma read_nonneg [simp]: "0 \<le> mp_read_unsigned_bin b"
  by (simp add: mp_read_unsigned_bin_def)

lemma read_bound: "mp_read_unsigned_bin b < 256 ^ length b"
proof -
  have "int (le_num (rev b)) < int (256 ^ length (rev b))"
    using le_num_bound [of "rev b"] by (simp only: of_nat_less_iff)
  then show ?thesis by (simp add: mp_read_unsigned_bin_def)
qed

lemma length_mp_bytes: "n < 256 ^ k \<Longrightarrow> length (mp_bytes n) \<le> k"
proof (induction k arbitrary: n)
  case (Suc k)
  have "n div 256 < 256 ^ k" using Suc.prems by (simp add: less_mult_imp_div_less mult.commute)
  from Suc.IH [OF this] show ?case by (subst mp_bytes.simps) simp
qed simp

lemma SrpHash_length [simp]: "length (SrpHash ds) = 64"
  by (simp add: SrpHash_def wc_Sha512Final_def Sha512Final_def Let_def length_concat comp_def store64_def
      Transform_Sha512_def sum_list_triv split: prod.split)

section \<open>Both sides agree\<close>

text \<open>A client and a server that were given the same parameters and password.\<close>

definition matched :: "srp_t \<Rightarrow> srp_t \<Rightarrow> bool" where
  "matched c s \<longleftrightarrow> srp_side c = SRP_CLIENT_SIDE \<and> srp_side s = SRP_SERVER_SIDE \<and>
     srp_N c = srp_N s \<and> srp_g c = srp_g s \<and> srp_k c = srp_k s \<and>
     srp_client_proof c = srp_client_proof s \<and> srp_server_proof c = srp_server_proof s \<and>
     1 < srp_N s \<and> 0 \<le> srp_auth c \<and> 2 ^ 512 * srp_auth c \<le> srp_N s \<and>
     srp_auth s = mp_exptmod (srp_g s) (srp_auth c) (srp_N s)"

lemma public_client:
  assumes "wc_SrpGetPublic r c n = (0, c', A)" and "srp_side c = SRP_CLIENT_SIDE" and "0 < srp_N c" "0 \<le> srp_priv c"
  shows "A = mp_to_unsigned_bin (mp_exptmod (srp_g c) (srp_priv c') (srp_N c)) \<and> 0 < srp_priv c' \<and>
    c' = c\<lparr>srp_priv := srp_priv c'\<rparr>"
  using assms
  by (auto simp: wc_SrpGetPublic_def wc_SrpSetPrivate_def srp_errors Let_def less_le split: if_splits)

lemma public_server:
  assumes "wc_SrpGetPublic r s n = (0, s', B)" and "srp_side s = SRP_SERVER_SIDE" and "0 < srp_N s" "0 \<le> srp_priv s"
  shows "B = mp_to_unsigned_bin ((mp_mulmod (mp_read_unsigned_bin (srp_k s)) (srp_auth s) (srp_N s) +
      mp_exptmod (srp_g s) (srp_priv s') (srp_N s)) mod srp_N s) \<and> 0 < srp_priv s' \<and>
    s' = s\<lparr>srp_priv := srp_priv s'\<rparr> \<and> mp_read_unsigned_bin (srp_k s) \<noteq> 0"
  using assms
  by (auto simp: wc_SrpGetPublic_def wc_SrpSetPrivate_def srp_errors Let_def less_le split: if_splits)

lemma secrets_agree:
  assumes m: "matched c s" and u: "0 \<le> u" "u < 2 ^ 512"
    and pc: "0 \<le> srp_priv c" and ps: "0 \<le> srp_priv s"
    and A: "A = mp_to_unsigned_bin (mp_exptmod (srp_g c) (srp_priv c) (srp_N c))"
    and B: "B = mp_to_unsigned_bin ((mp_mulmod (mp_read_unsigned_bin (srp_k s)) (srp_auth s) (srp_N s) +
      mp_exptmod (srp_g s) (srp_priv s) (srp_N s)) mod srp_N s)"
    and k: "mp_read_unsigned_bin (srp_k s) \<noteq> 0" and B0: "B \<noteq> []"
    and S: "srp_server_secret s u A = Inr x"
  shows "srp_client_secret c u B = Inr x"
proof -
  let ?N = "srp_N s" and ?g = "srp_g s" and ?k = "mp_read_unsigned_bin (srp_k s)" and ?x = "srp_auth c"
  let ?a = "srp_priv c" and ?b = "srp_priv s"
  have N: "1 < ?N" and x: "0 \<le> ?x" "2 ^ 512 * ?x \<le> ?N" and v: "srp_auth s = ?g ^ nat ?x mod ?N"
    and eq: "srp_N c = ?N" "srp_g c = ?g" "srp_k c = srp_k s"
    using m by (auto simp: matched_def mp_exptmod_def)
  have rA: "mp_read_unsigned_bin A = ?g ^ nat ?a mod ?N" using N by (simp add: A eq mp_exptmod_def)
  let ?B = "(?k * srp_auth s mod ?N + ?g ^ nat ?b mod ?N) mod ?N"
  have rB: "mp_read_unsigned_bin B = ?B" using N by (simp add: B mp_exptmod_def mp_mulmod_def)
  have B1: "0 < ?B" "?B < ?N" using B0 B N by (auto simp: mp_exptmod_def mp_mulmod_def not_le)
  have ux: "u * ?x < ?N"
  proof (cases "?x = 0")
    case False
    then have "u * ?x < 2 ^ 512 * ?x" using u x by simp
    then show ?thesis using x(2) by linarith
  qed (use N in simp)
  have sub: "(?B - ?k * (?g ^ nat ?x mod ?N) mod ?N) mod ?N = ?g ^ nat ?b mod ?N"
    by (simp add: v mod_simps)
  have "x = (mp_read_unsigned_bin A * ((srp_auth s) ^ nat u mod ?N) mod ?N) ^ nat ?b mod ?N"
    using S by (auto simp: srp_server_secret_def mp_exptmod_def mp_mulmod_def Let_def split: if_splits)
  also have "\<dots> = (?g ^ nat ?a * (?g ^ nat ?x) ^ nat u) ^ nat ?b mod ?N"
    by (simp add: rA v power_mod mod_simps)
  also have "\<dots> = (?g ^ nat ?b) ^ (nat ?a + nat u * nat ?x) mod ?N"
    by (simp add: power_mult_distrib power_add power_mult [symmetric] mult_ac)
  also have "\<dots> = (?B - ?k * (?g ^ nat ?x mod ?N) mod ?N) ^ (nat ?a + nat u * nat ?x) mod ?N"
    by (subst (1 2) power_mod [symmetric]) (simp only: sub)
  also have "nat ?a + nat u * nat ?x = nat (?a + u * ?x mod ?N)"
    using pc u x ux by (simp add: nat_add_distrib nat_mult_distrib)
  finally have "x = (?B - ?k * (?g ^ nat ?x mod ?N) mod ?N) ^ nat (?a + u * ?x mod ?N) mod ?N" .
  then show ?thesis
    using B1 k by (simp add: srp_client_secret_def eq rB mp_exptmod_def mp_mulmod_def Let_def)
qed

definition fresh_keys :: "srp_t \<Rightarrow> srp_t \<Rightarrow> bool" where
  "fresh_keys c s \<longleftrightarrow> srp_side c = SRP_CLIENT_SIDE \<and> srp_side s = SRP_SERVER_SIDE \<and>
     srp_key c = srp_key s \<and> srp_key s \<noteq> None \<and>
     srp_client_proof c = srp_client_proof s \<and> srp_server_proof c = srp_server_proof s"

lemma length_final [simp]: "length (fst (wc_Sha512Final h)) = 64"
  by (simp add: wc_Sha512Final_def Sha512Final_def Let_def length_concat comp_def store64_def
      Transform_Sha512_def sum_list_triv split: prod.split)

lemma digest_range: "0 \<le> mp_read_unsigned_bin (SrpHash ds) \<and> mp_read_unsigned_bin (SrpHash ds) < 2 ^ 512"
  using read_bound [of "SrpHash ds"] by simp

lemma compute_agrees:
  assumes m: "matched c s" and p: "0 \<le> srp_priv c" "0 \<le> srp_priv s"
    and A: "wc_SrpGetPublic ra c n = (0, c1, A)" and B: "wc_SrpGetPublic rb s n' = (0, s1, B)" and "B \<noteq> []"
    and S: "wc_SrpComputeKey s1 (Some A) (Some B) = (0, s2)"
  shows "\<exists>c2. wc_SrpComputeKey c1 (Some A) (Some B) = (0, c2) \<and> fresh_keys c2 s2"
proof -
  have mm: "srp_side c = SRP_CLIENT_SIDE" "srp_side s = SRP_SERVER_SIDE" "0 < srp_N c" "0 < srp_N s"
      "srp_N c = srp_N s" "srp_client_proof c = srp_client_proof s" "srp_server_proof c = srp_server_proof s"
    using m by (auto simp: matched_def)
  note pub_c = public_client [OF A mm(1,3) p(1)] and pub_s = public_server [OF B mm(2,4) p(2)]
  obtain pa where c1: "c1 = c\<lparr>srp_priv := pa\<rparr>" "0 < pa" using pub_c by auto
  obtain pb where s1: "s1 = s\<lparr>srp_priv := pb\<rparr>" "0 < pb" using pub_s by auto
  let ?sz = "mp_unsigned_bin_size (srp_N s)"
  let ?u = "mp_read_unsigned_bin (SrpHash (srp_padding ?sz (length A) @ [A] @ srp_padding ?sz (length B) @ [B]))"
  have A0: "A \<noteq> []" using S by (auto simp: wc_SrpComputeKey_def srp_errors split: if_splits)
  obtain x where x: "srp_server_secret s1 ?u A = Inr x"
    using S A0 assms(6) s1(2) mm(2)
    by (cases "srp_server_secret s1 ?u A")
      (auto simp: wc_SrpComputeKey_def s1(1) Let_def srp_server_secret_def srp_errors split: if_splits)
  have "srp_client_secret c1 ?u B = Inr x"
  proof (rule secrets_agree [where s = s1])
    show "matched c1 s1" using m by (simp add: matched_def c1 s1)
    show "A = mp_to_unsigned_bin (mp_exptmod (srp_g c1) (srp_priv c1) (srp_N c1))"
      using pub_c by (simp add: c1)
    show "B = mp_to_unsigned_bin ((mp_mulmod (mp_read_unsigned_bin (srp_k s1)) (srp_auth s1) (srp_N s1) +
      mp_exptmod (srp_g s1) (srp_priv s1) (srp_N s1)) mod srp_N s1)"
      using pub_s by (simp add: s1)
    show "mp_read_unsigned_bin (srp_k s1) \<noteq> 0" using pub_s by (simp add: s1)
  qed (use digest_range c1 s1 assms(6) x in auto)
  then show ?thesis
    using S A0 assms(6) x mm c1(2) s1(2)
    by (auto simp: wc_SrpComputeKey_def fresh_keys_def wc_SrpSetKeyH_def key_bytes_def c1(1) s1(1) Let_def)
qed

lemma proofs_agree:
  assumes "fresh_keys c s"
  shows "\<exists>c' M1 s' s'' M2. wc_SrpGetProof c 64 = (0, c', M1) \<and> wc_SrpVerifyPeersProof s M1 = (0, s') \<and>
    wc_SrpGetProof s' 64 = (0, s'', M2) \<and> fst (wc_SrpVerifyPeersProof c' M2) = 0"
proof -
  obtain M1 h1 where 1: "wc_Sha512Final (srp_client_proof s) = (M1, h1)" by fastforce
  define sp where "sp = wc_Sha512Update (wc_Sha512Update (srp_server_proof s) M1) (key_bytes s)"
  obtain M2 h2 where 2: "wc_Sha512Final sp = (M2, h2)" by fastforce
  have l: "length M1 = 64" "length M2 = 64"
    using length_final [of "srp_client_proof s"] length_final [of sp] 1 2 by simp_all
  have eq: "srp_side c = SRP_CLIENT_SIDE" "srp_side s = SRP_SERVER_SIDE" "key_bytes c = key_bytes s"
      "srp_client_proof c = srp_client_proof s" "srp_server_proof c = srp_server_proof s"
    using assms by (auto simp: fresh_keys_def key_bytes_def)
  have g: "wc_SrpGetProof c 64 = (0, c\<lparr>srp_client_proof := h1, srp_server_proof := sp\<rparr>, M1)"
    by (simp add: wc_SrpGetProof_def sha512_sizes eq 1 sp_def)
  have v: "wc_SrpVerifyPeersProof s M1 = (0, s\<lparr>srp_client_proof := h1, srp_server_proof := sp\<rparr>)"
    by (simp add: wc_SrpVerifyPeersProof_def sha512_sizes eq 1 sp_def l)
  have g2: "wc_SrpGetProof (s\<lparr>srp_client_proof := h1, srp_server_proof := sp\<rparr>) 64
      = (0, s\<lparr>srp_client_proof := h1, srp_server_proof := h2\<rparr>, M2)"
    by (simp add: wc_SrpGetProof_def sha512_sizes eq 2)
  have "fst (wc_SrpVerifyPeersProof (c\<lparr>srp_client_proof := h1, srp_server_proof := sp\<rparr>) M2) = 0"
    by (simp add: wc_SrpVerifyPeersProof_def sha512_sizes eq 2 l)
  with g v g2 show ?thesis by blast
qed

section \<open>The server's parameters\<close>

text \<open>The private value \<open>x\<close> of a user name, a password and a salt, and the start of the client's proof.\<close>

definition srp_x :: "byte list \<Rightarrow> byte list \<Rightarrow> byte list \<Rightarrow> int" where
  "srp_x user password salt = mp_read_unsigned_bin (SrpHash [salt, SrpHash [user, [0x3A], password]])"

definition srp_N_value :: int where "srp_N_value = mp_read_unsigned_bin SRP_N_bytes"

lemma length_N: "length SRP_N_bytes = 384" "length SRP_g_bytes = 1"
  by (simp_all add: SRP_N_bytes_def SRP_g_bytes_def)

lemma N_large: "2 ^ 3071 \<le> srp_N_value" "srp_N_value < 256 ^ 384"
proof -
  have t: "rev SRP_N_bytes = rev (tl SRP_N_bytes) @ [0xff]" "length (tl SRP_N_bytes) = 383"
    by (simp_all add: SRP_N_bytes_def)
  have "le_num [0xff] = 255" by simp
  then have "le_num (rev SRP_N_bytes) = le_num (rev (tl SRP_N_bytes)) + 256 ^ 383 * 255"
    by (simp only: t(1) le_num_append length_rev t(2))
  then have "256 ^ 383 * 128 \<le> le_num (rev SRP_N_bytes)" by (simp only: trans_le_add2 mult_le_mono2)
  then have "int (256 ^ 383 * 128) \<le> int (le_num (rev SRP_N_bytes))" by (simp only: of_nat_le_iff)
  moreover have "int (256 ^ 383 * 128) = 2 ^ 3071"
  proof -
    have "int (256 ^ 383 * 128) = int ((2 ^ 8) ^ 383 * 2 ^ 7)" by simp
    also have "\<dots> = int (2 ^ (8 * 383 + 7))" by (simp only: power_add power_mult)
    also have "\<dots> = 2 ^ 3071" by simp
    finally show ?thesis .
  qed
  ultimately show "2 ^ 3071 \<le> srp_N_value" by (simp only: srp_N_value_def mp_read_unsigned_bin_def)
  show "srp_N_value < 256 ^ 384"
    using read_bound [of SRP_N_bytes] by (simp only: srp_N_value_def length_N)
qed

lemma g_value: "mp_read_unsigned_bin SRP_g_bytes = 5"
  by (simp add: mp_read_unsigned_bin_def SRP_g_bytes_def)

lemma x_bound: "0 \<le> srp_x user password salt \<and> 2 ^ 512 * srp_x user password salt \<le> srp_N_value"
proof -
  have "srp_x user password salt < 2 ^ 512" and "0 \<le> srp_x user password salt"
    using digest_range by (simp_all add: srp_x_def)
  then have "2 ^ 512 * srp_x user password salt \<le> 2 ^ 512 * 2 ^ 512" by simp
  also have "\<dots> = (2 :: int) ^ 1024" by (simp flip: power_add)
  also have "\<dots> \<le> 2 ^ 3071" by (rule power_increasing) simp_all
  finally show ?thesis using N_large(1) \<open>0 \<le> srp_x user password salt\<close> by linarith
qed

text \<open>The client that the server's set-up runs through, and the server it becomes.\<close>

definition srp_client :: "byte list \<Rightarrow> byte list \<Rightarrow> byte list \<Rightarrow> srp_t" where
  "srp_client salt user password =
     snd (wc_SrpSetPassword (snd (wc_SrpSetParams (snd (wc_SrpSetUsername (wc_SrpInit SRP_CLIENT_SIDE) user))
       SRP_N_bytes SRP_g_bytes salt)) password)"

lemma params_ok:
  "fst (wc_SrpSetParams (snd (wc_SrpSetUsername (wc_SrpInit SRP_CLIENT_SIDE) user)) SRP_N_bytes SRP_g_bytes salt) = 0"
proof -
  have "\<not> srp_N_value < 2 ^ 511"
    using N_large(1) power_increasing [of 511 3071 "2 :: int"] by (simp only: not_less) (rule order_trans, simp_all)
  moreover have "srp_N_value > 5" using N_large(1) power_increasing [of 3 3071 "2 :: int"] by simp
  ultimately show ?thesis
    by (simp add: wc_SrpSetParams_def wc_SrpSetUsername_def SRP_MODULUS_MIN_BITS_def length_N
        srp_N_value_def [symmetric] g_value Let_def)
qed

lemma srp_client_fields:
  "srp_side (srp_client salt user password) = SRP_CLIENT_SIDE"
  "srp_auth (srp_client salt user password) = srp_x user password salt"
  "srp_N (srp_client salt user password) = srp_N_value" "srp_g (srp_client salt user password) = 5"
  "srp_salt (srp_client salt user password) = Some salt" "srp_priv (srp_client salt user password) = 0"
  "srp_key (srp_client salt user password) = None"
proof -
  note p = params_ok [of user salt, unfolded wc_SrpSetParams_def wc_SrpSetUsername_def wc_SrpInit_def]
  show "srp_side (srp_client salt user password) = SRP_CLIENT_SIDE"
    "srp_auth (srp_client salt user password) = srp_x user password salt"
    "srp_N (srp_client salt user password) = srp_N_value" "srp_g (srp_client salt user password) = 5"
    "srp_salt (srp_client salt user password) = Some salt" "srp_priv (srp_client salt user password) = 0"
    "srp_key (srp_client salt user password) = None"
    using p by (auto simp: srp_client_def wc_SrpSetPassword_def wc_SrpSetParams_def wc_SrpSetUsername_def
        wc_SrpInit_def srp_errors length_N Let_def g_value srp_N_value_def [symmetric] srp_x_def split: if_splits)
qed

definition srp_server :: "byte list \<Rightarrow> byte list \<Rightarrow> byte list \<Rightarrow> srp_t" where
  "srp_server salt user password = (srp_client salt user password)
     \<lparr>srp_side := SRP_SERVER_SIDE, srp_auth := mp_exptmod 5 (srp_x user password salt) srp_N_value\<rparr>"

lemma srp_init_server:
  "crypto_srp_init salt crypto_srp_new user password =
    (if srp_x user password salt = 0 then (SRP_CALL_ORDER_E, srp_client salt user password)
     else (0, srp_server salt user password))"
proof -
  let ?c = "srp_client salt user password" and ?x = "srp_x user password salt"
  let ?v = "mp_exptmod 5 ?x srp_N_value"
  have N: "0 < srp_N_value" using N_large(1) zero_less_power [of "2 :: int" 3071] by linarith
  have "?v < srp_N_value" using N by (simp add: mp_exptmod_def)
  then have v: "0 \<le> ?v" "?v < 256 ^ 384"
    using N less_trans [OF _ N_large(2)] by (simp add: mp_exptmod_def, blast)
  then have "nat ?v < 256 ^ 384" by (simp only: nat_less_iff of_nat_power of_nat_numeral)
  then have sz: "mp_unsigned_bin_size ?v \<le> 384"
    unfolding mp_unsigned_bin_size_def mp_to_unsigned_bin_def by (rule length_mp_bytes)
  obtain s1 where 1: "wc_SrpSetUsername crypto_srp_new user = (0, s1)" by (simp add: wc_SrpSetUsername_def)
  obtain s2 where 2: "wc_SrpSetParams s1 SRP_N_bytes SRP_g_bytes salt = (0, s2)"
    using params_ok [of user salt] 1 by (metis crypto_srp_new_def snd_conv prod.collapse)
  have c: "?c = snd (wc_SrpSetPassword s2 password)"
    using 1 2 by (simp add: srp_client_def crypto_srp_new_def)
  have 3: "wc_SrpSetPassword s2 password = (0, ?c)"
  proof -
    have "fst (wc_SrpSetPassword s2 password) = 0"
      using srp_client_fields(1,5) [of salt user password] unfolding c
      by (auto simp: wc_SrpSetPassword_def Let_def split: if_splits option.splits)
    then show ?thesis using c by (simp add: prod_eq_iff)
  qed
  have 4: "wc_SrpGetVerifier ?c 1024 = (if ?x = 0 then (SRP_CALL_ORDER_E, []) else (0, mp_to_unsigned_bin ?v))"
    using sz by (simp add: wc_SrpGetVerifier_def srp_client_fields Let_def)
  show ?thesis
    using v(1) unfolding crypto_srp_init_def Let_def 1 2 3 prod.case 4
    by (auto simp: srp_errors wc_SrpSetVerifier_def srp_server_def)
qed

lemma srp_init_matched: "matched (srp_client salt user password) (srp_server salt user password)"
proof -
  have "1 < srp_N_value" using N_large(1) power_increasing [of 1 3071 "2 :: int"] by simp
  then show ?thesis
    using x_bound by (simp add: matched_def srp_server_def srp_client_fields)
qed

section \<open>Properties\<close>


text \<open>A group in which everything can be computed: the order of the generator is 4, and so is \<open>x\<close>.\<close>

definition small_client :: srp_t where
  "small_client = (wc_SrpInit SRP_CLIENT_SIDE)\<lparr>srp_N := 2 ^ 600 + 1, srp_g := 2 ^ 300,
     srp_k := [1], srp_auth := 4, srp_priv := 1\<rparr>"

definition small_server :: srp_t where
  "small_server = (wc_SrpInit SRP_SERVER_SIDE)\<lparr>srp_N := 2 ^ 600 + 1, srp_g := 2 ^ 300,
     srp_k := [1], srp_auth := 1, srp_priv := 1\<rparr>"

lemma small_power: "mp_exptmod (2 ^ 300) 4 (2 ^ 600 + 1) = 1"
proof -
  have m: "M * M mod (M + 1) = 1" if "1 < M" for M :: int
  proof -
    have "M * M = 1 + (M + 1) * (M - 1)" by algebra
    then have "M * M mod (M + 1) = 1 mod (M + 1)" by (simp only: mod_mult_self2)
    then show ?thesis using that by simp
  qed
  have "(2 :: int) ^ 300 * 2 ^ 300 = 2 ^ (300 + 300)" by (simp only: power_add)
  then have s: "(2 :: int) ^ 300 * 2 ^ 300 = 2 ^ 600" by simp
  have "x ^ nat 4 = (x * x) * (x * x)" for x :: int by (simp add: eval_nat_numeral)
  then have "((2 :: int) ^ 300) ^ nat 4 = 2 ^ 600 * 2 ^ 600" by (simp only: s)
  moreover have "(1 :: int) < 2 ^ 600" by simp
  ultimately show ?thesis unfolding mp_exptmod_def by (simp only: m)
qed

lemma small_keys:
  "matched small_client small_server"
  "wc_SrpGetPublic [] small_client 384 = (0, small_client, mp_to_unsigned_bin (2 ^ 300))"
  "wc_SrpGetPublic [] small_server 384 = (0, small_server, mp_to_unsigned_bin (2 ^ 300 + 1))"
  "fst (wc_SrpComputeKey small_server (Some (mp_to_unsigned_bin (2 ^ 300)))
     (Some (mp_to_unsigned_bin (2 ^ 300 + 1)))) = 0"
proof -
  have one: "mp_read_unsigned_bin [1] = 1" by (simp add: mp_read_unsigned_bin_def)
  have sz: "mp_unsigned_bin_size (2 ^ 600 + 1) \<le> 384"
    unfolding mp_unsigned_bin_size_def mp_to_unsigned_bin_def by (rule length_mp_bytes) simp
  show "matched small_client small_server"
    using small_power by (simp add: matched_def small_client_def small_server_def wc_SrpInit_def)
  show "wc_SrpGetPublic [] small_client 384 = (0, small_client, mp_to_unsigned_bin (2 ^ 300))"
    using sz by (simp add: wc_SrpGetPublic_def small_client_def wc_SrpInit_def mp_exptmod_def)
  show "wc_SrpGetPublic [] small_server 384 = (0, small_server, mp_to_unsigned_bin (2 ^ 300 + 1))"
    using sz by (simp add: wc_SrpGetPublic_def small_server_def wc_SrpInit_def mp_exptmod_def mp_mulmod_def one)
  have "srp_server_secret small_server u (mp_to_unsigned_bin (2 ^ 300)) = Inr (2 ^ 300)" for u
    by (simp add: srp_server_secret_def small_server_def wc_SrpInit_def mp_exptmod_def mp_mulmod_def)
  moreover have "srp_side small_server = SRP_SERVER_SIDE" "srp_priv small_server = 1"
    by (simp_all add: small_server_def wc_SrpInit_def)
  moreover have "mp_to_unsigned_bin (2 ^ 300) \<noteq> []" "mp_to_unsigned_bin (2 ^ 300 + 1) \<noteq> []"
    by (simp_all only: to_bin_Nil) simp_all
  ultimately show "fst (wc_SrpComputeKey small_server (Some (mp_to_unsigned_bin (2 ^ 300)))
     (Some (mp_to_unsigned_bin (2 ^ 300 + 1)))) = 0"
    unfolding wc_SrpComputeKey_def Let_def by (simp del: to_bin_Nil)
qed


end
