(* ===== verification/Server_State.thy ===== *)
theory Server_State
  imports HK_Prelude Accessories CQueue Query_Params Storage
begin

text \<open>
  The data of \<open>src/arduino_homekit_server.h\<close> and the part of \<open>src/arduino_homekit_server.cpp\<close> that keeps
  it: the client contexts, the server with its linked list of clients, accepting and closing clients
  and writing to a socket.  A client pointer is a number; \<open>clients\<close> is the linked list from its head, and
  a pointer that is not in it is to freed memory, so that using it is the fault \<open>Dangling\<close>.  The type
  variables are the flash device \<open>'w\<close>, the state \<open>'s\<close> of a \<open>WiFiClient\<close>, the HTTP parser \<open>'p\<close> and the
  SRP state \<open>'srp\<close>.
\<close>

section \<open>Constants\<close>

datatype homekit_client_step_t =
    HOMEKIT_CLIENT_STEP_NONE
  | HOMEKIT_CLIENT_STEP_PAIR_SETUP_1OF3
  | HOMEKIT_CLIENT_STEP_PAIR_SETUP_2OF3
  | HOMEKIT_CLIENT_STEP_PAIR_SETUP_3OF3
  | HOMEKIT_CLIENT_STEP_PAIR_VERIFY_1OF2
  | HOMEKIT_CLIENT_STEP_PAIR_VERIFY_2OF2
  | HOMEKIT_CLIENT_STEP_END

datatype homekit_endpoint_t =
    HOMEKIT_ENDPOINT_UNKNOWN
  | HOMEKIT_ENDPOINT_PAIR_SETUP
  | HOMEKIT_ENDPOINT_PAIR_VERIFY
  | HOMEKIT_ENDPOINT_IDENTIFY
  | HOMEKIT_ENDPOINT_GET_ACCESSORIES
  | HOMEKIT_ENDPOINT_GET_CHARACTERISTICS
  | HOMEKIT_ENDPOINT_UPDATE_CHARACTERISTICS
  | HOMEKIT_ENDPOINT_PAIRINGS
  | HOMEKIT_ENDPOINT_RESOURCE

datatype homekit_event_t =
    HOMEKIT_EVENT_SERVER_INITIALIZED
  | HOMEKIT_EVENT_CLIENT_CONNECTED
  | HOMEKIT_EVENT_CLIENT_VERIFIED
  | HOMEKIT_EVENT_CLIENT_DISCONNECTED
  | HOMEKIT_EVENT_PAIRING_ADDED
  | HOMEKIT_EVENT_PAIRING_REMOVED

definition TLVType_Method :: byte where "TLVType_Method = 0"
definition TLVType_Identifier :: byte where "TLVType_Identifier = 1"
definition TLVType_Salt :: byte where "TLVType_Salt = 2"
definition TLVType_PublicKey :: byte where "TLVType_PublicKey = 3"
definition TLVType_Proof :: byte where "TLVType_Proof = 4"
definition TLVType_EncryptedData :: byte where "TLVType_EncryptedData = 5"
definition TLVType_State :: byte where "TLVType_State = 6"
definition TLVType_Error :: byte where "TLVType_Error = 7"
definition TLVType_Signature :: byte where "TLVType_Signature = 10"
definition TLVType_Permissions :: byte where "TLVType_Permissions = 11"
definition TLVType_Separator :: byte where "TLVType_Separator = 0xff"

lemmas TLVType_defs =
  TLVType_Method_def TLVType_Identifier_def TLVType_Salt_def TLVType_PublicKey_def TLVType_Proof_def
  TLVType_EncryptedData_def TLVType_State_def TLVType_Error_def TLVType_Signature_def
  TLVType_Permissions_def TLVType_Separator_def

definition TLVMethod_AddPairing :: u32 where "TLVMethod_AddPairing = 3"
definition TLVMethod_RemovePairing :: u32 where "TLVMethod_RemovePairing = 4"
definition TLVMethod_ListPairings :: u32 where "TLVMethod_ListPairings = 5"

lemmas TLVMethod_defs = TLVMethod_AddPairing_def TLVMethod_RemovePairing_def TLVMethod_ListPairings_def

definition TLVError_Unknown :: u32 where "TLVError_Unknown = 1"
definition TLVError_Authentication :: u32 where "TLVError_Authentication = 2"
definition TLVError_MaxPeers :: u32 where "TLVError_MaxPeers = 4"
definition TLVError_Unavailable :: u32 where "TLVError_Unavailable = 6"
definition TLVError_Busy :: u32 where "TLVError_Busy = 7"

lemmas TLVError_defs =
  TLVError_Unknown_def TLVError_Authentication_def TLVError_MaxPeers_def TLVError_Unavailable_def
  TLVError_Busy_def

definition HAPStatus_Success :: int where "HAPStatus_Success = 0"
definition HAPStatus_InsufficientPrivileges :: int where "HAPStatus_InsufficientPrivileges = - 70401"
definition HAPStatus_ReadOnly :: int where "HAPStatus_ReadOnly = - 70404"
definition HAPStatus_WriteOnly :: int where "HAPStatus_WriteOnly = - 70405"
definition HAPStatus_NotificationsUnsupported :: int where "HAPStatus_NotificationsUnsupported = - 70406"
definition HAPStatus_NoResource :: int where "HAPStatus_NoResource = - 70409"
definition HAPStatus_InvalidValue :: int where "HAPStatus_InvalidValue = - 70410"

lemmas HAPStatus_defs =
  HAPStatus_Success_def HAPStatus_InsufficientPrivileges_def HAPStatus_ReadOnly_def HAPStatus_WriteOnly_def
  HAPStatus_NotificationsUnsupported_def HAPStatus_NoResource_def HAPStatus_InvalidValue_def

definition pairing_permissions_admin :: byte where "pairing_permissions_admin = 1"

definition HOMEKIT_MAX_CLIENTS :: int where "HOMEKIT_MAX_CLIENTS = 8"
definition HOMEKIT_EVENT_QUEUE_SIZE :: nat where "HOMEKIT_EVENT_QUEUE_SIZE = 4"
definition HOMEKIT_JSONBUFFER_SIZE :: nat where "HOMEKIT_JSONBUFFER_SIZE = 512"

text \<open>The function pointer \<open>client_notify_characteristic\<close> among the callbacks of a characteristic.\<close>

definition client_notify_callback :: nat where "client_notify_callback = 1"

section \<open>Contexts\<close>

record 'srp pairing_context_t =
  pc_srp :: 'srp
  pc_public_key :: "byte list option"
  pc_client :: "nat option"

record pair_verify_context_t =
  pv_secret :: "byte list option"
  pv_session_key :: "byte list option"
  pv_device_public_key :: "byte list option"
  pv_accessory_public_key :: "byte list option"

record characteristic_event_t =
  ev_characteristic :: ch_path
  ev_value :: homekit_value

record ('s, 'p) client_context_t =
  cl_socket :: "'s option"
  cl_endpoint :: homekit_endpoint_t
  cl_endpoint_params :: "query_param list option"
  cl_data :: "byte list"
  cl_data_available :: nat
  cl_body :: "byte list option"
  cl_parser :: 'p
  cl_pairing_id :: int
  cl_permissions :: byte
  cl_disconnect :: bool
  cl_current_characteristic :: "ch_path option"
  cl_current_value :: "homekit_value option"
  cl_encrypted :: bool
  cl_read_key :: "byte list"
  cl_write_key :: "byte list"
  cl_count_reads :: nat
  cl_count_writes :: nat
  cl_event_queue :: "characteristic_event_t queue_t option"
  cl_verify_context :: "pair_verify_context_t option"
  cl_step :: homekit_client_step_t
  cl_error_write :: bool

text \<open>
  The server with its configuration.  The global \<open>saved_preinit_pairing_context\<close> is \<open>sv_saved_preinit\<close>, and
  \<open>sv_pairing\<close> says whether \<open>server->pairing_context\<close> points to the same object or is NULL: the code sets
  it to the saved context only, creates a saved context only when there is none, and clears both when it
  frees the object.  \<open>sv_events\<close> lists the calls of \<open>config->on_event\<close>; \<open>sv_next\<close> is the address of the
  next client.
\<close>

record ('w, 's, 'p, 'srp) homekit_server_t =
  sv_flash :: 'w
  sv_accessory_id :: "byte list"
  sv_accessory_key :: ed25519_key
  sv_accessories :: "homekit_accessory list"
  sv_category :: nat
  sv_config_number :: u16
  sv_password :: "string option"
  sv_setupId :: "string option"
  sv_on_event :: bool
  sv_events :: "homekit_event_t list"
  sv_paired :: bool
  sv_saved_preinit :: "'srp pairing_context_t option"
  sv_pairing :: bool
  sv_nfds :: int
  sv_clients :: "(nat \<times> ('s, 'p) client_context_t) list"
  sv_next :: nat

definition HOMEKIT_NOTIFY_EVENT ::
  "('w, 's, 'p, 'srp) homekit_server_t \<Rightarrow> homekit_event_t \<Rightarrow> ('w, 's, 'p, 'srp) homekit_server_t" where
  "HOMEKIT_NOTIFY_EVENT S e = (if sv_on_event S then S\<lparr>sv_events := sv_events S @ [e]\<rparr> else S)"

definition pair_verify_context_new :: pair_verify_context_t where
  "pair_verify_context_new =
     \<lparr>pv_secret = None, pv_session_key = None, pv_device_public_key = None, pv_accessory_public_key = None\<rparr>"

definition pairing_context_new :: "'srp \<Rightarrow> 'srp pairing_context_t" where
  "pairing_context_new srp = \<lparr>pc_srp = srp, pc_public_key = None, pc_client = None\<rparr>"

text \<open>
  \<open>malloc\<close> leaves the fields of \<open>junk\<close>: the endpoint, the permissions, the keys and the pointers
  \<open>current_characteristic\<close> and \<open>current_value\<close> are not set.  \<open>mem\<close> is the memory of the event queue.
\<close>

definition client_context_new ::
  "('s, 'p) client_context_t \<Rightarrow> characteristic_event_t queue_t \<Rightarrow> characteristic_event_t list option \<Rightarrow>
   'p \<Rightarrow> 's \<Rightarrow> ('s, 'p) client_context_t" where
  "client_context_new junk qjunk mem parser wifiClient =
     junk\<lparr>cl_endpoint_params := None, cl_data_available := 0, cl_body := None, cl_parser := parser,
       cl_pairing_id := - 1, cl_encrypted := False, cl_count_reads := 0, cl_count_writes := 0,
       cl_disconnect := False,
       cl_event_queue := Some (snd (q_init qjunk 4 HOMEKIT_EVENT_QUEUE_SIZE LIFO True mem)),
       cl_verify_context := None, cl_socket := Some wifiClient, cl_step := HOMEKIT_CLIENT_STEP_NONE,
       cl_error_write := False\<rparr>"

section \<open>Client pointers\<close>

definition client :: "('w, 's, 'p, 'srp) homekit_server_t \<Rightarrow> nat \<Rightarrow> fault + ('s, 'p) client_context_t" where
  "client S i = (case map_of (sv_clients S) i of None \<Rightarrow> Inl Dangling | Some c \<Rightarrow> Inr c)"

definition set_client ::
  "('w, 's, 'p, 'srp) homekit_server_t \<Rightarrow> nat \<Rightarrow> ('s, 'p) client_context_t \<Rightarrow> ('w, 's, 'p, 'srp) homekit_server_t"
  where
  "set_client S i c = S\<lparr>sv_clients := map (\<lambda>(j, d). (j, if j = i then c else d)) (sv_clients S)\<rparr>"

definition modify_client ::
  "('w, 's, 'p, 'srp) homekit_server_t \<Rightarrow> nat \<Rightarrow> (('s, 'p) client_context_t \<Rightarrow> ('s, 'p) client_context_t) \<Rightarrow>
   fault + ('w, 's, 'p, 'srp) homekit_server_t" where
  "modify_client S i f = bind_res (client S i) (\<lambda>c. Inr (set_client S i (f c)))"

section \<open>Closing a client\<close>

text \<open>The operations of a \<open>WiFiClient\<close> (\<open>sock_write\<close> returns the number of bytes taken), and what memory holds
  that is not initialised: \<open>junk_words\<close> is a local cipher context, and \<open>heap_alloc n\<close> the block \<open>malloc\<close>
  returns, or \<open>None\<close> for NULL.\<close>

record 's platform =
  sock_connected :: "'s \<Rightarrow> bool"
  sock_write :: "'s \<Rightarrow> byte list \<Rightarrow> nat \<times> 's"
  sock_available :: "'s \<Rightarrow> nat"
  sock_read :: "'s \<Rightarrow> nat \<Rightarrow> byte list \<times> 's"
  junk_words :: "u32 list"
  heap_alloc :: "nat \<Rightarrow> byte list option"

definition pairing_context ::
  "('w, 's, 'p, 'srp) homekit_server_t \<Rightarrow> 'srp pairing_context_t option" where
  "pairing_context S = (if sv_pairing S then sv_saved_preinit S else None)"

text \<open>\<open>pairing_context_free(server->pairing_context); server->pairing_context = NULL;\<close>\<close>

definition pairing_context_free ::
  "('w, 's, 'p, 'srp) homekit_server_t \<Rightarrow> ('w, 's, 'p, 'srp) homekit_server_t" where
  "pairing_context_free S = S\<lparr>sv_saved_preinit := None, sv_pairing := False\<rparr>"

definition homekit_server_close_client ::
  "('w, 's, 'p, 'srp) homekit_server_t \<Rightarrow> nat \<Rightarrow> fault + ('w, 's, 'p, 'srp) homekit_server_t" where
  "homekit_server_close_client S i =
     bind_res (client S i) (\<lambda>c.
       let S = S\<lparr>sv_nfds := sv_nfds S - 1\<rparr>;
           S = (case pairing_context S of
                  Some p \<Rightarrow> if pc_client p = Some i then pairing_context_free S else S
                | None \<Rightarrow> S);
           S = S\<lparr>sv_clients := filter (\<lambda>(j, d). j \<noteq> i) (sv_clients S)\<rparr>;
           S = S\<lparr>sv_accessories := homekit_accessories_clear_notify_callbacks (sv_accessories S)
                  client_notify_callback i\<rparr> in
       Inr (HOMEKIT_NOTIFY_EVENT S HOMEKIT_EVENT_CLIENT_DISCONNECTED))"

section \<open>Writing\<close>

text \<open>A write that is not taken in full closes and frees the client.\<close>

definition write' ::
  "'s platform \<Rightarrow> ('w, 's, 'p, 'srp) homekit_server_t \<Rightarrow> nat \<Rightarrow> byte list \<Rightarrow> fault + ('w, 's, 'p, 'srp) homekit_server_t"
  where
  "write' W S i data =
     bind_res (client S i) (\<lambda>c.
       case cl_socket c of
         None \<Rightarrow> Inr S
       | Some s \<Rightarrow>
           if \<not> sock_connected W s then Inr S
           else if cl_error_write c then Inr S
           else (let (write_size, s) = sock_write W s data; c = c\<lparr>cl_socket := Some s\<rparr> in
                 if write_size \<noteq> length data
                 then homekit_server_close_client
                        (set_client S i (c\<lparr>cl_error_write := True, cl_disconnect := True\<rparr>)) i
                 else Inr (set_client S i c)))"

section \<open>Accepting a client\<close>

text \<open>\<open>pending\<close> is the connection that is waiting, if any; one too many is refused.\<close>

definition homekit_server_accept_client ::
  "('s, 'p) client_context_t \<Rightarrow> characteristic_event_t queue_t \<Rightarrow> characteristic_event_t list option \<Rightarrow> 'p \<Rightarrow>
   's option \<Rightarrow> ('w, 's, 'p, 'srp) homekit_server_t \<Rightarrow> nat option \<times> ('w, 's, 'p, 'srp) homekit_server_t" where
  "homekit_server_accept_client junk qjunk mem parser pending S =
     (case pending of
        None \<Rightarrow> (None, S)
      | Some wifiClient \<Rightarrow>
          if sv_nfds S \<ge> HOMEKIT_MAX_CLIENTS then (None, S)
          else (let i = sv_next S; c = client_context_new junk qjunk mem parser wifiClient;
                    S = S\<lparr>sv_clients := (i, c) # sv_clients S, sv_nfds := sv_nfds S + 1, sv_next := i + 1\<rparr> in
                (Some i, HOMEKIT_NOTIFY_EVENT S HOMEKIT_EVENT_CLIENT_CONNECTED)))"

section \<open>Lemmas on client pointers\<close>

named_theorems client_simps "reading and writing through client pointers"

lemma map_of_set [simp]:
  "map_of (map (\<lambda>(j, d). (j, if j = i then c else d)) xs) k =
    (if k = i then map_option (\<lambda>_. c) (map_of xs k) else map_of xs k)"
  by (induction xs) auto

lemma client_set_same [client_simps]: "client S i = Inr d \<Longrightarrow> client (set_client S i c) i = Inr c"
  by (auto simp: client_def set_client_def split: option.splits)

lemma client_set_other [client_simps]: "j \<noteq> i \<Longrightarrow> client (set_client S i c) j = client S j"
  by (simp add: client_def set_client_def)

lemma set_client_twice [client_simps]: "set_client (set_client S i c) i d = set_client S i d"
  by (auto simp: set_client_def comp_def split_def)

lemma fst_set_client [simp]: "map fst (sv_clients (set_client S i c)) = map fst (sv_clients S)"
  by (auto simp: set_client_def)

lemma set_client_fields [simp]:
  "sv_flash (set_client S i c) = sv_flash S" "sv_accessories (set_client S i c) = sv_accessories S"
  "sv_nfds (set_client S i c) = sv_nfds S" "sv_next (set_client S i c) = sv_next S"
  "sv_pairing (set_client S i c) = sv_pairing S" "pairing_context (set_client S i c) = pairing_context S"
  "sv_saved_preinit (set_client S i c) = sv_saved_preinit S"
  "sv_paired (set_client S i c) = sv_paired S" "sv_events (set_client S i c) = sv_events S"
  "sv_accessory_id (set_client S i c) = sv_accessory_id S"
  "sv_accessory_key (set_client S i c) = sv_accessory_key S"
  "sv_on_event (set_client S i c) = sv_on_event S"
  "sv_password (set_client S i c) = sv_password S"
  by (simp_all add: set_client_def pairing_context_def)

lemma notify_fields [simp]:
  "sv_clients (HOMEKIT_NOTIFY_EVENT S e) = sv_clients S" "sv_flash (HOMEKIT_NOTIFY_EVENT S e) = sv_flash S"
  "sv_nfds (HOMEKIT_NOTIFY_EVENT S e) = sv_nfds S" "sv_next (HOMEKIT_NOTIFY_EVENT S e) = sv_next S"
  "sv_accessories (HOMEKIT_NOTIFY_EVENT S e) = sv_accessories S"
  "sv_paired (HOMEKIT_NOTIFY_EVENT S e) = sv_paired S"
  "pairing_context (HOMEKIT_NOTIFY_EVENT S e) = pairing_context S"
  "sv_saved_preinit (HOMEKIT_NOTIFY_EVENT S e) = sv_saved_preinit S"
  "client (HOMEKIT_NOTIFY_EVENT S e) = client S"
  by (simp_all add: HOMEKIT_NOTIFY_EVENT_def client_def fun_eq_iff pairing_context_def)

text \<open>The pointer \<open>i\<close> is to the client \<open>c\<close>, and to no other.\<close>

definition points_to :: "('w, 's, 'p, 'srp) homekit_server_t \<Rightarrow> nat \<Rightarrow> ('s, 'p) client_context_t \<Rightarrow> bool" where
  "points_to S i c \<longleftrightarrow> client S i = Inr c \<and> set_client S i c = S"

lemma points_to_client [client_simps]: "points_to S i c \<Longrightarrow> client S i = Inr c"
  by (simp add: points_to_def)

lemma points_to_set: "points_to S i c \<Longrightarrow> points_to (set_client S i d) i d"
  unfolding points_to_def by (simp only: client_set_same set_client_twice simp_thms)

lemma points_toI:
  assumes "distinct (map fst (sv_clients S))" and "client S i = Inr c"
  shows "points_to S i c"
proof -
  have "map (\<lambda>(j, d). (j, if j = i then c else d)) xs = xs"
    if "distinct (map fst xs)" and "map_of xs i = Some c" for xs
  proof (rule map_idI)
    fix x assume x: "x \<in> set xs"
    obtain j d where [simp]: "x = (j, d)" by (cases x)
    have "map_of xs j = Some d" using x that(1) by (simp add: map_of_is_SomeI)
    then show "(case x of (j, d) \<Rightarrow> (j, if j = i then c else d)) = x" using that(2) by auto
  qed
  then show ?thesis
    using assms by (auto simp: points_to_def set_client_def client_def split: option.splits)
qed

text \<open>The invariant of the list of clients.\<close>

definition clients_ok :: "('w, 's, 'p, 'srp) homekit_server_t \<Rightarrow> bool" where
  "clients_ok S \<longleftrightarrow> distinct (map fst (sv_clients S)) \<and> list_all (\<lambda>i. i < sv_next S) (map fst (sv_clients S)) \<and>
     sv_nfds S = int (length (sv_clients S)) \<and> sv_nfds S \<le> HOMEKIT_MAX_CLIENTS"

lemma clients_ok_set [simp]: "clients_ok (set_client S i c) = clients_ok S"
proof -
  have "length (sv_clients (set_client S i c)) = length (sv_clients S)"
    by (simp add: set_client_def)
  then show ?thesis by (simp add: clients_ok_def)
qed

lemma clients_ok_accept:
  assumes "clients_ok S"
  shows "clients_ok (snd (homekit_server_accept_client junk qjunk mem parser pending S))"
  using assms
  by (auto simp: homekit_server_accept_client_def clients_ok_def Let_def list_all_iff HOMEKIT_MAX_CLIENTS_def
      split: option.splits)

lemma filter_removes_one:
  "distinct (map fst xs) \<Longrightarrow> map_of xs i = Some c \<Longrightarrow>
    Suc (length (filter (\<lambda>(j, d). j \<noteq> i) xs)) = length xs"
proof (induction xs)
  case (Cons x xs)
  have "i \<notin> fst ` set xs \<Longrightarrow> filter (\<lambda>(j, d). j \<noteq> i) xs = xs"
    by (auto simp: filter_id_conv rev_image_eqI)
  then show ?case using Cons by (cases x) (auto split: if_splits)
qed simp

lemma close_clients:
  "homekit_server_close_client S i = Inr S' \<Longrightarrow>
    sv_clients S' = filter (\<lambda>(j, d). j \<noteq> i) (sv_clients S) \<and> sv_nfds S' = sv_nfds S - 1 \<and>
    sv_next S' = sv_next S \<and> (\<exists>c. map_of (sv_clients S) i = Some c)"
  by (auto simp: homekit_server_close_client_def Let_def client_def pairing_context_free_def
      split: option.splits if_splits)

lemma distinct_fst_filter: "distinct (map fst xs) \<Longrightarrow> distinct (map fst (filter P xs))"
  by (induction xs) auto

lemma clients_ok_close:
  assumes "clients_ok S" and "homekit_server_close_client S i = Inr S'"
  shows "clients_ok S'"
proof -
  from close_clients [OF assms(2)] obtain c where
    c: "sv_clients S' = filter (\<lambda>(j, d). j \<noteq> i) (sv_clients S)" "sv_nfds S' = sv_nfds S - 1"
      "sv_next S' = sv_next S" "map_of (sv_clients S) i = Some c" by blast
  have "Suc (length (sv_clients S')) = length (sv_clients S)"
    using filter_removes_one [OF _ c(4)] assms(1) c(1) by (simp add: clients_ok_def)
  moreover have "distinct (map fst (sv_clients S'))"
    using assms(1) c(1) by (simp add: clients_ok_def distinct_fst_filter)
  ultimately show ?thesis
    using assms(1) c by (auto simp: clients_ok_def list_all_iff)
qed

lemma clients_ok_write:
  "clients_ok S \<Longrightarrow> write' W S i data = Inr S' \<Longrightarrow> clients_ok S'"
  by (auto simp: write'_def Let_def split: option.splits if_splits prod.splits
      dest!: clients_ok_close [rotated])

lemma closed_dangling:
  "homekit_server_close_client S i = Inr S' \<Longrightarrow> client S' i = Inl Dangling"
  by (drule close_clients) (auto simp: client_def map_of_eq_None_iff split: option.splits)

end
