(* ===== verification/Session.thy ===== *)
theory Session
  imports Server_State Chacha_Poly Json_Stream
begin

text \<open>
  The encrypted session of a client, \<open>client_send_encrypted_\<close> and \<open>client_decrypt_\<close> of
  \<open>src/arduino_homekit_server.cpp\<close>, and the responses that are sent through it.  The counters are the
  numbers of frames so far; they are \<open>int\<close>s in the code and stay below \<open>2 ^ 31\<close> in every session of fewer
  frames.
\<close>

section \<open>Frames\<close>

text \<open>\<open>while (x) { nonce[i++] = x % 256; x /= 256; }\<close>\<close>

function put_count :: "byte list \<Rightarrow> nat \<Rightarrow> nat \<Rightarrow> byte list" where
  "put_count nonce i x =
     (if x = 0 then nonce else put_count (nonce[i := of_nat (x mod 256)]) (i + 1) (x div 256))"
  by pat_completeness auto
termination
  by (relation "measure (\<lambda>(nonce, i, x). x)") auto

declare put_count.simps [simp del]

text \<open>The loop over the chunks of the payload; the size of \<open>encrypted + 2\<close> is 1040.\<close>

function send_encrypted_loop ::
  "'s platform \<Rightarrow> ('w, 's, 'p, 'srp) homekit_server_t \<Rightarrow> nat \<Rightarrow> byte list \<Rightarrow> byte list \<Rightarrow>
   fault + (int \<times> ('w, 's, 'p, 'srp) homekit_server_t)" where
  "send_encrypted_loop W S i nonce payload =
     (if payload = [] then Inr (0, S)
      else bind_res (client S i) (\<lambda>c.
        let chunk_size = (if length payload > 1024 then 1024 else length payload);
            aead = [of_nat (chunk_size mod 256), of_nat (chunk_size div 256)];
            nonce = put_count nonce 4 (cl_count_reads c);
            S = set_client S i (c\<lparr>cl_count_reads := cl_count_reads c + 1\<rparr>);
            (r, available, out) = crypto_chacha20poly1305_encrypt (junk_words W) (cl_read_key c) nonce aead
              (take chunk_size payload) (Some 1040) in
        if r \<noteq> 0 then Inr (- 1, S)
        else bind_res (write' W S i (aead @ take (the available) out)) (\<lambda>S.
          send_encrypted_loop W S i nonce (drop chunk_size payload))))"
  by pat_completeness auto
termination
  by (relation "measure (\<lambda>(W, S, i, nonce, payload). length payload)") (auto split: if_splits)

declare send_encrypted_loop.simps [simp del]

definition client_send_encrypted' ::
  "'s platform \<Rightarrow> ('w, 's, 'p, 'srp) homekit_server_t \<Rightarrow> nat \<Rightarrow> byte list \<Rightarrow>
   fault + (int \<times> ('w, 's, 'p, 'srp) homekit_server_t)" where
  "client_send_encrypted' W S i payload =
     bind_res (client S i) (\<lambda>c.
       if \<not> cl_encrypted c then Inr (- 1, S) else send_encrypted_loop W S i (replicate 12 0) payload)"

text \<open>\<open>size_t\<close> is 32 bits wide: the size of a last frame shorter than 18 bytes wraps.\<close>

definition required_decrypted_size :: "nat \<Rightarrow> nat" where
  "required_decrypted_size payload_size =
     (let block_size = 1024 + 16 + 2; n = payload_size div block_size * 1024 in
      if payload_size mod block_size > 0 then (n + payload_size mod block_size + 2 ^ 32 - 16 - 2) mod 2 ^ 32
      else n)"

text \<open>
  The loop over the frames in the first \<open>payload_size\<close> bytes of the receive buffer \<open>data\<close>.  Every
  frame is decrypted to the start of \<open>decrypted\<close>.
\<close>

function decrypt_loop ::
  "u32 list \<Rightarrow> ('s, 'p) client_context_t \<Rightarrow> byte list \<Rightarrow> nat \<Rightarrow> byte list \<Rightarrow> nat \<Rightarrow> nat \<Rightarrow> nat \<Rightarrow> byte list \<Rightarrow>
   fault + (int \<times> ('s, 'p) client_context_t \<times> byte list)" where
  "decrypt_loop junk c data payload_size nonce payload_offset decrypted_offset decrypted_size decrypted =
     (if payload_offset < payload_size then
        (if length data \<le> payload_offset + 1 then Inl Oob_read
         else
          (let chunk_size = unat (data ! payload_offset) + unat (data ! (payload_offset + 1)) * 256 in
           if chunk_size + 18 > payload_size - payload_offset then Inr (int payload_offset, c, decrypted)
           else
            (let nonce = put_count nonce 4 (cl_count_writes c);
                 c = c\<lparr>cl_count_writes := cl_count_writes c + 1\<rparr>;
                 (r, decrypted_len, out) = crypto_chacha20poly1305_decrypt junk (cl_write_key c) nonce
                   (take 2 (drop payload_offset data)) (take (chunk_size + 16) (drop (payload_offset + 2) data))
                   (Some (decrypted_size - decrypted_offset)) in
             if r \<noteq> 0 then Inr (- 1, c, decrypted)
             else if length out > length decrypted then Inl Oob_write
             else decrypt_loop junk c data payload_size nonce (payload_offset + chunk_size + 18)
                    (decrypted_offset + the decrypted_len) decrypted_size (out @ drop (length out) decrypted))))
      else Inr (int payload_offset, c, decrypted))"
  by pat_completeness auto
termination
  by (relation "measure (\<lambda>(junk, c, data, payload_size, nonce, payload_offset, _). payload_size - payload_offset)")
    auto

declare decrypt_loop.simps [simp del]

text \<open>
  \<open>decrypted\<close> is the content of the caller's buffer (\<open>[]\<close> for the first call, with NULL and size 0).
  The result is the code, the client, the buffer and the size.
\<close>

definition client_decrypt' ::
  "u32 list \<Rightarrow> ('s, 'p) client_context_t \<Rightarrow> byte list \<Rightarrow> nat \<Rightarrow> byte list \<Rightarrow> nat \<Rightarrow>
   fault + (int \<times> ('s, 'p) client_context_t \<times> byte list \<times> nat)" where
  "client_decrypt' junk c data payload_size decrypted decrypted_size =
     (if \<not> cl_encrypted c then Inr (- 1, c, decrypted, decrypted_size)
      else let required = required_decrypted_size payload_size in
        if decrypted_size < required then Inr (- 2, c, decrypted, required)
        else bind_res (decrypt_loop junk c data payload_size (replicate 12 0) 0 0 required decrypted)
               (\<lambda>(r, c, decrypted). Inr (r, c, decrypted, required)))"

section \<open>Sending\<close>

definition client_send ::
  "'s platform \<Rightarrow> ('w, 's, 'p, 'srp) homekit_server_t \<Rightarrow> nat \<Rightarrow> byte list \<Rightarrow> fault + ('w, 's, 'p, 'srp) homekit_server_t"
  where
  "client_send W S i data =
     bind_res (client S i) (\<lambda>c.
       if cl_encrypted c then bind_res (client_send_encrypted' W S i data) (\<lambda>(r, S). Inr S)
       else write' W S i data)"

definition client_send_P ::
  "'s platform \<Rightarrow> ('w, 's, 'p, 'srp) homekit_server_t \<Rightarrow> nat \<Rightarrow> string \<Rightarrow> fault + ('w, 's, 'p, 'srp) homekit_server_t"
  where
  "client_send_P W S i pgm = client_send W S i (bytes pgm)"

text \<open>\<open>%x\<close>.\<close>

definition hex_digit :: "nat \<Rightarrow> char" where
  "hex_digit d = char_of (if d < 10 then 48 + d else 87 + d)"

function hex_digits :: "nat \<Rightarrow> string \<Rightarrow> string" where
  "hex_digits x b =
     (let b' = hex_digit (x mod 16) # b in if x div 16 = 0 then b' else hex_digits (x div 16) b')"
  by pat_completeness auto
termination
  by (relation "measure fst") auto

declare hex_digits.simps [simp del]

definition crlf :: string where "crlf = [CHR 0x0D, CHR 0x0A]"

text \<open>The buffer has eight bytes more than the data.\<close>

definition client_send_chunk ::
  "'s platform \<Rightarrow> ('w, 's, 'p, 'srp) homekit_server_t \<Rightarrow> nat \<Rightarrow> byte list \<Rightarrow> fault + ('w, 's, 'p, 'srp) homekit_server_t"
  where
  "client_send_chunk W S i data =
     (let head = hex_digits (length data) [] @ crlf in
      if length head + length data + 2 > length data + 8 then Inl Oob_write
      else client_send W S i (bytes head @ data @ bytes crlf))"

fun send_chunks ::
  "'s platform \<Rightarrow> ('w, 's, 'p, 'srp) homekit_server_t \<Rightarrow> nat \<Rightarrow> string list \<Rightarrow> fault + ('w, 's, 'p, 'srp) homekit_server_t"
  where
  "send_chunks W S i [] = Inr S"
| "send_chunks W S i (c # cs) = bind_res (client_send_chunk W S i (bytes c)) (\<lambda>S. send_chunks W S i cs)"

definition send_204_response ::
  "'s platform \<Rightarrow> ('w, 's, 'p, 'srp) homekit_server_t \<Rightarrow> nat \<Rightarrow> fault + ('w, 's, 'p, 'srp) homekit_server_t" where
  "send_204_response W S i = client_send_P W S i (''HTTP/1.1 204 No Content'' @ crlf @ crlf)"

definition send_404_response ::
  "'s platform \<Rightarrow> ('w, 's, 'p, 'srp) homekit_server_t \<Rightarrow> nat \<Rightarrow> fault + ('w, 's, 'p, 'srp) homekit_server_t" where
  "send_404_response W S i = client_send_P W S i (''HTTP/1.1 404 Not Found'' @ crlf @ crlf)"

text \<open>The headers with their two characters \<open>%d\<close>, which \<open>strlen\<close> counts, and as they are sent.\<close>

definition tlv_headers :: "string \<Rightarrow> string" where
  "tlv_headers n =
     ''HTTP/1.1 200 OK'' @ crlf @ ''Content-Type: application/pairing+tlv8'' @ crlf @
     ''Content-Length: '' @ n @ crlf @ ''Connection: keep-alive'' @ crlf @ crlf"

definition send_tlv_response ::
  "'s platform \<Rightarrow> ('w, 's, 'p, 'srp) homekit_server_t \<Rightarrow> nat \<Rightarrow> tlv_values \<Rightarrow> fault + ('w, 's, 'p, 'srp) homekit_server_t"
  where
  "send_tlv_response W S i values =
     bind_res (tlv_format_alloc values) (\<lambda>payload.
       let response_size = length (tlv_headers ''%d'') + length payload + 32;
           head = tlv_headers (fmt_u (length payload)) in
       if response_size - length head < length payload + 1 then Inr S
       else client_send W S i (bytes head @ payload))"

definition send_tlv_error_response ::
  "'s platform \<Rightarrow> ('w, 's, 'p, 'srp) homekit_server_t \<Rightarrow> nat \<Rightarrow> u32 \<Rightarrow> u32 \<Rightarrow> fault + ('w, 's, 'p, 'srp) homekit_server_t"
  where
  "send_tlv_error_response W S i state err =
     bind_res (tlv_add_integer_value tlv_new TLVType_State 1 state) (\<lambda>response.
     bind_res (tlv_add_integer_value response TLVType_Error 1 err) (\<lambda>response.
       send_tlv_response W S i response))"

definition status_text :: "int \<Rightarrow> string" where
  "status_text status_code =
     (if status_code = 204 then ''No Content''
      else if status_code = 207 then ''Multi-Status''
      else if status_code = 400 then ''Bad Request''
      else if status_code = 404 then ''Not Found''
      else if status_code = 422 then ''Unprocessable Entity''
      else if status_code = 500 then ''Internal Server Error''
      else if status_code = 503 then ''Service Unavailable''
      else ''OK'')"

definition json_headers :: "string \<Rightarrow> string \<Rightarrow> string \<Rightarrow> string" where
  "json_headers code text n =
     ''HTTP/1.1 '' @ code @ '' '' @ text @ crlf @ ''Content-Type: application/hap+json'' @ crlf @
     ''Content-Length: '' @ n @ crlf @ ''Connection: keep-alive'' @ crlf @ crlf"

definition send_json_response ::
  "'s platform \<Rightarrow> ('w, 's, 'p, 'srp) homekit_server_t \<Rightarrow> nat \<Rightarrow> int \<Rightarrow> byte list \<Rightarrow>
   fault + ('w, 's, 'p, 'srp) homekit_server_t" where
  "send_json_response W S i status_code payload =
     (let text = status_text status_code;
          response_size = length (json_headers ''%d'' ''%s'' ''%d'') + length payload + length text + 32;
          head = json_headers (fmt_d status_code) text (fmt_u (length payload)) in
      if response_size - length head < length payload + 1 then Inr S
      else client_send W S i (bytes head @ payload))"

text \<open>\<open>snprintf\<close> into 32 bytes returns the length of the whole text; no status makes it longer than that.\<close>

definition send_json_error_response ::
  "'s platform \<Rightarrow> ('w, 's, 'p, 'srp) homekit_server_t \<Rightarrow> nat \<Rightarrow> int \<Rightarrow> int \<Rightarrow>
   fault + ('w, 's, 'p, 'srp) homekit_server_t" where
  "send_json_error_response W S i status_code status =
     (let text = ''{'' @ [CHR 0x22] @ ''status'' @ [CHR 0x22] @ '': '' @ fmt_d status @ ''}'' in
      if length text > 32 then Inl Oob_read
      else send_json_response W S i status_code (bytes (snprintf 32 text)))"

section \<open>What sending keeps\<close>

text \<open>What writing to a client changes of its context.\<close>

definition sent_to :: "('s, 'p) client_context_t \<Rightarrow> ('s, 'p) client_context_t \<Rightarrow> bool" where
  "sent_to c d \<longleftrightarrow> d = c\<lparr>cl_socket := cl_socket d, cl_count_reads := cl_count_reads d,
     cl_error_write := cl_error_write d, cl_disconnect := cl_disconnect d\<rparr>"

lemma sent_to_updates [intro!]:
  "sent_to c (c\<lparr>cl_socket := s\<rparr>)" "sent_to c (c\<lparr>cl_count_reads := n\<rparr>)"
  "sent_to c (c\<lparr>cl_socket := s, cl_error_write := e, cl_disconnect := b\<rparr>)"
  by (cases c; simp add: sent_to_def)+

text \<open>
  A property of the server that these changes and closing a client keep is kept by everything that is
  sent.
\<close>

locale kept_by_sending =
  fixes P :: "('w, 's, 'p, 'srp) homekit_server_t \<Rightarrow> bool"
  assumes kept_set: "P S \<Longrightarrow> client S i = Inr c \<Longrightarrow> sent_to c d \<Longrightarrow> P (set_client S i d)"
    and kept_close: "P S \<Longrightarrow> homekit_server_close_client S i = Inr S' \<Longrightarrow> P S'"
begin

lemma kept_write: "P S \<Longrightarrow> write' W S i data = Inr S' \<Longrightarrow> P S'"
  by (auto simp: write'_def Let_def split: option.splits if_splits prod.splits
      intro: kept_set kept_close [OF kept_set])

lemma kept_loop: "P S \<Longrightarrow> send_encrypted_loop W S i nonce payload = Inr (r, S') \<Longrightarrow> P S'"
proof (induction W S i nonce payload rule: send_encrypted_loop.induct)
  case (1 W S i nonce payload)
  note IH = 1(1) and P = 1(2) and res = 1(3)
  show ?case
  proof (cases "payload = []")
    case True
    then show ?thesis using P res by (simp add: send_encrypted_loop.simps)
  next
    case False
    let ?n = "if length payload > 1024 then 1024 else length payload"
    let ?aead = "[of_nat (?n mod 256), of_nat (?n div 256)] :: byte list"
    from res False obtain c where c: "client S i = Inr c"
      by (subst (asm) send_encrypted_loop.simps) (auto simp: Let_def)
    let ?nonce = "put_count nonce 4 (cl_count_reads c)"
    let ?S = "set_client S i (c\<lparr>cl_count_reads := cl_count_reads c + 1\<rparr>)"
    obtain e available out where e: "crypto_chacha20poly1305_encrypt (junk_words W) (cl_read_key c) ?nonce
        ?aead (take ?n payload) (Some 1040) = (e, available, out)" by (metis prod_cases3)
    show ?thesis
    proof (cases "e = 0")
      case True
      have res': "bind_res (write' W ?S i (?aead @ take (the available) out))
          (\<lambda>S. send_encrypted_loop W S i ?nonce (drop ?n payload)) = Inr (r, S')"
        using res False e c True by (subst (asm) send_encrypted_loop.simps) (simp add: Let_def)
      then obtain T where T: "write' W ?S i (?aead @ take (the available) out) = Inr T"
          "send_encrypted_loop W T i ?nonce (drop ?n payload) = Inr (r, S')" by blast
      have "P T" by (rule kept_write [OF kept_set [OF P c] T(1)]) auto
      then show ?thesis
        using IH [OF False c refl refl refl refl refl e [symmetric] refl _ T(1) _ T(2)] True by simp
    next
      case nz: False
      then have "S' = ?S"
        using res False e c by (subst (asm) send_encrypted_loop.simps) (simp add: Let_def)
      then show ?thesis using kept_set [OF P c] by auto
    qed
  qed
qed

lemma kept_client_send: "P S \<Longrightarrow> client_send W S i data = Inr S' \<Longrightarrow> P S'"
  by (auto simp: client_send_def client_send_encrypted'_def split: if_splits intro: kept_loop kept_write)

lemma kept_client_send_P: "P S \<Longrightarrow> client_send_P W S i pgm = Inr S' \<Longrightarrow> P S'"
  by (auto simp: client_send_P_def intro: kept_client_send)

lemma kept_chunk: "P S \<Longrightarrow> client_send_chunk W S i data = Inr S' \<Longrightarrow> P S'"
  by (auto simp: client_send_chunk_def Let_def split: if_splits intro: kept_client_send)

lemma kept_chunks: "P S \<Longrightarrow> send_chunks W S i cs = Inr S' \<Longrightarrow> P S'"
  by (induction cs arbitrary: S) (auto intro: kept_chunk)

lemma kept_tlv_response: "P S \<Longrightarrow> send_tlv_response W S i values = Inr S' \<Longrightarrow> P S'"
  by (auto simp: send_tlv_response_def Let_def split: if_splits intro: kept_client_send)

lemma kept_tlv_error: "P S \<Longrightarrow> send_tlv_error_response W S i state err = Inr S' \<Longrightarrow> P S'"
  by (auto simp: send_tlv_error_response_def intro: kept_tlv_response)

lemma kept_json_response: "P S \<Longrightarrow> send_json_response W S i code payload = Inr S' \<Longrightarrow> P S'"
  by (auto simp: send_json_response_def Let_def split: if_splits intro: kept_client_send)

lemma kept_json_error: "P S \<Longrightarrow> send_json_error_response W S i code status = Inr S' \<Longrightarrow> P S'"
  by (auto simp: send_json_error_response_def Let_def split: if_splits intro: kept_json_response)

lemmas kept_responses = kept_client_send kept_client_send_P kept_chunk kept_chunks kept_tlv_response
  kept_tlv_error kept_json_response kept_json_error

end

interpretation clients: kept_by_sending clients_ok
  by unfold_locales (auto intro: clients_ok_close)

text \<open>The identity of the accessory, its pairings and whether it is paired.\<close>

definition same_store :: "('w, 's, 'p, 'srp) homekit_server_t \<Rightarrow> ('w, 's, 'p, 'srp) homekit_server_t \<Rightarrow> bool" where
  "same_store S S' \<longleftrightarrow> sv_flash S' = sv_flash S \<and> sv_paired S' = sv_paired S \<and>
     sv_accessory_id S' = sv_accessory_id S \<and> sv_accessory_key S' = sv_accessory_key S \<and>
     sv_password S' = sv_password S"

lemma same_store_refl [simp]: "same_store S S"
  by (simp add: same_store_def)

lemma same_store_notify [simp]: "same_store S (HOMEKIT_NOTIFY_EVENT T e) = same_store S T"
  by (simp add: same_store_def HOMEKIT_NOTIFY_EVENT_def)

lemma same_store_close: "homekit_server_close_client T i = Inr T' \<Longrightarrow> same_store S T \<Longrightarrow> same_store S T'"
  by (auto simp: homekit_server_close_client_def pairing_context_free_def Let_def same_store_def
      HOMEKIT_NOTIFY_EVENT_def split: option.splits if_splits)

lemma same_store_set [simp]: "same_store S (set_client T i c) = same_store S T"
  by (simp add: same_store_def)

interpretation store: kept_by_sending "same_store S0" for S0
  by unfold_locales (auto intro: same_store_close)

section \<open>Nonces\<close>

lemma length_put_count [simp]: "length (put_count nonce i x) = length nonce"
  by (induction nonce i x rule: put_count.induct) (simp add: put_count.simps)

lemma put_count_nth:
  "k < length nonce \<Longrightarrow> put_count nonce i x ! k =
    (if i \<le> k \<and> x div 256 ^ (k - i) \<noteq> 0 then of_nat (x div 256 ^ (k - i) mod 256) else nonce ! k)"
proof (induction nonce i x rule: put_count.induct)
  case (1 nonce i x)
  show ?case
  proof (cases "x = 0")
    case True
    then show ?thesis by (simp add: put_count.simps)
  next
    case False
    note IH = 1(1) [OF False]
    show ?thesis
    proof (cases "i < k")
      case True
      then have "256 ^ (k - i) = (256 :: nat) * 256 ^ (k - Suc i)"
        by (metis Suc_diff_Suc power_Suc)
      then have "x div 256 div 256 ^ (k - (i + 1)) = x div 256 ^ (k - i)"
        by (simp add: div_mult2_eq)
      then show ?thesis
        using IH 1(2) True False by (simp add: put_count.simps [of nonce i x])
    next
      case False
      then show ?thesis
        using IH 1(2) \<open>x \<noteq> 0\<close> by (auto simp: put_count.simps [of nonce i x] nth_list_update)
    qed
  qed
qed

definition nonce_of :: "nat \<Rightarrow> byte list" where
  "nonce_of n = put_count (replicate 12 0) 4 n"

lemma length_nonce_of [simp]: "length (nonce_of n) = 12"
  by (simp add: nonce_of_def)

lemma nonce_of_nth:
  "k < 12 \<Longrightarrow> nonce_of n ! k = (if 4 \<le> k then of_nat (n div 256 ^ (k - 4) mod 256) else 0)"
  by (auto simp: nonce_of_def put_count_nth)

text \<open>The nonce is not cleared between two frames of a call; as the counter grows it need not be.\<close>

lemma nonce_reused: "m \<le> n \<Longrightarrow> put_count (nonce_of m) 4 n = nonce_of n"
proof (rule nth_equalityI)
  fix k assume m: "m \<le> n" and "k < length (put_count (nonce_of m) 4 n)"
  then have k: "k < 12" by simp
  have "m div 256 ^ (k - 4) = 0" if "n div 256 ^ (k - 4) = 0"
    using div_le_mono [OF m, of "256 ^ (k - 4)"] that by simp
  then show "put_count (nonce_of m) 4 n ! k = nonce_of n ! k"
    using k by (auto simp: put_count_nth nonce_of_nth)
qed simp

lemma digits_eq:
  "(\<And>d. d < k \<Longrightarrow> x div 256 ^ d mod 256 = y div 256 ^ d mod (256 :: nat)) \<Longrightarrow>
    x < 256 ^ k \<Longrightarrow> y < 256 ^ k \<Longrightarrow> x = y"
proof (induction k arbitrary: x y)
  case (Suc k)
  have "x div 256 = y div 256"
  proof (rule Suc.IH)
    show "x div 256 div 256 ^ d mod 256 = y div 256 div 256 ^ d mod 256" if "d < k" for d
      using Suc.prems(1) [of "Suc d"] that by (simp add: div_mult2_eq)
  qed (use Suc.prems in \<open>simp_all add: less_mult_imp_div_less mult.commute\<close>)
  moreover have "x mod 256 = y mod 256" using Suc.prems(1) [of 0] by simp
  ultimately show ?case by (metis div_mult_mod_eq)
qed simp

lemma nonce_of_inj:
  assumes "nonce_of m = nonce_of n" and "m < 2 ^ 31" and "n < 2 ^ 31"
  shows "m = n"
proof (rule digits_eq [where k = 4])
  show "m div 256 ^ d mod 256 = n div 256 ^ d mod 256" if "d < 4" for d
  proof -
    have "nonce_of m ! (d + 4) = nonce_of n ! (d + 4)" using assms(1) by simp
    then have "(of_nat (m div 256 ^ d mod 256) :: byte) = of_nat (n div 256 ^ d mod 256)"
      using that by (simp add: nonce_of_nth)
    from arg_cong [OF this, of unat] show ?thesis by (simp add: unat_of_nat)
  qed
qed (use assms(2,3) in simp_all)

section \<open>The stream of frames\<close>

text \<open>A frame: the length of the message in two bytes, which are authenticated, and the sealed message.\<close>

definition frame_size :: "byte list \<Rightarrow> byte list" where
  "frame_size m = [of_nat (length m mod 256), of_nat (length m div 256)]"

definition frame :: "byte list \<Rightarrow> nat \<Rightarrow> byte list \<Rightarrow> byte list" where
  "frame key n m = frame_size m @ sealed key (nonce_of n) (frame_size m) m"

function frames :: "byte list \<Rightarrow> nat \<Rightarrow> byte list \<Rightarrow> byte list" where
  "frames key n m = (if m = [] then [] else frame key n (take 1024 m) @ frames key (n + 1) (drop 1024 m))"
  by pat_completeness auto
termination
  by (relation "measure (\<lambda>(key, n, m). length m)") auto

declare frames.simps [simp del]

definition frame_count :: "byte list \<Rightarrow> nat" where
  "frame_count m = (length m + 1023) div 1024"

text \<open>What a controller does with the bytes it receives, from its counter \<open>n\<close> on.\<close>

function read_frames :: "byte list \<Rightarrow> nat \<Rightarrow> byte list \<Rightarrow> byte list option" where
  "read_frames key n x =
     (if x = [] then Some []
      else if length x < 18 then None
      else (let size = unat (x ! 0) + 256 * unat (x ! 1) in
            if length x < size + 18 then None
            else (case code_unseal [] key (nonce_of n) (take 2 x) (take (size + 16) (drop 2 x)) of
                    None \<Rightarrow> None
                  | Some m \<Rightarrow> map_option (append m) (read_frames key (n + 1) (drop (size + 18) x)))))"
  by pat_completeness auto
termination
  by (relation "measure (\<lambda>(key, n, x). length x)") auto

declare read_frames.simps [simp del]

lemma length_frame: "length key = 32 \<Longrightarrow> length (frame key n m) = length m + 18"
  by (simp add: frame_def frame_size_def length_sealed)

lemma frame_size_value:
  "length m \<le> 1024 \<Longrightarrow>
    unat (of_nat (length m mod 256) :: byte) + unat (of_nat (length m div 256) :: byte) * 256 = length m"
  by (simp add: unat_of_nat)

lemma read_frame:
  assumes k: "length key = 32" and m: "m \<noteq> []" "length m \<le> 1024"
  shows "read_frames key n (frame key n m @ x) = map_option (append m) (read_frames key (n + 1) x)"
proof -
  have "code_unseal [] (array32 key) (nonce_of n) (frame_size m) (sealed (array32 key) (nonce_of n) (frame_size m) m) = Some m"
    by (rule session.unseal_seal) (rule m(1))
  then have u: "code_unseal [] key (nonce_of n) (frame_size m) (sealed key (nonce_of n) (frame_size m) m) = Some m"
    by (simp add: array32_id k)
  have l: "length (sealed key (nonce_of n) (frame_size m) m) = length m + 16"
    by (rule length_sealed [OF k])
  have s: "unat ((frame key n m @ x) ! 0) + 256 * unat ((frame key n m @ x) ! 1) = length m"
    using frame_size_value [OF m(2)] by (simp add: frame_def frame_size_def)
  have t: "take 2 (frame key n m @ x) = frame_size m"
      "take (length m + 16) (drop 2 (frame key n m @ x)) = sealed key (nonce_of n) (frame_size m) m"
    using l by (simp_all add: frame_def frame_size_def)
  have d: "drop (length m + 18) (frame key n m @ x) = x"
    using length_frame [OF k, of n m] by simp
  show ?thesis
    unfolding read_frames.simps [of key n "frame key n m @ x"] Let_def s t d u
    using length_frame [OF k, of n m] by (auto simp del: length_0_conv)
qed

lemma read_frames_all: "length key = 32 \<Longrightarrow> read_frames key n (frames key n m) = Some m"
proof (induction key n m rule: frames.induct)
  case (1 key n m)
  show ?case
  proof (cases "m = []")
    case True
    then show ?thesis by (simp add: frames.simps read_frames.simps)
  next
    case False
    then have "read_frames key n (frames key n m) = map_option (append (take 1024 m)) (Some (drop 1024 m))"
      using 1 by (subst frames.simps) (simp add: read_frame)
    then show ?thesis by simp
  qed
qed

section \<open>Sending is framing\<close>

text \<open>A socket that takes whatever is written, and the bytes it has taken.\<close>

definition lossless :: "'s platform \<Rightarrow> ('s \<Rightarrow> byte list) \<Rightarrow> bool" where
  "lossless W sent \<longleftrightarrow> (\<forall>s d. sock_connected W s \<longrightarrow>
     (case sock_write W s d of (n, s') \<Rightarrow> n = length d \<and> sock_connected W s' \<and> sent s' = sent s @ d))"

definition writable :: "'s platform \<Rightarrow> ('s, 'p) client_context_t \<Rightarrow> bool" where
  "writable W c \<longleftrightarrow> (case cl_socket c of None \<Rightarrow> False | Some s \<Rightarrow> sock_connected W s) \<and> \<not> cl_error_write c"

text \<open>The bytes a client has been sent.\<close>

definition cl_sent :: "('s \<Rightarrow> byte list) \<Rightarrow> ('s, 'p) client_context_t \<Rightarrow> byte list" where
  "cl_sent sent c = (case cl_socket c of None \<Rightarrow> [] | Some s \<Rightarrow> sent s)"

lemma write_lossless:
  assumes "lossless W sent" and "points_to S i c" and "writable W c"
  shows "\<exists>s. write' W S i d = Inr (set_client S i (c\<lparr>cl_socket := Some s\<rparr>)) \<and> sock_connected W s \<and>
    sent s = cl_sent sent c @ d"
  using assms
  by (auto simp: write'_def writable_def lossless_def cl_sent_def client_simps split: option.splits prod.splits)

lemma frame_count_step:
  assumes "m \<noteq> []"
  shows "frame_count m = Suc (frame_count (drop 1024 m))"
proof (cases "length m \<le> 1024")
  case True
  moreover have "1 \<le> length m" using assms by (simp add: Suc_le_eq)
  ultimately have "(length m + 1023) div 1024 = 1" by (intro div_nat_eqI) auto
  then show ?thesis using True by (simp add: frame_count_def)
next
  case False
  then have "length m + 1023 = (length m - 1024 + 1023) + 1024" by simp
  then have "(length m + 1023) div 1024 = Suc ((length m - 1024 + 1023) div 1024)"
    by (metis div_add_self2 Suc_eq_plus1 zero_neq_numeral)
  then show ?thesis by (simp add: frame_count_def)
qed

lemma send_loop_frames:
  assumes "lossless W sent" and "points_to S i c" and "writable W c" and "length (cl_read_key c) = 32"
    and "nonce = replicate 12 0 \<or> (\<exists>k\<le>cl_count_reads c. nonce = nonce_of k)"
  shows "\<exists>s. send_encrypted_loop W S i nonce m =
      Inr (0, set_client S i (c\<lparr>cl_socket := s, cl_count_reads := cl_count_reads c + frame_count m\<rparr>)) \<and>
    writable W (c\<lparr>cl_socket := s\<rparr>) \<and>
    cl_sent sent (c\<lparr>cl_socket := s\<rparr>) = cl_sent sent c @ frames (cl_read_key c) (cl_count_reads c) m"
  using assms
proof (induction "cl_read_key c" "cl_count_reads c" m arbitrary: S c nonce rule: frames.induct)
  case (1 m c S nonce)
  show ?case
  proof (cases "m = []")
    case True
    then show ?thesis
      using 1 by (intro exI [of _ "cl_socket c"])
        (simp add: send_encrypted_loop.simps frame_count_def frames.simps points_to_def)
  next
    case False
    let ?k = "cl_read_key c" and ?n = "cl_count_reads c"
    let ?m = "take 1024 m" and ?c = "c\<lparr>cl_count_reads := cl_count_reads c + 1\<rparr>"
    let ?S = "set_client S i ?c"
    have size: "(if length m > 1024 then 1024 else length m) = length ?m"
      "take (length ?m) m = ?m" "drop (length ?m) m = drop 1024 m" by (auto simp: min_def)
    have nonce: "put_count nonce 4 ?n = nonce_of ?n"
      using 1(6) nonce_reused [of _ ?n] nonce_of_def by auto
    have enc: "crypto_chacha20poly1305_encrypt (junk_words W) ?k (nonce_of ?n) (frame_size ?m) ?m (Some 1040) =
        (0, Some (length ?m + 16), sealed ?k (nonce_of ?n) (frame_size ?m) ?m)"
      using False 1(5) by (intro encrypt_sealed) auto
    have out: "frame_size ?m @ take (length ?m + 16) (sealed ?k (nonce_of ?n) (frame_size ?m) ?m) = frame ?k ?n ?m"
      using length_sealed [OF 1(5), of "nonce_of ?n" "frame_size ?m" ?m] by (simp add: frame_def)
    obtain s where s: "write' W ?S i (frame ?k ?n ?m) = Inr (set_client ?S i (?c\<lparr>cl_socket := Some s\<rparr>))"
        "sock_connected W s" "sent s = cl_sent sent c @ frame ?k ?n ?m"
      using write_lossless [OF 1(2) points_to_set [OF 1(3)], of ?c] 1(4)
      by (auto simp: writable_def cl_sent_def)
    let ?d = "?c\<lparr>cl_socket := Some s\<rparr>" and ?T = "set_client S i (?c\<lparr>cl_socket := Some s\<rparr>)"
    have step: "send_encrypted_loop W S i nonce m = send_encrypted_loop W ?T i (nonce_of ?n) (drop 1024 m)"
      using False s(1) out
      by (subst send_encrypted_loop.simps)
        (simp add: points_to_client [OF 1(3)] nonce size enc Let_def frame_size_def [symmetric]
          set_client_twice del: length_take)
    have "\<exists>s'. send_encrypted_loop W ?T i (nonce_of ?n) (drop 1024 m) =
        Inr (0, set_client ?T i (?d\<lparr>cl_socket := s', cl_count_reads := cl_count_reads ?d + frame_count (drop 1024 m)\<rparr>)) \<and>
      writable W (?d\<lparr>cl_socket := s'\<rparr>) \<and>
      cl_sent sent (?d\<lparr>cl_socket := s'\<rparr>) = cl_sent sent ?d @ frames (cl_read_key ?d) (cl_count_reads ?d) (drop 1024 m)"
    proof (rule 1(1))
      show "nonce_of ?n = replicate 12 0 \<or> (\<exists>k\<le>cl_count_reads ?d. nonce_of ?n = nonce_of k)"
        by (intro disjI2 exI [of _ ?n]) simp
    qed (use False 1 s points_to_set [OF 1(3)] in \<open>simp_all add: writable_def\<close>)
    then show ?thesis
      using step s(3) False
      by (simp add: set_client_twice frame_count_step [of m] frames.simps [of ?k ?n m] cl_sent_def writable_def)
  qed
qed

definition idle_platform :: "byte list platform" where
  "idle_platform = \<lparr>sock_connected = (\<lambda>s. True), sock_write = (\<lambda>s d. (length d, s @ d)),
     sock_available = (\<lambda>s. 0), sock_read = (\<lambda>s n. ([], s)), junk_words = [], heap_alloc = (\<lambda>n. Some (replicate n 0))\<rparr>"

lemma send_frames:
  assumes "lossless W sent" and "points_to S i c" and "writable W c" and "length (cl_read_key c) = 32"
    and "cl_encrypted c"
  shows "\<exists>s. client_send W S i m =
      Inr (set_client S i (c\<lparr>cl_socket := s, cl_count_reads := cl_count_reads c + frame_count m\<rparr>)) \<and>
    writable W (c\<lparr>cl_socket := s\<rparr>) \<and>
    cl_sent sent (c\<lparr>cl_socket := s\<rparr>) = cl_sent sent c @ frames (cl_read_key c) (cl_count_reads c) m"
  using send_loop_frames [OF assms(1-4), of "replicate 12 0" m] assms(5)
  by (auto simp: client_send_def client_send_encrypted'_def points_to_client [OF assms(2)])

section \<open>Receiving\<close>

text \<open>One turn of the loop, on a whole frame that the other side has sealed.\<close>

lemma decrypt_loop_frame:
  assumes k: "length (cl_write_key c) = 32" and m: "m \<noteq> []" "length m \<le> 1024"
    and x: "take (length m + 18) (drop off data) = frame (cl_write_key c) (cl_count_writes c) m"
    and l: "off + length m + 18 \<le> sz" "sz \<le> length data" "length m \<le> dsize - doff" "length m \<le> length dec"
    and n: "nonce = replicate 12 0 \<or> (\<exists>j\<le>cl_count_writes c. nonce = nonce_of j)"
  shows "decrypt_loop junk c data sz nonce off doff dsize dec =
    decrypt_loop junk (c\<lparr>cl_count_writes := cl_count_writes c + 1\<rparr>) data sz (nonce_of (cl_count_writes c))
      (off + length m + 18) (doff + length m) dsize (m @ drop (length m) dec)"
proof -
  let ?k = "cl_write_key c" and ?n = "cl_count_writes c"
  let ?f = "frame ?k ?n m" and ?x = "sealed ?k (nonce_of ?n) (frame_size m) m"
  have nonce: "put_count nonce 4 ?n = nonce_of ?n"
    using n nonce_reused [of _ ?n] nonce_of_def by auto
  have lx: "length ?x = length m + 16" by (rule length_sealed [OF k])
  have "data ! off = ?f ! 0" "data ! (off + 1) = ?f ! 1"
    using l by (simp_all add: x [symmetric])
  then have chunk: "unat (data ! off) + unat (data ! (off + 1)) * 256 = length m"
    using frame_size_value [OF m(2)] by (simp add: frame_def frame_size_def)
  have f: "take 2 (drop off data) = take 2 ?f"
      "take (length m + 16) (drop (off + 2) data) = take (length m + 16) (drop 2 ?f)"
    by (simp_all add: x [symmetric] take_drop add.commute min_def)
  have t: "take 2 (drop off data) = frame_size m" "take (length m + 16) (drop (off + 2) data) = ?x"
    using lx unfolding f by (simp_all add: frame_def frame_size_def numeral_2_eq_2)
  have "code_unseal junk ?k (nonce_of ?n) (frame_size m) ?x = Some m"
    by (rule code_unseal_sealed [OF k m(1)])
  then have dec: "crypto_chacha20poly1305_decrypt junk ?k (nonce_of ?n) (frame_size m) ?x (Some (dsize - doff))
      = (0, Some (length m), m)"
    using lx m(1) l by (auto simp: code_unseal_def decrypt_cases [OF k] Let_def error_codes split: if_splits)
  have "off < sz" "\<not> length data \<le> off + 1" "\<not> sz - off < length m + 18" using l by linarith+
  then show ?thesis
    unfolding decrypt_loop.simps [of junk c data sz nonce off doff dsize dec] Let_def chunk nonce t
    using l by (simp add: dec)
qed

lemma decrypt_loop_end [simp]:
  "sz \<le> off \<Longrightarrow> decrypt_loop junk c data sz nonce off doff dsize dec = Inr (int off, c, dec)"
  by (simp add: decrypt_loop.simps)

lemma required_small: "18 \<le> n \<Longrightarrow> n < 1042 \<Longrightarrow> required_decrypted_size n = n - 18"
proof -
  assume "18 \<le> n" and n: "n < 1042"
  then obtain k where k: "n = k + 18" by (metis le_add_diff_inverse2)
  then have "n + 2 ^ 32 - 16 - 2 = k + 2 ^ 32" by simp
  then show ?thesis using n k by (simp add: required_decrypted_size_def Let_def)
qed

lemma required_full: "required_decrypted_size 1042 = 1024"
  by (simp add: required_decrypted_size_def)

lemma required_one: "m \<noteq> [] \<Longrightarrow> length m \<le> 1024 \<Longrightarrow> required_decrypted_size (length m + 18) = length m"
  using required_small [of "length m + 18"] required_full by (cases "length m = 1024") auto

text \<open>A frame that arrives alone and whole is opened.\<close>

lemma decrypt_one_frame:
  assumes k: "length (cl_write_key c) = 32" and m: "m \<noteq> []" "length m \<le> 1024" and e: "cl_encrypted c"
    and x: "take (length m + 18) data = frame (cl_write_key c) (cl_count_writes c) m"
    and l: "length m + 18 \<le> length data" "length dec = length m"
  shows "client_decrypt' junk c data (length m + 18) [] 0 = Inr (- 2, c, [], length m)"
    and "client_decrypt' junk c data (length m + 18) dec (length m) =
      Inr (int (length m + 18), c\<lparr>cl_count_writes := cl_count_writes c + 1\<rparr>, m, length m)"
  using decrypt_loop_frame [OF k m, of 0 data "length m + 18" "length m" 0 dec "replicate 12 0" junk] assms
  by (simp_all add: client_decrypt'_def required_one Let_def)

text \<open>Two frames that arrive together: the second one is written over the first.\<close>

lemma decrypt_two_frames:
  assumes k: "length (cl_write_key c) = 32" and m: "m1 \<noteq> []" "m2 \<noteq> []" and e: "cl_encrypted c"
    and n: "n = length m1 + length m2 + 36" "n \<le> 1042" "n \<le> length data" "length dec = n - 18"
    and x: "take (length m1 + 18) data = frame (cl_write_key c) (cl_count_writes c) m1"
      "take (length m2 + 18) (drop (length m1 + 18) data) = frame (cl_write_key c) (cl_count_writes c + 1) m2"
  shows "client_decrypt' junk c data n [] 0 = Inr (- 2, c, [], n - 18)"
    and "client_decrypt' junk c data n dec (n - 18) =
      Inr (int n, c\<lparr>cl_count_writes := cl_count_writes c + 2\<rparr>,
        m2 @ drop (length m2) (m1 @ drop (length m1) dec), n - 18)"
proof -
  let ?c = "c\<lparr>cl_count_writes := cl_count_writes c + 1\<rparr>"
  have r: "required_decrypted_size n = n - 18"
    using n required_small [of n] required_full by (cases "n = 1042") auto
  have "decrypt_loop junk c data n (replicate 12 0) 0 0 (n - 18) dec =
      decrypt_loop junk ?c data n (nonce_of (cl_count_writes c)) (0 + length m1 + 18) (0 + length m1) (n - 18)
        (m1 @ drop (length m1) dec)"
    by (rule decrypt_loop_frame) (use assms in auto)
  also have "\<dots> = decrypt_loop junk (?c\<lparr>cl_count_writes := cl_count_writes ?c + 1\<rparr>) data n
      (nonce_of (cl_count_writes ?c)) (0 + length m1 + 18 + length m2 + 18) (0 + length m1 + length m2) (n - 18)
        (m2 @ drop (length m2) (m1 @ drop (length m1) dec))"
  proof (rule decrypt_loop_frame)
    show "nonce_of (cl_count_writes c) = replicate 12 0 \<or>
        (\<exists>j\<le>cl_count_writes ?c. nonce_of (cl_count_writes c) = nonce_of j)"
      by (intro disjI2 exI [of _ "cl_count_writes c"]) simp
  qed (use assms in auto)
  finally have "decrypt_loop junk c data n (replicate 12 0) 0 0 (n - 18) dec =
      Inr (int n, c\<lparr>cl_count_writes := cl_count_writes c + 2\<rparr>,
        m2 @ drop (length m2) (m1 @ drop (length m1) dec))"
    using n(1) by (simp add: numeral_2_eq_2)
  then show "client_decrypt' junk c data n [] 0 = Inr (- 2, c, [], n - 18)"
    and "client_decrypt' junk c data n dec (n - 18) =
      Inr (int n, c\<lparr>cl_count_writes := cl_count_writes c + 2\<rparr>,
        m2 @ drop (length m2) (m1 @ drop (length m1) dec), n - 18)"
    using e r n m by (auto simp: client_decrypt'_def Let_def)
qed

text \<open>Fewer than 18 bytes: the size wraps, and the second call, with that size, reads no frame.\<close>

lemma required_short: "0 < n \<Longrightarrow> n < 18 \<Longrightarrow> required_decrypted_size n = 2 ^ 32 + n - 18"
  by (simp add: required_decrypted_size_def Let_def)

lemma decrypt_short:
  assumes "0 < n" and "n < 18" and "cl_encrypted c" and "1 < length data"
  shows "client_decrypt' junk c data n [] 0 = Inr (- 2, c, [], 2 ^ 32 + n - 18)"
    and "client_decrypt' junk c data n dec (2 ^ 32 + n - 18) = Inr (0, c, dec, 2 ^ 32 + n - 18)"
  using assms by (simp_all add: client_decrypt'_def required_short decrypt_loop.simps Let_def)

section \<open>Properties\<close>

text \<open>
  C17: What is sent to a client with a secure session arrives: the bytes handed to a socket that takes
  everything are frames, and a reader with the same key and the same counter gets the text back.  The
  counter moves on by the number of frames, so that no nonce is used twice.
\<close>

theorem session_send_delivers:
  assumes "lossless W sent" and "clients_ok S" and "client S i = Inr c" and "writable W c"
    and "length (cl_read_key c) = 32" and "cl_encrypted c"
  shows "\<exists>S' c' out. client_send W S i m = Inr S' \<and> client S' i = Inr c' \<and> writable W c' \<and>
    cl_sent sent c' = cl_sent sent c @ out \<and>
    read_frames (cl_read_key c) (cl_count_reads c) out = Some m \<and>
    cl_count_reads c' = cl_count_reads c + frame_count m \<and> inj_on nonce_of {..<2 ^ 31}"
proof -
  have p: "points_to S i c" using assms(2,3) by (intro points_toI) (simp_all add: clients_ok_def)
  obtain s where s: "client_send W S i m =
      Inr (set_client S i (c\<lparr>cl_socket := s, cl_count_reads := cl_count_reads c + frame_count m\<rparr>))"
    "writable W (c\<lparr>cl_socket := s\<rparr>)"
    "cl_sent sent (c\<lparr>cl_socket := s\<rparr>) = cl_sent sent c @ frames (cl_read_key c) (cl_count_reads c) m"
    using send_frames [OF assms(1) p assms(4-6)] by blast
  let ?c = "c\<lparr>cl_socket := s, cl_count_reads := cl_count_reads c + frame_count m\<rparr>"
  have "client (set_client S i ?c) i = Inr ?c" by (rule client_set_same [OF assms(3)])
  moreover have "writable W ?c" "cl_sent sent ?c = cl_sent sent c @ frames (cl_read_key c) (cl_count_reads c) m"
    using s(2,3) by (simp_all add: writable_def cl_sent_def)
  moreover have "inj_on nonce_of {..<2 ^ 31}" by (auto simp: inj_on_def dest: nonce_of_inj)
  ultimately show ?thesis
    using s(1) read_frames_all [OF assms(5), of "cl_count_reads c" m]
    by (intro exI [of _ "set_client S i ?c"] exI [of _ ?c]
        exI [of _ "frames (cl_read_key c) (cl_count_reads c) m"]) simp
qed

text \<open>A server with one client, for the witnesses.\<close>

definition sample_client :: "(byte list, unit) client_context_t" where
  "sample_client =
     \<lparr>cl_socket = Some [], cl_endpoint = HOMEKIT_ENDPOINT_UNKNOWN, cl_endpoint_params = None, cl_data = replicate 1042 0,
      cl_data_available = 0, cl_body = None, cl_parser = (), cl_pairing_id = 0, cl_permissions = 1,
      cl_disconnect = False, cl_current_characteristic = None, cl_current_value = None, cl_encrypted = True,
      cl_read_key = replicate 32 7, cl_write_key = replicate 32 9, cl_count_reads = 3, cl_count_writes = 5,
      cl_event_queue = None, cl_verify_context = None, cl_step = HOMEKIT_CLIENT_STEP_NONE, cl_error_write = False\<rparr>"

definition sample_server :: "'w \<Rightarrow> ('w, byte list, unit, 'srp) homekit_server_t" where
  "sample_server w =
     \<lparr>sv_flash = w, sv_accessory_id = replicate 17 0x41, sv_accessory_key = sample_key, sv_accessories = [],
      sv_category = 1, sv_config_number = 1, sv_password = Some ''111-11-111'', sv_setupId = None, sv_on_event = False,
      sv_events = [], sv_paired = True, sv_saved_preinit = None, sv_pairing = False, sv_nfds = 1,
      sv_clients = [(0, sample_client)], sv_next = 1\<rparr>"

lemma sample_server_ok [simp]:
  "clients_ok (sample_server w)" "client (sample_server w) 0 = Inr sample_client"
  "writable idle_platform sample_client" "length (cl_read_key sample_client) = 32"
  "length (cl_write_key sample_client) = 32" "cl_encrypted sample_client"
  by (simp_all add: clients_ok_def sample_server_def client_def writable_def sample_client_def
      idle_platform_def HOMEKIT_MAX_CLIENTS_def)

lemma idle_lossless [simp]: "lossless idle_platform id"
  by (simp add: lossless_def idle_platform_def)

lemma session_send_delivers_witness:
  "\<exists>S' c' out. client_send idle_platform (sample_server ()) 0 [1, 2, 3] = Inr S' \<and> client S' 0 = Inr c' \<and>
    writable idle_platform c' \<and> cl_sent id c' = cl_sent id sample_client @ out \<and>
    read_frames (cl_read_key sample_client) (cl_count_reads sample_client) out = Some [1, 2, 3] \<and>
    cl_count_reads c' = cl_count_reads sample_client + frame_count [1, 2, 3] \<and> inj_on nonce_of {..<2 ^ 31}"
  by (rule session_send_delivers) simp_all

text \<open>
  C18: A frame of the controller that arrives alone is opened: the first call of \<open>client_decrypt_\<close> asks for
  the size of its text, the second one, with a buffer of that size, returns the text and consumes the
  whole frame.
\<close>

theorem session_receive_frame:
  assumes "length (cl_write_key c) = 32" and "m \<noteq> []" and "length m \<le> 1024" and "cl_encrypted c"
    and "take (length m + 18) data = frame (cl_write_key c) (cl_count_writes c) m"
    and "length m + 18 \<le> length data" and "length buf = length m"
  shows "client_decrypt' junk c data (length m + 18) [] 0 = Inr (- 2, c, [], length m) \<and>
    client_decrypt' junk c data (length m + 18) buf (length m) =
      Inr (int (length m + 18), c\<lparr>cl_count_writes := cl_count_writes c + 1\<rparr>, m, length m)"
  using decrypt_one_frame [OF assms] by blast

lemma session_receive_frame_witness:
  "client_decrypt' [] sample_client (frame (replicate 32 9) 5 [1, 2]) (length [1, 2 :: byte] + 18) [] 0 =
      Inr (- 2, sample_client, [], length [1, 2 :: byte]) \<and>
    client_decrypt' [] sample_client (frame (replicate 32 9) 5 [1, 2]) (length [1, 2 :: byte] + 18) [0, 0] (length [1, 2 :: byte]) =
      Inr (int (length [1, 2 :: byte] + 18), sample_client\<lparr>cl_count_writes := cl_count_writes sample_client + 1\<rparr>, [1, 2],
        length [1, 2 :: byte])"
  by (rule session_receive_frame) (simp_all add: sample_client_def length_frame)

text \<open>
  Two frames that arrive together are both opened into the start of the buffer: the second text is
  written over the first one, and what follows it is left from the first one and the unused memory.
\<close>

theorem session_batch_overwrites:
  assumes "length (cl_write_key c) = 32" and "m1 \<noteq> []" and "m2 \<noteq> []" and "cl_encrypted c"
    and "n = length m1 + length m2 + 36" and "n \<le> 1042" and "n \<le> length data" and "length buf = n - 18"
    and "take (length m1 + 18) data = frame (cl_write_key c) (cl_count_writes c) m1"
    and "take (length m2 + 18) (drop (length m1 + 18) data) = frame (cl_write_key c) (cl_count_writes c + 1) m2"
  shows "client_decrypt' junk c data n buf (n - 18) =
    Inr (int n, c\<lparr>cl_count_writes := cl_count_writes c + 2\<rparr>,
      m2 @ drop (length m2) (m1 @ drop (length m1) buf), n - 18)"
  by (rule decrypt_two_frames(2) [OF assms])

lemma session_batch_overwrites_witness:
  "client_decrypt' [] sample_client (frame (replicate 32 9) 5 [1, 2] @ frame (replicate 32 9) 6 [3]) 39
      (replicate 21 0) (39 - 18) =
    Inr (39, sample_client\<lparr>cl_count_writes := cl_count_writes sample_client + 2\<rparr>,
      [3] @ drop (length [3 :: byte]) ([1, 2] @ drop (length [1, 2 :: byte]) (replicate 21 0)), 39 - 18)"
  using session_batch_overwrites [of sample_client "[1, 2]" "[3]" 39
      "frame (replicate 32 9) 5 [1, 2] @ frame (replicate 32 9) 6 [3]" "replicate 21 0" "[]"]
  by (simp add: sample_client_def length_frame)

end
