(* ===== verification/Curve_Keys.thy ===== *)
theory Curve_Keys
  imports Ed25519
begin

text \<open>
  Curve25519 keys: \<open>src/wolfcrypt/src/curve25519.c\<close> and the wrappers of \<open>src/crypto.c\<close> that pair verify
  calls, all in little-endian form.  The multiplication of a point by a scalar, \<open>curve25519\<close> of
  \<open>fe_operations.c\<close>, is the parameter \<open>curve\<close>, a function of the private value and the point.
\<close>

section \<open>The library\<close>

definition ECC_BAD_ARG_E :: int where "ECC_BAD_ARG_E = - 170"
definition CURVE25519_KEYSIZE :: nat where "CURVE25519_KEYSIZE = 32"

record curve25519_key =
  ck_p :: "byte list"
  ck_k :: "byte list"

definition wc_curve25519_init :: curve25519_key where
  "wc_curve25519_init = \<lparr>ck_p = replicate 32 0, ck_k = replicate 32 0\<rparr>"

definition clamp_curve :: "byte list \<Rightarrow> byte list" where
  "clamp_curve k = (let k = k[0 := k ! 0 AND 248]; k = k[31 := k ! 31 AND 63] in k[31 := k ! 31 OR 64])"

definition basepoint :: "byte list" where
  "basepoint = 9 # replicate 31 0"

text \<open>\<open>rng\<close> is the code of the random number generator and the block it fills.\<close>

definition wc_curve25519_make_key ::
  "(byte list \<Rightarrow> byte list \<Rightarrow> byte list) \<Rightarrow> int \<times> byte list \<Rightarrow> nat \<Rightarrow> curve25519_key \<Rightarrow> int \<times> curve25519_key" where
  "wc_curve25519_make_key curve rng keysize key =
     (if keysize \<noteq> CURVE25519_KEYSIZE then (ECC_BAD_ARG_E, key)
      else (let key = key\<lparr>ck_k := take 32 (snd rng)\<rparr> in
        if fst rng \<noteq> 0 then (fst rng, key)
        else (let k = clamp_curve (ck_k key) in (0, key\<lparr>ck_k := k, ck_p := curve k basepoint\<rparr>))))"

text \<open>\<open>n\<close> is the size of the buffer; the code, the size stored and the bytes written.\<close>

definition wc_curve25519_shared_secret_ex ::
  "(byte list \<Rightarrow> byte list \<Rightarrow> byte list) \<Rightarrow> curve25519_key \<Rightarrow> curve25519_key \<Rightarrow> nat \<Rightarrow> int \<times> nat \<times> byte list" where
  "wc_curve25519_shared_secret_ex curve private_key public_key n =
     (if n < CURVE25519_KEYSIZE then (BAD_FUNC_ARG, n, [])
      else if ck_p public_key ! 31 > 0x7F then (ECC_BAD_ARG_E, n, [])
      else (0, CURVE25519_KEYSIZE, curve (ck_k private_key) (ck_p public_key)))"

definition wc_curve25519_export_public_ex :: "curve25519_key \<Rightarrow> nat \<Rightarrow> int \<times> nat \<times> byte list" where
  "wc_curve25519_export_public_ex key n =
     (if n < CURVE25519_KEYSIZE then (ECC_BAD_ARG_E, CURVE25519_KEYSIZE, [])
      else (0, CURVE25519_KEYSIZE, ck_p key))"

definition wc_curve25519_import_public_ex :: "byte list \<Rightarrow> curve25519_key \<Rightarrow> int \<times> curve25519_key" where
  "wc_curve25519_import_public_ex inp key =
     (if length inp \<noteq> CURVE25519_KEYSIZE then (ECC_BAD_ARG_E, key) else (0, key\<lparr>ck_p := inp\<rparr>))"

definition wc_curve25519_free :: "curve25519_key \<Rightarrow> curve25519_key" where
  "wc_curve25519_free key = key\<lparr>ck_p := replicate 32 0, ck_k := replicate 32 0\<rparr>"

section \<open>The wrappers of crypto.c\<close>

definition crypto_curve25519_init :: "int \<times> curve25519_key" where
  "crypto_curve25519_init = (0, wc_curve25519_init)"

definition crypto_curve25519_done :: "curve25519_key \<Rightarrow> curve25519_key" where
  "crypto_curve25519_done key = wc_curve25519_free key"

definition crypto_curve25519_generate ::
  "(byte list \<Rightarrow> byte list \<Rightarrow> byte list) \<Rightarrow> int \<times> byte list \<Rightarrow> int \<times> curve25519_key" where
  "crypto_curve25519_generate curve rng =
     (let (r, key) = crypto_curve25519_init in
      if r \<noteq> 0 then (r, key)
      else (let (r, key) = wc_curve25519_make_key curve rng 32 key in
        if r \<noteq> 0 then (- 1, crypto_curve25519_done key) else (0, key)))"

definition crypto_curve25519_import_public :: "curve25519_key \<Rightarrow> byte list \<Rightarrow> int \<times> curve25519_key" where
  "crypto_curve25519_import_public key data = wc_curve25519_import_public_ex data key"

definition crypto_curve25519_export_public :: "curve25519_key \<Rightarrow> nat \<Rightarrow> int \<times> nat \<times> byte list" where
  "crypto_curve25519_export_public key n =
     (if n = 0 then wc_curve25519_export_public_ex key 0 else wc_curve25519_export_public_ex key n)"

definition crypto_curve25519_shared_secret ::
  "(byte list \<Rightarrow> byte list \<Rightarrow> byte list) \<Rightarrow> curve25519_key \<Rightarrow> curve25519_key \<Rightarrow> nat \<Rightarrow> int \<times> nat \<times> byte list" where
  "crypto_curve25519_shared_secret curve private_key public_key n =
     (if n < CURVE25519_KEYSIZE then (- 2, CURVE25519_KEYSIZE, [])
      else wc_curve25519_shared_secret_ex curve private_key public_key n)"

section \<open>A key agreement\<close>

text \<open>What the two sides rely on: their secrets are the same.\<close>

definition curve_agrees :: "(byte list \<Rightarrow> byte list \<Rightarrow> byte list) \<Rightarrow> bool" where
  "curve_agrees curve \<longleftrightarrow> (\<forall>a b. curve a (curve b basepoint) = curve b (curve a basepoint)) \<and>
     (\<forall>a p. length (curve a p) = 32 \<and> curve a p ! 31 \<le> 0x7F)"

lemma generate_key:
  "crypto_curve25519_generate curve (0, seed) =
    (0, \<lparr>ck_p = curve (clamp_curve (take 32 seed)) basepoint, ck_k = clamp_curve (take 32 seed)\<rparr>)"
  by (simp add: crypto_curve25519_generate_def crypto_curve25519_init_def wc_curve25519_make_key_def
      CURVE25519_KEYSIZE_def wc_curve25519_init_def Let_def)

lemma export_key:
  "crypto_curve25519_export_public key 0 = (ECC_BAD_ARG_E, 32, [])"
  "crypto_curve25519_export_public key 32 = (0, 32, ck_p key)"
  by (simp_all add: crypto_curve25519_export_public_def wc_curve25519_export_public_ex_def CURVE25519_KEYSIZE_def)

lemma import_key:
  "length data = 32 \<Longrightarrow> crypto_curve25519_import_public key data = (0, key\<lparr>ck_p := data\<rparr>)"
  "length data \<noteq> 32 \<Longrightarrow> crypto_curve25519_import_public key data = (ECC_BAD_ARG_E, key)"
  by (simp_all add: crypto_curve25519_import_public_def wc_curve25519_import_public_ex_def CURVE25519_KEYSIZE_def)

lemma shared_secret:
  "crypto_curve25519_shared_secret curve a b 0 = (- 2, 32, [])"
  "crypto_curve25519_shared_secret curve a b 32 =
    (if ck_p b ! 31 > 0x7F then (ECC_BAD_ARG_E, 32, []) else (0, 32, curve (ck_k a) (ck_p b)))"
  by (simp_all add: crypto_curve25519_shared_secret_def wc_curve25519_shared_secret_ex_def CURVE25519_KEYSIZE_def)

lemmas curve_keys = generate_key export_key import_key shared_secret

text \<open>A curve for the witnesses: scalars and points are bytes, and multiplication is exclusive or.\<close>

definition toy_curve :: "byte list \<Rightarrow> byte list \<Rightarrow> byte list" where
  "toy_curve a p = ((a ! 0 XOR p ! 0) # replicate 31 0)"

lemma toy_curve_agrees: "curve_agrees toy_curve"
  by (simp add: curve_agrees_def toy_curve_def basepoint_def xor.left_commute nth_Cons')

end
