(* ===== verification/Pairings.thy ===== *)
theory Pairings
  imports Session Curve_Keys
begin

text \<open>
  The management of pairings, \<open>homekit_server_on_pairings\<close> of \<open>src/arduino_homekit_server.cpp\<close>: adding,
  removing and listing pairings.  Each branch of the handler is a definition.  The surroundings of the
  server are a parameter: the flash of the board, the curve primitives, the sockets, what the
  uninitialised locals \<open>pairing\<close> and \<open>verified\<close> hold, and what the hardware random number generator
  delivers to the operation (a salt of 16 bytes, a private value of 32 bytes and single numbers).
\<close>

record ('w, 's, 'p3, 'p2) hk_env =
  en_board :: "'w board"
  en_prims :: "('p3, 'p2) ed_prims"
  en_plat :: "'s platform"
  en_pairing :: pairing
  en_verified :: int
  en_curve :: "byte list \<Rightarrow> byte list \<Rightarrow> byte list"
  en_salt :: "byte list"
  en_seed :: "byte list"
  en_random :: "nat \<Rightarrow> u32"

section \<open>The handler\<close>

text \<open>The answer with state 2 and nothing else.\<close>

definition send_state_2 ::
  "('w, 's, 'p3, 'p2) hk_env \<Rightarrow> ('w, 's, 'p, 'srp) homekit_server_t \<Rightarrow> nat \<Rightarrow> fault + ('w, 's, 'p, 'srp) homekit_server_t"
  where
  "send_state_2 E S i =
     bind_res (tlv_add_integer_value tlv_new TLVType_State 1 2) (\<lambda>response. send_tlv_response (en_plat E) S i response)"

definition is_admin :: "byte \<Rightarrow> bool" where
  "is_admin permissions \<longleftrightarrow> permissions AND pairing_permissions_admin \<noteq> 0"

text \<open>
  A device that is stored already.  The two blocks that find the keys different do not leave the
  branch: what they freed is used again.
\<close>

definition update_known_pairing ::
  "('w, 's, 'p3, 'p2) hk_env \<Rightarrow> ('w, 's, 'p, 'srp) homekit_server_t \<Rightarrow> nat \<Rightarrow> pairing \<Rightarrow> byte list \<Rightarrow> byte list \<Rightarrow> u32 \<Rightarrow>
   fault + ('w, 's, 'p, 'srp) homekit_server_t" where
  "update_known_pairing E S i pairing device_identifier public_key device_permissions =
     (let (_, n, _) = crypto_ed25519_export_public_key (p_device_key pairing) (Some 0);
          (r, n, pairing_public_key) = crypto_ed25519_export_public_key (p_device_key pairing) n in
      if r \<noteq> 0 then
        bind_res (send_tlv_error_response (en_plat E) S i 2 TLVError_Unknown) (\<lambda>S.
          Inl (if the n \<noteq> length public_key then Double_free else Dangling))
      else if the n \<noteq> length public_key \<or> public_key \<noteq> pairing_public_key then
        bind_res (send_tlv_error_response (en_plat E) S i 2 TLVError_Unknown) (\<lambda>S. Inl Double_free)
      else
        bind_res (homekit_storage_update_pairing (en_board E) (sv_flash S) device_identifier (ucast device_permissions))
          (\<lambda>(r, w). let S = S\<lparr>sv_flash := w\<rparr> in
            if r \<noteq> 0 then send_tlv_error_response (en_plat E) S i 2 TLVError_Unknown
            else send_state_2 E S i))"

definition add_new_pairing ::
  "('w, 's, 'p3, 'p2) hk_env \<Rightarrow> ('w, 's, 'p, 'srp) homekit_server_t \<Rightarrow> nat \<Rightarrow> byte list \<Rightarrow> ed25519_key \<Rightarrow> u32 \<Rightarrow>
   fault + ('w, 's, 'p, 'srp) homekit_server_t" where
  "add_new_pairing E S i device_identifier device_key device_permissions =
     (if \<not> homekit_storage_can_add_pairing (en_board E) (sv_flash S) then
        send_tlv_error_response (en_plat E) S i 2 TLVError_MaxPeers
      else
        bind_res (homekit_storage_add_pairing (en_board E) (sv_flash S) device_identifier device_key
            (ucast device_permissions))
          (\<lambda>(r, w). let S = S\<lparr>sv_flash := w\<rparr> in
            if r \<noteq> 0 then send_tlv_error_response (en_plat E) S i 2 TLVError_Unknown
            else send_state_2 E (HOMEKIT_NOTIFY_EVENT S HOMEKIT_EVENT_PAIRING_ADDED) i))"

definition on_add_pairing ::
  "('w, 's, 'p3, 'p2) hk_env \<Rightarrow> ('w, 's, 'p, 'srp) homekit_server_t \<Rightarrow> nat \<Rightarrow> tlv_values \<Rightarrow>
   fault + ('w, 's, 'p, 'srp) homekit_server_t" where
  "on_add_pairing E S i message =
     bind_res (client S i) (\<lambda>c.
       let err = send_tlv_error_response (en_plat E) S i 2 in
       if \<not> is_admin (cl_permissions c) then err TLVError_Authentication
       else case tlv_get_value message TLVType_Identifier of
         None \<Rightarrow> err TLVError_Unknown
       | Some tlv_device_identifier \<Rightarrow>
           (case tlv_get_value message TLVType_PublicKey of
              None \<Rightarrow> err TLVError_Unknown
            | Some tlv_device_public_key \<Rightarrow>
                (let device_permissions = tlv_get_integer_value message TLVType_Permissions (- 1) in
                 if device_permissions = - 1 then err TLVError_Unknown
                 else (let (r, device_key) = crypto_ed25519_import_public_key (en_prims E) (snd crypto_ed25519_init)
                             (Some (tlv_value tlv_device_public_key)) in
                   if r \<noteq> 0 then err TLVError_Unknown
                   else (let device_identifier = strndup 0 (tlv_value tlv_device_identifier)
                               (tlv_size tlv_device_identifier);
                             (r, pairing) = homekit_storage_find_pairing (en_board E) (en_prims E) (sv_flash S)
                               device_identifier (en_pairing E) in
                     if r = 0 then update_known_pairing E S i pairing device_identifier
                       (tlv_value tlv_device_public_key) device_permissions
                     else add_new_pairing E S i device_identifier device_key device_permissions)))))"

text \<open>Each call of the iterator moves on, so that the loops over it end.\<close>

lemma next_loop_progress:
  "next_loop B P w idx d pairing = (r, idx', pairing') \<Longrightarrow> r = 0 \<Longrightarrow> idx < idx' \<and> idx' \<le> MAX_PAIRINGS"
proof (induction B P w idx d pairing rule: next_loop.induct)
  case (1 B P w idx d pairing)
  note IH = 1(1,2) and res = 1(3) and ok = 1(4)
  show ?case
  proof (cases "idx < MAX_PAIRINGS")
    case True
    obtain b d' where d: "spi_flash_read B w (pairing_addr B idx) d = (b, d')" by fastforce
    obtain r' q where q: "load_pairing P idx d' pairing = (r', q)" by fastforce
    show ?thesis
      using IH(1) [OF True refl d [symmetric] _ refl q [symmetric]] IH(2) [OF True refl d [symmetric]]
        res ok True d q
      unfolding next_loop.simps [of B P w idx d pairing]
      by (auto split: if_splits)
  next
    case False
    then show ?thesis using res ok by (simp add: next_loop.simps)
  qed
qed

lemma next_pairing_progress:
  "homekit_storage_next_pairing B P w idx pairing = (0, idx', pairing') \<Longrightarrow> idx < idx' \<and> idx' \<le> MAX_PAIRINGS"
  by (auto simp: homekit_storage_next_pairing_def dest: next_loop_progress)

text \<open>The loop that looks for an administrator.\<close>

function admin_found ::
  "('w, 's, 'p3, 'p2) hk_env \<Rightarrow> 'w \<Rightarrow> nat \<Rightarrow> pairing \<Rightarrow> bool" where
  "admin_found E w idx pairing =
     (let (r, idx, pairing) = homekit_storage_next_pairing (en_board E) (en_prims E) w idx pairing in
      if r \<noteq> 0 then False
      else if is_admin (p_permissions pairing) then True
      else admin_found E w idx pairing)"
  by pat_completeness auto
termination
  by (relation "measure (\<lambda>(E, w, idx, pairing). MAX_PAIRINGS - idx)")
    (auto dest!: sym [of _ "homekit_storage_next_pairing _ _ _ _ _"] next_pairing_progress)

declare admin_found.simps [simp del]

definition disconnect_pairing ::
  "int \<Rightarrow> ('w, 's, 'p, 'srp) homekit_server_t \<Rightarrow> ('w, 's, 'p, 'srp) homekit_server_t" where
  "disconnect_pairing pid S =
     S\<lparr>sv_clients := map (\<lambda>(j, c). (j, if cl_pairing_id c = pid then c\<lparr>cl_disconnect := True\<rparr> else c)) (sv_clients S)\<rparr>"

definition remove_known_pairing ::
  "('w, 's, 'p3, 'p2) hk_env \<Rightarrow> ('w, 's, 'p, 'srp) homekit_server_t \<Rightarrow> nat \<Rightarrow> pairing \<Rightarrow> byte list \<Rightarrow>
   fault + ('w, 's, 'p, 'srp) homekit_server_t" where
  "remove_known_pairing E S i pairing device_identifier =
     (let (r, w) = homekit_storage_remove_pairing (en_board E) (sv_flash S) device_identifier;
          S = S\<lparr>sv_flash := w\<rparr> in
      if r \<noteq> 0 then send_tlv_error_response (en_plat E) S i 2 TLVError_Unknown
      else (let S = disconnect_pairing (p_id pairing) (HOMEKIT_NOTIFY_EVENT S HOMEKIT_EVENT_PAIRING_REMOVED);
                S = (if is_admin (p_permissions pairing) \<and>
                        \<not> admin_found E (sv_flash S) homekit_storage_pairing_iterator_init pairing
                     then S\<lparr>sv_paired := False\<rparr> else S) in
            send_state_2 E S i))"

definition on_remove_pairing ::
  "('w, 's, 'p3, 'p2) hk_env \<Rightarrow> ('w, 's, 'p, 'srp) homekit_server_t \<Rightarrow> nat \<Rightarrow> tlv_values \<Rightarrow>
   fault + ('w, 's, 'p, 'srp) homekit_server_t" where
  "on_remove_pairing E S i message =
     bind_res (client S i) (\<lambda>c.
       let err = send_tlv_error_response (en_plat E) S i 2 in
       if \<not> is_admin (cl_permissions c) then err TLVError_Authentication
       else case tlv_get_value message TLVType_Identifier of
         None \<Rightarrow> err TLVError_Unknown
       | Some tlv_device_identifier \<Rightarrow>
           (let device_identifier = strndup 0 (tlv_value tlv_device_identifier) (tlv_size tlv_device_identifier);
                (r, pairing) = homekit_storage_find_pairing (en_board E) (en_prims E) (sv_flash S)
                  device_identifier (en_pairing E) in
            if r = 0 then remove_known_pairing E S i pairing device_identifier
            else send_state_2 E S i))"

text \<open>The items of one pairing, a separator before each but the first.\<close>

definition pairing_items :: "bool \<Rightarrow> pairing \<Rightarrow> tlv_values \<Rightarrow> fault + tlv_values" where
  "pairing_items first pairing response =
     (let response = (if \<not> first then tlv_add_value response TLVType_Separator [] else response);
          (r, public_key_size, public_key) = crypto_ed25519_export_public_key (p_device_key pairing) (Some 32);
          response = tlv_add_string_value response TLVType_Identifier (chars (p_device_id pairing));
          response = tlv_add_value response TLVType_PublicKey (take (the public_key_size) public_key) in
      tlv_add_integer_value response TLVType_Permissions 1 (ucast (p_permissions pairing)))"

function list_items ::
  "('w, 's, 'p3, 'p2) hk_env \<Rightarrow> 'w \<Rightarrow> nat \<Rightarrow> pairing \<Rightarrow> bool \<Rightarrow> tlv_values \<Rightarrow> fault + tlv_values" where
  "list_items E w idx pairing first response =
     (let (r, idx, pairing) = homekit_storage_next_pairing (en_board E) (en_prims E) w idx pairing in
      if r \<noteq> 0 then Inr response
      else bind_res (pairing_items first pairing response) (\<lambda>response. list_items E w idx pairing False response))"
  by pat_completeness auto
termination
  by (relation "measure (\<lambda>(E, w, idx, pairing, first, response). MAX_PAIRINGS - idx)")
    (auto dest!: sym [of _ "homekit_storage_next_pairing _ _ _ _ _"] next_pairing_progress)

declare list_items.simps [simp del]

definition on_list_pairings ::
  "('w, 's, 'p3, 'p2) hk_env \<Rightarrow> ('w, 's, 'p, 'srp) homekit_server_t \<Rightarrow> nat \<Rightarrow> fault + ('w, 's, 'p, 'srp) homekit_server_t"
  where
  "on_list_pairings E S i =
     bind_res (client S i) (\<lambda>c.
       if \<not> is_admin (cl_permissions c) then send_tlv_error_response (en_plat E) S i 2 TLVError_Authentication
       else bind_res (tlv_add_integer_value tlv_new TLVType_State 1 2) (\<lambda>response.
              bind_res (list_items E (sv_flash S) homekit_storage_pairing_iterator_init (en_pairing E) True response)
                (\<lambda>response. send_tlv_response (en_plat E) S i response)))"

definition homekit_server_on_pairings ::
  "('w, 's, 'p3, 'p2) hk_env \<Rightarrow> ('w, 's, 'p, 'srp) homekit_server_t \<Rightarrow> nat \<Rightarrow> byte list \<Rightarrow>
   fault + ('w, 's, 'p, 'srp) homekit_server_t" where
  "homekit_server_on_pairings E S i data =
     bind_res (tlv_parse data) (\<lambda>message.
       if tlv_get_integer_value message TLVType_State (- 1) \<noteq> 1 then
         send_tlv_error_response (en_plat E) S i 2 TLVError_Unknown
       else (let m = tlv_get_integer_value message TLVType_Method (- 1) in
         if m = TLVMethod_AddPairing then on_add_pairing E S i message
         else if m = TLVMethod_RemovePairing then on_remove_pairing E S i message
         else if m = TLVMethod_ListPairings then on_list_pairings E S i
         else send_tlv_error_response (en_plat E) S i 2 TLVError_Unknown))"

section \<open>The pairings in the flash\<close>

text \<open>Some pairing of the map is an administrator's.\<close>

definition admin_in :: "pairing_map \<Rightarrow> bool" where
  "admin_in m \<longleftrightarrow> (\<exists>d k p. m d = Some (k, p) \<and> is_admin p)"

text \<open>The items of a list of pairings.\<close>

definition items_of_pairing :: "pairing \<Rightarrow> tlv_values" where
  "items_of_pairing p =
     [mk_tlv TLVType_Identifier (bytes (cstr (CHR 0x00) (chars (p_device_id p)))),
      mk_tlv TLVType_PublicKey (take 32 (ed_p (p_device_key p))),
      mk_tlv TLVType_Permissions [p_permissions p]]"

fun items_of :: "bool \<Rightarrow> pairing list \<Rightarrow> tlv_values" where
  "items_of first [] = []"
| "items_of first (p # ps) =
     (if first then [] else [mk_tlv TLVType_Separator []]) @ items_of_pairing p @ items_of False ps"

lemma pairing_items_eq:
  "pairing_items first p response =
    Inr (response @ (if first then [] else [mk_tlv TLVType_Separator []]) @ items_of_pairing p)"
proof -
  have "ucast (ucast (p_permissions p) :: u32) = p_permissions p"
    by (rule bit_word_eqI) (simp add: bit_simps)
  then show ?thesis
    by (simp add: pairing_items_def crypto_ed25519_export_public_key_def wc_ed25519_export_public_def
        tlv_add_integer_value_def tlv_add_string_value_def tlv_add_value_def tlv_add_value'_def
        items_of_pairing_def Let_def)
qed

text \<open>The pairings from record \<open>idx\<close> on.\<close>

definition live :: "'w board \<Rightarrow> ('w \<Rightarrow> nat \<Rightarrow> byte) \<Rightarrow> 'w \<Rightarrow> nat \<Rightarrow> pairing list" where
  "live B mem w idx = map (\<lambda>i. pairing_at i (slot B mem w i)) (filter (\<lambda>i. has_magic (slot B mem w i)) [idx..<16])"

context nor_flash
begin

lemma next_loop_live:
  "length d = 80 \<Longrightarrow> idx \<le> 16 \<Longrightarrow> next_loop B P w idx d p =
    (case live B mem w idx of [] \<Rightarrow> (- 1, 16, p) | q # qs \<Rightarrow> (0, Suc (nat (p_id q)), q))"
proof (induction "16 - idx" arbitrary: idx d)
  case 0
  then show ?case by (simp add: next_loop.simps live_def MAX_PAIRINGS_def)
next
  case (Suc n)
  then have i: "idx < 16" by simp
  then have u: "[idx..<16] = idx # [Suc idx..<16]" by (rule upt_conv_Cons)
  have IH: "next_loop B P w (Suc idx) (slot B mem w idx) p =
      (case live B mem w (Suc idx) of [] \<Rightarrow> (- 1, 16, p) | q # qs \<Rightarrow> (0, Suc (nat (p_id q)), q))"
    using Suc i by (intro Suc.hyps(1)) auto
  show ?case
  proof (cases "has_magic (slot B mem w idx)")
    case True
    then show ?thesis
      using i Suc.prems
      by (simp add: next_loop.simps [of B P w idx] MAX_PAIRINGS_def read_slot load_pairing_at live_def u pairing_at_def)
  next
    case False
    then have "live B mem w idx = live B mem w (Suc idx)" by (simp add: live_def u)
    then show ?thesis
      using i Suc.prems False IH
      by (simp add: next_loop.simps [of B P w idx d] MAX_PAIRINGS_def read_slot)
  qed
qed

lemma next_pairing_live:
  "idx \<le> 16 \<Longrightarrow> homekit_storage_next_pairing B P w idx p =
    (case live B mem w idx of [] \<Rightarrow> (- 1, 16, p) | q # qs \<Rightarrow> (0, Suc (nat (p_id q)), q))"
  by (simp add: homekit_storage_next_pairing_def next_loop_live)

lemma live_Cons:
  assumes "live B mem w idx = q # qs"
  shows "live B mem w (Suc (nat (p_id q))) = qs" and "Suc (nat (p_id q)) \<le> 16" and "idx < Suc (nat (p_id q))"
proof -
  let ?P = "\<lambda>i. has_magic (slot B mem w i)"
  from assms obtain i "is" where f: "filter ?P [idx..<16] = i # is"
      and q: "q = pairing_at i (slot B mem w i)" "qs = map (\<lambda>i. pairing_at i (slot B mem w i)) is"
    by (auto simp: live_def map_eq_Cons_conv)
  from f have i: "idx \<le> i" "i < 16" using filter_set [of ?P "[idx..<16]"] by auto
  have p: "nat (p_id q) = i" by (simp add: q pairing_at_def)
  have sp: "[idx..<16] = [idx..<i] @ i # [Suc i..<16]"
    using i by (metis upt_add_eq_append le_add_diff_inverse less_imp_le upt_conv_Cons)
  have "filter ?P [idx..<i] = []"
  proof (rule ccontr)
    assume "filter ?P [idx..<i] \<noteq> []"
    then obtain j js where j: "filter ?P [idx..<i] = j # js" by (cases "filter ?P [idx..<i]") auto
    then have "j < i" using filter_set [of ?P "[idx..<i]"] by auto
    moreover have "j = i" using f j by (simp add: sp)
    ultimately show False by simp
  qed
  moreover have "?P i" using f filter_set [of ?P "[idx..<16]"] by auto
  ultimately have "is = filter ?P [Suc i..<16]" using f by (simp add: sp)
  then show "live B mem w (Suc (nat (p_id q))) = qs" by (simp add: p live_def q(2))
  show "Suc (nat (p_id q)) \<le> 16" "idx < Suc (nat (p_id q))" using i p by simp_all
qed

lemma admin_found_live:
  "en_board E = B \<Longrightarrow> idx \<le> 16 \<Longrightarrow>
    admin_found E w idx p \<longleftrightarrow> list_ex (\<lambda>q. is_admin (p_permissions q)) (live B mem w idx)"
proof (induction "live B mem w idx" arbitrary: idx p)
  case Nil
  then show ?case by (simp add: admin_found.simps next_pairing_live)
next
  case (Cons q qs)
  show ?case
    using Cons(1) [of "Suc (nat (p_id q))" q] live_Cons [OF Cons(2) [symmetric]] Cons(2-4)
    by (subst admin_found.simps) (simp add: next_pairing_live Cons(2) [symmetric])
qed

lemma list_items_live:
  "en_board E = B \<Longrightarrow> idx \<le> 16 \<Longrightarrow> list_items E w idx p first response = Inr (response @ items_of first (live B mem w idx))"
proof (induction "live B mem w idx" arbitrary: idx p first response)
  case Nil
  then show ?case by (simp add: list_items.simps next_pairing_live)
next
  case (Cons q qs)
  show ?case
    using Cons(1) [of "Suc (nat (p_id q))" q False] live_Cons [OF Cons(2) [symmetric]] Cons(2-4)
    by (subst list_items.simps) (simp add: next_pairing_live Cons(2) [symmetric] pairing_items_eq)
qed

lemma admin_live_stored:
  assumes "unique_devices B mem w"
  shows "list_ex (\<lambda>q. is_admin (p_permissions q)) (live B mem w 0) \<longleftrightarrow> admin_in (stored B mem w)"
proof
  assume "list_ex (\<lambda>q. is_admin (p_permissions q)) (live B mem w 0)"
  then obtain i where i: "i < 16" "has_magic (slot B mem w i)" "is_admin (pd_permissions (pairing_data_of (slot B mem w i)))"
    by (auto simp: live_def list_ex_iff pairing_at_def)
  let ?d = "pd_device_id (pairing_data_of (slot B mem w i))"
  have "live_for ?d (slot B mem w i)" using i(2) by (simp add: live_for_def has_device_same)
  then show "admin_in (stored B mem w)"
    using stored_unique [OF assms i(1) _ refl] i(3) by (auto simp: admin_in_def)
next
  assume "admin_in (stored B mem w)"
  then obtain d i where i: "lookup_slot B mem w d = Some i" "is_admin (pd_permissions (pairing_data_of (slot B mem w i)))"
    by (auto simp: admin_in_def stored_def Let_def)
  then have "i < 16" "has_magic (slot B mem w i)" using lookup_slotD [OF i(1)] by (auto simp: live_for_def)
  then show "list_ex (\<lambda>q. is_admin (p_permissions q)) (live B mem w 0)"
    using i(2) by (auto simp: live_def list_ex_iff pairing_at_def)
qed

lemma two_live:
  assumes "stored B mem w d \<noteq> None" and "stored B mem w e \<noteq> None" and "\<not> same_dev d e"
  shows "1 < length (live B mem w 0)"
proof -
  from assms obtain i j where i: "lookup_slot B mem w d = Some i" "lookup_slot B mem w e = Some j"
    by (auto simp: stored_def)
  note l = lookup_slotD [OF i(1)] lookup_slotD [OF i(2)]
  have "i \<noteq> j" using l assms(3) by (auto simp: live_for_def has_device_same same_dev_iff)
  have sub: "{i, j} \<subseteq> set (filter (\<lambda>i. has_magic (slot B mem w i)) [0..<16])"
    using l by (auto simp: live_for_def)
  have "card {i, j} \<le> card (set (filter (\<lambda>i. has_magic (slot B mem w i)) [0..<16]))"
    by (rule card_mono [OF _ sub]) simp
  moreover have "card {i, j} = 2" using \<open>i \<noteq> j\<close> by simp
  ultimately have "2 \<le> length (filter (\<lambda>i. has_magic (slot B mem w i)) [0..<16])"
    using card_length [of "filter (\<lambda>i. has_magic (slot B mem w i)) [0..<16]"] by linarith
  then show ?thesis by (simp add: live_def)
qed

end

section \<open>The handler on a store that behaves as a map\<close>

lemma strndup_whole [simp]: "strndup z v (length v) = cstr z v"
  by (simp add: strndup_def)

lemma same_dev_cstr [simp]: "same_dev (cstr 0 d) e = same_dev d e"
  by (simp add: same_dev_iff)

lemma stored_cstr: "stored B mem w (cstr 0 d) = stored B mem w d"
  by (rule stored_same) simp

lemma kept_state_2: "same_store S0 S \<Longrightarrow> send_state_2 E S i = Inr S' \<Longrightarrow> same_store S0 S'"
  by (auto simp: send_state_2_def intro: store.kept_tlv_response)

text \<open>A client on a socket that takes everything: what is sent to it is sent, and it stays.\<close>

definition secure_session ::
  "'s platform \<Rightarrow> ('s \<Rightarrow> byte list) \<Rightarrow> ('w, 's, 'p, 'srp) homekit_server_t \<Rightarrow> nat \<Rightarrow> bool" where
  "secure_session W sent S i \<longleftrightarrow> lossless W sent \<and> distinct (map fst (sv_clients S)) \<and>
     (\<exists>c. client S i = Inr c \<and> writable W c \<and> length (cl_read_key c) = 32)"

lemma secure_send:
  assumes "secure_session W sent S i" and "client S i = Inr c"
  shows "\<exists>s k. client_send W S i data = Inr (set_client S i (c\<lparr>cl_socket := s, cl_count_reads := k\<rparr>)) \<and>
    secure_session W sent (set_client S i (c\<lparr>cl_socket := s, cl_count_reads := k\<rparr>)) i"
proof -
  from assms have l: "lossless W sent" and w: "writable W c" and k: "length (cl_read_key c) = 32"
    and d: "distinct (map fst (sv_clients S))" and p: "points_to S i c"
    by (auto simp: secure_session_def intro: points_toI)
  have ok: "secure_session W sent (set_client S i (c\<lparr>cl_socket := s, cl_count_reads := n\<rparr>)) i"
    if "writable W (c\<lparr>cl_socket := s\<rparr>)" for s n
    using that l d k client_set_same [OF assms(2)] by (simp add: secure_session_def writable_def)
  show ?thesis
  proof (cases "cl_encrypted c")
    case True
    then show ?thesis using send_frames [OF l p w k, of data] ok by blast
  next
    case False
    obtain s where s: "write' W S i data = Inr (set_client S i (c\<lparr>cl_socket := Some s\<rparr>))" "sock_connected W s"
      using write_lossless [OF l p w, of data] by blast
    have "c\<lparr>cl_socket := Some s\<rparr> = c\<lparr>cl_socket := Some s, cl_count_reads := cl_count_reads c\<rparr>" by simp
    then have "client_send W S i data = Inr (set_client S i (c\<lparr>cl_socket := Some s, cl_count_reads := cl_count_reads c\<rparr>))"
      using False assms(2) s(1) by (simp add: client_send_def)
    moreover have "writable W (c\<lparr>cl_socket := Some s\<rparr>)" using s(2) w by (simp add: writable_def)
    ultimately show ?thesis using ok by blast
  qed
qed

lemma secure_client_send: "secure_session W sent S i \<Longrightarrow> \<exists>S'. client_send W S i data = Inr S'"
  using secure_send by (fastforce simp: secure_session_def)

lemma secure_tlv_response:
  "secure_session W sent S i \<Longrightarrow> list_all (\<lambda>t. tlv_value t \<noteq> []) vs \<Longrightarrow> \<exists>S'. send_tlv_response W S i vs = Inr S'"
  using secure_client_send [of W sent S i]
  by (auto simp: send_tlv_response_def format_alloc_eq list_all_iff Let_def)

lemma secure_tlv_error: "secure_session W sent S i \<Longrightarrow> \<exists>S'. send_tlv_error_response W S i state err = Inr S'"
  using secure_tlv_response [of W sent S i]
  by (simp add: send_tlv_error_response_def tlv_add_integer_value_def tlv_add_value_def tlv_add_value'_def tlv_new_def)

lemma secure_state_2: "secure_session (en_plat E) sent S i \<Longrightarrow> \<exists>S'. send_state_2 E S i = Inr S'"
  using secure_tlv_response [of "en_plat E" sent S i]
  by (simp add: send_state_2_def tlv_add_integer_value_def tlv_add_value_def tlv_add_value'_def tlv_new_def)

lemma secure_state_2_store:
  "secure_session (en_plat E) sent T i \<Longrightarrow>
    \<exists>S'. send_state_2 E T i = Inr S' \<and> sv_flash S' = sv_flash T \<and> sv_paired S' = sv_paired T"
  using secure_state_2 [of E sent T i] kept_state_2 [OF same_store_refl, of E T i] by (auto simp: same_store_def)

lemma secure_updates [simp]:
  "secure_session W sent (S\<lparr>sv_flash := w\<rparr>) i = secure_session W sent S i"
  "secure_session W sent (S\<lparr>sv_paired := b\<rparr>) i = secure_session W sent S i"
  "secure_session W sent (HOMEKIT_NOTIFY_EVENT S e) i = secure_session W sent S i"
  by (simp_all add: secure_session_def client_def)

lemma map_of_map_snd: "map_of (map (\<lambda>(j, c). (j, f c)) xs) i = map_option f (map_of xs i)"
  by (induction xs) auto

lemma client_disconnect:
  "client (disconnect_pairing pid S) i =
    bind_res (client S i) (\<lambda>c. Inr (if cl_pairing_id c = pid then c\<lparr>cl_disconnect := True\<rparr> else c))"
  by (simp add: client_def disconnect_pairing_def map_of_map_snd split: option.splits)

lemma fst_disconnect [simp]: "map fst (sv_clients (disconnect_pairing pid S)) = map fst (sv_clients S)"
  by (auto simp: disconnect_pairing_def)

lemma secure_disconnect: "secure_session W sent S i \<Longrightarrow> secure_session W sent (disconnect_pairing pid S) i"
  unfolding secure_session_def writable_def by (auto simp: client_disconnect)

text \<open>A pairing request: the parsed message, with state 1 and the given method.\<close>

definition pairing_request :: "byte list \<Rightarrow> u32 \<Rightarrow> tlv_values \<Rightarrow> bool" where
  "pairing_request data method message \<longleftrightarrow> tlv_parse data = Inr message \<and>
     tlv_get_integer_value message TLVType_State (- 1) = 1 \<and>
     tlv_get_integer_value message TLVType_Method (- 1) = method"

text \<open>A request of an administrator to add the pairing of a device with the key and the permissions.\<close>

definition add_request :: "byte list \<Rightarrow> byte list \<Rightarrow> byte list \<Rightarrow> u32 \<Rightarrow> bool" where
  "add_request data dev key permissions \<longleftrightarrow> (\<exists>message t u. pairing_request data TLVMethod_AddPairing message \<and>
     tlv_get_value message TLVType_Identifier = Some t \<and> tlv_value t = dev \<and>
     tlv_get_value message TLVType_PublicKey = Some u \<and> tlv_value u = key \<and> length key = 32 \<and>
     tlv_get_integer_value message TLVType_Permissions (- 1) = permissions \<and> permissions \<noteq> - 1)"

definition remove_request :: "byte list \<Rightarrow> byte list \<Rightarrow> bool" where
  "remove_request data dev \<longleftrightarrow> (\<exists>message t. pairing_request data TLVMethod_RemovePairing message \<and>
     tlv_get_value message TLVType_Identifier = Some t \<and> tlv_value t = dev)"

definition admin_client :: "('w, 's, 'p, 'srp) homekit_server_t \<Rightarrow> nat \<Rightarrow> bool" where
  "admin_client S i \<longleftrightarrow> (\<exists>c. client S i = Inr c \<and> is_admin (cl_permissions c))"

lemma add_request_cases:
  assumes "admin_client S i" and "add_request data dev key permissions"
  shows "homekit_server_on_pairings E S i data =
    (let (r, pairing) = homekit_storage_find_pairing (en_board E) (en_prims E) (sv_flash S) (cstr 0 dev) (en_pairing E) in
     if r = 0 then update_known_pairing E S i pairing (cstr 0 dev) key permissions
     else add_new_pairing E S i (cstr 0 dev) (wc_ed25519_init\<lparr>ed_p := key\<rparr>) permissions)"
  using assms
  by (auto simp: homekit_server_on_pairings_def add_request_def pairing_request_def admin_client_def on_add_pairing_def
      TLVMethod_defs crypto_ed25519_import_public_key_def crypto_ed25519_init_def import_public_32 Let_def)

lemma remove_request_cases:
  assumes "admin_client S i" and "remove_request data dev"
  shows "homekit_server_on_pairings E S i data =
    (let (r, pairing) = homekit_storage_find_pairing (en_board E) (en_prims E) (sv_flash S) (cstr 0 dev) (en_pairing E) in
     if r = 0 then remove_known_pairing E S i pairing (cstr 0 dev) else send_state_2 E S i)"
  using assms
  by (auto simp: homekit_server_on_pairings_def remove_request_def pairing_request_def admin_client_def on_remove_pairing_def
      TLVMethod_defs Let_def)

text \<open>A key found in the flash, exported the two times.\<close>

lemma export_stored:
  "crypto_ed25519_export_public_key (p_device_key (pairing_at i s)) (Some 0) = (- 2, Some 32, [])"
  "length s = 80 \<Longrightarrow> crypto_ed25519_export_public_key (p_device_key (pairing_at i s)) (Some 32) =
    (0, Some 32, pd_public_key (pairing_data_of s))"
  using pairing_data_of_wf [of s]
  by (simp_all add: crypto_ed25519_export_public_key_def wc_ed25519_export_public_def pairing_at_def pd_wf_def)

context nor_flash
begin

lemma update_known_eq:
  assumes "lookup_slot B mem w dev = Some j"
  shows "update_known_pairing E S i (pairing_at j (slot B mem w j)) d key permissions =
    (if key \<noteq> pd_public_key (pairing_data_of (slot B mem w j))
     then bind_res (send_tlv_error_response (en_plat E) S i 2 TLVError_Unknown) (\<lambda>S. Inl Double_free)
     else bind_res (homekit_storage_update_pairing (en_board E) (sv_flash S) d (ucast permissions)) (\<lambda>(r, w).
       let S = S\<lparr>sv_flash := w\<rparr> in
       if r \<noteq> 0 then send_tlv_error_response (en_plat E) S i 2 TLVError_Unknown else send_state_2 E S i))"
  using pairing_data_of_wf [of "slot B mem w j"]
  by (auto simp: update_known_pairing_def export_stored pd_wf_def)

lemma add_request_new:
  assumes E: "en_board E = B" and u: "unique_devices B mem (sv_flash S)" and f: "0 < free_slots B mem (sv_flash S)"
    and a: "admin_client S i" and q: "add_request data dev key permissions"
    and n: "stored B mem (sv_flash S) dev = None"
  shows "\<exists>w. homekit_server_on_pairings E S i data =
      send_state_2 E (HOMEKIT_NOTIFY_EVENT (S\<lparr>sv_flash := w\<rparr>) HOMEKIT_EVENT_PAIRING_ADDED) i \<and> unique_devices B mem w \<and>
    stored B mem w = (\<lambda>e. if same_dev dev e then Some (key, ucast permissions) else stored B mem (sv_flash S) e)"
proof -
  have key: "ed_wf (wc_ed25519_init\<lparr>ed_p := key\<rparr>)"
    using q by (auto simp: add_request_def ed_wf_def wc_ed25519_init_def)
  have k: "ed_p (wc_ed25519_init\<lparr>ed_p := key\<rparr>) = key" by simp
  have n': "stored B mem (sv_flash S) (cstr 0 dev) = None" using n by (simp add: stored_cstr)
  then have l: "lookup_slot B mem (sv_flash S) (cstr 0 dev) = None" by (simp add: stored_None)
  obtain w where w: "homekit_storage_add_pairing B (sv_flash S) (cstr 0 dev) (wc_ed25519_init\<lparr>ed_p := key\<rparr>)
      (ucast permissions) = Inr (0, w)" "unique_devices B mem w"
    "stored B mem w = (\<lambda>e. if same_dev dev e then Some (key, ucast permissions) else stored B mem (sv_flash S) e)"
    using add_pairing_free [OF f key n' u, of "ucast permissions"] unfolding k by auto
  have can: "homekit_storage_can_add_pairing B (sv_flash S)"
    using f not_live_blank [of "slot B mem (sv_flash S) _"] by (auto simp: can_add_eq free_slots_pos)
  have "homekit_server_on_pairings E S i data =
      send_state_2 E (HOMEKIT_NOTIFY_EVENT (S\<lparr>sv_flash := w\<rparr>) HOMEKIT_EVENT_PAIRING_ADDED) i"
    using add_request_cases [OF a q, of E] l can w(1) E by (simp add: find_pairing_eq add_new_pairing_def)
  then show ?thesis using w by blast
qed

lemma add_request_known:
  assumes E: "en_board E = B" and u: "unique_devices B mem (sv_flash S)" and f: "0 < free_slots B mem (sv_flash S)"
    and a: "admin_client S i" and q: "add_request data dev key permissions"
    and s: "stored B mem (sv_flash S) dev = Some (k, p)"
  shows "\<exists>w. homekit_server_on_pairings E S i data =
      (if key \<noteq> k then bind_res (send_tlv_error_response (en_plat E) S i 2 TLVError_Unknown) (\<lambda>S. Inl Double_free)
       else send_state_2 E (S\<lparr>sv_flash := w\<rparr>) i) \<and> unique_devices B mem w \<and>
    stored B mem w = (\<lambda>e. if same_dev dev e then Some (k, ucast permissions) else stored B mem (sv_flash S) e)"
proof -
  have s': "stored B mem (sv_flash S) (cstr 0 dev) = Some (k, p)" using s by (simp add: stored_cstr)
  then obtain j where j: "lookup_slot B mem (sv_flash S) (cstr 0 dev) = Some j"
      and k: "pd_public_key (pairing_data_of (slot B mem (sv_flash S) j)) = k"
    by (auto simp: stored_def Let_def)
  obtain w where w: "homekit_storage_update_pairing B (sv_flash S) (cstr 0 dev) (ucast permissions) = Inr (0, w)"
    "unique_devices B mem w"
    "stored B mem w = (\<lambda>e. if same_dev dev e then Some (k, ucast permissions) else stored B mem (sv_flash S) e)"
    using update_pairing_map [OF f u s', of "ucast permissions"] by auto
  have "homekit_server_on_pairings E S i data =
      update_known_pairing E S i (pairing_at j (slot B mem (sv_flash S) j)) (cstr 0 dev) key permissions"
    using add_request_cases [OF a q, of E] j E by (simp add: find_pairing_eq)
  also have "\<dots> = (if key \<noteq> k then bind_res (send_tlv_error_response (en_plat E) S i 2 TLVError_Unknown) (\<lambda>S. Inl Double_free)
       else send_state_2 E (S\<lparr>sv_flash := w\<rparr>) i)"
    unfolding update_known_eq [OF j] k E w(1) by simp
  finally show ?thesis using w by blast
qed

lemma remove_request_eq:
  assumes E: "en_board E = B" and u: "unique_devices B mem (sv_flash S)"
    and a: "admin_client S i" and q: "remove_request data dev"
  shows "\<exists>T w. homekit_server_on_pairings E S i data = send_state_2 E T i \<and>
    (\<forall>W sent. secure_session W sent S i \<longrightarrow> secure_session W sent T i) \<and> sv_flash T = w \<and> unique_devices B mem w \<and>
    stored B mem w = (\<lambda>e. if same_dev dev e then None else stored B mem (sv_flash S) e) \<and>
    sv_paired T = (sv_paired S \<and>
      ((\<exists>k p. stored B mem (sv_flash S) dev = Some (k, p) \<and> is_admin p) \<longrightarrow> admin_in (stored B mem w)))"
proof (cases "stored B mem (sv_flash S) dev")
  case None
  then have e: "stored B mem (sv_flash S) e = None" if "same_dev dev e" for e
    using stored_same [OF that, of B mem "sv_flash S"] by simp
  have "stored B mem (sv_flash S) (cstr 0 dev) = None" using None by (simp add: stored_cstr)
  then have "homekit_server_on_pairings E S i data = send_state_2 E S i"
    using remove_request_cases [OF a q, of E] E by (simp add: find_pairing_eq stored_None)
  then show ?thesis using u None e by (intro exI [of _ S] exI [of _ "sv_flash S"]) (auto simp: fun_eq_iff)
next
  case (Some kp)
  then have "stored B mem (sv_flash S) (cstr 0 dev) = Some kp" by (simp add: stored_cstr)
  then obtain j where j: "lookup_slot B mem (sv_flash S) (cstr 0 dev) = Some j"
      and kp: "snd kp = p_permissions (pairing_at j (slot B mem (sv_flash S) j))"
    by (auto simp: stored_def Let_def pairing_at_def)
  let ?p = "pairing_at j (slot B mem (sv_flash S) j)"
  obtain w where w: "homekit_storage_remove_pairing B (sv_flash S) (cstr 0 dev) = (0, w)" "unique_devices B mem w"
    "stored B mem w = (\<lambda>e. if same_dev dev e then None else stored B mem (sv_flash S) e)"
    using remove_pairing_map [OF u, of "cstr 0 dev"] by auto
  have adm: "admin_found E w homekit_storage_pairing_iterator_init ?p = admin_in (stored B mem w)"
    using admin_found_live [OF E, of 0] admin_live_stored [OF w(2)] by (simp add: homekit_storage_pairing_iterator_init_def)
  define T where "T = disconnect_pairing (p_id ?p) (HOMEKIT_NOTIFY_EVENT (S\<lparr>sv_flash := w\<rparr>) HOMEKIT_EVENT_PAIRING_REMOVED)"
  define U where "U = (if is_admin (p_permissions ?p) \<and> \<not> admin_in (stored B mem w) then T\<lparr>sv_paired := False\<rparr> else T)"
  have T: "sv_flash T = w" "sv_paired T = sv_paired S" by (simp_all add: T_def disconnect_pairing_def)
  have "homekit_server_on_pairings E S i data = remove_known_pairing E S i ?p (cstr 0 dev)"
    using remove_request_cases [OF a q, of E] j E by (simp add: find_pairing_eq)
  also have "\<dots> = send_state_2 E U i"
    unfolding remove_known_pairing_def E w(1) Let_def prod.case T_def [symmetric] T(1) adm U_def by simp
  finally have "homekit_server_on_pairings E S i data = send_state_2 E U i" .
  moreover have "secure_session W sent S i \<longrightarrow> secure_session W sent U i" for W sent
    by (simp add: U_def T_def secure_disconnect)
  moreover have "sv_flash U = w" "sv_paired U = (sv_paired S \<and> (is_admin (snd kp) \<longrightarrow> admin_in (stored B mem w)))"
    by (simp_all add: U_def T kp)
  ultimately show ?thesis using w Some by (intro exI [of _ U] exI [of _ w]) (cases kp, simp)
qed

lemma list_pairings_eq:
  assumes E: "en_board E = B" and a: "admin_client S i" and q: "pairing_request data TLVMethod_ListPairings message"
  shows "homekit_server_on_pairings E S i data =
    send_tlv_response (en_plat E) S i (mk_tlv TLVType_State [2] # items_of True (live B mem (sv_flash S) 0))"
  using a q list_items_live [OF E, of 0 "sv_flash S" "en_pairing E" True "[mk_tlv TLVType_State [2]]"]
  by (auto simp: homekit_server_on_pairings_def on_list_pairings_def pairing_request_def admin_client_def
      TLVMethod_defs tlv_add_integer_value_def tlv_add_value_def tlv_add_value'_def tlv_new_def
      homekit_storage_pairing_iterator_init_def)

end

lemma items_of_separator: "1 < length ps \<Longrightarrow> mk_tlv TLVType_Separator [] \<in> set (items_of True ps)"
  by (cases ps; cases "tl ps") auto

lemma tlv_response_overflow:
  "t \<in> set vs \<Longrightarrow> tlv_value t = [] \<Longrightarrow> send_tlv_response W S i vs = Inl Oob_write"
  by (auto simp: send_tlv_response_def format_alloc_eq)

section \<open>Properties\<close>


text \<open>Surroundings for the witnesses.\<close>

definition sample_env :: "(nat \<Rightarrow> byte, byte list, byte list, byte list) hk_env" where
  "sample_env = \<lparr>en_board = ram_board, en_prims = toy_prims, en_plat = idle_platform, en_pairing = pairing_at 0 [],
     en_verified = 0, en_curve = toy_curve, en_salt = replicate 16 1, en_seed = replicate 32 1, en_random = (\<lambda>_. 7)\<rparr>"

text \<open>
  C6: A request of an administrator to add a pairing acts on the pairings as on a map.  With room for a
  record, the device is afterwards stored with the key and the permissions given (their low byte), all other
  devices as before; but a device already stored under another key makes the handler free two blocks
  twice.
\<close>

theorem add_pairing_stores:
  assumes "nor_flash (en_board E) mem" and "unique_devices (en_board E) mem (sv_flash S)"
    and "0 < free_slots (en_board E) mem (sv_flash S)" and "admin_client S i"
    and "secure_session (en_plat E) sent S i" and "add_request data dev key permissions"
  shows "if \<exists>k p. found_pairing (en_board E) (en_prims E) (sv_flash S) dev = Some (k, p) \<and> k \<noteq> key
    then homekit_server_on_pairings E S i data = Inl Double_free
    else \<exists>S'. homekit_server_on_pairings E S i data = Inr S' \<and> unique_devices (en_board E) mem (sv_flash S') \<and>
      sv_paired S' = sv_paired S \<and>
      found_pairing (en_board E) (en_prims E) (sv_flash S') = (\<lambda>e. if same_dev dev e then Some (key, ucast permissions)
        else found_pairing (en_board E) (en_prims E) (sv_flash S) e)"
proof (cases "found_pairing (en_board E) (en_prims E) (sv_flash S) dev")
  note nor = nor_flash.found_pairing_stored [OF assms(1)]
  case None
  then have n: "stored (en_board E) mem (sv_flash S) dev = None" by (simp add: nor)
  obtain w where w: "homekit_server_on_pairings E S i data =
      send_state_2 E (HOMEKIT_NOTIFY_EVENT (S\<lparr>sv_flash := w\<rparr>) HOMEKIT_EVENT_PAIRING_ADDED) i"
    "unique_devices (en_board E) mem w"
    "stored (en_board E) mem w = (\<lambda>e. if same_dev dev e then Some (key, ucast permissions)
      else stored (en_board E) mem (sv_flash S) e)"
    using nor_flash.add_request_new [OF assms(1) refl assms(2-4,6) n] by blast
  obtain S' where "homekit_server_on_pairings E S i data = Inr S'" "sv_flash S' = w" "sv_paired S' = sv_paired S"
    using secure_state_2_store [of E sent "HOMEKIT_NOTIFY_EVENT (S\<lparr>sv_flash := w\<rparr>) HOMEKIT_EVENT_PAIRING_ADDED" i]
      assms(5) w(1) by auto
  then show ?thesis using w(2,3) n unfolding nor by simp
next
  note nor = nor_flash.found_pairing_stored [OF assms(1)]
  case (Some kp)
  obtain k p where kp: "kp = (k, p)" by fastforce
  then have s: "stored (en_board E) mem (sv_flash S) dev = Some (k, p)" using Some unfolding nor by simp
  obtain w where w: "homekit_server_on_pairings E S i data =
      (if key \<noteq> k then bind_res (send_tlv_error_response (en_plat E) S i 2 TLVError_Unknown) (\<lambda>S. Inl Double_free)
       else send_state_2 E (S\<lparr>sv_flash := w\<rparr>) i)"
    "unique_devices (en_board E) mem w"
    "stored (en_board E) mem w = (\<lambda>e. if same_dev dev e then Some (k, ucast permissions)
      else stored (en_board E) mem (sv_flash S) e)"
    using nor_flash.add_request_known [OF assms(1) refl assms(2-4,6) s] by blast
  show ?thesis
  proof (cases "key = k")
    case True
    then obtain S' where "homekit_server_on_pairings E S i data = Inr S'" "sv_flash S' = w" "sv_paired S' = sv_paired S"
      using secure_state_2_store [of E sent "S\<lparr>sv_flash := w\<rparr>" i] assms(5) w(1) by auto
    then show ?thesis using w(2,3) s unfolding nor True by simp
  next
    case False
    then have "homekit_server_on_pairings E S i data = Inl Double_free"
      using secure_tlv_error [OF assms(5), of 2 TLVError_Unknown] w(1) by auto
    then show ?thesis using False s unfolding nor by simp
  qed
qed

text \<open>A store with one pairing: the device \<open>[65]\<close>.\<close>

definition sample_add :: "byte list \<Rightarrow> byte list" where
  "sample_add key = tlv_format_out [mk_tlv TLVType_State [1], mk_tlv TLVType_Method [3], mk_tlv TLVType_Identifier [65],
     mk_tlv TLVType_PublicKey key, mk_tlv TLVType_Permissions [1]]"

lemma sample_requests:
  assumes "length key = 32"
  shows "add_request (sample_add key) [65] key 1"
    and "remove_request (tlv_format_out [mk_tlv TLVType_State [1], mk_tlv TLVType_Method [4], mk_tlv TLVType_Identifier [65]]) [65]"
    and "pairing_request (tlv_format_out [mk_tlv TLVType_State [1], mk_tlv TLVType_Method [5]]) TLVMethod_ListPairings
      [mk_tlv TLVType_State [1], mk_tlv TLVType_Method [5]]"
proof -
  have "key \<noteq> []" using assms by auto
  then show "add_request (sample_add key) [65] key 1"
    using assms by (simp add: add_request_def pairing_request_def sample_add_def parse_format_out
        TLVType_defs tlv_get_integer_value_def le_int_def TLVMethod_defs
        del: tlv_format_out.simps)
  show "remove_request (tlv_format_out [mk_tlv TLVType_State [1], mk_tlv TLVType_Method [4], mk_tlv TLVType_Identifier [65]]) [65]"
    by (simp add: remove_request_def pairing_request_def parse_format_out
        TLVType_defs tlv_get_integer_value_def le_int_def TLVMethod_defs
        del: tlv_format_out.simps)
  show "pairing_request (tlv_format_out [mk_tlv TLVType_State [1], mk_tlv TLVType_Method [5]]) TLVMethod_ListPairings
      [mk_tlv TLVType_State [1], mk_tlv TLVType_Method [5]]"
    by (simp add: pairing_request_def parse_format_out
        TLVType_defs tlv_get_integer_value_def le_int_def TLVMethod_defs
        del: tlv_format_out.simps)
qed

lemma sample_admin: "admin_client (sample_server w) 0" "secure_session idle_platform id (sample_server w) 0"
proof -
  have "distinct (map fst (sv_clients (sample_server w)))" by (simp add: sample_server_def)
  then show "secure_session idle_platform id (sample_server w) 0" by (simp add: secure_session_def)
  have "is_admin (cl_permissions sample_client)"
    by (simp add: is_admin_def sample_client_def pairing_permissions_admin_def)
  then show "admin_client (sample_server w) 0" by (simp add: admin_client_def)
qed

lemma sample_server_store [simp]: "sv_flash (sample_server w) = w" "sv_paired (sample_server w)"
  by (simp_all add: sample_server_def)

lemma add_pairing_stores_witness:
  "\<exists>S'. homekit_server_on_pairings sample_env (sample_server erased_ram :: (_, _, _, unit) homekit_server_t) 0
      (sample_add (replicate 32 5)) = Inr S' \<and>
    unique_devices ram_board ram_mem (sv_flash S') \<and> sv_paired S' \<and>
    found_pairing ram_board toy_prims (sv_flash S') = (\<lambda>e. if same_dev [65] e then Some (replicate 32 5, 1) else None)"
proof -
  have e: "en_board sample_env = ram_board" "en_prims sample_env = toy_prims" "en_plat sample_env = idle_platform"
    by (simp_all add: sample_env_def)
  have u: "ucast (1 :: u32) = (1 :: byte)" by simp
  show ?thesis
    using add_pairing_stores [of sample_env ram_mem "sample_server erased_ram :: (_, _, _, unit) homekit_server_t" 0 id
        "sample_add (replicate 32 5)" "[65]" "replicate 32 5" 1]
    unfolding e sample_server_store nor_flash.found_pairing_stored [OF ram.nor_flash_axioms] erased_ram_views u
    by (simp add: ram.nor_flash_axioms erased_ram_views sample_admin sample_requests)
qed



text \<open>
  Listing two or more pairings writes outside the buffer of the response: each separator is an empty
  item, for which \<open>tlv_format\<close> asks for no room but writes two bytes.
\<close>

theorem list_pairings_overflows:
  assumes "nor_flash (en_board E) mem" and "admin_client S i"
    and "pairing_request data TLVMethod_ListPairings message"
    and "found_pairing (en_board E) (en_prims E) (sv_flash S) d \<noteq> None"
    and "found_pairing (en_board E) (en_prims E) (sv_flash S) e \<noteq> None" and "\<not> same_dev d e"
  shows "homekit_server_on_pairings E S i data = Inl Oob_write"
proof -
  have "1 < length (live (en_board E) mem (sv_flash S) 0)"
    using nor_flash.two_live [OF assms(1)] assms(4-6) nor_flash.found_pairing_stored [OF assms(1)] by metis
  then have "mk_tlv TLVType_Separator [] \<in>
      set (mk_tlv TLVType_State [2] # items_of True (live (en_board E) mem (sv_flash S) 0))"
    by (simp add: items_of_separator)
  then show ?thesis
    unfolding nor_flash.list_pairings_eq [OF assms(1) refl assms(2,3)] by (rule tlv_response_overflow) simp
qed


lemma two_pairings_ram:
  "\<exists>w. found_pairing ram_board toy_prims w [65] \<noteq> None \<and> found_pairing ram_board toy_prims w [66] \<noteq> None"
proof -
  have ok: "ops_ok (found_pairing ram_board toy_prims erased_ram) [PAdd [65] sample_key 1, PAdd [66] sample_key 0]"
    by (simp add: ram.found_pairing_stored erased_ram_views sample_key_ok same_dev_iff cstr_def)
  obtain w where w: "found_pairing ram_board toy_prims w =
      foldl map_op (found_pairing ram_board toy_prims erased_ram) [PAdd [65] sample_key 1, PAdd [66] sample_key 0]"
    using nor_flash.operations_map [OF ram.nor_flash_axioms erased_ram_views(2) ok] by (auto simp: erased_ram_views)
  show ?thesis by (rule exI [of _ w]) (simp add: w)
qed

lemma list_pairings_overflows_witness:
  "\<exists>w. homekit_server_on_pairings sample_env (sample_server w :: (_, _, _, unit) homekit_server_t) 0
      (tlv_format_out [mk_tlv TLVType_State [1], mk_tlv TLVType_Method [5]]) = Inl Oob_write"
proof -
  have e: "en_board sample_env = ram_board" "en_prims sample_env = toy_prims" by (simp_all add: sample_env_def)
  obtain w where w: "found_pairing ram_board toy_prims w [65] \<noteq> None" "found_pairing ram_board toy_prims w [66] \<noteq> None"
    using two_pairings_ram by blast
  have d: "\<not> same_dev [65] [66]" by (simp add: same_dev_iff cstr_def)
  show ?thesis
    using list_pairings_overflows [of sample_env ram_mem "sample_server w :: (_, _, _, unit) homekit_server_t" 0
        _ _ "[65]" "[66]", OF _ _ sample_requests(3) [of "replicate 32 0"]] w d
    by (auto simp: e ram.nor_flash_axioms sample_admin simp del: tlv_format_out.simps)
qed

end
