(* ===== verification/Pair_Setup.thy ===== *)
theory Pair_Setup
  imports Pairings Srp
begin

text \<open>
  Pairing a controller: \<open>arduino_homekit_preinit\<close> and \<open>homekit_server_on_pair_setup\<close> of
  \<open>src/arduino_homekit_server.cpp\<close>, a definition for each of the messages M1, M3 and M5.  The state of a
  pairing in progress is the SRP state and the accessory's public value in the pairing context.
\<close>

type_synonym ('w, 's, 'p) hk_server = "('w, 's, 'p, srp_t) homekit_server_t"

section \<open>Preparing the pairing context\<close>

text \<open>
  The password is copied to a buffer of eleven bytes, which holds the terminator only of a password
  shorter than that.  Without a configured password it is ten random digits with two dashes.
\<close>

definition pairing_password :: "('w, 's, 'p3, 'p2) hk_env \<Rightarrow> string option \<Rightarrow> fault + string" where
  "pairing_password E configured =
     (case configured of
        Some p \<Rightarrow> if length (cstr (CHR 0x00) p) < 11 then Inr (cstr (CHR 0x00) p) else Inl Oob_read
      | None \<Rightarrow>
          (let password = map (\<lambda>i. char_of (unat (en_random E i mod 10) + 48)) [0..<10] in
           Inr (password[6 := CHR ''-'', 3 := CHR ''-''])))"

definition arduino_homekit_preinit ::
  "('w, 's, 'p3, 'p2) hk_env \<Rightarrow> ('w, 's, 'p) hk_server \<Rightarrow> fault + (bool \<times> ('w, 's, 'p) hk_server)" where
  "arduino_homekit_preinit E S =
     (if sv_saved_preinit S \<noteq> None then Inr (True, S)
      else bind_res (pairing_password E (sv_password S)) (\<lambda>password.
        let p = pairing_context_new crypto_srp_new;
            (_, srp) = crypto_srp_init (en_salt E) (pc_srp p) (bytes ''Pair-Setup'') (bytes password);
            (_, srp, n, _) = crypto_srp_get_public_key (en_seed E) srp 0;
            (r, srp, n, public_key) = crypto_srp_get_public_key (en_seed E) srp n in
        if r \<noteq> 0 then Inr (False, S)
        else Inr (True, S\<lparr>sv_saved_preinit := Some (p\<lparr>pc_srp := srp, pc_public_key := Some (take n public_key)\<rparr>)\<rparr>)))"

section \<open>The messages\<close>

text \<open>An access through \<open>server->pairing_context\<close>, and a change of it.\<close>

definition with_pairing ::
  "('w, 's, 'p) hk_server \<Rightarrow> (srp_t pairing_context_t \<Rightarrow> fault + 'a) \<Rightarrow> fault + 'a" where
  "with_pairing S f = (case pairing_context S of None \<Rightarrow> Inl Null_deref | Some p \<Rightarrow> f p)"

definition set_pairing :: "('w, 's, 'p) hk_server \<Rightarrow> srp_t pairing_context_t \<Rightarrow> ('w, 's, 'p) hk_server" where
  "set_pairing S p = S\<lparr>sv_saved_preinit := Some p\<rparr>"

definition set_step ::
  "('w, 's, 'p, 'srp) homekit_server_t \<Rightarrow> nat \<Rightarrow> homekit_client_step_t \<Rightarrow> fault + ('w, 's, 'p, 'srp) homekit_server_t"
  where
  "set_step S i step = modify_client S i (\<lambda>c. c\<lparr>cl_step := step\<rparr>)"

text \<open>M1: the salt and the public value of the accessory; a NULL public key has size 0.\<close>

definition pair_setup_answer_1 ::
  "('w, 's, 'p3, 'p2) hk_env \<Rightarrow> ('w, 's, 'p) hk_server \<Rightarrow> nat \<Rightarrow> fault + ('w, 's, 'p) hk_server" where
  "pair_setup_answer_1 E S i =
     with_pairing S (\<lambda>p.
       let (_, salt_size, _) = crypto_srp_get_salt (pc_srp p) 0;
           (r, salt_size, salt) = crypto_srp_get_salt (pc_srp p) salt_size in
       if r \<noteq> 0 then send_tlv_error_response (en_plat E) (pairing_context_free S) i 2 TLVError_Unknown
       else (let response = tlv_add_value tlv_new TLVType_PublicKey (case pc_public_key p of None \<Rightarrow> [] | Some k \<Rightarrow> k);
                 response = tlv_add_value response TLVType_Salt (take salt_size salt) in
             bind_res (tlv_add_integer_value response TLVType_State 1 2) (\<lambda>response.
             bind_res (send_tlv_response (en_plat E) S i response) (\<lambda>S.
               set_step S i HOMEKIT_CLIENT_STEP_PAIR_SETUP_1OF3))))"

definition pair_setup_1 ::
  "('w, 's, 'p3, 'p2) hk_env \<Rightarrow> ('w, 's, 'p) hk_server \<Rightarrow> nat \<Rightarrow> fault + ('w, 's, 'p) hk_server" where
  "pair_setup_1 E S i =
     (let err = (\<lambda>S. send_tlv_error_response (en_plat E) S i 2) in
      if sv_paired S then err S TLVError_Unavailable
      else case pairing_context S of
        Some p \<Rightarrow> if pc_client p \<noteq> Some i then err S TLVError_Busy else pair_setup_answer_1 E S i
      | None \<Rightarrow>
          bind_res (arduino_homekit_preinit E S) (\<lambda>(ok, S).
            if \<not> ok then err S TLVError_Unknown
            else case sv_saved_preinit S of
              None \<Rightarrow> err S TLVError_Unknown
            | Some p \<Rightarrow> pair_setup_answer_1 E
                (S\<lparr>sv_pairing := True, sv_saved_preinit := Some (p\<lparr>pc_client := Some i\<rparr>)\<rparr>) i))"

text \<open>M3: the controller's public value and its proof that it knows the password.\<close>

definition pair_setup_3 ::
  "('w, 's, 'p3, 'p2) hk_env \<Rightarrow> ('w, 's, 'p) hk_server \<Rightarrow> nat \<Rightarrow> tlv_values \<Rightarrow> fault + ('w, 's, 'p) hk_server" where
  "pair_setup_3 E S i message =
     (let err = (\<lambda>S. send_tlv_error_response (en_plat E) S i 4 TLVError_Authentication) in
      case tlv_get_value message TLVType_PublicKey of
        None \<Rightarrow> err S
      | Some device_public_key \<Rightarrow>
          (case tlv_get_value message TLVType_Proof of
             None \<Rightarrow> err S
           | Some proof \<Rightarrow>
               with_pairing S (\<lambda>p.
                 let (r, srp) = crypto_srp_compute_key (pc_srp p) (Some (tlv_value device_public_key)) (pc_public_key p);
                     p = p\<lparr>pc_srp := srp\<rparr> in
                 if r \<noteq> 0 then err (set_pairing S p)
                 else (let p = p\<lparr>pc_public_key := None\<rparr>;
                           (r, srp) = crypto_srp_verify (pc_srp p) (tlv_value proof);
                           p = p\<lparr>pc_srp := srp\<rparr> in
                   if r \<noteq> 0 then err (set_pairing S p)
                   else (let (_, srp, n, _) = crypto_srp_get_proof (pc_srp p) 0;
                             (_, srp, n, server_proof) = crypto_srp_get_proof srp n;
                             S = set_pairing S (p\<lparr>pc_srp := srp\<rparr>) in
                     bind_res (tlv_add_integer_value tlv_new TLVType_State 1 4) (\<lambda>response.
                     bind_res (send_tlv_response (en_plat E) S i
                         (tlv_add_value response TLVType_Proof (take n server_proof))) (\<lambda>S.
                       set_step S i HOMEKIT_CLIENT_STEP_PAIR_SETUP_2OF3)))))))"

text \<open>The two calls of a cipher, for the size and for the text.\<close>

definition open_message :: "'s platform \<Rightarrow> byte list \<Rightarrow> byte list \<Rightarrow> byte list \<Rightarrow> int \<times> byte list" where
  "open_message W key nonce payload =
     (let (_, n, _) = crypto_chacha20poly1305_decrypt (junk_words W) key nonce [] payload (Some 0);
          (r, n, decrypted) = crypto_chacha20poly1305_decrypt (junk_words W) key nonce [] payload n in
      (r, decrypted))"

definition seal_message :: "'s platform \<Rightarrow> byte list \<Rightarrow> byte list \<Rightarrow> byte list \<Rightarrow> int \<times> byte list" where
  "seal_message W key nonce payload =
     (let (_, n, _) = crypto_chacha20poly1305_encrypt (junk_words W) key nonce [] payload (Some 0);
          (r, n, encrypted) = crypto_chacha20poly1305_encrypt (junk_words W) key nonce [] payload n in
      (r, encrypted))"

definition nonce_text :: "string \<Rightarrow> byte list" where
  "nonce_text s = replicate 4 0 @ bytes s"

text \<open>The signature of the accessory over a text, in the two calls.\<close>

definition accessory_sign :: "('w, 's, 'p3, 'p2) hk_env \<Rightarrow> ed25519_key \<Rightarrow> byte list \<Rightarrow> int \<times> byte list" where
  "accessory_sign E key info =
     (let (_, n, _) = crypto_ed25519_sign (en_prims E) key (Some info) (Some 0);
          (r, n, signature) = crypto_ed25519_sign (en_prims E) key (Some info) n in
      (r, take (the n) signature))"

text \<open>M5, after the pairing is stored: the identity of the accessory and its signature, encrypted.\<close>

definition pair_setup_answer_5 ::
  "('w, 's, 'p3, 'p2) hk_env \<Rightarrow> ('w, 's, 'p) hk_server \<Rightarrow> nat \<Rightarrow> srp_t \<Rightarrow> byte list \<Rightarrow> fault + ('w, 's, 'p) hk_server" where
  "pair_setup_answer_5 E S i srp shared_secret =
     (let err = send_tlv_error_response (en_plat E) S i 6;
          (_, n, _) = crypto_ed25519_export_public_key (sv_accessory_key S) (Some 0);
          (r, n, accessory_public_key) = crypto_ed25519_export_public_key (sv_accessory_key S) n in
      if r \<noteq> 0 then err TLVError_Authentication
      else (let accessory_id = take 17 (sv_accessory_id S);
                (r, m, accessory_x) = crypto_srp_hkdf srp (bytes ''Pair-Setup-Accessory-Sign-Salt'')
                  (bytes ''Pair-Setup-Accessory-Sign-Info'') (Some (HKDF_HASH_SIZE + 17 + the n)) in
        if r \<noteq> 0 then err TLVError_Unknown
        else (let (r, accessory_signature) = accessory_sign E (sv_accessory_key S)
                    (accessory_x @ accessory_id @ take (the n) accessory_public_key) in
          if r \<noteq> 0 then err TLVError_Unknown
          else (let response = tlv_add_value tlv_new TLVType_Identifier accessory_id;
                    response = tlv_add_value response TLVType_PublicKey (take (the n) accessory_public_key);
                    response = tlv_add_value response TLVType_Signature accessory_signature in
            bind_res (tlv_format_alloc response) (\<lambda>response_data.
              let (r, encrypted) = seal_message (en_plat E) shared_secret (nonce_text ''PS-Msg06'') response_data in
              if r \<noteq> 0 then err TLVError_Unknown
              else bind_res (tlv_add_integer_value tlv_new TLVType_State 1 6) (\<lambda>response.
                bind_res (send_tlv_response (en_plat E) S i (tlv_add_value response TLVType_EncryptedData encrypted)) (\<lambda>S.
                  set_step ((pairing_context_free S)\<lparr>sv_paired := True\<rparr>) i HOMEKIT_CLIENT_STEP_PAIR_SETUP_3OF3)))))))"

text \<open>
  \<open>homekit_storage_add_pairing\<close> reads up to 36 bytes of the identifier, or up to a zero byte; the value of
  the item has no terminator of its own.
\<close>

definition store_new_admin ::
  "('w, 's, 'p3, 'p2) hk_env \<Rightarrow> 'w \<Rightarrow> byte list \<Rightarrow> ed25519_key \<Rightarrow> fault + (int \<times> 'w)" where
  "store_new_admin E w device_id device_key =
     (if length device_id < DEVICE_ID_SIZE \<and> 0 \<notin> set device_id then Inl Oob_read
      else homekit_storage_add_pairing (en_board E) w device_id device_key pairing_permissions_admin)"

text \<open>The content of M5: identifier, public key and signature of the controller.\<close>

definition pair_setup_store ::
  "('w, 's, 'p3, 'p2) hk_env \<Rightarrow> ('w, 's, 'p) hk_server \<Rightarrow> nat \<Rightarrow> byte list \<Rightarrow> tlv_values \<Rightarrow>
   fault + ('w, 's, 'p) hk_server" where
  "pair_setup_store E S i shared_secret decrypted_message =
     (let err = send_tlv_error_response (en_plat E) S i 6 TLVError_Authentication in
      case tlv_get_value decrypted_message TLVType_Identifier of
        None \<Rightarrow> err
      | Some tlv_device_id \<Rightarrow>
          (case tlv_get_value decrypted_message TLVType_PublicKey of
             None \<Rightarrow> err
           | Some tlv_device_public_key \<Rightarrow>
               (case tlv_get_value decrypted_message TLVType_Signature of
                  None \<Rightarrow> err
                | Some tlv_device_signature \<Rightarrow>
                    (let (r, device_key) = crypto_ed25519_import_public_key (en_prims E) (snd crypto_ed25519_init)
                           (Some (tlv_value tlv_device_public_key)) in
                     if r \<noteq> 0 then err
                     else with_pairing S (\<lambda>p.
                       let (r, n, device_x) = crypto_srp_hkdf (pc_srp p) (bytes ''Pair-Setup-Controller-Sign-Salt'')
                             (bytes ''Pair-Setup-Controller-Sign-Info'') (Some HKDF_HASH_SIZE) in
                       if r \<noteq> 0 then err
                       else (let device_info = device_x @ tlv_value tlv_device_id @ tlv_value tlv_device_public_key;
                                 r = crypto_ed25519_verify (en_prims E) (en_verified E) device_key (Some device_info)
                                   (Some (tlv_value tlv_device_signature)) in
                         if r \<noteq> 0 then err
                         else bind_res (store_new_admin E (sv_flash S) (tlv_value tlv_device_id) device_key) (\<lambda>(r, w).
                           let S = S\<lparr>sv_flash := w\<rparr> in
                           if r \<noteq> 0 then send_tlv_error_response (en_plat E) S i 6 TLVError_Unknown
                           else pair_setup_answer_5 E (HOMEKIT_NOTIFY_EVENT S HOMEKIT_EVENT_PAIRING_ADDED) i (pc_srp p)
                             shared_secret)))))))"

definition pair_setup_5 ::
  "('w, 's, 'p3, 'p2) hk_env \<Rightarrow> ('w, 's, 'p) hk_server \<Rightarrow> nat \<Rightarrow> tlv_values \<Rightarrow> fault + ('w, 's, 'p) hk_server" where
  "pair_setup_5 E S i message =
     with_pairing S (\<lambda>p.
       let err = send_tlv_error_response (en_plat E) S i 6 TLVError_Authentication;
           (r, n, shared_secret) = crypto_srp_hkdf (pc_srp p) (bytes ''Pair-Setup-Encrypt-Salt'')
             (bytes ''Pair-Setup-Encrypt-Info'') (Some HKDF_HASH_SIZE) in
       if r \<noteq> 0 then err
       else case tlv_get_value message TLVType_EncryptedData of
         None \<Rightarrow> err
       | Some tlv_encrypted_data \<Rightarrow>
           (let (r, decrypted_data) = open_message (en_plat E) shared_secret (nonce_text ''PS-Msg05'')
                  (tlv_value tlv_encrypted_data) in
            if r \<noteq> 0 then err
            else bind_res (tlv_parse decrypted_data) (\<lambda>decrypted_message.
              pair_setup_store E S i shared_secret decrypted_message)))"

definition homekit_server_on_pair_setup ::
  "('w, 's, 'p3, 'p2) hk_env \<Rightarrow> ('w, 's, 'p) hk_server \<Rightarrow> nat \<Rightarrow> byte list \<Rightarrow> fault + ('w, 's, 'p) hk_server" where
  "homekit_server_on_pair_setup E S i data =
     bind_res (set_step S i HOMEKIT_CLIENT_STEP_NONE) (\<lambda>S.
     bind_res (tlv_parse data) (\<lambda>message.
       let state = tlv_get_integer_value message TLVType_State (- 1) in
       if state = 1 then pair_setup_1 E S i
       else if state = 3 then pair_setup_3 E S i message
       else if state = 5 then pair_setup_5 E S i message
       else Inr S))"

section \<open>What the messages rely on\<close>

text \<open>The primitives of the signature: the hash does not fail and points take 32 bytes.\<close>

definition signing_ok :: "('p3, 'p2) ed_prims \<Rightarrow> bool" where
  "signing_ok P \<longleftrightarrow> (\<forall>ms. fst (sha512 P ms) = 0) \<and> (\<forall>p. length (ge_p3_tobytes P p) = 32)"

lemma toy_signing_ok: "signing_ok toy_prims"
  by (simp add: signing_ok_def toy_prims_def min_def)

lemma accessory_sign_ok:
  assumes "signing_ok (en_prims E)"
  shows "fst (accessory_sign E key info) = 0" and "snd (accessory_sign E key info) \<noteq> []"
proof -
  have "\<exists>d. sha512 (en_prims E) ms = (0, d)" for ms
    using assms by (cases "sha512 (en_prims E) ms") (metis fst_conv signing_ok_def)
  moreover have "ge_p3_tobytes (en_prims E) p \<noteq> []" for p
    using assms by (metis length_0_conv signing_ok_def zero_neq_numeral)
  ultimately show "fst (accessory_sign E key info) = 0" "snd (accessory_sign E key info) \<noteq> []"
    by (auto simp: accessory_sign_def crypto_ed25519_sign_def wc_ed25519_sign_msg_def Let_def split: prod.splits)
      (metis fst_conv)+
qed

lemma length_HmacFinal [simp]: "length (wc_HmacFinal h) = 64"
  by (simp add: wc_HmacFinal_def Let_def split: prod.split)

lemma length_HKDF [simp]: "length (wc_HKDF key salt info 32) = 32"
  by (simp add: wc_HKDF_def wc_HKDF_Expand_def HKDF_Expand_loop.simps [of _ _ 32] HKDF_Expand_loop.simps [of _ _ 0]
      sha512_sizes Let_def)

lemma srp_hkdf_ok:
  "32 \<le> n \<Longrightarrow> crypto_srp_hkdf srp salt info (Some n) = (0, Some 32, wc_HKDF (key_bytes srp) (Some salt) info 32)"
  by (simp add: crypto_srp_hkdf_def crypto_hkdf_def)

lemma open_sealed:
  assumes "length key = 32" and "m \<noteq> []"
  shows "open_message W key nonce (sealed key nonce [] m) = (0, m)"
proof -
  have l: "length (sealed key nonce [] m) = length m + 16" by (rule length_sealed [OF assms(1)])
  then have "crypto_chacha20poly1305_decrypt (junk_words W) key nonce [] (sealed key nonce [] m) (Some 0) =
      (- 2, Some (length m), [])"
    using assms(2) by (simp add: crypto_chacha20poly1305_decrypt_def Let_def)
  moreover have "crypto_chacha20poly1305_decrypt (junk_words W) key nonce [] (sealed key nonce [] m) (Some (length m)) =
      crypto_chacha20poly1305_decrypt (junk_words W) key nonce [] (sealed key nonce [] m) (Some (length m + 16))"
    using l assms(2) by (simp add: crypto_chacha20poly1305_decrypt_def Let_def)
  ultimately show ?thesis
    using code_unseal_sealed [OF assms, of "junk_words W" nonce "[]"]
    by (auto simp: open_message_def code_unseal_def l Let_def split: prod.splits if_splits)
qed

lemma seal_sealed:
  assumes "length key = 32" and "m \<noteq> []"
  shows "seal_message W key nonce m = (0, sealed key nonce [] m)"
proof -
  have "crypto_chacha20poly1305_encrypt (junk_words W) key nonce [] m (Some 0) = (- 1, Some (length m + 16), [])"
    by (simp add: crypto_chacha20poly1305_encrypt_def)
  then show ?thesis using encrypt_sealed [OF assms] by (simp add: seal_message_def)
qed

lemma sealed_nonempty: "length key = 32 \<Longrightarrow> sealed key nonce aad m \<noteq> []"
  using length_sealed [of key nonce aad m] by auto

text \<open>What a client that reads everything is sent changes nothing but its context.\<close>

lemma secure_response:
  assumes "secure_session W sent S i" and "list_all (\<lambda>t. tlv_value t \<noteq> []) vs"
  shows "\<exists>c. send_tlv_response W S i vs = Inr (set_client S i c) \<and> secure_session W sent (set_client S i c) i"
proof -
  from assms(1) obtain c where c: "client S i = Inr c" by (auto simp: secure_session_def)
  then have "points_to S i c" using assms(1) by (auto simp: secure_session_def intro: points_toI)
  then have "set_client S i c = S" by (simp add: points_to_def)
  moreover have "\<not> (\<exists>t\<in>set vs. tlv_value t = [])" using assms(2) by (auto simp: list_all_iff)
  ultimately show ?thesis
    using secure_send [OF assms(1) c] assms(1) by (simp add: send_tlv_response_def format_alloc_eq Let_def) metis
qed

lemma secure_step:
  assumes "secure_session W sent S i"
  shows "\<exists>c. set_step S i step = Inr (set_client S i c) \<and> secure_session W sent (set_client S i c) i"
proof -
  from assms obtain c where c: "client S i = Inr c" by (auto simp: secure_session_def)
  then show ?thesis
    using assms client_set_same [OF c]
    by (intro exI [of _ "c\<lparr>cl_step := step\<rparr>"])
      (auto simp: set_step_def modify_client_def secure_session_def writable_def)
qed

lemma secure_context [simp]:
  "secure_session W sent (pairing_context_free S) i = secure_session W sent S i"
  "secure_session W sent (S\<lparr>sv_saved_preinit := p\<rparr>) i = secure_session W sent S i"
  "secure_session W sent (S\<lparr>sv_pairing := b\<rparr>) i = secure_session W sent S i"
  by (simp_all add: secure_session_def client_def pairing_context_free_def)

lemma context_free_fields [simp]:
  "sv_flash (pairing_context_free S) = sv_flash S" "sv_saved_preinit (pairing_context_free S) = None"
  "pairing_context (pairing_context_free S) = None"
  by (simp_all add: pairing_context_free_def pairing_context_def)

lemma pairing_context_updates [simp]:
  "pairing_context (S\<lparr>sv_flash := w\<rparr>) = pairing_context S" "pairing_context (S\<lparr>sv_paired := b\<rparr>) = pairing_context S"
  by (simp_all add: pairing_context_def)

lemma answer_5_ok:
  assumes s: "secure_session (en_plat E) sent S i" and sg: "signing_ok (en_prims E)"
    and k: "ed_wf (sv_accessory_key S)" and a: "sv_accessory_id S \<noteq> []" and l: "length secret = 32"
  shows "\<exists>S'. pair_setup_answer_5 E S i srp secret = Inr S' \<and> sv_flash S' = sv_flash S \<and> sv_paired S' \<and>
    pairing_context S' = None"
proof -
  have e: "crypto_ed25519_export_public_key (sv_accessory_key S) (Some 0) = (- 2, Some 32, [])"
    by (simp add: crypto_ed25519_export_public_key_def)
  have p: "length (ed_p (sv_accessory_key S)) = 32" using k by (simp add: ed_wf_def)
  then have p': "ed_p (sv_accessory_key S) \<noteq> []" by auto
  define rs where "rs = [mk_tlv TLVType_Identifier (take 17 (sv_accessory_id S)),
      mk_tlv TLVType_PublicKey (ed_p (sv_accessory_key S)),
      mk_tlv TLVType_Signature (snd (accessory_sign E (sv_accessory_key S)
        (wc_HKDF (key_bytes srp) (Some (bytes ''Pair-Setup-Accessory-Sign-Salt''))
          (bytes ''Pair-Setup-Accessory-Sign-Info'') 32 @ take 17 (sv_accessory_id S) @ ed_p (sv_accessory_key S))))]"
  have f: "tlv_format_alloc rs = Inr (tlv_format_out rs)"
    using a p' accessory_sign_ok(2) [OF sg] by (simp add: format_alloc_eq rs_def)
  have n: "tlv_format_out rs \<noteq> []"
    using a by (simp add: rs_def tlv_format_chunks.simps [of _ "take 17 (sv_accessory_id S)"] Let_def)
  let ?x = "sealed secret (nonce_text ''PS-Msg06'') [] (tlv_format_out rs)"
  obtain c where c: "send_tlv_response (en_plat E) S i [mk_tlv TLVType_State [6], mk_tlv TLVType_EncryptedData ?x]
      = Inr (set_client S i c)" "secure_session (en_plat E) sent (set_client S i c) i"
    using secure_response [OF s, of "[mk_tlv TLVType_State [6], mk_tlv TLVType_EncryptedData ?x]"]
      sealed_nonempty [OF l] by auto
  define T where "T = (pairing_context_free (set_client S i c))\<lparr>sv_paired := True\<rparr>"
  have T: "secure_session (en_plat E) sent T i" using c(2) by (simp add: T_def)
  obtain d where d: "set_step T i HOMEKIT_CLIENT_STEP_PAIR_SETUP_3OF3 = Inr (set_client T i d)"
    using secure_step [OF T] by blast
  have "pair_setup_answer_5 E S i srp secret = Inr (set_client T i d)"
    using accessory_sign_ok(1) [OF sg] p
    by (simp add: pair_setup_answer_5_def e export_public_wf [OF k] srp_hkdf_ok HKDF_HASH_SIZE_def split_beta
        tlv_add_value_def tlv_add_value'_def tlv_new_def tlv_add_integer_value_def f [unfolded rs_def]
        seal_sealed [OF l n, unfolded rs_def] c(1) [unfolded rs_def] d [unfolded T_def] T_def
        del: tlv_format_out.simps)
  then show ?thesis by (simp add: T_def)
qed

text \<open>The key of M5, and an M5 sealed under a key: the device, its public key and any signature.\<close>

definition setup_key :: "srp_t \<Rightarrow> byte list" where
  "setup_key srp = wc_HKDF (key_bytes srp) (Some (bytes ''Pair-Setup-Encrypt-Salt''))
     (bytes ''Pair-Setup-Encrypt-Info'') 32"

definition setup_request :: "byte list \<Rightarrow> byte list \<Rightarrow> byte list \<Rightarrow> byte list \<Rightarrow> bool" where
  "setup_request k data dev key \<longleftrightarrow> (\<exists>message t u inner d p s. tlv_parse data = Inr message \<and>
     tlv_get_integer_value message TLVType_State (- 1) = 5 \<and>
     tlv_get_value message TLVType_EncryptedData = Some t \<and>
     tlv_value t = sealed k (nonce_text ''PS-Msg05'') [] u \<and> u \<noteq> [] \<and> tlv_parse u = Inr inner \<and>
     tlv_get_value inner TLVType_Identifier = Some d \<and> tlv_value d = dev \<and>
     tlv_get_value inner TLVType_PublicKey = Some p \<and> tlv_value p = key \<and> length key = 32 \<and>
     tlv_get_value inner TLVType_Signature = Some s)"

text \<open>The identifier ends in its own bytes.\<close>

definition id_ends :: "byte list \<Rightarrow> bool" where
  "id_ends dev \<longleftrightarrow> DEVICE_ID_SIZE \<le> length dev \<or> 0 \<in> set dev"

lemma verify_accepts: "crypto_ed25519_verify P junk key msg sig = 0"
  using verify_msg_code [of P sig msg key]
  by (auto simp: crypto_ed25519_verify_def split: prod.splits)

lemma setup_5_store:
  assumes q: "setup_request (setup_key (pc_srp p)) data dev key" and p: "pairing_context S = Some p"
    and s: "secure_session (en_plat E) sent S i" and e: "id_ends dev"
  shows "\<exists>c. secure_session (en_plat E) sent (set_client S i c) i \<and>
    homekit_server_on_pair_setup E S i data =
      bind_res (homekit_storage_add_pairing (en_board E) (sv_flash S) dev (wc_ed25519_init\<lparr>ed_p := key\<rparr>)
          pairing_permissions_admin) (\<lambda>(r, w).
        let S = (set_client S i c)\<lparr>sv_flash := w\<rparr> in
        if r \<noteq> 0 then send_tlv_error_response (en_plat E) S i 6 TLVError_Unknown
        else pair_setup_answer_5 E (HOMEKIT_NOTIFY_EVENT S HOMEKIT_EVENT_PAIRING_ADDED) i (pc_srp p)
          (setup_key (pc_srp p)))"
proof -
  obtain c where c: "set_step S i HOMEKIT_CLIENT_STEP_NONE = Inr (set_client S i c)"
      "secure_session (en_plat E) sent (set_client S i c) i"
    using secure_step [OF s] by blast
  obtain message t u inner d pk sg where m: "tlv_parse data = Inr message"
      "tlv_get_integer_value message TLVType_State (- 1) = 5" "tlv_get_value message TLVType_EncryptedData = Some t"
      "tlv_value t = sealed (setup_key (pc_srp p)) (nonce_text ''PS-Msg05'') [] u" "u \<noteq> []" "tlv_parse u = Inr inner"
      "tlv_get_value inner TLVType_Identifier = Some d" "tlv_value d = dev"
      "tlv_get_value inner TLVType_PublicKey = Some pk" "tlv_value pk = key" "length key = 32"
      "tlv_get_value inner TLVType_Signature = Some sg"
    using q unfolding setup_request_def by blast
  have k: "length (setup_key (pc_srp p)) = 32" by (simp add: setup_key_def)
  have h: "crypto_srp_hkdf (pc_srp p) (bytes ''Pair-Setup-Encrypt-Salt'') (bytes ''Pair-Setup-Encrypt-Info'') (Some 32)
      = (0, Some 32, setup_key (pc_srp p))"
    by (simp add: srp_hkdf_ok setup_key_def)
  have st: "store_new_admin E w dev x = homekit_storage_add_pairing (en_board E) w dev x pairing_permissions_admin" for w x
    using e by (auto simp: store_new_admin_def id_ends_def)
  have "homekit_server_on_pair_setup E S i data = pair_setup_5 E (set_client S i c) i message"
    using m(2) by (simp add: homekit_server_on_pair_setup_def c(1) m(1))
  also have "\<dots> = pair_setup_store E (set_client S i c) i (setup_key (pc_srp p)) inner"
    by (simp add: pair_setup_5_def with_pairing_def p h HKDF_HASH_SIZE_def m open_sealed [OF k m(5)])
  also have "\<dots> = bind_res (homekit_storage_add_pairing (en_board E) (sv_flash S) dev (wc_ed25519_init\<lparr>ed_p := key\<rparr>)
          pairing_permissions_admin) (\<lambda>(r, w).
        let S = (set_client S i c)\<lparr>sv_flash := w\<rparr> in
        if r \<noteq> 0 then send_tlv_error_response (en_plat E) S i 6 TLVError_Unknown
        else pair_setup_answer_5 E (HOMEKIT_NOTIFY_EVENT S HOMEKIT_EVENT_PAIRING_ADDED) i (pc_srp p)
          (setup_key (pc_srp p)))"
    by (simp add: pair_setup_store_def with_pairing_def p m verify_accepts srp_hkdf_ok HKDF_HASH_SIZE_def st
        crypto_ed25519_import_public_key_def import_public_32 crypto_ed25519_init_def)
  finally show ?thesis using c(2) by blast
qed

text \<open>The surroundings in which M5 can be served: room for a new device, a client that reads its answers,
  and an accessory with an identity.\<close>

definition setup_ready ::
  "('w, 's, 'p3, 'p2) hk_env \<Rightarrow> ('w \<Rightarrow> nat \<Rightarrow> byte) \<Rightarrow> ('s \<Rightarrow> byte list) \<Rightarrow>
   ('w, 's, 'p, 'srp) homekit_server_t \<Rightarrow> nat \<Rightarrow> byte list \<Rightarrow> bool" where
  "setup_ready E mem sent S i dev \<longleftrightarrow> nor_flash (en_board E) mem \<and> unique_devices (en_board E) mem (sv_flash S) \<and>
     0 < free_slots (en_board E) mem (sv_flash S) \<and>
     found_pairing (en_board E) (en_prims E) (sv_flash S) dev = None \<and> id_ends dev \<and>
     secure_session (en_plat E) sent S i \<and> signing_ok (en_prims E) \<and>
     ed_wf (sv_accessory_key S) \<and> sv_accessory_id S \<noteq> []"

text \<open>The pairings of \<open>S'\<close> are those of \<open>S\<close> and a new administrator.\<close>

definition admin_added ::
  "('w, 's, 'p3, 'p2) hk_env \<Rightarrow> ('w, 's, 'p, 'srp) homekit_server_t \<Rightarrow> ('w, 's, 'p, 'srp) homekit_server_t \<Rightarrow>
   byte list \<Rightarrow> byte list \<Rightarrow> bool" where
  "admin_added E S S' dev key \<longleftrightarrow> found_pairing (en_board E) (en_prims E) (sv_flash S') =
     (\<lambda>d. if same_dev dev d then Some (key, pairing_permissions_admin)
          else found_pairing (en_board E) (en_prims E) (sv_flash S) d)"

lemma added_same:
  assumes "sv_flash S = sv_flash T"
  shows "admin_added E S S' dev key = admin_added E T S' dev key"
  unfolding admin_added_def assms ..

text \<open>M5 stores an administrator, whatever the signature, and the accessory is paired.\<close>

lemma setup_5_pairs:
  assumes ready: "setup_ready E mem sent S i dev"
    and p: "pairing_context S = Some p" and q: "setup_request (setup_key (pc_srp p)) data dev key"
  shows "\<exists>S'. homekit_server_on_pair_setup E S i data = Inr S' \<and> unique_devices (en_board E) mem (sv_flash S') \<and>
    admin_added E S S' dev key \<and> sv_paired S' \<and> pairing_context S' = None"
proof -
  from ready have n: "nor_flash (en_board E) mem" and u: "unique_devices (en_board E) mem (sv_flash S)"
    and f: "0 < free_slots (en_board E) mem (sv_flash S)"
    and new: "found_pairing (en_board E) (en_prims E) (sv_flash S) dev = None"
    and s: "secure_session (en_plat E) sent S i" and sg: "signing_ok (en_prims E)"
    and k: "ed_wf (sv_accessory_key S)" and a: "sv_accessory_id S \<noteq> []" and e: "id_ends dev"
    by (simp_all add: setup_ready_def)
  note nor = nor_flash.found_pairing_stored [OF n]
  let ?k = "wc_ed25519_init\<lparr>ed_p := key\<rparr>"
  have ek: "ed_p ?k = key" by simp
  have "ed_wf ?k" using q by (auto simp: setup_request_def ed_wf_def wc_ed25519_init_def)
  then obtain w where w: "homekit_storage_add_pairing (en_board E) (sv_flash S) dev ?k pairing_permissions_admin = Inr (0, w)"
      "unique_devices (en_board E) mem w"
      "stored (en_board E) mem w = (\<lambda>d. if same_dev dev d then Some (key, pairing_permissions_admin)
        else stored (en_board E) mem (sv_flash S) d)"
    using nor_flash.add_pairing_free [OF n f, of ?k dev pairing_permissions_admin] u new unfolding nor ek by auto
  obtain c where c: "secure_session (en_plat E) sent (set_client S i c) i"
      "homekit_server_on_pair_setup E S i data = pair_setup_answer_5 E
        (HOMEKIT_NOTIFY_EVENT ((set_client S i c)\<lparr>sv_flash := w\<rparr>) HOMEKIT_EVENT_PAIRING_ADDED) i (pc_srp p)
        (setup_key (pc_srp p))"
    using setup_5_store [OF q p s e] w(1) by auto
  let ?T = "HOMEKIT_NOTIFY_EVENT ((set_client S i c)\<lparr>sv_flash := w\<rparr>) HOMEKIT_EVENT_PAIRING_ADDED"
  have "sv_accessory_key ?T = sv_accessory_key S" "sv_accessory_id ?T = sv_accessory_id S"
    by (simp_all add: HOMEKIT_NOTIFY_EVENT_def)
  then obtain S' where "pair_setup_answer_5 E ?T i (pc_srp p) (setup_key (pc_srp p)) = Inr S'"
      "sv_flash S' = sv_flash ?T" "sv_paired S'" "pairing_context S' = None"
    using answer_5_ok [of E sent ?T i "setup_key (pc_srp p)" "pc_srp p"] c(1) sg k a by (auto simp: setup_key_def)
  then show ?thesis using c(2) w(2,3) unfolding admin_added_def nor by simp
qed

lemma ready_client:
  "setup_ready E mem sent S i dev \<Longrightarrow> secure_session (en_plat E) sent (set_client S i c) i \<Longrightarrow>
    setup_ready E mem sent (set_client S i c) i dev"
  by (simp add: setup_ready_def)

lemma ready_context [simp]:
  "setup_ready E mem sent (S\<lparr>sv_saved_preinit := p\<rparr>) i dev = setup_ready E mem sent S i dev"
  "setup_ready E mem sent (S\<lparr>sv_pairing := b\<rparr>) i dev = setup_ready E mem sent S i dev"
  by (simp_all add: setup_ready_def)

text \<open>M1 of the client that is to be paired makes the saved context its own.\<close>

lemma setup_1_starts:
  assumes ready: "setup_ready E mem sent S i dev" and m: "tlv_parse data = Inr message"
    "tlv_get_integer_value message TLVType_State (- 1) = 1"
    and np: "\<not> sv_paired S" "\<not> sv_pairing S" and p: "sv_saved_preinit S = Some p"
    and B: "pc_public_key p = Some B" "B \<noteq> []" and salt: "srp_salt (pc_srp p) = Some salt" "salt \<noteq> []"
  shows "\<exists>S'. homekit_server_on_pair_setup E S i data = Inr S' \<and> setup_ready E mem sent S' i dev \<and>
    sv_flash S' = sv_flash S \<and> pairing_context S' = Some (p\<lparr>pc_client := Some i\<rparr>)"
proof -
  have s: "secure_session (en_plat E) sent S i" using ready by (simp add: setup_ready_def)
  obtain c where c: "set_step S i HOMEKIT_CLIENT_STEP_NONE = Inr (set_client S i c)"
      "secure_session (en_plat E) sent (set_client S i c) i"
    using secure_step [OF s] by blast
  define T where "T = (set_client S i c)\<lparr>sv_pairing := True, sv_saved_preinit := Some (p\<lparr>pc_client := Some i\<rparr>)\<rparr>"
  have T: "secure_session (en_plat E) sent T i" "setup_ready E mem sent T i dev"
    "pairing_context T = Some (p\<lparr>pc_client := Some i\<rparr>)"
    using c(2) ready_client [OF ready c(2)] by (simp_all add: T_def pairing_context_def)
  let ?vs = "[mk_tlv TLVType_PublicKey B, mk_tlv TLVType_Salt salt, mk_tlv TLVType_State [2]]"
  obtain d where d: "send_tlv_response (en_plat E) T i ?vs = Inr (set_client T i d)"
      "secure_session (en_plat E) sent (set_client T i d) i"
    using secure_response [OF T(1), of ?vs] B(2) salt(2) by auto
  obtain f where f: "set_step (set_client T i d) i HOMEKIT_CLIENT_STEP_PAIR_SETUP_1OF3 = Inr (set_client (set_client T i d) i f)"
      "secure_session (en_plat E) sent (set_client (set_client T i d) i f) i"
    using secure_step [OF d(2)] by blast
  have "homekit_server_on_pair_setup E S i data = pair_setup_1 E (set_client S i c) i"
    using m by (simp add: homekit_server_on_pair_setup_def c(1))
  also have "\<dots> = pair_setup_answer_1 E T i"
    using np p by (simp add: pair_setup_1_def pairing_context_def arduino_homekit_preinit_def T_def)
  also have "\<dots> = Inr (set_client (set_client T i d) i f)"
    by (simp add: pair_setup_answer_1_def with_pairing_def T(3) crypto_srp_get_salt_def salt B Let_def
        tlv_add_value_def tlv_add_value'_def tlv_new_def tlv_add_integer_value_def d(1) f(1))
  finally show ?thesis
    using T ready_client [OF ready_client [OF T(2) d(2)] f(2)] by (simp add: T_def)
qed

text \<open>M3 with a public value and a proof the server accepts: it holds the session key.\<close>

definition proof_request :: "byte list \<Rightarrow> byte list \<Rightarrow> byte list \<Rightarrow> bool" where
  "proof_request data A M1 \<longleftrightarrow> (\<exists>message t u. tlv_parse data = Inr message \<and>
     tlv_get_integer_value message TLVType_State (- 1) = 3 \<and>
     tlv_get_value message TLVType_PublicKey = Some t \<and> tlv_value t = A \<and>
     tlv_get_value message TLVType_Proof = Some u \<and> tlv_value u = M1)"

lemma final_length: "wc_Sha512Final h = (d, h') \<Longrightarrow> length d = 64"
  using length_final [of h] by simp

lemma setup_3_accepts:
  assumes ready: "setup_ready E mem sent S i dev" and q: "proof_request data A M1"
    and p: "pairing_context S = Some p" and B: "pc_public_key p = Some B"
    and 1: "wc_SrpComputeKey (pc_srp p) (Some A) (Some B) = (0, s2)"
    and 2: "wc_SrpVerifyPeersProof s2 M1 = (0, s3)" and 3: "wc_SrpGetProof s3 64 = (0, s4, M2)"
  shows "\<exists>S' p'. homekit_server_on_pair_setup E S i data = Inr S' \<and> setup_ready E mem sent S' i dev \<and>
    sv_flash S' = sv_flash S \<and> pairing_context S' = Some p' \<and> srp_key (pc_srp p') = srp_key s2"
proof -
  have s: "secure_session (en_plat E) sent S i" using ready by (simp add: setup_ready_def)
  obtain message t u where m: "tlv_parse data = Inr message" "tlv_get_integer_value message TLVType_State (- 1) = 3"
      "tlv_get_value message TLVType_PublicKey = Some t" "tlv_value t = A"
      "tlv_get_value message TLVType_Proof = Some u" "tlv_value u = M1"
    using q unfolding proof_request_def by blast
  have k: "srp_key s4 = srp_key s2" and M2: "length M2 = 64"
    using 2 3
    by (auto simp: wc_SrpVerifyPeersProof_def wc_SrpGetProof_def sha512_sizes srp_errors Let_def
        dest: final_length split: prod.splits if_splits srp_side.splits)
  obtain c where c: "set_step S i HOMEKIT_CLIENT_STEP_NONE = Inr (set_client S i c)"
      "secure_session (en_plat E) sent (set_client S i c) i"
    using secure_step [OF s] by blast
  define T where "T = set_pairing (set_client S i c) (p\<lparr>pc_public_key := None, pc_srp := s4\<rparr>)"
  have b: "sv_pairing S" using p by (simp add: pairing_context_def split: if_splits)
  have T: "secure_session (en_plat E) sent T i" "setup_ready E mem sent T i dev"
    "pairing_context T = Some (p\<lparr>pc_public_key := None, pc_srp := s4\<rparr>)"
    using b c(2) ready_client [OF ready c(2)] by (simp_all add: T_def set_pairing_def pairing_context_def)
  let ?vs = "[mk_tlv TLVType_State [4], mk_tlv TLVType_Proof M2]"
  obtain d where d: "send_tlv_response (en_plat E) T i ?vs = Inr (set_client T i d)"
      "secure_session (en_plat E) sent (set_client T i d) i"
    using secure_response [OF T(1), of ?vs] M2 by fastforce
  obtain f where f: "set_step (set_client T i d) i HOMEKIT_CLIENT_STEP_PAIR_SETUP_2OF3 = Inr (set_client (set_client T i d) i f)"
      "secure_session (en_plat E) sent (set_client (set_client T i d) i f) i"
    using secure_step [OF d(2)] by blast
  have "homekit_server_on_pair_setup E S i data = pair_setup_3 E (set_client S i c) i message"
    using m by (simp add: homekit_server_on_pair_setup_def c(1))
  also have "\<dots> = bind_res (send_tlv_response (en_plat E) T i ?vs) (\<lambda>S. set_step S i HOMEKIT_CLIENT_STEP_PAIR_SETUP_2OF3)"
    using M2 by (simp add: pair_setup_3_def with_pairing_def m p B 1 2 3 crypto_srp_compute_key_def crypto_srp_verify_def
        crypto_srp_get_proof_def sha512_sizes T_def [symmetric] tlv_add_value_def tlv_add_value'_def tlv_new_def
        tlv_add_integer_value_def)
  also have "\<dots> = Inr (set_client (set_client T i d) i f)" by (simp add: d(1) f(1))
  finally show ?thesis
    using T k ready_client [OF ready_client [OF T(2) d(2)] f(2)]
    by (intro exI [of _ "set_client (set_client T i d) i f"] exI [of _ "p\<lparr>pc_public_key := None, pc_srp := s4\<rparr>"])
      (simp add: T_def set_pairing_def)
qed

section \<open>Properties\<close>


text \<open>
  C2: So is a controller that does not know it.  The server does not require M3 before M5: after M1 alone
  there is no session key, the key of M5 is derived from the empty secret, the same for every accessory,
  and as no signature is refused, M5 stores any identifier and public key as an administrator.
\<close>

theorem pair_setup_without_code:
  assumes "setup_ready E mem sent S i dev" and "\<not> sv_paired S" and "\<not> sv_pairing S"
    and "sv_saved_preinit S = Some p" and "pc_public_key p = Some B" and "B \<noteq> []"
    and "srp_salt (pc_srp p) = Some salt" and "salt \<noteq> []" and "srp_key (pc_srp p) = None"
    and "tlv_parse m1 = Inr message" and "tlv_get_integer_value message TLVType_State (- 1) = 1"
    and "setup_request (wc_HKDF [] (Some (bytes ''Pair-Setup-Encrypt-Salt'')) (bytes ''Pair-Setup-Encrypt-Info'') 32)
      m5 dev key"
  shows "\<exists>S1 S2. homekit_server_on_pair_setup E S i m1 = Inr S1 \<and> homekit_server_on_pair_setup E S1 i m5 = Inr S2 \<and>
    unique_devices (en_board E) mem (sv_flash S2) \<and> admin_added E S S2 dev key \<and> sv_paired S2"
proof -
  obtain S1 where S1: "homekit_server_on_pair_setup E S i m1 = Inr S1" "setup_ready E mem sent S1 i dev"
      "sv_flash S1 = sv_flash S" "pairing_context S1 = Some (p\<lparr>pc_client := Some i\<rparr>)"
    using setup_1_starts [OF assms(1,10,11,2-8)] by blast
  have "setup_request (setup_key (pc_srp (p\<lparr>pc_client := Some i\<rparr>))) m5 dev key"
    using assms(9,12) by (simp add: setup_key_def key_bytes_def)
  from setup_5_pairs [OF S1(2,4) this] show ?thesis using S1(1) added_same [OF S1(3), of E] by auto
qed

text \<open>An accessory that waits for a controller, and its client.\<close>

definition waiting_server :: "srp_t \<Rightarrow> byte list \<Rightarrow> bool \<Rightarrow> (nat \<Rightarrow> byte, byte list, unit) hk_server" where
  "waiting_server srp B begun = (sample_server erased_ram)\<lparr>sv_paired := False, sv_pairing := begun,
     sv_saved_preinit := Some \<lparr>pc_srp = srp, pc_public_key = Some B, pc_client = (if begun then Some 0 else None)\<rparr>\<rparr>"

definition sample_dev :: "byte list" where "sample_dev = replicate 36 65"

lemma waiting_ready: "setup_ready sample_env ram_mem id (waiting_server srp B begun) 0 sample_dev"
proof -
  have "secure_session idle_platform id (waiting_server srp B begun) 0"
    using sample_admin(2) [of erased_ram] by (simp add: waiting_server_def)
  moreover have "ed_wf (sv_accessory_key (waiting_server srp B begun))" "sv_accessory_id (waiting_server srp B begun) \<noteq> []"
    "sv_flash (waiting_server srp B begun) = erased_ram"
    by (simp_all add: waiting_server_def sample_server_def sample_key_ok)
  ultimately show ?thesis
    by (simp add: setup_ready_def sample_env_def ram.nor_flash_axioms erased_ram_views toy_signing_ok
        nor_flash.found_pairing_stored [OF ram.nor_flash_axioms] id_ends_def sample_dev_def
        DEVICE_ID_SIZE_def)
qed

text \<open>M5 as a controller would build it.\<close>

definition make_setup_request :: "byte list \<Rightarrow> byte list \<Rightarrow> byte list \<Rightarrow> byte list" where
  "make_setup_request k dev key = tlv_format_out [mk_tlv TLVType_State [5], mk_tlv TLVType_EncryptedData
     (sealed k (nonce_text ''PS-Msg05'') []
       (tlv_format_out [mk_tlv TLVType_Identifier dev, mk_tlv TLVType_PublicKey key, mk_tlv TLVType_Signature [0]]))]"

lemma make_setup_request_ok:
  assumes "length k = 32" and "dev \<noteq> []" and "length key = 32"
  shows "setup_request k (make_setup_request k dev key) dev key"
proof -
  let ?inner = "[mk_tlv TLVType_Identifier dev, mk_tlv TLVType_PublicKey key, mk_tlv TLVType_Signature [0]]"
  have key: "key \<noteq> []" using assms(3) by auto
  then have w: "tlv_parse (tlv_format_out ?inner) = Inr ?inner"
    using assms(2) by (intro parse_format_out) (simp add: TLVType_defs)
  have ne: "tlv_format_out ?inner \<noteq> []"
    using assms(2) by (simp add: tlv_format_chunks.simps [of _ dev] Let_def)
  let ?x = "sealed k (nonce_text ''PS-Msg05'') [] (tlv_format_out ?inner)"
  have p: "tlv_parse (make_setup_request k dev key) = Inr [mk_tlv TLVType_State [5], mk_tlv TLVType_EncryptedData ?x]"
    unfolding make_setup_request_def using sealed_nonempty [OF assms(1)]
    by (intro parse_format_out) (simp add: TLVType_defs)
  show ?thesis
    unfolding setup_request_def
    by (rule exI [of _ "[mk_tlv TLVType_State [5], mk_tlv TLVType_EncryptedData ?x]"],
        rule exI [of _ "mk_tlv TLVType_EncryptedData ?x"], rule exI [of _ "tlv_format_out ?inner"],
        rule exI [of _ ?inner])
      (use p w ne assms(3) in \<open>simp add: TLVType_defs tlv_get_integer_value_def le_int_def del: tlv_format_out.simps\<close>)
qed


lemma pair_setup_without_code_witness:
  "\<exists>S1 S2. homekit_server_on_pair_setup sample_env (waiting_server (crypto_srp_new\<lparr>srp_salt := Some [7]\<rparr>) [9] False) 0
      [6, 1, 1] = Inr S1 \<and>
    homekit_server_on_pair_setup sample_env S1 0
      (make_setup_request (wc_HKDF [] (Some (bytes ''Pair-Setup-Encrypt-Salt'')) (bytes ''Pair-Setup-Encrypt-Info'') 32)
        sample_dev (replicate 32 5)) = Inr S2 \<and>
    unique_devices ram_board ram_mem (sv_flash S2) \<and>
    admin_added sample_env (waiting_server (crypto_srp_new\<lparr>srp_salt := Some [7]\<rparr>) [9] False) S2 sample_dev (replicate 32 5) \<and>
    sv_paired S2"
proof -
  let ?srp = "crypto_srp_new\<lparr>srp_salt := Some [7]\<rparr>"
  have m: "tlv_parse (tlv_format_out [mk_tlv TLVType_State [1]]) = Inr [mk_tlv TLVType_State [1]]"
    by (intro parse_format_out) simp
  have b: "tlv_format_out [mk_tlv TLVType_State [1]] = [6, 1, 1]"
    by (simp add: chunks_short TLVType_defs)
  have B: "en_board sample_env = ram_board" by (simp add: sample_env_def)
  show ?thesis
    using pair_setup_without_code [OF waiting_ready [of ?srp "[9]" False], of
        "\<lparr>pc_srp = ?srp, pc_public_key = Some [9], pc_client = None\<rparr>" "[9]" "[7]" "[6, 1, 1]" "[mk_tlv TLVType_State [1]]"
        "make_setup_request (wc_HKDF [] (Some (bytes ''Pair-Setup-Encrypt-Salt'')) (bytes ''Pair-Setup-Encrypt-Info'') 32)
          sample_dev (replicate 32 5)" "replicate 32 5"]
      make_setup_request_ok [of _ sample_dev "replicate 32 5"] m
    unfolding b B
    by (auto simp: waiting_server_def sample_dev_def crypto_srp_new_def wc_SrpInit_def tlv_get_integer_value_def
        TLVType_defs le_int_def)
qed

text \<open>
  M3 and M5 rely on M1 without checking for it: with no pairing context, a complete M3 and any M5
  dereference NULL.
\<close>

theorem pair_setup_needs_start:
  assumes "client S i = Inr c" and "pairing_context S = None" and "tlv_parse data = Inr message"
    and "tlv_get_integer_value message TLVType_State (- 1) = 5 \<or>
      tlv_get_integer_value message TLVType_State (- 1) = 3 \<and> tlv_get_value message TLVType_PublicKey \<noteq> None \<and>
      tlv_get_value message TLVType_Proof \<noteq> None"
  shows "homekit_server_on_pair_setup E S i data = Inl Null_deref"
  using assms(4)
  by (auto simp: homekit_server_on_pair_setup_def set_step_def modify_client_def assms(1-3) pair_setup_5_def
      pair_setup_3_def with_pairing_def)

lemma pair_setup_needs_start_witness:
  "homekit_server_on_pair_setup sample_env (sample_server erased_ram :: (_, _, _, srp_t) homekit_server_t) 0 [6, 1, 5] =
    Inl Null_deref"
proof (rule pair_setup_needs_start)
  have "tlv_parse (tlv_format_out [mk_tlv TLVType_State [5]]) = Inr [mk_tlv TLVType_State [5]]"
    by (intro parse_format_out) simp
  moreover have "tlv_format_out [mk_tlv TLVType_State [5]] = [6, 1, 5]" by (simp add: chunks_short TLVType_defs)
  ultimately show "tlv_parse [6, 1, 5] = Inr [mk_tlv TLVType_State [5]]" by simp
  show "pairing_context (sample_server erased_ram :: (_, _, _, srp_t) homekit_server_t) = None"
    by (simp add: pairing_context_def sample_server_def)
  show "client (sample_server erased_ram :: (_, _, _, srp_t) homekit_server_t) 0 = Inr sample_client" by simp
qed (simp add: tlv_get_integer_value_def le_int_def TLVType_defs)

end
