(* ===== verification/Pair_Verify.thy ===== *)
theory Pair_Verify
  imports Pair_Setup
begin

text \<open>
  Opening an encrypted session: \<open>homekit_server_on_pair_verify\<close> of \<open>src/arduino_homekit_server.cpp\<close>, its
  messages M1 and M3.  M1 makes a verify context from two curve keys, M3 names a stored pairing and turns
  the encryption of the client on.
\<close>

section \<open>M1\<close>

text \<open>The answer once there is a shared secret: the identity of the accessory, signed and sealed.\<close>

definition pair_verify_answer_1 ::
  "('w, 's, 'p3, 'p2) hk_env \<Rightarrow> ('w, 's, 'p, 'srp) homekit_server_t \<Rightarrow> nat \<Rightarrow> byte list \<Rightarrow> byte list \<Rightarrow> byte list \<Rightarrow>
   fault + ('w, 's, 'p, 'srp) homekit_server_t" where
  "pair_verify_answer_1 E S i device_public_key my_key_public shared_secret =
     (let err = send_tlv_error_response (en_plat E) S i 2 TLVError_Unknown;
          accessory_id = take 17 (sv_accessory_id S);
          (r, accessory_signature) = accessory_sign E (sv_accessory_key S)
            (my_key_public @ accessory_id @ device_public_key) in
      if r \<noteq> 0 then err
      else (let sub_response = tlv_add_value tlv_new TLVType_Identifier accessory_id;
                sub_response = tlv_add_value sub_response TLVType_Signature accessory_signature in
        bind_res (tlv_format_alloc sub_response) (\<lambda>sub_response_data.
          let salt = bytes ''Pair-Verify-Encrypt-Salt''; info = bytes ''Pair-Verify-Encrypt-Info'';
              (_, n, _) = crypto_hkdf shared_secret salt info (Some 0);
              (r, n, session_key) = crypto_hkdf shared_secret salt info n in
          if r \<noteq> 0 then err
          else (let (r, encrypted) = seal_message (en_plat E) session_key (nonce_text ''PV-Msg02'') sub_response_data in
            if r \<noteq> 0 then err
            else bind_res (tlv_add_integer_value tlv_new TLVType_State 1 2) (\<lambda>response.
              let response = tlv_add_value response TLVType_PublicKey my_key_public;
                  response = tlv_add_value response TLVType_EncryptedData encrypted in
              bind_res (send_tlv_response (en_plat E) S i response) (\<lambda>S.
                modify_client S i (\<lambda>c. c\<lparr>cl_verify_context := Some
                    \<lparr>pv_secret = Some shared_secret, pv_session_key = Some session_key,
                     pv_device_public_key = Some device_public_key, pv_accessory_public_key = Some my_key_public\<rparr>,
                  cl_step := HOMEKIT_CLIENT_STEP_PAIR_VERIFY_1OF2\<rparr>)))))))"

definition pair_verify_1 ::
  "('w, 's, 'p3, 'p2) hk_env \<Rightarrow> ('w, 's, 'p, 'srp) homekit_server_t \<Rightarrow> nat \<Rightarrow> tlv_values \<Rightarrow>
   fault + ('w, 's, 'p, 'srp) homekit_server_t" where
  "pair_verify_1 E S i message =
     (let err = send_tlv_error_response (en_plat E) S i 2 TLVError_Unknown in
      case tlv_get_value message TLVType_PublicKey of
        None \<Rightarrow> err
      | Some tlv_device_public_key \<Rightarrow>
          (let (r, device_key) = crypto_curve25519_init in
           if r \<noteq> 0 then err
           else let (r, device_key) = crypto_curve25519_import_public device_key (tlv_value tlv_device_public_key) in
           if r \<noteq> 0 then err
           else let (r, my_key) = crypto_curve25519_generate (en_curve E) (0, en_seed E) in
           if r \<noteq> 0 then err
           else let (_, n, _) = crypto_curve25519_export_public my_key 0;
                    (r, n, my_key_public) = crypto_curve25519_export_public my_key n in
           if r \<noteq> 0 then err
           else let (_, n, _) = crypto_curve25519_shared_secret (en_curve E) my_key device_key 0;
                    (r, n, shared_secret) = crypto_curve25519_shared_secret (en_curve E) my_key device_key n in
           if r \<noteq> 0 then err
           else pair_verify_answer_1 E S i (tlv_value tlv_device_public_key) my_key_public shared_secret))"

section \<open>M3\<close>

text \<open>\<open>pair_verify_context_free(context->verify_context)\<close> and an error.\<close>

definition verify_failed ::
  "('w, 's, 'p3, 'p2) hk_env \<Rightarrow> ('w, 's, 'p, 'srp) homekit_server_t \<Rightarrow> nat \<Rightarrow> u32 \<Rightarrow>
   fault + ('w, 's, 'p, 'srp) homekit_server_t" where
  "verify_failed E S i err =
     bind_res (modify_client S i (\<lambda>c. c\<lparr>cl_verify_context := None\<rparr>)) (\<lambda>S.
       send_tlv_error_response (en_plat E) S i 4 err)"

text \<open>The buffers of a verify context; M1, which makes it, sets all of them.\<close>

definition pv_bytes :: "byte list option \<Rightarrow> byte list" where
  "pv_bytes b = (case b of None \<Rightarrow> [] | Some b \<Rightarrow> b)"

text \<open>The keys of the session; the client is encrypted only after the answer has been sent.\<close>

definition pair_verify_secure ::
  "('w, 's, 'p3, 'p2) hk_env \<Rightarrow> ('w, 's, 'p, 'srp) homekit_server_t \<Rightarrow> nat \<Rightarrow> pair_verify_context_t \<Rightarrow> pairing \<Rightarrow>
   fault + ('w, 's, 'p, 'srp) homekit_server_t" where
  "pair_verify_secure E S i v pairing =
     (let (r, _, read_key) = crypto_hkdf (pv_bytes (pv_secret v)) (bytes ''Control-Salt'')
            (bytes ''Control-Read-Encryption-Key'') (Some 32) in
      if r \<noteq> 0 then verify_failed E S i TLVError_Unknown
      else bind_res (modify_client S i (\<lambda>c. c\<lparr>cl_read_key := read_key\<rparr>)) (\<lambda>S.
        let (r, _, write_key) = crypto_hkdf (pv_bytes (pv_secret v)) (bytes ''Control-Salt'')
              (bytes ''Control-Write-Encryption-Key'') (Some 32) in
        if r \<noteq> 0 then verify_failed E S i TLVError_Unknown
        else bind_res (modify_client S i (\<lambda>c. c\<lparr>cl_write_key := write_key, cl_verify_context := None\<rparr>)) (\<lambda>S.
          bind_res (tlv_add_integer_value tlv_new TLVType_State 1 4) (\<lambda>response.
          bind_res (send_tlv_response (en_plat E) S i response) (\<lambda>S.
          bind_res (modify_client S i (\<lambda>c. c\<lparr>cl_pairing_id := p_id pairing, cl_permissions := p_permissions pairing,
              cl_encrypted := True\<rparr>)) (\<lambda>S.
            set_step (HOMEKIT_NOTIFY_EVENT S HOMEKIT_EVENT_CLIENT_VERIFIED) i HOMEKIT_CLIENT_STEP_PAIR_VERIFY_2OF2))))))"

text \<open>The content of M3: the identifier of a controller and its signature.\<close>

definition pair_verify_device ::
  "('w, 's, 'p3, 'p2) hk_env \<Rightarrow> ('w, 's, 'p, 'srp) homekit_server_t \<Rightarrow> nat \<Rightarrow> pair_verify_context_t \<Rightarrow> tlv_values \<Rightarrow>
   fault + ('w, 's, 'p, 'srp) homekit_server_t" where
  "pair_verify_device E S i v decrypted_message =
     (case tlv_get_value decrypted_message TLVType_Identifier of
        None \<Rightarrow> verify_failed E S i TLVError_Authentication
      | Some tlv_device_id \<Rightarrow>
          (case tlv_get_value decrypted_message TLVType_Signature of
             None \<Rightarrow> verify_failed E S i TLVError_Authentication
           | Some tlv_device_signature \<Rightarrow>
               (let device_id = strndup 0 (tlv_value tlv_device_id) (tlv_size tlv_device_id);
                    (r, pairing) = homekit_storage_find_pairing (en_board E) (en_prims E) (sv_flash S) device_id
                      (en_pairing E) in
                if r \<noteq> 0 then verify_failed E S i TLVError_Authentication
                else (let device_info = pv_bytes (pv_device_public_key v) @ tlv_value tlv_device_id
                            @ pv_bytes (pv_accessory_public_key v);
                          r = crypto_ed25519_verify (en_prims E) (en_verified E) (p_device_key pairing) (Some device_info)
                            (Some (tlv_value tlv_device_signature)) in
                  if r \<noteq> 0 then verify_failed E S i TLVError_Authentication
                  else pair_verify_secure E S i v pairing))))"

definition pair_verify_3 ::
  "('w, 's, 'p3, 'p2) hk_env \<Rightarrow> ('w, 's, 'p, 'srp) homekit_server_t \<Rightarrow> nat \<Rightarrow> tlv_values \<Rightarrow>
   fault + ('w, 's, 'p, 'srp) homekit_server_t" where
  "pair_verify_3 E S i message =
     bind_res (client S i) (\<lambda>c.
       case cl_verify_context c of
         None \<Rightarrow> send_tlv_error_response (en_plat E) S i 4 TLVError_Authentication
       | Some v \<Rightarrow>
           (case tlv_get_value message TLVType_EncryptedData of
              None \<Rightarrow> verify_failed E S i TLVError_Authentication
            | Some tlv_encrypted_data \<Rightarrow>
                (let (r, decrypted_data) = open_message (en_plat E) (pv_bytes (pv_session_key v))
                       (nonce_text ''PV-Msg03'') (tlv_value tlv_encrypted_data) in
                 if r \<noteq> 0 then verify_failed E S i TLVError_Authentication
                 else bind_res (tlv_parse decrypted_data) (\<lambda>decrypted_message.
                   pair_verify_device E S i v decrypted_message))))"

definition homekit_server_on_pair_verify ::
  "('w, 's, 'p3, 'p2) hk_env \<Rightarrow> ('w, 's, 'p, 'srp) homekit_server_t \<Rightarrow> nat \<Rightarrow> byte list \<Rightarrow>
   fault + ('w, 's, 'p, 'srp) homekit_server_t" where
  "homekit_server_on_pair_verify E S i data =
     bind_res (set_step S i HOMEKIT_CLIENT_STEP_NONE) (\<lambda>S.
     bind_res (tlv_parse data) (\<lambda>message.
       let state = tlv_get_integer_value message TLVType_State (- 1) in
       if state = 1 then pair_verify_1 E S i message
       else if state = 3 then pair_verify_3 E S i message
       else Inr S))"

section \<open>A verified session\<close>

lemma secure_answer:
  assumes s: "secure_session W sent S i" and c: "client S i = Inr c" and v: "list_all (\<lambda>t. tlv_value t \<noteq> []) vs"
  shows "\<exists>d. send_tlv_response W S i vs = Inr (set_client S i d) \<and> sent_to c d \<and> secure_session W sent (set_client S i d) i"
proof -
  have two: "sent_to c (c\<lparr>cl_socket := s, cl_count_reads := k\<rparr>)" for s k by (cases c) (simp add: sent_to_def)
  have same: "sent_to c c" by (cases c) (simp add: sent_to_def)
  have "set_client S i c = S" using s c points_toI [of S i c] by (auto simp: secure_session_def points_to_def)
  moreover have "\<not> (\<exists>t\<in>set vs. tlv_value t = [])" using v by (auto simp: list_all_iff)
  ultimately show ?thesis
    using secure_send [OF s c] s two same by (simp add: send_tlv_response_def format_alloc_eq Let_def) metis
qed

lemma secure_modify:
  assumes s: "secure_session W sent S i" and c: "client S i = Inr c" and d: "cl_socket (f c) = cl_socket c"
    "cl_error_write (f c) = cl_error_write c" "length (cl_read_key (f c)) = 32"
  shows "modify_client S i f = Inr (set_client S i (f c))" and "secure_session W sent (set_client S i (f c)) i"
  using s client_set_same [OF c] d by (auto simp: modify_client_def c secure_session_def writable_def)

text \<open>The keys of a secret.\<close>

definition verify_key :: "byte list \<Rightarrow> byte list" where
  "verify_key secret = wc_HKDF secret (Some (bytes ''Pair-Verify-Encrypt-Salt'')) (bytes ''Pair-Verify-Encrypt-Info'') 32"

definition control_key :: "byte list \<Rightarrow> string \<Rightarrow> byte list" where
  "control_key secret info = wc_HKDF secret (Some (bytes ''Control-Salt'')) (bytes info) 32"

text \<open>The key pair the accessory makes for a session.\<close>

definition session_scalar :: "('w, 's, 'p3, 'p2) hk_env \<Rightarrow> byte list" where
  "session_scalar E = clamp_curve (take 32 (en_seed E))"

definition session_public :: "('w, 's, 'p3, 'p2) hk_env \<Rightarrow> byte list" where
  "session_public E = en_curve E (session_scalar E) basepoint"

definition verify_start :: "byte list \<Rightarrow> byte list \<Rightarrow> bool" where
  "verify_start data A \<longleftrightarrow> (\<exists>message t. tlv_parse data = Inr message \<and>
     tlv_get_integer_value message TLVType_State (- 1) = 1 \<and>
     tlv_get_value message TLVType_PublicKey = Some t \<and> tlv_value t = A)"

definition verify_request :: "byte list \<Rightarrow> byte list \<Rightarrow> byte list \<Rightarrow> bool" where
  "verify_request k data dev \<longleftrightarrow> (\<exists>message t u inner d s. tlv_parse data = Inr message \<and>
     tlv_get_integer_value message TLVType_State (- 1) = 3 \<and>
     tlv_get_value message TLVType_EncryptedData = Some t \<and>
     tlv_value t = sealed k (nonce_text ''PV-Msg03'') [] u \<and> u \<noteq> [] \<and> tlv_parse u = Inr inner \<and>
     tlv_get_value inner TLVType_Identifier = Some d \<and> tlv_value d = dev \<and>
     tlv_get_value inner TLVType_Signature = Some s)"

lemma secure_reset:
  assumes s: "secure_session W sent S i" and c: "client S i = Inr c"
  shows "set_step S i HOMEKIT_CLIENT_STEP_NONE = Inr (set_client S i (c\<lparr>cl_step := HOMEKIT_CLIENT_STEP_NONE\<rparr>))"
    and "secure_session W sent (set_client S i (c\<lparr>cl_step := HOMEKIT_CLIENT_STEP_NONE\<rparr>)) i"
proof -
  have k: "length (cl_read_key c) = 32" using s c by (auto simp: secure_session_def)
  show "set_step S i HOMEKIT_CLIENT_STEP_NONE = Inr (set_client S i (c\<lparr>cl_step := HOMEKIT_CLIENT_STEP_NONE\<rparr>))"
    by (simp add: set_step_def modify_client_def c)
  show "secure_session W sent (set_client S i (c\<lparr>cl_step := HOMEKIT_CLIENT_STEP_NONE\<rparr>)) i"
    using secure_modify(2) [OF s c, of "\<lambda>c. c\<lparr>cl_step := HOMEKIT_CLIENT_STEP_NONE\<rparr>"] k by simp
qed

text \<open>M1 keeps the secret of the two keys.\<close>

lemma verify_1_ok:
  assumes s: "secure_session (en_plat E) sent S i" and q: "verify_start data A" and A: "length A = 32" "A ! 31 \<le> 0x7F"
    and P: "length (session_public E) = 32" and sg: "signing_ok (en_prims E)" and a: "sv_accessory_id S \<noteq> []"
  shows "\<exists>c. homekit_server_on_pair_verify E S i data = Inr (set_client S i c) \<and>
    secure_session (en_plat E) sent (set_client S i c) i \<and>
    cl_verify_context c = Some \<lparr>pv_secret = Some (en_curve E (session_scalar E) A),
      pv_session_key = Some (verify_key (en_curve E (session_scalar E) A)),
      pv_device_public_key = Some A, pv_accessory_public_key = Some (session_public E)\<rparr>"
proof -
  obtain message t where m: "tlv_parse data = Inr message" "tlv_get_integer_value message TLVType_State (- 1) = 1"
      "tlv_get_value message TLVType_PublicKey = Some t" "tlv_value t = A"
    using q unfolding verify_start_def by blast
  obtain c0 where c0: "client S i = Inr c0" using s by (auto simp: secure_session_def)
  define T where "T = set_client S i (c0\<lparr>cl_step := HOMEKIT_CLIENT_STEP_NONE\<rparr>)"
  note T = secure_reset [OF s c0, folded T_def]
  have Tc: "client T i = Inr (c0\<lparr>cl_step := HOMEKIT_CLIENT_STEP_NONE\<rparr>)"
    unfolding T_def by (rule client_set_same [OF c0])
  let ?x = "en_curve E (session_scalar E) A"
  have A': "\<not> 0x7F < A ! 31" using A(2) by (rule leD)
  have "homekit_server_on_pair_verify E S i data = pair_verify_1 E T i message"
    by (simp add: homekit_server_on_pair_verify_def T(1) m)
  also have "\<dots> = pair_verify_answer_1 E T i A (session_public E) ?x"
    using A(1) A' by (simp add: pair_verify_1_def m curve_keys crypto_curve25519_init_def session_public_def
        session_scalar_def)
  finally have eq: "homekit_server_on_pair_verify E S i data = pair_verify_answer_1 E T i A (session_public E) ?x" .
  have Ta: "sv_accessory_id T = sv_accessory_id S" "sv_accessory_key T = sv_accessory_key S" by (simp_all add: T_def)
  define sig where "sig = snd (accessory_sign E (sv_accessory_key S) (session_public E @ take 17 (sv_accessory_id S) @ A))"
  have sig: "accessory_sign E (sv_accessory_key S) (session_public E @ take 17 (sv_accessory_id S) @ A) = (0, sig)"
    "sig \<noteq> []"
    using accessory_sign_ok [OF sg] by (simp_all add: sig_def prod_eq_iff)
  let ?rs = "[mk_tlv TLVType_Identifier (take 17 (sv_accessory_id S)), mk_tlv TLVType_Signature sig]"
  have f: "tlv_format_alloc ?rs = Inr (tlv_format_out ?rs)" using a sig(2) by (simp add: format_alloc_eq)
  have n: "tlv_format_out ?rs \<noteq> []"
    using a by (simp add: tlv_format_chunks.simps [of _ "take 17 (sv_accessory_id S)"] Let_def)
  have k: "length (verify_key ?x) = 32" by (simp add: verify_key_def)
  let ?y = "sealed (verify_key ?x) (nonce_text ''PV-Msg02'') [] (tlv_format_out ?rs)"
  let ?vs = "[mk_tlv TLVType_State [2], mk_tlv TLVType_PublicKey (session_public E), mk_tlv TLVType_EncryptedData ?y]"
  have "session_public E \<noteq> []" using P by auto
  then have "list_all (\<lambda>t. tlv_value t \<noteq> []) ?vs" using sealed_nonempty [OF k] by simp
  then obtain d where d: "send_tlv_response (en_plat E) T i ?vs = Inr (set_client T i d)"
      "sent_to (c0\<lparr>cl_step := HOMEKIT_CLIENT_STEP_NONE\<rparr>) d" "secure_session (en_plat E) sent (set_client T i d) i"
    using secure_answer [OF T(2) Tc] by blast
  let ?f = "\<lambda>c. c\<lparr>cl_verify_context := Some \<lparr>pv_secret = Some ?x, pv_session_key = Some (verify_key ?x),
      pv_device_public_key = Some A, pv_accessory_public_key = Some (session_public E)\<rparr>,
      cl_step := HOMEKIT_CLIENT_STEP_PAIR_VERIFY_1OF2\<rparr>"
  have dk: "length (cl_read_key d) = 32" using d(3) client_set_same [OF Tc] by (auto simp: secure_session_def)
  note fm = secure_modify [OF d(3) client_set_same [OF Tc], of ?f]
  have tt: "set_client (set_client T i d) i (?f d) = set_client S i (?f d)" by (simp add: T_def set_client_twice)
  have h: "crypto_hkdf z (bytes ''Pair-Verify-Encrypt-Salt'') (bytes ''Pair-Verify-Encrypt-Info'') (Some 0) = (- 2, Some 32, [])"
    "crypto_hkdf z (bytes ''Pair-Verify-Encrypt-Salt'') (bytes ''Pair-Verify-Encrypt-Info'') (Some 32) = (0, Some 32, verify_key z)" for z
    by (simp_all add: crypto_hkdf_def verify_key_def)
  have "pair_verify_answer_1 E T i A (session_public E) ?x = Inr (set_client S i (?f d))"
    using fm(1) dk by (simp add: pair_verify_answer_1_def Ta sig(1) tlv_add_value_def tlv_add_value'_def tlv_new_def
        tlv_add_integer_value_def f h seal_sealed [OF k n] d(1) tt del: tlv_format_out.simps)
  moreover have "secure_session (en_plat E) sent (set_client S i (?f d)) i" using fm(2) dk unfolding tt by simp
  ultimately show ?thesis unfolding eq by (intro exI [of _ "?f d"]) simp
qed

text \<open>M3 opens the session for a stored pairing; the signature is not looked at.\<close>

definition session_of :: "('s, 'p) client_context_t \<Rightarrow> bool \<times> byte list \<times> byte list \<times> byte" where
  "session_of c = (cl_encrypted c, cl_read_key c, cl_write_key c, cl_permissions c)"

lemma sent_to_keys:
  assumes "sent_to c d"
  shows "cl_read_key d = cl_read_key c" "cl_write_key d = cl_write_key c" "cl_encrypted d = cl_encrypted c"
    "cl_permissions d = cl_permissions c"
  using assms [unfolded sent_to_def, THEN arg_cong [of _ _ cl_read_key]]
    assms [unfolded sent_to_def, THEN arg_cong [of _ _ cl_write_key]]
    assms [unfolded sent_to_def, THEN arg_cong [of _ _ cl_encrypted]]
    assms [unfolded sent_to_def, THEN arg_cong [of _ _ cl_permissions]] by simp_all

lemma verify_3_ok:
  assumes s: "secure_session (en_plat E) sent S i" and c: "client S i = Inr c"
    and v: "cl_verify_context c = Some v" "pv_secret v = Some secret" "pv_session_key v = Some (verify_key secret)"
    and q: "verify_request (verify_key secret) data dev"
    and f: "found_pairing (en_board E) (en_prims E) (sv_flash S) dev = Some (key, permissions)"
    and nor: "nor_flash (en_board E) mem"
  shows "\<exists>S' c'. homekit_server_on_pair_verify E S i data = Inr S' \<and> client S' i = Inr c' \<and>
    session_of c' = (True, control_key secret ''Control-Read-Encryption-Key'',
      control_key secret ''Control-Write-Encryption-Key'', permissions) \<and> same_store S S'"
proof -
  obtain message t u inner d sg where m: "tlv_parse data = Inr message"
      "tlv_get_integer_value message TLVType_State (- 1) = 3" "tlv_get_value message TLVType_EncryptedData = Some t"
      "tlv_value t = sealed (verify_key secret) (nonce_text ''PV-Msg03'') [] u" "u \<noteq> []" "tlv_parse u = Inr inner"
      "tlv_get_value inner TLVType_Identifier = Some d" "tlv_value d = dev" "tlv_get_value inner TLVType_Signature = Some sg"
    using q unfolding verify_request_def by blast
  have k: "length (verify_key secret) = 32" by (simp add: verify_key_def)
  let ?c = "c\<lparr>cl_step := HOMEKIT_CLIENT_STEP_NONE\<rparr>"
  define T where "T = set_client S i ?c"
  note T = secure_reset [OF s c, folded T_def]
  have Tc: "client T i = Inr ?c" unfolding T_def by (rule client_set_same [OF c])
  have Tf: "sv_flash T = sv_flash S" by (simp add: T_def)
  obtain p where p: "homekit_storage_find_pairing (en_board E) (en_prims E) (sv_flash S) (cstr 0 dev) (en_pairing E) = (0, p)"
      "p_permissions p = permissions"
  proof -
    have "stored (en_board E) mem (sv_flash S) (cstr 0 dev) = Some (key, permissions)"
      using f by (simp add: nor_flash.found_pairing_stored [OF nor] stored_cstr)
    then obtain j where "lookup_slot (en_board E) mem (sv_flash S) (cstr 0 dev) = Some j"
        "pd_permissions (pairing_data_of (slot (en_board E) mem (sv_flash S) j)) = permissions"
      by (auto simp: stored_def Let_def)
    then show thesis using that by (simp add: nor_flash.find_pairing_eq [OF nor] pairing_at_def)
  qed
  let ?r = "control_key secret ''Control-Read-Encryption-Key''" and ?w = "control_key secret ''Control-Write-Encryption-Key''"
  have h: "crypto_hkdf secret (bytes ''Control-Salt'') (bytes info) (Some 32) = (0, Some 32, control_key secret info)" for info
    by (simp add: crypto_hkdf_def control_key_def)
  have lr: "length ?r = 32" by (simp add: control_key_def)
  let ?c1 = "?c\<lparr>cl_read_key := ?r\<rparr>"
  note 1 = secure_modify [OF T(2) Tc, of "\<lambda>c. c\<lparr>cl_read_key := ?r\<rparr>"]
  let ?c2 = "?c1\<lparr>cl_write_key := ?w, cl_verify_context := None\<rparr>"
  let ?f2 = "\<lambda>c. c\<lparr>cl_write_key := ?w, cl_verify_context := None\<rparr>"
  have 2: "modify_client (set_client T i ?c1) i ?f2 = Inr (set_client T i ?c2)"
      "secure_session (en_plat E) sent (set_client T i ?c2) i"
    using secure_modify [OF 1(2) client_set_same [OF Tc], of ?f2] lr by (simp_all add: set_client_twice)
  obtain e where e: "send_tlv_response (en_plat E) (set_client T i ?c2) i [mk_tlv TLVType_State [4]] =
      Inr (set_client (set_client T i ?c2) i e)" "sent_to ?c2 e"
      "secure_session (en_plat E) sent (set_client (set_client T i ?c2) i e) i"
    using secure_answer [OF 2(2) client_set_same [OF Tc], of "[mk_tlv TLVType_State [4]]"] by auto
  let ?f3 = "\<lambda>c. c\<lparr>cl_pairing_id := p_id p, cl_permissions := permissions, cl_encrypted := True\<rparr>"
  have e2: "set_client (set_client T i ?c2) i e = set_client T i e" by (rule set_client_twice)
  have ek: "cl_read_key e = ?r" "cl_write_key e = ?w"
    using sent_to_keys [OF e(2)] by simp_all
  have 3: "modify_client (set_client T i e) i ?f3 = Inr (set_client T i (?f3 e))"
    by (simp add: modify_client_def client_set_same [OF Tc] set_client_twice)
  let ?N = "HOMEKIT_NOTIFY_EVENT (set_client T i (?f3 e)) HOMEKIT_EVENT_CLIENT_VERIFIED"
  let ?c4 = "(?f3 e)\<lparr>cl_step := HOMEKIT_CLIENT_STEP_PAIR_VERIFY_2OF2\<rparr>"
  have N: "client ?N i = Inr (?f3 e)" using client_set_same [OF Tc] by simp
  have 4: "set_step ?N i HOMEKIT_CLIENT_STEP_PAIR_VERIFY_2OF2 = Inr (set_client ?N i ?c4)"
    by (simp add: set_step_def modify_client_def N del: notify_fields)
  have "homekit_server_on_pair_verify E S i data = pair_verify_3 E T i message"
    by (simp add: homekit_server_on_pair_verify_def T(1) m)
  also have "\<dots> = pair_verify_device E T i v inner"
    by (simp add: pair_verify_3_def Tc v m pv_bytes_def open_sealed [OF k m(5)])
  also have "\<dots> = pair_verify_secure E T i v p"
    by (simp add: pair_verify_device_def m Tf p(1) verify_accepts)
  also have "\<dots> = Inr (set_client ?N i ?c4)"
    using 1(1) lr by (simp add: pair_verify_secure_def v pv_bytes_def h 2(1) tlv_add_integer_value_def tlv_add_value_def
        tlv_add_value'_def tlv_new_def e(1) e2 p(2) 3 4)
  finally have "homekit_server_on_pair_verify E S i data = Inr (set_client ?N i ?c4)" .
  moreover have "client (set_client ?N i ?c4) i = Inr ?c4" by (rule client_set_same [OF N])
  moreover have "session_of ?c4 = (True, ?r, ?w, permissions)" by (simp add: session_of_def ek)
  moreover have "same_store S (set_client ?N i ?c4)" by (simp add: T_def)
  ultimately show ?thesis by blast
qed

section \<open>No other way to a session\<close>

lemma client_close:
  "homekit_server_close_client S j = Inr S' \<Longrightarrow> client S' i = Inr c \<Longrightarrow> client S i = Inr c"
proof -
  assume a: "homekit_server_close_client S j = Inr S'" "client S' i = Inr c"
  have "map_of (filter (\<lambda>(k, d). k \<noteq> j) xs) i = (if i = j then None else map_of xs i)" for xs :: "(nat \<times> ('b, 'c) client_context_t) list"
    by (induction xs) auto
  then show ?thesis using a close_clients [OF a(1)] by (auto simp: client_def split: option.splits if_splits)
qed

text \<open>A client is as it was when it was made or verified, if it is still there.\<close>

definition session_is ::
  "nat \<Rightarrow> bool \<times> byte list \<times> byte list \<times> byte \<Rightarrow> ('w, 's, 'p, 'srp) homekit_server_t \<Rightarrow> bool" where
  "session_is i A S \<longleftrightarrow> (\<forall>c. client S i = Inr c \<longrightarrow> session_of c = A)"

lemma session_is_set:
  "session_is i A S \<Longrightarrow> client S j = Inr c \<Longrightarrow> session_of d = session_of c \<Longrightarrow> session_is i A (set_client S j d)"
  by (cases "j = i") (auto simp: session_is_def client_set_same client_set_other)

interpretation session_is: kept_by_sending "session_is i A" for i A
proof unfold_locales
  show "session_is i A (set_client S j d)" if "session_is i A S" "client S j = Inr c" "sent_to c d"
    for S :: "('a, 'b, 'c, 'd) homekit_server_t" and j c d
    using session_is_set [OF that(1,2)] sent_to_keys [OF that(3)] by (simp add: session_of_def)
  show "session_is i A S'" if "session_is i A S" "homekit_server_close_client S j = Inr S'"
    for S S' :: "('a, 'b, 'c, 'd) homekit_server_t" and j
    using that client_close [OF that(2)] by (simp add: session_is_def)
qed

lemma session_is_modify:
  "session_is i A S \<Longrightarrow> modify_client S j f = Inr S' \<Longrightarrow> (\<And>c. session_of (f c) = session_of c) \<Longrightarrow> session_is i A S'"
  by (auto simp: modify_client_def intro: session_is_set)

lemma session_is_failed: "session_is i A S \<Longrightarrow> verify_failed E S j e = Inr S' \<Longrightarrow> session_is i A S'"
  by (auto simp: verify_failed_def session_of_def elim!: session_is.kept_tlv_error [rotated]
      intro: session_is_modify)

lemma session_is_step: "session_is i A S \<Longrightarrow> set_step S j step = Inr S' \<Longrightarrow> session_is i A S'"
  by (auto simp: set_step_def session_of_def intro: session_is_modify)

lemma session_is_1: "session_is i A S \<Longrightarrow> pair_verify_1 E S j message = Inr S' \<Longrightarrow> session_is i A S'"
  by (auto simp: pair_verify_1_def pair_verify_answer_1_def Let_def split_beta session_of_def
      split: option.splits if_splits
      elim!: session_is_modify [rotated] intro: session_is.kept_tlv_error session_is.kept_tlv_response)

text \<open>The message M3 of a stored controller under the session key of the verify context.\<close>

definition verifies ::
  "('w, 's, 'p3, 'p2) hk_env \<Rightarrow> 'w \<Rightarrow> pair_verify_context_t \<Rightarrow> byte list \<Rightarrow> pairing \<Rightarrow> bool" where
  "verifies E w v data p \<longleftrightarrow> (\<exists>message t m inner d sg. tlv_parse data = Inr message \<and>
     tlv_get_integer_value message TLVType_State (- 1) = 3 \<and> tlv_get_value message TLVType_EncryptedData = Some t \<and>
     open_message (en_plat E) (pv_bytes (pv_session_key v)) (nonce_text ''PV-Msg03'') (tlv_value t) = (0, m) \<and>
     tlv_parse m = Inr inner \<and> tlv_get_value inner TLVType_Identifier = Some d \<and>
     tlv_get_value inner TLVType_Signature = Some sg \<and>
     homekit_storage_find_pairing (en_board E) (en_prims E) w (cstr 0 (tlv_value d)) (en_pairing E) = (0, p))"

lemma verify_session_cases:
  assumes res: "homekit_server_on_pair_verify E S i data = Inr S'" and A: "session_is i A S"
  shows "session_is i A S' \<or>
    (\<exists>c v p T. client S i = Inr c \<and> cl_verify_context c = Some v \<and> verifies E (sv_flash S) v data p \<and>
      pair_verify_secure E T i v p = Inr S')"
proof -
  obtain T message where T: "set_step S i HOMEKIT_CLIENT_STEP_NONE = Inr T" and m: "tlv_parse data = Inr message"
    and r: "(let state = tlv_get_integer_value message TLVType_State (- 1) in
       if state = 1 then pair_verify_1 E T i message
       else if state = 3 then pair_verify_3 E T i message else Inr T) = Inr S'"
    using res by (auto simp: homekit_server_on_pair_verify_def)
  have AT: "session_is i A T" by (rule session_is_step [OF A T])
  obtain c where c: "client S i = Inr c" "client T i = Inr (c\<lparr>cl_step := HOMEKIT_CLIENT_STEP_NONE\<rparr>)"
      "sv_flash T = sv_flash S"
    using T by (auto simp: set_step_def modify_client_def client_set_same)
  consider "tlv_get_integer_value message TLVType_State (- 1) = 3" "pair_verify_3 E T i message = Inr S'"
    | "session_is i A S'"
    using r AT session_is_1 [OF AT, of E i message] by (auto simp: Let_def split: if_splits)
  then show ?thesis
  proof cases
    case 1
    note failed = session_is_failed [OF AT, of E i] session_is.kept_tlv_error [OF AT, of "en_plat E" i]
    show ?thesis
    proof (rule ccontr)
      assume "\<not> ?thesis"
      then have no: "\<not> session_is i A S'" "\<And>v p. cl_verify_context c = Some v \<Longrightarrow> verifies E (sv_flash S) v data p \<Longrightarrow>
          pair_verify_secure E T i v p \<noteq> Inr S'"
        using c(1) by blast+
      obtain v t dm inner where v: "cl_verify_context c = Some v" "tlv_get_value message TLVType_EncryptedData = Some t"
          "open_message (en_plat E) (pv_bytes (pv_session_key v)) (nonce_text ''PV-Msg03'') (tlv_value t) = (0, dm)"
          "tlv_parse dm = Inr inner" "pair_verify_device E T i v inner = Inr S'"
        using 1(2) no(1) failed
        by (auto simp: pair_verify_3_def c(2) Let_def split_beta prod_eq_iff split: option.splits if_splits)
      obtain d sg p where d: "tlv_get_value inner TLVType_Identifier = Some d" "tlv_get_value inner TLVType_Signature = Some sg"
          "homekit_storage_find_pairing (en_board E) (en_prims E) (sv_flash S) (cstr 0 (tlv_value d)) (en_pairing E) = (0, p)"
          "pair_verify_secure E T i v p = Inr S'"
        using v(5) no(1) failed
        by (auto simp: pair_verify_device_def c(3) Let_def split_beta prod_eq_iff verify_accepts split: option.splits if_splits)
      have "verifies E (sv_flash S) v data p"
        unfolding verifies_def using m 1(1) v(2-4) d(1-3) by blast
      then show False using no(2) v(1) d(4) by blast
    qed
  qed simp
qed

lemma secure_permissions:
  "pair_verify_secure E S i v p = Inr S' \<Longrightarrow> \<exists>c. client S' i = Inr c \<and> cl_permissions c = p_permissions p \<and>
    cl_pairing_id c = p_id p \<and> cl_encrypted c"
  by (auto simp: pair_verify_secure_def crypto_hkdf_def set_step_def modify_client_def client_set_same)

lemma same_store_client: "same_store (set_client S i c) T = same_store S T"
  by (simp add: same_store_def set_client_def)

section \<open>Properties\<close>

text \<open>
  C3: Both sides agree on the keys of a session.  When a controller with the scalar \<open>a\<close> starts with its
  public point, the M3 it seals under the secret of \<open>a\<close> and the accessory's point, naming a stored
  pairing, makes its connection encrypted, with the two control keys of that secret and with the
  permissions of the pairing.  What the signature in M3 is does not matter: knowing the identifier of a
  stored controller is enough.
\<close>

theorem pair_verify_agreement:
  assumes "curve_agrees (en_curve E)" and "nor_flash (en_board E) mem" and "signing_ok (en_prims E)"
    and "secure_session (en_plat E) sent S i" and "sv_accessory_id S \<noteq> []"
    and "verify_start m1 (en_curve E a basepoint)"
    and "found_pairing (en_board E) (en_prims E) (sv_flash S) dev = Some (key, permissions)"
    and "secret = en_curve E a (session_public E)"
  shows "\<exists>S1. homekit_server_on_pair_verify E S i m1 = Inr S1 \<and>
    (\<forall>m3. verify_request (verify_key secret) m3 dev \<longrightarrow> (\<exists>S2 c. homekit_server_on_pair_verify E S1 i m3 = Inr S2 \<and>
      client S2 i = Inr c \<and> session_of c = (True, control_key secret ''Control-Read-Encryption-Key'',
        control_key secret ''Control-Write-Encryption-Key'', permissions) \<and> same_store S S2))"
proof -
  have A: "length (en_curve E a basepoint) = 32" "en_curve E a basepoint ! 31 \<le> 0x7F" "length (session_public E) = 32"
    "en_curve E (session_scalar E) (en_curve E a basepoint) = secret"
    using assms(1) by (simp_all add: curve_agrees_def session_public_def assms(8))
  obtain c where c: "homekit_server_on_pair_verify E S i m1 = Inr (set_client S i c)"
      "secure_session (en_plat E) sent (set_client S i c) i"
      "cl_verify_context c = Some \<lparr>pv_secret = Some secret, pv_session_key = Some (verify_key secret),
        pv_device_public_key = Some (en_curve E a basepoint), pv_accessory_public_key = Some (session_public E)\<rparr>"
    using verify_1_ok [OF assms(4,6) A(1-3) assms(3,5)] unfolding A(4) by blast
  obtain d where "client S i = Inr d" using assms(4) by (auto simp: secure_session_def)
  note cl = client_set_same [OF this, of c]
  have f: "found_pairing (en_board E) (en_prims E) (sv_flash (set_client S i c)) dev = Some (key, permissions)"
    using assms(7) by simp
  show ?thesis
    using c(1) verify_3_ok [OF c(2) cl c(3) _ _ _ f assms(2), of secret] by (auto simp: same_store_client)
qed

text \<open>
  C4: A session changes hands in no other way.  When handling a pair verify message changes the keys, the
  permissions or the encryption of the client, M1 came before, the message is an M3 that opens under the
  key M1 made, and it names a pairing in the flash, whose number and permissions the client has afterwards.
\<close>

theorem pair_verify_only_stored:
  assumes "homekit_server_on_pair_verify E S i data = Inr S'" and "client S i = Inr c" and "client S' i = Inr c'"
    and "session_of c' \<noteq> session_of c"
  shows "\<exists>v p. cl_verify_context c = Some v \<and> verifies E (sv_flash S) v data p \<and>
    cl_encrypted c' \<and> cl_permissions c' = p_permissions p \<and> cl_pairing_id c' = p_id p"
proof -
  have "session_is i (session_of c) S" using assms(2) by (simp add: session_is_def)
  moreover have "\<not> session_is i (session_of c) S'" using assms(3,4) by (auto simp: session_is_def)
  ultimately obtain v p T where v: "cl_verify_context c = Some v" "verifies E (sv_flash S) v data p"
      "pair_verify_secure E T i v p = Inr S'"
    using verify_session_cases [OF assms(1)] assms(2) by fastforce
  then show ?thesis using secure_permissions [OF v(3)] assms(3) by auto
qed

definition make_verify_request :: "byte list \<Rightarrow> byte list \<Rightarrow> byte list" where
  "make_verify_request k dev = tlv_format_out [mk_tlv TLVType_State [3], mk_tlv TLVType_EncryptedData
     (sealed k (nonce_text ''PV-Msg03'') [] (tlv_format_out [mk_tlv TLVType_Identifier dev, mk_tlv TLVType_Signature [0]]))]"

lemma make_verify_request_ok:
  assumes "length k = 32" and "dev \<noteq> []"
  shows "verify_request k (make_verify_request k dev) dev"
proof -
  let ?inner = "[mk_tlv TLVType_Identifier dev, mk_tlv TLVType_Signature [0]]"
  have w: "tlv_parse (tlv_format_out ?inner) = Inr ?inner"
    using assms(2) by (intro parse_format_out) (simp add: TLVType_defs)
  have ne: "tlv_format_out ?inner \<noteq> []"
    using assms(2) by (simp add: tlv_format_chunks.simps [of _ dev] Let_def)
  let ?x = "sealed k (nonce_text ''PV-Msg03'') [] (tlv_format_out ?inner)"
  have p: "tlv_parse (make_verify_request k dev) = Inr [mk_tlv TLVType_State [3], mk_tlv TLVType_EncryptedData ?x]"
    unfolding make_verify_request_def using sealed_nonempty [OF assms(1)]
    by (intro parse_format_out) (simp add: TLVType_defs)
  show ?thesis
    unfolding verify_request_def
    by (rule exI [of _ "[mk_tlv TLVType_State [3], mk_tlv TLVType_EncryptedData ?x]"],
        rule exI [of _ "mk_tlv TLVType_EncryptedData ?x"], rule exI [of _ "tlv_format_out ?inner"],
        rule exI [of _ ?inner])
      (use p w ne in \<open>simp add: TLVType_defs tlv_get_integer_value_def le_int_def del: tlv_format_out.simps\<close>)
qed

lemma sample_env_fields:
  "en_board sample_env = ram_board" "en_prims sample_env = toy_prims" "en_plat sample_env = idle_platform"
  "en_curve sample_env = toy_curve"
  by (simp_all add: sample_env_def)

text \<open>Any scalar serves: here \<open>[77]\<close>.\<close>

definition sample_secret :: "byte list" where
  "sample_secret = toy_curve [77] (session_public sample_env)"

lemma pair_verify_agreement_witness:
  "\<exists>w permissions S1 S2 c.
    homekit_server_on_pair_verify sample_env (sample_server w :: (_, _, _, unit) homekit_server_t) 0
      (tlv_format_out [mk_tlv TLVType_State [1], mk_tlv TLVType_PublicKey (toy_curve [77] basepoint)]) = Inr S1 \<and>
    homekit_server_on_pair_verify sample_env S1 0 (make_verify_request (verify_key sample_secret) [65]) = Inr S2 \<and>
    client S2 0 = Inr c \<and> session_of c = (True, control_key sample_secret ''Control-Read-Encryption-Key'',
      control_key sample_secret ''Control-Write-Encryption-Key'', permissions)"
proof -
  obtain w kp where w: "found_pairing ram_board toy_prims w [65] = Some kp" using two_pairings_ram by blast
  let ?S = "sample_server w :: (_, _, _, unit) homekit_server_t"
  let ?vs = "[mk_tlv TLVType_State [1], mk_tlv TLVType_PublicKey (toy_curve [77] basepoint)]"
  have "tlv_parse (tlv_format_out ?vs) = Inr ?vs"
    by (intro parse_format_out) (simp add: TLVType_defs toy_curve_def)
  then have m1: "verify_start (tlv_format_out ?vs) (toy_curve [77] basepoint)"
    by (simp add: verify_start_def TLVType_defs tlv_get_integer_value_def le_int_def del: tlv_format_out.simps)
  have m3: "verify_request (verify_key sample_secret) (make_verify_request (verify_key sample_secret) [65]) [65]"
    by (rule make_verify_request_ok) (simp_all add: verify_key_def)
  have id: "sv_accessory_id ?S \<noteq> []" by (simp add: sample_server_def)
  have f: "found_pairing (en_board sample_env) (en_prims sample_env) (sv_flash ?S) [65] = Some (fst kp, snd kp)"
    using w by (simp add: sample_env_fields)
  have "\<exists>S1. homekit_server_on_pair_verify sample_env ?S 0 (tlv_format_out ?vs) = Inr S1 \<and>
    (\<forall>m3. verify_request (verify_key sample_secret) m3 [65] \<longrightarrow>
      (\<exists>S2 c. homekit_server_on_pair_verify sample_env S1 0 m3 = Inr S2 \<and> client S2 0 = Inr c \<and>
        session_of c = (True, control_key sample_secret ''Control-Read-Encryption-Key'',
          control_key sample_secret ''Control-Write-Encryption-Key'', snd kp) \<and> same_store ?S S2))"
    by (rule pair_verify_agreement [where mem = ram_mem and sent = id and a = "[77]" and key = "fst kp"])
      (use m1 f id in \<open>simp_all add: sample_env_fields ram.nor_flash_axioms toy_signing_ok toy_curve_agrees sample_admin
        sample_secret_def del: tlv_format_out.simps\<close>)
  then show ?thesis using m3 by blast
qed

lemma pair_verify_only_stored_witness:
  "\<exists>w v c' p S'. cl_verify_context c' = Some v \<and>
    homekit_server_on_pair_verify sample_env (set_client (sample_server w :: (_, _, _, unit) homekit_server_t) 0 c') 0
      (make_verify_request (verify_key [1]) [65]) = Inr S' \<and>
    verifies sample_env w v (make_verify_request (verify_key [1]) [65]) p"
proof -
  obtain w kp where w: "found_pairing ram_board toy_prims w [65] = Some kp" using two_pairings_ram by blast
  let ?v = "\<lparr>pv_secret = Some [1], pv_session_key = Some (verify_key [1]), pv_device_public_key = None, pv_accessory_public_key = None\<rparr>"
  let ?c = "sample_client\<lparr>cl_encrypted := False, cl_verify_context := Some ?v\<rparr>"
  let ?S = "set_client (sample_server w :: (_, _, _, unit) homekit_server_t) 0 ?c"
  have c: "client ?S 0 = Inr ?c" by (rule client_set_same [OF sample_server_ok(2)])
  have "writable idle_platform ?c" by (simp add: writable_def sample_client_def idle_platform_def)
  moreover have "length (cl_read_key ?c) = 32" by (simp add: sample_client_def)
  ultimately have s: "secure_session idle_platform id ?S 0"
    using sample_admin(2) [of w] c by (simp add: secure_session_def)
  have m3: "verify_request (verify_key [1]) (make_verify_request (verify_key [1]) [65]) [65]"
    by (rule make_verify_request_ok) (simp_all add: verify_key_def)
  have f: "found_pairing (en_board sample_env) (en_prims sample_env) (sv_flash ?S) [65] = Some (fst kp, snd kp)"
    using w by (simp add: sample_env_fields)
  obtain S' c' where S': "homekit_server_on_pair_verify sample_env ?S 0 (make_verify_request (verify_key [1]) [65]) = Inr S'"
      "client S' 0 = Inr c'" "cl_encrypted c'"
    using verify_3_ok [OF _ c _ _ _ m3 f, where sent = id and mem = ram_mem] s
    by (auto simp: sample_env_fields ram.nor_flash_axioms session_of_def)
  have "session_of c' \<noteq> session_of ?c" using S'(3) by (simp add: session_of_def)
  then obtain p where "verifies sample_env (sv_flash ?S) ?v (make_verify_request (verify_key [1]) [65]) p"
    using pair_verify_only_stored [OF S'(1) c S'(2)] by auto
  then show ?thesis using S'(1) by (intro exI [of _ w] exI [of _ ?v] exI [of _ ?c]) auto
qed

end
