(* ===== verification/Char_Json.thy ===== *)
theory Char_Json
  imports Pairings Base64
begin

text \<open>
  The JSON the server writes: \<open>write_characteristic_json\<close>, \<open>homekit_server_on_get_accessories\<close>,
  \<open>homekit_server_on_get_characteristics\<close> and \<open>send_client_events\<close> of \<open>src/arduino_homekit_server.cpp\<close>.
  Which calls of the stream writer are made does not depend on the stream, so a function that writes is
  the list of its calls; running them into the buffer and passing the full buffers on is \<open>stream_json\<close>.
  (The code sends a buffer when it is full and the model after the last call; in between the code only
  calls getters, and a client that is closed by a failed write is used again by the last chunk in any
  case.)  The application is a parameter.
\<close>

section \<open>The application\<close>

text \<open>
  The value of a parsed JSON text, \<open>cJSON\<close>.  A number is the rational number its \<open>valuedouble\<close> stands for.
\<close>

datatype cjson =
    cJSON_False
  | cJSON_True
  | cJSON_NULL
  | cJSON_Number rat
  | cJSON_String string
  | cJSON_Array "cjson list"
  | cJSON_Object "(string \<times> cjson) list"

text \<open>
  Getters and setters, by the numbers that stand for function pointers; a setter may change the tree.
  \<open>ap_format_g\<close> is \<open>%1.15g\<close>, \<open>ap_float\<close> rounds a double to a float, \<open>ap_undef\<close> is what the conversion of a
  number outside the range of an integer type gives, \<open>ap_junk\<close> what an uninitialised value holds,
  \<open>ap_heap\<close> what a new block holds and \<open>ap_parse\<close> is \<open>cJSON_Parse\<close>.
\<close>

record app =
  ap_getter :: "nat \<Rightarrow> homekit_value"
  ap_getter_ex :: "nat \<Rightarrow> homekit_characteristic \<Rightarrow> homekit_value"
  ap_setter :: "nat \<Rightarrow> homekit_value \<Rightarrow> homekit_accessory list \<Rightarrow> homekit_accessory list"
  ap_setter_ex :: "nat \<Rightarrow> ch_path \<Rightarrow> homekit_value \<Rightarrow> homekit_accessory list \<Rightarrow> homekit_accessory list"
  ap_format_g :: "rat \<Rightarrow> string"
  ap_float :: "rat \<Rightarrow> rat"
  ap_undef :: "rat \<Rightarrow> int"
  ap_junk :: homekit_value
  ap_heap :: "byte list"
  ap_parse :: "string \<Rightarrow> cjson option"
  ap_on_resource :: bool

section \<open>Calls of the writer\<close>

definition op_boolean :: "bool \<Rightarrow> json_op" where
  "op_boolean x = Scalar (if x then ''true'' else ''false'')"
definition op_null :: json_op where "op_null = Scalar ''null''"
definition op_uint8 :: "byte \<Rightarrow> json_op" where "op_uint8 x = Scalar (snprintf 4 (fmt_u (unat x)))"
definition op_uint16 :: "u16 \<Rightarrow> json_op" where "op_uint16 x = Scalar (snprintf 6 (fmt_u (unat x)))"
definition op_uint32 :: "u32 \<Rightarrow> json_op" where "op_uint32 x = Scalar (snprintf 11 (fmt_u (unat x)))"
definition op_uint64 :: "u64 \<Rightarrow> json_op" where "op_uint64 x = Scalar (dec_digits (unat x) [])"
definition op_integer :: "u32 \<Rightarrow> json_op" where "op_integer x = Scalar (snprintf 7 (fmt_d (sint x)))"
definition op_float :: "app \<Rightarrow> rat \<Rightarrow> json_op" where "op_float G x = Scalar (snprintf 32 (ap_format_g G x))"

lemmas op_defs = op_boolean_def op_null_def op_uint8_def op_uint16_def op_uint32_def op_uint64_def op_integer_def
  op_float_def

lemma op_calls:
  "json_call (op_boolean x) j = json_boolean j x" "json_call op_null j = json_null j"
  "json_call (op_uint8 a) j = json_uint8 j a" "json_call (op_uint16 b) j = json_uint16 j b"
  "json_call (op_uint32 c) j = json_uint32 j c" "json_call (op_uint64 d) j = json_uint64 j d"
  "json_call (op_integer c) j = json_integer j c" "json_call (op_float G f) j = json_float (ap_format_g G) j f"
  by (simp_all add: op_defs json_boolean_def json_null_def json_uint8_def json_uint16_def json_uint32_def
      json_uint64_def json_integer_def json_float_def json_number_def)

section \<open>A characteristic\<close>

definition characteristic_format_type :: u32 where "characteristic_format_type = 2"
definition characteristic_format_meta :: u32 where "characteristic_format_meta = 4"
definition characteristic_format_perms :: u32 where "characteristic_format_perms = 8"
definition characteristic_format_events :: u32 where "characteristic_format_events = 16"

definition has_bit :: "u32 \<Rightarrow> u32 \<Rightarrow> bool" where
  "has_bit x m \<longleftrightarrow> x AND m \<noteq> 0"

definition perms_calls :: "u32 \<Rightarrow> json_op list" where
  "perms_calls p =
     [Str ''perms'', ArrayStart]
     @ (if has_bit p homekit_permissions_paired_read then [Str ''pr''] else [])
     @ (if has_bit p homekit_permissions_paired_write then [Str ''pw''] else [])
     @ (if has_bit p homekit_permissions_notify then [Str ''ev''] else [])
     @ (if has_bit p homekit_permissions_additional_authorization then [Str ''aa''] else [])
     @ (if has_bit p homekit_permissions_timed_write then [Str ''tw''] else [])
     @ (if has_bit p homekit_permissions_hidden then [Str ''hd''] else [])
     @ [ArrayEnd]"

definition format_str :: "homekit_format \<Rightarrow> string" where
  "format_str f = (case f of
     homekit_format_bool \<Rightarrow> ''bool''
   | homekit_format_uint8 \<Rightarrow> ''uint8''
   | homekit_format_uint16 \<Rightarrow> ''uint16''
   | homekit_format_uint32 \<Rightarrow> ''uint32''
   | homekit_format_uint64 \<Rightarrow> ''uint64''
   | homekit_format_int \<Rightarrow> ''int''
   | homekit_format_float \<Rightarrow> ''float''
   | homekit_format_string \<Rightarrow> ''string''
   | homekit_format_tlv \<Rightarrow> ''tlv8''
   | homekit_format_data \<Rightarrow> ''data'')"

definition unit_str :: "homekit_unit \<Rightarrow> string option" where
  "unit_str u = (case u of
     homekit_unit_none \<Rightarrow> None
   | homekit_unit_celsius \<Rightarrow> Some ''celsius''
   | homekit_unit_percentage \<Rightarrow> Some ''percentage''
   | homekit_unit_arcdegrees \<Rightarrow> Some ''arcdegrees''
   | homekit_unit_lux \<Rightarrow> Some ''lux''
   | homekit_unit_seconds \<Rightarrow> Some ''seconds'')"

text \<open>A member that is written when a pointer is not NULL.\<close>

definition optional :: "string \<Rightarrow> ('a \<Rightarrow> json_op) \<Rightarrow> 'a option \<Rightarrow> json_op list" where
  "optional key f x = (case x of None \<Rightarrow> [] | Some a \<Rightarrow> [Str key, f a])"

definition meta_calls :: "app \<Rightarrow> homekit_characteristic \<Rightarrow> json_op list" where
  "meta_calls G ch =
     optional ''description'' Str (c_description ch)
     @ [Str ''format'', Str (format_str (c_format ch))]
     @ optional ''unit'' Str (unit_str (c_unit ch))
     @ optional ''minValue'' (op_float G) (c_min_value ch)
     @ optional ''maxValue'' (op_float G) (c_max_value ch)
     @ optional ''minStep'' (op_float G) (c_min_step ch)
     @ optional ''maxLen'' (\<lambda>n. op_uint32 (of_int n)) (c_max_len ch)
     @ optional ''maxDataLen'' (\<lambda>n. op_uint32 (of_int n)) (c_max_data_len ch)
     @ (if c_valid_values ch = [] then []
        else [Str ''valid-values'', ArrayStart] @ map (\<lambda>v. op_uint16 (ucast v)) (c_valid_values ch) @ [ArrayEnd])
     @ (if c_valid_values_ranges ch = [] then []
        else [Str ''valid-values-range'', ArrayStart]
          @ concat (map (\<lambda>(a, b). [ArrayStart, op_integer (ucast a), op_integer (ucast b), ArrayEnd])
              (c_valid_values_ranges ch)) @ [ArrayEnd])"

text \<open>The value: the one given, the getter's or the stored one.\<close>

definition read_value :: "app \<Rightarrow> homekit_characteristic \<Rightarrow> homekit_value option \<Rightarrow> fault + homekit_value" where
  "read_value G ch value =
     (case value of
        Some v \<Rightarrow> Inr v
      | None \<Rightarrow>
          (case c_getter_ex ch of
             None \<Rightarrow> Inr (c_value ch)
           | Some Old_getter \<Rightarrow> (case c_getter ch of None \<Rightarrow> Inl Null_deref | Some g \<Rightarrow> Inr (ap_getter G g))
           | Some (User_getter_ex g) \<Rightarrow> Inr (ap_getter_ex G g ch)))"

definition value_op :: "app \<Rightarrow> homekit_value \<Rightarrow> fault + json_op" where
  "value_op G v =
     (case v_format v of
        homekit_format_bool \<Rightarrow> Inr (op_boolean (bool_value v))
      | homekit_format_uint8 \<Rightarrow> Inr (op_uint8 (ucast (v_num v)))
      | homekit_format_uint16 \<Rightarrow> Inr (op_uint16 (ucast (v_num v)))
      | homekit_format_uint32 \<Rightarrow> Inr (op_uint32 (ucast (v_num v)))
      | homekit_format_uint64 \<Rightarrow> Inr (op_uint64 (v_num v))
      | homekit_format_int \<Rightarrow> Inr (op_integer (int_value v))
      | homekit_format_float \<Rightarrow> Inr (op_float G (v_float v))
      | homekit_format_string \<Rightarrow> (case v_string v of None \<Rightarrow> Inl Null_deref | Some s \<Rightarrow> Inr (Str s))
      | homekit_format_tlv \<Rightarrow>
          (case v_tlv v of
             None \<Rightarrow> Inr (Str [])
           | Some t \<Rightarrow> if tlv_required_size t = 0 then Inr (Str [])
                       else bind_res (tlv_format_alloc t) (\<lambda>d. Inr (Str (chars (base64_encode' d)))))
      | homekit_format_data \<Rightarrow>
          (case v_data v of
             None \<Rightarrow> Inr (Str [])
           | Some d \<Rightarrow> if v_data_size v = 0 then Inr (Str [])
                       else if length d < v_data_size v then Inl Oob_read
                       else Inr (Str (chars (base64_encode' (take (v_data_size v) d))))))"

definition value_calls :: "app \<Rightarrow> homekit_characteristic \<Rightarrow> homekit_value option \<Rightarrow> fault + json_op list" where
  "value_calls G ch value =
     (if \<not> has_bit (c_permissions ch) homekit_permissions_paired_read then Inr []
      else bind_res (read_value G ch value) (\<lambda>v.
        if v_is_null v then Inr [Str ''value'', op_null]
        else if v_format v \<noteq> c_format ch then Inr []
        else bind_res (value_op G v) (\<lambda>c. Inr [Str ''value'', c])))"

text \<open>\<open>p\<close> is the characteristic and \<open>i\<close> the client.\<close>

definition write_characteristic_json ::
  "app \<Rightarrow> homekit_accessory list \<Rightarrow> nat \<Rightarrow> ch_path \<Rightarrow> u32 \<Rightarrow> homekit_value option \<Rightarrow> fault + json_op list" where
  "write_characteristic_json G as i p format value =
     (let ch = get_ch as p in
      bind_res (value_calls G ch value) (\<lambda>vs. Inr (
        [Str ''aid'', op_uint32 (a_id (as ! fst p)), Str ''iid'', op_uint32 (c_id ch)]
        @ (if has_bit format characteristic_format_type then [Str ''type'', Str (c_type ch)] else [])
        @ (if has_bit format characteristic_format_perms then perms_calls (c_permissions ch) else [])
        @ (if has_bit format characteristic_format_events \<and> has_bit (c_permissions ch) homekit_permissions_notify
           then [Str ''ev'', op_boolean (homekit_characteristic_has_notify_callback ch client_notify_callback i)] else [])
        @ (if has_bit format characteristic_format_meta then meta_calls G ch else [])
        @ vs)))"

section \<open>Sending what is written\<close>

fun collect :: "('a \<Rightarrow> fault + 'b list) \<Rightarrow> 'a list \<Rightarrow> fault + 'b list" where
  "collect f [] = Inr []"
| "collect f (x # xs) = bind_res (f x) (\<lambda>a. bind_res (collect f xs) (\<lambda>b. Inr (a @ b)))"

definition stream_json ::
  "'s platform \<Rightarrow> ('w, 's, 'p, 'srp) homekit_server_t \<Rightarrow> nat \<Rightarrow> json_op list \<Rightarrow> fault + ('w, 's, 'p, 'srp) homekit_server_t"
  where
  "stream_json W S i calls =
     bind_res (json_calls calls (json_new HOMEKIT_JSONBUFFER_SIZE True)) (\<lambda>json.
     bind_res (send_chunks W S i (js_flushed (json_flush json))) (\<lambda>S.
       client_send_chunk W S i []))"

definition json_200_response_headers :: string where
  "json_200_response_headers =
     ''HTTP/1.1 200 OK'' @ crlf @ ''Content-Type: application/hap+json'' @ crlf
     @ ''Transfer-Encoding: chunked'' @ crlf @ ''Connection: keep-alive'' @ crlf @ crlf"

definition json_207_response_headers :: string where
  "json_207_response_headers =
     ''HTTP/1.1 207 Multi-Status'' @ crlf @ ''Content-Type: application/hap+json'' @ crlf
     @ ''Transfer-Encoding: chunked'' @ crlf @ ''Connection: keep-alive'' @ crlf @ crlf"

section \<open>The accessory database\<close>

definition service_calls ::
  "app \<Rightarrow> homekit_accessory list \<Rightarrow> nat \<Rightarrow> nat \<Rightarrow> nat \<Rightarrow> fault + json_op list" where
  "service_calls G as i a s =
     (let service = a_services (as ! a) ! s in
      bind_res (collect (\<lambda>k. bind_res (write_characteristic_json G as i (a, s, k)
          (characteristic_format_type OR characteristic_format_meta OR characteristic_format_perms
             OR characteristic_format_events) None) (\<lambda>cs. Inr ([ObjectStart] @ cs @ [ObjectEnd])))
        [0..<length (s_characteristics service)]) (\<lambda>chs. Inr (
          [ObjectStart, Str ''iid'', op_uint32 (s_id service), Str ''type'', Str (s_type service),
           Str ''hidden'', op_boolean (s_hidden service), Str ''primary'', op_boolean (s_primary service)]
          @ (case s_linked service of
               None \<Rightarrow> []
             | Some ls \<Rightarrow> [Str ''linked'', ArrayStart]
                 @ map (\<lambda>l. op_uint32 (s_id (a_services (as ! a) ! l))) ls @ [ArrayEnd])
          @ [Str ''characteristics'', ArrayStart] @ chs @ [ArrayEnd, ObjectEnd])))"

definition accessory_calls :: "app \<Rightarrow> homekit_accessory list \<Rightarrow> nat \<Rightarrow> nat \<Rightarrow> fault + json_op list" where
  "accessory_calls G as i a =
     bind_res (collect (service_calls G as i a) [0..<length (a_services (as ! a))]) (\<lambda>ss. Inr (
       [ObjectStart, Str ''aid'', op_uint32 (a_id (as ! a)), Str ''services'', ArrayStart] @ ss
       @ [ArrayEnd, ObjectEnd]))"

definition accessories_calls :: "app \<Rightarrow> homekit_accessory list \<Rightarrow> nat \<Rightarrow> fault + json_op list" where
  "accessories_calls G as i =
     bind_res (collect (accessory_calls G as i) [0..<length as]) (\<lambda>cs. Inr (
       [ObjectStart, Str ''accessories'', ArrayStart] @ cs @ [ArrayEnd, ObjectEnd]))"

definition homekit_server_on_get_accessories ::
  "app \<Rightarrow> 's platform \<Rightarrow> ('w, 's, 'p, 'srp) homekit_server_t \<Rightarrow> nat \<Rightarrow> fault + ('w, 's, 'p, 'srp) homekit_server_t" where
  "homekit_server_on_get_accessories G W S i =
     bind_res (client_send_P W S i json_200_response_headers) (\<lambda>S.
     bind_res (accessories_calls G (sv_accessories S) i) (\<lambda>calls. stream_json W S i calls))"

section \<open>Reading characteristics\<close>

text \<open>\<open>strsep\<close> with the delimiter \<open>,\<close>, and the two parts around the first dot.\<close>

function split_at :: "char \<Rightarrow> string \<Rightarrow> string list" where
  "split_at c s = (case dropWhile (\<lambda>x. x \<noteq> c) s of
     [] \<Rightarrow> [takeWhile (\<lambda>x. x \<noteq> c) s]
   | _ # rest \<Rightarrow> takeWhile (\<lambda>x. x \<noteq> c) s # split_at c rest)"
  by pat_completeness auto
termination
proof (relation "measure (\<lambda>(c, s). length s)")
  fix c s x rest
  assume "dropWhile (\<lambda>x. x \<noteq> c) s = x # rest"
  then show "((c, rest), (c, s)) \<in> measure (\<lambda>(c, s). length s)"
    using length_dropWhile_le [of "\<lambda>x. x \<noteq> c" s] by simp
qed simp

declare split_at.simps [simp del]

text \<open>\<open>atoi\<close>: white space, a sign and the digits; what it gives for a number that is no \<open>int\<close> is not defined.\<close>

definition is_digit :: "char \<Rightarrow> bool" where
  "is_digit c \<longleftrightarrow> 48 \<le> (of_char c :: nat) \<and> (of_char c :: nat) \<le> 57"

definition is_space :: "char \<Rightarrow> bool" where
  "is_space c \<longleftrightarrow> c = CHR '' '' \<or> c \<in> {CHR 0x09, CHR 0x0A, CHR 0x0B, CHR 0x0C, CHR 0x0D}"

definition digits_value :: "string \<Rightarrow> int" where
  "digits_value s = foldl (\<lambda>n c. 10 * n + (of_char c - 48)) 0 (takeWhile is_digit s)"

definition atoi :: "app \<Rightarrow> string \<Rightarrow> int" where
  "atoi G s =
     (let s = dropWhile is_space s;
          n = (case s of
                 CHR ''-'' # r \<Rightarrow> - digits_value r
               | CHR ''+'' # r \<Rightarrow> digits_value r
               | _ \<Rightarrow> digits_value s) in
      if - (2 ^ 31) \<le> n \<and> n < 2 ^ 31 then n else ap_undef G (of_int n))"

definition parse_id :: "app \<Rightarrow> string \<Rightarrow> (u32 \<times> u32) option" where
  "parse_id G s =
     (case dropWhile (\<lambda>x. x \<noteq> CHR ''.'') s of
        [] \<Rightarrow> None
      | _ # rest \<Rightarrow> Some (of_int (atoi G (takeWhile (\<lambda>x. x \<noteq> CHR ''.'') s)), of_int (atoi G rest)))"

definition bool_endpoint_param :: "string \<Rightarrow> query_param list \<Rightarrow> bool" where
  "bool_endpoint_param name params =
     (case query_params_find params name of None \<Rightarrow> False | Some param \<Rightarrow> qp_value param = Some ''1'')"

definition write_characteristic_error :: "u32 \<Rightarrow> u32 \<Rightarrow> int \<Rightarrow> json_op list" where
  "write_characteristic_error aid iid status =
     [ObjectStart, Str ''aid'', op_uint32 aid, Str ''iid'', op_uint32 iid, Str ''status'', op_uint8 (of_int status),
      ObjectEnd]"

text \<open>What is asked for of each characteristic.\<close>

definition requested_format :: "query_param list \<Rightarrow> u32" where
  "requested_format params =
     (let format = 0;
          format = (if bool_endpoint_param ''meta'' params then format OR characteristic_format_meta else format);
          format = (if bool_endpoint_param ''perms'' params then format OR characteristic_format_perms else format);
          format = (if bool_endpoint_param ''type'' params then format OR characteristic_format_type else format) in
      if bool_endpoint_param ''ev'' params then format OR characteristic_format_events else format)"

definition readable :: "homekit_accessory list \<Rightarrow> u32 \<times> u32 \<Rightarrow> bool" where
  "readable as k =
     (case homekit_characteristic_by_aid_and_iid as (fst k) (snd k) of
        None \<Rightarrow> False
      | Some p \<Rightarrow> has_bit (c_permissions (get_ch as p)) homekit_permissions_paired_read)"

definition requested_calls ::
  "app \<Rightarrow> homekit_accessory list \<Rightarrow> nat \<Rightarrow> u32 \<Rightarrow> bool \<Rightarrow> u32 \<times> u32 \<Rightarrow> fault + json_op list" where
  "requested_calls G as i format success k =
     (let (aid, iid) = k in
      case homekit_characteristic_by_aid_and_iid as aid iid of
        None \<Rightarrow> Inr (write_characteristic_error aid iid HAPStatus_NoResource)
      | Some p \<Rightarrow>
          if \<not> has_bit (c_permissions (get_ch as p)) homekit_permissions_paired_read
          then Inr (write_characteristic_error aid iid HAPStatus_WriteOnly)
          else bind_res (write_characteristic_json G as i p format None) (\<lambda>cs. Inr (
            [ObjectStart] @ cs
            @ (if \<not> success then [Str ''status'', op_uint8 (of_int HAPStatus_Success)] else []) @ [ObjectEnd])))"

definition characteristics_calls ::
  "app \<Rightarrow> homekit_accessory list \<Rightarrow> nat \<Rightarrow> u32 \<Rightarrow> (u32 \<times> u32) list \<Rightarrow> fault + json_op list" where
  "characteristics_calls G as i format ids =
     (let success = list_all (readable as) ids in
      bind_res (collect (requested_calls G as i format success) ids) (\<lambda>cs. Inr (
        [ObjectStart, Str ''characteristics'', ArrayStart] @ cs @ [ArrayEnd, ObjectEnd])))"

definition homekit_server_on_get_characteristics ::
  "app \<Rightarrow> 's platform \<Rightarrow> ('w, 's, 'p, 'srp) homekit_server_t \<Rightarrow> nat \<Rightarrow> fault + ('w, 's, 'p, 'srp) homekit_server_t" where
  "homekit_server_on_get_characteristics G W S i =
     bind_res (client S i) (\<lambda>c.
       let params = (case cl_endpoint_params c of None \<Rightarrow> [] | Some ps \<Rightarrow> ps) in
       case query_params_find params ''id'' of
         None \<Rightarrow> send_json_error_response W S i 400 HAPStatus_InvalidValue
       | Some id_param \<Rightarrow>
           (case qp_value id_param of
              None \<Rightarrow> Inl Null_deref
            | Some value \<Rightarrow>
                (let ids = map (parse_id G) (split_at (CHR '','') value) in
                 if None \<in> set ids then send_json_error_response W S i 400 HAPStatus_InvalidValue
                 else (let ids = map the ids in
                   bind_res (client_send_P W S i (if list_all (readable (sv_accessories S)) ids
                       then json_200_response_headers else json_207_response_headers)) (\<lambda>S.
                   bind_res (characteristics_calls G (sv_accessories S) i (requested_format params) ids) (\<lambda>calls.
                     stream_json W S i calls))))))"

section \<open>Events\<close>

definition event_headers :: string where
  "event_headers =
     ''EVENT/1.0 200 OK'' @ crlf @ ''Content-Type: application/hap+json'' @ crlf
     @ ''Transfer-Encoding: chunked'' @ crlf @ crlf"

definition events_calls ::
  "app \<Rightarrow> homekit_accessory list \<Rightarrow> nat \<Rightarrow> characteristic_event_t list \<Rightarrow> fault + json_op list" where
  "events_calls G as i events =
     bind_res (collect (\<lambda>e. bind_res (write_characteristic_json G as i (ev_characteristic e) 0 (Some (ev_value e)))
         (\<lambda>cs. Inr ([ObjectStart] @ cs @ [ObjectEnd]))) events) (\<lambda>cs. Inr (
       [ObjectStart, Str ''characteristics'', ArrayStart] @ cs @ [ArrayEnd, ObjectEnd]))"

definition send_client_events ::
  "app \<Rightarrow> 's platform \<Rightarrow> ('w, 's, 'p, 'srp) homekit_server_t \<Rightarrow> nat \<Rightarrow> characteristic_event_t list \<Rightarrow>
   fault + ('w, 's, 'p, 'srp) homekit_server_t" where
  "send_client_events G W S i events =
     bind_res (client_send_P W S i event_headers) (\<lambda>S.
     bind_res (events_calls G (sv_accessories S) i events) (\<lambda>calls. stream_json W S i calls))"

section \<open>Every sequence of calls is that of a document\<close>

definition document :: "nat \<Rightarrow> json_op list \<Rightarrow> bool" where
  "document d cs \<longleftrightarrow> (\<exists>v. cs = calls_of v \<and> jdepth v \<le> d)"

definition items :: "nat \<Rightarrow> json_op list \<Rightarrow> bool" where
  "items d cs \<longleftrightarrow> (\<exists>vs. cs = calls_of_items vs \<and> jdepth_items vs \<le> d)"

definition members :: "nat \<Rightarrow> json_op list \<Rightarrow> bool" where
  "members d cs \<longleftrightarrow> (\<exists>ms. cs = calls_of_members ms \<and> jdepth_members ms \<le> d)"

named_theorems json_shape "shapes of lists of calls"

lemma items_Nil [json_shape]: "items d []"
  unfolding items_def by (rule exI [of _ "[]"]) simp

lemma members_Nil [json_shape]: "members d []"
  unfolding members_def by (rule exI [of _ "[]"]) simp

lemma calls_items_append: "calls_of_items (vs @ ws) = calls_of_items vs @ calls_of_items ws"
  by (induction vs) simp_all

lemma jdepth_items_append: "jdepth_items (vs @ ws) = max (jdepth_items vs) (jdepth_items ws)"
  by (induction vs) simp_all

lemma calls_members_append: "calls_of_members (ms @ ns) = calls_of_members ms @ calls_of_members ns"
  by (induction ms) auto

lemma jdepth_members_append: "jdepth_members (ms @ ns) = max (jdepth_members ms) (jdepth_members ns)"
  by (induction ms) auto

lemma items_append [json_shape]: "items d cs \<Longrightarrow> items d ds \<Longrightarrow> items d (cs @ ds)"
  unfolding items_def by (metis calls_items_append jdepth_items_append max.bounded_iff)

lemma members_append [json_shape]: "members d cs \<Longrightarrow> members d ds \<Longrightarrow> members d (cs @ ds)"
  unfolding members_def by (metis calls_members_append jdepth_members_append max.bounded_iff)

lemma document_scalar [json_shape]: "document d [Scalar s]" "document d [Str s]"
  unfolding document_def by (rule exI [of _ "JScalar s"], simp, rule exI [of _ "JString s"], simp)

lemma document_op [json_shape]:
  "document d [op_boolean b]" "document d [op_null]" "document d [op_uint8 x]" "document d [op_uint16 y]"
  "document d [op_uint32 z]" "document d [op_uint64 w]" "document d [op_integer z]" "document d [op_float G f]"
  by (simp_all add: op_defs document_scalar)

lemma document_array: "items d cs \<Longrightarrow> document (Suc d) (ArrayStart # cs @ [ArrayEnd])"
  unfolding document_def items_def by (metis Suc_le_mono calls_of.simps(3) jdepth.simps(3))

lemma document_object: "members d cs \<Longrightarrow> document (Suc d) (ObjectStart # cs @ [ObjectEnd])"
  unfolding document_def members_def by (metis Suc_le_mono calls_of.simps(4) jdepth.simps(4))

lemma items_one: "document d cs \<Longrightarrow> items d cs"
  unfolding document_def items_def by (metis append_Nil2 calls_of_items.simps jdepth_items.simps max_0R)

lemma members_one: "document d cs \<Longrightarrow> members d (Str k # cs)"
proof -
  assume "document d cs"
  then obtain v where "cs = calls_of v" "jdepth v \<le> d" by (auto simp: document_def)
  then show ?thesis unfolding members_def by (intro exI [of _ "[(k, v)]"]) simp
qed

lemma members_Cons: "document d [c] \<Longrightarrow> members d cs \<Longrightarrow> members d (Str k # c # cs)"
  using members_append [OF members_one] by fastforce

lemma items_Cons: "document d [c] \<Longrightarrow> items d cs \<Longrightarrow> items d (c # cs)"
  using items_append [OF items_one] by fastforce

lemma collect_items:
  assumes "collect f xs = Inr cs" and "\<And>x ds. x \<in> set xs \<Longrightarrow> f x = Inr ds \<Longrightarrow> items d ds"
  shows "items d cs"
  using assms
proof (induction xs arbitrary: cs)
  case (Cons x xs)
  then obtain a b where ab: "f x = Inr a" "collect f xs = Inr b" "cs = a @ b" by auto
  have "items d b" by (rule Cons.IH [OF ab(2)]) (use Cons.prems(2) in auto)
  then show ?case using ab Cons.prems(2) [of x a] by (simp add: items_append)
qed (simp add: items_Nil)

lemma optional_members: "(\<And>x. document d [f x]) \<Longrightarrow> members d (optional key f a)"
  by (auto simp: optional_def members_Nil intro: members_one split: option.splits)

lemma map_items: "(\<And>x. document d [f x]) \<Longrightarrow> items d (map f xs)"
  by (induction xs) (auto simp: items_Nil intro: items_Cons)

lemma concat_items: "(\<And>x. items d (f x)) \<Longrightarrow> items d (concat (map f xs))"
  by (induction xs) (auto simp: items_Nil intro: items_append)

lemma members_array: "items d cs \<Longrightarrow> members (Suc d) (Str k # ArrayStart # cs @ [ArrayEnd])"
  using members_one [OF document_array] by fastforce

lemma flag_items: "items d (if b then [Str s] else [])"
  by (auto intro: items_one document_scalar items_Nil)

lemma perms_members: "members 2 (perms_calls p)"
proof -
  define xs where "xs = (if has_bit p homekit_permissions_paired_read then [Str ''pr''] else [])
     @ (if has_bit p homekit_permissions_paired_write then [Str ''pw''] else [])
     @ (if has_bit p homekit_permissions_notify then [Str ''ev''] else [])
     @ (if has_bit p homekit_permissions_additional_authorization then [Str ''aa''] else [])
     @ (if has_bit p homekit_permissions_timed_write then [Str ''tw''] else [])
     @ (if has_bit p homekit_permissions_hidden then [Str ''hd''] else [])"
  have "items 1 xs" unfolding xs_def by (intro items_append flag_items)
  from members_array [OF this, of "''perms''"] show ?thesis
    unfolding perms_calls_def xs_def by (simp only: append_assoc append_Cons append_Nil numeral_2_eq_2 One_nat_def)
qed

lemma meta_members: "members 3 (meta_calls G ch)"
proof -
  have r: "items 2 (concat (map (\<lambda>(a, b). [ArrayStart, op_integer (ucast a), op_integer (ucast b), ArrayEnd]) rs))" for rs :: "(byte \<times> byte) list"
  proof (rule concat_items)
    fix x :: "byte \<times> byte"
    obtain a b where x: "x = (a, b)" by fastforce
    have "items 1 [op_integer (ucast a), op_integer (ucast b)]"
      by (intro items_Cons document_op items_Nil)
    from items_one [OF document_array [OF this]]
    show "items 2 (case x of (a, b) \<Rightarrow> [ArrayStart, op_integer (ucast a), op_integer (ucast b), ArrayEnd])"
      by (simp add: x numeral_2_eq_2)
  qed
  have v: "items 2 (map (\<lambda>v. op_uint16 (ucast v)) vs)" for vs :: "byte list"
    by (intro map_items document_op)
  have a: "members 3 (Str k # ArrayStart # cs @ [ArrayEnd])" if "items 2 cs" for k cs
    using members_array [OF that] by (simp add: numeral_3_eq_3 numeral_2_eq_2)
  show ?thesis
    unfolding meta_calls_def
    using a [OF v] a [OF r]
    by (intro members_append optional_members document_op document_scalar) (auto intro: members_one document_scalar members_Nil)
qed

lemma value_members: "value_calls G ch v = Inr cs \<Longrightarrow> members d cs"
  by (auto simp: value_calls_def value_op_def split: if_splits option.splits homekit_format.splits
      intro!: members_one document_op document_scalar members_Nil)

lemma write_members:
  assumes "write_characteristic_json G as i p format value = Inr cs"
  shows "members 3 cs"
proof -
  have m: "members 2 xs \<Longrightarrow> members 3 xs" for xs unfolding members_def by (metis le_trans one_le_numeral semiring_norm(26,27,28) Suc_leD Suc_numeral numeral_3_eq_3 numeral_2_eq_2 le_Suc_eq)
  obtain vs where vs: "value_calls G (get_ch as p) value = Inr vs"
    and cs: "cs = [Str ''aid'', op_uint32 (a_id (as ! fst p)), Str ''iid'', op_uint32 (c_id (get_ch as p))]
        @ (if has_bit format characteristic_format_type then [Str ''type'', Str (c_type (get_ch as p))] else [])
        @ (if has_bit format characteristic_format_perms then perms_calls (c_permissions (get_ch as p)) else [])
        @ (if has_bit format characteristic_format_events \<and> has_bit (c_permissions (get_ch as p)) homekit_permissions_notify
           then [Str ''ev'', op_boolean (homekit_characteristic_has_notify_callback (get_ch as p) client_notify_callback i)] else [])
        @ (if has_bit format characteristic_format_meta then meta_calls G (get_ch as p) else [])
        @ vs"
    using assms unfolding write_characteristic_json_def Let_def by blast
  show ?thesis
    unfolding cs
    by (intro members_append value_members [OF vs])
      (auto intro: members_Cons members_one document_op document_scalar members_Nil m perms_members meta_members)
qed

lemma write_object: "write_characteristic_json G as i p format value = Inr cs \<Longrightarrow> document 4 (ObjectStart # cs @ [ObjectEnd])"
  using document_object [OF write_members] by (simp add: eval_nat_numeral)

lemma service_document:
  assumes "service_calls G as i a s = Inr cs"
  shows "items 6 cs"
proof -
  obtain chs where chs: "collect (\<lambda>k. bind_res (write_characteristic_json G as i (a, s, k)
          (characteristic_format_type OR characteristic_format_meta OR characteristic_format_perms
             OR characteristic_format_events) None) (\<lambda>cs. Inr ([ObjectStart] @ cs @ [ObjectEnd])))
        [0..<length (s_characteristics (a_services (as ! a) ! s))] = Inr chs"
    and cs: "cs = [ObjectStart, Str ''iid'', op_uint32 (s_id (a_services (as ! a) ! s)), Str ''type'', Str (s_type (a_services (as ! a) ! s)),
           Str ''hidden'', op_boolean (s_hidden (a_services (as ! a) ! s)), Str ''primary'', op_boolean (s_primary (a_services (as ! a) ! s))]
          @ (case s_linked (a_services (as ! a) ! s) of
               None \<Rightarrow> []
             | Some ls \<Rightarrow> [Str ''linked'', ArrayStart]
                 @ map (\<lambda>l. op_uint32 (s_id (a_services (as ! a) ! l))) ls @ [ArrayEnd])
          @ [Str ''characteristics'', ArrayStart] @ chs @ [ArrayEnd, ObjectEnd]"
    using assms unfolding service_calls_def Let_def by blast
  have i: "items 4 chs"
    by (rule collect_items [OF chs]) (auto intro: items_one write_object)
  have l: "members 5 (case s_linked (a_services (as ! a) ! s) of
               None \<Rightarrow> []
             | Some ls \<Rightarrow> [Str ''linked'', ArrayStart]
                 @ map (\<lambda>l. op_uint32 (s_id (a_services (as ! a) ! l))) ls @ [ArrayEnd])" (is "members 5 ?l")
    using members_array [OF map_items [of 4], of "\<lambda>l. op_uint32 (s_id (a_services (as ! a) ! l))"] document_op
    by (auto simp: eval_nat_numeral members_Nil split: option.splits)
  have c: "members 5 (Str ''characteristics'' # ArrayStart # chs @ [ArrayEnd])"
    using members_array [OF i] by (simp add: eval_nat_numeral)
  have "members 5 ([Str ''iid'', op_uint32 (s_id (a_services (as ! a) ! s)), Str ''type'', Str (s_type (a_services (as ! a) ! s)),
           Str ''hidden'', op_boolean (s_hidden (a_services (as ! a) ! s)), Str ''primary'', op_boolean (s_primary (a_services (as ! a) ! s))]
          @ ?l @ (Str ''characteristics'' # ArrayStart # chs @ [ArrayEnd]))"
    by (intro members_append l c members_Cons document_op document_scalar members_Nil)
  from items_one [OF document_object [OF this]] show ?thesis by (simp add: cs eval_nat_numeral)
qed

lemma accessory_document:
  assumes "accessory_calls G as i a = Inr cs"
  shows "items 8 cs"
proof -
  obtain ss where ss: "collect (service_calls G as i a) [0..<length (a_services (as ! a))] = Inr ss"
    and cs: "cs = [ObjectStart, Str ''aid'', op_uint32 (a_id (as ! a)), Str ''services'', ArrayStart] @ ss @ [ArrayEnd, ObjectEnd]"
    using assms unfolding accessory_calls_def by blast
  have "members 7 (Str ''services'' # ArrayStart # ss @ [ArrayEnd])"
    using members_array [OF collect_items [OF ss service_document]] by (simp add: eval_nat_numeral)
  from items_one [OF document_object [OF members_Cons [OF document_op(5) this]]]
  show ?thesis by (simp add: cs eval_nat_numeral)
qed

lemma array_document:
  "items d cs \<Longrightarrow> document (Suc (Suc d)) ([ObjectStart, Str k, ArrayStart] @ cs @ [ArrayEnd, ObjectEnd])"
  using document_object [OF members_array, of d cs k] by simp

lemma accessories_document: "accessories_calls G as i = Inr cs \<Longrightarrow> document 10 cs"
  by (auto simp: accessories_calls_def eval_nat_numeral
      dest!: collect_items [OF _ accessory_document] intro: array_document [of 8, unfolded eval_nat_numeral, simplified])

section \<open>What is sent is the text of the document\<close>

text \<open>A token that fits the buffer of the stream.\<close>

fun token_fits :: "nat \<Rightarrow> json_op \<Rightarrow> bool" where
  "token_fits n (Str s) \<longleftrightarrow> length s + 2 < n"
| "token_fits n (Scalar s) \<longleftrightarrow> length s < n"
| "token_fits n c \<longleftrightarrow> True"

lemma tokens_fit:
  assumes "1 < n"
  shows "list_all (token_fits n) (calls_of v) \<Longrightarrow> jtoken v < n"
    and "list_all (token_fits n) (calls_of_items vs) \<Longrightarrow> jtoken_items vs < n"
    and "list_all (token_fits n) (calls_of_members ms) \<Longrightarrow> jtoken_members ms < n"
  using assms
  by (induction v and vs and ms rule: calls_of_calls_of_items_calls_of_members.induct) auto

lemma stream_document:
  assumes "jdepth doc \<le> JSON_MAX_DEPTH" and "list_all (token_fits HOMEKIT_JSONBUFFER_SIZE) (calls_of doc)"
  shows "\<exists>chunks. concat chunks = render doc \<and> list_all (\<lambda>c. c \<noteq> [] \<and> length c < HOMEKIT_JSONBUFFER_SIZE) chunks \<and>
    stream_json W S i (calls_of doc) =
      bind_res (send_chunks W S i chunks) (\<lambda>S. client_send_chunk W S i [])"
proof -
  have "jtoken doc < HOMEKIT_JSONBUFFER_SIZE"
    using tokens_fit(1) [OF _ assms(2)] by (simp add: HOMEKIT_JSONBUFFER_SIZE_def)
  from document_flushed [OF assms(1) this]
  obtain j where "json_calls (calls_of doc) (json_new HOMEKIT_JSONBUFFER_SIZE True) = Inr j"
    "concat (js_flushed (json_flush j)) = render doc"
    "list_all (\<lambda>c. c \<noteq> [] \<and> length c < HOMEKIT_JSONBUFFER_SIZE) (js_flushed (json_flush j))"
    by (auto simp: emit_calls)
  then show ?thesis by (intro exI [of _ "js_flushed (json_flush j)"]) (simp add: stream_json_def)
qed

section \<open>Answers to reading\<close>

text \<open>A status as it is written: its low byte.\<close>

definition status_member :: "int \<Rightarrow> string \<times> jval" where
  "status_member status = (''status'', JScalar (fmt_u (unat (of_int status :: byte))))"

definition id_members :: "u32 \<times> u32 \<Rightarrow> (string \<times> jval) list" where
  "id_members k = [(''aid'', JScalar (fmt_u (unat (fst k)))), (''iid'', JScalar (fmt_u (unat (snd k))))]"

lemma fmt_uint32: "snprintf 11 (fmt_u (unat (x :: u32))) = fmt_u (unat x)"
proof -
  have "unat x < 2 ^ 32" using unsigned_less [of x] by simp
  then show ?thesis using snprintf_fmt_u [of 10 "unat x"] by simp
qed

lemma fmt_uint8: "snprintf 4 (fmt_u (unat (x :: byte))) = fmt_u (unat x)"
proof -
  have "unat x < 2 ^ 8" using unsigned_less [of x] by simp
  then show ?thesis using snprintf_fmt_u [of 3 "unat x"] by simp
qed

text \<open>The answer for one characteristic: the values asked for, or a status.\<close>

definition answers ::
  "homekit_accessory list \<Rightarrow> bool \<Rightarrow> u32 \<times> u32 \<Rightarrow> jval \<Rightarrow> bool" where
  "answers as success k v \<longleftrightarrow>
     (case homekit_characteristic_by_aid_and_iid as (fst k) (snd k) of
        None \<Rightarrow> v = JObject (id_members k @ [status_member HAPStatus_NoResource])
      | Some p \<Rightarrow>
          if \<not> has_bit (c_permissions (get_ch as p)) homekit_permissions_paired_read
          then v = JObject (id_members k @ [status_member HAPStatus_WriteOnly])
          else \<exists>ms. v = JObject (id_members (a_id (as ! fst p), c_id (get_ch as p)) @ ms @
            (if success then [] else [status_member HAPStatus_Success])) \<and> jdepth_members ms \<le> 3)"

lemma error_answer:
  "write_characteristic_error aid iid status = calls_of (JObject (id_members (aid, iid) @ [status_member status]))"
  by (simp add: write_characteristic_error_def id_members_def status_member_def op_uint32_def op_uint8_def
      fmt_uint32 fmt_uint8)

lemma members_scalar:
  assumes "calls_of_members ms = Str k # Scalar s # ds"
  shows "\<exists>ns. ms = (k, JScalar s) # ns \<and> ds = calls_of_members ns"
proof (cases ms)
  case (Cons m ns)
  obtain l v where "m = (l, v)" by fastforce
  then show ?thesis using assms Cons by (cases v) auto
qed (use assms in simp)

lemma write_split:
  assumes "write_characteristic_json G as i p format value = Inr cs"
  shows "\<exists>ms. cs = calls_of_members (id_members (a_id (as ! fst p), c_id (get_ch as p)) @ ms) \<and> jdepth_members ms \<le> 3"
proof -
  obtain ms where ms: "cs = calls_of_members ms" "jdepth_members ms \<le> 3"
    using write_members [OF assms] by (auto simp: members_def)
  obtain ds where ds: "cs = [Str ''aid'', op_uint32 (a_id (as ! fst p)), Str ''iid'', op_uint32 (c_id (get_ch as p))] @ ds"
    using assms unfolding write_characteristic_json_def Let_def by blast
  have "calls_of_members ms = Str ''aid'' # Scalar (fmt_u (unat (a_id (as ! fst p)))) #
      Str ''iid'' # Scalar (fmt_u (unat (c_id (get_ch as p)))) # ds"
    using ms(1) ds by (simp add: op_uint32_def fmt_uint32)
  from members_scalar [OF this] obtain ns where ns: "ms = (''aid'', JScalar (fmt_u (unat (a_id (as ! fst p))))) # ns"
      "calls_of_members ns = Str ''iid'' # Scalar (fmt_u (unat (c_id (get_ch as p)))) # ds" by auto
  from members_scalar [OF ns(2)] obtain qs where
      qs: "ns = (''iid'', JScalar (fmt_u (unat (c_id (get_ch as p))))) # qs" "ds = calls_of_members qs" by auto
  show ?thesis
    using ms ns(1) qs by (intro exI [of _ qs]) (simp add: id_members_def)
qed

lemma requested_answer:
  assumes "requested_calls G as i format success k = Inr cs"
  shows "\<exists>v. cs = calls_of v \<and> answers as success k v \<and> jdepth v \<le> 4"
proof (cases "homekit_characteristic_by_aid_and_iid as (fst k) (snd k)")
  case None
  then show ?thesis
    using assms error_answer [of "fst k" "snd k" HAPStatus_NoResource]
    by (intro exI [of _ "JObject (id_members k @ [status_member HAPStatus_NoResource])"])
      (auto simp: requested_calls_def answers_def split_beta id_members_def status_member_def)
next
  case (Some p)
  show ?thesis
  proof (cases "has_bit (c_permissions (get_ch as p)) homekit_permissions_paired_read")
    case False
    then show ?thesis
      using assms Some error_answer [of "fst k" "snd k" HAPStatus_WriteOnly]
      by (intro exI [of _ "JObject (id_members k @ [status_member HAPStatus_WriteOnly])"])
        (auto simp: requested_calls_def answers_def split_beta id_members_def status_member_def)
  next
    case True
    let ?st = "if success then [] else [status_member HAPStatus_Success]"
    obtain ds where ds: "write_characteristic_json G as i p format None = Inr ds"
        "cs = [ObjectStart] @ ds @ (if \<not> success then [Str ''status'', op_uint8 (of_int HAPStatus_Success)] else []) @ [ObjectEnd]"
      using assms Some True by (auto simp: requested_calls_def split_beta)
    obtain ms where ms: "ds = calls_of_members (id_members (a_id (as ! fst p), c_id (get_ch as p)) @ ms)"
        "jdepth_members ms \<le> 3"
      using write_split [OF ds(1)] by blast
    have "(if \<not> success then [Str ''status'', op_uint8 (of_int HAPStatus_Success)] else []) = calls_of_members ?st"
      by (simp add: status_member_def op_uint8_def fmt_uint8)
    then have "cs = calls_of (JObject (id_members (a_id (as ! fst p), c_id (get_ch as p)) @ ms @ ?st))"
      by (simp add: ds(2) ms(1) calls_members_append)
    moreover have "jdepth (JObject (id_members (a_id (as ! fst p), c_id (get_ch as p)) @ ms @ ?st)) \<le> 4"
      using ms(2) by (simp add: jdepth_members_append id_members_def status_member_def)
    moreover have "answers as success k (JObject (id_members (a_id (as ! fst p), c_id (get_ch as p)) @ ms @ ?st))"
      using Some True ms(2) by (auto simp: answers_def)
    ultimately show ?thesis by blast
  qed
qed

lemma collect_answers:
  assumes "collect f xs = Inr cs" and "\<And>x ds. f x = Inr ds \<Longrightarrow> \<exists>v. ds = calls_of v \<and> A x v \<and> jdepth v \<le> d"
  shows "\<exists>vs. cs = calls_of_items vs \<and> list_all2 A xs vs \<and> jdepth_items vs \<le> d"
  using assms(1)
proof (induction xs arbitrary: cs)
  case (Cons x xs)
  then obtain a b where ab: "f x = Inr a" "collect f xs = Inr b" "cs = a @ b" by auto
  obtain v where "a = calls_of v" "A x v" "jdepth v \<le> d" using assms(2) [OF ab(1)] by blast
  moreover obtain vs where "b = calls_of_items vs" "list_all2 A xs vs" "jdepth_items vs \<le> d"
    using Cons.IH [OF ab(2)] by blast
  ultimately show ?case using ab(3) by (intro exI [of _ "v # vs"]) simp
qed simp

section \<open>Properties\<close>



text \<open>Surroundings for the witnesses: one accessory with one characteristic that can be read.\<close>

definition sample_app :: app where
  "sample_app = \<lparr>ap_getter = (\<lambda>_. zero_value), ap_getter_ex = (\<lambda>_ _. zero_value), ap_setter = (\<lambda>_ _ as. as),
     ap_setter_ex = (\<lambda>_ _ _ as. as), ap_format_g = (\<lambda>_. ''1''), ap_float = (\<lambda>x. x), ap_undef = (\<lambda>_. 0),
     ap_junk = zero_value, ap_heap = replicate 64 0, ap_parse = (\<lambda>_. None), ap_on_resource = False\<rparr>"

definition readable_ch :: homekit_characteristic where
  "readable_ch = \<lparr>c_id = 2, c_type = ''25'', c_description = None, c_format = homekit_format_bool,
     c_unit = homekit_unit_none, c_permissions = 7, c_value = HOMEKIT_BOOL True, c_min_value = None,
     c_max_value = None, c_min_step = None, c_max_len = None, c_max_data_len = None, c_valid_values = [],
     c_valid_values_ranges = [], c_getter = None, c_setter = None, c_callbacks = [], c_getter_ex = None,
     c_setter_ex = None, c_context = 0\<rparr>"

definition sample_tree :: "homekit_accessory list" where
  "sample_tree = [\<lparr>a_id = 1, a_category = 1, a_config_number = 1, a_services = [\<lparr>s_id = 1, s_type = ''43'', s_hidden = False,
     s_primary = True, s_linked = None, s_characteristics = [readable_ch]\<rparr>]\<rparr>]"

definition tree_server :: "('w, byte list, unit, 'srp) homekit_server_t \<Rightarrow> ('w, byte list, unit, 'srp) homekit_server_t" where
  "tree_server S = S\<lparr>sv_accessories := sample_tree\<rparr>"

lemma sample_calls:
  "case accessories_calls sample_app sample_tree 0 of Inl f \<Rightarrow> False
     | Inr cs \<Rightarrow> list_all (token_fits HOMEKIT_JSONBUFFER_SIZE) cs"
  by code_simp

lemma tree_secure:
  "secure_session idle_platform id (tree_server (sample_server w)) 0"
  "client (tree_server (sample_server w)) 0 = Inr sample_client"
  "sv_accessories (tree_server (sample_server w)) = sample_tree"
  using sample_admin(2) [of w] sample_server_ok(2) [of w]
  by (simp_all add: tree_server_def secure_session_def client_def)


text \<open>The client asks for the characteristics 1.2 and 1.9, of which there is only the first.\<close>

definition sample_query :: "query_param list" where
  "sample_query = [\<lparr>qp_name = ''id'', qp_value = Some ''1.2,1.9''\<rparr>]"

lemma sample_query_calls:
  "query_params_find sample_query ''id'' = Some \<lparr>qp_name = ''id'', qp_value = Some ''1.2,1.9''\<rparr>"
  "map (parse_id sample_app) (split_at (CHR '','') ''1.2,1.9'') = map Some [(1, 2), (1, 9)]"
  "list_all (readable sample_tree) [(1, 2), (1, 9)] = False"
  "case characteristics_calls sample_app sample_tree 0 (requested_format sample_query) [(1, 2), (1, 9)] of Inl f \<Rightarrow> False
     | Inr cs \<Rightarrow> list_all (token_fits HOMEKIT_JSONBUFFER_SIZE) cs"
  by code_simp+


end
