(* ===== verification/Char_Update.thy ===== *)
theory Char_Update
  imports Char_Json
begin

text \<open>
  Writing characteristics: \<open>process_characteristics_update\<close> and \<open>homekit_server_on_update_characteristics\<close>
  of \<open>src/arduino_homekit_server.cpp\<close>, and the notification of the other clients.  The parser \<open>cJSON_Parse\<close> is a field of the application; the access to
  members and numbers is modelled here.  A setter of the application changes the tree and does not notify.
\<close>

section \<open>Access to a JSON value\<close>

definition lower :: "char \<Rightarrow> char" where
  "lower c = (let n = (of_char c :: nat) in if 65 \<le> n \<and> n \<le> 90 then char_of (n + 32) else c)"

text \<open>The first member whose name is the given one but for the case of its letters.\<close>

fun get_object_item :: "(string \<times> cjson) list \<Rightarrow> string \<Rightarrow> cjson option" where
  "get_object_item [] name = None"
| "get_object_item ((key, v) # ms) name = (if map lower key = map lower name then Some v else get_object_item ms name)"

definition cJSON_GetObjectItem :: "cjson \<Rightarrow> string \<Rightarrow> cjson option" where
  "cJSON_GetObjectItem object name = (case object of cJSON_Object ms \<Rightarrow> get_object_item ms name | _ \<Rightarrow> None)"

definition trunc :: "rat \<Rightarrow> int" where
  "trunc d = (if d < 0 then \<lceil>d\<rceil> else \<lfloor>d\<rfloor>)"

definition valuedouble :: "cjson \<Rightarrow> rat" where
  "valuedouble j = (case j of cJSON_Number d \<Rightarrow> d | _ \<Rightarrow> 0)"

definition valueint :: "cjson \<Rightarrow> int" where
  "valueint j = (case j of
     cJSON_Number d \<Rightarrow>
       if d \<ge> 2147483647 then 2147483647 else if d \<le> - 2147483648 then - 2147483648 else trunc d
   | cJSON_True \<Rightarrow> 1
   | _ \<Rightarrow> 0)"

text \<open>The conversion of a double to an integer type with the given range.\<close>

definition convert :: "app \<Rightarrow> int \<Rightarrow> int \<Rightarrow> rat \<Rightarrow> int" where
  "convert G lo hi d = (let n = trunc d in if lo \<le> n \<and> n \<le> hi then n else ap_undef G d)"

definition to_u32 :: "app \<Rightarrow> rat \<Rightarrow> u32" where
  "to_u32 G d = of_int (convert G 0 4294967295 d)"

section \<open>Checking a value\<close>

text \<open>
  A status or the value to store.  Each case of the \<open>switch\<close> on the format is a definition; the integer
  formats share one.
\<close>

definition bool_of_json :: "app \<Rightarrow> cjson \<Rightarrow> int + homekit_value" where
  "bool_of_json G j =
     (case j of
        cJSON_True \<Rightarrow> Inr (HOMEKIT_BOOL_CPP (ap_junk G) True)
      | cJSON_False \<Rightarrow> Inr (HOMEKIT_BOOL_CPP (ap_junk G) False)
      | cJSON_Number d \<Rightarrow>
          if valueint j = 0 \<or> valueint j = 1 then Inr (HOMEKIT_BOOL_CPP (ap_junk G) (valueint j = 1))
          else Inl HAPStatus_InvalidValue
      | _ \<Rightarrow> Inl HAPStatus_InvalidValue)"

definition format_range :: "homekit_format \<Rightarrow> rat \<times> rat" where
  "format_range f = (case f of
     homekit_format_uint8 \<Rightarrow> (0, 255)
   | homekit_format_uint16 \<Rightarrow> (0, 65535)
   | homekit_format_uint32 \<Rightarrow> (0, 4294967295)
   | homekit_format_uint64 \<Rightarrow> (0, 18446744073709551615)
   | homekit_format_int \<Rightarrow> (- 2147483648, 2147483647)
   | _ \<Rightarrow> (0, 0))"

definition number_value :: "app \<Rightarrow> homekit_format \<Rightarrow> rat \<Rightarrow> homekit_value option" where
  "number_value G f d = (case f of
     homekit_format_uint8 \<Rightarrow> Some (HOMEKIT_UINT8_CPP (ap_junk G) (of_int (convert G 0 255 d)))
   | homekit_format_uint16 \<Rightarrow> Some (HOMEKIT_UINT16_CPP (ap_junk G) (of_int (convert G 0 65535 d)))
   | homekit_format_uint32 \<Rightarrow> Some (HOMEKIT_UINT32_CPP (ap_junk G) (of_int (convert G 0 4294967295 d)))
   | homekit_format_uint64 \<Rightarrow> Some (HOMEKIT_UINT64_CPP (ap_junk G) (of_int (convert G 0 18446744073709551615 d)))
   | homekit_format_int \<Rightarrow> Some (HOMEKIT_INT_CPP (ap_junk G) (of_int (convert G (- 2147483648) 2147483647 d)))
   | _ \<Rightarrow> None)"

definition number_of_json :: "app \<Rightarrow> homekit_characteristic \<Rightarrow> cjson \<Rightarrow> int + homekit_value" where
  "number_of_json G ch j =
     (if (case j of cJSON_Number d \<Rightarrow> False | cJSON_False \<Rightarrow> False | cJSON_True \<Rightarrow> False | _ \<Rightarrow> True)
      then Inl HAPStatus_InvalidValue
      else (let (min_value, max_value) = format_range (c_format ch);
                min_value = (case c_min_value ch of None \<Rightarrow> min_value | Some m \<Rightarrow> m);
                max_value = (case c_max_value ch of None \<Rightarrow> max_value | Some m \<Rightarrow> m);
                value = valuedouble j in
        if value < min_value \<or> value > max_value then Inl HAPStatus_InvalidValue
        else if c_valid_values ch \<noteq> [] \<and>
          \<not> list_ex (\<lambda>b. convert G (- 2147483648) 2147483647 value = uint b) (c_valid_values ch)
        then Inl HAPStatus_InvalidValue
        else if c_valid_values_ranges ch \<noteq> [] \<and>
          \<not> list_ex (\<lambda>(a, b). of_int (uint a) \<le> value \<and> value \<le> of_int (uint b)) (c_valid_values_ranges ch)
        then Inl HAPStatus_InvalidValue
        else (case number_value G (c_format ch) value of None \<Rightarrow> Inl HAPStatus_InvalidValue | Some v \<Rightarrow> Inr v)))"

definition float_of_json :: "app \<Rightarrow> homekit_characteristic \<Rightarrow> cjson \<Rightarrow> int + homekit_value" where
  "float_of_json G ch j =
     (case j of
        cJSON_Number d \<Rightarrow>
          (let value = ap_float G d in
           if (case c_min_value ch of None \<Rightarrow> False | Some m \<Rightarrow> value < m) \<or>
              (case c_max_value ch of None \<Rightarrow> False | Some m \<Rightarrow> value > m)
           then Inl HAPStatus_InvalidValue
           else Inr (HOMEKIT_FLOAT_CPP (ap_junk G) value))
      | _ \<Rightarrow> Inl HAPStatus_InvalidValue)"

text \<open>\<open>strlen(value) > max_len\<close> compares in 32 unsigned bits.\<close>

definition too_long :: "string \<Rightarrow> int option \<Rightarrow> int \<Rightarrow> bool" where
  "too_long value declared fallback =
     (int (length value) > (case declared of None \<Rightarrow> fallback | Some n \<Rightarrow> n mod 2 ^ 32))"

definition string_of_json :: "app \<Rightarrow> homekit_characteristic \<Rightarrow> cjson \<Rightarrow> int + homekit_value" where
  "string_of_json G ch j =
     (case j of
        cJSON_String value \<Rightarrow>
          if too_long value (c_max_len ch) 64 then Inl HAPStatus_InvalidValue
          else Inr (HOMEKIT_STRING_CPP (ap_junk G) (Some value))
      | _ \<Rightarrow> Inl HAPStatus_InvalidValue)"

definition tlv_of_json :: "app \<Rightarrow> homekit_characteristic \<Rightarrow> cjson \<Rightarrow> fault + (int + homekit_value)" where
  "tlv_of_json G ch j =
     (case j of
        cJSON_String value \<Rightarrow>
          if too_long value (c_max_len ch) 256 then Inr (Inl HAPStatus_InvalidValue)
          else bind_res (base64_decode_alloc (ap_heap G) (bytes value)) (\<lambda>d.
            case d of
              None \<Rightarrow> Inr (Inl HAPStatus_InvalidValue)
            | Some d \<Rightarrow> bind_res (tlv_parse d) (\<lambda>t. Inr (Inr (HOMEKIT_TLV_CPP (ap_junk G) (Some t)))))
      | _ \<Rightarrow> Inr (Inl HAPStatus_InvalidValue))"

definition data_of_json :: "app \<Rightarrow> homekit_characteristic \<Rightarrow> cjson \<Rightarrow> fault + (int + homekit_value)" where
  "data_of_json G ch j =
     (case j of
        cJSON_String value \<Rightarrow>
          if too_long value (c_max_data_len ch) 4096 then Inr (Inl HAPStatus_InvalidValue)
          else bind_res (base64_decode_alloc (ap_heap G) (bytes value)) (\<lambda>d.
            case d of
              None \<Rightarrow> Inr (Inl HAPStatus_InvalidValue)
            | Some d \<Rightarrow> Inr (Inr (HOMEKIT_DATA_CPP (ap_junk G) (Some d) (length d))))
      | _ \<Rightarrow> Inr (Inl HAPStatus_InvalidValue))"

definition checked_value :: "app \<Rightarrow> homekit_characteristic \<Rightarrow> cjson \<Rightarrow> fault + (int + homekit_value)" where
  "checked_value G ch j =
     (if \<not> has_bit (c_permissions ch) homekit_permissions_paired_write then Inr (Inl HAPStatus_ReadOnly)
      else case c_format ch of
        homekit_format_bool \<Rightarrow> Inr (bool_of_json G j)
      | homekit_format_float \<Rightarrow> Inr (float_of_json G ch j)
      | homekit_format_string \<Rightarrow> Inr (string_of_json G ch j)
      | homekit_format_tlv \<Rightarrow> tlv_of_json G ch j
      | homekit_format_data \<Rightarrow> data_of_json G ch j
      | _ \<Rightarrow> Inr (number_of_json G ch j))"

section \<open>Storing and notifying\<close>

definition run_setter ::
  "app \<Rightarrow> homekit_accessory list \<Rightarrow> ch_path \<Rightarrow> setter_ex \<Rightarrow> homekit_value \<Rightarrow> fault + homekit_accessory list" where
  "run_setter G as p f v =
     (case f of
        Old_setter \<Rightarrow> (case c_setter (get_ch as p) of None \<Rightarrow> Inl Null_deref | Some n \<Rightarrow> Inr (ap_setter G n v as))
      | User_setter_ex n \<Rightarrow> Inr (ap_setter_ex G n p v as))"

definition store_value ::
  "app \<Rightarrow> homekit_accessory list \<Rightarrow> ch_path \<Rightarrow> homekit_value \<Rightarrow> fault + homekit_accessory list" where
  "store_value G as p v =
     (let ch = get_ch as p in
      case c_setter_ex ch of
        Some f \<Rightarrow> run_setter G as p f v
      | None \<Rightarrow>
          if c_format ch \<in> {homekit_format_string, homekit_format_tlv, homekit_format_data}
          then bind_res (homekit_value_copy v) (\<lambda>w. Inr (set_ch as p (ch\<lparr>c_value := w\<rparr>)))
          else Inr (set_ch as p (ch\<lparr>c_value := v\<rparr>)))"

text \<open>The callback of a client: nothing for the value it has just set itself.\<close>

definition client_notify_characteristic ::
  "('w, 's, 'p, 'srp) homekit_server_t \<Rightarrow> ch_path \<Rightarrow> homekit_value \<Rightarrow> nat \<Rightarrow> fault + ('w, 's, 'p, 'srp) homekit_server_t"
  where
  "client_notify_characteristic S ch value x =
     bind_res (client S x) (\<lambda>c.
     bind_res (if cl_current_characteristic c = Some ch
               then (case cl_current_value c of None \<Rightarrow> Inr False | Some w \<Rightarrow> homekit_value_equal w value)
               else Inr False) (\<lambda>own.
       if own then Inr S
       else case cl_event_queue c of
         None \<Rightarrow> Inr S
       | Some q \<Rightarrow>
           bind_res (homekit_value_copy value) (\<lambda>w.
           bind_res (q_push q \<lparr>ev_characteristic = ch, ev_value = w\<rparr>) (\<lambda>(_, q).
             Inr (set_client S x (c\<lparr>cl_event_queue := Some q\<rparr>))))))"

text \<open>The calls of \<open>homekit_characteristic_notify\<close>; other callbacks are the application's.\<close>

fun run_notify ::
  "('w, 's, 'p, 'srp) homekit_server_t \<Rightarrow> ch_path \<Rightarrow> (nat \<times> homekit_value \<times> nat) list \<Rightarrow>
   fault + ('w, 's, 'p, 'srp) homekit_server_t" where
  "run_notify S ch [] = Inr S"
| "run_notify S ch ((f, v, x) # calls) =
     bind_res (if f = client_notify_callback then client_notify_characteristic S ch v x else Inr S) (\<lambda>S.
       run_notify S ch calls)"

definition notify_change ::
  "('w, 's, 'p, 'srp) homekit_server_t \<Rightarrow> nat \<Rightarrow> ch_path \<Rightarrow> homekit_value \<Rightarrow> fault + ('w, 's, 'p, 'srp) homekit_server_t"
  where
  "notify_change S i p v =
     (if v_is_null v then Inr S
      else bind_res (modify_client S i (\<lambda>c. c\<lparr>cl_current_characteristic := Some p, cl_current_value := Some v\<rparr>)) (\<lambda>S.
        bind_res (run_notify S p (homekit_characteristic_notify (get_ch (sv_accessories S) p) v)) (\<lambda>S.
          modify_client S i (\<lambda>c. c\<lparr>cl_current_characteristic := None, cl_current_value := None\<rparr>))))"

section \<open>The request\<close>

text \<open>\<open>permissions && homekit_permissions_notify\<close> is true for any permission.\<close>

definition update_events ::
  "('w, 's, 'p, 'srp) homekit_server_t \<Rightarrow> nat \<Rightarrow> ch_path \<Rightarrow> cjson \<Rightarrow> int \<times> ('w, 's, 'p, 'srp) homekit_server_t" where
  "update_events S i p j_ch =
     (let ch = get_ch (sv_accessories S) p in
      case cJSON_GetObjectItem j_ch ''ev'' of
        None \<Rightarrow> (HAPStatus_Success, S)
      | Some j_events \<Rightarrow>
          if c_permissions ch = 0 then (HAPStatus_NotificationsUnsupported, S)
          else (let ch = (if j_events = cJSON_True
                          then homekit_characteristic_add_notify_callback ch client_notify_callback i
                          else homekit_characteristic_remove_notify_callback ch client_notify_callback i) in
                (HAPStatus_Success, S\<lparr>sv_accessories := set_ch (sv_accessories S) p ch\<rparr>)))"

text \<open>The characteristic that is addressed.\<close>

definition addressed :: "app \<Rightarrow> homekit_accessory list \<Rightarrow> cjson \<Rightarrow> ch_path option" where
  "addressed G as j_ch =
     (case cJSON_GetObjectItem j_ch ''aid'' of
        Some (cJSON_Number aid) \<Rightarrow>
          (case cJSON_GetObjectItem j_ch ''iid'' of
             Some (cJSON_Number iid) \<Rightarrow> homekit_characteristic_by_aid_and_iid as (to_u32 G aid) (to_u32 G iid)
           | _ \<Rightarrow> None)
      | _ \<Rightarrow> None)"

definition process_characteristics_update ::
  "app \<Rightarrow> ('w, 's, 'p, 'srp) homekit_server_t \<Rightarrow> nat \<Rightarrow> cjson \<Rightarrow> fault + (int \<times> ('w, 's, 'p, 'srp) homekit_server_t)" where
  "process_characteristics_update G S i j_ch =
     (case addressed G (sv_accessories S) j_ch of
        None \<Rightarrow> Inr (HAPStatus_NoResource, S)
      | Some p \<Rightarrow>
          (case cJSON_GetObjectItem j_ch ''value'' of
             None \<Rightarrow> Inr (update_events S i p j_ch)
           | Some j_value \<Rightarrow>
               bind_res (checked_value G (get_ch (sv_accessories S) p) j_value) (\<lambda>h_value.
                 case h_value of
                   Inl status \<Rightarrow> Inr (status, S)
                 | Inr v \<Rightarrow>
                     bind_res (store_value G (sv_accessories S) p v) (\<lambda>as.
                     bind_res (notify_change (S\<lparr>sv_accessories := as\<rparr>) i p v) (\<lambda>S.
                       Inr (update_events S i p j_ch))))))"

fun update_all ::
  "app \<Rightarrow> ('w, 's, 'p, 'srp) homekit_server_t \<Rightarrow> nat \<Rightarrow> cjson list \<Rightarrow>
   fault + (int list \<times> ('w, 's, 'p, 'srp) homekit_server_t)" where
  "update_all G S i [] = Inr ([], S)"
| "update_all G S i (j # js) =
     bind_res (process_characteristics_update G S i j) (\<lambda>(status, S).
     bind_res (update_all G S i js) (\<lambda>(statuses, S). Inr (status # statuses, S)))"

text \<open>The multi-status answer reads the identifiers of every element, also of one that has none.\<close>

definition status_calls :: "app \<Rightarrow> cjson \<times> int \<Rightarrow> fault + json_op list" where
  "status_calls G js =
     (case (cJSON_GetObjectItem (fst js) ''aid'', cJSON_GetObjectItem (fst js) ''iid'') of
        (Some aid, Some iid) \<Rightarrow>
          Inr [ObjectStart, Str ''aid'', op_uint32 (to_u32 G (valuedouble aid)),
               Str ''iid'', op_uint32 (to_u32 G (valuedouble iid)), Str ''status'', op_uint8 (of_int (snd js)), ObjectEnd]
      | _ \<Rightarrow> Inl Null_deref)"

definition homekit_server_on_update_characteristics ::
  "app \<Rightarrow> 's platform \<Rightarrow> ('w, 's, 'p, 'srp) homekit_server_t \<Rightarrow> nat \<Rightarrow> byte list \<Rightarrow>
   fault + ('w, 's, 'p, 'srp) homekit_server_t" where
  "homekit_server_on_update_characteristics G W S i data =
     (let err = send_json_error_response W S i 400 HAPStatus_InvalidValue in
      case ap_parse G (strndup (CHR 0x00) (chars data) (length data)) of
        None \<Rightarrow> err
      | Some json \<Rightarrow>
          (case cJSON_GetObjectItem json ''characteristics'' of
             Some (cJSON_Array js) \<Rightarrow>
               bind_res (update_all G S i js) (\<lambda>(statuses, S).
                 if list_all (\<lambda>s. s = HAPStatus_Success) statuses then send_204_response W S i
                 else bind_res (client_send_P W S i json_207_response_headers) (\<lambda>S.
                   bind_res (collect (status_calls G) (zip js statuses)) (\<lambda>cs.
                     stream_json W S i ([ObjectStart, Str ''characteristics'', ArrayStart] @ cs @ [ArrayEnd, ObjectEnd]))))
           | _ \<Rightarrow> err))"

section \<open>Paths in the tree\<close>

lemma find_in_chs_bound: "find_in_chs P cs k = Some m \<Longrightarrow> k \<le> m \<and> m < k + length cs"
  by (induction cs arbitrary: k) (fastforce split: if_splits)+

lemma find_in_services_bound:
  "find_in_services P ss j = Some (m, k) \<Longrightarrow> j \<le> m \<and> m < j + length ss \<and> k < length (s_characteristics (ss ! (m - j)))"
proof (induction ss arbitrary: j)
  case (Cons s ss)
  show ?case
  proof (cases "find_in_chs P (s_characteristics s) 0")
    case None
    then show ?thesis using Cons.IH [of "Suc j"] Cons.prems by (fastforce simp: nth_Cons' Suc_diff_le)
  next
    case (Some k')
    then show ?thesis using Cons.prems find_in_chs_bound [OF Some] by auto
  qed
qed simp

lemma find_in_accessories_bound:
  "find_in_accessories aid P as i = Some (m, j, k) \<Longrightarrow>
    i \<le> m \<and> m < i + length as \<and> j < length (a_services (as ! (m - i))) \<and>
    k < length (s_characteristics (a_services (as ! (m - i)) ! j))"
proof (induction as arbitrary: i)
  case (Cons a as)
  have here: "find_in_services P (a_services a) 0 = Some (j', k') \<Longrightarrow>
      j' < length (a_services a) \<and> k' < length (s_characteristics (a_services a ! j'))" for j' k'
    using find_in_services_bound [of P "a_services a" 0 j' k'] by simp
  have rest: "find_in_accessories aid P as (Suc i) = Some (m, j, k) \<Longrightarrow> ?case"
    using Cons.IH [of "Suc i"] by (fastforce simp: nth_Cons' Suc_diff_le)
  show ?case
    using Cons.prems rest here by (auto split: if_splits option.splits)
qed simp

lemma addressed_valid: "addressed G as j = Some p \<Longrightarrow> valid_path as p"
  by (auto simp: addressed_def homekit_characteristic_by_aid_and_iid_def valid_path_def
      split: option.splits cjson.splits dest!: find_in_accessories_bound)

lemma get_set_ch [simp]: "valid_path as p \<Longrightarrow> get_ch (set_ch as p c) p = c"
  by (auto simp: valid_path_def get_ch_def set_ch_def)

lemma get_set_other:
  assumes "p \<noteq> q" and "valid_path as q"
  shows "get_ch (set_ch as p c) q = get_ch as q"
proof -
  obtain i j k l m n where "p = (i, j, k)" "q = (l, m, n)" by (cases p; cases q) auto
  then show ?thesis
    using assms by (cases "i = l"; cases "j = m") (simp_all add: valid_path_def get_ch_def set_ch_def)
qed

section \<open>Numbers\<close>

text \<open>The number a value of an integer format stands for.\<close>

definition value_int :: "homekit_value \<Rightarrow> int" where
  "value_int v = (case v_format v of
     homekit_format_uint8 \<Rightarrow> uint (ucast (v_num v) :: byte)
   | homekit_format_uint16 \<Rightarrow> uint (ucast (v_num v) :: u16)
   | homekit_format_uint32 \<Rightarrow> uint (ucast (v_num v) :: u32)
   | homekit_format_uint64 \<Rightarrow> uint (v_num v)
   | _ \<Rightarrow> sint (int_value v))"

definition int_format :: "homekit_format \<Rightarrow> bool" where
  "int_format f \<longleftrightarrow> f \<in> {homekit_format_uint8, homekit_format_uint16, homekit_format_uint32, homekit_format_uint64,
     homekit_format_int}"

definition in_format :: "homekit_format \<Rightarrow> int \<Rightarrow> bool" where
  "in_format f n \<longleftrightarrow> fst (format_range f) \<le> of_int n \<and> of_int n \<le> snd (format_range f)"

text \<open>The metadata of a characteristic as the client sees it: the least and greatest value (those of the format
  when none is declared), the list of values and the list of ranges.\<close>

definition accepts_int :: "homekit_characteristic \<Rightarrow> int \<Rightarrow> bool" where
  "accepts_int ch n \<longleftrightarrow>
     (case c_min_value ch of None \<Rightarrow> fst (format_range (c_format ch)) | Some m \<Rightarrow> m) \<le> of_int n \<and>
     of_int n \<le> (case c_max_value ch of None \<Rightarrow> snd (format_range (c_format ch)) | Some m \<Rightarrow> m) \<and>
     (c_valid_values ch = [] \<or> n \<in> set (map uint (c_valid_values ch))) \<and>
     (c_valid_values_ranges ch = [] \<or> list_ex (\<lambda>(a, b). uint a \<le> n \<and> n \<le> uint b) (c_valid_values_ranges ch))"

lemma trunc_of_int [simp]: "trunc (of_int n) = n"
  by (simp add: trunc_def)

lemma convert_of_int: "lo \<le> n \<Longrightarrow> n \<le> hi \<Longrightarrow> convert G lo hi (of_int n) = n"
  by (simp add: convert_def)

lemma low_bytes_ucast [simp]:
  "ucast (low_bytes (Suc 0) (ucast (b :: byte)) old) = b" "ucast (low_bytes 2 (ucast (w :: u16)) old) = w"
  "ucast (low_bytes 4 (ucast (d :: u32)) old) = d"
  unfolding low_bytes_def
  by (rule bit_word_eqI; auto simp: bit_simps)+

lemma sint_of_int32: "- 2147483648 \<le> n \<Longrightarrow> n \<le> 2147483647 \<Longrightarrow> sint (of_int n :: u32) = n"
  by (simp add: signed_of_int signed_take_bit_int_eq_self)

lemma number_value_int:
  assumes "int_format f" and "in_format f n"
  shows "\<exists>v. number_value G f (of_int n) = Some v \<and> v_format v = f \<and> value_int v = n \<and> v_is_null v = v_is_null (ap_junk G)"
proof -
  note defs = number_value_def value_int_def convert_of_int HOMEKIT_UINT8_CPP_def HOMEKIT_UINT16_CPP_def
    HOMEKIT_UINT32_CPP_def HOMEKIT_UINT64_CPP_def HOMEKIT_INT_CPP_def HOMEKIT_DEFAULT_CPP_def int_value_def
  have ranges: "fst (format_range f) \<le> of_int n" "of_int n \<le> snd (format_range f)"
    using assms(2) by (simp_all add: in_format_def)
  show ?thesis
  proof (cases f)
    case homekit_format_uint8
    then have "0 \<le> n" "n \<le> 255" using ranges by (simp_all add: format_range_def)
    then show ?thesis using homekit_format_uint8 by (simp add: defs uint_word_of_int take_bit_int_eq_self)
  next
    case homekit_format_uint16
    then have "0 \<le> n" "n \<le> 65535" using ranges by (simp_all add: format_range_def)
    then show ?thesis using homekit_format_uint16 by (simp add: defs uint_word_of_int take_bit_int_eq_self)
  next
    case homekit_format_uint32
    then have "0 \<le> n" "n \<le> 4294967295" using ranges by (simp_all add: format_range_def)
    then show ?thesis using homekit_format_uint32 by (simp add: defs uint_word_of_int take_bit_int_eq_self)
  next
    case homekit_format_uint64
    then have "0 \<le> n" "n \<le> 18446744073709551615" using ranges by (simp_all add: format_range_def)
    then show ?thesis using homekit_format_uint64 by (simp add: defs uint_word_of_int take_bit_int_eq_self)
  next
    case homekit_format_int
    then have "- 2147483648 \<le> n" "n \<le> 2147483647" using ranges by (simp_all add: format_range_def)
    then show ?thesis using homekit_format_int by (simp add: defs sint_of_int32)
  qed (use assms(1) in \<open>simp_all add: int_format_def\<close>)
qed

text \<open>Declared limits are within the format.\<close>

definition limits_ok :: "homekit_characteristic \<Rightarrow> bool" where
  "limits_ok ch \<longleftrightarrow> (case c_min_value ch of None \<Rightarrow> True | Some m \<Rightarrow> fst (format_range (c_format ch)) \<le> m) \<and>
     (case c_max_value ch of None \<Rightarrow> True | Some m \<Rightarrow> m \<le> snd (format_range (c_format ch)))"

text \<open>The list of valid values is compared with the number as a 32-bit \<open>int\<close>.\<close>

definition comparable :: "homekit_characteristic \<Rightarrow> int \<Rightarrow> bool" where
  "comparable ch n \<longleftrightarrow> c_valid_values ch = [] \<or> (- 2147483648 \<le> n \<and> n \<le> 2147483647)"

lemma accepts_in_format: "limits_ok ch \<Longrightarrow> accepts_int ch n \<Longrightarrow> in_format (c_format ch) n"
  by (auto simp: limits_ok_def accepts_int_def in_format_def split: option.splits)

lemma number_of_json_int:
  assumes "int_format (c_format ch)" and "limits_ok ch" and "comparable ch n"
  shows "\<exists>v. v_format v = c_format ch \<and> v_is_null v = v_is_null (ap_junk G) \<and> (accepts_int ch n \<longrightarrow> value_int v = n) \<and>
    number_of_json G ch (cJSON_Number (of_int n)) = (if accepts_int ch n then Inr v else Inl HAPStatus_InvalidValue)"
proof -
  obtain lo hi where range: "format_range (c_format ch) = (lo, hi)" by (cases "format_range (c_format ch)")
  define a b c where "a \<longleftrightarrow> of_int n < (case c_min_value ch of None \<Rightarrow> lo | Some m \<Rightarrow> m) \<or>
      of_int n > (case c_max_value ch of None \<Rightarrow> hi | Some m \<Rightarrow> m)"
    and "b \<longleftrightarrow> c_valid_values ch \<noteq> [] \<and>
      \<not> list_ex (\<lambda>b. convert G (- 2147483648) 2147483647 (of_int n) = uint b) (c_valid_values ch)"
    and "c \<longleftrightarrow> c_valid_values_ranges ch \<noteq> [] \<and>
      \<not> list_ex (\<lambda>(a, b). of_int (uint a) \<le> (of_int n :: rat) \<and> of_int n \<le> (of_int (uint b) :: rat)) (c_valid_values_ranges ch)"
  have acc: "accepts_int ch n \<longleftrightarrow> \<not> a \<and> \<not> b \<and> \<not> c"
  proof -
    have r: "(\<lambda>(a, b). of_int (uint a) \<le> (of_int n :: rat) \<and> of_int n \<le> (of_int (uint b) :: rat))
        = (\<lambda>(a :: byte, b :: byte). uint a \<le> n \<and> n \<le> uint b)"
      by (simp only: of_int_le_iff)
    have v: "c_valid_values ch = [] \<or> convert G (- 2147483648) 2147483647 (of_int n) = n"
      using assms(3) by (auto simp: comparable_def convert_of_int)
    show ?thesis
      unfolding a_def b_def c_def r accepts_int_def range fst_conv snd_conv
      using v by (auto simp: list_ex_iff image_iff not_less)
  qed
  have num: "number_of_json G ch (cJSON_Number (of_int n)) =
      (if a then Inl HAPStatus_InvalidValue else if b then Inl HAPStatus_InvalidValue
       else if c then Inl HAPStatus_InvalidValue
       else (case number_value G (c_format ch) (of_int n) of None \<Rightarrow> Inl HAPStatus_InvalidValue | Some v \<Rightarrow> Inr v))"
    unfolding number_of_json_def range a_def b_def c_def by (simp add: valuedouble_def Let_def)
  show ?thesis
  proof (cases "accepts_int ch n")
    case True
    obtain v where v: "number_value G (c_format ch) (of_int n) = Some v" "v_format v = c_format ch" "value_int v = n"
        "v_is_null v = v_is_null (ap_junk G)"
      using number_value_int [OF assms(1) accepts_in_format [OF assms(2) True]] by blast
    have "number_of_json G ch (cJSON_Number (of_int n)) = Inr v" using num True acc v(1) by simp
    then show ?thesis using True v by (intro exI [of _ v]) simp
  next
    case False
    then have "number_of_json G ch (cJSON_Number (of_int n)) = Inl HAPStatus_InvalidValue"
      using num acc by auto
    then show ?thesis
      using False by (intro exI [of _ "(ap_junk G)\<lparr>v_format := c_format ch\<rparr>"]) simp
  qed
qed

section \<open>What an update changes\<close>

text \<open>The identifiers of a tree, by which characteristics are addressed.\<close>

definition tree_ids :: "homekit_accessory list \<Rightarrow> (u32 \<times> u32 list list) list" where
  "tree_ids as = map (\<lambda>a. (a_id a, map (\<lambda>s. map c_id (s_characteristics s)) (a_services a))) as"

lemma find_in_chs_ids:
  "map c_id cs = map c_id ds \<Longrightarrow> find_in_chs (\<lambda>c. c_id c = iid) cs k = find_in_chs (\<lambda>c. c_id c = iid) ds k"
proof (induction cs arbitrary: ds k)
  case (Cons c cs)
  then obtain d ds' where ds: "ds = d # ds'" "c_id c = c_id d" "map c_id cs = map c_id ds'" by auto
  show ?case using Cons.IH [OF ds(3)] ds(2) by (simp add: ds(1))
qed simp

lemma find_in_services_ids:
  "map (\<lambda>s. map c_id (s_characteristics s)) ss = map (\<lambda>s. map c_id (s_characteristics s)) ts \<Longrightarrow>
    find_in_services (\<lambda>c. c_id c = iid) ss j = find_in_services (\<lambda>c. c_id c = iid) ts j"
proof (induction ss arbitrary: ts j)
  case (Cons s ss)
  then obtain t ts' where ts: "ts = t # ts'" "map c_id (s_characteristics s) = map c_id (s_characteristics t)"
    "map (\<lambda>s. map c_id (s_characteristics s)) ss = map (\<lambda>s. map c_id (s_characteristics s)) ts'" by auto
  show ?case using find_in_chs_ids [OF ts(2), of iid 0] Cons.IH [OF ts(3)] by (simp add: ts(1) split: option.split)
qed simp

lemma find_in_accessories_ids:
  "tree_ids as = tree_ids bs \<Longrightarrow>
    find_in_accessories aid (\<lambda>c. c_id c = iid) as i = find_in_accessories aid (\<lambda>c. c_id c = iid) bs i"
proof (induction as arbitrary: bs i)
  case (Cons a as)
  then obtain b bs' where bs: "bs = b # bs'" "a_id a = a_id b"
    "map (\<lambda>s. map c_id (s_characteristics s)) (a_services a) = map (\<lambda>s. map c_id (s_characteristics s)) (a_services b)"
    "tree_ids as = tree_ids bs'" by (auto simp: tree_ids_def)
  show ?case using find_in_services_ids [OF bs(3), of iid 0] Cons.IH [OF bs(4)] bs(2)
    by (simp add: bs(1) split: option.split)
qed (simp add: tree_ids_def)

lemma addressed_ids: "tree_ids as = tree_ids bs \<Longrightarrow> addressed G as j = addressed G bs j"
  using find_in_accessories_ids [of as bs]
  by (simp add: addressed_def homekit_characteristic_by_aid_and_iid_def cong: option.case_cong cjson.case_cong)

lemma map_update_same: "i < length xs \<Longrightarrow> f x = f (xs ! i) \<Longrightarrow> map f (xs[i := x]) = map f xs"
  by (simp add: map_update list_update_same_conv)

lemma tree_ids_set: "valid_path as p \<Longrightarrow> c_id c = c_id (get_ch as p) \<Longrightarrow> tree_ids (set_ch as p c) = tree_ids as"
  by (auto simp: tree_ids_def set_ch_def valid_path_def get_ch_def map_update_same)

lemma valid_path_set [simp]: "valid_path (set_ch as p c) q = valid_path as q"
proof -
  obtain i j k l m n where "p = (i, j, k)" "q = (l, m, n)" by (cases p; cases q) auto
  then show ?thesis by (cases "i = l"; cases "j = m") (auto simp: valid_path_def set_ch_def nth_list_update)
qed

text \<open>
  The tree has changed in the values of the characteristics \<open>P\<close>, to values of their formats, and in callbacks
  only.
\<close>

definition updated_within :: "ch_path set \<Rightarrow> homekit_accessory list \<Rightarrow> homekit_accessory list \<Rightarrow> bool" where
  "updated_within P as bs \<longleftrightarrow> tree_ids bs = tree_ids as \<and> (\<forall>q. valid_path bs q = valid_path as q \<and>
     (valid_path as q \<longrightarrow>
       get_ch bs q = (get_ch as q)\<lparr>c_value := c_value (get_ch bs q), c_callbacks := c_callbacks (get_ch bs q)\<rparr> \<and>
       (c_value (get_ch bs q) = c_value (get_ch as q) \<or>
        q \<in> P \<and> v_format (c_value (get_ch bs q)) = c_format (get_ch as q))))"

lemma updated_refl [simp]: "updated_within P as as"
  by (simp add: updated_within_def)

lemma updatedD:
  assumes "updated_within P as bs"
  shows "tree_ids bs = tree_ids as" and "valid_path bs q = valid_path as q"
    and "valid_path as q \<Longrightarrow>
      get_ch bs q = (get_ch as q)\<lparr>c_value := c_value (get_ch bs q), c_callbacks := c_callbacks (get_ch bs q)\<rparr>"
    and "valid_path as q \<Longrightarrow> c_value (get_ch bs q) = c_value (get_ch as q) \<or>
      q \<in> P \<and> v_format (c_value (get_ch bs q)) = c_format (get_ch as q)"
  using assms unfolding updated_within_def by blast+

lemma updated_fields:
  assumes "updated_within P as bs" and "valid_path as q"
  shows "c_format (get_ch bs q) = c_format (get_ch as q)" and "c_setter_ex (get_ch bs q) = c_setter_ex (get_ch as q)"
  by (subst updatedD(3) [OF assms], simp)+

lemma updated_trans:
  assumes "updated_within P as bs" and "updated_within Q bs cs" and "P \<subseteq> R" and "Q \<subseteq> R"
  shows "updated_within R as cs"
  unfolding updated_within_def
proof (intro conjI allI impI)
  note 1 = updatedD [OF assms(1)] and 2 = updatedD [OF assms(2)]
  show "tree_ids cs = tree_ids as" using 1(1) 2(1) by simp
  fix q
  show "valid_path cs q = valid_path as q" using 1(2) 2(2) by simp
  assume v: "valid_path as q"
  then have w: "valid_path bs q" using 1(2) by simp
  show "c_value (get_ch cs q) = c_value (get_ch as q) \<or>
      q \<in> R \<and> v_format (c_value (get_ch cs q)) = c_format (get_ch as q)"
    using 1(4) [OF v] 2(4) [OF w] updated_fields(1) [OF assms(1) v] assms(3,4) by auto
  show "get_ch cs q = (get_ch as q)\<lparr>c_value := c_value (get_ch cs q), c_callbacks := c_callbacks (get_ch cs q)\<rparr>"
    by (subst 2(3) [OF w], subst 1(3) [OF v]) simp
qed

lemma updated_set:
  assumes "valid_path as p" and "ch = (get_ch as p)\<lparr>c_value := v, c_callbacks := cs\<rparr>"
    and "v = c_value (get_ch as p) \<or> v_format v = c_format (get_ch as p)"
  shows "updated_within {p} as (set_ch as p ch)"
proof -
  have "get_ch (set_ch as p ch) q = (if q = p then ch else get_ch as q)" if "valid_path as q" for q
    using that assms(1) get_set_other [of p q as ch] by auto
  then show ?thesis
    using assms by (simp add: updated_within_def tree_ids_set)
qed

section \<open>Notifying keeps the tree\<close>

lemma notify_one_tree:
  "client_notify_characteristic S ch v x = Inr S' \<Longrightarrow> sv_accessories S' = sv_accessories S"
  by (auto simp: client_notify_characteristic_def split: option.splits if_splits)

lemma run_notify_tree: "run_notify S ch calls = Inr S' \<Longrightarrow> sv_accessories S' = sv_accessories S"
proof (induction S ch calls rule: run_notify.induct)
  case (2 S ch f v x calls)
  then obtain T where T: "(if f = client_notify_callback then client_notify_characteristic S ch v x else Inr S) = Inr T"
      "run_notify T ch calls = Inr S'" by auto
  then have "sv_accessories T = sv_accessories S"
    using notify_one_tree [of S ch v x T] by (auto split: if_splits)
  then show ?case using 2(1) [OF T] by simp
qed simp

lemma notify_change_tree: "notify_change S i p v = Inr S' \<Longrightarrow> sv_accessories S' = sv_accessories S"
  by (auto simp: notify_change_def modify_client_def split: if_splits dest!: run_notify_tree)

lemma update_events_tree:
  assumes "valid_path (sv_accessories S) p"
  shows "updated_within P (sv_accessories S) (sv_accessories (snd (update_events S i p j)))"
proof -
  have "updated_within {p} (sv_accessories S) (set_ch (sv_accessories S) p
      ((get_ch (sv_accessories S) p)\<lparr>c_callbacks := cs\<rparr>))" for cs
    by (rule updated_set [OF assms, where v = "c_value (get_ch (sv_accessories S) p)"]) simp_all
  then have "updated_within P (sv_accessories S) (set_ch (sv_accessories S) p
      ((get_ch (sv_accessories S) p)\<lparr>c_callbacks := cs\<rparr>))" for cs
    using assms by (fastforce simp: updated_within_def)
  then show ?thesis
    by (auto simp: update_events_def Let_def homekit_characteristic_add_notify_callback_def
        homekit_characteristic_remove_notify_callback_def split: option.split)
qed

lemma checked_value_format:
  assumes "checked_value G ch j = Inr (Inr v)"
  shows "v_format v = c_format ch"
  using assms
  by (cases "c_format ch")
     (auto simp: checked_value_def bool_of_json_def number_of_json_def float_of_json_def string_of_json_def
       tlv_of_json_def data_of_json_def number_value_def Let_def HOMEKIT_BOOL_CPP_def HOMEKIT_UINT8_CPP_def
       HOMEKIT_UINT16_CPP_def HOMEKIT_UINT32_CPP_def HOMEKIT_UINT64_CPP_def HOMEKIT_INT_CPP_def
       HOMEKIT_FLOAT_CPP_def HOMEKIT_STRING_CPP_def HOMEKIT_TLV_CPP_def HOMEKIT_DATA_CPP_def HOMEKIT_DEFAULT_CPP_def
       split: if_splits cjson.splits option.splits prod.splits)

lemma value_copy_format: "homekit_value_copy v = Inr w \<Longrightarrow> v_format w = v_format v"
  by (cases "v_format v") (auto simp: homekit_value_copy_def Let_def zero_value_def split: if_splits option.splits)

lemma store_value_tree:
  assumes "valid_path as p" and "c_setter_ex (get_ch as p) = None" and "v_format v = c_format (get_ch as p)"
    and "store_value G as p v = Inr bs"
  shows "updated_within {p} as bs"
proof -
  obtain w where w: "bs = set_ch as p ((get_ch as p)\<lparr>c_value := w\<rparr>)" "v_format w = c_format (get_ch as p)"
    using assms(2-4) value_copy_format [of v] by (auto simp: store_value_def Let_def split: if_splits)
  show ?thesis
    unfolding w(1) by (rule updated_set [OF assms(1), where v = w and cs = "c_callbacks (get_ch as p)"])
      (use w(2) in simp_all)
qed

text \<open>None of the characteristics has a setter.\<close>

definition plain_tree :: "homekit_accessory list \<Rightarrow> bool" where
  "plain_tree as \<longleftrightarrow> (\<forall>q. valid_path as q \<longrightarrow> c_setter_ex (get_ch as q) = None)"

lemma plain_updated: "updated_within P as bs \<Longrightarrow> plain_tree as \<Longrightarrow> plain_tree bs"
  unfolding plain_tree_def using updatedD(2) updated_fields(2) by metis

text \<open>The characteristics that a list of elements addresses.\<close>

definition addressed_by :: "app \<Rightarrow> homekit_accessory list \<Rightarrow> cjson list \<Rightarrow> ch_path set" where
  "addressed_by G as js = {p. \<exists>j \<in> set js. addressed G as j = Some p}"

lemma process_tree:
  assumes "process_characteristics_update G S i j = Inr (status, S')" and "plain_tree (sv_accessories S)"
  shows "updated_within (addressed_by G (sv_accessories S) [j]) (sv_accessories S) (sv_accessories S')"
proof (cases "addressed G (sv_accessories S) j")
  case None
  then show ?thesis using assms by (simp add: process_characteristics_update_def)
next
  case (Some p)
  have valid: "valid_path (sv_accessories S) p" by (rule addressed_valid [OF Some])
  have P: "addressed_by G (sv_accessories S) [j] = {p}" using Some by (auto simp: addressed_by_def)
  show ?thesis
  proof (cases "cJSON_GetObjectItem j ''value''")
    case None
    then show ?thesis
      using assms(1) Some update_events_tree [OF valid, of "{p}" i j] by (simp add: process_characteristics_update_def P)
  next
    case jv: (Some jv)
    obtain r where r: "checked_value G (get_ch (sv_accessories S) p) jv = Inr r"
      using assms(1) Some jv by (auto simp: process_characteristics_update_def)
    show ?thesis
    proof (cases r)
      case (Inl e)
      then show ?thesis using assms(1) Some jv r by (simp add: process_characteristics_update_def)
    next
      case (Inr v)
      obtain bs T where bs: "store_value G (sv_accessories S) p v = Inr bs"
          and T: "notify_change (S\<lparr>sv_accessories := bs\<rparr>) i p v = Inr T" and S': "S' = snd (update_events T i p j)"
        using assms(1) Some jv r Inr by (auto simp: process_characteristics_update_def)
      have u: "updated_within {p} (sv_accessories S) bs"
        using store_value_tree [OF valid _ checked_value_format bs] assms(2) valid r Inr
        unfolding plain_tree_def by blast
      have t: "sv_accessories T = bs" using notify_change_tree [OF T] by simp
      then have "updated_within {p} bs (sv_accessories S')"
        using update_events_tree [of T p "{p}" i j] updatedD(2) [OF u] valid S' by simp
      then show ?thesis using updated_trans [OF u] by (simp add: P)
    qed
  qed
qed

lemma update_all_tree:
  "update_all G S i js = Inr (statuses, S') \<Longrightarrow> plain_tree (sv_accessories S) \<Longrightarrow>
    updated_within (addressed_by G (sv_accessories S) js) (sv_accessories S) (sv_accessories S')"
proof (induction js arbitrary: S statuses)
  case (Cons j js)
  obtain st T sts where T: "process_characteristics_update G S i j = Inr (st, T)" "update_all G T i js = Inr (sts, S')"
    using Cons.prems(1) by auto
  have u: "updated_within (addressed_by G (sv_accessories S) [j]) (sv_accessories S) (sv_accessories T)"
    by (rule process_tree [OF T(1) Cons.prems(2)])
  have w: "updated_within (addressed_by G (sv_accessories T) js) (sv_accessories T) (sv_accessories S')"
    by (rule Cons.IH [OF T(2) plain_updated [OF u Cons.prems(2)]])
  have same: "addressed_by G (sv_accessories T) js = addressed_by G (sv_accessories S) js"
    using addressed_ids [OF updatedD(1) [OF u]] by (simp add: addressed_by_def)
  show ?case by (rule updated_trans [OF u w]) (unfold same, auto simp: addressed_by_def)
qed simp

text \<open>Every value has the format its characteristic declares.\<close>

definition typed_tree :: "homekit_accessory list \<Rightarrow> bool" where
  "typed_tree as \<longleftrightarrow> (\<forall>q. valid_path as q \<longrightarrow> v_format (c_value (get_ch as q)) = c_format (get_ch as q))"

lemma typed_updated: "updated_within P as bs \<Longrightarrow> typed_tree as \<Longrightarrow> typed_tree bs"
  unfolding typed_tree_def
proof (intro allI impI)
  fix q assume u: "updated_within P as bs" and t: "\<forall>q. valid_path as q \<longrightarrow> v_format (c_value (get_ch as q)) = c_format (get_ch as q)"
    and v: "valid_path bs q"
  have v: "valid_path as q" using updatedD(2) [OF u] v by simp
  show "v_format (c_value (get_ch bs q)) = c_format (get_ch bs q)"
    using updatedD(4) [OF u v] t [rule_format, OF v] updated_fields(1) [OF u v] by auto
qed

lemma process_value:
  assumes "addressed G (sv_accessories S) j = Some p" and "cJSON_GetObjectItem j ''value'' = Some jv"
  shows "process_characteristics_update G S i j =
    bind_res (checked_value G (get_ch (sv_accessories S) p) jv) (\<lambda>r. case r of
      Inl status \<Rightarrow> Inr (status, S)
    | Inr v \<Rightarrow> bind_res (store_value G (sv_accessories S) p v) (\<lambda>as.
        bind_res (notify_change (S\<lparr>sv_accessories := as\<rparr>) i p v) (\<lambda>S. Inr (update_events S i p j))))"
  using assms by (simp add: process_characteristics_update_def)

lemma integer_update:
  assumes "addressed G (sv_accessories S) j = Some p" and "cJSON_GetObjectItem j ''value'' = Some (cJSON_Number (of_int n))"
    and "ch = get_ch (sv_accessories S) p" and "int_format (c_format ch)" and "limits_ok ch" and "comparable ch n"
    and "c_setter_ex ch = None"
  shows "\<exists>v. v_format v = c_format ch \<and> v_is_null v = v_is_null (ap_junk G) \<and> (accepts_int ch n \<longrightarrow> value_int v = n) \<and>
    process_characteristics_update G S i j =
      (if \<not> has_bit (c_permissions ch) homekit_permissions_paired_write then Inr (HAPStatus_ReadOnly, S)
       else if \<not> accepts_int ch n then Inr (HAPStatus_InvalidValue, S)
       else bind_res (notify_change (S\<lparr>sv_accessories := set_ch (sv_accessories S) p (ch\<lparr>c_value := v\<rparr>)\<rparr>) i p v)
         (\<lambda>S. Inr (update_events S i p j)))"
proof -
  obtain v where v: "v_format v = c_format ch" "v_is_null v = v_is_null (ap_junk G)" "accepts_int ch n \<longrightarrow> value_int v = n"
      "number_of_json G ch (cJSON_Number (of_int n)) = (if accepts_int ch n then Inr v else Inl HAPStatus_InvalidValue)"
    using number_of_json_int [OF assms(4-6)] by blast
  have chk: "checked_value G ch (cJSON_Number (of_int n)) =
      (if \<not> has_bit (c_permissions ch) homekit_permissions_paired_write then Inr (Inl HAPStatus_ReadOnly)
       else Inr (number_of_json G ch (cJSON_Number (of_int n))))"
    using assms(4) by (cases "c_format ch") (simp_all add: checked_value_def int_format_def)
  have st: "store_value G (sv_accessories S) p v = Inr (set_ch (sv_accessories S) p (ch\<lparr>c_value := v\<rparr>))"
    using assms(3,4,7) by (auto simp: store_value_def Let_def int_format_def)
  show ?thesis
    using v chk st by (intro exI [of _ v]) (simp add: process_value [OF assms(1,2)] assms(3) [symmetric])
qed

section \<open>Properties\<close>


definition number_ch :: homekit_characteristic where
  "number_ch = readable_ch\<lparr>c_format := homekit_format_uint8, c_value := HOMEKIT_UINT8 7, c_max_value := Some 100,
     c_valid_values_ranges := [(10, 60)]\<rparr>"

definition number_server :: "('w, byte list, unit, 'srp) homekit_server_t \<Rightarrow> ('w, byte list, unit, 'srp) homekit_server_t" where
  "number_server S = S\<lparr>sv_accessories := set_ch sample_tree (0, 0, 0) number_ch\<rparr>"

definition write_element :: "int \<Rightarrow> cjson" where
  "write_element n = cJSON_Object [(''aid'', cJSON_Number 1), (''iid'', cJSON_Number 2), (''value'', cJSON_Number (of_int n))]"

lemma trunc_numeral [simp]: "trunc (numeral k) = numeral k" "trunc 1 = 1"
  by (simp_all add: trunc_def)

lemma number_server_tree: "sv_accessories (number_server S) = set_ch sample_tree (0, 0, 0) number_ch"
  "get_ch (set_ch sample_tree (0, 0, 0) number_ch) (0, 0, 0) = number_ch"
  "addressed sample_app (set_ch sample_tree (0, 0, 0) number_ch) (write_element n) = Some (0, 0, 0)"
  "cJSON_GetObjectItem (write_element n) ''value'' = Some (cJSON_Number (of_int n))"
  by (simp_all add: number_server_def get_ch_def set_ch_def sample_tree_def addressed_def write_element_def
      cJSON_GetObjectItem_def to_u32_def convert_def homekit_characteristic_by_aid_and_iid_def number_ch_def readable_ch_def)
     (simp_all add: lower_def of_char_def)



lemma number_tree_path: "valid_path sample_tree q \<longleftrightarrow> q = (0, 0, 0)"
  by (cases q) (auto simp: valid_path_def sample_tree_def)


end
