(* ===== verification/Notifications.thy ===== *)
theory Notifications
  imports Char_Update
begin

text \<open>
  \<open>homekit_server_process_notifications\<close> of \<open>src/arduino_homekit_server.cpp\<close>: the loop that sends each client
  the events it has collected.
\<close>

section \<open>Sending the events\<close>

text \<open>
  The events of a client: the queue is emptied, newest first; for a characteristic that is in the list
  already the later pop replaces the value, so the oldest value stays.
\<close>

fun coalesce :: "characteristic_event_t list \<Rightarrow> characteristic_event_t \<Rightarrow> characteristic_event_t list" where
  "coalesce [] e = [e]"
| "coalesce (d # ds) e = (if ev_characteristic d = ev_characteristic e then e # ds else d # coalesce ds e)"

text \<open>\<open>n\<close> bounds the iterations of the loop: one more than the number of records in the queue.\<close>

fun pop_events :: "nat \<Rightarrow> characteristic_event_t queue_t \<Rightarrow> characteristic_event_t list \<Rightarrow>
    fault + (characteristic_event_t list \<times> characteristic_event_t queue_t)" where
  "pop_events 0 q evs = Inl Hang"
| "pop_events (Suc n) q evs =
     bind_res (q_pop q) (\<lambda>(x, q).
       case x of
         None \<Rightarrow> Inr (evs, q)
       | Some e \<Rightarrow> bind_res (homekit_value_copy (ev_value e)) (\<lambda>v. pop_events n q (coalesce evs (e\<lparr>ev_value := v\<rparr>))))"

definition process_client_notifications ::
  "app \<Rightarrow> 's platform \<Rightarrow> ('w, 's, 'p, 'srp) homekit_server_t \<Rightarrow> nat \<Rightarrow> fault + ('w, 's, 'p, 'srp) homekit_server_t" where
  "process_client_notifications G W S i =
     bind_res (client S i) (\<lambda>c.
       if cl_step c \<noteq> HOMEKIT_CLIENT_STEP_PAIR_VERIFY_2OF2 then Inr S
       else case cl_event_queue c of
         None \<Rightarrow> Inr S
       | Some q \<Rightarrow>
           bind_res (pop_events (Suc (cnt q)) q []) (\<lambda>(events, q).
             let S = set_client S i (c\<lparr>cl_event_queue := Some q\<rparr>) in
             if events = [] then Inr S else send_client_events G W S i events))"

text \<open>
  The loop over the clients follows the \<open>next\<close> pointer of the client after its events have been sent; a
  client that was closed meanwhile is gone.
\<close>

fun next_client :: "(nat \<times> 'c) list \<Rightarrow> nat \<Rightarrow> fault + nat option" where
  "next_client [] i = Inl Dangling"
| "next_client ((j, c) # cs) i = (if j = i then Inr (case cs of [] \<Rightarrow> None | (k, _) # _ \<Rightarrow> Some k) else next_client cs i)"

fun client_loop ::
  "(('w, 's, 'p, 'srp) homekit_server_t \<Rightarrow> nat \<Rightarrow> fault + ('w, 's, 'p, 'srp) homekit_server_t) \<Rightarrow> nat \<Rightarrow>
   ('w, 's, 'p, 'srp) homekit_server_t \<Rightarrow> nat option \<Rightarrow> fault + ('w, 's, 'p, 'srp) homekit_server_t" where
  "client_loop f n S None = Inr S"
| "client_loop f 0 S (Some i) = Inl Hang"
| "client_loop f (Suc n) S (Some i) =
     bind_res (f S i) (\<lambda>S. bind_res (next_client (sv_clients S) i) (\<lambda>next. client_loop f n S next))"

definition first_client :: "('w, 's, 'p, 'srp) homekit_server_t \<Rightarrow> nat option" where
  "first_client S = (case sv_clients S of [] \<Rightarrow> None | (i, _) # _ \<Rightarrow> Some i)"

definition homekit_server_process_notifications ::
  "app \<Rightarrow> 's platform \<Rightarrow> ('w, 's, 'p, 'srp) homekit_server_t \<Rightarrow> fault + ('w, 's, 'p, 'srp) homekit_server_t" where
  "homekit_server_process_notifications G W S =
     client_loop (process_client_notifications G W) (length (sv_clients S)) S (first_client S)"

section \<open>Subscribers\<close>

text \<open>The events that wait for a client, newest first, and the clients that are called for a characteristic.\<close>

definition events :: "('w, 's, 'p, 'srp) homekit_server_t \<Rightarrow> nat \<Rightarrow> characteristic_event_t list" where
  "events S x = (case client S x of Inl f \<Rightarrow> [] | Inr c \<Rightarrow> (case cl_event_queue c of None \<Rightarrow> [] | Some q \<Rightarrow> q_items q))"

definition subscribed :: "homekit_accessory list \<Rightarrow> ch_path \<Rightarrow> nat \<Rightarrow> bool" where
  "subscribed as p x \<longleftrightarrow> (client_notify_callback, x) \<in> set (c_callbacks (get_ch as p))"

text \<open>Every client has its queue, and the callbacks of the server are for clients that are there, each once.\<close>

definition client_ready :: "('w, 's, 'p, 'srp) homekit_server_t \<Rightarrow> nat \<Rightarrow> bool" where
  "client_ready S x \<longleftrightarrow> (\<exists>c q. client S x = Inr c \<and> cl_event_queue c = Some q \<and>
     ring_inv LIFO HOMEKIT_EVENT_QUEUE_SIZE q)"

definition notify_ok :: "('w, 's, 'p, 'srp) homekit_server_t \<Rightarrow> bool" where
  "notify_ok S \<longleftrightarrow> (\<forall>x c. client S x = Inr c \<longrightarrow> client_ready S x) \<and>
     (\<forall>q. valid_path (sv_accessories S) q \<longrightarrow> distinct (c_callbacks (get_ch (sv_accessories S) q)) \<and>
        (\<forall>x. subscribed (sv_accessories S) q x \<longrightarrow> (\<exists>c. client S x = Inr c)))"

lemma value_equal_refl: "value_ok v \<Longrightarrow> homekit_value_equal v v = Inr True"
  by (cases "v_format v") (auto simp: homekit_value_equal_def value_ok_def tlv_items_equal_refl split: option.splits)

text \<open>One call that is not for the client that writes.\<close>

lemma notify_one_pushes:
  assumes "client_ready S x" and "homekit_value_copy v = Inr w"
    and "\<And>d. client S x = Inr d \<Longrightarrow> cl_current_characteristic d \<noteq> Some p"
  shows "\<exists>d q. client_notify_characteristic S p v x = Inr (set_client S x (d\<lparr>cl_event_queue := Some q\<rparr>)) \<and>
    client S x = Inr d \<and> ring_inv LIFO HOMEKIT_EVENT_QUEUE_SIZE q \<and>
    q_items q = take HOMEKIT_EVENT_QUEUE_SIZE (\<lparr>ev_characteristic = p, ev_value = w\<rparr> # events S x)"
proof -
  obtain c q where c: "client S x = Inr c" "cl_event_queue c = Some q" "ring_inv LIFO HOMEKIT_EVENT_QUEUE_SIZE q"
    using assms(1) by (auto simp: client_ready_def)
  obtain q' where "q_push q \<lparr>ev_characteristic = p, ev_value = w\<rparr> = Inr (True, q')"
    "ring_inv LIFO HOMEKIT_EVENT_QUEUE_SIZE q'"
    "q_items q' = lifo_ins HOMEKIT_EVENT_QUEUE_SIZE \<lparr>ev_characteristic = p, ev_value = w\<rparr> (q_items q)"
    using lifo.push_ok [OF c(3)] by blast
  then show ?thesis
    using c assms(2,3) by (auto simp: client_notify_characteristic_def lifo_ins_def events_def)
qed

lemma events_set: "client S x = Inr c \<Longrightarrow>
    events (set_client S x d) y = (if y = x then case cl_event_queue d of None \<Rightarrow> [] | Some q \<Rightarrow> q_items q else events S y)"
  by (simp add: events_def client_set_same client_set_other)

lemma run_notify_pushes:
  assumes "distinct cs" and "\<And>x. (client_notify_callback, x) \<in> set cs \<Longrightarrow> client_ready S x"
    and "homekit_value_copy v = Inr w" and "value_ok v"
    and "client S i = Inr c" and "cl_current_characteristic c = Some p" and "cl_current_value c = Some v"
    and "\<And>x d. x \<noteq> i \<Longrightarrow> client S x = Inr d \<Longrightarrow> cl_current_characteristic d \<noteq> Some p"
  shows "\<exists>S'. run_notify S p (notify_calls cs v) = Inr S' \<and> client S' i = Inr c \<and>
    (\<forall>x. events S' x = (if x \<noteq> i \<and> (client_notify_callback, x) \<in> set cs
      then take HOMEKIT_EVENT_QUEUE_SIZE (\<lparr>ev_characteristic = p, ev_value = w\<rparr> # events S x) else events S x)) \<and>
    (\<forall>x. client_ready S x \<longrightarrow> client_ready S' x) \<and> (\<forall>x. client S' x = Inl Dangling \<longleftrightarrow> client S x = Inl Dangling)"
  using assms
proof (induction cs arbitrary: S)
  case (Cons fx cs)
  obtain f x where [simp]: "fx = (f, x)" by (cases fx)
  show ?case
  proof (cases "f = client_notify_callback \<and> x \<noteq> i")
    case False
    have "(if f = client_notify_callback then client_notify_characteristic S p v x else Inr S) = Inr S"
      using False Cons.prems(5-7) value_equal_refl [OF Cons.prems(4)] by (auto simp: client_notify_characteristic_def)
    moreover have "\<exists>S'. run_notify S p (notify_calls cs v) = Inr S' \<and> client S' i = Inr c \<and>
      (\<forall>y. events S' y = (if y \<noteq> i \<and> (client_notify_callback, y) \<in> set cs
        then take HOMEKIT_EVENT_QUEUE_SIZE (\<lparr>ev_characteristic = p, ev_value = w\<rparr> # events S y) else events S y)) \<and>
      (\<forall>x. client_ready S x \<longrightarrow> client_ready S' x) \<and> (\<forall>x. client S' x = Inl Dangling \<longleftrightarrow> client S x = Inl Dangling)"
      by (rule Cons.IH) (use Cons.prems in auto)
    ultimately show ?thesis using False by auto
  next
    case True
    then have ready: "client_ready S x" using Cons.prems(2) [of x] by simp
    obtain d q where d: "client_notify_characteristic S p v x = Inr (set_client S x (d\<lparr>cl_event_queue := Some q\<rparr>))"
        "client S x = Inr d" "ring_inv LIFO HOMEKIT_EVENT_QUEUE_SIZE q"
        "q_items q = take HOMEKIT_EVENT_QUEUE_SIZE (\<lparr>ev_characteristic = p, ev_value = w\<rparr> # events S x)"
      using notify_one_pushes [OF ready Cons.prems(3)] Cons.prems(8) True by blast
    let ?S = "set_client S x (d\<lparr>cl_event_queue := Some q\<rparr>)"
    have x: "(client_notify_callback, x) \<notin> set cs" using Cons.prems(1) True by simp
    have other: "y \<noteq> x \<Longrightarrow> client ?S y = client S y" for y by (simp add: client_set_other)
    have r: "client_ready S y \<Longrightarrow> client_ready ?S y" for y
      using d(2,3) by (cases "y = x") (auto simp: client_ready_def client_set_same client_set_other)
    have dang: "client ?S y = Inl Dangling \<longleftrightarrow> client S y = Inl Dangling" for y
      using d(2) by (cases "y = x") (auto simp: client_set_same client_set_other)
    have "\<exists>S'. run_notify ?S p (notify_calls cs v) = Inr S' \<and> client S' i = Inr c \<and>
      (\<forall>y. events S' y = (if y \<noteq> i \<and> (client_notify_callback, y) \<in> set cs
        then take HOMEKIT_EVENT_QUEUE_SIZE (\<lparr>ev_characteristic = p, ev_value = w\<rparr> # events ?S y) else events ?S y)) \<and>
      (\<forall>y. client_ready ?S y \<longrightarrow> client_ready S' y) \<and> (\<forall>y. client S' y = Inl Dangling \<longleftrightarrow> client ?S y = Inl Dangling)"
    proof (rule Cons.IH)
      fix y e assume "y \<noteq> i" "client ?S y = Inr e"
      then show "cl_current_characteristic e \<noteq> Some p"
        using Cons.prems(8) [of y] d(2) other [of y] client_set_same [OF d(2)] by (cases "y = x") auto
    qed (use Cons.prems True r other [of i] in auto)
    then obtain S' where S': "run_notify ?S p (notify_calls cs v) = Inr S'" "client S' i = Inr c"
        "\<forall>y. events S' y = (if y \<noteq> i \<and> (client_notify_callback, y) \<in> set cs
          then take HOMEKIT_EVENT_QUEUE_SIZE (\<lparr>ev_characteristic = p, ev_value = w\<rparr> # events ?S y) else events ?S y)"
        "\<forall>y. client_ready ?S y \<longrightarrow> client_ready S' y" "\<forall>y. client S' y = Inl Dangling \<longleftrightarrow> client ?S y = Inl Dangling" by blast
    have "events S' y = (if y \<noteq> i \<and> (client_notify_callback, y) \<in> set (fx # cs)
        then take HOMEKIT_EVENT_QUEUE_SIZE (\<lparr>ev_characteristic = p, ev_value = w\<rparr> # events S y) else events S y)" for y
      using S'(3) [rule_format, of y] x True d(4) by (cases "y = x") (auto simp: events_set [OF d(2)])
    then show ?thesis using S' d(1) True r dang by auto
  qed
qed auto

lemma client_dangling: "client S x = Inl f \<Longrightarrow> f = Dangling"
  by (simp add: client_def split: option.splits)

lemma client_live_iff: "(\<exists>c. client S x = Inr c) \<longleftrightarrow> client S x \<noteq> Inl Dangling"
  using client_dangling by (cases "client S x") auto

lemma ready_set_same_queue:
  "client S i = Inr c \<Longrightarrow> cl_event_queue d = cl_event_queue c \<Longrightarrow> client_ready (set_client S i d) x = client_ready S x"
  by (cases "x = i") (auto simp: client_ready_def client_set_same client_set_other)

lemma notify_change_pushes:
  assumes "notify_ok S" and "valid_path (sv_accessories S) p" and "value_ok v" and "client S i = Inr c"
    and "\<And>x d. x \<noteq> i \<Longrightarrow> client S x = Inr d \<Longrightarrow> cl_current_characteristic d \<noteq> Some p"
  shows "\<exists>S' w. notify_change S i p v = Inr S' \<and> homekit_value_equal v w = Inr True \<and>
    sv_accessories S' = sv_accessories S \<and>
    (\<forall>x. events S' x = (if x \<noteq> i \<and> subscribed (sv_accessories S) p x
      then take HOMEKIT_EVENT_QUEUE_SIZE (\<lparr>ev_characteristic = p, ev_value = w\<rparr> # events S x) else events S x)) \<and>
    (\<forall>x. client_ready S x \<longrightarrow> client_ready S' x) \<and> (\<forall>x. client S' x = Inl Dangling \<longleftrightarrow> client S x = Inl Dangling)"
proof -
  obtain w where w: "homekit_value_copy v = Inr w" "homekit_value_equal v w = Inr True"
    using value_copy_total [OF assms(3)] by blast
  let ?c = "c\<lparr>cl_current_characteristic := Some p, cl_current_value := Some v\<rparr>"
  let ?S = "set_client S i ?c"
  let ?cs = "c_callbacks (get_ch (sv_accessories S) p)"
  have c: "client ?S i = Inr ?c" by (rule client_set_same [OF assms(4)])
  have r1: "client_ready ?S x = client_ready S x" for x
    by (rule ready_set_same_queue [OF assms(4)]) simp
  have d1: "client ?S x = Inl Dangling \<longleftrightarrow> client S x = Inl Dangling" for x
    using assms(4) c by (cases "x = i") (auto simp: client_set_other)
  have e1: "events ?S x = events S x" for x
    using assms(4) by (simp add: events_set [OF assms(4)]) (simp add: events_def)
  have ready: "(client_notify_callback, x) \<in> set ?cs \<Longrightarrow> client_ready ?S x" for x
    using assms(1,2) r1 unfolding notify_ok_def subscribed_def by blast
  have "\<exists>S'. run_notify ?S p (notify_calls ?cs v) = Inr S' \<and> client S' i = Inr ?c \<and>
    (\<forall>x. events S' x = (if x \<noteq> i \<and> (client_notify_callback, x) \<in> set ?cs
      then take HOMEKIT_EVENT_QUEUE_SIZE (\<lparr>ev_characteristic = p, ev_value = w\<rparr> # events ?S x) else events ?S x)) \<and>
    (\<forall>x. client_ready ?S x \<longrightarrow> client_ready S' x) \<and> (\<forall>x. client S' x = Inl Dangling \<longleftrightarrow> client ?S x = Inl Dangling)"
  proof (rule run_notify_pushes [OF _ ready w(1) assms(3) c])
    show "distinct ?cs" using assms(1,2) unfolding notify_ok_def by blast
    fix x d assume "x \<noteq> i" "client ?S x = Inr d"
    then show "cl_current_characteristic d \<noteq> Some p" using assms(5) [of x] by (simp add: client_set_other)
  qed simp_all
  then obtain T where T: "run_notify ?S p (notify_calls ?cs v) = Inr T" "client T i = Inr ?c"
      "\<forall>x. events T x = (if x \<noteq> i \<and> subscribed (sv_accessories S) p x
        then take HOMEKIT_EVENT_QUEUE_SIZE (\<lparr>ev_characteristic = p, ev_value = w\<rparr> # events S x) else events S x)"
      "\<forall>x. client_ready ?S x \<longrightarrow> client_ready T x" "\<forall>x. client T x = Inl Dangling \<longleftrightarrow> client ?S x = Inl Dangling"
    by (auto simp: subscribed_def e1)
  define d where "d = ?c\<lparr>cl_current_characteristic := None, cl_current_value := None\<rparr>"
  have nc: "notify_change S i p v = Inr (set_client T i d)"
    using assms(3,4) T(1,2) by (simp add: notify_change_def modify_client_def homekit_characteristic_notify_def value_ok_def d_def)
  have e2: "events (set_client T i d) x = events T x" for x
    using T(2) by (simp add: events_set [OF T(2)]) (simp add: events_def d_def)
  have r2: "client_ready (set_client T i d) x = client_ready T x" for x
    by (rule ready_set_same_queue [OF T(2)]) (simp add: d_def)
  have d2: "client (set_client T i d) x = Inl Dangling \<longleftrightarrow> client T x = Inl Dangling" for x
    using T(2) client_set_same [OF T(2)] by (cases "x = i") (auto simp: client_set_other)
  have "sv_accessories T = sv_accessories ?S" by (rule run_notify_tree [OF T(1)])
  then show ?thesis
    using nc w(2) T(3-5) by (intro exI [of _ "set_client T i d"] exI [of _ w]) (simp add: e2 r2 r1 d2 d1)
qed

section \<open>The invariant of the notifications\<close>

definition keeps_clients :: "('w, 's, 'p, 'srp) homekit_server_t \<Rightarrow> ('w, 's, 'p, 'srp) homekit_server_t \<Rightarrow> bool" where
  "keeps_clients S S' \<longleftrightarrow> (\<forall>x. client_ready S x \<longrightarrow> client_ready S' x) \<and>
     (\<forall>x. client S' x = Inl Dangling \<longleftrightarrow> client S x = Inl Dangling)"

definition callbacks_ok :: "('w, 's, 'p, 'srp) homekit_server_t \<Rightarrow> homekit_accessory list \<Rightarrow> bool" where
  "callbacks_ok S as \<longleftrightarrow> (\<forall>q. valid_path as q \<longrightarrow> distinct (c_callbacks (get_ch as q)) \<and>
     (\<forall>x. subscribed as q x \<longrightarrow> client S x \<noteq> Inl Dangling))"

lemma notify_ok_iff:
  "notify_ok S \<longleftrightarrow> (\<forall>x. client S x \<noteq> Inl Dangling \<longrightarrow> client_ready S x) \<and> callbacks_ok S (sv_accessories S)"
  unfolding notify_ok_def callbacks_ok_def client_live_iff
  by (metis client_dangling client_live_iff sum.exhaust_sel)

lemma client_accessories [simp]: "client (S\<lparr>sv_accessories := as\<rparr>) = client S"
  by (simp add: client_def fun_eq_iff)

lemma client_ready_accessories [simp]: "client_ready (S\<lparr>sv_accessories := as\<rparr>) = client_ready S"
  by (simp add: client_ready_def fun_eq_iff)

lemma keeps_refl [simp]: "keeps_clients S S"
  by (simp add: keeps_clients_def)

lemma keeps_trans: "keeps_clients S T \<Longrightarrow> keeps_clients T U \<Longrightarrow> keeps_clients S U"
  by (simp add: keeps_clients_def)

lemma keeps_ready: "keeps_clients S T \<Longrightarrow> \<forall>x. client S x \<noteq> Inl Dangling \<longrightarrow> client_ready S x \<Longrightarrow>
    \<forall>x. client T x \<noteq> Inl Dangling \<longrightarrow> client_ready T x"
  by (simp add: keeps_clients_def)

lemma keeps_callbacks: "keeps_clients S T \<Longrightarrow> callbacks_ok T as = callbacks_ok S as"
  by (simp add: keeps_clients_def callbacks_ok_def)

lemma keeps_set:
  assumes "client S i = Inr c" and "cl_event_queue d = cl_event_queue c \<or>
    (\<exists>q. cl_event_queue d = Some q \<and> ring_inv LIFO HOMEKIT_EVENT_QUEUE_SIZE q)"
  shows "keeps_clients S (set_client S i d)"
proof -
  have "client (set_client S i d) x = Inl Dangling \<longleftrightarrow> client S x = Inl Dangling" for x
    using assms(1) client_set_same [OF assms(1)] by (cases "x = i") (auto simp: client_set_other)
  moreover have "client_ready S x \<Longrightarrow> client_ready (set_client S i d) x" for x
    using assms by (cases "x = i") (auto simp: client_ready_def client_set_same client_set_other)
  ultimately show ?thesis by (simp add: keeps_clients_def)
qed

lemma notify_one_keeps:
  assumes "\<forall>x. client S x \<noteq> Inl Dangling \<longrightarrow> client_ready S x" and "client_notify_characteristic S p v x = Inr S'"
  shows "keeps_clients S S'"
proof -
  obtain c where c: "client S x = Inr c" using assms(2) by (auto simp: client_notify_characteristic_def)
  then obtain q where q: "cl_event_queue c = Some q" "ring_inv LIFO HOMEKIT_EVENT_QUEUE_SIZE q"
    using spec [OF assms(1), of x] by (auto simp: client_ready_def)
  have "S' = S \<or> (\<exists>e b q'. q_push q e = Inr (b, q') \<and> S' = set_client S x (c\<lparr>cl_event_queue := Some q'\<rparr>))"
    using assms(2) c q(1) by (fastforce simp: client_notify_characteristic_def split: if_splits)
  moreover have "ring_inv LIFO HOMEKIT_EVENT_QUEUE_SIZE q'" if "q_push q e = Inr (b, q')" for e b q'
    using lifo.push_ok [OF q(2), of e] that by auto
  ultimately show ?thesis using keeps_set [OF c] by auto
qed

lemma run_notify_keeps:
  "run_notify S p calls = Inr S' \<Longrightarrow> \<forall>x. client S x \<noteq> Inl Dangling \<longrightarrow> client_ready S x \<Longrightarrow> keeps_clients S S'"
proof (induction S p calls rule: run_notify.induct)
  case (2 S p f v x calls)
  then obtain T where T: "(if f = client_notify_callback then client_notify_characteristic S p v x else Inr S) = Inr T"
      "run_notify T p calls = Inr S'" by auto
  have k: "keeps_clients S T" using T(1) notify_one_keeps [OF 2(3)] by (auto split: if_splits)
  show ?case by (rule keeps_trans [OF k 2(1) [OF T keeps_ready [OF k 2(3)]]])
qed simp

lemma notify_change_keeps:
  assumes "notify_change S i p v = Inr S'" and "\<forall>x. client S x \<noteq> Inl Dangling \<longrightarrow> client_ready S x"
  shows "keeps_clients S S'"
proof (cases "v_is_null v")
  case True
  then show ?thesis using assms(1) by (simp add: notify_change_def)
next
  case False
  then obtain c T d where c: "client S i = Inr c"
      and T: "run_notify (set_client S i (c\<lparr>cl_current_characteristic := Some p, cl_current_value := Some v\<rparr>)) p
        (homekit_characteristic_notify (get_ch (sv_accessories S) p) v) = Inr T"
      and d: "client T i = Inr d" "S' = set_client T i (d\<lparr>cl_current_characteristic := None, cl_current_value := None\<rparr>)"
    using assms(1) by (auto simp: notify_change_def modify_client_def)
  have k: "keeps_clients S (set_client S i (c\<lparr>cl_current_characteristic := Some p, cl_current_value := Some v\<rparr>))"
    by (rule keeps_set [OF c]) simp
  have k2: "keeps_clients T S'" unfolding d(2) by (rule keeps_set [OF d(1)]) simp
  show ?thesis by (rule keeps_trans [OF keeps_trans [OF k run_notify_keeps [OF T keeps_ready [OF k assms(2)]]] k2])
qed

lemma callbacks_okD:
  "callbacks_ok S as \<Longrightarrow> valid_path as q \<Longrightarrow> distinct (c_callbacks (get_ch as q))"
  "callbacks_ok S as \<Longrightarrow> valid_path as q \<Longrightarrow> (client_notify_callback, x) \<in> set (c_callbacks (get_ch as q)) \<Longrightarrow>
    client S x \<noteq> Inl Dangling"
  unfolding callbacks_ok_def subscribed_def by blast+

lemma callbacks_ok_set:
  assumes "callbacks_ok S as" and "valid_path as p" and "distinct (c_callbacks ch)"
    and "\<And>x. (client_notify_callback, x) \<in> set (c_callbacks ch) \<Longrightarrow> client S x \<noteq> Inl Dangling"
  shows "callbacks_ok S (set_ch as p ch)"
  unfolding callbacks_ok_def
proof (intro allI impI)
  fix q assume q: "valid_path (set_ch as p ch) q"
  then have "get_ch (set_ch as p ch) q = (if q = p then ch else get_ch as q)"
    using get_set_other [of p q as ch] get_set_ch [OF assms(2)] by auto
  then show "distinct (c_callbacks (get_ch (set_ch as p ch) q)) \<and>
      (\<forall>x. subscribed (set_ch as p ch) q x \<longrightarrow> client S x \<noteq> Inl Dangling)"
    using assms(3,4) callbacks_okD [OF assms(1)] q by (cases "q = p") (simp_all add: subscribed_def)
qed

lemma update_events_ok:
  assumes "callbacks_ok S (sv_accessories S)" and "valid_path (sv_accessories S) p" and "client S i \<noteq> Inl Dangling"
  shows "callbacks_ok S (sv_accessories (snd (update_events S i p j)))"
proof -
  let ?cs = "c_callbacks (get_ch (sv_accessories S) p)"
  have "callbacks_ok S (set_ch (sv_accessories S) p ((get_ch (sv_accessories S) p)\<lparr>c_callbacks := cs\<rparr>))"
    if "cs = add_callback ?cs (client_notify_callback, i) \<or> cs = remove_callback ?cs (client_notify_callback, i)" for cs
    by (rule callbacks_ok_set [OF assms(1,2)])
       (use that callbacks_okD [OF assms(1,2)] assms(3) in
         \<open>auto simp: add_callback_eq remove_callback_eq split: if_splits\<close>)
  then show ?thesis
    using assms(1) by (auto simp: update_events_def Let_def homekit_characteristic_add_notify_callback_def
        homekit_characteristic_remove_notify_callback_def split: option.split)
qed

lemma update_events_clients [simp]: "client (snd (update_events S i p j)) = client S"
  by (auto simp: update_events_def Let_def fun_eq_iff split: option.split)

lemma update_events_ready [simp]: "client_ready (snd (update_events S i p j)) = client_ready S"
  by (simp add: client_ready_def fun_eq_iff)

lemma update_events_keeps:
  assumes "notify_ok S" and "valid_path (sv_accessories S) p" and "client S i \<noteq> Inl Dangling"
  shows "notify_ok (snd (update_events S i p j))"
  using assms update_events_ok [OF _ assms(2,3)] unfolding notify_ok_iff
  by (simp add: callbacks_ok_def)

text \<open>The setters of an application that leave the callbacks alone.\<close>

definition callbacks_as :: "homekit_accessory list \<Rightarrow> homekit_accessory list \<Rightarrow> bool" where
  "callbacks_as as bs \<longleftrightarrow> (\<forall>q. valid_path bs q = valid_path as q \<and>
     (valid_path as q \<longrightarrow> c_callbacks (get_ch bs q) = c_callbacks (get_ch as q)))"

definition calm :: "app \<Rightarrow> bool" where
  "calm G \<longleftrightarrow> (\<forall>n v as. callbacks_as as (ap_setter G n v as)) \<and> (\<forall>n p v as. callbacks_as as (ap_setter_ex G n p v as))"

lemma callbacks_asD:
  assumes "callbacks_as as bs"
  shows "valid_path bs q = valid_path as q" and "valid_path as q \<Longrightarrow> c_callbacks (get_ch bs q) = c_callbacks (get_ch as q)"
  using assms unfolding callbacks_as_def by blast+

lemma callbacks_as_ok: "callbacks_as as bs \<Longrightarrow> callbacks_ok S as \<Longrightarrow> callbacks_ok S bs"
  unfolding callbacks_ok_def subscribed_def using callbacks_asD by metis

lemma callbacks_as_set:
  assumes "valid_path as p"
  shows "callbacks_as as (set_ch as p ((get_ch as p)\<lparr>c_value := w\<rparr>))"
  unfolding callbacks_as_def
proof (intro allI conjI impI)
  fix q
  show "valid_path (set_ch as p ((get_ch as p)\<lparr>c_value := w\<rparr>)) q = valid_path as q" by simp
  assume q: "valid_path as q"
  show "c_callbacks (get_ch (set_ch as p ((get_ch as p)\<lparr>c_value := w\<rparr>)) q) = c_callbacks (get_ch as q)"
    using get_set_other [OF _ q, of p] get_set_ch [OF assms] by (cases "q = p") auto
qed

lemma run_setter_calm: "calm G \<Longrightarrow> run_setter G as p f v = Inr bs \<Longrightarrow> callbacks_as as bs"
  unfolding run_setter_def calm_def by (auto simp del: split_paired_All split: setter_ex.splits option.splits)

lemma store_value_calm: "calm G \<Longrightarrow> valid_path as p \<Longrightarrow> store_value G as p v = Inr bs \<Longrightarrow> callbacks_as as bs"
  by (auto simp: store_value_def Let_def run_setter_calm callbacks_as_set split: option.splits if_splits)

lemma process_keeps:
  assumes "process_characteristics_update G S i j = Inr (status, S')" and "calm G"
    and "notify_ok S" and "client S i \<noteq> Inl Dangling"
  shows "notify_ok S' \<and> client S' i \<noteq> Inl Dangling"
proof (cases "addressed G (sv_accessories S) j")
  case None
  then show ?thesis using assms by (simp add: process_characteristics_update_def)
next
  case (Some p)
  have valid: "valid_path (sv_accessories S) p" by (rule addressed_valid [OF Some])
  show ?thesis
  proof (cases "cJSON_GetObjectItem j ''value''")
    case None
    then have "S' = snd (update_events S i p j)"
      using assms(1) Some by (simp add: process_characteristics_update_def)
    then show ?thesis using update_events_keeps [OF assms(3) valid assms(4)] assms(4) by simp
  next
    case jv: (Some jv)
    obtain r where r: "checked_value G (get_ch (sv_accessories S) p) jv = Inr r"
      using assms(1) by (auto simp: process_value [OF Some jv])
    show ?thesis
    proof (cases r)
      case (Inl e)
      then show ?thesis using assms by (simp add: process_value [OF Some jv] r)
    next
      case (Inr v)
      obtain bs T where bs: "store_value G (sv_accessories S) p v = Inr bs"
          and T: "notify_change (S\<lparr>sv_accessories := bs\<rparr>) i p v = Inr T" and S': "S' = snd (update_events T i p j)"
        using assms(1) by (auto simp: process_value [OF Some jv] r Inr)
      have ready: "\<forall>x. client S x \<noteq> Inl Dangling \<longrightarrow> client_ready S x" and cb: "callbacks_ok S (sv_accessories S)"
        using assms(3) by (simp_all add: notify_ok_iff)
      have k: "keeps_clients S T"
        using notify_change_keeps [OF T] ready by (simp add: keeps_clients_def)
      note u = store_value_calm [OF assms(2) valid bs]
      have t: "sv_accessories T = bs" using notify_change_tree [OF T] by simp
      have "notify_ok T"
        using keeps_ready [OF k ready] callbacks_as_ok [OF u cb] keeps_callbacks [OF k]
        by (simp add: notify_ok_iff t)
      moreover have "client T i \<noteq> Inl Dangling" using k assms(4) by (simp add: keeps_clients_def)
      moreover have "valid_path (sv_accessories T) p" using callbacks_asD(1) [OF u] valid t by simp
      ultimately show ?thesis using update_events_keeps [of T p i j] by (simp add: S')
    qed
  qed
qed

lemma update_all_keeps:
  "update_all G S i js = Inr (statuses, S') \<Longrightarrow> calm G \<Longrightarrow> notify_ok S \<Longrightarrow> client S i \<noteq> Inl Dangling \<Longrightarrow> notify_ok S'"
proof (induction js arbitrary: S statuses)
  case (Cons j js)
  obtain st T sts where T: "process_characteristics_update G S i j = Inr (st, T)" "update_all G T i js = Inr (sts, S')"
    using Cons.prems(1) by auto
  show ?case using process_keeps [OF T(1) Cons.prems(2-4)] Cons.IH [OF T(2)] Cons.prems(2) by blast
qed simp

lemma get_cleared:
  "valid_path as q \<Longrightarrow> get_ch (homekit_accessories_clear_notify_callbacks as f x) q =
    homekit_characteristic_remove_notify_callback (get_ch as q) f x"
  by (auto simp: get_ch_def valid_path_def homekit_accessories_clear_notify_callbacks_def)

lemma valid_cleared [simp]: "valid_path (homekit_accessories_clear_notify_callbacks as f x) q = valid_path as q"
  by (auto simp: valid_path_def homekit_accessories_clear_notify_callbacks_def split: prod.splits)

lemma close_tree:
  "homekit_server_close_client S i = Inr S' \<Longrightarrow>
    sv_accessories S' = homekit_accessories_clear_notify_callbacks (sv_accessories S) client_notify_callback i"
  by (auto simp: homekit_server_close_client_def Let_def pairing_context_free_def split: option.splits if_splits)

lemma map_of_filter_key: "map_of (filter (\<lambda>(j, d). j \<noteq> i) xs) x = (if x = i then None else map_of xs x)"
  by (induction xs) auto

lemma close_other: "homekit_server_close_client S i = Inr S' \<Longrightarrow> x \<noteq> i \<Longrightarrow> client S' x = client S x"
  by (drule close_clients) (auto simp: client_def map_of_filter_key)

lemma notify_ok_close:
  assumes "notify_ok S" and "homekit_server_close_client S i = Inr S'"
  shows "notify_ok S'"
proof -
  note close = closed_dangling [OF assms(2)] close_other [OF assms(2)] close_tree [OF assms(2)]
  have ready: "client_ready S' x" if "client S' x \<noteq> Inl Dangling" for x
    using that close(1) close(2) [of x] assms(1) by (cases "x = i") (auto simp: notify_ok_iff client_ready_def)
  have "callbacks_ok S (sv_accessories S)" using assms(1) by (simp add: notify_ok_iff)
  note cb = callbacks_okD [OF this]
  have "callbacks_ok S' (sv_accessories S')"
    unfolding callbacks_ok_def close(3)
  proof (intro allI impI conjI)
    fix q x assume "valid_path (homekit_accessories_clear_notify_callbacks (sv_accessories S) client_notify_callback i) q"
    then have q: "valid_path (sv_accessories S) q" by simp
    show "distinct (c_callbacks (get_ch (homekit_accessories_clear_notify_callbacks (sv_accessories S) client_notify_callback i) q))"
      using cb(1) [OF q] by (simp add: get_cleared [OF q] homekit_characteristic_remove_notify_callback_def remove_callback_eq)
    assume "subscribed (homekit_accessories_clear_notify_callbacks (sv_accessories S) client_notify_callback i) q x"
    then show "client S' x \<noteq> Inl Dangling"
      using cb(2) [OF q, of x] close(2) [of x]
      by (auto simp: subscribed_def get_cleared [OF q] homekit_characteristic_remove_notify_callback_def remove_callback_eq)
  qed
  then show ?thesis using ready by (simp add: notify_ok_iff)
qed

lemma notify_ok_set:
  assumes "notify_ok S" and "client S i = Inr c" and "cl_event_queue d = cl_event_queue c \<or>
    (\<exists>q. cl_event_queue d = Some q \<and> ring_inv LIFO HOMEKIT_EVENT_QUEUE_SIZE q)"
  shows "notify_ok (set_client S i d)"
  using assms(1) keeps_ready [OF keeps_set [OF assms(2,3)]] keeps_callbacks [OF keeps_set [OF assms(2,3)]]
  by (simp add: notify_ok_iff)

lemma sent_to_queue: "sent_to c d \<Longrightarrow> cl_event_queue d = cl_event_queue c"
  unfolding sent_to_def by (drule arg_cong [where f = cl_event_queue]) simp

interpretation notifying: kept_by_sending notify_ok
  by unfold_locales (auto intro: notify_ok_set notify_ok_close dest: sent_to_queue)

text \<open>A client that is accepted has no event and is not subscribed; its queue needs its memory.\<close>

lemma notify_ok_accept:
  assumes "notify_ok S" and "clients_ok S" and "length mem = HOMEKIT_EVENT_QUEUE_SIZE"
  shows "notify_ok (snd (homekit_server_accept_client junk qjunk (Some mem) parser pending S))"
proof (cases "pending = None \<or> sv_nfds S \<ge> HOMEKIT_MAX_CLIENTS")
  case True
  then show ?thesis using assms(1) by (auto simp: homekit_server_accept_client_def split: option.split)
next
  case False
  then obtain s where s: "pending = Some s" by auto
  let ?c = "client_context_new junk qjunk (Some mem) parser s"
  let ?S = "snd (homekit_server_accept_client junk qjunk (Some mem) parser pending S)"
  have cs: "sv_clients ?S = (sv_next S, ?c) # sv_clients S" "sv_accessories ?S = sv_accessories S"
    using False s by (simp_all add: homekit_server_accept_client_def Let_def)
  have q: "ring_inv LIFO HOMEKIT_EVENT_QUEUE_SIZE (snd (q_init qjunk 4 HOMEKIT_EVENT_QUEUE_SIZE LIFO True (Some mem)))"
    using q_init_inv [OF surjective_pairing assms(3), where q = qjunk and sz = 4 and ty = LIFO] by (simp add: HOMEKIT_EVENT_QUEUE_SIZE_def)
  have cl: "client ?S x = (if x = sv_next S then Inr ?c else client S x)" for x
    by (simp add: client_def cs)
  have "client_ready ?S x" if "client ?S x \<noteq> Inl Dangling" for x
    using that q assms(1) by (auto simp: client_ready_def cl client_context_new_def notify_ok_iff split: if_splits)
  moreover have "callbacks_ok ?S (sv_accessories ?S)"
    using assms(1) unfolding notify_ok_iff callbacks_ok_def cs(2) cl by auto
  ultimately show ?thesis by (simp add: notify_ok_iff)
qed

section \<open>The loops end\<close>

definition ends :: "fault + 'a \<Rightarrow> bool" where
  "ends r \<longleftrightarrow> r \<noteq> Inl Hang"

named_theorems ends_intros "computations that do not hang"

lemma ends_cases [ends_intros]:
  "ends (Inr x)" "f \<noteq> Hang \<Longrightarrow> ends (Inl f)"
  "ends q \<Longrightarrow> (\<And>y. q = Inr y \<Longrightarrow> ends (g y)) \<Longrightarrow> ends (bind_res q g)"
  "(b \<Longrightarrow> ends r) \<Longrightarrow> (\<not> b \<Longrightarrow> ends s) \<Longrightarrow> ends (if b then r else s)"
  "(a = None \<Longrightarrow> ends r) \<Longrightarrow> (\<And>z. a = Some z \<Longrightarrow> ends (j z)) \<Longrightarrow> ends (case a of None \<Rightarrow> r | Some z \<Rightarrow> j z)"
  "(\<And>u v. p = (u, v) \<Longrightarrow> ends (h u v)) \<Longrightarrow> ends (case p of (u, v) \<Rightarrow> h u v)"
  "(\<And>c. c = d \<Longrightarrow> ends (k c)) \<Longrightarrow> ends (let c = d in k c)"
  by (auto simp: ends_def bind_res_def split: sum.split option.split prod.split)

lemma ends_client [ends_intros]: "ends (client S i)"
  by (simp add: client_def ends_def split: option.split)

lemma ends_close [ends_intros]: "ends (homekit_server_close_client S i)"
  unfolding homekit_server_close_client_def by (intro ends_intros)

lemma ends_write [ends_intros]: "ends (write' W S i data)"
  unfolding write'_def by (intro ends_intros)

lemma ends_loop [ends_intros]: "ends (send_encrypted_loop W S i nonce payload)"
proof (induction "length payload" arbitrary: S nonce payload rule: less_induct)
  case less
  show ?case
    by (subst send_encrypted_loop.simps, intro ends_intros, rule less) (simp split: if_splits)
qed

lemma ends_client_send [ends_intros]: "ends (client_send W S i data)"
  unfolding client_send_def client_send_encrypted'_def by (intro ends_intros)

lemma ends_client_send_P [ends_intros]: "ends (client_send_P W S i pgm)"
  unfolding client_send_P_def by (intro ends_intros)

lemma ends_chunk [ends_intros]: "ends (client_send_chunk W S i data)"
  unfolding client_send_chunk_def by (intro ends_intros) simp

lemma ends_chunks [ends_intros]: "ends (send_chunks W S i cs)"
  by (induction cs arbitrary: S) (auto intro!: ends_intros)

lemma ends_json_call [ends_intros]: "ends (json_call c j)"
  by (cases c; cases "js_state j")
     (simp_all add: ends_def json_object_start_def json_object_end_def json_array_start_def json_array_end_def
       json_scalar_def json_string_def push_nesting_def pop_nesting_def json_error_def Let_def
       split: json_nesting.split)

lemma ends_json_calls [ends_intros]: "ends (json_calls cs j)"
  by (induction cs arbitrary: j) (auto intro!: ends_intros)

lemma ends_stream [ends_intros]: "ends (stream_json W S i calls)"
  unfolding stream_json_def by (intro ends_intros)

lemma ends_collect: "(\<And>x. ends (f x)) \<Longrightarrow> ends (collect f xs)"
  by (induction xs) (auto intro!: ends_intros)

lemma ends_tlv_format [ends_intros]: "ends (tlv_format_alloc t)"
  by (simp add: ends_def tlv_format_alloc_def tlv_format_def Let_def bind_res_def)

lemma ends_value_op [ends_intros]: "ends (value_op G v)"
  by (cases "v_format v") (auto simp: value_op_def intro!: ends_intros split: option.splits)

lemma ends_read_value [ends_intros]: "ends (read_value G ch value)"
  by (auto simp: read_value_def ends_def split: option.split getter_ex.split)

lemma ends_write_json [ends_intros]: "ends (write_characteristic_json G as i p format value)"
  unfolding write_characteristic_json_def value_calls_def by (intro ends_intros)

lemma ends_events_calls [ends_intros]: "ends (events_calls G as i evs)"
  unfolding events_calls_def by (intro ends_intros ends_collect)

lemma ends_send_events [ends_intros]: "ends (send_client_events G W S i evs)"
  unfolding send_client_events_def by (intro ends_intros)

lemma ends_copy [ends_intros]: "ends (homekit_value_copy v)"
  by (cases "v_format v") (auto simp: homekit_value_copy_def Let_def ends_def split: option.split)

lemma ends_pop [ends_intros]: "ends (q_pop q)"
  by (auto simp: q_pop_def load_slot_def Let_def ends_def bind_res_def split: queue_type.split option.split)

lemma pop_count: "q_pop q = Inr (Some e, q') \<Longrightarrow> cnt q' < cnt q"
  by (auto simp: q_pop_def q_isEmpty_def Let_def split: if_splits queue_type.splits)

text \<open>A pop takes a record out of the queue, so one more than their number of iterations is enough.\<close>

lemma ends_pop_events: "cnt q < n \<Longrightarrow> ends (pop_events n q evs)"
proof (induction n arbitrary: q evs)
  case (Suc n)
  have "ends (pop_events n q' evs')" if "q_pop q = Inr (Some e, q')" for e q' evs'
    by (rule Suc.IH) (use pop_count [OF that] Suc.prems in simp)
  then show ?case by (auto intro!: ends_intros split: option.split)
qed simp

lemma ends_client_notifications: "ends (process_client_notifications G W S i)"
  unfolding process_client_notifications_def by (intro ends_intros ends_pop_events) simp

text \<open>The clients behind a client in the list; sending only takes clients out.\<close>

definition behind :: "nat list \<Rightarrow> nat \<Rightarrow> nat list" where
  "behind ids i = tl (dropWhile (\<lambda>j. j \<noteq> i) ids)"

definition ids_within :: "nat list \<Rightarrow> ('w, 's, 'p, 'srp) homekit_server_t \<Rightarrow> bool" where
  "ids_within ids S \<longleftrightarrow> (\<exists>Q. map fst (sv_clients S) = filter Q ids)"

interpretation ids: kept_by_sending "ids_within ids" for ids
proof unfold_locales
  fix S S' :: "('w, 's, 'p, 'srp) homekit_server_t" and i
  assume "ids_within ids S" and "homekit_server_close_client S i = Inr S'"
  moreover have "map fst (filter (\<lambda>(j, d). j \<noteq> i) xs) = filter (\<lambda>j. j \<noteq> i) (map fst xs)" for xs :: "(nat \<times> ('s, 'p) client_context_t) list"
    by (induction xs) auto
  ultimately show "ids_within ids S'"
    using close_clients [of S i S'] by (auto simp: ids_within_def)
qed (simp add: ids_within_def)

lemma dropWhile_filter: "Q i \<Longrightarrow> dropWhile (\<lambda>j. j \<noteq> i) (filter Q ids) = filter Q (dropWhile (\<lambda>j. j \<noteq> i) ids)"
  by (induction ids) auto

lemma behind_filter: "i \<in> set (filter Q ids) \<Longrightarrow> behind (filter Q ids) i = filter Q (behind ids i)"
  by (induction ids) (auto simp: behind_def split: if_splits)

lemma behind_next: "distinct ids \<Longrightarrow> behind ids i = k # ks \<Longrightarrow> k \<in> set ids \<and> behind ids k = ks"
proof (induction ids)
  case (Cons j ids)
  show ?case
  proof (cases "j = i")
    case True
    then show ?thesis using Cons.prems by (auto simp: behind_def)
  next
    case False
    then have "behind ids i = k # ks" using Cons.prems(2) by (simp add: behind_def)
    then show ?thesis using Cons False by (auto simp: behind_def)
  qed
qed (simp add: behind_def)

lemma next_behind: "next_client cs i = (if i \<in> set (map fst cs) then
    Inr (case behind (map fst cs) i of [] \<Rightarrow> None | k # _ \<Rightarrow> Some k) else Inl Dangling)"
  by (induction cs i rule: next_client.induct) (auto simp: behind_def split: list.split)

lemma ends_next [ends_intros]: "ends (next_client cs i)"
  by (simp add: next_behind ends_def)

lemma ends_client_loop:
  assumes ends: "\<And>S i. ends (f S i)"
    and within: "\<And>S i S'. f S i = Inr S' \<Longrightarrow> ids_within (map fst (sv_clients S)) S'"
  shows "distinct (map fst (sv_clients S)) \<Longrightarrow> length (behind (map fst (sv_clients S)) i) < n \<Longrightarrow>
    ends (client_loop f n S (Some i))"
proof (induction n arbitrary: S i)
  case (Suc n)
  have "ends (client_loop f n S' x)" if S': "f S i = Inr S'" and x: "next_client (sv_clients S') i = Inr x" for S' x
  proof (cases x)
    case None
    then show ?thesis by (cases n) (simp_all add: ends_def)
  next
    case (Some k)
    obtain Q where Q: "map fst (sv_clients S') = filter Q (map fst (sv_clients S))"
      using within [OF S'] by (auto simp: ids_within_def)
    obtain ks where k: "i \<in> set (map fst (sv_clients S'))" "behind (map fst (sv_clients S')) i = k # ks"
      using x Some by (auto simp: next_behind split: if_splits list.splits)
    have d: "distinct (map fst (sv_clients S'))" unfolding Q using Suc.prems(1) by simp
    have "length (k # ks) \<le> length (behind (map fst (sv_clients S)) i)"
      using k behind_filter [of i Q "map fst (sv_clients S)"] unfolding Q by (metis length_filter_le)
    then show ?thesis
      using Suc.IH [OF d, of k] behind_next [OF d k(2)] Suc.prems(2) Some by simp
  qed
  then show ?case by (auto intro!: ends_intros ends)
qed simp

lemma send_events_within:
  assumes "send_client_events G W S i evs = Inr S'" and "ids_within ids S"
  shows "ids_within ids S'"
proof -
  obtain T U calls j where "client_send_P W S i event_headers = Inr T"
      and "send_chunks W T i (js_flushed (json_flush j)) = Inr U" and "client_send_chunk W U i [] = Inr S'"
    using assms(1) unfolding send_client_events_def stream_json_def by blast
  then show ?thesis
    using assms(2) ids.kept_client_send_P ids.kept_chunks ids.kept_chunk by blast
qed

lemma client_notifications_within:
  assumes "process_client_notifications G W S i = Inr S'"
  shows "ids_within (map fst (sv_clients S)) S'"
proof -
  have w: "ids_within (map fst (sv_clients S)) (set_client S i c)" for c
    unfolding ids_within_def by (rule exI [of _ "\<lambda>_. True"]) simp
  have v: "ids_within (map fst (sv_clients S)) S"
    unfolding ids_within_def by (rule exI [of _ "\<lambda>_. True"]) simp
  have "S' = S \<or> (\<exists>c. S' = set_client S i c) \<or> (\<exists>c evs. send_client_events G W (set_client S i c) i evs = Inr S')"
    using assms unfolding process_client_notifications_def Let_def
    by (fastforce split: if_splits option.splits)
  then show ?thesis using v w send_events_within by blast
qed

section \<open>Which value of a characteristic is sent\<close>

definition event_of :: "ch_path \<Rightarrow> characteristic_event_t list \<Rightarrow> characteristic_event_t option" where
  "event_of p evs = find (\<lambda>e. ev_characteristic e = p) evs"

text \<open>\<open>d\<close> is the event \<open>e\<close> with a copy of its value.\<close>

definition event_copy :: "characteristic_event_t \<Rightarrow> characteristic_event_t \<Rightarrow> bool" where
  "event_copy d e \<longleftrightarrow> ev_characteristic d = ev_characteristic e \<and> homekit_value_copy (ev_value e) = Inr (ev_value d)"

lemma event_of_coalesce: "event_of p (coalesce evs e) = (if ev_characteristic e = p then Some e else event_of p evs)"
  by (induction evs) (auto simp: event_of_def)

lemma chs_coalesce:
  "map ev_characteristic (coalesce evs e) =
    (if ev_characteristic e \<in> set (map ev_characteristic evs) then map ev_characteristic evs
     else map ev_characteristic evs @ [ev_characteristic e])"
  by (induction evs) auto

lemma event_of_append: "event_of p (xs @ ys) = (case event_of p xs of None \<Rightarrow> event_of p ys | Some e \<Rightarrow> Some e)"
  by (induction xs) (auto simp: event_of_def)

lemma pop_events_all:
  assumes "ring_inv LIFO n q" and "list_all (\<lambda>e. value_ok (ev_value e)) (q_items q)"
    and "distinct (map ev_characteristic evs)"
  shows "\<exists>evs' q'. pop_events (Suc (length (q_items q))) q evs = Inr (evs', q') \<and> ring_inv LIFO n q' \<and> q_items q' = [] \<and>
    distinct (map ev_characteristic evs') \<and> (q_items q \<noteq> [] \<longrightarrow> evs' \<noteq> []) \<and>
    (\<forall>p. case event_of p (rev (q_items q)) of
       None \<Rightarrow> event_of p evs' = event_of p evs
     | Some e \<Rightarrow> \<exists>d. event_of p evs' = Some d \<and> event_copy d e)"
  using assms
proof (induction "q_items q" arbitrary: q evs)
  case Nil
  then show ?case using lifo.pop_empty [OF Nil.prems(1)] by (simp add: event_of_def)
next
  case (Cons e es)
  obtain q' where q': "q_pop q = Inr (Some e, q')" "ring_inv LIFO n q'" "q_items q' = es"
    using lifo.pop_first [OF Cons.prems(1) Cons.hyps(2) [symmetric]] by blast
  obtain w where w: "homekit_value_copy (ev_value e) = Inr w"
    using Cons.prems(2) value_copy_total by (fastforce simp: Cons.hyps(2) [symmetric])
  let ?e = "e\<lparr>ev_value := w\<rparr>"
  have d: "distinct (map ev_characteristic (coalesce evs ?e))" using Cons.prems(3) by (simp add: chs_coalesce)
  obtain evs' q'' where r: "pop_events (Suc (length es)) q' (coalesce evs ?e) = Inr (evs', q'')" "ring_inv LIFO n q''"
      "q_items q'' = []" "distinct (map ev_characteristic evs')"
      "\<forall>p. case event_of p (rev es) of None \<Rightarrow> event_of p evs' = event_of p (coalesce evs ?e)
        | Some e \<Rightarrow> \<exists>d. event_of p evs' = Some d \<and> event_copy d e"
    using Cons.hyps(1) [of q' "coalesce evs ?e"] q'(2,3) d Cons.prems(2) by (auto simp: Cons.hyps(2) [symmetric])
  have oldest: "case event_of p (rev (e # es)) of None \<Rightarrow> event_of p evs' = event_of p evs
      | Some e \<Rightarrow> \<exists>d. event_of p evs' = Some d \<and> event_copy d e" for p
  proof (cases "event_of p (rev es)")
    case None
    then have "event_of p evs' = event_of p (coalesce evs ?e)" using r(5) [rule_format, of p] by simp
    then show ?thesis
      using None w by (simp add: event_of_append event_of_coalesce) (simp add: event_of_def event_copy_def)
  next
    case (Some f)
    then show ?thesis using r(5) [rule_format, of p] by (simp add: event_of_append)
  qed
  have "evs' \<noteq> []"
  proof -
    have "event_of (ev_characteristic e) (rev (e # es)) \<noteq> None"
      by (simp add: event_of_append split: option.split) (simp add: event_of_def)
    then show ?thesis using oldest [of "ev_characteristic e"] by (auto simp: event_of_def)
  qed
  then show ?case
    using r(1-4) q'(1) w oldest by (simp add: Cons.hyps(2) [symmetric] del: rev.simps)
qed

section \<open>Properties\<close>



text \<open>
  A verified client is sent one event for each characteristic of which it has events waiting, and its queue
  is empty afterwards.  The queue gives the events newest first and a later one replaces the value, so what is
  sent is a copy of the oldest value that waits, not the current one.
\<close>

theorem events_keep_oldest:
  assumes "client S i = Inr c" and "cl_step c = HOMEKIT_CLIENT_STEP_PAIR_VERIFY_2OF2" and "cl_event_queue c = Some q"
    and "ring_inv LIFO HOMEKIT_EVENT_QUEUE_SIZE q" and "list_all (\<lambda>e. value_ok (ev_value e)) (q_items q)"
    and "q_items q \<noteq> []"
  shows "\<exists>evs q'. process_client_notifications G W S i =
      send_client_events G W (set_client S i (c\<lparr>cl_event_queue := Some q'\<rparr>)) i evs \<and>
    q_items q' = [] \<and> distinct (map ev_characteristic evs) \<and>
    (\<forall>p. rel_option event_copy (event_of p evs) (event_of p (rev (q_items q))))"
proof -
  obtain evs q' where r: "pop_events (Suc (length (q_items q))) q [] = Inr (evs, q')" "q_items q' = []"
      "distinct (map ev_characteristic evs)" "evs \<noteq> []"
      "\<forall>p. case event_of p (rev (q_items q)) of None \<Rightarrow> event_of p evs = event_of p []
        | Some e \<Rightarrow> \<exists>d. event_of p evs = Some d \<and> event_copy d e"
    using pop_events_all [OF assms(4,5), of "[]"] assms(6) by auto
  have "length (q_items q) = cnt q" using assms(4) length_q_items [of q] by (simp add: ring_inv_def)
  then have "process_client_notifications G W S i =
      send_client_events G W (set_client S i (c\<lparr>cl_event_queue := Some q'\<rparr>)) i evs"
    using r(1,4) by (simp add: process_client_notifications_def assms(1-3))
  moreover have "rel_option event_copy (event_of p evs) (event_of p (rev (q_items q)))" for p
    using r(5) [rule_format, of p] by (auto simp: event_of_def split: option.splits)
  ultimately show ?thesis using r(2,3) by blast
qed

text \<open>A queue for the witnesses: two events of one characteristic.\<close>

definition ev :: "bool \<Rightarrow> characteristic_event_t" where
  "ev b = \<lparr>ev_characteristic = (0, 0, 0), ev_value = HOMEKIT_BOOL b\<rparr>"

definition empty_events :: "characteristic_event_t queue_t" where
  "empty_events = snd (q_init \<lparr>impl = FIFO, ovw = False, rec_nb = 0, rec_sz = 0, queue_sz = 0, queue = None, q_in = 0, q_out = 0,
     cnt = 0, init_mark = 0\<rparr> 4 HOMEKIT_EVENT_QUEUE_SIZE LIFO True (Some (replicate 4 (ev False))))"

lemma empty_events: "ring_inv LIFO HOMEKIT_EVENT_QUEUE_SIZE empty_events" "q_items empty_events = []"
  using q_init_inv [OF surjective_pairing, of "replicate 4 (ev False)" HOMEKIT_EVENT_QUEUE_SIZE]
  by (simp_all add: empty_events_def HOMEKIT_EVENT_QUEUE_SIZE_def)

lemma two_events: "\<exists>q. ring_inv LIFO HOMEKIT_EVENT_QUEUE_SIZE q \<and> q_items q = [ev False, ev True]"
  using lifo.push_all_items [OF empty_events(1), of "[ev True, ev False]"] empty_events(2)
  by (auto simp: lifo_ins_def HOMEKIT_EVENT_QUEUE_SIZE_def)

lemma value_ok_bool [simp]: "value_ok (HOMEKIT_BOOL b)"
  by (simp add: value_ok_def HOMEKIT_BOOL_def zero_value_def)

lemma events_keep_oldest_witness:
  "\<exists>c evs q' e. process_client_notifications sample_app idle_platform
      (set_client (tree_server (sample_server ()) :: (_, _, _, unit) homekit_server_t) 0 c) 0 =
      send_client_events sample_app idle_platform
        (set_client (tree_server (sample_server ()) :: (_, _, _, unit) homekit_server_t) 0 (c\<lparr>cl_event_queue := Some q'\<rparr>)) 0 evs \<and>
    q_items q' = [] \<and> distinct (map ev_characteristic evs) \<and> event_of (0, 0, 0) evs = Some e \<and> event_copy e (ev True)"
proof -
  obtain q where q: "ring_inv LIFO HOMEKIT_EVENT_QUEUE_SIZE q" "q_items q = [ev False, ev True]" using two_events by blast
  let ?c = "sample_client\<lparr>cl_event_queue := Some q, cl_step := HOMEKIT_CLIENT_STEP_PAIR_VERIFY_2OF2\<rparr>"
  let ?S = "set_client (tree_server (sample_server ()) :: (_, _, _, unit) homekit_server_t) 0 ?c"
  have c: "client ?S 0 = Inr ?c" by (rule client_set_same [OF tree_secure(2)])
  have "cl_event_queue ?c = Some q" "cl_step ?c = HOMEKIT_CLIENT_STEP_PAIR_VERIFY_2OF2" by simp_all
  moreover have "list_all (\<lambda>e. value_ok (ev_value e)) (q_items q)" "q_items q \<noteq> []" by (simp_all add: q(2) ev_def)
  ultimately obtain evs q' where r: "process_client_notifications sample_app idle_platform ?S 0 =
      send_client_events sample_app idle_platform (set_client ?S 0 (?c\<lparr>cl_event_queue := Some q'\<rparr>)) 0 evs"
    "q_items q' = []" "distinct (map ev_characteristic evs)"
    "\<forall>p. rel_option event_copy (event_of p evs) (event_of p (rev (q_items q)))"
    using events_keep_oldest [OF c _ _ q(1)] by blast
  have "event_of (0, 0, 0) (rev (q_items q)) = Some (ev True)" by (simp add: q(2) event_of_def ev_def)
  then obtain e where "event_of (0, 0, 0) evs = Some e" "event_copy e (ev True)"
    using r(4) [rule_format, of "(0, 0, 0)"] by (auto simp: option_rel_Some2)
  then show ?thesis
    using r(1-3) unfolding set_client_twice by blast
qed

text \<open>
  C25: When a client has changed the value of a characteristic, every other client that subscribed to it has the
  characteristic with a copy of the new value as its newest event (of the four that its queue keeps), and
  nothing is queued for the client itself or for a client that did not subscribe.
\<close>

theorem change_notifies_subscribers:
  assumes "notify_ok S" and "valid_path (sv_accessories S) p" and "value_ok v" and "client S i = Inr c"
    and "\<forall>x d. x \<noteq> i \<and> client S x = Inr d \<longrightarrow> cl_current_characteristic d \<noteq> Some p"
  shows "\<exists>S' w. notify_change S i p v = Inr S' \<and> homekit_value_equal v w = Inr True \<and>
    sv_accessories S' = sv_accessories S \<and> notify_ok S' \<and>
    (\<forall>x. events S' x = (if x \<noteq> i \<and> subscribed (sv_accessories S) p x
      then take HOMEKIT_EVENT_QUEUE_SIZE (\<lparr>ev_characteristic = p, ev_value = w\<rparr> # events S x) else events S x))"
proof -
  obtain S' w where r: "notify_change S i p v = Inr S'" "homekit_value_equal v w = Inr True"
      "sv_accessories S' = sv_accessories S"
      "\<forall>x. events S' x = (if x \<noteq> i \<and> subscribed (sv_accessories S) p x
        then take HOMEKIT_EVENT_QUEUE_SIZE (\<lparr>ev_characteristic = p, ev_value = w\<rparr> # events S x) else events S x)"
      "keeps_clients S S'"
    using notify_change_pushes [OF assms(1-4)] assms(5) unfolding keeps_clients_def by blast
  have "notify_ok S'"
    using assms(1) keeps_ready [OF r(5)] keeps_callbacks [OF r(5)] by (simp add: notify_ok_iff r(3))
  then show ?thesis using r by blast
qed

text \<open>Two clients that both subscribed.\<close>

definition pair_server :: "('w, byte list, unit, 'srp) homekit_server_t \<Rightarrow> ('w, byte list, unit, 'srp) homekit_server_t" where
  "pair_server S = S\<lparr>sv_accessories := set_ch sample_tree (0, 0, 0) (readable_ch\<lparr>c_callbacks :=
       [(client_notify_callback, 0), (client_notify_callback, 1)]\<rparr>),
     sv_clients := [(0, sample_client\<lparr>cl_event_queue := Some empty_events\<rparr>), (1, sample_client\<lparr>cl_event_queue := Some empty_events\<rparr>)]\<rparr>"

lemma pair_server_ok:
  "notify_ok (pair_server S)" "client (pair_server S) 0 = Inr (sample_client\<lparr>cl_event_queue := Some empty_events\<rparr>)"
  "valid_path (sv_accessories (pair_server S)) (0, 0, 0)" "events (pair_server S) 1 = []"
  "subscribed (sv_accessories (pair_server S)) (0, 0, 0) 1"
  using empty_events
  by (auto simp: pair_server_def notify_ok_def client_def client_ready_def number_tree_path subscribed_def events_def
      split: option.splits if_splits)

lemma change_notifies_subscribers_witness:
  "\<exists>S' w. notify_change (pair_server (sample_server ()) :: (_, _, _, unit) homekit_server_t) 0 (0, 0, 0) (HOMEKIT_BOOL False) = Inr S' \<and>
    homekit_value_equal (HOMEKIT_BOOL False) w = Inr True \<and>
    events S' 1 = [\<lparr>ev_characteristic = (0, 0, 0), ev_value = w\<rparr>]"
proof -
  let ?S = "pair_server (sample_server ()) :: (_, _, _, unit) homekit_server_t"
  have "\<forall>x d. x \<noteq> 0 \<and> client ?S x = Inr d \<longrightarrow> cl_current_characteristic d \<noteq> Some (0, 0, 0)"
    by (auto simp: pair_server_def client_def sample_client_def split: option.splits if_splits)
  from change_notifies_subscribers [OF pair_server_ok(1,3) value_ok_bool pair_server_ok(2) this]
  obtain S' w where r: "notify_change ?S 0 (0, 0, 0) (HOMEKIT_BOOL False) = Inr S'"
      "homekit_value_equal (HOMEKIT_BOOL False) w = Inr True"
      "\<forall>x. events S' x = (if x \<noteq> 0 \<and> subscribed (sv_accessories ?S) (0, 0, 0) x
        then take HOMEKIT_EVENT_QUEUE_SIZE (\<lparr>ev_characteristic = (0, 0, 0), ev_value = w\<rparr> # events ?S x) else events ?S x)"
    by blast
  then show ?thesis
    using pair_server_ok(4,5) [of "sample_server () :: (_, _, _, unit) homekit_server_t"]
    by (intro exI [of _ S'] exI [of _ w]) (simp add: HOMEKIT_EVENT_QUEUE_SIZE_def)
qed

end
