(* ===== verification/Http_Parser.thy ===== *)
theory Http_Parser
  imports HK_Prelude
begin

text \<open>
  The HTTP parser, \<open>src/http_parser.c\<close> and \<open>src/http_parser.h\<close>, compiled strict: the types, the character
  classes, one definition per state of the machine in \<open>http_parser_execute\<close>, and its loop.  A pointer into the
  buffer is the list of the bytes from there to the end of the buffer, so that the distance of two pointers is the
  difference of the lengths; the local \<open>p_state\<close> and the field \<open>state\<close> are one field.
\<close>

section \<open>Types\<close>

datatype (plugins only: size) http_method =
    HTTP_PARSER_METHOD_DELETE | HTTP_PARSER_METHOD_GET | HTTP_PARSER_METHOD_HEAD | HTTP_PARSER_METHOD_POST
  | HTTP_PARSER_METHOD_PUT | HTTP_PARSER_METHOD_CONNECT | HTTP_PARSER_METHOD_OPTIONS | HTTP_PARSER_METHOD_TRACE
  | HTTP_PARSER_METHOD_COPY | HTTP_PARSER_METHOD_LOCK | HTTP_PARSER_METHOD_MKCOL | HTTP_PARSER_METHOD_MOVE
  | HTTP_PARSER_METHOD_PROPFIND | HTTP_PARSER_METHOD_PROPPATCH | HTTP_PARSER_METHOD_SEARCH | HTTP_PARSER_METHOD_UNLOCK
  | HTTP_PARSER_METHOD_BIND | HTTP_PARSER_METHOD_REBIND | HTTP_PARSER_METHOD_UNBIND | HTTP_PARSER_METHOD_ACL
  | HTTP_PARSER_METHOD_REPORT | HTTP_PARSER_METHOD_MKACTIVITY | HTTP_PARSER_METHOD_CHECKOUT | HTTP_PARSER_METHOD_MERGE
  | HTTP_PARSER_METHOD_MSEARCH | HTTP_PARSER_METHOD_NOTIFY | HTTP_PARSER_METHOD_SUBSCRIBE | HTTP_PARSER_METHOD_UNSUBSCRIBE
  | HTTP_PARSER_METHOD_PATCH | HTTP_PARSER_METHOD_PURGE | HTTP_PARSER_METHOD_MKCALENDAR | HTTP_PARSER_METHOD_LINK
  | HTTP_PARSER_METHOD_UNLINK

definition method_strings :: "http_method \<Rightarrow> string" where
  "method_strings m =
     (case m of
        HTTP_PARSER_METHOD_DELETE \<Rightarrow> ''DELETE'' | HTTP_PARSER_METHOD_GET \<Rightarrow> ''GET''
      | HTTP_PARSER_METHOD_HEAD \<Rightarrow> ''HEAD'' | HTTP_PARSER_METHOD_POST \<Rightarrow> ''POST''
      | HTTP_PARSER_METHOD_PUT \<Rightarrow> ''PUT'' | HTTP_PARSER_METHOD_CONNECT \<Rightarrow> ''CONNECT''
      | HTTP_PARSER_METHOD_OPTIONS \<Rightarrow> ''OPTIONS'' | HTTP_PARSER_METHOD_TRACE \<Rightarrow> ''TRACE''
      | HTTP_PARSER_METHOD_COPY \<Rightarrow> ''COPY'' | HTTP_PARSER_METHOD_LOCK \<Rightarrow> ''LOCK''
      | HTTP_PARSER_METHOD_MKCOL \<Rightarrow> ''MKCOL'' | HTTP_PARSER_METHOD_MOVE \<Rightarrow> ''MOVE''
      | HTTP_PARSER_METHOD_PROPFIND \<Rightarrow> ''PROPFIND'' | HTTP_PARSER_METHOD_PROPPATCH \<Rightarrow> ''PROPPATCH''
      | HTTP_PARSER_METHOD_SEARCH \<Rightarrow> ''SEARCH'' | HTTP_PARSER_METHOD_UNLOCK \<Rightarrow> ''UNLOCK''
      | HTTP_PARSER_METHOD_BIND \<Rightarrow> ''BIND'' | HTTP_PARSER_METHOD_REBIND \<Rightarrow> ''REBIND''
      | HTTP_PARSER_METHOD_UNBIND \<Rightarrow> ''UNBIND'' | HTTP_PARSER_METHOD_ACL \<Rightarrow> ''ACL''
      | HTTP_PARSER_METHOD_REPORT \<Rightarrow> ''REPORT'' | HTTP_PARSER_METHOD_MKACTIVITY \<Rightarrow> ''MKACTIVITY''
      | HTTP_PARSER_METHOD_CHECKOUT \<Rightarrow> ''CHECKOUT'' | HTTP_PARSER_METHOD_MERGE \<Rightarrow> ''MERGE''
      | HTTP_PARSER_METHOD_MSEARCH \<Rightarrow> ''M-SEARCH'' | HTTP_PARSER_METHOD_NOTIFY \<Rightarrow> ''NOTIFY''
      | HTTP_PARSER_METHOD_SUBSCRIBE \<Rightarrow> ''SUBSCRIBE'' | HTTP_PARSER_METHOD_UNSUBSCRIBE \<Rightarrow> ''UNSUBSCRIBE''
      | HTTP_PARSER_METHOD_PATCH \<Rightarrow> ''PATCH'' | HTTP_PARSER_METHOD_PURGE \<Rightarrow> ''PURGE''
      | HTTP_PARSER_METHOD_MKCALENDAR \<Rightarrow> ''MKCALENDAR'' | HTTP_PARSER_METHOD_LINK \<Rightarrow> ''LINK''
      | HTTP_PARSER_METHOD_UNLINK \<Rightarrow> ''UNLINK'')"

datatype http_parser_type = HTTP_REQUEST | HTTP_RESPONSE | HTTP_BOTH

datatype (plugins only: size) parser_state =
    s_dead | s_start_req_or_res | s_res_or_resp_H | s_start_res | s_res_H | s_res_HT | s_res_HTT | s_res_HTTP
  | s_res_first_http_major | s_res_http_major | s_res_first_http_minor | s_res_http_minor
  | s_res_first_status_code | s_res_status_code | s_res_status_start | s_res_status | s_res_line_almost_done
  | s_start_req | s_req_method | s_req_spaces_before_url | s_req_schema | s_req_schema_slash
  | s_req_schema_slash_slash | s_req_server_start | s_req_server | s_req_server_with_at | s_req_path
  | s_req_query_string_start | s_req_query_string | s_req_fragment_start | s_req_fragment
  | s_req_http_start | s_req_http_H | s_req_http_HT | s_req_http_HTT | s_req_http_HTTP
  | s_req_first_http_major | s_req_http_major | s_req_first_http_minor | s_req_http_minor | s_req_line_almost_done
  | s_header_field_start | s_header_field | s_header_value_discard_ws | s_header_value_discard_ws_almost_done
  | s_header_value_discard_lws | s_header_value_start | s_header_value | s_header_value_lws | s_header_almost_done
  | s_chunk_size_start | s_chunk_size | s_chunk_parameters | s_chunk_size_almost_done
  | s_headers_almost_done | s_headers_done
  | s_chunk_data | s_chunk_data_almost_done | s_chunk_data_done | s_body_identity | s_body_identity_eof | s_message_done

text \<open>The states up to \<open>s_headers_done\<close>.\<close>

definition PARSING_HEADER :: "parser_state \<Rightarrow> bool" where
  "PARSING_HEADER s \<longleftrightarrow>
     s \<notin> {s_chunk_data, s_chunk_data_almost_done, s_chunk_data_done, s_body_identity, s_body_identity_eof, s_message_done}"

datatype header_states =
    h_general | h_C | h_CO | h_CON
  | h_matching_connection | h_matching_proxy_connection | h_matching_content_length | h_matching_transfer_encoding
  | h_matching_upgrade
  | h_connection | h_content_length | h_transfer_encoding | h_upgrade
  | h_matching_transfer_encoding_chunked | h_matching_connection_token_start | h_matching_connection_keep_alive
  | h_matching_connection_close | h_matching_connection_upgrade | h_matching_connection_token
  | h_transfer_encoding_chunked | h_connection_keep_alive | h_connection_close | h_connection_upgrade

text \<open>The callbacks, the fields of \<open>http_parser_settings\<close>.\<close>

datatype http_cb =
    on_message_begin | on_url | on_status | on_header_field | on_header_value | on_headers_complete
  | on_body | on_message_complete | on_chunk_header | on_chunk_complete

text \<open>\<open>HPE_CB f\<close> is the error that names the callback \<open>f\<close>.\<close>

datatype http_errno =
    HPE_OK | HPE_CB http_cb | HPE_INVALID_EOF_STATE | HPE_HEADER_OVERFLOW | HPE_CLOSED_CONNECTION
  | HPE_INVALID_VERSION | HPE_INVALID_STATUS | HPE_INVALID_METHOD | HPE_INVALID_URL | HPE_INVALID_HOST
  | HPE_INVALID_PORT | HPE_INVALID_PATH | HPE_INVALID_QUERY_STRING | HPE_INVALID_FRAGMENT | HPE_LF_EXPECTED
  | HPE_INVALID_HEADER_TOKEN | HPE_INVALID_CONTENT_LENGTH | HPE_UNEXPECTED_CONTENT_LENGTH | HPE_INVALID_CHUNK_SIZE
  | HPE_INVALID_CONSTANT | HPE_INVALID_INTERNAL_STATE | HPE_STRICT | HPE_PAUSED | HPE_UNKNOWN

definition F_CHUNKED :: byte where "F_CHUNKED = 1"
definition F_CONNECTION_KEEP_ALIVE :: byte where "F_CONNECTION_KEEP_ALIVE = 2"
definition F_CONNECTION_CLOSE :: byte where "F_CONNECTION_CLOSE = 4"
definition F_CONNECTION_UPGRADE :: byte where "F_CONNECTION_UPGRADE = 8"
definition F_TRAILING :: byte where "F_TRAILING = 16"
definition F_UPGRADE :: byte where "F_UPGRADE = 32"
definition F_SKIPBODY :: byte where "F_SKIPBODY = 64"
definition F_CONTENTLENGTH :: byte where "F_CONTENTLENGTH = 128"

record http_parser =
  hp_type :: http_parser_type
  hp_flags :: byte
  hp_state :: parser_state
  hp_header_state :: header_states
  hp_index :: "7 word"
  hp_lenient_http_headers :: bool
  hp_nread :: u32
  hp_content_length :: u64
  hp_http_major :: u16
  hp_http_minor :: u16
  hp_status_code :: u16
  hp_method :: http_method
  hp_errno :: http_errno
  hp_upgrade :: bool

definition ULLONG_MAX :: u64 where "ULLONG_MAX = - 1"

definition HTTP_MAX_HEADER_SIZE :: nat where "HTTP_MAX_HEADER_SIZE = 80 * 1024"

definition http_parser_init :: "http_parser_type \<Rightarrow> http_parser" where
  "http_parser_init t =
     \<lparr>hp_type = t, hp_flags = 0,
      hp_state = (if t = HTTP_REQUEST then s_start_req else if t = HTTP_RESPONSE then s_start_res else s_start_req_or_res),
      hp_header_state = h_general, hp_index = 0, hp_lenient_http_headers = False, hp_nread = 0,
      hp_content_length = 0, hp_http_major = 0, hp_http_minor = 0, hp_status_code = 0,
      hp_method = HTTP_PARSER_METHOD_DELETE, hp_errno = HPE_OK, hp_upgrade = False\<rparr>"

section \<open>Characters\<close>

abbreviation ord :: "char \<Rightarrow> nat" where "ord c \<equiv> of_char c"

abbreviation NUL :: char where "NUL \<equiv> CHR 0x00"
abbreviation TAB :: char where "TAB \<equiv> CHR 0x09"
abbreviation LF :: char where "LF \<equiv> CHR 0x0A"
abbreviation FF :: char where "FF \<equiv> CHR 0x0C"
abbreviation CR :: char where "CR \<equiv> CHR 0x0D"
abbreviation SP :: char where "SP \<equiv> CHR '' ''"

text \<open>The table \<open>tokens\<close>: 32 zeros, the next 96 characters below, and zeros again.\<close>

definition tokens_32 :: string where
  "tokens_32 =
     [NUL, CHR ''!'', NUL, CHR ''#'', CHR ''$'', CHR ''%'', CHR ''&'', CHR 0x27,
      NUL, NUL, CHR ''*'', CHR ''+'', NUL, CHR ''-'', CHR ''.'', NUL] @
     ''0123456789'' @ [NUL, NUL, NUL, NUL, NUL, NUL] @
     [NUL] @ ''abcdefghijklmnopqrstuvwxyz'' @ [NUL, NUL, NUL, CHR ''^'', CHR ''_''] @
     [CHR 0x60] @ ''abcdefghijklmnopqrstuvwxyz'' @ [NUL, CHR ''|'', NUL, CHR ''~'', NUL]"

definition TOKEN :: "char \<Rightarrow> char" where
  "TOKEN c = (let n = ord c in if n < 32 \<or> 128 \<le> n then NUL else tokens_32 ! (n - 32))"

definition LOWER :: "char \<Rightarrow> char" where
  "LOWER c = char_of (ord c OR 0x20)"

definition IS_ALPHA :: "char \<Rightarrow> bool" where
  "IS_ALPHA c \<longleftrightarrow> ord CHR ''a'' \<le> ord (LOWER c) \<and> ord (LOWER c) \<le> ord CHR ''z''"

definition IS_NUM :: "char \<Rightarrow> bool" where
  "IS_NUM c \<longleftrightarrow> ord CHR ''0'' \<le> ord c \<and> ord c \<le> ord CHR ''9''"

definition IS_ALPHANUM :: "char \<Rightarrow> bool" where
  "IS_ALPHANUM c \<longleftrightarrow> IS_ALPHA c \<or> IS_NUM c"

definition IS_MARK :: "char \<Rightarrow> bool" where
  "IS_MARK c \<longleftrightarrow> c \<in> {CHR ''-'', CHR ''_'', CHR ''.'', CHR ''!'', CHR ''~'', CHR ''*'', CHR 0x27, CHR ''('', CHR '')''}"

definition IS_USERINFO_CHAR :: "char \<Rightarrow> bool" where
  "IS_USERINFO_CHAR c \<longleftrightarrow> IS_ALPHANUM c \<or> IS_MARK c \<or>
     c \<in> {CHR ''%'', CHR '';'', CHR '':'', CHR ''&'', CHR ''='', CHR ''+'', CHR ''$'', CHR '',''}"

text \<open>The bits of \<open>normal_url_char\<close>, with \<open>T(v)\<close> as 0.\<close>

definition normal_url_char :: "byte list" where
  "normal_url_char =
     [0, 0, 0, 0,
      0 OR 2 OR 4 OR 0 OR 16 OR 32 OR 64 OR 128, 1 OR 2 OR 4 OR 8 OR 16 OR 32 OR 64 OR 128,
      1 OR 2 OR 4 OR 8 OR 16 OR 32 OR 64 OR 128, 1 OR 2 OR 4 OR 8 OR 16 OR 32 OR 64 OR 0,
      255, 255, 255, 255, 255, 255, 255, 1 OR 2 OR 4 OR 8 OR 16 OR 32 OR 64 OR 0,
      0, 0, 0, 0, 0, 0, 0, 0, 0, 0, 0, 0, 0, 0, 0, 0]"

definition IS_URL_CHAR :: "char \<Rightarrow> bool" where
  "IS_URL_CHAR c \<longleftrightarrow> normal_url_char ! (drop_bit 3 (ord c)) AND push_bit (ord c AND 7) 1 \<noteq> 0"

definition IS_HEADER_CHAR :: "char \<Rightarrow> bool" where
  "IS_HEADER_CHAR c \<longleftrightarrow> c = CR \<or> c = LF \<or> c = TAB \<or> (ord c > 31 \<and> ord c \<noteq> 127)"

text \<open>The table \<open>unhex\<close>, with \<open>None\<close> for - 1.\<close>

definition unhex :: "char \<Rightarrow> nat option" where
  "unhex c =
     (if IS_NUM c then Some (ord c - ord CHR ''0'')
      else if ord CHR ''A'' \<le> ord c \<and> ord c \<le> ord CHR ''F'' then Some (ord c - ord CHR ''A'' + 10)
      else if ord CHR ''a'' \<le> ord c \<and> ord c \<le> ord CHR ''f'' then Some (ord c - ord CHR ''a'' + 10)
      else None)"

section \<open>The URL machine\<close>

definition parse_url_char :: "parser_state \<Rightarrow> char \<Rightarrow> parser_state" where
  "parse_url_char s ch =
     (if ch \<in> {SP, CR, LF} then s_dead
      else if ch \<in> {TAB, FF} then s_dead
      else (let server =
                (if ch = CHR ''/'' then s_req_path
                 else if ch = CHR ''?'' then s_req_query_string_start
                 else if ch = CHR ''@'' then s_req_server_with_at
                 else if IS_USERINFO_CHAR ch \<or> ch = CHR ''['' \<or> ch = CHR '']'' then s_req_server
                 else s_dead);
                query =
                (if IS_URL_CHAR ch then s_req_query_string
                 else if ch = CHR ''?'' then s_req_query_string
                 else if ch = CHR ''#'' then s_req_fragment_start
                 else s_dead) in
        case s of
          s_req_spaces_before_url \<Rightarrow>
            if ch = CHR ''/'' \<or> ch = CHR ''*'' then s_req_path
            else if IS_ALPHA ch then s_req_schema
            else s_dead
        | s_req_schema \<Rightarrow>
            if IS_ALPHA ch then s else if ch = CHR '':'' then s_req_schema_slash else s_dead
        | s_req_schema_slash \<Rightarrow> if ch = CHR ''/'' then s_req_schema_slash_slash else s_dead
        | s_req_schema_slash_slash \<Rightarrow> if ch = CHR ''/'' then s_req_server_start else s_dead
        | s_req_server_with_at \<Rightarrow> if ch = CHR ''@'' then s_dead else server
        | s_req_server_start \<Rightarrow> server
        | s_req_server \<Rightarrow> server
        | s_req_path \<Rightarrow>
            if IS_URL_CHAR ch then s
            else if ch = CHR ''?'' then s_req_query_string_start
            else if ch = CHR ''#'' then s_req_fragment_start
            else s_dead
        | s_req_query_string_start \<Rightarrow> query
        | s_req_query_string \<Rightarrow> query
        | s_req_fragment_start \<Rightarrow>
            if IS_URL_CHAR ch then s_req_fragment
            else if ch = CHR ''?'' then s_req_fragment
            else if ch = CHR ''#'' then s
            else s_dead
        | s_req_fragment \<Rightarrow>
            if IS_URL_CHAR ch then s else if ch = CHR ''?'' \<or> ch = CHR ''#'' then s else s_dead
        | _ \<Rightarrow> s_dead))"

section \<open>The machine\<close>

text \<open>
  A call of a callback: a notification, or the bytes from a mark to the end of the buffer with the number of them
  the call is about, and with the method of the request, which a callback may read.  While it runs the parser also
  has the marks and the calls it has made.
\<close>

datatype http_event = Notify http_cb | Data http_cb http_method string nat

record exec = http_parser +
  ex_mark :: "http_cb \<Rightarrow> string option"
  ex_calls :: "http_event list"

text \<open>What each callback returns, \<open>None\<close> for one that is NULL.\<close>

type_synonym http_parser_settings = "http_cb \<Rightarrow> int option"

text \<open>
  How the handling of a byte ends: with the next byte of the loop, with \<open>goto reexecute\<close> (the byte and those behind
  it), with \<open>goto error\<close> or a return, where the bytes that are left give the result, or with an assertion that
  does not hold.
\<close>

datatype control = Next string | Reexecute char string | Error string | Return string | Assert_failed

type_synonym step = "exec \<times> control"

definition fail :: "http_errno \<Rightarrow> exec \<Rightarrow> string \<Rightarrow> step" where
  "fail e x p = (x\<lparr>hp_errno := e\<rparr>, Error p)"

definition UPDATE_STATE :: "parser_state \<Rightarrow> exec \<Rightarrow> exec" where
  "UPDATE_STATE s x = x\<lparr>hp_state := s\<rparr>"

definition MARK :: "http_cb \<Rightarrow> string \<Rightarrow> exec \<Rightarrow> exec" where
  "MARK f p x = (if ex_mark x f = None then x\<lparr>ex_mark := (ex_mark x)(f := Some p)\<rparr> else x)"

text \<open>The last argument is what follows the macro in the code; \<open>er\<close> is what it returns on an error.\<close>

definition CALLBACK_NOTIFY :: "http_parser_settings \<Rightarrow> http_cb \<Rightarrow> string \<Rightarrow> exec \<Rightarrow> (exec \<Rightarrow> step) \<Rightarrow> step" where
  "CALLBACK_NOTIFY S f er x k =
     (if hp_errno x \<noteq> HPE_OK then (x, Assert_failed)
      else case S f of
        None \<Rightarrow> k x
      | Some r \<Rightarrow>
          (let x = x\<lparr>ex_calls := ex_calls x @ [Notify f]\<rparr> in
           if r \<noteq> 0 then (x\<lparr>hp_errno := HPE_CB f\<rparr>, Return er) else k x))"

text \<open>\<open>q\<close> is where the bytes of the call end.\<close>

definition CALLBACK_DATA :: "http_parser_settings \<Rightarrow> http_cb \<Rightarrow> string \<Rightarrow> string \<Rightarrow> exec \<Rightarrow> (exec \<Rightarrow> step) \<Rightarrow> step" where
  "CALLBACK_DATA S f q er x k =
     (if hp_errno x \<noteq> HPE_OK then (x, Assert_failed)
      else case ex_mark x f of
        None \<Rightarrow> k x
      | Some m \<Rightarrow>
          (let y = x\<lparr>ex_mark := (ex_mark x)(f := None)\<rparr> in
           case S f of
             None \<Rightarrow> k y
           | Some r \<Rightarrow>
               (let call = Data f (hp_method x) m (length m - length q) in
                if r \<noteq> 0 then (x\<lparr>ex_calls := ex_calls x @ [call], hp_errno := HPE_CB f\<rparr>, Return er)
                else k (y\<lparr>ex_calls := ex_calls x @ [call]\<rparr>))))"

definition COUNT_HEADER_SIZE :: "nat \<Rightarrow> string \<Rightarrow> exec \<Rightarrow> (exec \<Rightarrow> step) \<Rightarrow> step" where
  "COUNT_HEADER_SIZE n p x k =
     (let x = x\<lparr>hp_nread := hp_nread x + of_nat n\<rparr> in
      if unat (hp_nread x) > HTTP_MAX_HEADER_SIZE then fail HPE_HEADER_OVERFLOW x p else k x)"

definition STRICT_CHECK :: "bool \<Rightarrow> string \<Rightarrow> exec \<Rightarrow> (exec \<Rightarrow> step) \<Rightarrow> step" where
  "STRICT_CHECK wrong p x k = (if wrong then fail HPE_STRICT x p else k x)"

definition http_message_needs_eof :: "'a http_parser_scheme \<Rightarrow> bool" where
  "http_message_needs_eof x =
     (if hp_type x = HTTP_REQUEST then False
      else if hp_status_code x div 100 = 1 \<or> hp_status_code x = 204 \<or> hp_status_code x = 304 \<or>
          hp_flags x AND F_SKIPBODY \<noteq> 0 then False
      else if hp_flags x AND F_CHUNKED \<noteq> 0 \<or> hp_content_length x \<noteq> ULLONG_MAX then False
      else True)"

definition http_should_keep_alive :: "'a http_parser_scheme \<Rightarrow> bool" where
  "http_should_keep_alive x =
     (if hp_http_major x > 0 \<and> hp_http_minor x > 0 then
        (if hp_flags x AND F_CONNECTION_CLOSE \<noteq> 0 then False else \<not> http_message_needs_eof x)
      else
        (if hp_flags x AND F_CONNECTION_KEEP_ALIVE = 0 then False else \<not> http_message_needs_eof x))"

definition NEW_MESSAGE :: "'a http_parser_scheme \<Rightarrow> parser_state" where
  "NEW_MESSAGE x =
     (if http_should_keep_alive x then (if hp_type x = HTTP_REQUEST then s_start_req else s_start_res) else s_dead)"

subsection \<open>The start of a message\<close>

text \<open>Each definition below is one case of the \<open>switch\<close>: \<open>ch\<close> is the byte, \<open>rest\<close> the bytes behind it.\<close>

definition in_dead :: "exec \<Rightarrow> char \<Rightarrow> string \<Rightarrow> step" where
  "in_dead x ch rest = (if ch = CR \<or> ch = LF then (x, Next rest) else fail HPE_CLOSED_CONNECTION x (ch # rest))"

definition in_start_req_or_res :: "http_parser_settings \<Rightarrow> exec \<Rightarrow> char \<Rightarrow> string \<Rightarrow> step" where
  "in_start_req_or_res S x ch rest =
     (if ch = CR \<or> ch = LF then (x, Next rest)
      else (let x = x\<lparr>hp_flags := 0, hp_content_length := ULLONG_MAX\<rparr> in
        if ch = CHR ''H'' then
          CALLBACK_NOTIFY S on_message_begin rest (UPDATE_STATE s_res_or_resp_H x) (\<lambda>x. (x, Next rest))
        else (UPDATE_STATE s_start_req (x\<lparr>hp_type := HTTP_REQUEST\<rparr>), Reexecute ch rest)))"

definition in_res_or_resp_H :: "exec \<Rightarrow> char \<Rightarrow> string \<Rightarrow> step" where
  "in_res_or_resp_H x ch rest =
     (if ch = CHR ''T'' then (UPDATE_STATE s_res_HT (x\<lparr>hp_type := HTTP_RESPONSE\<rparr>), Next rest)
      else if ch \<noteq> CHR ''E'' then fail HPE_INVALID_CONSTANT x (ch # rest)
      else (UPDATE_STATE s_req_method
        (x\<lparr>hp_type := HTTP_REQUEST, hp_method := HTTP_PARSER_METHOD_HEAD, hp_index := 2\<rparr>), Next rest))"

definition in_start_res :: "http_parser_settings \<Rightarrow> exec \<Rightarrow> char \<Rightarrow> string \<Rightarrow> step" where
  "in_start_res S x ch rest =
     (let x = x\<lparr>hp_flags := 0, hp_content_length := ULLONG_MAX\<rparr> in
      if ch = CHR ''H'' then
        CALLBACK_NOTIFY S on_message_begin rest (UPDATE_STATE s_res_H x) (\<lambda>x. (x, Next rest))
      else if ch = CR \<or> ch = LF then CALLBACK_NOTIFY S on_message_begin rest x (\<lambda>x. (x, Next rest))
      else fail HPE_INVALID_CONSTANT x (ch # rest))"

text \<open>The cases that want one character and go on: \<open>s_res_H\<close> to \<open>s_res_HTTP\<close>, \<open>s_req_http_H\<close> to \<open>s_req_http_HTTP\<close>.\<close>

definition in_literal :: "char \<Rightarrow> parser_state \<Rightarrow> exec \<Rightarrow> char \<Rightarrow> string \<Rightarrow> step" where
  "in_literal c s x ch rest =
     STRICT_CHECK (ch \<noteq> c) (ch # rest) x (\<lambda>x. (UPDATE_STATE s x, Next rest))"

section \<open>The first line of a response\<close>

definition in_res_first_http_major :: "exec \<Rightarrow> char \<Rightarrow> string \<Rightarrow> step" where
  "in_res_first_http_major x ch rest =
     (if ord ch < ord CHR ''0'' \<or> ord ch > ord CHR ''9'' then fail HPE_INVALID_VERSION x (ch # rest)
      else (UPDATE_STATE s_res_http_major (x\<lparr>hp_http_major := of_nat (ord ch - ord CHR ''0'')\<rparr>), Next rest))"

definition in_res_http_major :: "exec \<Rightarrow> char \<Rightarrow> string \<Rightarrow> step" where
  "in_res_http_major x ch rest =
     (if ch = CHR ''.'' then (UPDATE_STATE s_res_first_http_minor x, Next rest)
      else if \<not> IS_NUM ch then fail HPE_INVALID_VERSION x (ch # rest)
      else (let x = x\<lparr>hp_http_major := hp_http_major x * 10 + of_nat (ord ch - ord CHR ''0'')\<rparr> in
        if hp_http_major x > 999 then fail HPE_INVALID_VERSION x (ch # rest) else (x, Next rest)))"

definition in_res_first_http_minor :: "exec \<Rightarrow> char \<Rightarrow> string \<Rightarrow> step" where
  "in_res_first_http_minor x ch rest =
     (if \<not> IS_NUM ch then fail HPE_INVALID_VERSION x (ch # rest)
      else (UPDATE_STATE s_res_http_minor (x\<lparr>hp_http_minor := of_nat (ord ch - ord CHR ''0'')\<rparr>), Next rest))"

definition in_res_http_minor :: "exec \<Rightarrow> char \<Rightarrow> string \<Rightarrow> step" where
  "in_res_http_minor x ch rest =
     (if ch = SP then (UPDATE_STATE s_res_first_status_code x, Next rest)
      else if \<not> IS_NUM ch then fail HPE_INVALID_VERSION x (ch # rest)
      else (let x = x\<lparr>hp_http_minor := hp_http_minor x * 10 + of_nat (ord ch - ord CHR ''0'')\<rparr> in
        if hp_http_minor x > 999 then fail HPE_INVALID_VERSION x (ch # rest) else (x, Next rest)))"

definition in_res_first_status_code :: "exec \<Rightarrow> char \<Rightarrow> string \<Rightarrow> step" where
  "in_res_first_status_code x ch rest =
     (if \<not> IS_NUM ch then (if ch = SP then (x, Next rest) else fail HPE_INVALID_STATUS x (ch # rest))
      else (UPDATE_STATE s_res_status_code (x\<lparr>hp_status_code := of_nat (ord ch - ord CHR ''0'')\<rparr>), Next rest))"

definition in_res_status_code :: "exec \<Rightarrow> char \<Rightarrow> string \<Rightarrow> step" where
  "in_res_status_code x ch rest =
     (if \<not> IS_NUM ch then
        (if ch = SP then (UPDATE_STATE s_res_status_start x, Next rest)
         else if ch = CR then (UPDATE_STATE s_res_line_almost_done x, Next rest)
         else if ch = LF then (UPDATE_STATE s_header_field_start x, Next rest)
         else fail HPE_INVALID_STATUS x (ch # rest))
      else (let x = x\<lparr>hp_status_code := hp_status_code x * 10 + of_nat (ord ch - ord CHR ''0'')\<rparr> in
        if hp_status_code x > 999 then fail HPE_INVALID_STATUS x (ch # rest) else (x, Next rest)))"

definition in_res_status_start :: "exec \<Rightarrow> char \<Rightarrow> string \<Rightarrow> step" where
  "in_res_status_start x ch rest =
     (if ch = CR then (UPDATE_STATE s_res_line_almost_done x, Next rest)
      else if ch = LF then (UPDATE_STATE s_header_field_start x, Next rest)
      else ((UPDATE_STATE s_res_status (MARK on_status (ch # rest) x))\<lparr>hp_index := 0\<rparr>, Next rest))"

definition in_res_status :: "http_parser_settings \<Rightarrow> exec \<Rightarrow> char \<Rightarrow> string \<Rightarrow> step" where
  "in_res_status S x ch rest =
     (if ch = CR then
        CALLBACK_DATA S on_status (ch # rest) rest (UPDATE_STATE s_res_line_almost_done x) (\<lambda>x. (x, Next rest))
      else if ch = LF then
        CALLBACK_DATA S on_status (ch # rest) rest (UPDATE_STATE s_header_field_start x) (\<lambda>x. (x, Next rest))
      else (x, Next rest))"

section \<open>The first line of a request\<close>

definition first_method :: "char \<Rightarrow> http_method option" where
  "first_method ch =
     (if ch = CHR ''A'' then Some HTTP_PARSER_METHOD_ACL
      else if ch = CHR ''B'' then Some HTTP_PARSER_METHOD_BIND
      else if ch = CHR ''C'' then Some HTTP_PARSER_METHOD_CONNECT
      else if ch = CHR ''D'' then Some HTTP_PARSER_METHOD_DELETE
      else if ch = CHR ''G'' then Some HTTP_PARSER_METHOD_GET
      else if ch = CHR ''H'' then Some HTTP_PARSER_METHOD_HEAD
      else if ch = CHR ''L'' then Some HTTP_PARSER_METHOD_LOCK
      else if ch = CHR ''M'' then Some HTTP_PARSER_METHOD_MKCOL
      else if ch = CHR ''N'' then Some HTTP_PARSER_METHOD_NOTIFY
      else if ch = CHR ''O'' then Some HTTP_PARSER_METHOD_OPTIONS
      else if ch = CHR ''P'' then Some HTTP_PARSER_METHOD_POST
      else if ch = CHR ''R'' then Some HTTP_PARSER_METHOD_REPORT
      else if ch = CHR ''S'' then Some HTTP_PARSER_METHOD_SUBSCRIBE
      else if ch = CHR ''T'' then Some HTTP_PARSER_METHOD_TRACE
      else if ch = CHR ''U'' then Some HTTP_PARSER_METHOD_UNLOCK
      else None)"

definition in_start_req :: "http_parser_settings \<Rightarrow> exec \<Rightarrow> char \<Rightarrow> string \<Rightarrow> step" where
  "in_start_req S x ch rest =
     (if ch = CR \<or> ch = LF then (x, Next rest)
      else (let x = x\<lparr>hp_flags := 0, hp_content_length := ULLONG_MAX\<rparr> in
        if \<not> IS_ALPHA ch then fail HPE_INVALID_METHOD x (ch # rest)
        else (let x = x\<lparr>hp_method := HTTP_PARSER_METHOD_DELETE, hp_index := 1\<rparr> in
          case first_method ch of
            None \<Rightarrow> fail HPE_INVALID_METHOD x (ch # rest)
          | Some m \<Rightarrow>
              CALLBACK_NOTIFY S on_message_begin rest (UPDATE_STATE s_req_method (x\<lparr>hp_method := m\<rparr>)) (\<lambda>x. (x, Next rest)))))"

text \<open>The letters at which a method turns into another one.\<close>

definition next_method :: "http_method \<Rightarrow> nat \<Rightarrow> char \<Rightarrow> http_method option" where
  "next_method m i ch =
     (case m of
        HTTP_PARSER_METHOD_POST \<Rightarrow>
          if i = 1 \<and> ch = CHR ''U'' then Some HTTP_PARSER_METHOD_PUT
          else if i = 1 \<and> ch = CHR ''A'' then Some HTTP_PARSER_METHOD_PATCH
          else if i = 1 \<and> ch = CHR ''R'' then Some HTTP_PARSER_METHOD_PROPFIND else None
      | HTTP_PARSER_METHOD_CONNECT \<Rightarrow>
          if i = 1 \<and> ch = CHR ''H'' then Some HTTP_PARSER_METHOD_CHECKOUT
          else if i = 2 \<and> ch = CHR ''P'' then Some HTTP_PARSER_METHOD_COPY else None
      | HTTP_PARSER_METHOD_MKCOL \<Rightarrow>
          if i = 1 \<and> ch = CHR ''O'' then Some HTTP_PARSER_METHOD_MOVE
          else if i = 1 \<and> ch = CHR ''E'' then Some HTTP_PARSER_METHOD_MERGE
          else if i = 2 \<and> ch = CHR ''A'' then Some HTTP_PARSER_METHOD_MKACTIVITY
          else if i = 3 \<and> ch = CHR ''A'' then Some HTTP_PARSER_METHOD_MKCALENDAR else None
      | HTTP_PARSER_METHOD_SUBSCRIBE \<Rightarrow> if i = 1 \<and> ch = CHR ''E'' then Some HTTP_PARSER_METHOD_SEARCH else None
      | HTTP_PARSER_METHOD_REPORT \<Rightarrow> if i = 2 \<and> ch = CHR ''B'' then Some HTTP_PARSER_METHOD_REBIND else None
      | HTTP_PARSER_METHOD_PROPFIND \<Rightarrow> if i = 4 \<and> ch = CHR ''P'' then Some HTTP_PARSER_METHOD_PROPPATCH else None
      | HTTP_PARSER_METHOD_PUT \<Rightarrow> if i = 2 \<and> ch = CHR ''R'' then Some HTTP_PARSER_METHOD_PURGE else None
      | HTTP_PARSER_METHOD_LOCK \<Rightarrow> if i = 1 \<and> ch = CHR ''I'' then Some HTTP_PARSER_METHOD_LINK else None
      | HTTP_PARSER_METHOD_UNLOCK \<Rightarrow>
          if i = 2 \<and> ch = CHR ''S'' then Some HTTP_PARSER_METHOD_UNSUBSCRIBE
          else if i = 2 \<and> ch = CHR ''B'' then Some HTTP_PARSER_METHOD_UNBIND
          else if i = 3 \<and> ch = CHR ''I'' then Some HTTP_PARSER_METHOD_UNLINK else None
      | _ \<Rightarrow> None)"

text \<open>
  A read of the name of the method behind its terminator is an \<open>Assert_failed\<close> too.
\<close>

definition in_req_method :: "exec \<Rightarrow> char \<Rightarrow> string \<Rightarrow> step" where
  "in_req_method x ch rest =
     (let i = unat (hp_index x); matcher = method_strings (hp_method x) @ [NUL];
          advance = (\<lambda>x. (x\<lparr>hp_index := hp_index x + 1\<rparr>, Next rest)) in
      if ch = NUL then fail HPE_INVALID_METHOD x (ch # rest)
      else if length matcher \<le> i then (x, Assert_failed)
      else if ch = SP \<and> matcher ! i = NUL then advance (UPDATE_STATE s_req_spaces_before_url x)
      else if ch = matcher ! i then advance x
      else if IS_ALPHA ch then
        (case next_method (hp_method x) i ch of
           None \<Rightarrow> fail HPE_INVALID_METHOD x (ch # rest)
         | Some m \<Rightarrow> advance (x\<lparr>hp_method := m\<rparr>))
      else if ch = CHR ''-'' \<and> i = 1 \<and> hp_method x = HTTP_PARSER_METHOD_MKCOL then
        advance (x\<lparr>hp_method := HTTP_PARSER_METHOD_MSEARCH\<rparr>)
      else fail HPE_INVALID_METHOD x (ch # rest))"

text \<open>A character of the URL, for the three cases below.\<close>

definition url_char :: "exec \<Rightarrow> char \<Rightarrow> string \<Rightarrow> step" where
  "url_char x ch rest =
     (let x = UPDATE_STATE (parse_url_char (hp_state x) ch) x in
      if hp_state x = s_dead then fail HPE_INVALID_URL x (ch # rest) else (x, Next rest))"

definition in_req_spaces_before_url :: "exec \<Rightarrow> char \<Rightarrow> string \<Rightarrow> step" where
  "in_req_spaces_before_url x ch rest =
     (if ch = SP then (x, Next rest)
      else (let x = MARK on_url (ch # rest) x;
                x = (if hp_method x = HTTP_PARSER_METHOD_CONNECT then UPDATE_STATE s_req_server_start x else x) in
        url_char x ch rest))"

definition in_req_schema :: "exec \<Rightarrow> char \<Rightarrow> string \<Rightarrow> step" where
  "in_req_schema x ch rest =
     (if ch \<in> {SP, CR, LF} then fail HPE_INVALID_URL x (ch # rest) else url_char x ch rest)"

definition in_req_url :: "http_parser_settings \<Rightarrow> exec \<Rightarrow> char \<Rightarrow> string \<Rightarrow> step" where
  "in_req_url S x ch rest =
     (if ch = SP then
        CALLBACK_DATA S on_url (ch # rest) rest (UPDATE_STATE s_req_http_start x) (\<lambda>x. (x, Next rest))
      else if ch = CR \<or> ch = LF then
        (let x = x\<lparr>hp_http_major := 0, hp_http_minor := 9\<rparr> in
         CALLBACK_DATA S on_url (ch # rest) rest
           (UPDATE_STATE (if ch = CR then s_req_line_almost_done else s_header_field_start) x) (\<lambda>x. (x, Next rest)))
      else url_char x ch rest)"

definition in_req_http_start :: "exec \<Rightarrow> char \<Rightarrow> string \<Rightarrow> step" where
  "in_req_http_start x ch rest =
     (if ch = CHR ''H'' then (UPDATE_STATE s_req_http_H x, Next rest)
      else if ch = SP then (x, Next rest)
      else fail HPE_INVALID_CONSTANT x (ch # rest))"

definition in_req_first_http_major :: "exec \<Rightarrow> char \<Rightarrow> string \<Rightarrow> step" where
  "in_req_first_http_major x ch rest =
     (if ord ch < ord CHR ''1'' \<or> ord ch > ord CHR ''9'' then fail HPE_INVALID_VERSION x (ch # rest)
      else (UPDATE_STATE s_req_http_major (x\<lparr>hp_http_major := of_nat (ord ch - ord CHR ''0'')\<rparr>), Next rest))"

definition in_req_http_major :: "exec \<Rightarrow> char \<Rightarrow> string \<Rightarrow> step" where
  "in_req_http_major x ch rest =
     (if ch = CHR ''.'' then (UPDATE_STATE s_req_first_http_minor x, Next rest)
      else if \<not> IS_NUM ch then fail HPE_INVALID_VERSION x (ch # rest)
      else (let x = x\<lparr>hp_http_major := hp_http_major x * 10 + of_nat (ord ch - ord CHR ''0'')\<rparr> in
        if hp_http_major x > 999 then fail HPE_INVALID_VERSION x (ch # rest) else (x, Next rest)))"

definition in_req_first_http_minor :: "exec \<Rightarrow> char \<Rightarrow> string \<Rightarrow> step" where
  "in_req_first_http_minor x ch rest =
     (if \<not> IS_NUM ch then fail HPE_INVALID_VERSION x (ch # rest)
      else (UPDATE_STATE s_req_http_minor (x\<lparr>hp_http_minor := of_nat (ord ch - ord CHR ''0'')\<rparr>), Next rest))"

definition in_req_http_minor :: "exec \<Rightarrow> char \<Rightarrow> string \<Rightarrow> step" where
  "in_req_http_minor x ch rest =
     (if ch = CR then (UPDATE_STATE s_req_line_almost_done x, Next rest)
      else if ch = LF then (UPDATE_STATE s_header_field_start x, Next rest)
      else if \<not> IS_NUM ch then fail HPE_INVALID_VERSION x (ch # rest)
      else (let x = x\<lparr>hp_http_minor := hp_http_minor x * 10 + of_nat (ord ch - ord CHR ''0'')\<rparr> in
        if hp_http_minor x > 999 then fail HPE_INVALID_VERSION x (ch # rest) else (x, Next rest)))"

definition in_req_line_almost_done :: "exec \<Rightarrow> char \<Rightarrow> string \<Rightarrow> step" where
  "in_req_line_almost_done x ch rest =
     (if ch \<noteq> LF then fail HPE_LF_EXPECTED x (ch # rest) else (UPDATE_STATE s_header_field_start x, Next rest))"

end
