(* ===== verification/Server_Loop.thy ===== *)
theory Server_Loop
  imports Notifications Pair_Setup Pair_Verify Characteristics Http_Parser
begin

text \<open>
  The rest of the requests and the main loop of \<open>src/arduino_homekit_server.cpp\<close>: identify, reset and
  resource, the callbacks of the HTTP parser with the routing of a complete message,
  \<open>homekit_client_process\<close> and \<open>homekit_server_process\<close>.  The HTTP parser is a parameter: for its state and
  some bytes it gives its next state and the callbacks it makes.
\<close>

section \<open>What the application asks\<close>

text \<open>\<open>current\<close> is the global \<open>current_client_context\<close>.\<close>

definition homekit_get_client_id :: "nat option \<Rightarrow> nat option" where
  "homekit_get_client_id current = current"

definition homekit_client_is_admin :: "('w, 's, 'p, 'srp) homekit_server_t \<Rightarrow> nat option \<Rightarrow> fault + bool" where
  "homekit_client_is_admin S current =
     (case current of None \<Rightarrow> Inr False | Some i \<Rightarrow> bind_res (client S i) (\<lambda>c. Inr (is_admin (cl_permissions c))))"

definition homekit_client_send ::
  "'s platform \<Rightarrow> ('w, 's, 'p, 'srp) homekit_server_t \<Rightarrow> nat option \<Rightarrow> byte list \<Rightarrow>
   fault + (int \<times> ('w, 's, 'p, 'srp) homekit_server_t)" where
  "homekit_client_send W S current data =
     (case current of None \<Rightarrow> Inr (- 1, S) | Some i \<Rightarrow> bind_res (client_send W S i data) (\<lambda>S. Inr (0, S)))"

section \<open>Identify, reset and resource\<close>

definition HOMEKIT_CHARACTERISTIC_IDENTIFY :: string where "HOMEKIT_CHARACTERISTIC_IDENTIFY = ''14''"

fun first_index :: "('a \<Rightarrow> bool) \<Rightarrow> 'a list \<Rightarrow> nat option" where
  "first_index P [] = None"
| "first_index P (x # xs) = (if P x then Some 0 else map_option Suc (first_index P xs))"

text \<open>The lookups of identify, which give positions in the tree.\<close>

definition identify_path :: "homekit_accessory list \<Rightarrow> ch_path option" where
  "identify_path as =
     (case first_index (\<lambda>a. a_id a = 1) as of
        None \<Rightarrow> None
      | Some a \<Rightarrow>
          (case first_index (\<lambda>s. s_type s = HOMEKIT_SERVICE_ACCESSORY_INFORMATION) (a_services (as ! a)) of
             None \<Rightarrow> None
           | Some s \<Rightarrow>
               (case first_index (\<lambda>c. c_type c = HOMEKIT_CHARACTERISTIC_IDENTIFY)
                  (s_characteristics (a_services (as ! a) ! s)) of
                  None \<Rightarrow> None
                | Some k \<Rightarrow> Some (a, s, k))))"

definition homekit_server_on_identify ::
  "app \<Rightarrow> 's platform \<Rightarrow> ('w, 's, 'p, 'srp) homekit_server_t \<Rightarrow> nat \<Rightarrow> fault + ('w, 's, 'p, 'srp) homekit_server_t" where
  "homekit_server_on_identify G W S i =
     (if sv_paired S then send_json_error_response W S i 400 HAPStatus_InsufficientPrivileges
      else bind_res (send_204_response W S i) (\<lambda>S.
        case identify_path (sv_accessories S) of
          None \<Rightarrow> Inr S
        | Some p \<Rightarrow>
            (case c_setter_ex (get_ch (sv_accessories S) p) of
               None \<Rightarrow> Inr S
             | Some f \<Rightarrow>
                 bind_res (run_setter G (sv_accessories S) p f (HOMEKIT_BOOL_CPP (ap_junk G) True)) (\<lambda>as.
                   Inr (S\<lparr>sv_accessories := as\<rparr>)))))"

definition homekit_server_reset :: "'w board \<Rightarrow> ('w, 's, 'p, 'srp) homekit_server_t \<Rightarrow> ('w, 's, 'p, 'srp) homekit_server_t" where
  "homekit_server_reset B S = S\<lparr>sv_flash := snd (homekit_storage_reset B (sv_flash S))\<rparr>"

text \<open>Up to the restart of the chip.\<close>

definition homekit_server_on_reset ::
  "('w, 's, 'p3, 'p2) hk_env \<Rightarrow> ('w, 's, 'p, 'srp) homekit_server_t \<Rightarrow> nat \<Rightarrow> fault + ('w, 's, 'p, 'srp) homekit_server_t" where
  "homekit_server_on_reset E S i = send_204_response (en_plat E) (homekit_server_reset (en_board E) S) i"

text \<open>What the callback of the application sends is its own matter.\<close>

definition homekit_server_on_resource ::
  "app \<Rightarrow> 's platform \<Rightarrow> ('w, 's, 'p, 'srp) homekit_server_t \<Rightarrow> nat \<Rightarrow> fault + ('w, 's, 'p, 'srp) homekit_server_t" where
  "homekit_server_on_resource G W S i = (if \<not> ap_on_resource G then send_404_response W S i else Inr S)"

section \<open>The callbacks of the HTTP parser\<close>

text \<open>\<open>On_url m data n\<close>: the URL is the first \<open>n\<close> characters of \<open>data\<close>, which goes on to the end of the buffer.\<close>

datatype http_call = On_url http_method string nat | On_body "byte list" | On_message_complete

text \<open>\<open>!strncmp(data, url, length)\<close>: also when the URL is a prefix of \<open>url\<close>.\<close>

definition url_is :: "string \<Rightarrow> nat \<Rightarrow> string \<Rightarrow> bool" where
  "url_is data n url = cstr_eq_n (CHR 0x00) n data url"

text \<open>The endpoint of a GET request and the text of its parameters.\<close>

definition get_endpoint :: "string \<Rightarrow> nat \<Rightarrow> fault + (homekit_endpoint_t \<times> string option)" where
  "get_endpoint data n =
     (if url_is data n ''/accessories'' then Inr (HOMEKIT_ENDPOINT_GET_ACCESSORIES, None)
      else (let url = ''/characteristics''; m = length url in
        if n \<ge> m \<and> url_is data m url then
          (if length data \<le> m then Inl Oob_read
           else if data ! m = CHR 0x00 then Inr (HOMEKIT_ENDPOINT_GET_CHARACTERISTICS, None)
           else if data ! m = CHR ''?'' then
             (let k = (n + 2 ^ 32 - m - 1) mod 2 ^ 32; rest = drop (m + 1) data in
              if length rest < k \<and> CHR 0x00 \<notin> set rest then Inl Oob_read
              else Inr (HOMEKIT_ENDPOINT_GET_CHARACTERISTICS, Some (strndup (CHR 0x00) rest k)))
           else Inr (HOMEKIT_ENDPOINT_UNKNOWN, None))
        else Inr (HOMEKIT_ENDPOINT_UNKNOWN, None)))"

definition post_endpoint :: "string \<Rightarrow> nat \<Rightarrow> homekit_endpoint_t" where
  "post_endpoint data n =
     (if url_is data n ''/identify'' then HOMEKIT_ENDPOINT_IDENTIFY
      else if url_is data n ''/pair-setup'' then HOMEKIT_ENDPOINT_PAIR_SETUP
      else if url_is data n ''/pair-verify'' then HOMEKIT_ENDPOINT_PAIR_VERIFY
      else if url_is data n ''/pairings'' then HOMEKIT_ENDPOINT_PAIRINGS
      else if url_is data n ''/resource'' then HOMEKIT_ENDPOINT_RESOURCE
      else HOMEKIT_ENDPOINT_UNKNOWN)"

definition put_endpoint :: "string \<Rightarrow> nat \<Rightarrow> homekit_endpoint_t" where
  "put_endpoint data n =
     (if url_is data n ''/characteristics'' then HOMEKIT_ENDPOINT_UPDATE_CHARACTERISTICS else HOMEKIT_ENDPOINT_UNKNOWN)"

definition homekit_server_on_url ::
  "http_method \<Rightarrow> string \<Rightarrow> nat \<Rightarrow> ('w, 's, 'p, 'srp) homekit_server_t \<Rightarrow> nat \<Rightarrow> fault + ('w, 's, 'p, 'srp) homekit_server_t"
  where
  "homekit_server_on_url m data n S i =
     bind_res (case m of
         HTTP_PARSER_METHOD_GET \<Rightarrow> get_endpoint data n
       | HTTP_PARSER_METHOD_POST \<Rightarrow> Inr (post_endpoint data n, None)
       | HTTP_PARSER_METHOD_PUT \<Rightarrow> Inr (put_endpoint data n, None)
       | _ \<Rightarrow> Inr (HOMEKIT_ENDPOINT_UNKNOWN, None)) (\<lambda>(endpoint, query).
       case query of
         None \<Rightarrow> modify_client S i (\<lambda>c. c\<lparr>cl_endpoint := endpoint\<rparr>)
       | Some query \<Rightarrow> bind_res (query_params_parse query) (\<lambda>params.
           modify_client S i (\<lambda>c. c\<lparr>cl_endpoint := endpoint, cl_endpoint_params := Some params\<rparr>)))"

text \<open>The body of a request, NULL and of length 0 before its first part.\<close>

definition body_of :: "('s, 'p) client_context_t \<Rightarrow> byte list" where
  "body_of c = (case cl_body c of None \<Rightarrow> [] | Some b \<Rightarrow> b)"

definition homekit_server_on_body ::
  "byte list \<Rightarrow> ('w, 's, 'p, 'srp) homekit_server_t \<Rightarrow> nat \<Rightarrow> fault + ('w, 's, 'p, 'srp) homekit_server_t" where
  "homekit_server_on_body data S i = modify_client S i (\<lambda>c. c\<lparr>cl_body := Some (body_of c @ data)\<rparr>)"

text \<open>The handler of a message.\<close>

definition route ::
  "app \<Rightarrow> ('w, 's, 'p3, 'p2) hk_env \<Rightarrow> ('w, 's, 'p) hk_server \<Rightarrow> nat \<Rightarrow> ('s, 'p) client_context_t \<Rightarrow>
   fault + ('w, 's, 'p) hk_server" where
  "route G E S i c =
     (if \<not> cl_encrypted c then
        (case cl_endpoint c of
           HOMEKIT_ENDPOINT_PAIR_SETUP \<Rightarrow> homekit_server_on_pair_setup E S i (body_of c)
         | HOMEKIT_ENDPOINT_PAIR_VERIFY \<Rightarrow> homekit_server_on_pair_verify E S i (body_of c)
         | _ \<Rightarrow> send_404_response (en_plat E) S i)
      else
        (case cl_endpoint c of
           HOMEKIT_ENDPOINT_IDENTIFY \<Rightarrow> homekit_server_on_identify G (en_plat E) S i
         | HOMEKIT_ENDPOINT_GET_ACCESSORIES \<Rightarrow> homekit_server_on_get_accessories G (en_plat E) S i
         | HOMEKIT_ENDPOINT_GET_CHARACTERISTICS \<Rightarrow> homekit_server_on_get_characteristics G (en_plat E) S i
         | HOMEKIT_ENDPOINT_UPDATE_CHARACTERISTICS \<Rightarrow> homekit_server_on_update_characteristics G (en_plat E) S i (body_of c)
         | HOMEKIT_ENDPOINT_PAIRINGS \<Rightarrow> homekit_server_on_pairings E S i (body_of c)
         | HOMEKIT_ENDPOINT_RESOURCE \<Rightarrow> homekit_server_on_resource G (en_plat E) S i
         | _ \<Rightarrow> send_404_response (en_plat E) S i))"

text \<open>The context is used after the handler, also when the handler has closed the client.\<close>

definition homekit_server_on_message_complete ::
  "app \<Rightarrow> ('w, 's, 'p3, 'p2) hk_env \<Rightarrow> ('w, 's, 'p) hk_server \<Rightarrow> nat \<Rightarrow> fault + ('w, 's, 'p) hk_server" where
  "homekit_server_on_message_complete G E S i =
     bind_res (client S i) (\<lambda>c.
     bind_res (route G E S i c) (\<lambda>S.
       modify_client S i (\<lambda>c. c\<lparr>cl_endpoint_params := None, cl_body := None\<rparr>)))"

fun http_callbacks ::
  "app \<Rightarrow> ('w, 's, 'p3, 'p2) hk_env \<Rightarrow> ('w, 's, 'p) hk_server \<Rightarrow> nat \<Rightarrow> http_call list \<Rightarrow> fault + ('w, 's, 'p) hk_server" where
  "http_callbacks G E S i [] = Inr S"
| "http_callbacks G E S i (k # ks) =
     bind_res (case k of
         On_url m data n \<Rightarrow> homekit_server_on_url m data n S i
       | On_body data \<Rightarrow> homekit_server_on_body data S i
       | On_message_complete \<Rightarrow> homekit_server_on_message_complete G E S i) (\<lambda>S. http_callbacks G E S i ks)"

section \<open>One round of a client\<close>

text \<open>The state of the parser is in the context, and is written when it returns.\<close>

definition http_execute ::
  "app \<Rightarrow> ('w, 's, 'p3, 'p2) hk_env \<Rightarrow> ('p \<Rightarrow> string \<Rightarrow> 'p \<times> http_call list) \<Rightarrow> ('w, 's, 'p) hk_server \<Rightarrow> nat \<Rightarrow> byte list \<Rightarrow>
   fault + ('w, 's, 'p) hk_server" where
  "http_execute G E H S i payload =
     bind_res (client S i) (\<lambda>c.
       let (p, calls) = H (cl_parser c) (chars payload) in
       bind_res (http_callbacks G E S i calls) (\<lambda>S. modify_client S i (\<lambda>c. c\<lparr>cl_parser := p\<rparr>)))"

text \<open>
  Reading: the bytes go behind those left from before, at most as many as there is room.  The result is the
  context and the number of bytes.
\<close>

definition read_data :: "'s platform \<Rightarrow> 's \<Rightarrow> ('s, 'p) client_context_t \<Rightarrow> fault + (nat \<times> ('s, 'p) client_context_t)" where
  "read_data W s c =
     (let available_len = sock_available W s in
      if available_len = 0 then Inr (0, c)
      else (let size = min (length (cl_data c) - cl_data_available c) available_len;
                (got, s) = sock_read W s size; k = cl_data_available c in
        if length (cl_data c) < k + length got then Inl Oob_write
        else Inr (length got, c\<lparr>cl_socket := Some s, cl_data := take k (cl_data c) @ got @ drop (k + length got) (cl_data c)\<rparr>)))"

text \<open>
  The two calls of \<open>client_decrypt_\<close>, for the size and for the bytes; a size of which \<open>malloc\<close> gives NULL makes
  the parser read from there.  \<open>None\<close> is the return on invalid data.
\<close>

definition decrypt_data ::
  "'s platform \<Rightarrow> ('s, 'p) client_context_t \<Rightarrow> nat \<Rightarrow> fault + (('s, 'p) client_context_t \<times> byte list option)" where
  "decrypt_data W c data_len =
     bind_res (client_decrypt' (junk_words W) c (cl_data c) data_len [] 0) (\<lambda>(_, c, _, decrypted_size).
       let buffer = heap_alloc W decrypted_size in
       bind_res (client_decrypt' (junk_words W) c (cl_data c) data_len (case buffer of None \<Rightarrow> [] | Some b \<Rightarrow> b) decrypted_size)
         (\<lambda>(r, c, decrypted, size).
           if r < 0 then Inr (c, None)
           else (let k = nat r; available = data_len - k;
                     c = c\<lparr>cl_data_available := available,
                       cl_data := (if k \<noteq> 0 \<and> available \<noteq> 0
                         then take available (drop k (cl_data c)) @ drop available (cl_data c) else cl_data c)\<rparr> in
             if buffer = None \<and> size \<noteq> 0 then Inl Null_deref
             else Inr (c, Some (take size decrypted)))))"

definition homekit_client_process ::
  "app \<Rightarrow> ('w, 's, 'p3, 'p2) hk_env \<Rightarrow> ('p \<Rightarrow> string \<Rightarrow> 'p \<times> http_call list) \<Rightarrow> ('w, 's, 'p) hk_server \<Rightarrow> nat \<Rightarrow>
   fault + ('w, 's, 'p) hk_server" where
  "homekit_client_process G E H S i =
     bind_res (client S i) (\<lambda>c.
       case cl_socket c of
         None \<Rightarrow> Inr S
       | Some s \<Rightarrow>
           bind_res (read_data (en_plat E) s c) (\<lambda>(data_len, c).
             let S = set_client S i c in
             if data_len = 0 then
               (if case cl_socket c of None \<Rightarrow> True | Some s \<Rightarrow> \<not> sock_connected (en_plat E) s
                then homekit_server_close_client (set_client S i (c\<lparr>cl_disconnect := True\<rparr>)) i
                else Inr S)
             else if cl_encrypted c then
               bind_res (decrypt_data (en_plat E) c data_len) (\<lambda>(c, payload).
                 let S = set_client S i c in
                 case payload of
                   None \<Rightarrow> Inr S
                 | Some payload \<Rightarrow> http_execute G E H S i payload)
             else http_execute G E H (set_client S i (c\<lparr>cl_data_available := 0\<rparr>)) i (take data_len (cl_data c))))"

definition homekit_client_need_process_data :: "('s, 'p) client_context_t option \<Rightarrow> bool" where
  "homekit_client_need_process_data context =
     (case context of
        None \<Rightarrow> False
      | Some c \<Rightarrow> cl_step c \<in> {HOMEKIT_CLIENT_STEP_PAIR_SETUP_1OF3, HOMEKIT_CLIENT_STEP_PAIR_SETUP_2OF3,
          HOMEKIT_CLIENT_STEP_PAIR_SETUP_3OF3, HOMEKIT_CLIENT_STEP_PAIR_VERIFY_1OF2})"

section \<open>The main loop\<close>

text \<open>A connection that is waiting, and what the memory of its context holds.\<close>

record ('s, 'p) arrival =
  ar_pending :: "'s option"
  ar_junk :: "('s, 'p) client_context_t"
  ar_queue :: "characteristic_event_t queue_t"
  ar_memory :: "characteristic_event_t list option"
  ar_parser :: 'p

definition homekit_server_process ::
  "app \<Rightarrow> ('w, 's, 'p3, 'p2) hk_env \<Rightarrow> ('p \<Rightarrow> string \<Rightarrow> 'p \<times> http_call list) \<Rightarrow> ('s, 'p) arrival \<Rightarrow> ('w, 's, 'p) hk_server \<Rightarrow>
   fault + ('w, 's, 'p) hk_server" where
  "homekit_server_process G E H A S =
     (let (_, S) = homekit_server_accept_client (ar_junk A) (ar_queue A) (ar_memory A) (ar_parser A) (ar_pending A) S in
      bind_res (client_loop (homekit_client_process G E H) (length (sv_clients S)) S (first_client S)) (\<lambda>S.
        homekit_server_process_notifications G (en_plat E) S))"

text \<open>The result of the preparation is not looked at.\<close>

definition arduino_homekit_loop ::
  "app \<Rightarrow> ('w, 's, 'p3, 'p2) hk_env \<Rightarrow> ('p \<Rightarrow> string \<Rightarrow> 'p \<times> http_call list) \<Rightarrow> ('s, 'p) arrival \<Rightarrow>
   ('w, 's, 'p) hk_server option \<Rightarrow> fault + ('w, 's, 'p) hk_server option" where
  "arduino_homekit_loop G E H A running =
     (case running of
        None \<Rightarrow> Inr None
      | Some S \<Rightarrow>
          bind_res (if sv_paired S then Inr (True, S) else arduino_homekit_preinit E S) (\<lambda>(_, S).
          bind_res (homekit_server_process G E H A S) (\<lambda>S. Inr (Some S))))"

definition arduino_homekit_connected_clients_count :: "('w, 's, 'p, 'srp) homekit_server_t option \<Rightarrow> int" where
  "arduino_homekit_connected_clients_count running = (case running of None \<Rightarrow> - 1 | Some S \<Rightarrow> sv_nfds S)"

section \<open>Lemmas\<close>

lemma same_client: "client S i = Inr c \<Longrightarrow> client (set_client S i d) i = Inr d"
  by (rule client_set_same)

text \<open>What a write to a client that is not encrypted leaves when it does not close the client.\<close>

lemma write_open:
  assumes "client S i = Inr c" and "write' W S i data = Inr S'" and "client S' i = Inr d"
  shows "S' = S \<or> (\<exists>s. S' = set_client S i (c\<lparr>cl_socket := s\<rparr>))"
  using assms closed_dangling
  by (fastforce simp: write'_def Let_def split: option.splits if_splits prod.splits)

lemma plain_404:
  "client S i = Inr c \<Longrightarrow> \<not> cl_encrypted c \<Longrightarrow> send_404_response W S i =
    write' W S i (bytes (''HTTP/1.1 404 Not Found'' @ crlf @ crlf))"
  by (simp add: send_404_response_def client_send_P_def client_send_def)

lemma unencrypted_route:
  "\<not> cl_encrypted c \<Longrightarrow> cl_endpoint c \<noteq> HOMEKIT_ENDPOINT_PAIR_SETUP \<Longrightarrow> cl_endpoint c \<noteq> HOMEKIT_ENDPOINT_PAIR_VERIFY \<Longrightarrow>
    route G E S i c = send_404_response (en_plat E) S i"
  by (simp add: route_def split: homekit_endpoint_t.split)

text \<open>The calls for a chunk that is not complete: the size of the second is that of the text, and no frame is read.\<close>

lemma decrypt_incomplete:
  assumes "cl_encrypted c" and "18 \<le> n" and "n < 1042" and "2 \<le> length (cl_data c)"
    and "n < unat (cl_data c ! 0) + unat (cl_data c ! 1) * 256 + 18"
  shows "client_decrypt' junk c (cl_data c) n [] 0 =
      (if n = 18 then Inr (0, c, [], 0) else Inr (- 2, c, [], n - 18))"
    and "client_decrypt' junk c (cl_data c) n out (n - 18) = Inr (0, c, out, n - 18)"
  using assms by (auto simp: client_decrypt'_def required_small Let_def decrypt_loop.simps)

text \<open>A client that is not connected any more is closed, and the loop goes on behind it.\<close>

lemma disconnected_closes:
  assumes "client S i = Inr c" and "cl_socket c = Some s" and "sock_available (en_plat E) s = 0"
    and "\<not> sock_connected (en_plat E) s"
  shows "homekit_client_process G E H S i =
    homekit_server_close_client (set_client S i (c\<lparr>cl_disconnect := True\<rparr>)) i"
  using assms by (simp add: homekit_client_process_def read_data_def set_client_twice)

lemma closes_found: "client S i = Inr c \<Longrightarrow> \<exists>S'. homekit_server_close_client S i = Inr S'"
  by (simp add: homekit_server_close_client_def Let_def)

section \<open>Properties\<close>

text \<open>
  C9: Without an encrypted session nothing but pairing is served: a complete request for any other endpoint, if it
  does not fault, changes nothing of the server but the client's own socket, and drops its body and parameters.
\<close>

theorem unencrypted_access:
  assumes "client S i = Inr c" and "\<not> cl_encrypted c"
    and "cl_endpoint c \<notin> {HOMEKIT_ENDPOINT_PAIR_SETUP, HOMEKIT_ENDPOINT_PAIR_VERIFY}"
    and "homekit_server_on_message_complete G E S i = Inr S'"
  shows "\<exists>s. S' = set_client S i (c\<lparr>cl_socket := s, cl_endpoint_params := None, cl_body := None\<rparr>)"
proof -
  obtain T d where T: "write' (en_plat E) S i (bytes (''HTTP/1.1 404 Not Found'' @ crlf @ crlf)) = Inr T"
      "client T i = Inr d" "S' = set_client T i (d\<lparr>cl_endpoint_params := None, cl_body := None\<rparr>)"
    using assms by (auto simp: homekit_server_on_message_complete_def unencrypted_route plain_404 modify_client_def)
  from write_open [OF assms(1) T(1,2)] show ?thesis
  proof
    assume "T = S"
    then show ?thesis using T(2,3) assms(1) by (intro exI [of _ "cl_socket c"]) simp
  next
    assume "\<exists>s. T = set_client S i (c\<lparr>cl_socket := s\<rparr>)"
    then obtain s where s: "T = set_client S i (c\<lparr>cl_socket := s\<rparr>)" by blast
    then have "d = c\<lparr>cl_socket := s\<rparr>" using T(2) same_client [OF assms(1)] by simp
    then show ?thesis using T(3) s by (intro exI [of _ s]) (simp add: set_client_twice)
  qed
qed

definition plain_server :: "homekit_endpoint_t \<Rightarrow> byte list \<Rightarrow> (nat \<Rightarrow> byte, byte list, unit) hk_server" where
  "plain_server e body = set_client (sample_server erased_ram) 0
     (sample_client\<lparr>cl_encrypted := False, cl_endpoint := e, cl_body := Some body\<rparr>)"

lemma plain_server_client:
  "client (plain_server e body) 0 = Inr (sample_client\<lparr>cl_encrypted := False, cl_endpoint := e, cl_body := Some body\<rparr>)"
  unfolding plain_server_def by (rule client_set_same [OF sample_server_ok(2)])

lemma unencrypted_access_witness:
  "\<exists>S' s. homekit_server_on_message_complete sample_app sample_env (plain_server HOMEKIT_ENDPOINT_PAIRINGS [6]) 0 = Inr S' \<and>
    client S' 0 = Inr (sample_client\<lparr>cl_encrypted := False, cl_endpoint := HOMEKIT_ENDPOINT_PAIRINGS, cl_body := None,
      cl_endpoint_params := None, cl_socket := s\<rparr>)"
proof -
  let ?S = "plain_server HOMEKIT_ENDPOINT_PAIRINGS [6]"
  let ?c = "sample_client\<lparr>cl_encrypted := False, cl_endpoint := HOMEKIT_ENDPOINT_PAIRINGS, cl_body := Some [6]\<rparr>"
  note c = plain_server_client [of HOMEKIT_ENDPOINT_PAIRINGS "[6]"]
  have "\<exists>S'. homekit_server_on_message_complete sample_app sample_env ?S 0 = Inr S'"
    by (simp add: homekit_server_on_message_complete_def c unencrypted_route plain_404 write'_def modify_client_def
        sample_env_def idle_platform_def sample_client_def same_client [OF c])
  then obtain S' where S': "homekit_server_on_message_complete sample_app sample_env ?S 0 = Inr S'" by blast
  obtain s where "S' = set_client ?S 0 (?c\<lparr>cl_socket := s, cl_endpoint_params := None, cl_body := None\<rparr>)"
    using unencrypted_access [OF c _ _ S'] by auto
  then show ?thesis
    using S' same_client [OF c] by (intro exI [of _ S'] exI [of _ s]) simp
qed

text \<open>
  C37: Anyone who can connect can stop the device: a pair setup or pair verify request whose body has an item of
  length 0 makes its handler loop forever, before any authentication.
\<close>

theorem unauthenticated_hang:
  assumes "client S i = Inr c" and "\<not> cl_encrypted c"
    and "cl_endpoint c \<in> {HOMEKIT_ENDPOINT_PAIR_SETUP, HOMEKIT_ENDPOINT_PAIR_VERIFY}"
    and "cl_body c = Some (ty # 0 # rest)"
  shows "homekit_server_on_message_complete G E S i = Inl Hang"
proof -
  have "tlv_parse (ty # 0 # rest) = Inl Hang"
    using parse_empty_item [of "[]" ty rest] by simp
  then show ?thesis
    using assms by (auto simp: homekit_server_on_message_complete_def route_def homekit_server_on_pair_setup_def
        homekit_server_on_pair_verify_def set_step_def modify_client_def body_of_def)
qed

lemma unauthenticated_hang_witness:
  "homekit_server_on_message_complete sample_app sample_env (plain_server HOMEKIT_ENDPOINT_PAIR_VERIFY [6, 0]) 0 = Inl Hang"
  by (rule unauthenticated_hang [OF plain_server_client]) simp_all

text \<open>
  A frame that has not arrived in full is not kept back: its decryption reads nothing, and the buffer that was
  allocated for the text goes to the HTTP parser with what it held before.
\<close>

theorem incomplete_frame_parses_heap:
  assumes "cl_encrypted c" and "18 < n" and "n < 1042" and "2 \<le> length (cl_data c)"
    and "n < unat (cl_data c ! 0) + unat (cl_data c ! 1) * 256 + 18"
    and "heap_alloc W (n - 18) = Some heap" and "length heap = n - 18"
  shows "decrypt_data W c n = Inr (c\<lparr>cl_data_available := n\<rparr>, Some heap)"
  using assms by (simp add: decrypt_data_def decrypt_incomplete)

definition partial_client :: "(byte list, unit) client_context_t" where
  "partial_client = sample_client\<lparr>cl_data := [100, 0] @ replicate 1040 0\<rparr>"

lemma incomplete_frame_parses_heap_witness:
  "decrypt_data idle_platform partial_client 20 = Inr (partial_client\<lparr>cl_data_available := 20\<rparr>, Some [0, 0])"
proof (rule incomplete_frame_parses_heap)
  have r: "replicate 2 (0 :: byte) = [0, 0]" by (simp add: numeral_2_eq_2)
  show "heap_alloc idle_platform (20 - 18) = Some [0, 0]" by (simp add: idle_platform_def r)
qed (simp_all add: partial_client_def sample_client_def)

text \<open>
  C38: When the first client has gone away the main loop closes it, frees its context and then reads the \<open>next\<close>
  pointer of the freed context.
\<close>

theorem disconnect_uses_freed:
  assumes "sv_clients S = (i, c) # rest" and "ar_pending A = None" and "cl_socket c = Some s"
    and "sock_available (en_plat E) s = 0" and "\<not> sock_connected (en_plat E) s"
  shows "homekit_server_process G E H A S = Inl Dangling"
proof -
  have c: "client S i = Inr c" by (simp add: client_def assms(1))
  obtain S' where S': "homekit_server_close_client (set_client S i (c\<lparr>cl_disconnect := True\<rparr>)) i = Inr S'"
    using closes_found same_client [OF c] by blast
  have "client S' i = Inl Dangling" by (rule closed_dangling [OF S'])
  then have "i \<notin> set (map fst (sv_clients S'))"
    by (auto simp: client_def map_of_eq_None_iff split: option.splits)
  then have "next_client (sv_clients S') i = Inl Dangling" by (simp add: next_behind)
  then show ?thesis
    using disconnected_closes [OF c assms(3-5), of G H] S'
    by (simp add: homekit_server_process_def homekit_server_accept_client_def assms(1,2) first_client_def)
qed

definition gone_env :: "(nat \<Rightarrow> byte, byte list, byte list, byte list) hk_env" where
  "gone_env = sample_env\<lparr>en_plat := idle_platform\<lparr>sock_connected := (\<lambda>s. False)\<rparr>\<rparr>"

definition no_arrival :: "(byte list, unit) arrival" where
  "no_arrival = \<lparr>ar_pending = None, ar_junk = sample_client, ar_queue = empty_events,
     ar_memory = Some (replicate 4 (ev False)), ar_parser = ()\<rparr>"

lemma disconnect_uses_freed_witness:
  "homekit_server_process sample_app gone_env (\<lambda>p s. (p, [])) no_arrival (sample_server erased_ram) = Inl Dangling"
  by (rule disconnect_uses_freed [where s = "[]" and i = 0 and c = sample_client and rest = "[]"])
    (simp_all add: sample_server_def no_arrival_def gone_env_def idle_platform_def sample_client_def)

end
