(* ===== verification/Server_Setup.thy ===== *)
theory Server_Setup
  imports Server_Loop
begin

text \<open>
  Starting the server, \<open>homekit_server_init\<close> of \<open>src/arduino_homekit_server.cpp\<close>, with the operations on the
  configuration around it: the checks of the password and the setup id, the identifier and the key that are made
  up on the first start, \<open>homekit_is_paired\<close>, \<open>homekit_get_accessory_id\<close>, \<open>homekit_get_setup_uri\<close>,
  \<open>homekit_update_config_number\<close> and the TXT records of the service.
\<close>

section \<open>The configuration\<close>

record server_config =
  cfg_accessories :: "homekit_accessory list option"
  cfg_category :: nat
  cfg_config_number :: u16
  cfg_password :: "string option"
  cfg_password_callback :: bool
  cfg_setupId :: "string option"
  cfg_on_event :: bool

definition ISDIGIT :: "char \<Rightarrow> bool" where
  "ISDIGIT c \<longleftrightarrow> 48 \<le> (of_char c :: nat) \<and> (of_char c :: nat) \<le> 57"

definition ISBASE36 :: "char \<Rightarrow> bool" where
  "ISBASE36 c \<longleftrightarrow> ISDIGIT c \<or> 65 \<le> (of_char c :: nat) \<and> (of_char c :: nat) \<le> 90"

text \<open>\<open>strlen\<close> is looked at first, so that the characters are those before the terminator.\<close>

definition password_ok :: "string \<Rightarrow> bool" where
  "password_ok p \<longleftrightarrow> length p = 10 \<and> ISDIGIT (p ! 0) \<and> ISDIGIT (p ! 1) \<and> ISDIGIT (p ! 2) \<and> p ! 3 = CHR ''-'' \<and>
     ISDIGIT (p ! 4) \<and> ISDIGIT (p ! 5) \<and> p ! 6 = CHR ''-'' \<and> ISDIGIT (p ! 7) \<and> ISDIGIT (p ! 8) \<and> ISDIGIT (p ! 9)"

definition setupId_ok :: "string \<Rightarrow> bool" where
  "setupId_ok p \<longleftrightarrow> length p = 4 \<and> ISBASE36 (p ! 0) \<and> ISBASE36 (p ! 1) \<and> ISBASE36 (p ! 2) \<and> ISBASE36 (p ! 3)"

definition config_ok :: "server_config \<Rightarrow> bool" where
  "config_ok config \<longleftrightarrow> cfg_accessories config \<noteq> None \<and>
     (cfg_password config \<noteq> None \<or> cfg_password_callback config) \<and>
     (case cfg_password config of None \<Rightarrow> True | Some p \<Rightarrow> password_ok p) \<and>
     (case cfg_setupId config of None \<Rightarrow> True | Some p \<Rightarrow> setupId_ok p)"

section \<open>Identity\<close>

text \<open>\<open>%02X\<close> of a byte, and the six of an identifier with colons, into a buffer of 18 characters.\<close>

definition upper_hex :: "nat \<Rightarrow> char" where
  "upper_hex d = char_of (if d < 10 then 48 + d else 55 + d)"

definition hex_byte :: "byte \<Rightarrow> string" where
  "hex_byte b = [upper_hex (unat b div 16), upper_hex (unat b mod 16)]"

fun colon_separated :: "string list \<Rightarrow> string" where
  "colon_separated [] = []"
| "colon_separated [s] = s"
| "colon_separated (s # ss) = s @ CHR '':'' # colon_separated ss"

definition homekit_accessory_id_generate :: "byte list \<Rightarrow> byte list" where
  "homekit_accessory_id_generate buf =
     (let s = colon_separated (map hex_byte (take 6 buf)) in bytes (take ACCESSORY_ID_SIZE s) @ [0])"

text \<open>\<open>rng\<close> is the code and the block of the random number generator; the caller does not look at the result.\<close>

definition homekit_accessory_key_generate ::
  "('p3, 'p2) ed_prims \<Rightarrow> int \<times> byte list \<Rightarrow> int \<times> ed25519_key" where
  "homekit_accessory_key_generate P rng = crypto_ed25519_generate P rng"

definition homekit_is_paired :: "('w, 's, 'p3, 'p2) hk_env \<Rightarrow> 'w \<Rightarrow> bool" where
  "homekit_is_paired E w = admin_found E w homekit_storage_pairing_iterator_init (en_pairing E)"

definition homekit_get_accessory_id :: "'w board \<Rightarrow> 'w \<Rightarrow> byte list \<Rightarrow> nat \<Rightarrow> int \<times> byte list" where
  "homekit_get_accessory_id B w buffer n =
     (if n < ACCESSORY_ID_SIZE + 1 then (- 1, buffer)
      else (let (r, buffer) = homekit_storage_load_accessory_id B w buffer in
            if r \<noteq> 0 then (r, buffer) else (0, buffer)))"

section \<open>Starting\<close>

text \<open>
  What memory and the hardware give to the start: the block of the server object, six random bytes, the code and
  block for the key.
\<close>

record ('w, 's, 'p) boot =
  bt_junk :: "('w, 's, 'p) hk_server"
  bt_id_bytes :: "byte list"
  bt_key_bytes :: "int \<times> byte list"

definition server_new :: "('w, 's, 'p) hk_server \<Rightarrow> ('w, 's, 'p) hk_server" where
  "server_new junk = junk\<lparr>sv_nfds := 0, sv_paired := False, sv_pairing := False, sv_clients := []\<rparr>"

text \<open>The configuration the server points to, after the defaults have been filled in from the first accessory.\<close>

definition config_defaults :: "server_config \<Rightarrow> homekit_accessory list \<Rightarrow> fault + server_config" where
  "config_defaults config as =
     (case as of
        [] \<Rightarrow> if cfg_config_number config = 0 \<or> cfg_category config = 0 then Inl Null_deref else Inr config
      | a # _ \<Rightarrow>
          (let n = (if cfg_config_number config = 0 then a_config_number a else cfg_config_number config);
               n = (if n = 0 then 1 else n) in
           Inr (config\<lparr>cfg_config_number := n,
             cfg_category := (if cfg_category config = 0 then a_category a else cfg_category config)\<rparr>)))"

definition server_of_config ::
  "('w, 's, 'p) hk_server \<Rightarrow> 'w \<Rightarrow> homekit_accessory list \<Rightarrow> server_config \<Rightarrow> ('w, 's, 'p) hk_server" where
  "server_of_config S w as config =
     S\<lparr>sv_flash := w, sv_accessories := as, sv_category := cfg_category config,
       sv_config_number := cfg_config_number config, sv_password := cfg_password config,
       sv_setupId := cfg_setupId config, sv_on_event := cfg_on_event config\<rparr>"

text \<open>The identity from the flash, or a new one that is saved there; a formatted flash (result 1) is not formatted again.\<close>

definition load_identity ::
  "('w, 's, 'p3, 'p2) hk_env \<Rightarrow> ('w, 's, 'p) hk_server \<Rightarrow> fault + (int \<times> ('w, 's, 'p) hk_server)" where
  "load_identity E S =
     (let (r, w) = homekit_storage_init (en_board E) (sv_flash S); S = S\<lparr>sv_flash := w\<rparr> in
      if r \<noteq> 0 then Inr (r, S)
      else (let (r, accessory_id) = homekit_storage_load_accessory_id (en_board E) w (sv_accessory_id S);
                S = S\<lparr>sv_accessory_id := accessory_id\<rparr> in
        if r \<noteq> 0 then Inr (r, S)
        else bind_res (homekit_storage_load_accessory_key (en_board E) (en_prims E) w (sv_accessory_key S)) (\<lambda>(r, key).
          Inr (r, S\<lparr>sv_accessory_key := key\<rparr>))))"

definition new_identity ::
  "('w, 's, 'p3, 'p2) hk_env \<Rightarrow> ('w, 's, 'p) boot \<Rightarrow> int \<Rightarrow> ('w, 's, 'p) hk_server \<Rightarrow> fault + ('w, 's, 'p) hk_server" where
  "new_identity E K r S =
     (let w = (if r < 0 then snd (homekit_storage_reset (en_board E) (sv_flash S)) else sv_flash S);
          accessory_id = homekit_accessory_id_generate (bt_id_bytes K);
          (_, key) = homekit_accessory_key_generate (en_prims E) (bt_key_bytes K) in
      bind_res (homekit_storage_save_accessory_id (en_board E) w accessory_id) (\<lambda>w.
        Inr (S\<lparr>sv_flash := homekit_storage_save_accessory_key (en_board E) w key, sv_accessory_id := accessory_id,
               sv_accessory_key := key\<rparr>)))"

text \<open>
  \<open>None\<close>: the configuration is refused, or the chip restarts because the pairing context cannot be prepared.
\<close>

definition homekit_server_init ::
  "app \<Rightarrow> ('w, 's, 'p3, 'p2) hk_env \<Rightarrow> ('p \<Rightarrow> string \<Rightarrow> 'p \<times> http_call list) \<Rightarrow> ('s, 'p) arrival \<Rightarrow> ('w, 's, 'p) boot \<Rightarrow>
   'w \<Rightarrow> server_config \<Rightarrow> fault + ('w, 's, 'p) hk_server option" where
  "homekit_server_init G E H A K w config =
     (if \<not> config_ok config then Inr None
      else (let accessories = homekit_accessories_init (the (cfg_accessories config)) in
        bind_res (config_defaults config accessories) (\<lambda>config.
        bind_res (load_identity E (server_of_config (server_new (bt_junk K)) w accessories config)) (\<lambda>(r, S).
        bind_res (if r \<noteq> 0 then new_identity E K r S else Inr S) (\<lambda>S.
          let S = (if homekit_is_paired E (sv_flash S) then S\<lparr>sv_paired := True\<rparr> else S) in
          bind_res (if sv_paired S then Inr (True, S) else arduino_homekit_preinit E S) (\<lambda>(ok, S).
            if \<not> ok then Inr None
            else bind_res (homekit_server_process G E H A (HOMEKIT_NOTIFY_EVENT S HOMEKIT_EVENT_SERVER_INITIALIZED)) (\<lambda>S.
              Inr (Some S))))))))"

section \<open>The configuration number\<close>

definition homekit_update_config_number :: "bool \<Rightarrow> ('w, 's, 'p, 'srp) homekit_server_t option \<Rightarrow> ('w, 's, 'p, 'srp) homekit_server_t option"
  where
  "homekit_update_config_number mdns_started running =
     (if \<not> mdns_started then running
      else case running of
        None \<Rightarrow> None
      | Some S \<Rightarrow>
          (let c = sv_config_number S; c = (if c > 0 \<and> c < 65535 then c + 1 else 1) in
           Some (S\<lparr>sv_config_number := c\<rparr>)))"

section \<open>The setup URI\<close>

definition base36Table :: string where "base36Table = ''0123456789ABCDEFGHIJKLMNOPQRSTUVWXYZ''"

text \<open>The number of the digits of the password, in 32 bits.\<close>

fun setup_code :: "u32 \<Rightarrow> string \<Rightarrow> u32" where
  "setup_code n [] = n"
| "setup_code n (c # s) = setup_code (if ISDIGIT c then n * 10 + of_char c - 48 else n) s"

definition uri_payload :: "nat \<Rightarrow> u32 \<Rightarrow> u64" where
  "uri_payload category code =
     (let payload = push_bit 4 0; payload = push_bit 8 payload; payload = payload OR (of_nat category AND 0xff);
          payload = push_bit 4 payload; payload = payload OR 2; payload = push_bit 27 payload in
      payload OR ucast (code AND 0x7fffffff))"

text \<open>The nine digits, written from the last.\<close>

fun base36_digits :: "nat \<Rightarrow> u64 \<Rightarrow> string \<Rightarrow> string" where
  "base36_digits 0 payload s = s"
| "base36_digits (Suc n) payload s =
     base36_digits n (payload div 36) (base36Table ! unat (payload mod 36) # s)"

text \<open>\<open>buffer\<close> has \<open>buffer_size\<close> characters; the URI takes one for its terminator.\<close>

definition homekit_get_setup_uri :: "server_config \<Rightarrow> string \<Rightarrow> fault + (int \<times> string)" where
  "homekit_get_setup_uri config buffer =
     (if length buffer < 20 then Inr (- 1, buffer)
      else case cfg_password config of
        None \<Rightarrow> Inr (- 1, buffer)
      | Some password \<Rightarrow>
          (case cfg_setupId config of
             None \<Rightarrow> Inr (- 1, buffer)
           | Some setupId \<Rightarrow>
               (case cfg_accessories config of
                  None \<Rightarrow> Inl Null_deref
                | Some accessories \<Rightarrow>
                    (case homekit_accessory_by_id accessories 1 of
                       None \<Rightarrow> Inr (- 1, buffer)
                     | Some accessory \<Rightarrow>
                         (let payload = uri_payload (a_category accessory) (setup_code 0 password);
                              text = ''X-HM://'' @ base36_digits 9 payload [] @ setupId @ [CHR 0x00] in
                          if length buffer < max 21 (length text) then Inl Oob_write
                          else (let b = text @ drop (length text) buffer in Inr (0, b[20 := CHR 0x00])))))))"

section \<open>The service records\<close>

definition mdns_setup_hash :: "string \<Rightarrow> byte list \<Rightarrow> string" where
  "mdns_setup_hash setupId accessory_id =
     (let data = bytes setupId @ cstr 0 accessory_id;
          (shaHash, _) = wc_Sha512Final (wc_Sha512Update wc_InitSha512 data) in
      chars (base64_encode' (take 4 shaHash)))"

text \<open>
  The calls of the mDNS responder, with the texts they take; a name that is NULL is passed on.  The two records
  with changing values are asked for by the responder.
\<close>

datatype mdns_call =
    WiFi_hostname "string option"
  | MDNS_close
  | MDNS_begin "string option"
  | MDNS_addService "string option" string string nat
  | MDNS_addServiceTxt string "string option"
  | MDNS_announce
  | MDNS_update

definition HOMEKIT_CHARACTERISTIC_MODEL :: string where "HOMEKIT_CHARACTERISTIC_MODEL = ''21''"
definition HOMEKIT_CHARACTERISTIC_NAME :: string where "HOMEKIT_CHARACTERISTIC_NAME = ''23''"
definition HOMEKIT_SERVER_PORT :: nat where "HOMEKIT_SERVER_PORT = 5556"

definition mdns_service_calls :: "('w, 's, 'p, 'srp) homekit_server_t \<Rightarrow> string option \<Rightarrow> string option \<Rightarrow> mdns_call list" where
  "mdns_service_calls S name model =
     [WiFi_hostname name, MDNS_begin name, MDNS_addService name ''hap'' ''tcp'' HOMEKIT_SERVER_PORT,
      MDNS_addServiceTxt ''md'' model, MDNS_addServiceTxt ''pv'' (Some ''1.0''),
      MDNS_addServiceTxt ''id'' (Some (chars (cstr 0 (sv_accessory_id S)))), MDNS_addServiceTxt ''s#'' (Some ''1''),
      MDNS_addServiceTxt ''ff'' (Some ''0''), MDNS_addServiceTxt ''ci'' (Some (fmt_u (sv_category S)))]
     @ (case sv_setupId S of
          None \<Rightarrow> []
        | Some setupId \<Rightarrow> [MDNS_addServiceTxt ''sh'' (Some (mdns_setup_hash setupId (sv_accessory_id S)))])
     @ [MDNS_announce, MDNS_update]"

text \<open>\<open>online\<close> says that the WiFi is connected and has an address; the second result is \<open>homekit_mdns_started\<close>.\<close>

definition homekit_mdns_init ::
  "bool \<Rightarrow> bool \<Rightarrow> ('w, 's, 'p, 'srp) homekit_server_t \<Rightarrow> fault + (mdns_call list \<times> bool)" where
  "homekit_mdns_init online started S =
     (if \<not> online then Inr ([], started)
      else case sv_accessories S of
        [] \<Rightarrow> Inl Null_deref
      | accessory # _ \<Rightarrow>
          (case homekit_service_by_type accessory HOMEKIT_SERVICE_ACCESSORY_INFORMATION of
             None \<Rightarrow> Inr ([], started)
           | Some accessory_info \<Rightarrow>
               (case homekit_service_characteristic_by_type accessory_info HOMEKIT_CHARACTERISTIC_NAME of
                  None \<Rightarrow> Inr ([], started)
                | Some name \<Rightarrow>
                    (case homekit_service_characteristic_by_type accessory_info HOMEKIT_CHARACTERISTIC_MODEL of
                       None \<Rightarrow> Inr ([], started)
                     | Some model \<Rightarrow>
                         if started then Inr ([MDNS_close, MDNS_begin (v_string (c_value name)), MDNS_announce], started)
                         else Inr (mdns_service_calls S (v_string (c_value name)) (v_string (c_value model)), True)))))"

definition mdns_dynamic_txt :: "('w, 's, 'p, 'srp) homekit_server_t option \<Rightarrow> (string \<times> string) list" where
  "mdns_dynamic_txt running =
     (case running of
        None \<Rightarrow> []
      | Some S \<Rightarrow> [(''sf'', if sv_paired S then ''0'' else ''1''), (''c#'', fmt_u (unat (sv_config_number S)))])"

section \<open>Numbers in the setup URI\<close>

text \<open>The number a password stands for, and the value of base 36 digits.\<close>

definition password_number :: "string \<Rightarrow> nat" where
  "password_number p = foldl (\<lambda>n c. 10 * n + (of_char c - 48)) 0 (filter ISDIGIT p)"

definition base36_value :: "string \<Rightarrow> nat" where
  "base36_value s = foldl (\<lambda>n c. 36 * n + (if ISDIGIT c then of_char c - 48 else of_char c - 55)) 0 s"

lemma digit_bound: "ISDIGIT c \<Longrightarrow> 48 \<le> (of_char c :: nat) \<and> (of_char c :: nat) \<le> 57"
  by (simp add: ISDIGIT_def)

lemma unat_small: "k < 2 ^ LENGTH('a) \<Longrightarrow> unat (of_nat k :: 'a::len word) = k"
  by (simp add: unat_of_nat take_bit_nat_eq_self_iff)

lemma code_step:
  assumes "ISDIGIT c" and "10 * unat n + 9 < 2 ^ 32"
  shows "unat (n * 10 + of_char c - (48 :: u32)) = 10 * unat n + (of_char c - 48)"
proof -
  define d :: nat where "d = of_char c - 48"
  have d: "d \<le> 9" "(of_char c :: nat) = d + 48" using digit_bound [OF assms(1)] by (auto simp: d_def)
  have "(of_char c :: u32) = of_nat (of_char c :: nat)" by (rule of_nat_of_char [symmetric])
  then have "n * 10 + of_char c - 48 = of_nat (10 * unat n + d)" by (simp add: d(2))
  moreover have "10 * unat n + d < 2 ^ 32" using assms(2) d(1) by simp
  moreover have "unat (of_nat (10 * unat n + d) :: u32) = 10 * unat n + d"
    by (rule unat_small) (use assms(2) d(1) in simp)
  ultimately show ?thesis by (simp only: d_def)
qed

lemma setup_code_number:
  "(unat n + 1) * 10 ^ length (filter ISDIGIT p) \<le> 10 ^ 9 \<Longrightarrow>
    unat (setup_code n p) = foldl (\<lambda>n c. 10 * n + (of_char c - 48)) (unat n) (filter ISDIGIT p)"
proof (induction p arbitrary: n)
  case (Cons c p)
  show ?case
  proof (cases "ISDIGIT c")
    case True
    let ?n = "n * 10 + of_char c - 48 :: u32" and ?k = "10 ^ length (filter ISDIGIT p) :: nat"
    have le: "(unat n + 1) * 10 * ?k \<le> 10 ^ 9" using Cons.prems True by (simp add: algebra_simps)
    have "(unat n + 1) * 10 \<le> 10 ^ 9" by (rule order_trans [OF _ le]) simp
    then have "10 * unat n + 9 < 2 ^ 32" by simp
    then have n: "unat ?n = 10 * unat n + (of_char c - 48)" by (rule code_step [OF True])
    have "unat ?n + 1 \<le> (unat n + 1) * 10" using digit_bound [OF True] unfolding n by auto
    then have "(unat ?n + 1) * ?k \<le> (unat n + 1) * 10 * ?k" by (rule mult_le_mono1)
    then have "unat (setup_code ?n p) = foldl (\<lambda>n c. 10 * n + (of_char c - 48)) (unat ?n) (filter ISDIGIT p)"
      using le by (intro Cons.IH) linarith
    then show ?thesis using True by (simp add: n)
  qed (use Cons in simp)
qed simp

lemma foldl_digits_bound:
  "list_all ISDIGIT s \<Longrightarrow> foldl (\<lambda>n c. 10 * n + (of_char c - 48 :: nat)) n s < (n + 1) * 10 ^ length s"
proof (induction s arbitrary: n)
  case (Cons c s)
  have "foldl (\<lambda>n c. 10 * n + (of_char c - 48)) (10 * n + (of_char c - 48)) s < (10 * n + (of_char c - 48) + 1) * 10 ^ length s"
    using Cons by simp
  also have "\<dots> \<le> ((n + 1) * 10) * 10 ^ length s"
    using digit_bound [of c] Cons.prems by (intro mult_le_mono1) auto
  finally show ?case by (simp add: algebra_simps)
qed simp

lemma dash_no_digit [simp]: "\<not> ISDIGIT (CHR ''-'')"
  by (simp add: ISDIGIT_def)

lemma password_digits:
  assumes "password_ok p"
  shows "length (filter ISDIGIT p) = 8"
proof -
  obtain a b c d e f g h i j where p: "p = [a, b, c, d, e, f, g, h, i, j]"
    using assms by (auto simp: password_ok_def length_Suc_conv eval_nat_numeral)
  show ?thesis using assms by (auto simp: password_ok_def p)
qed

lemma password_code:
  assumes "password_ok p"
  shows "unat (setup_code 0 p) = password_number p" and "password_number p < 10 ^ 8"
proof -
  show "unat (setup_code 0 p) = password_number p"
    unfolding password_number_def by (subst setup_code_number) (simp_all add: password_digits [OF assms])
  have "list_all ISDIGIT (filter ISDIGIT p)" by (simp add: list_all_iff)
  from foldl_digits_bound [OF this, of 0] show "password_number p < 10 ^ 8"
    by (simp add: password_number_def password_digits [OF assms])
qed

lemma payload_number:
  assumes "category < 256" and "unat code < 2 ^ 27"
  shows "unat (uri_payload category code) = category * 2 ^ 31 + 2 * 2 ^ 27 + unat code"
proof -
  have mask: "(of_nat category :: u64) AND 255 = of_nat category"
  proof -
    have "(255 :: u64) = mask 8" by (simp add: mask_eq_exp_minus_1)
    moreover have "take_bit 8 (of_nat category :: u64) = of_nat category"
    proof -
      have "take_bit 8 category = category" using assms(1) by (simp add: take_bit_nat_eq_self_iff)
      then show ?thesis by (simp add: take_bit_of_nat)
    qed
    ultimately show ?thesis by (simp add: take_bit_eq_mask)
  qed
  have cat: "unat (of_nat category :: u64) = category"
    using assms(1) by (simp only: unat_of_nat) (simp add: take_bit_nat_eq_self_iff)
  have low: "code AND 0x7fffffff = code"
  proof -
    have "(0x7fffffff :: u32) = mask 31" by (simp add: mask_eq_exp_minus_1)
    moreover have "take_bit 31 code = code"
      using assms(2) by (simp add: word_unat_eq_iff unsigned_take_bit_eq take_bit_nat_eq_self_iff)
    ultimately show ?thesis by (simp add: take_bit_eq_mask)
  qed
  have flags: "unat ((2 :: u64) OR push_bit 4 (of_nat category)) = 2 + category * 2 ^ 4"
    by (subst unat_or_push) (use assms(1) in \<open>simp_all add: cat\<close>)
  define x :: u64 where "x = 2 OR push_bit 4 (of_nat category)"
  have x: "unat x = 2 + category * 2 ^ 4" using flags by (simp only: x_def)
  have "uri_payload category code = ucast code OR push_bit 27 x"
    by (simp only: uri_payload_def Let_def mask low or.commute x_def push_bit_of_0 or.left_neutral)
  also have "unat (ucast code OR push_bit 27 x) = unat (ucast code :: u64) + unat x * 2 ^ 27"
    by (rule unat_or_push) (use assms x in simp_all)
  finally show ?thesis by (simp add: x)
qed

lemma base36_char:
  assumes "d < 36"
  shows "(if ISDIGIT (base36Table ! d) then of_char (base36Table ! d) - 48 else of_char (base36Table ! d) - 55) = d"
proof -
  have "map (\<lambda>c. if ISDIGIT c then of_char c - 48 else of_char c - 55) base36Table = [0..<36]"
    by (simp add: base36Table_def ISDIGIT_def upt_rec)
  moreover have "length base36Table = 36" by (simp add: base36Table_def)
  ultimately have "map (\<lambda>c. if ISDIGIT c then of_char c - 48 else of_char c - 55) base36Table ! d = d"
    using assms by simp
  then show ?thesis using assms \<open>length base36Table = 36\<close> by (simp only: nth_map)
qed

lemma length_base36 [simp]: "length (base36_digits n x s) = n + length s"
  by (induction n arbitrary: x s) simp_all

lemma foldl_base36: "base36_value (base36_digits n x s) =
    foldl (\<lambda>n c. 36 * n + (if ISDIGIT c then of_char c - 48 else of_char c - 55)) (unat x mod 36 ^ n) s"
proof (induction n arbitrary: x s)
  case 0
  then show ?case by (simp add: base36_value_def)
next
  case (Suc n)
  have m: "unat (x mod 36) = unat x mod 36" "unat (x div 36) = unat x div 36"
    by (simp_all add: unat_mod unat_div)
  have "36 * (unat x div 36 mod 36 ^ n) + unat x mod 36 = unat x mod 36 ^ Suc n"
    by (simp add: mod_mult2_eq)
  then show ?case using base36_char [of "unat x mod 36"] by (simp add: Suc m del: power_Suc)
qed

lemma base36_round: "unat x < 36 ^ n \<Longrightarrow> base36_value (base36_digits n x []) = unat x"
  by (simp add: foldl_base36)

section \<open>Lemmas on the start\<close>

lemma config_number_range:
  "homekit_update_config_number True (Some S) = Some T \<Longrightarrow> sv_config_number T \<noteq> 0 \<and>
    (sv_config_number S \<noteq> 0 \<and> sv_config_number S < 65535 \<longrightarrow> sv_config_number T = sv_config_number S + 1)"
proof -
  assume T: "homekit_update_config_number True (Some S) = Some T"
  have "c + 1 \<noteq> 0" if "c < 65535" for c :: u16
    using that by (simp add: word_less_nat_alt word_unat_eq_iff unat_word_ariths)
  then show ?thesis using T by (auto simp: homekit_update_config_number_def Let_def word_gt_0 split: if_splits)
qed

text \<open>A start with an identity in the flash and no connection waiting: nothing is written.\<close>

lemma idle_process:
  "sv_clients S = [] \<Longrightarrow> ar_pending A = None \<Longrightarrow> homekit_server_process G E H A S = Inr S"
  by (simp add: homekit_server_process_def homekit_server_accept_client_def first_client_def
      homekit_server_process_notifications_def)

lemma init_with_identity:
  fixes S0 :: "('w, 's, 'p) hk_server"
  assumes "config_ok config" and "homekit_accessories_init (the (cfg_accessories config)) = a # as"
    and "homekit_storage_init (en_board E) w = (0, w)"
    and "homekit_storage_load_accessory_id (en_board E) w (sv_accessory_id (bt_junk K)) = (0, aid)"
    and "homekit_storage_load_accessory_key (en_board E) (en_prims E) w (sv_accessory_key (bt_junk K)) = Inr (0, key)"
    and "homekit_is_paired E w" and "ar_pending A = None"
  shows "\<exists>S. homekit_server_init G E H A K w config = Inr (Some S) \<and> sv_paired S \<and> sv_flash S = w \<and>
    sv_accessory_id S = aid \<and> sv_accessory_key S = key \<and> sv_accessories S = a # as \<and> sv_clients S = [] \<and> sv_nfds S = 0 \<and>
    sv_config_number S \<noteq> 0"
proof -
  obtain config' where config': "config_defaults config (a # as) = Inr config'" "cfg_config_number config' \<noteq> 0"
    by (simp add: config_defaults_def Let_def)
  define S where "S = server_of_config (server_new (bt_junk K)) w (a # as) config'"
  define T where "T = HOMEKIT_NOTIFY_EVENT (S\<lparr>sv_flash := w, sv_accessory_id := aid, sv_accessory_key := key, sv_paired := True\<rparr>)
    HOMEKIT_EVENT_SERVER_INITIALIZED"
  have S: "sv_clients S = []" "sv_nfds S = 0" "sv_accessories S = a # as" "sv_config_number S \<noteq> 0" "sv_flash S = w"
      "sv_accessory_id S = sv_accessory_id (bt_junk K)" "sv_accessory_key S = sv_accessory_key (bt_junk K)"
    using config'(2) by (simp_all add: S_def server_of_config_def server_new_def)
  have "load_identity E S = Inr (0, S\<lparr>sv_flash := w, sv_accessory_id := aid, sv_accessory_key := key\<rparr>)"
    using assms(3-5) by (simp add: load_identity_def S)
  then have "homekit_server_init G E H A K w config = bind_res (homekit_server_process G E H A T) (\<lambda>S. Inr (Some S))"
    using assms(1,2,6) config'(1) by (simp add: homekit_server_init_def S_def T_def)
  also have "homekit_server_process G E H A T = Inr T"
    by (rule idle_process) (use S assms(7) in \<open>simp_all add: T_def\<close>)
  finally show ?thesis using S by (simp add: T_def HOMEKIT_NOTIFY_EVENT_def)
qed

section \<open>Properties\<close>

text \<open>
  C33: The setup URI carries what it should: with a valid password, a valid setup id and a category below 256, the
  nine base 36 digits are the number with the category from bit 31 on, the flag for IP at bit 28 and the number of
  the password, which fits below bit 27; the setup id and a terminator follow.
\<close>

theorem setup_uri_roundtrip:
  assumes "cfg_password config = Some p" and "password_ok p" and "cfg_setupId config = Some setupId" and "setupId_ok setupId"
    and "cfg_accessories config = Some as" and "homekit_accessory_by_id as 1 = Some a" and "a_category a < 256"
    and "21 \<le> length buffer"
  shows "\<exists>digits. length digits = 9 \<and>
    homekit_get_setup_uri config buffer = Inr (0, ''X-HM://'' @ digits @ setupId @ [CHR 0x00] @ drop 21 buffer) \<and>
    base36_value digits = a_category a * 2 ^ 31 + 2 * 2 ^ 27 + password_number p \<and> password_number p < 2 ^ 27"
proof -
  let ?x = "uri_payload (a_category a) (setup_code 0 p)"
  have code: "unat (setup_code 0 p) = password_number p" "password_number p < 2 ^ 27"
    using password_code [OF assms(2)] by simp_all
  have x: "unat ?x = a_category a * 2 ^ 31 + 2 * 2 ^ 27 + password_number p"
    using payload_number [OF assms(7), of "setup_code 0 p"] code by simp
  have "unat ?x < 36 ^ 9" using x code(2) assms(7) by simp
  then have b36: "base36_value (base36_digits 9 ?x []) = unat ?x" by (rule base36_round)
  have len: "length setupId = 4" using assms(4) by (simp add: setupId_ok_def)
  let ?text = "''X-HM://'' @ base36_digits 9 ?x [] @ setupId @ [CHR 0x00]"
  have "(?text @ drop 21 buffer)[20 := CHR 0x00] = ?text @ drop 21 buffer"
    by (rule list_update_same_conv [THEN iffD2]) (use assms(8) len in \<open>simp_all add: nth_append\<close>)
  then have "homekit_get_setup_uri config buffer = Inr (0, ?text @ drop 21 buffer)"
    using assms len by (simp add: homekit_get_setup_uri_def Let_def)
  then show ?thesis using b36 x code(2) by (intro exI [of _ "base36_digits 9 ?x []"]) simp
qed

definition sample_config :: server_config where
  "sample_config = \<lparr>cfg_accessories = Some sample_tree, cfg_category = 0, cfg_config_number = 0,
     cfg_password = Some ''111-22-333'', cfg_password_callback = False, cfg_setupId = Some ''1QJ8'', cfg_on_event = False\<rparr>"

lemma sample_config_ok: "password_ok ''111-22-333''" "setupId_ok ''1QJ8''" "config_ok sample_config"
  by (simp_all add: config_ok_def sample_config_def password_ok_def setupId_ok_def ISBASE36_def ISDIGIT_def)

lemma setup_uri_roundtrip_witness:
  "\<exists>digits. homekit_get_setup_uri sample_config (replicate 22 (CHR ''x'')) =
      Inr (0, ''X-HM://'' @ digits @ ''1QJ8'' @ [CHR 0x00, CHR ''x'']) \<and>
    base36_value digits = 2 ^ 31 + 2 * 2 ^ 27 + password_number ''111-22-333''"
proof -
  have "replicate 1 (CHR ''x'') = [CHR ''x'']" by simp
  then show ?thesis
    using setup_uri_roundtrip [of sample_config "''111-22-333''" "''1QJ8''" sample_tree "hd sample_tree" "replicate 22 (CHR ''x'')"]
      sample_config_ok
    by (auto simp: sample_config_def sample_tree_def homekit_accessory_by_id_def)
qed

text \<open>
  C39: The check of the buffer is one short: a buffer of the 20 characters that are asked for is accepted, and the
  URI is written past its end.
\<close>

theorem setup_uri_overflow:
  assumes "cfg_password config \<noteq> None" and "cfg_setupId config \<noteq> None" and "cfg_accessories config = Some as"
    and "homekit_accessory_by_id as 1 \<noteq> None" and "length buffer = 20"
  shows "homekit_get_setup_uri config buffer = Inl Oob_write"
  using assms by (auto simp: homekit_get_setup_uri_def Let_def)

lemma setup_uri_overflow_witness: "homekit_get_setup_uri sample_config (replicate 20 (CHR ''x'')) = Inl Oob_write"
  by (rule setup_uri_overflow [of sample_config sample_tree])
    (simp_all add: sample_config_def sample_tree_def homekit_accessory_by_id_def)

text \<open>
  C32: A restart keeps the identity and the pairings: with an accessory id and a key in the flash and an
  administrator among its pairings, the server starts with that identity, knows that it is paired, has written
  nothing, and its configuration number is not 0.
\<close>

theorem server_starts_paired:
  assumes "nor_flash (en_board E) mem" and "unique_devices (en_board E) mem w"
    and "admin_in (found_pairing (en_board E) (en_prims E) w)"
    and "config_ok config" and "homekit_accessories_init (the (cfg_accessories config)) = a # as"
    and "homekit_storage_init (en_board E) w = (0, w)"
    and "homekit_storage_load_accessory_id (en_board E) w (sv_accessory_id (bt_junk K)) = (0, aid)"
    and "homekit_storage_load_accessory_key (en_board E) (en_prims E) w (sv_accessory_key (bt_junk K)) = Inr (0, key)"
    and "ar_pending A = None"
  shows "\<exists>S. homekit_server_init G E H A K w config = Inr (Some S) \<and> sv_paired S \<and> sv_flash S = w \<and>
    sv_accessory_id S = aid \<and> sv_accessory_key S = key \<and> sv_accessories S = a # as \<and> sv_clients S = [] \<and>
    sv_config_number S \<noteq> 0"
proof -
  have "homekit_is_paired E w"
    using nor_flash.admin_found_live [OF assms(1) refl] nor_flash.admin_live_stored [OF assms(1,2)]
      assms(3) [unfolded nor_flash.found_pairing_stored [OF assms(1)]]
    by (simp add: homekit_is_paired_def homekit_storage_pairing_iterator_init_def)
  then show ?thesis using init_with_identity [OF assms(4-8) _ assms(9), of G H] by blast
qed

text \<open>A flash with an identity, "00:00:00:00:00:00" and a key of zeros, and one administrator.\<close>

definition owned_ram :: "nat \<Rightarrow> byte" where
  "owned_ram x = (if x = 0x3FB000 \<or> x = 0x3FB080 then 0x48 else if x = 0x3FB001 \<or> x = 0x3FB081 then 0x41
     else if x = 0x3FB002 \<or> x = 0x3FB082 then 0x50 else if x = 0x3FB084 then 1
     else if 0x3FB004 \<le> x \<and> x < 0x3FB015 then (if (x - 0x3FB004) mod 3 = 2 then 0x3A else 0x30) else 0)"

definition owned_boot :: "(nat \<Rightarrow> byte, byte list, unit) boot" where
  "owned_boot = \<lparr>bt_junk = sample_server owned_ram, bt_id_bytes = replicate 6 0, bt_key_bytes = (0, replicate 32 0)\<rparr>"

lemma owned_magic: "i < 16 \<Longrightarrow> has_magic (slot ram_board ram_mem owned_ram i) \<longleftrightarrow> i = 0"
  by (auto simp: ram_magic owned_ram_def)

lemma owned_live: "live ram_board ram_mem owned_ram 0 = [pairing_at 0 (slot ram_board ram_mem owned_ram 0)]"
proof -
  have "filter (\<lambda>i. has_magic (slot ram_board ram_mem owned_ram i)) [0..<16] = [0]"
    using owned_magic by (simp add: upt_rec)
  then show ?thesis by (simp add: live_def)
qed

lemma owned_storage:
  "unique_devices ram_board ram_mem owned_ram" "admin_in (stored ram_board ram_mem owned_ram)"
  "homekit_storage_init ram_board owned_ram = (0, owned_ram)"
proof -
  show u: "unique_devices ram_board ram_mem owned_ram"
    using owned_magic by (auto simp: unique_devices_def live_for_def)
  have "slot ram_board ram_mem owned_ram 0 ! 4 = 1"
    by (simp add: slot_def region_def ram_mem_def ram_board_def owned_ram_def)
  then show "admin_in (stored ram_board ram_mem owned_ram)"
    using ram.admin_live_stored [OF u]
    by (simp add: owned_live pairing_at_def pairing_data_of_def is_admin_def pairing_permissions_admin_def)
  show "homekit_storage_init ram_board owned_ram = (0, owned_ram)"
    by (simp add: homekit_storage_init_def ram_board_def layout_defs upt_rec owned_ram_def magic1_def)
qed

lemma owned_identity:
  "\<exists>aid. homekit_storage_load_accessory_id ram_board owned_ram (replicate 17 0x41) = (0, aid)"
  "\<exists>key. homekit_storage_load_accessory_key ram_board toy_prims owned_ram sample_key = Inr (0, key)"
proof -
  show "\<exists>aid. homekit_storage_load_accessory_id ram_board owned_ram (replicate 17 0x41) = (0, aid)"
    by (simp add: homekit_storage_load_accessory_id_def ram_board_def layout_defs upt_rec owned_ram_def ishex_def)
  show "\<exists>key. homekit_storage_load_accessory_key ram_board toy_prims owned_ram sample_key = Inr (0, key)"
    by (simp add: homekit_storage_load_accessory_key_def ram_board_def layout_defs import_key_64)
qed

lemma owned_start:
  "config_ok sample_config" "\<exists>a as. homekit_accessories_init (the (cfg_accessories sample_config)) = a # as"
  "ar_pending no_arrival = None" "sv_accessory_id (bt_junk owned_boot) = replicate 17 0x41"
  "sv_accessory_key (bt_junk owned_boot) = sample_key"
  using sample_config_ok
  by (simp_all add: sample_config_def sample_tree_def homekit_accessories_init_def assign_id_def no_arrival_def
      owned_boot_def sample_server_def)

lemma server_starts_paired_witness:
  "\<exists>S. homekit_server_init sample_app sample_env (\<lambda>p s. (p, [])) no_arrival owned_boot owned_ram sample_config = Inr (Some S) \<and>
    sv_paired S \<and> sv_flash S = owned_ram"
proof -
  obtain aid key a bs where k: "homekit_storage_load_accessory_id ram_board owned_ram (sv_accessory_id (bt_junk owned_boot)) = (0, aid)"
      "homekit_storage_load_accessory_key ram_board toy_prims owned_ram (sv_accessory_key (bt_junk owned_boot)) = Inr (0, key)"
      "homekit_accessories_init (the (cfg_accessories sample_config)) = a # bs"
    using owned_identity owned_start(2) unfolding owned_start(4,5) by blast
  have "\<exists>S. homekit_server_init sample_app sample_env (\<lambda>p s. (p, [])) no_arrival owned_boot owned_ram sample_config = Inr (Some S) \<and>
    sv_paired S \<and> sv_flash S = owned_ram \<and> sv_accessory_id S = aid \<and> sv_accessory_key S = key \<and> sv_accessories S = a # bs \<and>
    sv_clients S = [] \<and> sv_config_number S \<noteq> 0"
  proof (rule server_starts_paired [where mem = ram_mem])
    show "admin_in (found_pairing (en_board sample_env) (en_prims sample_env) owned_ram)"
      unfolding sample_env_fields ram.found_pairing_stored by (rule owned_storage(2))
  qed (unfold sample_env_fields, (rule ram.nor_flash_axioms owned_storage owned_start k)+)
  then show ?thesis by blast
qed

end
