(* ===== verification/Server_Safety.thy ===== *)
theory Server_Safety
  imports Server_Setup
begin

text \<open>
  What every request and every round of the main loop of \<open>src/arduino_homekit_server.cpp\<close> keeps: the list of
  clients is consistent, every client has its queue and no callback is for a client that is gone.
\<close>

section \<open>What a computation that does not fault gives\<close>

definition yields :: "('a \<Rightarrow> bool) \<Rightarrow> fault + 'a \<Rightarrow> bool" where
  "yields Q r = (case r of Inl f \<Rightarrow> True | Inr x \<Rightarrow> Q x)"

named_theorems yields_intros "what computations give when they do not fault"

lemma yieldsI: "(\<And>x. r = Inr x \<Longrightarrow> Q x) \<Longrightarrow> yields Q r"
  by (simp add: yields_def split: sum.split)

lemma yieldsD: "yields Q r \<Longrightarrow> r = Inr x \<Longrightarrow> Q x"
  by (simp add: yields_def)

lemma yields_cases [yields_intros]:
  "Q x \<Longrightarrow> yields Q (Inr x)" "yields Q (Inl f)"
  "(b \<Longrightarrow> yields Q r) \<Longrightarrow> (\<not> b \<Longrightarrow> yields Q s) \<Longrightarrow> yields Q (if b then r else s)"
  "(a = None \<Longrightarrow> yields Q r) \<Longrightarrow> (\<And>z. a = Some z \<Longrightarrow> yields Q (j z)) \<Longrightarrow>
    yields Q (case a of None \<Rightarrow> r | Some z \<Rightarrow> j z)"
  "(\<And>u v. p = (u, v) \<Longrightarrow> yields Q (h u v)) \<Longrightarrow> yields Q (case p of (u, v) \<Rightarrow> h u v)"
  "yields Q (k d) \<Longrightarrow> yields Q (let c = d in k c)"
  by (auto simp: yields_def split: option.split prod.split)

lemma yields_bind: "yields R q \<Longrightarrow> (\<And>y. q = Inr y \<Longrightarrow> R y \<Longrightarrow> yields Q (g y)) \<Longrightarrow> yields Q (bind_res q g)"
  by (auto simp: yields_def bind_res_def split: sum.split)

lemma yields_after: "(\<And>y. q = Inr y \<Longrightarrow> yields Q (g y)) \<Longrightarrow> yields Q (bind_res q g)"
  by (auto simp: yields_def bind_res_def split: sum.split)

text \<open>Steps that do not change the server.\<close>

lemmas yields_pure [yields_intros] =
  yields_after [where q = "client S i" for S i] yields_after [where q = "tlv_parse d" for d]
  yields_after [where q = "tlv_add_integer_value t ty n v" for t ty n v] yields_after [where q = "tlv_format_alloc t" for t]
  yields_after [where q = "pairing_password E p" for E p]
  yields_after [where q = "homekit_storage_add_pairing B w d k m" for B w d k m]
  yields_after [where q = "homekit_storage_update_pairing B w d m" for B w d m]
  yields_after [where q = "store_new_admin E w d k" for E w d k]
  yields_after [where q = "list_items E w idx p b r" for E w idx p b r]
  yields_after [where q = "accessories_calls G as i" for G as i]
  yields_after [where q = "characteristics_calls G as i f ids" for G as i f ids]
  yields_after [where q = "events_calls G as i evs" for G as i evs]
  yields_after [where q = "collect h xs" for h xs] yields_after [where q = "json_calls calls j" for calls j]
  yields_after [where q = "query_params_parse s" for s]

section \<open>What reading keeps of a context\<close>

lemma decrypt_loop_counts:
  "decrypt_loop junk c data n nonce off doff sz out = Inr (r, d, out') \<Longrightarrow> \<exists>k. d = c\<lparr>cl_count_writes := k\<rparr>"
proof (induction junk c data n nonce off doff sz out arbitrary: out' rule: decrypt_loop.induct)
  case (1 junk c data n nonce off doff sz out)
  note IH = 1(1) and res = 1(2)
  have self: "\<exists>k. c = c\<lparr>cl_count_writes := k\<rparr>" by (rule exI [of _ "cl_count_writes c"]) simp
  show ?case
  proof (cases "off < n \<and> \<not> length data \<le> off + 1 \<and>
      \<not> unat (data ! off) + unat (data ! (off + 1)) * 256 + 18 > n - off")
    case False
    then have "decrypt_loop junk c data n nonce off doff sz out \<in> {Inl Oob_read, Inr (int off, c, out)}"
      by (subst decrypt_loop.simps) (auto simp: Let_def)
    then show ?thesis using res self by auto
  next
    case True
    then have t: "off < n" "\<not> length data \<le> off + 1"
        "\<not> unat (data ! off) + unat (data ! (off + 1)) * 256 + 18 > n - off" by blast+
    let ?m = "unat (data ! off) + unat (data ! (off + 1)) * 256"
    let ?nonce = "put_count nonce 4 (cl_count_writes c)"
    let ?c = "c\<lparr>cl_count_writes := cl_count_writes c + 1\<rparr>"
    obtain e len o2 where e: "crypto_chacha20poly1305_decrypt junk (cl_write_key ?c) ?nonce (take 2 (drop off data))
        (take (?m + 16) (drop (off + 2) data)) (Some (sz - doff)) = (e, len, o2)" by (metis prod_cases3)
    have ih: "\<exists>k. d = ?c\<lparr>cl_count_writes := k\<rparr>"
      if "e = 0" "\<not> length out < length o2" "decrypt_loop junk ?c data n ?nonce (off + ?m + 18) (doff + the len) sz
          (o2 @ drop (length o2) out) = Inr (r, d, out')"
      by (rule IH [OF _ _ refl _ refl refl refl e [symmetric] refl _ _ that(3)]) (use True that in auto)
    have "decrypt_loop junk c data n nonce off doff sz out =
      (if e \<noteq> 0 then Inr (- 1, ?c, out) else if length o2 > length out then Inl Oob_write
       else decrypt_loop junk ?c data n ?nonce (off + ?m + 18) (doff + the len) sz (o2 @ drop (length o2) out))"
      unfolding decrypt_loop.simps [of junk c data n nonce off doff sz out]
      by (simp only: t e Let_def if_True if_False prod.case simp_thms)
    note unfolded = res [unfolded this]
    have "d = ?c \<or> (\<exists>k. d = ?c\<lparr>cl_count_writes := k\<rparr>)"
    proof (cases "e = 0")
      case True
      then show ?thesis using unfolded ih by (cases "length out < length o2") simp_all
    qed (use unfolded in simp)
    then show ?thesis by fastforce
  qed
qed

lemma client_decrypt_counts:
  "client_decrypt' junk c data n out sz = Inr (r, d, out', sz') \<Longrightarrow> \<exists>k. d = c\<lparr>cl_count_writes := k\<rparr>"
proof -
  assume "client_decrypt' junk c data n out sz = Inr (r, d, out', sz')"
  moreover have "\<exists>k. c = c\<lparr>cl_count_writes := k\<rparr>" by (rule exI [of _ "cl_count_writes c"]) simp
  ultimately show ?thesis
    by (auto simp: client_decrypt'_def Let_def split: if_splits dest: decrypt_loop_counts)
qed

lemma read_data_queue: "read_data W s c = Inr (k, d) \<Longrightarrow> cl_event_queue d = cl_event_queue c"
  by (auto simp: read_data_def Let_def split: if_splits prod.splits)

lemma decrypt_data_queue:
  assumes "decrypt_data W c k = Inr (d, b)"
  shows "cl_event_queue d = cl_event_queue c"
proof -
  obtain r e out n r' e' out' n' where
      1: "client_decrypt' (junk_words W) c (cl_data c) k [] 0 = Inr (r, e, out, n)" and
      2: "client_decrypt' (junk_words W) e (cl_data e) k (case heap_alloc W n of None \<Rightarrow> [] | Some b \<Rightarrow> b) n = Inr (r', e', out', n')"
      and 3: "cl_event_queue d = cl_event_queue e'"
    using assms unfolding decrypt_data_def Let_def by (auto split: if_splits)
  then show ?thesis using client_decrypt_counts [OF 1] client_decrypt_counts [OF 2] by auto
qed

section \<open>What the requests keep\<close>

text \<open>
  A property of the server that depends on the clients with their event queues and on the tree: a change of a
  client that leaves its queue, closing, a request to write, popping events and the setter of identify keep it.
\<close>

locale kept_by_requests = kept_by_sending P for P :: "('w, 's, 'p, srp_t) homekit_server_t \<Rightarrow> bool" +
  fixes G :: app
  assumes kept_client: "P S \<Longrightarrow> client S i = Inr c \<Longrightarrow> cl_event_queue d = cl_event_queue c \<Longrightarrow> P (set_client S i d)"
    and kept_same: "P S \<Longrightarrow> sv_clients S' = sv_clients S \<Longrightarrow> sv_accessories S' = sv_accessories S \<Longrightarrow>
      sv_nfds S' = sv_nfds S \<Longrightarrow> sv_next S' = sv_next S \<Longrightarrow> P S'"
    and kept_disconnect: "P S \<Longrightarrow> P (disconnect_pairing pid S)"
    and kept_update_all: "P S \<Longrightarrow> client S i = Inr c \<Longrightarrow> update_all G S i js = Inr (statuses, S') \<Longrightarrow> P S'"
    and kept_setter: "P S \<Longrightarrow> run_setter G (sv_accessories S) p f v = Inr as \<Longrightarrow> P (S\<lparr>sv_accessories := as\<rparr>)"
    and kept_pop: "P S \<Longrightarrow> client S i = Inr c \<Longrightarrow> cl_event_queue c = Some q \<Longrightarrow> pop_events n q evs = Inr (evs', q') \<Longrightarrow>
      P (set_client S i (c\<lparr>cl_event_queue := Some q'\<rparr>))"
    and kept_accept: "P S \<Longrightarrow> length mem = HOMEKIT_EVENT_QUEUE_SIZE \<Longrightarrow>
      P (snd (homekit_server_accept_client junk qjunk (Some mem) parser pending S))"
begin

lemma kept_fields [yields_intros]:
  "P S \<Longrightarrow> P (S\<lparr>sv_flash := w\<rparr>)" "P S \<Longrightarrow> P (S\<lparr>sv_paired := b\<rparr>)" "P S \<Longrightarrow> P (S\<lparr>sv_saved_preinit := x\<rparr>)"
  "P S \<Longrightarrow> P (S\<lparr>sv_pairing := b\<rparr>)"
  "P S \<Longrightarrow> P (HOMEKIT_NOTIFY_EVENT S e)" "P S \<Longrightarrow> P (pairing_context_free S)" "P S \<Longrightarrow> P (set_pairing S x')"
  "P S \<Longrightarrow> P (disconnect_pairing pid S)" "P S \<Longrightarrow> P T \<Longrightarrow> P (if b then S else T)"
  by (auto intro: kept_same kept_disconnect simp: set_pairing_def pairing_context_free_def)

lemma yields_then [yields_intros]: "yields P q \<Longrightarrow> (\<And>S. q = Inr S \<Longrightarrow> P S \<Longrightarrow> yields P (g S)) \<Longrightarrow> yields P (bind_res q g)"
  by (rule yields_bind)

lemma kept_modify [yields_intros]:
  "P S \<Longrightarrow> (\<And>c. cl_event_queue (f c) = cl_event_queue c) \<Longrightarrow> yields P (modify_client S i f)"
  by (auto simp: modify_client_def intro!: yieldsI intro: kept_client)

lemma yields_send [yields_intros]:
  "P S \<Longrightarrow> yields P (write' W S i data)" "P S \<Longrightarrow> yields P (client_send W S i data)"
  "P S \<Longrightarrow> yields P (client_send_P W S i pgm)" "P S \<Longrightarrow> yields P (client_send_chunk W S i data)"
  "P S \<Longrightarrow> yields P (send_chunks W S i cs)" "P S \<Longrightarrow> yields P (send_tlv_response W S i values)"
  "P S \<Longrightarrow> yields P (send_tlv_error_response W S i state err)" "P S \<Longrightarrow> yields P (send_json_response W S i code payload)"
  "P S \<Longrightarrow> yields P (send_json_error_response W S i code status)" "P S \<Longrightarrow> yields P (homekit_server_close_client S i)"
  by (auto intro!: yieldsI intro: kept_responses kept_write kept_close)

lemma yields_short [yields_intros]:
  "P S \<Longrightarrow> yields P (send_204_response W S i)" "P S \<Longrightarrow> yields P (send_404_response W S i)"
  "P S \<Longrightarrow> yields P (send_state_2 E S i)" "P S \<Longrightarrow> yields P (set_step S i step)"
  "P S \<Longrightarrow> yields P (verify_failed E S i e)" "P S \<Longrightarrow> yields P (stream_json W S i calls)"
  unfolding send_204_response_def send_404_response_def send_state_2_def set_step_def verify_failed_def stream_json_def
  by (intro yields_intros; (assumption | simp))+

lemma yields_pairings: "P S \<Longrightarrow> yields P (homekit_server_on_pairings E S i data)"
  unfolding homekit_server_on_pairings_def on_add_pairing_def update_known_pairing_def add_new_pairing_def
    on_remove_pairing_def remove_known_pairing_def on_list_pairings_def
  by (intro yields_intros; assumption)

lemma preinit_keeps: "P S \<Longrightarrow> arduino_homekit_preinit E S = Inr (ok, T) \<Longrightarrow> P T"
  by (auto simp: arduino_homekit_preinit_def Let_def split: if_splits prod.splits intro: kept_fields)

lemma yields_preinit [yields_intros]:
  "P S \<Longrightarrow> (\<And>ok T. P T \<Longrightarrow> yields Q (g ok T)) \<Longrightarrow>
    yields Q (bind_res (arduino_homekit_preinit E S) (\<lambda>(ok, T). g ok T))"
  by (rule yields_after) (auto dest: preinit_keeps)

lemma yields_with_pairing [yields_intros]: "(\<And>p. yields Q (f p)) \<Longrightarrow> yields Q (with_pairing S f)"
  by (auto simp: with_pairing_def intro: yields_intros split: option.split)

lemma yields_answer_1 [yields_intros]: "P S \<Longrightarrow> yields P (pair_setup_answer_1 E S i)"
  unfolding pair_setup_answer_1_def by (intro yields_intros; assumption)

lemma yields_answer_5 [yields_intros]: "P S \<Longrightarrow> yields P (pair_setup_answer_5 E S i srp z)"
  unfolding pair_setup_answer_5_def by (intro yields_intros; assumption)

lemma yields_store [yields_intros]: "P S \<Longrightarrow> yields P (pair_setup_store E S i z m)"
  unfolding pair_setup_store_def by (intro yields_intros; assumption)

lemma yields_message_1 [yields_intros]: "P S \<Longrightarrow> yields P (pair_setup_1 E S i)"
  unfolding pair_setup_1_def by (intro yields_intros; assumption)

lemma yields_message_3 [yields_intros]: "P S \<Longrightarrow> yields P (pair_setup_3 E S i m)"
  unfolding pair_setup_3_def by (intro yields_intros; assumption)

lemma yields_message_5 [yields_intros]: "P S \<Longrightarrow> yields P (pair_setup_5 E S i m)"
  unfolding pair_setup_5_def by (intro yields_intros; assumption)

lemma yields_setup: "P S \<Longrightarrow> yields P (homekit_server_on_pair_setup E S i data)"
  unfolding homekit_server_on_pair_setup_def
  by (intro yields_intros; assumption)

lemma yields_secure [yields_intros]: "P S \<Longrightarrow> yields P (pair_verify_secure E S i v p)"
  unfolding pair_verify_secure_def by (intro yields_intros; (assumption | simp))

lemma yields_verify_1 [yields_intros]: "P S \<Longrightarrow> yields P (pair_verify_1 E S i m)"
  unfolding pair_verify_1_def pair_verify_answer_1_def by (intro yields_intros; (assumption | simp))

lemma yields_verify: "P S \<Longrightarrow> yields P (homekit_server_on_pair_verify E S i data)"
  unfolding homekit_server_on_pair_verify_def pair_verify_3_def pair_verify_device_def
  by (intro yields_intros; assumption)

lemma yields_identify: "P S \<Longrightarrow> yields P (homekit_server_on_identify G W S i)"
  unfolding homekit_server_on_identify_def
  by (intro yields_intros; (assumption | (rule yieldsI, auto intro: kept_setter)))

lemma yields_get: "P S \<Longrightarrow> yields P (homekit_server_on_get_accessories G W S i)"
  "P S \<Longrightarrow> yields P (homekit_server_on_get_characteristics G W S i)"
  unfolding homekit_server_on_get_accessories_def homekit_server_on_get_characteristics_def
  by (intro yields_intros; assumption)+

lemma yields_update:
  assumes "P S" and "client S i = Inr c"
  shows "yields P (homekit_server_on_update_characteristics G W S i data)"
proof -
  have all: "yields P (bind_res (update_all G S i js) k)" if "\<And>st T. P T \<Longrightarrow> yields P (k (st, T))" for js k
    by (rule yields_after) (use kept_update_all [OF assms] that in auto)
  have "yields P (case j of Some (cJSON_Array js) \<Rightarrow> bind_res (update_all G S i js) (k js) | _ \<Rightarrow> e)"
    if "\<And>js st T. P T \<Longrightarrow> yields P (k js (st, T))" and "yields P e" for j k e
    using all that by (auto split: option.split cjson.split)
  note this [yields_intros]
  show ?thesis
    using assms(1) unfolding homekit_server_on_update_characteristics_def Let_def
    by (intro yields_intros; (assumption | simp))
qed

lemmas yields_handlers = yields_setup yields_verify yields_identify yields_get yields_pairings yields_update

lemma yields_route:
  "P S \<Longrightarrow> client S i = Inr c \<Longrightarrow> yields P (route G E S i c)"
  unfolding route_def homekit_server_on_resource_def
  by (auto split: homekit_endpoint_t.split intro!: yields_handlers intro: yields_intros)

lemma yields_on_url [yields_intros]: "P S \<Longrightarrow> yields P (homekit_server_on_url m data n S i)"
  unfolding homekit_server_on_url_def by (rule yields_after, intro yields_intros; (assumption | simp))

lemma yields_on_body [yields_intros]: "P S \<Longrightarrow> yields P (homekit_server_on_body data S i)"
  unfolding homekit_server_on_body_def by (intro yields_intros; (assumption | simp))

lemma yields_complete [yields_intros]: "P S \<Longrightarrow> yields P (homekit_server_on_message_complete G E S i)"
  unfolding homekit_server_on_message_complete_def by (intro yields_intros yields_route; (assumption | simp))

lemma yields_callbacks [yields_intros]: "P S \<Longrightarrow> yields P (http_callbacks G E S i ks)"
proof (induction ks arbitrary: S)
  case (Cons k ks)
  have "yields P (case k of On_url m data n \<Rightarrow> homekit_server_on_url m data n S i
      | On_body data \<Rightarrow> homekit_server_on_body data S i
      | On_message_complete \<Rightarrow> homekit_server_on_message_complete G E S i)"
    using Cons.prems by (cases k) (simp_all add: yields_on_url yields_on_body yields_complete)
  then show ?case unfolding http_callbacks.simps by (rule yields_bind) (rule Cons.IH)
qed (simp add: yields_def)

lemma yields_execute [yields_intros]: "P S \<Longrightarrow> yields P (http_execute G E H S i payload)"
  unfolding http_execute_def by (intro yields_intros; (assumption | simp))

lemma yields_client_process:
  assumes "P S"
  shows "yields P (homekit_client_process G E H S i)"
proof -
  have read: "yields P (bind_res (read_data W s c) (\<lambda>(n, d). k n d))"
    if "\<And>n d. cl_event_queue d = cl_event_queue c \<Longrightarrow> yields P (k n d)" for W s c k
    by (rule yields_after) (auto intro!: that dest!: read_data_queue)
  have decrypt: "yields P (bind_res (decrypt_data W c n) (\<lambda>(d, p). k d p))"
    if "\<And>d p. cl_event_queue d = cl_event_queue c \<Longrightarrow> yields P (k d p)" for W c n k
    by (rule yields_after) (auto intro!: that dest!: decrypt_data_queue)
  note set = kept_client [OF assms]
  show ?thesis
    unfolding homekit_client_process_def
    apply (intro yields_intros read decrypt)
    apply (simp_all only: set_client_twice assms)
    apply (erule set, simp)+
    done
qed

lemma yields_client_loop:
  assumes "\<And>S i. P S \<Longrightarrow> yields P (f S i)"
  shows "P S \<Longrightarrow> yields P (client_loop f n S x)"
proof (induction n arbitrary: S x)
  case 0
  then show ?case by (cases x) (simp_all add: yields_def)
next
  case (Suc n)
  show ?case
  proof (cases x)
    case (Some i)
    have "yields P (bind_res (f S i) (\<lambda>S. bind_res (next_client (sv_clients S) i) (\<lambda>x. client_loop f n S x)))"
      by (rule yields_bind [OF assms [OF Suc.prems]], rule yields_after) (rule Suc.IH)
    then show ?thesis using Some by simp
  qed (simp add: yields_def Suc.prems)
qed

lemma yields_notifications: "P S \<Longrightarrow> yields P (homekit_server_process_notifications G W S)"
proof -
  have pop: "yields P (bind_res (pop_events n q evs) (\<lambda>(evs, q). k evs (set_client S i (c\<lparr>cl_event_queue := Some q\<rparr>))))"
    if "P S" and "client S i = Inr c" and "cl_event_queue c = Some q" and "\<And>T evs. P T \<Longrightarrow> yields P (k evs T)" for S i c n q evs k
    by (rule yields_after) (use kept_pop [OF that(1-3)] that(4) in auto)
  have "yields P (process_client_notifications G W S i)" if "P S" for S i
    unfolding process_client_notifications_def Let_def send_client_events_def
    using that by (intro yields_intros pop; assumption?)
  then show "P S \<Longrightarrow> yields P (homekit_server_process_notifications G W S)"
    unfolding homekit_server_process_notifications_def by (rule yields_client_loop)
qed

lemma yields_process:
  assumes "P S" and "ar_memory A = Some mem" and "length mem = HOMEKIT_EVENT_QUEUE_SIZE"
  shows "yields P (homekit_server_process G E H A S)"
proof -
  let ?T = "snd (homekit_server_accept_client (ar_junk A) (ar_queue A) (ar_memory A) (ar_parser A) (ar_pending A) S)"
  have "P ?T" using kept_accept [OF assms(1,3)] assms(2) by simp
  then have "yields P (client_loop (homekit_client_process G E H) (length (sv_clients ?T)) ?T (first_client ?T))"
    by (intro yields_client_loop yields_client_process)
  then have "yields P (bind_res (client_loop (homekit_client_process G E H) (length (sv_clients ?T)) ?T (first_client ?T))
      (\<lambda>S. homekit_server_process_notifications G (en_plat E) S))"
    by (rule yields_bind) (rule yields_notifications)
  then show ?thesis by (simp add: homekit_server_process_def split_def Let_def)
qed

lemma yields_round:
  assumes "P S" and "ar_memory A = Some mem" and "length mem = HOMEKIT_EVENT_QUEUE_SIZE"
  shows "yields (\<lambda>T. \<exists>S. T = Some S \<and> P S) (arduino_homekit_loop G E H A (Some S))"
proof (rule yieldsI)
  fix T assume "arduino_homekit_loop G E H A (Some S) = Inr T"
  then obtain b S' S'' where 1: "(if sv_paired S then Inr (True, S) else arduino_homekit_preinit E S) = Inr (b, S')"
      and 2: "homekit_server_process G E H A S' = Inr S''" and T: "T = Some S''"
    by (auto simp: arduino_homekit_loop_def)
  have "P S'" using 1 assms(1) preinit_keeps by (auto split: if_splits)
  then show "\<exists>S. T = Some S \<and> P S" using yieldsD [OF yields_process [OF _ assms(2,3)] 2] T by blast
qed

end

section \<open>The invariant of the server\<close>

definition server_ok :: "('w, 's, 'p, 'srp) homekit_server_t \<Rightarrow> bool" where
  "server_ok S \<longleftrightarrow> clients_ok S \<and> notify_ok S"

lemma tree_changes [simp]:
  "clients_ok (S\<lparr>sv_accessories := as\<rparr>) = clients_ok S" "callbacks_ok (S\<lparr>sv_accessories := as\<rparr>) bs = callbacks_ok S bs"
  by (simp_all add: clients_ok_def callbacks_ok_def)

lemma notify_ok_same:
  "sv_clients S' = sv_clients S \<Longrightarrow> sv_accessories S' = sv_accessories S \<Longrightarrow> notify_ok S' = notify_ok S"
  by (simp add: notify_ok_def client_ready_def client_def)

lemma notify_ok_disconnect:
  assumes "notify_ok S"
  shows "notify_ok (disconnect_pairing pid S)"
proof -
  have c: "client (disconnect_pairing pid S) x =
      (case client S x of Inl f \<Rightarrow> Inl f | Inr c \<Rightarrow> Inr (if cl_pairing_id c = pid then c\<lparr>cl_disconnect := True\<rparr> else c))" for x
    by (simp add: client_def disconnect_pairing_def map_of_map_snd split: option.split)
  have "client_ready (disconnect_pairing pid S) x = client_ready S x" for x
    unfolding client_ready_def c by (auto split: sum.split)
  moreover have "client (disconnect_pairing pid S) x = Inl Dangling \<longleftrightarrow> client S x = Inl Dangling" for x
    unfolding c by (auto split: sum.split)
  moreover have "sv_accessories (disconnect_pairing pid S) = sv_accessories S" by (simp add: disconnect_pairing_def)
  ultimately show ?thesis using assms by (simp add: notify_ok_iff callbacks_ok_def)
qed

text \<open>A request to write changes neither the list of clients nor its counters.\<close>

definition same_ids :: "('w, 's, 'p, 'srp) homekit_server_t \<Rightarrow> ('w, 's, 'p, 'srp) homekit_server_t \<Rightarrow> bool" where
  "same_ids S S' \<longleftrightarrow> map fst (sv_clients S') = map fst (sv_clients S) \<and> sv_nfds S' = sv_nfds S \<and> sv_next S' = sv_next S"

lemma same_ids_simps [simp]:
  "same_ids S S" "same_ids S (set_client T i c) = same_ids S T" "same_ids (set_client S i c) T = same_ids S T"
  "same_ids S (T\<lparr>sv_accessories := as\<rparr>) = same_ids S T" "same_ids (S\<lparr>sv_accessories := as\<rparr>) T = same_ids S T"
  by (simp_all add: same_ids_def)

lemma same_ids_trans: "same_ids S T \<Longrightarrow> same_ids T U \<Longrightarrow> same_ids S U"
  by (simp add: same_ids_def)

lemma same_ids_ok: "same_ids S S' \<Longrightarrow> clients_ok S \<Longrightarrow> clients_ok S'"
  unfolding clients_ok_def same_ids_def by (metis length_map)

lemma run_notify_ids: "run_notify S ch calls = Inr S' \<Longrightarrow> same_ids S S'"
proof (induction S ch calls rule: run_notify.induct)
  case (2 S ch f v x calls)
  then obtain T where T: "(if f = client_notify_callback then client_notify_characteristic S ch v x else Inr S) = Inr T"
      "run_notify T ch calls = Inr S'" by auto
  then have "same_ids S T"
    by (auto simp: client_notify_characteristic_def split: if_splits option.splits)
  then show ?case using 2(1) [OF T] same_ids_trans by blast
qed simp

lemma process_ids:
  assumes "process_characteristics_update G S i j = Inr (st, S')"
  shows "same_ids S S'"
proof -
  have change: "same_ids T U" if "notify_change T i p v = Inr U" for T U p v
    using that by (auto simp: notify_change_def modify_client_def split: if_splits dest: run_notify_ids)
  have events: "same_ids S (snd (update_events T i p j)) = same_ids S T" for S T :: "('a, 'b, 'c, 'd) homekit_server_t" and p
    by (auto simp: update_events_def Let_def split: option.split)
  show ?thesis
  proof (cases "addressed G (sv_accessories S) j")
    case None
    then show ?thesis using assms by (simp add: process_characteristics_update_def)
  next
    case (Some p)
    show ?thesis
    proof (cases "cJSON_GetObjectItem j ''value''")
      case None
      then have "S' = snd (update_events S i p j)" using assms Some by (simp add: process_characteristics_update_def)
      then show ?thesis using events by simp
    next
      case jv: (Some jv)
      obtain r where r: "checked_value G (get_ch (sv_accessories S) p) jv = Inr r"
        using assms by (auto simp: process_value [OF Some jv])
      show ?thesis
      proof (cases r)
        case (Inl e)
        then show ?thesis using assms by (simp add: process_value [OF Some jv] r)
      next
        case (Inr v)
        obtain as T where T: "notify_change (S\<lparr>sv_accessories := as\<rparr>) i p v = Inr T" and "S' = snd (update_events T i p j)"
          using assms by (auto simp: process_value [OF Some jv] r Inr)
        then show ?thesis using events change [OF T] by simp
      qed
    qed
  qed
qed

lemma update_all_ids: "update_all G S i js = Inr (sts, S') \<Longrightarrow> same_ids S S'"
proof (induction js arbitrary: S sts)
  case (Cons j js)
  obtain st T sts where "process_characteristics_update G S i j = Inr (st, T)" "update_all G T i js = Inr (sts, S')"
    using Cons.prems by auto
  then show ?case using process_ids Cons.IH same_ids_trans by blast
qed simp

lemma pop_events_inv:
  "pop_events n q evs = Inr (evs', q') \<Longrightarrow> ring_inv LIFO k q \<Longrightarrow> ring_inv LIFO k q'"
proof (induction n arbitrary: q evs)
  case (Suc n)
  show ?case
  proof (cases "q_items q")
    case Nil
    then show ?thesis using Suc.prems lifo.pop_empty [OF Suc.prems(2) Nil] by simp
  next
    case (Cons e es)
    then obtain q1 where "q_pop q = Inr (Some e, q1)" "ring_inv LIFO k q1"
      using lifo.pop_first [OF Suc.prems(2)] by blast
    then show ?thesis using Suc by auto
  qed
qed simp

text \<open>For an application whose setters leave the callbacks alone, the model of the code has the contract.\<close>

definition kept_ok :: "app \<Rightarrow> ('w, 's, 'p, 'srp) homekit_server_t \<Rightarrow> bool" where
  "kept_ok G S \<longleftrightarrow> (calm G \<longrightarrow> server_ok S)"

interpretation requests: kept_by_requests "kept_ok G" G for G
proof unfold_locales
  fix S S' :: "('a, 'b, 'c) hk_server" and i c d q q' n evs evs' p f v as js statuses pid mem junk qjunk parser pending
  assume ok: "kept_ok G S"
  show "kept_ok G (set_client S i d)" if "client S i = Inr c" "sent_to c d"
    using ok notify_ok_set [OF _ that(1)] sent_to_queue [OF that(2)] by (auto simp: kept_ok_def server_ok_def)
  show "kept_ok G S'" if "homekit_server_close_client S i = Inr S'"
    using ok that by (auto simp: kept_ok_def server_ok_def intro: clients_ok_close notify_ok_close)
  show "kept_ok G (set_client S i d)" if "client S i = Inr c" "cl_event_queue d = cl_event_queue c"
    using ok notify_ok_set [OF _ that(1)] that(2) by (auto simp: kept_ok_def server_ok_def)
  show "kept_ok G S'" if "sv_clients S' = sv_clients S" "sv_accessories S' = sv_accessories S" "sv_nfds S' = sv_nfds S"
      "sv_next S' = sv_next S"
    using ok that notify_ok_same [OF that(1,2)] same_ids_ok [of S S'] by (auto simp: kept_ok_def server_ok_def same_ids_def)
  show "kept_ok G (disconnect_pairing pid S)"
  proof -
    have "same_ids S (disconnect_pairing pid S)" unfolding same_ids_def fst_disconnect by (simp add: disconnect_pairing_def)
    then show ?thesis using ok same_ids_ok notify_ok_disconnect by (auto simp: kept_ok_def server_ok_def)
  qed
  show "kept_ok G S'" if "client S i = Inr c" "update_all G S i js = Inr (statuses, S')"
    using ok same_ids_ok [OF update_all_ids [OF that(2)]] update_all_keeps [OF that(2)] that(1)
    by (auto simp: kept_ok_def server_ok_def)
  show "kept_ok G (S\<lparr>sv_accessories := as\<rparr>)" if "run_setter G (sv_accessories S) p f v = Inr as"
    using ok callbacks_as_ok [OF run_setter_calm [OF _ that]]
    by (auto simp: kept_ok_def server_ok_def notify_ok_iff)
  show "kept_ok G (set_client S i (c\<lparr>cl_event_queue := Some q'\<rparr>))"
    if "client S i = Inr c" "cl_event_queue c = Some q" "pop_events n q evs = Inr (evs', q')"
  proof -
    have "ring_inv LIFO HOMEKIT_EVENT_QUEUE_SIZE q'" if "notify_ok S"
    proof -
      have "client_ready S i" using that \<open>client S i = Inr c\<close> by (simp add: notify_ok_iff)
      then have "ring_inv LIFO HOMEKIT_EVENT_QUEUE_SIZE q"
        using \<open>client S i = Inr c\<close> \<open>cl_event_queue c = Some q\<close> by (auto simp: client_ready_def)
      then show ?thesis by (rule pop_events_inv [OF \<open>pop_events n q evs = Inr (evs', q')\<close>])
    qed
    then show ?thesis using ok notify_ok_set [OF _ that(1)] by (auto simp: kept_ok_def server_ok_def)
  qed
  show "kept_ok G (snd (homekit_server_accept_client junk qjunk (Some mem) parser pending S))"
    if "length mem = HOMEKIT_EVENT_QUEUE_SIZE"
    using ok that by (auto simp: kept_ok_def server_ok_def intro: clients_ok_accept notify_ok_accept)
qed

section \<open>The states of the server\<close>

text \<open>
  The states between two calls of \<open>arduino_homekit_loop\<close>, from the one \<open>homekit_server_init\<close> leaves: in every
  round another connection may wait, and the flash, the sockets and the random numbers are what they are then.
  The memory of an event queue is there (an allocation that fails leaves a client without events).
\<close>

definition arrival_ok :: "('s, 'p) arrival \<Rightarrow> bool" where
  "arrival_ok A \<longleftrightarrow> (\<exists>mem. ar_memory A = Some mem \<and> length mem = HOMEKIT_EVENT_QUEUE_SIZE)"

definition fresh_tree :: "homekit_accessory list \<Rightarrow> bool" where
  "fresh_tree as \<longleftrightarrow> (\<forall>q. valid_path as q \<longrightarrow> c_callbacks (get_ch as q) = [])"

inductive reachable ::
  "app \<Rightarrow> ('p \<Rightarrow> string \<Rightarrow> 'p \<times> http_call list) \<Rightarrow> ('p3, 'p2) ed_prims \<Rightarrow> ('w, 's, 'p) hk_server \<Rightarrow> bool" for G H P where
  started: "en_prims E = P \<Longrightarrow> arrival_ok A \<Longrightarrow> fresh_tree (homekit_accessories_init (the (cfg_accessories config))) \<Longrightarrow>
    homekit_server_init G E H A K w config = Inr (Some S) \<Longrightarrow> reachable G H P S"
| round: "reachable G H P S \<Longrightarrow> en_prims E = P \<Longrightarrow> arrival_ok A \<Longrightarrow> arduino_homekit_loop G E H A (Some S) = Inr (Some T) \<Longrightarrow>
    reachable G H P T"

lemma server_ok_empty:
  "sv_clients S = [] \<Longrightarrow> sv_nfds S = 0 \<Longrightarrow> fresh_tree (sv_accessories S) \<Longrightarrow> server_ok S"
  by (simp add: server_ok_def clients_ok_def HOMEKIT_MAX_CLIENTS_def notify_ok_iff client_def callbacks_ok_def
      subscribed_def fresh_tree_def)

text \<open>What the start of the server leaves of the clients and the tree before its first round.\<close>

lemma identity_same:
  "load_identity E S = Inr (r, T) \<Longrightarrow> sv_clients T = sv_clients S \<and> sv_nfds T = sv_nfds S \<and> sv_accessories T = sv_accessories S"
  "new_identity E K r S = Inr T \<Longrightarrow> sv_clients T = sv_clients S \<and> sv_nfds T = sv_nfds S \<and> sv_accessories T = sv_accessories S"
  by (auto simp: load_identity_def new_identity_def Let_def split: prod.splits if_splits)

lemma init_process:
  assumes "homekit_server_init G E H A K w config = Inr (Some S)"
  shows "\<exists>T. homekit_server_process G E H A T = Inr S \<and> sv_clients T = [] \<and> sv_nfds T = 0 \<and>
    sv_accessories T = homekit_accessories_init (the (cfg_accessories config))"
proof -
  let ?as = "homekit_accessories_init (the (cfg_accessories config))"
  let ?blank = "\<lambda>T. sv_clients T = [] \<and> sv_nfds T = 0 \<and> sv_accessories T = ?as"
  obtain config' r S1 S2 S3 b where
      1: "load_identity E (server_of_config (server_new (bt_junk K)) w ?as config') = Inr (r, S1)"
      and 2: "(if r \<noteq> 0 then new_identity E K r S1 else Inr S1) = Inr S2"
      and 3: "(let S = (if homekit_is_paired E (sv_flash S2) then S2\<lparr>sv_paired := True\<rparr> else S2) in
        if sv_paired S then Inr (True, S) else arduino_homekit_preinit E S) = Inr (b, S3)"
      and 4: "homekit_server_process G E H A (HOMEKIT_NOTIFY_EVENT S3 HOMEKIT_EVENT_SERVER_INITIALIZED) = Inr S"
    using assms unfolding homekit_server_init_def Let_def by (auto split: if_splits)
  have "?blank (server_of_config (server_new (bt_junk K)) w ?as config')"
    by (simp add: server_of_config_def server_new_def)
  then have "?blank S2" using identity_same(1) [OF 1] identity_same(2) [of E K r S1 S2] 2 by (auto split: if_splits)
  then have "?blank S3"
    using 3 by (auto simp: arduino_homekit_preinit_def Let_def split: if_splits prod.splits)
  then show ?thesis using 4 by auto
qed

lemma reachable_server_ok: "reachable G H P S \<Longrightarrow> calm G \<Longrightarrow> server_ok S"
proof (induction rule: reachable.induct)
  case (started E A config K w S)
  obtain mem where mem: "ar_memory A = Some mem" "length mem = HOMEKIT_EVENT_QUEUE_SIZE"
    using started(2) by (auto simp: arrival_ok_def)
  obtain T where T: "homekit_server_process G E H A T = Inr S" "sv_clients T = []" "sv_nfds T = 0"
      "sv_accessories T = homekit_accessories_init (the (cfg_accessories config))"
    using init_process [OF started(4)] by blast
  have "kept_ok G T" using server_ok_empty [OF T(2,3)] started(3) T(4) by (simp add: kept_ok_def)
  then have "kept_ok G S" using yieldsD [OF requests.yields_process [OF _ mem] T(1)] by blast
  then show ?case using started(5) by (simp add: kept_ok_def)
next
  case (round S E A T)
  obtain mem where mem: "ar_memory A = Some mem" "length mem = HOMEKIT_EVENT_QUEUE_SIZE"
    using round(3) by (auto simp: arrival_ok_def)
  have "kept_ok G S" using round by (simp add: kept_ok_def)
  then show ?case using yieldsD [OF requests.yields_round [OF _ mem] round(4)] round.prems by (auto simp: kept_ok_def)
qed

section \<open>Properties\<close>


lemma calm_sample: "calm sample_app"
  by (simp add: calm_def sample_app_def callbacks_as_def)

lemma sample_fresh: "fresh_tree (homekit_accessories_init (the (cfg_accessories sample_config)))"
  by (auto simp: fresh_tree_def valid_path_def get_ch_def sample_config_def sample_tree_def homekit_accessories_init_def
      assign_id_def init_characteristic_def readable_ch_def Let_def less_Suc_eq split: prod.splits)

lemma owned_starts:
  "\<exists>S. homekit_server_init sample_app sample_env (\<lambda>p s. (p, [])) no_arrival owned_boot owned_ram sample_config = Inr (Some S)"
proof -
  obtain aid key a bs where k: "homekit_storage_load_accessory_id ram_board owned_ram (sv_accessory_id (bt_junk owned_boot)) = (0, aid)"
      "homekit_storage_load_accessory_key ram_board toy_prims owned_ram (sv_accessory_key (bt_junk owned_boot)) = Inr (0, key)"
      "homekit_accessories_init (the (cfg_accessories sample_config)) = a # bs"
    using owned_identity owned_start(2) unfolding owned_start(4,5) by blast
  have "homekit_is_paired sample_env owned_ram"
    using ram.admin_found_live [of sample_env 0] ram.admin_live_stored [OF owned_storage(1)] owned_storage(2)
    by (simp add: homekit_is_paired_def homekit_storage_pairing_iterator_init_def sample_env_fields)
  then show ?thesis
    using init_with_identity [OF owned_start(1) k(3), of sample_env owned_ram owned_boot aid key no_arrival sample_app "\<lambda>p s. (p, [])"]
      owned_storage(3) k(1,2) owned_start(3) unfolding sample_env_fields by blast
qed


end
