(* ===== verification/Http_Machine.thy ===== *)
theory Http_Machine
  imports Http_Parser
begin

text \<open>
  The rest of \<open>http_parser_execute\<close> of \<open>src/http_parser.c\<close>: the header lines, the body, the chunks, the dispatch
  on the state and the loop over the buffer, with the proof that it ends.
\<close>

section \<open>The name of a header\<close>

definition PROXY_CONNECTION :: string where "PROXY_CONNECTION = ''proxy-connection''"
definition CONNECTION :: string where "CONNECTION = ''connection''"
definition CONTENT_LENGTH :: string where "CONTENT_LENGTH = ''content-length''"
definition TRANSFER_ENCODING :: string where "TRANSFER_ENCODING = ''transfer-encoding''"
definition UPGRADE :: string where "UPGRADE = ''upgrade''"
definition CHUNKED :: string where "CHUNKED = ''chunked''"
definition KEEP_ALIVE :: string where "KEEP_ALIVE = ''keep-alive''"
definition CLOSE :: string where "CLOSE = ''close''"

definition in_header_field_start :: "exec \<Rightarrow> char \<Rightarrow> string \<Rightarrow> step" where
  "in_header_field_start x ch rest =
     (if ch = CR then (UPDATE_STATE s_headers_almost_done x, Next rest)
      else if ch = LF then (UPDATE_STATE s_headers_almost_done x, Reexecute ch rest)
      else (let c = TOKEN ch in
        if c = NUL then fail HPE_INVALID_HEADER_TOKEN x (ch # rest)
        else (let x = UPDATE_STATE s_header_field ((MARK on_header_field (ch # rest) x)\<lparr>hp_index := 0\<rparr>) in
          (x\<lparr>hp_header_state :=
             (if c = CHR ''c'' then h_C
              else if c = CHR ''p'' then h_matching_proxy_connection
              else if c = CHR ''t'' then h_matching_transfer_encoding
              else if c = CHR ''u'' then h_matching_upgrade
              else h_general)\<rparr>, Next rest))))"

text \<open>
  One more character of a word that is being matched: the next state of the header is \<open>no\<close> when it does not fit
  and \<open>yes\<close> with the last one.
\<close>

definition match_word :: "string \<Rightarrow> 7 word \<Rightarrow> char \<Rightarrow> header_states \<Rightarrow> header_states \<Rightarrow> header_states \<Rightarrow> header_states" where
  "match_word word i c no yes h =
     (if unat i > length word \<or> c \<noteq> (word @ [NUL]) ! unat i then no
      else if unat i = length word - 1 then yes
      else h)"

text \<open>The inner \<open>switch\<close> of \<open>s_header_field\<close>; \<open>None\<close> is the assertion on an unknown state.\<close>

definition field_char :: "exec \<Rightarrow> char \<Rightarrow> char \<Rightarrow> exec option" where
  "field_char x ch c =
     (let h = hp_header_state x; i = hp_index x + 1;
          advance = (\<lambda>h. Some (x\<lparr>hp_index := i, hp_header_state := h\<rparr>)) in
      case h of
        h_general \<Rightarrow> Some x
      | h_C \<Rightarrow> advance (if c = CHR ''o'' then h_CO else h_general)
      | h_CO \<Rightarrow> advance (if c = CHR ''n'' then h_CON else h_general)
      | h_CON \<Rightarrow> advance (if c = CHR ''n'' then h_matching_connection
          else if c = CHR ''t'' then h_matching_content_length else h_general)
      | h_matching_connection \<Rightarrow> advance (match_word CONNECTION i c h_general h_connection h)
      | h_matching_proxy_connection \<Rightarrow> advance (match_word PROXY_CONNECTION i c h_general h_connection h)
      | h_matching_content_length \<Rightarrow> advance (match_word CONTENT_LENGTH i c h_general h_content_length h)
      | h_matching_transfer_encoding \<Rightarrow> advance (match_word TRANSFER_ENCODING i c h_general h_transfer_encoding h)
      | h_matching_upgrade \<Rightarrow> advance (match_word UPGRADE i c h_general h_upgrade h)
      | h_connection \<Rightarrow> Some (if ch \<noteq> SP then x\<lparr>hp_header_state := h_general\<rparr> else x)
      | h_content_length \<Rightarrow> Some (if ch \<noteq> SP then x\<lparr>hp_header_state := h_general\<rparr> else x)
      | h_transfer_encoding \<Rightarrow> Some (if ch \<noteq> SP then x\<lparr>hp_header_state := h_general\<rparr> else x)
      | h_upgrade \<Rightarrow> Some (if ch \<noteq> SP then x\<lparr>hp_header_state := h_general\<rparr> else x)
      | _ \<Rightarrow> None)"

text \<open>The inner loop, which stops at the end of the buffer or at a character that is not of a name.\<close>

fun field_loop :: "exec \<Rightarrow> string \<Rightarrow> (exec \<times> string) option" where
  "field_loop x [] = Some (x, [])"
| "field_loop x (ch # rest) =
     (let c = TOKEN ch in
      if c = NUL then Some (x, ch # rest)
      else (case field_char x ch c of None \<Rightarrow> None | Some x \<Rightarrow> field_loop x rest))"

definition in_header_field :: "http_parser_settings \<Rightarrow> exec \<Rightarrow> char \<Rightarrow> string \<Rightarrow> step" where
  "in_header_field S x ch rest =
     (case field_loop x (ch # rest) of
        None \<Rightarrow> (x, Assert_failed)
      | Some (x, p) \<Rightarrow>
          COUNT_HEADER_SIZE (length (ch # rest) - length p) p x (\<lambda>x.
            case p of
              [] \<Rightarrow> (x, Next [])
            | ch # rest \<Rightarrow>
                if ch = CHR '':'' then
                  CALLBACK_DATA S on_header_field (ch # rest) rest (UPDATE_STATE s_header_value_discard_ws x) (\<lambda>x. (x, Next rest))
                else fail HPE_INVALID_HEADER_TOKEN x (ch # rest)))"

section \<open>The value of a header\<close>

definition in_header_value_start :: "exec \<Rightarrow> char \<Rightarrow> string \<Rightarrow> step" where
  "in_header_value_start x ch rest =
     (let x = UPDATE_STATE s_header_value ((MARK on_header_value (ch # rest) x)\<lparr>hp_index := 0\<rparr>);
          c = LOWER ch; h = (\<lambda>h. (x\<lparr>hp_header_state := h\<rparr>, Next rest)) in
      case hp_header_state x of
        h_upgrade \<Rightarrow> (x\<lparr>hp_flags := hp_flags x OR F_UPGRADE, hp_header_state := h_general\<rparr>, Next rest)
      | h_transfer_encoding \<Rightarrow> h (if c = CHR ''c'' then h_matching_transfer_encoding_chunked else h_general)
      | h_content_length \<Rightarrow>
          if \<not> IS_NUM ch then fail HPE_INVALID_CONTENT_LENGTH x (ch # rest)
          else if hp_flags x AND F_CONTENTLENGTH \<noteq> 0 then fail HPE_UNEXPECTED_CONTENT_LENGTH x (ch # rest)
          else (x\<lparr>hp_flags := hp_flags x OR F_CONTENTLENGTH,
            hp_content_length := of_nat (ord ch - ord CHR ''0'')\<rparr>, Next rest)
      | h_connection \<Rightarrow>
          h (if c = CHR ''k'' then h_matching_connection_keep_alive
             else if c = CHR ''c'' then h_matching_connection_close
             else if c = CHR ''u'' then h_matching_connection_upgrade
             else h_matching_connection_token)
      | h_matching_connection_token_start \<Rightarrow> (x, Next rest)
      | _ \<Rightarrow> h h_general)"

definition in_header_value_discard_ws :: "exec \<Rightarrow> char \<Rightarrow> string \<Rightarrow> step" where
  "in_header_value_discard_ws x ch rest =
     (if ch = SP \<or> ch = TAB then (x, Next rest)
      else if ch = CR then (UPDATE_STATE s_header_value_discard_ws_almost_done x, Next rest)
      else if ch = LF then (UPDATE_STATE s_header_value_discard_lws x, Next rest)
      else in_header_value_start x ch rest)"

fun memchr :: "string \<Rightarrow> char \<Rightarrow> string option" where
  "memchr [] c = None"
| "memchr (d # p) c = (if d = c then Some (d # p) else memchr p c)"

text \<open>
  Where the value of a header of no interest ends: the first CR or LF, looked for in at most
  \<open>HTTP_MAX_HEADER_SIZE\<close> bytes, or the end of the buffer.  A position is the number of bytes from here.
\<close>

definition skip_value :: "string \<Rightarrow> string" where
  "skip_value p =
     (let limit = min (length p) HTTP_MAX_HEADER_SIZE; area = take limit p;
          offset = (\<lambda>q. limit - length q) in
      case memchr area CR of
        Some p_cr \<Rightarrow>
          (case memchr area LF of
             Some p_lf \<Rightarrow> if offset p_cr \<ge> offset p_lf then drop (offset p_lf) p else drop (offset p_cr) p
           | None \<Rightarrow> drop (offset p_cr) p)
      | None \<Rightarrow> (case memchr area LF of Some p_lf \<Rightarrow> drop (offset p_lf) p | None \<Rightarrow> []))"

text \<open>What a character of a value does to the local \<open>h_state\<close>: go on, \<open>goto error\<close> with a code, or an assertion.\<close>

datatype value_step = Go exec header_states | Bad http_errno | Never

definition value_char :: "exec \<Rightarrow> header_states \<Rightarrow> char \<Rightarrow> value_step" where
  "value_char x h ch =
     (let c = LOWER ch; i = hp_index x + 1; y = x\<lparr>hp_index := i\<rparr>;
          connected = (\<lambda>f. if ch = CHR '','' then Go (x\<lparr>hp_flags := hp_flags x OR f, hp_index := 0\<rparr>) h_matching_connection_token_start
            else if ch \<noteq> SP then Go x h_matching_connection_token else Go x h) in
      case h of
        h_connection \<Rightarrow> Never
      | h_transfer_encoding \<Rightarrow> Never
      | h_content_length \<Rightarrow>
          if ch = SP then Go x h
          else if \<not> IS_NUM ch then Bad HPE_INVALID_CONTENT_LENGTH
          else if (ULLONG_MAX - 10) div 10 < hp_content_length x then Bad HPE_INVALID_CONTENT_LENGTH
          else Go (x\<lparr>hp_content_length := hp_content_length x * 10 + of_nat (ord ch - ord CHR ''0'')\<rparr>) h
      | h_matching_transfer_encoding_chunked \<Rightarrow> Go y (match_word CHUNKED i c h_general h_transfer_encoding_chunked h)
      | h_matching_connection_token_start \<Rightarrow>
          if c = CHR ''k'' then Go x h_matching_connection_keep_alive
          else if c = CHR ''c'' then Go x h_matching_connection_close
          else if c = CHR ''u'' then Go x h_matching_connection_upgrade
          else if TOKEN c \<noteq> NUL then Go x h_matching_connection_token
          else if c = SP \<or> c = TAB then Go x h
          else Go x h_general
      | h_matching_connection_keep_alive \<Rightarrow>
          Go y (match_word KEEP_ALIVE i c h_matching_connection_token h_connection_keep_alive h)
      | h_matching_connection_close \<Rightarrow> Go y (match_word CLOSE i c h_matching_connection_token h_connection_close h)
      | h_matching_connection_upgrade \<Rightarrow> Go y (match_word UPGRADE i c h_matching_connection_token h_connection_upgrade h)
      | h_matching_connection_token \<Rightarrow>
          if ch = CHR '','' then Go (x\<lparr>hp_index := 0\<rparr>) h_matching_connection_token_start else Go x h
      | h_transfer_encoding_chunked \<Rightarrow> if ch \<noteq> SP then Go x h_general else Go x h
      | h_connection_keep_alive \<Rightarrow> connected F_CONNECTION_KEEP_ALIVE
      | h_connection_close \<Rightarrow> connected F_CONNECTION_CLOSE
      | h_connection_upgrade \<Rightarrow> connected F_CONNECTION_UPGRADE
      | _ \<Rightarrow> Go (UPDATE_STATE s_header_value x) h_general)"

lemma memchr_suffix: "memchr p c = Some q \<Longrightarrow> \<exists>r. p = r @ q \<and> c \<notin> set r \<and> (\<exists>q'. q = c # q')"
proof (induction p)
  case (Cons d p)
  show ?case
  proof (cases "d = c")
    case False
    then obtain r q' where "p = r @ q" "c \<notin> set r" "q = c # q'" using Cons by auto
    then show ?thesis using False by (intro exI [of _ "d # r"]) auto
  qed (use Cons.prems in auto)
qed simp

lemma skip_value_shorter:
  assumes "ch \<noteq> CR" and "ch \<noteq> LF"
  shows "length (skip_value (ch # p)) \<le> length p"
proof -
  let ?n = "min (length (ch # p)) HTTP_MAX_HEADER_SIZE"
  have area: "take ?n (ch # p) = ch # take (?n - 1) p" by (simp add: HTTP_MAX_HEADER_SIZE_def min_def take_Cons')
  have "length q < ?n" if "memchr (take ?n (ch # p)) c = Some q" "c = CR \<or> c = LF" for q c
  proof -
    have "memchr (take (?n - 1) p) c = Some q" using that assms area by auto
    then obtain r where "take (?n - 1) p = r @ q" using memchr_suffix by blast
    then have "length q \<le> ?n - 1" by (metis append_take_drop_id diff_le_self length_append length_take le_add2 min.cobounded2 order_trans)
    moreover have "0 < ?n" by (simp add: HTTP_MAX_HEADER_SIZE_def)
    ultimately show ?thesis by linarith
  qed
  then show ?thesis
    unfolding skip_value_def Let_def by (fastforce split: option.split)
qed

text \<open>The loop over the value from \<open>p\<close>; \<open>n\<close> is the number of bytes behind \<open>start\<close>.\<close>

function value_loop :: "http_parser_settings \<Rightarrow> exec \<Rightarrow> header_states \<Rightarrow> nat \<Rightarrow> string \<Rightarrow> step" where
  "value_loop S x h n [] =
     COUNT_HEADER_SIZE n [] (x\<lparr>hp_header_state := h\<rparr>) (\<lambda>x. (x, Next []))"
| "value_loop S x h n (ch # rest) =
     (if ch = CR then
        CALLBACK_DATA S on_header_value (ch # rest) rest ((UPDATE_STATE s_header_almost_done x)\<lparr>hp_header_state := h\<rparr>) (\<lambda>x.
          COUNT_HEADER_SIZE (n - length (ch # rest)) (ch # rest) (x\<lparr>hp_header_state := h\<rparr>) (\<lambda>x. (x, Next rest)))
      else if ch = LF then
        COUNT_HEADER_SIZE (n - length (ch # rest)) (ch # rest) (UPDATE_STATE s_header_almost_done x) (\<lambda>x.
          CALLBACK_DATA S on_header_value (ch # rest) (ch # rest) (x\<lparr>hp_header_state := h\<rparr>) (\<lambda>x. (x, Reexecute ch rest)))
      else if \<not> hp_lenient_http_headers x \<and> \<not> IS_HEADER_CHAR ch then fail HPE_INVALID_HEADER_TOKEN x (ch # rest)
      else if h = h_general then value_loop S x h n (skip_value (ch # rest))
      else (case value_char x h ch of
          Go x h \<Rightarrow> value_loop S x h n rest
        | Bad e \<Rightarrow> fail e (x\<lparr>hp_header_state := h\<rparr>) (ch # rest)
        | Never \<Rightarrow> (x, Assert_failed)))"
  by pat_completeness auto
termination
  by (relation "measure (\<lambda>(S, x, h, n, p). length p)") (use skip_value_shorter in \<open>auto simp: le_imp_less_Suc\<close>)

definition in_header_value :: "http_parser_settings \<Rightarrow> exec \<Rightarrow> char \<Rightarrow> string \<Rightarrow> step" where
  "in_header_value S x ch rest = value_loop S x (hp_header_state x) (length (ch # rest)) (ch # rest)"

definition in_header_almost_done :: "exec \<Rightarrow> char \<Rightarrow> string \<Rightarrow> step" where
  "in_header_almost_done x ch rest =
     (if ch \<noteq> LF then fail HPE_LF_EXPECTED x (ch # rest) else (UPDATE_STATE s_header_value_lws x, Next rest))"

text \<open>The flag of a header that is finished.\<close>

definition header_flags :: "exec \<Rightarrow> exec" where
  "header_flags x =
     (case hp_header_state x of
        h_connection_keep_alive \<Rightarrow> x\<lparr>hp_flags := hp_flags x OR F_CONNECTION_KEEP_ALIVE\<rparr>
      | h_connection_close \<Rightarrow> x\<lparr>hp_flags := hp_flags x OR F_CONNECTION_CLOSE\<rparr>
      | h_transfer_encoding_chunked \<Rightarrow> x\<lparr>hp_flags := hp_flags x OR F_CHUNKED\<rparr>
      | h_connection_upgrade \<Rightarrow> x\<lparr>hp_flags := hp_flags x OR F_CONNECTION_UPGRADE\<rparr>
      | _ \<Rightarrow> x)"

definition in_header_value_lws :: "exec \<Rightarrow> char \<Rightarrow> string \<Rightarrow> step" where
  "in_header_value_lws x ch rest =
     (if ch = SP \<or> ch = TAB then (UPDATE_STATE s_header_value_start x, Reexecute ch rest)
      else (UPDATE_STATE s_header_field_start (header_flags x), Reexecute ch rest))"

definition in_header_value_discard_lws :: "http_parser_settings \<Rightarrow> exec \<Rightarrow> char \<Rightarrow> string \<Rightarrow> step" where
  "in_header_value_discard_lws S x ch rest =
     (if ch = SP \<or> ch = TAB then (UPDATE_STATE s_header_value_discard_ws x, Next rest)
      else CALLBACK_DATA S on_header_value (ch # rest) (ch # rest)
        (UPDATE_STATE s_header_field_start (MARK on_header_value (ch # rest) (header_flags x)))
        (\<lambda>x. (x, Reexecute ch rest)))"

section \<open>The end of the headers\<close>

definition in_headers_almost_done :: "http_parser_settings \<Rightarrow> exec \<Rightarrow> char \<Rightarrow> string \<Rightarrow> step" where
  "in_headers_almost_done S x ch rest =
     STRICT_CHECK (ch \<noteq> LF) (ch # rest) x (\<lambda>x.
       if hp_flags x AND F_TRAILING \<noteq> 0 then
         CALLBACK_NOTIFY S on_chunk_complete (ch # rest) (UPDATE_STATE s_message_done x) (\<lambda>x. (x, Reexecute ch rest))
       else if hp_flags x AND F_CHUNKED \<noteq> 0 \<and> hp_flags x AND F_CONTENTLENGTH \<noteq> 0 then
         fail HPE_UNEXPECTED_CONTENT_LENGTH x (ch # rest)
       else (let x = UPDATE_STATE s_headers_done x;
                 x = x\<lparr>hp_upgrade :=
                   (hp_flags x AND (F_UPGRADE OR F_CONNECTION_UPGRADE) = F_UPGRADE OR F_CONNECTION_UPGRADE \<or>
                    hp_method x = HTTP_PARSER_METHOD_CONNECT)\<rparr> in
         case S on_headers_complete of
           None \<Rightarrow> if hp_errno x \<noteq> HPE_OK then (x, Return (ch # rest)) else (x, Reexecute ch rest)
         | Some r \<Rightarrow>
             (let x = x\<lparr>ex_calls := ex_calls x @ [Notify on_headers_complete]\<rparr> in
              if r \<notin> {0, 1, 2} then (x\<lparr>hp_errno := HPE_CB on_headers_complete\<rparr>, Return (ch # rest))
              else (let x = (if r = 2 then x\<lparr>hp_upgrade := True\<rparr> else x);
                        x = (if r = 0 then x else x\<lparr>hp_flags := hp_flags x OR F_SKIPBODY\<rparr>) in
                if hp_errno x \<noteq> HPE_OK then (x, Return (ch # rest)) else (x, Reexecute ch rest)))))"

definition in_headers_done :: "http_parser_settings \<Rightarrow> exec \<Rightarrow> char \<Rightarrow> string \<Rightarrow> step" where
  "in_headers_done S x ch rest =
     STRICT_CHECK (ch \<noteq> LF) (ch # rest) x (\<lambda>x.
       let x = x\<lparr>hp_nread := 0\<rparr>;
           hasBody = (hp_flags x AND F_CHUNKED \<noteq> 0 \<or> hp_content_length x > 0 \<and> hp_content_length x \<noteq> ULLONG_MAX);
           complete = (\<lambda>k. CALLBACK_NOTIFY S on_message_complete rest (UPDATE_STATE (NEW_MESSAGE x) x) (\<lambda>x. (x, k))) in
       if hp_upgrade x \<and> (hp_method x = HTTP_PARSER_METHOD_CONNECT \<or> hp_flags x AND F_SKIPBODY \<noteq> 0 \<or> \<not> hasBody) then
         complete (Return rest)
       else if hp_flags x AND F_SKIPBODY \<noteq> 0 then complete (Next rest)
       else if hp_flags x AND F_CHUNKED \<noteq> 0 then (UPDATE_STATE s_chunk_size_start x, Next rest)
       else if hp_content_length x = 0 then complete (Next rest)
       else if hp_content_length x \<noteq> ULLONG_MAX then (UPDATE_STATE s_body_identity x, Next rest)
       else if \<not> http_message_needs_eof x then complete (Next rest)
       else (UPDATE_STATE s_body_identity_eof x, Next rest))"

section \<open>The body\<close>

definition to_read :: "exec \<Rightarrow> string \<Rightarrow> nat" where
  "to_read x p = min (unat (hp_content_length x)) (length p)"

definition in_body_identity :: "http_parser_settings \<Rightarrow> exec \<Rightarrow> char \<Rightarrow> string \<Rightarrow> step" where
  "in_body_identity S x ch rest =
     (let n = to_read x (ch # rest) in
      if hp_content_length x = 0 \<or> hp_content_length x = ULLONG_MAX then (x, Assert_failed)
      else (let x = MARK on_body (ch # rest) x;
                x = x\<lparr>hp_content_length := hp_content_length x - of_nat n\<rparr>; p = drop (n - 1) (ch # rest) in
        if hp_content_length x = 0 then
          CALLBACK_DATA S on_body (tl p) p (UPDATE_STATE s_message_done x) (\<lambda>x. (x, Reexecute ch (tl p)))
        else (x, Next (tl p))))"

definition in_body_identity_eof :: "exec \<Rightarrow> char \<Rightarrow> string \<Rightarrow> step" where
  "in_body_identity_eof x ch rest = (MARK on_body (ch # rest) x, Next [])"

definition in_message_done :: "http_parser_settings \<Rightarrow> exec \<Rightarrow> char \<Rightarrow> string \<Rightarrow> step" where
  "in_message_done S x ch rest =
     CALLBACK_NOTIFY S on_message_complete rest (UPDATE_STATE (NEW_MESSAGE x) x) (\<lambda>x.
       (x, if hp_upgrade x then Return rest else Next rest))"

definition in_chunk_size_start :: "exec \<Rightarrow> char \<Rightarrow> string \<Rightarrow> step" where
  "in_chunk_size_start x ch rest =
     (if hp_nread x \<noteq> 1 then (x, Assert_failed)
      else if hp_flags x AND F_CHUNKED = 0 then (x, Assert_failed)
      else (case unhex ch of
          None \<Rightarrow> fail HPE_INVALID_CHUNK_SIZE x (ch # rest)
        | Some n \<Rightarrow> (UPDATE_STATE s_chunk_size (x\<lparr>hp_content_length := of_nat n\<rparr>), Next rest)))"

definition in_chunk_size :: "exec \<Rightarrow> char \<Rightarrow> string \<Rightarrow> step" where
  "in_chunk_size x ch rest =
     (if hp_flags x AND F_CHUNKED = 0 then (x, Assert_failed)
      else if ch = CR then (UPDATE_STATE s_chunk_size_almost_done x, Next rest)
      else (case unhex ch of
          None \<Rightarrow>
            if ch = CHR '';'' \<or> ch = SP then (UPDATE_STATE s_chunk_parameters x, Next rest)
            else fail HPE_INVALID_CHUNK_SIZE x (ch # rest)
        | Some n \<Rightarrow>
            if (ULLONG_MAX - 16) div 16 < hp_content_length x then fail HPE_INVALID_CONTENT_LENGTH x (ch # rest)
            else (x\<lparr>hp_content_length := hp_content_length x * 16 + of_nat n\<rparr>, Next rest)))"

definition in_chunk_parameters :: "exec \<Rightarrow> char \<Rightarrow> string \<Rightarrow> step" where
  "in_chunk_parameters x ch rest =
     (if hp_flags x AND F_CHUNKED = 0 then (x, Assert_failed)
      else if ch = CR then (UPDATE_STATE s_chunk_size_almost_done x, Next rest)
      else (x, Next rest))"

definition in_chunk_size_almost_done :: "http_parser_settings \<Rightarrow> exec \<Rightarrow> char \<Rightarrow> string \<Rightarrow> step" where
  "in_chunk_size_almost_done S x ch rest =
     (if hp_flags x AND F_CHUNKED = 0 then (x, Assert_failed)
      else STRICT_CHECK (ch \<noteq> LF) (ch # rest) x (\<lambda>x.
        let x = x\<lparr>hp_nread := 0\<rparr>;
            x = (if hp_content_length x = 0 then UPDATE_STATE s_header_field_start (x\<lparr>hp_flags := hp_flags x OR F_TRAILING\<rparr>)
                 else UPDATE_STATE s_chunk_data x) in
        CALLBACK_NOTIFY S on_chunk_header rest x (\<lambda>x. (x, Next rest))))"

definition in_chunk_data :: "exec \<Rightarrow> char \<Rightarrow> string \<Rightarrow> step" where
  "in_chunk_data x ch rest =
     (let n = to_read x (ch # rest) in
      if hp_flags x AND F_CHUNKED = 0 then (x, Assert_failed)
      else if hp_content_length x = 0 \<or> hp_content_length x = ULLONG_MAX then (x, Assert_failed)
      else (let x = MARK on_body (ch # rest) x;
                x = x\<lparr>hp_content_length := hp_content_length x - of_nat n\<rparr> in
        (if hp_content_length x = 0 then UPDATE_STATE s_chunk_data_almost_done x else x, Next (drop n (ch # rest)))))"

definition in_chunk_data_almost_done :: "http_parser_settings \<Rightarrow> exec \<Rightarrow> char \<Rightarrow> string \<Rightarrow> step" where
  "in_chunk_data_almost_done S x ch rest =
     (if hp_flags x AND F_CHUNKED = 0 then (x, Assert_failed)
      else if hp_content_length x \<noteq> 0 then (x, Assert_failed)
      else STRICT_CHECK (ch \<noteq> CR) (ch # rest) x (\<lambda>x.
        CALLBACK_DATA S on_body (ch # rest) rest (UPDATE_STATE s_chunk_data_done x) (\<lambda>x. (x, Next rest))))"

definition in_chunk_data_done :: "http_parser_settings \<Rightarrow> exec \<Rightarrow> char \<Rightarrow> string \<Rightarrow> step" where
  "in_chunk_data_done S x ch rest =
     (if hp_flags x AND F_CHUNKED = 0 then (x, Assert_failed)
      else STRICT_CHECK (ch \<noteq> LF) (ch # rest) x (\<lambda>x.
        CALLBACK_NOTIFY S on_chunk_complete rest (UPDATE_STATE s_chunk_size_start (x\<lparr>hp_nread := 0\<rparr>)) (\<lambda>x. (x, Next rest))))"

section \<open>The switch and the loop\<close>

definition in_state :: "http_parser_settings \<Rightarrow> exec \<Rightarrow> char \<Rightarrow> string \<Rightarrow> step" where
  "in_state S x ch rest =
     (case hp_state x of
        s_dead \<Rightarrow> in_dead x ch rest
      | s_start_req_or_res \<Rightarrow> in_start_req_or_res S x ch rest
      | s_res_or_resp_H \<Rightarrow> in_res_or_resp_H x ch rest
      | s_start_res \<Rightarrow> in_start_res S x ch rest
      | s_res_H \<Rightarrow> in_literal (CHR ''T'') s_res_HT x ch rest
      | s_res_HT \<Rightarrow> in_literal (CHR ''T'') s_res_HTT x ch rest
      | s_res_HTT \<Rightarrow> in_literal (CHR ''P'') s_res_HTTP x ch rest
      | s_res_HTTP \<Rightarrow> in_literal (CHR ''/'') s_res_first_http_major x ch rest
      | s_res_first_http_major \<Rightarrow> in_res_first_http_major x ch rest
      | s_res_http_major \<Rightarrow> in_res_http_major x ch rest
      | s_res_first_http_minor \<Rightarrow> in_res_first_http_minor x ch rest
      | s_res_http_minor \<Rightarrow> in_res_http_minor x ch rest
      | s_res_first_status_code \<Rightarrow> in_res_first_status_code x ch rest
      | s_res_status_code \<Rightarrow> in_res_status_code x ch rest
      | s_res_status_start \<Rightarrow> in_res_status_start x ch rest
      | s_res_status \<Rightarrow> in_res_status S x ch rest
      | s_res_line_almost_done \<Rightarrow> in_literal LF s_header_field_start x ch rest
      | s_start_req \<Rightarrow> in_start_req S x ch rest
      | s_req_method \<Rightarrow> in_req_method x ch rest
      | s_req_spaces_before_url \<Rightarrow> in_req_spaces_before_url x ch rest
      | s_req_schema \<Rightarrow> in_req_schema x ch rest
      | s_req_schema_slash \<Rightarrow> in_req_schema x ch rest
      | s_req_schema_slash_slash \<Rightarrow> in_req_schema x ch rest
      | s_req_server_start \<Rightarrow> in_req_schema x ch rest
      | s_req_server \<Rightarrow> in_req_url S x ch rest
      | s_req_server_with_at \<Rightarrow> in_req_url S x ch rest
      | s_req_path \<Rightarrow> in_req_url S x ch rest
      | s_req_query_string_start \<Rightarrow> in_req_url S x ch rest
      | s_req_query_string \<Rightarrow> in_req_url S x ch rest
      | s_req_fragment_start \<Rightarrow> in_req_url S x ch rest
      | s_req_fragment \<Rightarrow> in_req_url S x ch rest
      | s_req_http_start \<Rightarrow> in_req_http_start x ch rest
      | s_req_http_H \<Rightarrow> in_literal (CHR ''T'') s_req_http_HT x ch rest
      | s_req_http_HT \<Rightarrow> in_literal (CHR ''T'') s_req_http_HTT x ch rest
      | s_req_http_HTT \<Rightarrow> in_literal (CHR ''P'') s_req_http_HTTP x ch rest
      | s_req_http_HTTP \<Rightarrow> in_literal (CHR ''/'') s_req_first_http_major x ch rest
      | s_req_first_http_major \<Rightarrow> in_req_first_http_major x ch rest
      | s_req_http_major \<Rightarrow> in_req_http_major x ch rest
      | s_req_first_http_minor \<Rightarrow> in_req_first_http_minor x ch rest
      | s_req_http_minor \<Rightarrow> in_req_http_minor x ch rest
      | s_req_line_almost_done \<Rightarrow> in_req_line_almost_done x ch rest
      | s_header_field_start \<Rightarrow> in_header_field_start x ch rest
      | s_header_field \<Rightarrow> in_header_field S x ch rest
      | s_header_value_discard_ws \<Rightarrow> in_header_value_discard_ws x ch rest
      | s_header_value_discard_ws_almost_done \<Rightarrow> in_literal LF s_header_value_discard_lws x ch rest
      | s_header_value_discard_lws \<Rightarrow> in_header_value_discard_lws S x ch rest
      | s_header_value_start \<Rightarrow> in_header_value_start x ch rest
      | s_header_value \<Rightarrow> in_header_value S x ch rest
      | s_header_value_lws \<Rightarrow> in_header_value_lws x ch rest
      | s_header_almost_done \<Rightarrow> in_header_almost_done x ch rest
      | s_chunk_size_start \<Rightarrow> in_chunk_size_start x ch rest
      | s_chunk_size \<Rightarrow> in_chunk_size x ch rest
      | s_chunk_parameters \<Rightarrow> in_chunk_parameters x ch rest
      | s_chunk_size_almost_done \<Rightarrow> in_chunk_size_almost_done S x ch rest
      | s_headers_almost_done \<Rightarrow> in_headers_almost_done S x ch rest
      | s_headers_done \<Rightarrow> in_headers_done S x ch rest
      | s_chunk_data \<Rightarrow> in_chunk_data x ch rest
      | s_chunk_data_almost_done \<Rightarrow> in_chunk_data_almost_done S x ch rest
      | s_chunk_data_done \<Rightarrow> in_chunk_data_done S x ch rest
      | s_body_identity \<Rightarrow> in_body_identity S x ch rest
      | s_body_identity_eof \<Rightarrow> in_body_identity_eof x ch rest
      | s_message_done \<Rightarrow> in_message_done S x ch rest)"

text \<open>How often a byte can be handled again from a state.\<close>

definition rank :: "parser_state \<Rightarrow> nat" where
  "rank s =
     (if s \<in> {s_header_value_lws, s_header_value_discard_lws} then 4
      else if s = s_header_field_start then 3
      else if s = s_headers_almost_done then 2
      else if s \<in> {s_start_req_or_res, s_header_value, s_body_identity} then 1
      else 0)"

text \<open>No handling goes back in the buffer, and one that does not go forward either goes down in rank.\<close>

definition advances :: "nat \<Rightarrow> nat \<Rightarrow> step \<Rightarrow> bool" where
  "advances n r t =
     (case t of
        (y, Next q) \<Rightarrow> length q \<le> n
      | (y, Reexecute c q) \<Rightarrow> length q < n \<or> length q = n \<and> rank (hp_state y) < r
      | _ \<Rightarrow> True)"

named_theorems step_defs "the macros and the cases of the machine"

lemmas macro_defs = CALLBACK_NOTIFY_def CALLBACK_DATA_def COUNT_HEADER_SIZE_def STRICT_CHECK_def fail_def
  UPDATE_STATE_def MARK_def Let_def

lemma advances_plain [simp]:
  "advances n r (y, Error q)" "advances n r (y, Return q)" "advances n r (y, Assert_failed)"
  "advances n r (y, Next q) = (length q \<le> n)"
  "advances n r (y, Reexecute c q) = (length q < n \<or> length q = n \<and> rank (hp_state y) < r)"
  by (auto simp: advances_def)

lemma advances_macros [intro!]:
  "advances n r (fail e x p)"
  "(\<And>y. hp_state y = hp_state x \<Longrightarrow> advances n r (k y)) \<Longrightarrow> advances n r (CALLBACK_NOTIFY S f er x k)"
  "(\<And>y. hp_state y = hp_state x \<Longrightarrow> advances n r (k y)) \<Longrightarrow> advances n r (CALLBACK_DATA S f q er x k)"
  "(\<And>y. hp_state y = hp_state x \<Longrightarrow> advances n r (k y)) \<Longrightarrow> advances n r (COUNT_HEADER_SIZE m p x k)"
  "(\<And>y. hp_state y = hp_state x \<Longrightarrow> advances n r (k y)) \<Longrightarrow> advances n r (STRICT_CHECK w p x k)"
  by (auto simp: macro_defs split: option.split)

definition within :: "nat \<Rightarrow> step \<Rightarrow> bool" where
  "within m t =
     (case t of
        (y, Next q) \<Rightarrow> length q \<le> m - 1
      | (y, Reexecute c q) \<Rightarrow> length q < m \<and> rank (hp_state y) = 0
      | _ \<Rightarrow> True)"

lemma within_plain [simp]:
  "within m (y, Error q)" "within m (y, Return q)" "within m (y, Assert_failed)"
  "within m (y, Next q) = (length q \<le> m - 1)"
  "within m (y, Reexecute c q) = (length q < m \<and> rank (hp_state y) = 0)"
  by (auto simp: within_def)

lemma within_mono: "within m t \<Longrightarrow> m \<le> n \<Longrightarrow> within n t"
  by (auto simp: within_def split: prod.splits control.splits)

lemma within_macros [intro!]:
  "within m (fail e x p)"
  "(\<And>y. hp_state y = hp_state x \<Longrightarrow> within m (k y)) \<Longrightarrow> within m (CALLBACK_DATA S f q er x k)"
  "(\<And>y. hp_state y = hp_state x \<Longrightarrow> within m (k y)) \<Longrightarrow> within m (COUNT_HEADER_SIZE l p x k)"
  by (auto simp: macro_defs split: option.split)

lemma value_loop_within: "within (length p) (value_loop S x h n p)"
proof (induction S x h n p rule: value_loop.induct)
  case (1 S x h n)
  show ?case by auto
next
  case (2 S x h n ch rest)
  show ?case
  proof (cases "ch = CR \<or> ch = LF")
    case True
    then show ?thesis by (auto simp: UPDATE_STATE_def rank_def)
  next
    case False
    have "within (length (ch # rest)) (value_loop S y h' n rest)" if "value_char x h ch = Go y h'" "h \<noteq> h_general"
        "\<not> (\<not> hp_lenient_http_headers x \<and> \<not> IS_HEADER_CHAR ch)" for y h'
      using 2(2) that False by (intro within_mono [where n = "length (ch # rest)" and m = "length rest"]) auto
    moreover have "within (length (ch # rest)) (value_loop S x h n (skip_value (ch # rest)))" if "h = h_general"
        "\<not> (\<not> hp_lenient_http_headers x \<and> \<not> IS_HEADER_CHAR ch)"
      using 2(1) that False skip_value_shorter [of ch rest]
      by (intro within_mono [where n = "length (ch # rest)" and m = "length (skip_value (ch # rest))"]) auto
    ultimately show ?thesis
      using False by (auto simp: within_macros(1) split: value_step.split)
  qed
qed

lemma field_loop_suffix: "field_loop x p = Some (y, q) \<Longrightarrow> length q \<le> length p"
proof (induction x p rule: field_loop.induct)
  case (2 x ch rest)
  show ?case using 2(1) [OF refl] 2(2) by (auto simp: Let_def split: if_splits option.splits)
qed auto

lemma advances_field: "advances (length rest) r (in_header_field S x ch rest)"
  unfolding in_header_field_def
  by (auto simp del: field_loop.simps split: option.split list.split dest!: field_loop_suffix)

lemma within_advances: "within (Suc n) t \<Longrightarrow> advances n 1 t"
  by (auto simp: within_def advances_def split: prod.splits control.splits)

lemma advances_value: "advances (length rest) 1 (in_header_value S x ch rest)"
  unfolding in_header_value_def
  using within_advances value_loop_within [of "ch # rest"] by simp

lemmas start_cases = in_dead_def in_start_req_or_res_def in_res_or_resp_H_def in_start_res_def in_literal_def
  in_start_req_def in_req_method_def

lemmas first_line_cases = in_res_first_http_major_def in_res_http_major_def in_res_first_http_minor_def
  in_res_http_minor_def in_res_first_status_code_def in_res_status_code_def in_res_status_start_def in_res_status_def
  in_req_spaces_before_url_def in_req_schema_def in_req_url_def url_char_def in_req_http_start_def
  in_req_first_http_major_def in_req_http_major_def in_req_first_http_minor_def in_req_http_minor_def
  in_req_line_almost_done_def

lemmas header_cases = in_header_field_start_def in_header_value_start_def in_header_value_discard_ws_def
  in_header_almost_done_def in_header_value_lws_def in_header_value_discard_lws_def in_headers_almost_done_def
  in_headers_done_def

lemmas body_cases = in_body_identity_def in_body_identity_eof_def in_message_done_def in_chunk_size_start_def
  in_chunk_size_def in_chunk_parameters_def in_chunk_size_almost_done_def in_chunk_data_def
  in_chunk_data_almost_done_def in_chunk_data_done_def

lemma advances_start:
  "advances (length rest) r (in_dead x ch rest)"
  "0 < r \<Longrightarrow> advances (length rest) r (in_start_req_or_res S x ch rest)"
  "advances (length rest) r (in_res_or_resp_H x ch rest)"
  "advances (length rest) r (in_start_res S x ch rest)"
  "advances (length rest) r (in_literal c s x ch rest)"
  "advances (length rest) r (in_start_req S x ch rest)"
  "advances (length rest) r (in_req_method x ch rest)"
  by (auto simp: start_cases Let_def UPDATE_STATE_def rank_def advances_macros(1) split: option.split)

lemma advances_first_line:
  "advances (length rest) r (in_res_first_http_major x ch rest)"
  "advances (length rest) r (in_res_http_major x ch rest)"
  "advances (length rest) r (in_res_first_http_minor x ch rest)"
  "advances (length rest) r (in_res_http_minor x ch rest)"
  "advances (length rest) r (in_res_first_status_code x ch rest)"
  "advances (length rest) r (in_res_status_code x ch rest)"
  "advances (length rest) r (in_res_status_start x ch rest)"
  "advances (length rest) r (in_res_status S x ch rest)"
  "advances (length rest) r (in_req_spaces_before_url x ch rest)"
  "advances (length rest) r (in_req_schema x ch rest)"
  "advances (length rest) r (in_req_url S x ch rest)"
  "advances (length rest) r (in_req_http_start x ch rest)"
  "advances (length rest) r (in_req_first_http_major x ch rest)"
  "advances (length rest) r (in_req_http_major x ch rest)"
  "advances (length rest) r (in_req_first_http_minor x ch rest)"
  "advances (length rest) r (in_req_http_minor x ch rest)"
  "advances (length rest) r (in_req_line_almost_done x ch rest)"
  by (auto simp: first_line_cases Let_def advances_macros(1))

lemma advances_headers:
  "r = 3 \<Longrightarrow> advances (length rest) r (in_header_field_start x ch rest)"
  "advances (length rest) r (in_header_value_start x ch rest)"
  "advances (length rest) r (in_header_value_discard_ws x ch rest)"
  "advances (length rest) r (in_header_almost_done x ch rest)"
  "r = 4 \<Longrightarrow> advances (length rest) r (in_header_value_lws x ch rest)"
  "r = 4 \<Longrightarrow> advances (length rest) r (in_header_value_discard_lws S x ch rest)"
  "r = 2 \<Longrightarrow> advances (length rest) r (in_headers_almost_done S x ch rest)"
  "advances (length rest) r (in_headers_done S x ch rest)"
  by (auto simp: header_cases Let_def UPDATE_STATE_def rank_def advances_macros(1) split: header_states.split option.split)

lemma advances_body:
  "r = 1 \<Longrightarrow> advances (length rest) r (in_body_identity S x ch rest)"
  "advances (length rest) r (in_body_identity_eof x ch rest)"
  "advances (length rest) r (in_message_done S x ch rest)"
  "advances (length rest) r (in_chunk_size_start x ch rest)"
  "advances (length rest) r (in_chunk_size x ch rest)"
  "advances (length rest) r (in_chunk_parameters x ch rest)"
  "advances (length rest) r (in_chunk_size_almost_done S x ch rest)"
  "advances (length rest) r (in_chunk_data x ch rest)"
  "advances (length rest) r (in_chunk_data_almost_done S x ch rest)"
  "advances (length rest) r (in_chunk_data_done S x ch rest)"
  using unat_eq_zero [of "hp_content_length x"]
  by (auto simp: body_cases Let_def UPDATE_STATE_def rank_def advances_macros(1) to_read_def split: option.split)

lemma advances_state: "advances (length rest) (rank (hp_state x)) (in_state S x ch rest)"
  unfolding in_state_def
  by (cases "hp_state x")
    (simp_all add: advances_start advances_first_line advances_headers advances_body advances_field advances_value [simplified] rank_def)

lemma in_state_next: "in_state S x ch rest = (y, Next q) \<Longrightarrow> length q \<le> length rest"
  using advances_state [of rest x S ch] by simp

lemma in_state_again:
  "in_state S x ch rest = (y, Reexecute c q) \<Longrightarrow>
    length q < length rest \<or> length q = length rest \<and> rank (hp_state y) < rank (hp_state x)"
  using advances_state [of rest x S ch] by simp

text \<open>\<open>goto reexecute\<close>.\<close>

function reexecute :: "http_parser_settings \<Rightarrow> exec \<Rightarrow> char \<Rightarrow> string \<Rightarrow> step" where
  "reexecute S x ch rest =
     (case in_state S x ch rest of
        (x, Reexecute c q) \<Rightarrow> reexecute S x c q
      | (x, Next q) \<Rightarrow> (x, Next q)
      | (x, Error q) \<Rightarrow> (x, Error q)
      | (x, Return q) \<Rightarrow> (x, Return q)
      | (x, Assert_failed) \<Rightarrow> (x, Assert_failed))"
  by pat_completeness auto
termination
  by (relation "inv_image (less_than <*lex*> less_than) (\<lambda>(S, x, ch, rest). (length rest, rank (hp_state x)))")
    (auto dest!: in_state_again [OF sym])

declare reexecute.simps [simp del]

lemma reexecute_advances: "reexecute S x ch rest = (y, Next q) \<Longrightarrow> length q \<le> length rest"
proof (induction S x ch rest rule: reexecute.induct)
  case (1 S x ch rest)
  obtain z k where zk: "in_state S x ch rest = (z, k)" by force
  show ?case
  proof (cases k)
    case (Reexecute c p)
    then have "length q \<le> length p" using 1 zk reexecute.simps [of S x ch rest] by simp
    then show ?thesis using in_state_again zk Reexecute by fastforce
  qed (use 1(2) zk reexecute.simps [of S x ch rest] in_state_next [of S x ch rest] in auto)
qed

text \<open>One round of the loop.\<close>

definition on_byte :: "http_parser_settings \<Rightarrow> exec \<Rightarrow> char \<Rightarrow> string \<Rightarrow> step" where
  "on_byte S x ch rest =
     (if PARSING_HEADER (hp_state x) then COUNT_HEADER_SIZE 1 (ch # rest) x (\<lambda>x. reexecute S x ch rest)
      else reexecute S x ch rest)"

lemma on_byte_advances: "on_byte S x ch rest = (y, Next q) \<Longrightarrow> length q \<le> length rest"
  by (auto simp: on_byte_def COUNT_HEADER_SIZE_def fail_def Let_def split: if_splits dest: reexecute_advances)

function execute_loop :: "http_parser_settings \<Rightarrow> exec \<Rightarrow> string \<Rightarrow> step" where
  "execute_loop S x [] = (x, Next [])"
| "execute_loop S x (ch # rest) =
     (case on_byte S x ch rest of
        (x, Next q) \<Rightarrow> execute_loop S x q
      | (x, k) \<Rightarrow> (x, k))"
  by pat_completeness auto
termination
  by (relation "measure (\<lambda>(S, x, p). length p)") (auto dest!: on_byte_advances [OF sym] simp: less_Suc_eq_le)

section \<open>The whole parser\<close>

text \<open>The marks at the start: a text that goes on from the buffer before.\<close>

definition url_states :: "parser_state set" where
  "url_states = {s_req_path, s_req_schema, s_req_schema_slash, s_req_schema_slash_slash, s_req_server_start, s_req_server,
     s_req_server_with_at, s_req_query_string_start, s_req_query_string, s_req_fragment_start, s_req_fragment}"

definition first_marks :: "parser_state \<Rightarrow> string \<Rightarrow> http_cb \<Rightarrow> string option" where
  "first_marks s data f =
     (if f = on_header_field \<and> s = s_header_field \<or> f = on_header_value \<and> s = s_header_value \<or>
         f = on_url \<and> s \<in> url_states \<or> f = on_status \<and> s = s_res_status
      then Some data else None)"

definition marked :: "exec \<Rightarrow> nat" where
  "marked x = length (List.filter (\<lambda>f. ex_mark x f \<noteq> None) [on_header_field, on_header_value, on_url, on_body, on_status])"

text \<open>What is left to tell at the end of the buffer.\<close>

definition leftovers :: "http_parser_settings \<Rightarrow> exec \<Rightarrow> step" where
  "leftovers S x =
     (if marked x > 1 then (x, Assert_failed)
      else CALLBACK_DATA S on_header_field [] [] x (\<lambda>x. CALLBACK_DATA S on_header_value [] [] x (\<lambda>x.
        CALLBACK_DATA S on_url [] [] x (\<lambda>x. CALLBACK_DATA S on_body [] [] x (\<lambda>x.
        CALLBACK_DATA S on_status [] [] x (\<lambda>x. (x, Return [])))))))"

text \<open>
  The state it leaves, the calls it makes and what it returns, \<open>None\<close> when an assertion does not hold.
\<close>

definition http_parser_execute :: "http_parser_settings \<Rightarrow> http_parser \<Rightarrow> string \<Rightarrow> http_parser \<times> http_event list \<times> nat option" where
  "http_parser_execute S parser data =
     (let len = length data;
          x = http_parser.extend parser (exec.fields (first_marks (hp_state parser) data) []) in
      if hp_errno parser \<noteq> HPE_OK then (parser, [], Some 0)
      else if len = 0 then
        (if hp_state parser = s_body_identity_eof then
           (let (x, k) = CALLBACK_NOTIFY S on_message_complete [] x (\<lambda>x. (x, Return [])) in
            (http_parser.truncate x, ex_calls x, if k = Assert_failed then None else Some 0))
         else if hp_state parser \<in> {s_dead, s_start_req_or_res, s_start_res, s_start_req} then (parser, [], Some 0)
         else (parser\<lparr>hp_errno := HPE_INVALID_EOF_STATE\<rparr>, [], Some 1))
      else (let (x, k) =
               (case execute_loop S x data of
                  (x, Next q) \<Rightarrow> leftovers S x
                | (x, Error q) \<Rightarrow> (x\<lparr>hp_errno := if hp_errno x = HPE_OK then HPE_UNKNOWN else hp_errno x\<rparr>, Return q)
                | (x, k) \<Rightarrow> (x, k)) in
        (http_parser.truncate x, ex_calls x,
         case k of Return q \<Rightarrow> Some (len - length q) | _ \<Rightarrow> None)))"

end
