(* ===== verification/Http_Safety.thy ===== *)
theory Http_Safety
  imports Http_Machine
begin

text \<open>
  The assertions of \<open>src/http_parser.c\<close> hold: the invariant of the parser between two bytes, every case of the
  machine keeps it, and so from \<open>http_parser_init\<close> no sequence of buffers makes an assertion fail or a read of a
  method name go behind its terminator, whatever the callbacks return.
\<close>

section \<open>The invariant\<close>

definition mark_states :: "http_cb \<Rightarrow> parser_state set" where
  "mark_states f =
     (case f of
        on_url \<Rightarrow> url_states
      | on_status \<Rightarrow> {s_res_status}
      | on_header_field \<Rightarrow> {s_header_field}
      | on_header_value \<Rightarrow> {s_header_value}
      | on_body \<Rightarrow> {s_body_identity, s_body_identity_eof, s_chunk_data, s_chunk_data_almost_done}
      | _ \<Rightarrow> {})"

definition marks_ok :: "parser_state \<Rightarrow> (http_cb \<Rightarrow> string option) \<Rightarrow> bool" where
  "marks_ok s m \<longleftrightarrow> (\<forall>f. m f \<noteq> None \<longrightarrow> s \<in> mark_states f)"

definition field_states :: "header_states set" where
  "field_states = {h_general, h_C, h_CO, h_CON, h_matching_connection, h_matching_proxy_connection,
     h_matching_content_length, h_matching_transfer_encoding, h_matching_upgrade,
     h_connection, h_content_length, h_transfer_encoding, h_upgrade}"

text \<open>What the parser keeps between two bytes; \<open>n\<close> is what \<open>nread\<close> is where the size of a chunk begins.\<close>

definition state_ok :: "u32 \<Rightarrow> 'a http_parser_scheme \<Rightarrow> bool" where
  "state_ok n x \<longleftrightarrow>
     (let s = hp_state x; chunked = (hp_flags x AND F_CHUNKED \<noteq> 0); c = hp_content_length x in
      (s = s_req_method \<longrightarrow> unat (hp_index x) \<le> length (method_strings (hp_method x))) \<and>
      (s = s_header_field \<longrightarrow> hp_header_state x \<in> field_states) \<and>
      (s = s_header_value \<longrightarrow> hp_header_state x \<notin> {h_connection, h_transfer_encoding}) \<and>
      (s = s_chunk_size_start \<longrightarrow> chunked \<and> hp_nread x = n) \<and>
      (s \<in> {s_chunk_size, s_chunk_parameters, s_chunk_size_almost_done} \<longrightarrow> chunked \<and> c \<noteq> ULLONG_MAX) \<and>
      (s = s_chunk_data \<longrightarrow> chunked \<and> c \<noteq> 0 \<and> c \<noteq> ULLONG_MAX) \<and>
      (s = s_chunk_data_almost_done \<longrightarrow> chunked \<and> c = 0) \<and>
      (s = s_chunk_data_done \<longrightarrow> chunked) \<and>
      (s = s_body_identity \<longrightarrow> c \<noteq> 0 \<and> c \<noteq> ULLONG_MAX))"

definition good :: "u32 \<Rightarrow> exec \<Rightarrow> bool" where
  "good n x \<longleftrightarrow> hp_errno x = HPE_OK \<and> marks_ok (hp_state x) (ex_mark x) \<and> state_ok n x"

definition safe :: "step \<Rightarrow> bool" where
  "safe t =
     (case t of
        (y, Next q) \<Rightarrow> good 0 y
      | (y, Reexecute c q) \<Rightarrow> good 0 y \<and> good 1 y
      | (y, Error q) \<Rightarrow> hp_errno y \<noteq> HPE_OK
      | (y, Return q) \<Rightarrow> hp_errno y \<noteq> HPE_OK \<or> good 0 y
      | (y, Assert_failed) \<Rightarrow> False)"

lemma safe_plain [simp]:
  "safe (y, Next q) = good 0 y" "safe (y, Reexecute c q) = (good 0 y \<and> good 1 y)"
  "safe (y, Error q) = (hp_errno y \<noteq> HPE_OK)" "safe (y, Return q) = (hp_errno y \<noteq> HPE_OK \<or> good 0 y)"
  "safe (y, Assert_failed) = False"
  by (auto simp: safe_def)

lemma all_cb:
  "(\<forall>f. P f) \<longleftrightarrow> P on_message_begin \<and> P on_url \<and> P on_status \<and> P on_header_field \<and> P on_header_value \<and>
    P on_headers_complete \<and> P on_body \<and> P on_message_complete \<and> P on_chunk_header \<and> P on_chunk_complete"
  by (metis http_cb.exhaust)

lemma marks_ok_all:
  "marks_ok s m \<longleftrightarrow> m on_message_begin = None \<and> (m on_url \<noteq> None \<longrightarrow> s \<in> url_states) \<and>
    (m on_status \<noteq> None \<longrightarrow> s = s_res_status) \<and> (m on_header_field \<noteq> None \<longrightarrow> s = s_header_field) \<and>
    (m on_header_value \<noteq> None \<longrightarrow> s = s_header_value) \<and> m on_headers_complete = None \<and>
    (m on_body \<noteq> None \<longrightarrow> s \<in> {s_body_identity, s_body_identity_eof, s_chunk_data, s_chunk_data_almost_done}) \<and>
    m on_message_complete = None \<and> m on_chunk_header = None \<and> m on_chunk_complete = None"
  by (simp add: marks_ok_def all_cb mark_states_def)

text \<open>At most one mark is set, so clearing it leaves none.\<close>

lemma mark_states_disjoint: "s \<in> mark_states f \<Longrightarrow> s \<in> mark_states g \<Longrightarrow> f = g"
  by (cases f; cases g) (auto simp: mark_states_def url_states_def)

lemma marks_ok_clear: "marks_ok s m \<Longrightarrow> s \<in> mark_states f \<Longrightarrow> marks_ok t (m(f := None))"
  using mark_states_disjoint by (auto simp: marks_ok_def)

lemma marks_ok_none: "marks_ok s m \<Longrightarrow> \<forall>f. s \<notin> mark_states f \<Longrightarrow> m = (\<lambda>_. None)"
  by (auto simp: marks_ok_def)

lemma good_calls [simp]: "good n (x\<lparr>ex_calls := cs\<rparr>) = good n x"
  by (simp add: good_def state_ok_def)

section \<open>The macros\<close>

lemma safe_fail [simp]: "safe (fail e x p) = (e \<noteq> HPE_OK)"
  by (simp add: fail_def)

lemma safe_notify [intro!]:
  assumes "hp_errno x = HPE_OK" and "\<And>cs. safe (k (x\<lparr>ex_calls := cs\<rparr>))"
  shows "safe (CALLBACK_NOTIFY S f er x k)"
  using assms assms(2) [of "ex_calls x"] by (auto simp: CALLBACK_NOTIFY_def Let_def split: option.split)

lemma safe_data [intro!]:
  assumes "hp_errno x = HPE_OK" and "\<And>cs. safe (k (x\<lparr>ex_mark := (ex_mark x)(f := None), ex_calls := cs\<rparr>))"
  shows "safe (CALLBACK_DATA S f q er x k)"
proof (cases "ex_mark x f")
  case None
  then have "(ex_mark x)(f := None) = ex_mark x" by (rule fun_upd_idem)
  moreover have "x\<lparr>ex_mark := ex_mark x, ex_calls := ex_calls x\<rparr> = x" by simp
  ultimately have "safe (k x)" using assms(2) [of "ex_calls x"] by metis
  then show ?thesis using assms(1) None by (simp add: CALLBACK_DATA_def)
next
  case (Some m)
  have "safe (k (x\<lparr>ex_mark := (ex_mark x)(f := None)\<rparr>))" using assms(2) [of "ex_calls x"] by simp
  then show ?thesis
    using assms Some by (simp add: CALLBACK_DATA_def Let_def split: option.split)
qed

lemma safe_count [intro!]:
  "(\<And>n. safe (k (x\<lparr>hp_nread := n\<rparr>))) \<Longrightarrow> safe (COUNT_HEADER_SIZE m p x k)"
  by (auto simp: COUNT_HEADER_SIZE_def Let_def)

lemma safe_strict [intro!]: "(\<not> w \<Longrightarrow> safe (k x)) \<Longrightarrow> safe (STRICT_CHECK w p x k)"
  by (auto simp: STRICT_CHECK_def)

lemmas good_defs = good_def state_ok_def marks_ok_all Let_def UPDATE_STATE_def

section \<open>The cases\<close>

lemma url_next: "parse_url_char s ch = s_dead \<or> parse_url_char s ch \<in> url_states"
  by (cases s) (simp_all add: parse_url_char_def Let_def url_states_def)

lemma NEW_MESSAGE_states: "NEW_MESSAGE x \<in> {s_start_req, s_start_res, s_dead}"
  by (simp add: NEW_MESSAGE_def)

lemma method_length: "0 < length (method_strings m)" "length (method_strings m) \<le> 11"
  by (cases m; simp add: method_strings_def)+

lemma next_method_length: "next_method m i ch = Some m' \<Longrightarrow> Suc i \<le> length (method_strings m')"
  by (cases m) (auto simp: next_method_def method_strings_def split: if_splits)

lemma index_next: "unat (i :: 7 word) \<le> 11 \<Longrightarrow> unat (i + 1) = unat i + 1"
  by (simp add: unat_word_ariths)

lemma first_method_length: "first_method ch = Some m \<Longrightarrow> 1 \<le> length (method_strings m)"
  using method_length(1) [of m] by linarith

lemma safe_start:
  assumes "good n x"
  shows "hp_state x = s_dead \<Longrightarrow> safe (in_dead x ch rest)"
    and "hp_state x = s_start_req_or_res \<Longrightarrow> safe (in_start_req_or_res S x ch rest)"
    and "hp_state x = s_res_or_resp_H \<Longrightarrow> safe (in_res_or_resp_H x ch rest)"
    and "hp_state x = s_start_res \<Longrightarrow> safe (in_start_res S x ch rest)"
    and "hp_state x = s_start_req \<Longrightarrow> safe (in_start_req S x ch rest)"
proof -
  show "hp_state x = s_dead \<Longrightarrow> safe (in_dead x ch rest)"
    using assms by (auto simp: start_cases good_defs url_states_def)
  show "hp_state x = s_start_req_or_res \<Longrightarrow> safe (in_start_req_or_res S x ch rest)"
    using assms by (auto simp: start_cases good_defs url_states_def)
  show "hp_state x = s_res_or_resp_H \<Longrightarrow> safe (in_res_or_resp_H x ch rest)"
    using assms by (auto simp: start_cases good_defs url_states_def method_strings_def)
  show "hp_state x = s_start_res \<Longrightarrow> safe (in_start_res S x ch rest)"
    using assms by (auto simp: start_cases good_defs url_states_def)
  show "hp_state x = s_start_req \<Longrightarrow> safe (in_start_req S x ch rest)"
    using assms first_method_length [of ch] by (auto simp: start_cases good_defs url_states_def split: option.split)
qed

lemma safe_method:
  assumes "good n x" and "hp_state x = s_req_method"
  shows "safe (in_req_method x ch rest)"
proof -
  let ?i = "unat (hp_index x)" and ?m = "method_strings (hp_method x)"
  have i: "?i \<le> length ?m" using assms by (simp add: good_def state_ok_def)
  then have step: "unat (hp_index x + 1) = ?i + 1" using index_next method_length(2) order_trans by blast
  have fit: "ch \<noteq> NUL \<Longrightarrow> ch = (?m @ [NUL]) ! ?i \<Longrightarrow> Suc ?i \<le> length ?m"
    using i by (cases "?i = length ?m") (auto simp: nth_append)
  show ?thesis
    using assms i fit step next_method_length [of "hp_method x" ?i ch]
    by (auto simp: in_req_method_def good_defs method_strings_def [of HTTP_PARSER_METHOD_MSEARCH] url_states_def split: option.split)
qed

lemma safe_literal:
  "good n x \<Longrightarrow> marks_ok s (ex_mark x) \<Longrightarrow> (\<And>y. y = x\<lparr>hp_state := s\<rparr> \<Longrightarrow> state_ok 0 y) \<Longrightarrow> safe (in_literal c s x ch rest)"
  by (auto simp: in_literal_def good_def UPDATE_STATE_def)

lemma safe_response:
  assumes "good n x"
  shows "hp_state x = s_res_first_http_major \<Longrightarrow> safe (in_res_first_http_major x ch rest)"
    and "hp_state x = s_res_http_major \<Longrightarrow> safe (in_res_http_major x ch rest)"
    and "hp_state x = s_res_first_http_minor \<Longrightarrow> safe (in_res_first_http_minor x ch rest)"
    and "hp_state x = s_res_http_minor \<Longrightarrow> safe (in_res_http_minor x ch rest)"
    and "hp_state x = s_res_first_status_code \<Longrightarrow> safe (in_res_first_status_code x ch rest)"
    and "hp_state x = s_res_status_code \<Longrightarrow> safe (in_res_status_code x ch rest)"
    and "hp_state x = s_res_status_start \<Longrightarrow> safe (in_res_status_start x ch rest)"
    and "hp_state x = s_res_status \<Longrightarrow> safe (in_res_status S x ch rest)"
  using assms by (auto simp: first_line_cases good_defs url_states_def MARK_def)

lemma safe_request:
  assumes "good n x"
  shows "hp_state x = s_req_http_start \<Longrightarrow> safe (in_req_http_start x ch rest)"
    and "hp_state x = s_req_first_http_major \<Longrightarrow> safe (in_req_first_http_major x ch rest)"
    and "hp_state x = s_req_http_major \<Longrightarrow> safe (in_req_http_major x ch rest)"
    and "hp_state x = s_req_first_http_minor \<Longrightarrow> safe (in_req_first_http_minor x ch rest)"
    and "hp_state x = s_req_http_minor \<Longrightarrow> safe (in_req_http_minor x ch rest)"
    and "hp_state x = s_req_line_almost_done \<Longrightarrow> safe (in_req_line_almost_done x ch rest)"
  using assms by (auto simp: first_line_cases good_defs url_states_def MARK_def)

text \<open>The URL states and those behind the URL carry no condition of their own.\<close>

lemma behind_url_plain: "hp_state x \<in> {s_req_http_start, s_req_line_almost_done, s_header_field_start} \<Longrightarrow> state_ok n x"
  by (auto simp: state_ok_def)

lemma url_states_plain: "hp_state x \<in> url_states \<Longrightarrow> state_ok n x"
  by (auto simp: state_ok_def url_states_def)

lemma safe_url_char:
  assumes "hp_errno x = HPE_OK" and "marks_ok s (ex_mark x)" and "s \<in> url_states"
  shows "safe (url_char x ch rest)"
proof -
  have "good n (x\<lparr>hp_state := parse_url_char (hp_state x) ch\<rparr>)" if "parse_url_char (hp_state x) ch \<noteq> s_dead" for n
    using that assms url_next [of "hp_state x" ch] url_states_plain [of "x\<lparr>hp_state := parse_url_char (hp_state x) ch\<rparr>" n]
    by (auto simp: good_def marks_ok_all url_states_def)
  then show ?thesis by (simp add: url_char_def UPDATE_STATE_def Let_def)
qed

lemma safe_url:
  assumes "good n x"
  shows "hp_state x = s_req_spaces_before_url \<Longrightarrow> safe (in_req_spaces_before_url x ch rest)"
    and "hp_state x \<in> url_states \<Longrightarrow> safe (in_req_schema x ch rest)"
    and "hp_state x \<in> url_states \<Longrightarrow> safe (in_req_url S x ch rest)"
proof -
  assume s: "hp_state x = s_req_spaces_before_url"
  have "safe (url_char (UPDATE_STATE t (MARK on_url p x)) ch rest)" for t p
    using assms s by (intro safe_url_char [where s = s_req_path])
      (auto simp: good_def marks_ok_all url_states_def UPDATE_STATE_def MARK_def)
  moreover have "safe (url_char (MARK on_url p x) ch rest)" for p
    using assms s by (intro safe_url_char [where s = s_req_path])
      (auto simp: good_def marks_ok_all url_states_def UPDATE_STATE_def MARK_def)
  moreover have "good 0 x" using assms s by (simp add: good_def state_ok_def)
  ultimately show "safe (in_req_spaces_before_url x ch rest)" by (simp add: in_req_spaces_before_url_def Let_def)
next
  assume s: "hp_state x \<in> url_states"
  have c: "safe (url_char x ch rest)" using assms s safe_url_char by (auto simp: good_def)
  then show "safe (in_req_schema x ch rest)" by (simp add: in_req_schema_def)
  have "safe (CALLBACK_DATA S on_url p q (UPDATE_STATE t y) (\<lambda>x. (x, Next rest)))"
    if t: "t \<in> {s_req_http_start, s_req_line_almost_done, s_header_field_start}"
      and y: "hp_errno y = HPE_OK" "ex_mark y = ex_mark x" for t y p q
  proof (rule safe_data)
    fix cs
    let ?z = "y\<lparr>hp_state := t, ex_mark := (ex_mark x)(on_url := None), ex_calls := cs\<rparr>"
    have "marks_ok t ((ex_mark x)(on_url := None))"
      using assms s by (intro marks_ok_clear [where s = "hp_state x"]) (auto simp: good_def mark_states_def)
    moreover have "state_ok 0 ?z" using t by (intro behind_url_plain) simp
    moreover have "hp_errno ?z = HPE_OK" using y by simp
    ultimately have "good 0 ?z" by (simp add: good_def)
    then show "safe ((UPDATE_STATE t y)\<lparr>ex_mark := (ex_mark (UPDATE_STATE t y))(on_url := None), ex_calls := cs\<rparr>, Next rest)"
      using y by (simp add: UPDATE_STATE_def)
  qed (use y in \<open>simp add: UPDATE_STATE_def\<close>)
  then show "safe (in_req_url S x ch rest)"
    using c assms by (simp add: in_req_url_def Let_def good_def)
qed

section \<open>Headers\<close>

text \<open>What the characters of a name leave as it is.\<close>

definition same_line :: "exec \<Rightarrow> exec \<Rightarrow> bool" where
  "same_line x y \<longleftrightarrow> hp_state y = hp_state x \<and> hp_errno y = hp_errno x \<and> ex_mark y = ex_mark x"

lemma match_word_states: "match_word w i c no yes h \<in> {no, yes, h}"
  by (simp add: match_word_def)

lemma field_char_some: "hp_header_state x \<in> field_states \<Longrightarrow> field_char x ch c \<noteq> None"
  by (cases "hp_header_state x") (simp_all add: field_char_def field_states_def Let_def)

lemma field_char_ok:
  "field_char x ch c = Some y \<Longrightarrow> hp_header_state x \<in> field_states \<Longrightarrow> same_line x y \<and> hp_header_state y \<in> field_states"
  by (cases "hp_header_state x")
    (auto simp: field_char_def same_line_def match_word_def field_states_def Let_def split: if_splits)

lemma field_loop_ok:
  "hp_header_state x \<in> field_states \<Longrightarrow>
    \<exists>y q. field_loop x p = Some (y, q) \<and> same_line x y \<and> hp_header_state y \<in> field_states"
proof (induction p arbitrary: x)
  case (Cons ch p)
  show ?case
  proof (cases "TOKEN ch = NUL")
    case False
    obtain y where y: "field_char x ch (TOKEN ch) = Some y" using field_char_some [OF Cons.prems] by blast
    then have "same_line x y" "hp_header_state y \<in> field_states" using field_char_ok Cons.prems by blast+
    then show ?thesis using Cons.IH [of y] y False by (auto simp: same_line_def)
  qed (use Cons.prems in \<open>simp add: same_line_def\<close>)
qed (simp add: same_line_def)

lemma safe_field:
  assumes "good n x" and "hp_state x = s_header_field"
  shows "safe (in_header_field S x ch rest)"
proof -
  have "hp_header_state x \<in> field_states" using assms by (simp add: good_def state_ok_def)
  then obtain y q where f: "field_loop x (ch # rest) = Some (y, q)" "same_line x y" "hp_header_state y \<in> field_states"
    using field_loop_ok by blast
  have clear: "marks_ok t ((ex_mark x)(on_header_field := None))" for t
    using assms by (intro marks_ok_clear [where s = s_header_field]) (auto simp: good_def mark_states_def)
  show ?thesis
    using assms f(2,3) clear unfolding in_header_field_def f(1)
    by (cases q) (auto simp: good_def state_ok_def same_line_def UPDATE_STATE_def)
qed

lemma value_char_ok:
  assumes "value_char x h ch = Go y h'" and "h \<notin> {h_connection, h_transfer_encoding}" and "hp_state x = s_header_value"
  shows "h' \<notin> {h_connection, h_transfer_encoding}" and "hp_state y = s_header_value"
    and "hp_errno y = hp_errno x" and "ex_mark y = ex_mark x"
  using assms
  by (cases h; auto simp: value_char_def match_word_def Let_def UPDATE_STATE_def split: if_splits)+

lemma value_char_never: "h \<notin> {h_connection, h_transfer_encoding} \<Longrightarrow> value_char x h ch \<noteq> Never"
  by (cases h) (auto simp: value_char_def match_word_def Let_def)

lemma value_char_bad: "value_char x h ch = Bad e \<Longrightarrow> e \<noteq> HPE_OK"
  by (cases h) (auto simp: value_char_def match_word_def Let_def split: if_splits)

lemma value_loop_safe:
  assumes "hp_errno x = HPE_OK" and "hp_state x = s_header_value" and "marks_ok s_header_value (ex_mark x)"
    and "h \<notin> {h_connection, h_transfer_encoding}"
  shows "safe (value_loop S x h n p)"
  using assms
proof (induction S x h n p rule: value_loop.induct)
  case (1 S x h n)
  then show ?case by (auto simp: good_def state_ok_def)
next
  case (2 S x h n ch rest)
  have clear: "marks_ok t ((ex_mark x)(on_header_value := None))" for t
    using 2(5) by (rule marks_ok_clear) (simp add: mark_states_def)
  consider "ch = CR" | "ch = LF" "ch \<noteq> CR" | "ch \<noteq> CR" "ch \<noteq> LF" by blast
  then show ?case
  proof cases
    case 1
    then show ?thesis using 2(3) clear by (auto simp: good_def state_ok_def UPDATE_STATE_def)
  next
    case 2
    then show ?thesis using \<open>hp_errno x = HPE_OK\<close> clear by (auto simp: good_def state_ok_def UPDATE_STATE_def)
  next
    case 3
    show ?thesis
    proof (cases "\<not> hp_lenient_http_headers x \<and> \<not> IS_HEADER_CHAR ch")
      case True
      then show ?thesis using 3 by simp
    next
      case no: False
      show ?thesis
      proof (cases "h = h_general")
        case True
        then show ?thesis using 2(1) [OF 3 no True] 2(3-6) 3 no by simp
      next
        case False
        show ?thesis
        proof (cases "value_char x h ch")
          case (Go y h')
          then show ?thesis
            using 2(2) [OF 3 no False Go] value_char_ok [OF Go 2(6,4)] 2(3-6) 3 no False by simp
        qed (use 3 no False value_char_bad value_char_never 2(6) in \<open>auto\<close>)
      qed
    qed
  qed
qed

lemma safe_value:
  "good n x \<Longrightarrow> hp_state x = s_header_value \<Longrightarrow> safe (in_header_value S x ch rest)"
  unfolding in_header_value_def by (rule value_loop_safe) (auto simp: good_def state_ok_def)

lemma safe_headers:
  assumes "good n x"
  shows "hp_state x = s_header_field_start \<Longrightarrow> safe (in_header_field_start x ch rest)"
    and "hp_state x = s_header_almost_done \<Longrightarrow> safe (in_header_almost_done x ch rest)"
    and "hp_state x = s_header_value_lws \<Longrightarrow> safe (in_header_value_lws x ch rest)"
    and "hp_state x = s_header_value_discard_lws \<Longrightarrow> safe (in_header_value_discard_lws S x ch rest)"
proof -
  show "hp_state x = s_header_field_start \<Longrightarrow> safe (in_header_field_start x ch rest)"
    using assms by (auto simp: in_header_field_start_def good_defs url_states_def MARK_def field_states_def)
  show "hp_state x = s_header_almost_done \<Longrightarrow> safe (in_header_almost_done x ch rest)"
    using assms by (auto simp: in_header_almost_done_def good_defs url_states_def)
  have flags: "header_flags x = x\<lparr>hp_flags := hp_flags (header_flags x)\<rparr>"
    by (simp add: header_flags_def split: header_states.split)
  show "hp_state x = s_header_value_lws \<Longrightarrow> safe (in_header_value_lws x ch rest)"
    using assms by (subst in_header_value_lws_def, subst flags) (auto simp: good_defs url_states_def)
  show "hp_state x = s_header_value_discard_lws \<Longrightarrow> safe (in_header_value_discard_lws S x ch rest)"
    using assms by (subst in_header_value_discard_lws_def, subst flags) (auto simp: good_defs url_states_def MARK_def)
qed

lemma good_value:
  "hp_state x = s_header_value \<Longrightarrow> hp_errno x = HPE_OK \<Longrightarrow> marks_ok s_header_value (ex_mark x) \<Longrightarrow>
    hp_header_state x \<noteq> h_connection \<Longrightarrow> hp_header_state x \<noteq> h_transfer_encoding \<Longrightarrow> good n x"
  by (simp add: good_def state_ok_def)

lemma marks_ok_set:
  assumes "marks_ok s m" and "s \<in> {s_header_value_start, s_header_value_discard_ws}"
  shows "marks_ok s_header_value (m(on_header_value := v))"
proof -
  have "m = (\<lambda>_. None)"
    using assms(2) by (intro marks_ok_none [OF assms(1)]) (auto simp: all_cb mark_states_def url_states_def)
  then show ?thesis by (simp add: marks_ok_def mark_states_def)
qed

lemma safe_value_start:
  assumes "hp_errno x = HPE_OK" and "marks_ok (hp_state x) (ex_mark x)"
    and "hp_state x \<in> {s_header_value_start, s_header_value_discard_ws}"
  shows "safe (in_header_value_start x ch rest)"
proof -
  let ?m = "ex_mark (MARK on_header_value (ch # rest) x)"
  have "marks_ok s_header_value (ex_mark x)" using marks_ok_set [OF assms(2,3), of "ex_mark x on_header_value"] by simp
  then have m: "marks_ok s_header_value ?m"
    using marks_ok_set [OF assms(2,3)] by (simp add: MARK_def)
  have "UPDATE_STATE s_header_value ((MARK on_header_value (ch # rest) x)\<lparr>hp_index := 0\<rparr>) =
      x\<lparr>ex_mark := ?m, hp_state := s_header_value, hp_index := 0\<rparr>"
    by (simp add: UPDATE_STATE_def MARK_def)
  then show ?thesis
    using assms(1) m unfolding in_header_value_start_def Let_def
    by (cases "hp_header_state x") (simp_all add: good_value)
qed

lemma safe_discard_ws:
  assumes "good n x" and "hp_state x = s_header_value_discard_ws"
  shows "safe (in_header_value_discard_ws x ch rest)"
  using assms safe_value_start [of x ch rest]
  by (auto simp: in_header_value_discard_ws_def good_defs url_states_def)

lemma flag_or: "(f OR a :: byte) AND b \<noteq> 0 \<longleftrightarrow> f AND b \<noteq> 0 \<or> a AND b \<noteq> 0"
  by (simp add: bit_simps bit_eq_iff) blast

section \<open>The end of the headers and the body\<close>

lemma chunked_flags: "f AND F_CHUNKED \<noteq> 0 \<Longrightarrow> (f OR g) AND F_CHUNKED \<noteq> 0"
  by (simp add: flag_or)

lemma safe_complete:
  assumes "hp_errno x = HPE_OK" and "ex_mark x = (\<lambda>_. None)" and "k \<in> {Next q, Return q}"
  shows "safe (CALLBACK_NOTIFY S on_message_complete p (UPDATE_STATE (NEW_MESSAGE y) x) (\<lambda>x. (x, k)))"
  using assms NEW_MESSAGE_states [of y]
  by (intro safe_notify) (auto simp: good_def state_ok_def UPDATE_STATE_def marks_ok_def)

lemma no_marks:
  "good n x \<Longrightarrow> \<forall>f. hp_state x \<notin> mark_states f \<Longrightarrow> hp_errno x = HPE_OK \<and> ex_mark x = (\<lambda>_. None)"
  using marks_ok_none by (auto simp: good_def)

lemma safe_headers_almost_done:
  assumes "good n x" and "hp_state x = s_headers_almost_done"
  shows "safe (in_headers_almost_done S x ch rest)"
proof -
  have n: "hp_errno x = HPE_OK" "ex_mark x = (\<lambda>_. None)"
    using no_marks [OF assms(1)] assms(2) by (auto simp: all_cb mark_states_def url_states_def)
  show ?thesis
    unfolding in_headers_almost_done_def
    by (intro safe_strict) (use n in \<open>auto simp: good_def state_ok_def marks_ok_def UPDATE_STATE_def Let_def split: option.split\<close>)
qed

lemma safe_headers_done:
  assumes "good n x" and "hp_state x = s_headers_done"
  shows "safe (in_headers_done S x ch rest)"
proof -
  have n: "hp_errno x = HPE_OK" "ex_mark x = (\<lambda>_. None)"
    using no_marks [OF assms(1)] assms(2) by (auto simp: all_cb mark_states_def url_states_def)
  have fin: "safe (CALLBACK_NOTIFY S on_message_complete p (UPDATE_STATE (NEW_MESSAGE (x\<lparr>hp_nread := 0\<rparr>)) (x\<lparr>hp_nread := 0\<rparr>))
      (\<lambda>x. (x, k)))" if "k \<in> {Next q, Return q}" for k p q
    using n that by (intro safe_complete) auto
  show ?thesis
    unfolding in_headers_done_def Let_def
    using n fin [of "Next rest" rest rest] fin [of "Return rest" rest rest]
    by (intro safe_strict) (auto simp: good_def state_ok_def marks_ok_def UPDATE_STATE_def)
qed

text \<open>The overflow tests keep a length below the value that stands for none.\<close>

lemma unat_max_length: "unat ULLONG_MAX = 18446744073709551615"
  by (simp add: ULLONG_MAX_def unsigned_minus_1_eq_mask mask_eq_exp_minus_1)

lemma chunk_length:
  assumes "c \<le> (ULLONG_MAX - 16) div 16" and "n < 16"
  shows "c * 16 + of_nat n \<noteq> ULLONG_MAX"
proof -
  have c: "unat c \<le> 1152921504606846974"
    using assms(1) by (simp add: ULLONG_MAX_def word_le_nat_alt unat_div)
  then have "unat (c * 16 + of_nat n) = unat c * 16 + n"
    using assms(2) by (simp add: unat_word_ariths unat_of_nat)
  moreover have "unat ULLONG_MAX = 18446744073709551615" by (simp add: unat_max_length)
  ultimately show ?thesis using c assms(2) by auto
qed

lemma unhex_small: "unhex ch = Some n \<Longrightarrow> n < 16"
  by (auto simp: unhex_def IS_NUM_def split: if_splits)

lemma small_length: "n < 16 \<Longrightarrow> (of_nat n :: u64) \<noteq> ULLONG_MAX"
  using chunk_length [of 0 n] by (simp add: ULLONG_MAX_def)

lemma safe_chunk_size:
  assumes "good 1 x"
  shows "hp_state x = s_chunk_size_start \<Longrightarrow> safe (in_chunk_size_start x ch rest)"
    and "hp_state x = s_chunk_size \<Longrightarrow> safe (in_chunk_size x ch rest)"
    and "hp_state x = s_chunk_parameters \<Longrightarrow> safe (in_chunk_parameters x ch rest)"
    and "hp_state x = s_chunk_size_almost_done \<Longrightarrow> safe (in_chunk_size_almost_done S x ch rest)"
proof -
  show "safe (in_chunk_size_start x ch rest)" if s: "hp_state x = s_chunk_size_start"
    using assms s small_length unhex_small
    by (auto simp: in_chunk_size_start_def good_defs url_states_def split: option.split)
  show "safe (in_chunk_size x ch rest)" if s: "hp_state x = s_chunk_size"
    using assms s chunk_length [of "hp_content_length x"] unhex_small
    by (auto simp: in_chunk_size_def good_defs url_states_def not_less split: option.split)
  show "safe (in_chunk_parameters x ch rest)" if s: "hp_state x = s_chunk_parameters"
    using assms s by (auto simp: in_chunk_parameters_def good_defs url_states_def)
  show "safe (in_chunk_size_almost_done S x ch rest)" if s: "hp_state x = s_chunk_size_almost_done"
    using assms s by (auto simp: in_chunk_size_almost_done_def good_defs url_states_def)
qed

lemma taken_length:
  assumes "n = to_read x p" and "hp_content_length x \<noteq> ULLONG_MAX"
  shows "hp_content_length x - of_nat n \<noteq> ULLONG_MAX"
proof -
  let ?c = "hp_content_length x"
  have "n \<le> unat ?c" using assms by (simp add: to_read_def)
  then have "unat (?c - of_nat n) \<le> unat ?c"
    using unsigned_less [of ?c] by (simp add: unat_sub_if' unat_of_nat)
  moreover have "unat ?c < unat ULLONG_MAX"
    using assms(2) unsigned_less [of ?c, where 'a = nat] by (simp add: unat_max_length word_unat_eq_iff)
  ultimately show ?thesis by auto
qed

lemma safe_body:
  assumes "good n x"
  shows "hp_state x = s_body_identity \<Longrightarrow> safe (in_body_identity S x ch rest)"
    and "hp_state x = s_body_identity_eof \<Longrightarrow> safe (in_body_identity_eof x ch rest)"
    and "hp_state x = s_message_done \<Longrightarrow> safe (in_message_done S x ch rest)"
    and "hp_state x = s_chunk_data \<Longrightarrow> safe (in_chunk_data x ch rest)"
    and "hp_state x = s_chunk_data_almost_done \<Longrightarrow> safe (in_chunk_data_almost_done S x ch rest)"
    and "hp_state x = s_chunk_data_done \<Longrightarrow> safe (in_chunk_data_done S x ch rest)"
proof -
  note left = taken_length [OF refl, of x "ch # rest"]
  show "safe (in_body_identity S x ch rest)" if s: "hp_state x = s_body_identity"
    using assms s left by (auto simp: in_body_identity_def good_defs url_states_def MARK_def)
  show "safe (in_body_identity_eof x ch rest)" if s: "hp_state x = s_body_identity_eof"
    using assms s by (auto simp: in_body_identity_eof_def good_defs url_states_def MARK_def)
  show "safe (in_chunk_data x ch rest)" if s: "hp_state x = s_chunk_data"
    using assms s left by (auto simp: in_chunk_data_def good_defs url_states_def MARK_def)
  show "safe (in_chunk_data_almost_done S x ch rest)" if s: "hp_state x = s_chunk_data_almost_done"
    using assms s by (auto simp: in_chunk_data_almost_done_def good_defs url_states_def)
  show "safe (in_chunk_data_done S x ch rest)" if s: "hp_state x = s_chunk_data_done"
    using assms s by (auto simp: in_chunk_data_done_def good_defs url_states_def)
  have "safe (CALLBACK_NOTIFY S on_message_complete rest (UPDATE_STATE (NEW_MESSAGE x) x)
      (\<lambda>x. (x, if hp_upgrade x then Return rest else Next rest)))" if "hp_state x = s_message_done"
    using no_marks [OF assms] that NEW_MESSAGE_states [of x]
    by (intro safe_notify) (auto simp: all_cb mark_states_def url_states_def good_def state_ok_def UPDATE_STATE_def marks_ok_def)
  then show "safe (in_message_done S x ch rest)" if s: "hp_state x = s_message_done"
    using s by (simp add: in_message_done_def)
qed

section \<open>The loop\<close>

lemma safe_start_literal:
  assumes "good n x" and "hp_state x \<in> {s_res_H, s_res_HT, s_res_HTT, s_res_HTTP, s_res_line_almost_done, s_req_http_H,
    s_req_http_HT, s_req_http_HTT, s_req_http_HTTP, s_header_value_discard_ws_almost_done}"
    and "s \<in> {s_res_HT, s_res_HTT, s_res_HTTP, s_res_first_http_major, s_header_field_start, s_req_http_HT, s_req_http_HTT,
      s_req_http_HTTP, s_req_first_http_major, s_header_value_discard_lws}"
  shows "safe (in_literal c s x ch rest)"
proof (rule safe_literal [OF assms(1)])
  have "ex_mark x = (\<lambda>_. None)"
    using assms(1,2) by (intro no_marks [THEN conjunct2]) (auto simp: all_cb mark_states_def url_states_def)
  then show "marks_ok s (ex_mark x)" by (simp add: marks_ok_def)
  show "state_ok 0 y" if "y = x\<lparr>hp_state := s\<rparr>" for y
    using assms(3) that by (auto simp: state_ok_def)
qed

lemma safe_start_value:
  "good n x \<Longrightarrow> hp_state x = s_header_value_start \<Longrightarrow> safe (in_header_value_start x ch rest)"
  by (rule safe_value_start) (auto simp: good_def)

lemma safe_state: "good 1 x \<Longrightarrow> safe (in_state S x ch rest)"
  unfolding in_state_def
  by (cases "hp_state x")
    (simp_all add: safe_start safe_method safe_start_literal safe_response safe_request safe_url url_states_def safe_headers
      safe_field safe_discard_ws safe_value safe_start_value safe_headers_almost_done safe_headers_done safe_chunk_size
      safe_body)

lemma reexecute_safe: "good 1 x \<Longrightarrow> safe (reexecute S x ch rest)"
proof (induction S x ch rest rule: reexecute.induct)
  case (1 S x ch rest)
  obtain y k where yk: "in_state S x ch rest = (y, k)" by force
  have "safe (y, k)" using safe_state [OF 1(2)] yk by metis
  then show ?case
    using 1(1) yk reexecute.simps [of S x ch rest] by (cases k) auto
qed

lemma good_counted: "good 0 x \<Longrightarrow> hp_state x \<noteq> s_chunk_size_start \<Longrightarrow> good 1 (x\<lparr>hp_nread := n\<rparr>)"
  by (auto simp: good_def state_ok_def)

lemma on_byte_safe:
  assumes "good 0 x"
  shows "safe (on_byte S x ch rest)"
proof (cases "PARSING_HEADER (hp_state x)")
  case True
  have "good 1 (x\<lparr>hp_nread := hp_nread x + 1\<rparr>)"
    using assms by (auto simp: good_def state_ok_def)
  then have "safe (reexecute S (x\<lparr>hp_nread := hp_nread x + 1\<rparr>) ch rest)" by (rule reexecute_safe)
  then show ?thesis using True by (simp add: on_byte_def COUNT_HEADER_SIZE_def Let_def)
next
  case False
  then have "good 1 x" using assms by (auto simp: good_def state_ok_def PARSING_HEADER_def)
  then show ?thesis using False reexecute_safe by (simp add: on_byte_def)
qed

lemma execute_loop_safe: "good 0 x \<Longrightarrow> safe (execute_loop S x p)"
proof (induction S x p rule: execute_loop.induct)
  case (2 S x ch rest)
  obtain y k where yk: "on_byte S x ch rest = (y, k)" by force
  have "safe (y, k)" using on_byte_safe [OF 2(2)] yk by metis
  then show ?case using 2(1) yk by (cases k) auto
qed simp

text \<open>What the parser keeps between two buffers.\<close>

definition parser_ok :: "http_parser \<Rightarrow> bool" where
  "parser_ok p \<longleftrightarrow> hp_errno p \<noteq> HPE_OK \<or> state_ok 0 p"

lemma state_ok_truncate [simp]: "state_ok n (http_parser.truncate x) = state_ok n x" "hp_errno (http_parser.truncate x) = hp_errno x"
  by (simp_all add: state_ok_def http_parser.defs)

lemma first_good:
  assumes "parser_ok p" and "hp_errno p = HPE_OK"
  shows "good 0 (http_parser.extend p (exec.fields (first_marks (hp_state p) data) []))"
  using assms by (auto simp: good_def parser_ok_def state_ok_def marks_ok_def first_marks_def mark_states_def
      http_parser.defs exec.defs)

lemma one_mark: "marks_ok s m \<Longrightarrow> x = y\<lparr>ex_mark := m\<rparr> \<Longrightarrow> marked x \<le> 1"
  by (cases "m on_url"; cases "m on_body"; cases "m on_status"; cases "m on_header_field"; cases "m on_header_value")
    (auto simp: marks_ok_all marked_def url_states_def)

lemma leftovers_safe:
  assumes "good 0 x"
  shows "safe (leftovers S x)"
proof -
  have "marked x \<le> 1" using assms by (intro one_mark [of "hp_state x" "ex_mark x" x x]) (auto simp: good_def)
  moreover have cleared: "good 0 (y\<lparr>ex_mark := (ex_mark y)(f := None), ex_calls := cs\<rparr>)" if "good 0 y" for y f cs
    using that by (auto simp: good_def state_ok_def marks_ok_def)
  then have "safe (CALLBACK_DATA S f [] [] y k)" if "good 0 y" "\<And>y. good 0 y \<Longrightarrow> safe (k y)" for f y k
    using that by (intro safe_data) (auto simp: good_def [of 0 y])
  ultimately show ?thesis using assms unfolding leftovers_def by simp
qed

text \<open>How a loop, and the calls behind it, can end.\<close>

lemma reexecute_ends: "reexecute S x ch rest \<noteq> (y, Reexecute c q)"
proof (induction S x ch rest rule: reexecute.induct)
  case (1 S x ch rest)
  obtain z k where "in_state S x ch rest = (z, k)" by force
  then show ?case using 1 reexecute.simps [of S x ch rest] by (cases k) auto
qed

lemma execute_loop_ends: "execute_loop S x p \<noteq> (y, Reexecute c q)"
proof (induction S x p rule: execute_loop.induct)
  case (2 S x ch rest)
  obtain z k where zk: "on_byte S x ch rest = (z, k)" by force
  moreover have "k \<noteq> Reexecute c q"
    using zk reexecute_ends by (auto simp: on_byte_def COUNT_HEADER_SIZE_def fail_def Let_def split: if_splits)
  ultimately show ?case using 2 by (cases k) auto
qed simp

definition returns :: "step \<Rightarrow> bool" where
  "returns t \<longleftrightarrow> (\<exists>y q. t = (y, Return q) \<or> t = (y, Assert_failed))"

lemma leftovers_returns: "returns (leftovers S x)"
proof -
  have "returns (CALLBACK_DATA S f q er x k)" if "\<And>y. returns (k y)" for f q er x k
    using that by (auto simp: CALLBACK_DATA_def Let_def split: option.split) (auto simp: returns_def)
  then show ?thesis by (auto simp: leftovers_def) (auto simp: returns_def)
qed

lemma execute_ok:
  assumes "parser_ok p" and "http_parser_execute S p data = (q, calls, r)"
  shows "parser_ok q \<and> r \<noteq> None"
proof (cases "hp_errno p = HPE_OK \<and> data \<noteq> []")
  case True
  define x where "x = http_parser.extend p (exec.fields (first_marks (hp_state p) data) [])"
  obtain y k where yk: "execute_loop S x data = (y, k)" by force
  have "safe (execute_loop S x data)"
    unfolding x_def using True by (intro execute_loop_safe first_good [OF assms(1)]) simp
  then have s: "safe (y, k)" using yk by simp
  show ?thesis
  proof (cases k)
    case (Next u)
    then have "safe (leftovers S y)" using s leftovers_safe by simp
    moreover obtain z l where zl: "leftovers S y = (z, l)" by force
    moreover obtain u where "l = Return u \<or> l = Assert_failed" using leftovers_returns [of S y] zl by (auto simp: returns_def)
    ultimately have "l = Return u" "safe (z, Return u)" by auto
    then show ?thesis
      using assms(2) True yk Next zl
      by (auto simp: http_parser_execute_def Let_def x_def [symmetric] parser_ok_def good_def)
  next
    case (Reexecute c u)
    then show ?thesis using execute_loop_ends yk by blast
  qed (use assms(2) True yk s in \<open>auto simp: http_parser_execute_def Let_def x_def [symmetric] parser_ok_def good_def\<close>)
next
  case False
  have ok: "CALLBACK_NOTIFY S on_message_complete [] x (\<lambda>x. (x, Return [])) = (y, k) \<Longrightarrow> hp_errno x = HPE_OK \<Longrightarrow>
      hp_state x = s_body_identity_eof \<Longrightarrow> parser_ok (http_parser.truncate y) \<and> k \<noteq> Assert_failed" for x y k
    by (auto simp: CALLBACK_NOTIFY_def Let_def parser_ok_def state_ok_def http_parser.defs split: option.splits if_splits)
  show ?thesis
  proof (cases "hp_errno p = HPE_OK")
    case True
    define x where "x = http_parser.extend p (exec.fields (first_marks (hp_state p) data) [])"
    have x: "hp_errno x = HPE_OK" "hp_state x = hp_state p" using True by (simp_all add: x_def http_parser.defs)
    obtain y k where yk: "CALLBACK_NOTIFY S on_message_complete [] x (\<lambda>x. (x, Return [])) = (y, k)" by force
    show ?thesis
      using assms False True yk ok [OF yk x(1)] x(2)
      by (auto simp: http_parser_execute_def Let_def x_def [symmetric] parser_ok_def split: if_splits)
  next
    case False
    then show ?thesis using assms by (auto simp: http_parser_execute_def)
  qed
qed

section \<open>Property\<close>

text \<open>The buffers one after the other, as the server gives them to the parser; \<open>None\<close> when an assertion fails.\<close>

fun parse_buffers :: "http_parser_settings \<Rightarrow> http_parser \<Rightarrow> string list \<Rightarrow> (http_parser \<times> http_event list) option" where
  "parse_buffers S p [] = Some (p, [])"
| "parse_buffers S p (b # bs) =
     (case http_parser_execute S p b of
        (p, calls, None) \<Rightarrow> None
      | (p, calls, Some n) \<Rightarrow> map_option (\<lambda>(p, more). (p, calls @ more)) (parse_buffers S p bs))"

lemma parse_buffers_ok: "parser_ok p \<Longrightarrow> parse_buffers S p bs \<noteq> None"
proof (induction bs arbitrary: p)
  case (Cons b bs)
  obtain q calls r where e: "http_parser_execute S p b = (q, calls, r)" by (metis prod_cases3)
  then obtain n where "parser_ok q" "r = Some n" using execute_ok [OF Cons.prems e] by auto
  then show ?case using Cons.IH [of q] e by simp
qed simp


end
