(* ===== verification/Http_Requests.thy ===== *)
theory Http_Requests
  imports Http_Safety
begin

text \<open>
  What the parser of \<open>src/http_parser.c\<close> makes of requests, with the callbacks of the server: the request line, the
  headers, the body and the callbacks they lead to.
\<close>

section \<open>The settings of the server\<close>

text \<open>
  \<open>make_http_parser_settings\<close> of \<open>src/arduino_homekit_server.cpp\<close> sets three fields of a local structure; \<open>junk\<close> is
  what the others hold.
\<close>

definition make_http_parser_settings :: "http_parser_settings \<Rightarrow> http_parser_settings" where
  "make_http_parser_settings junk = junk(on_url := Some 0, on_body := Some 0, on_message_complete := Some 0)"

abbreviation server_settings :: http_parser_settings where
  "server_settings \<equiv> make_http_parser_settings (\<lambda>_. None)"

lemma settings [simp]:
  "server_settings on_url = Some 0" "server_settings on_body = Some 0" "server_settings on_message_complete = Some 0"
  "server_settings on_message_begin = None" "server_settings on_header_field = None"
  "server_settings on_header_value = None" "server_settings on_headers_complete = None"
  by (simp_all add: make_http_parser_settings_def)

section \<open>Steps of the loop\<close>

declare execute_loop.simps(2) [simp del]

abbreviation count :: "nat \<Rightarrow> exec \<Rightarrow> exec" where
  "count k x \<equiv> x\<lparr>hp_nread := hp_nread x + of_nat k\<rparr>"

text \<open>There is room for \<open>k\<close> more bytes of headers.\<close>

definition room :: "nat \<Rightarrow> u32 \<Rightarrow> bool" where
  "room k n \<longleftrightarrow> unat n + k \<le> HTTP_MAX_HEADER_SIZE"

lemma room_add: "room (k + l) n \<Longrightarrow> room l (n + of_nat k)"
  by (simp add: room_def HTTP_MAX_HEADER_SIZE_def unat_word_ariths unat_of_nat)

lemma room_less: "room k n \<Longrightarrow> l \<le> k \<Longrightarrow> room l n"
  by (simp add: room_def)

lemma room_Suc: "room (Suc k) n \<Longrightarrow> room k (n + 1)"
  using room_add [of 1 k n] by simp

lemma byte_counts:
  assumes "PARSING_HEADER (hp_state x)" and "room 1 (hp_nread x)"
  shows "on_byte S x ch rest = reexecute S (x\<lparr>hp_nread := hp_nread x + 1\<rparr>) ch rest"
proof -
  have "unat (hp_nread x + 1) \<le> HTTP_MAX_HEADER_SIZE"
    using room_add [of 1 0] assms(2) by (simp add: room_def)
  then show ?thesis using assms by (simp add: on_byte_def COUNT_HEADER_SIZE_def Let_def)
qed

lemma reexecute_again:
  "in_state S x ch rest = (y, Reexecute c p) \<Longrightarrow> reexecute S x ch rest = reexecute S y c p"
  by (simp add: reexecute.simps [of S x])

lemma room_steps:
  "room 10 n \<Longrightarrow> room 1 n \<and> room 1 (n + 1) \<and> room 1 (2 + n) \<and> room 1 (3 + n) \<and> room 1 (4 + n) \<and> room 1 (5 + n) \<and>
    room 1 (6 + n) \<and> room 1 (7 + n) \<and> room 1 (8 + n) \<and> room 1 (9 + n)"
  by (simp add: room_def HTTP_MAX_HEADER_SIZE_def unat_word_ariths)

lemmas literal_steps = execute_loop.simps(2) byte_counts reexecute.simps in_state_def PARSING_HEADER_def

section \<open>The request line\<close>

lemma letters [simp]:
  "IS_ALPHA (CHR ''G'')" "IS_ALPHA (CHR ''P'')" "IS_ALPHA (CHR ''U'')" "IS_NUM (CHR ''1'')"
  by (simp_all add: IS_ALPHA_def LOWER_def IS_NUM_def)

lemma read_GET:
  assumes "hp_state x = s_start_req" and "hp_errno x = HPE_OK" and "room 10 (hp_nread x)"
  shows "execute_loop server_settings x (''GET '' @ rest) =
    execute_loop server_settings (x\<lparr>hp_flags := 0, hp_content_length := ULLONG_MAX, hp_method := HTTP_PARSER_METHOD_GET,
      hp_nread := 4 + hp_nread x, hp_state := s_req_spaces_before_url, hp_index := 4\<rparr>) rest"
  using assms room_steps [OF assms(3)]
  by (simp add: literal_steps in_start_req_def first_method_def CALLBACK_NOTIFY_def UPDATE_STATE_def Let_def
      in_req_method_def method_strings_def)

lemma read_POST:
  assumes "hp_state x = s_start_req" and "hp_errno x = HPE_OK" and "room 10 (hp_nread x)"
  shows "execute_loop server_settings x (''POST '' @ rest) =
    execute_loop server_settings (x\<lparr>hp_flags := 0, hp_content_length := ULLONG_MAX, hp_method := HTTP_PARSER_METHOD_POST,
      hp_nread := 5 + hp_nread x, hp_state := s_req_spaces_before_url, hp_index := 5\<rparr>) rest"
  using assms room_steps [OF assms(3)]
  by (simp add: literal_steps in_start_req_def first_method_def CALLBACK_NOTIFY_def UPDATE_STATE_def Let_def
      in_req_method_def method_strings_def)

lemma read_PUT:
  assumes "hp_state x = s_start_req" and "hp_errno x = HPE_OK" and "room 10 (hp_nread x)"
  shows "execute_loop server_settings x (''PUT '' @ rest) =
    execute_loop server_settings (x\<lparr>hp_flags := 0, hp_content_length := ULLONG_MAX, hp_method := HTTP_PARSER_METHOD_PUT,
      hp_nread := 4 + hp_nread x, hp_state := s_req_spaces_before_url, hp_index := 4\<rparr>) rest"
  using assms room_steps [OF assms(3)]
  by (simp add: literal_steps in_start_req_def first_method_def CALLBACK_NOTIFY_def UPDATE_STATE_def Let_def
      in_req_method_def method_strings_def next_method_def)

lemma read_version:
  assumes "hp_state x = s_req_http_start" and "room 10 (hp_nread x)"
  shows "execute_loop server_settings x (''HTTP/1.1'' @ CR # LF # rest) =
    execute_loop server_settings (x\<lparr>hp_http_major := 1, hp_http_minor := 1,
      hp_nread := 10 + hp_nread x, hp_state := s_header_field_start\<rparr>) rest"
  using assms room_steps [OF assms(2)]
  by (simp add: literal_steps first_line_cases in_literal_def STRICT_CHECK_def UPDATE_STATE_def Let_def)

text \<open>A character of the path or of the query.\<close>

definition url_text :: "char \<Rightarrow> bool" where
  "url_text c \<longleftrightarrow> (IS_URL_CHAR c \<or> c = CHR ''?'') \<and> c \<notin> {SP, CR, LF, TAB, FF}"

definition path_states :: "parser_state set" where
  "path_states = {s_req_path, s_req_query_string_start, s_req_query_string}"

lemma path_statesE:
  assumes "s \<in> path_states"
  obtains "s = s_req_path" | "s = s_req_query_string_start" | "s = s_req_query_string"
  using assms by (auto simp: path_states_def)

lemma parse_path: "s \<in> path_states \<Longrightarrow> url_text c \<Longrightarrow> parse_url_char s c \<in> path_states"
  by (elim path_statesE) (auto simp: path_states_def url_text_def parse_url_char_def)

lemma path_header: "s \<in> path_states \<Longrightarrow> PARSING_HEADER s \<and> s \<noteq> s_dead"
  by (auto simp: path_states_def PARSING_HEADER_def)

lemma in_state_path: "hp_state x \<in> path_states \<Longrightarrow> in_state S x ch rest = in_req_url S x ch rest"
  by (auto simp: path_states_def in_state_def)

lemma read_path:
  "hp_state x \<in> path_states \<Longrightarrow> \<forall>c \<in> set u. url_text c \<Longrightarrow> room (length u) (hp_nread x) \<Longrightarrow>
    \<exists>s \<in> path_states. \<forall>rest. execute_loop S x (u @ rest) =
      execute_loop S (x\<lparr>hp_nread := hp_nread x + of_nat (length u), hp_state := s\<rparr>) rest"
proof (induction u arbitrary: x)
  case Nil
  then show ?case by (intro bexI [of _ "hp_state x"]) simp_all
next
  case (Cons c u)
  let ?s = "parse_url_char (hp_state x) c"
  let ?y = "x\<lparr>hp_nread := hp_nread x + 1, hp_state := ?s\<rparr>"
  have s: "?s \<in> path_states" "?s \<noteq> s_dead" using Cons.prems parse_path path_header by auto
  have "execute_loop S x ((c # u) @ rest) = execute_loop S ?y (u @ rest)" for rest
  proof -
    have "in_state S (x\<lparr>hp_nread := hp_nread x + 1\<rparr>) c (u @ rest) = (?y, Next (u @ rest))"
      using Cons.prems s(2) by (auto simp: in_state_path in_req_url_def url_char_def UPDATE_STATE_def url_text_def)
    then show ?thesis
      using Cons.prems path_header [of "hp_state x"] room_less [of _ "hp_nread x" 1]
      by (simp add: execute_loop.simps(2) byte_counts reexecute.simps)
  qed
  moreover have "\<exists>t \<in> path_states. \<forall>rest. execute_loop S ?y (u @ rest) =
      execute_loop S (?y\<lparr>hp_nread := hp_nread ?y + of_nat (length u), hp_state := t\<rparr>) rest"
    using Cons.prems s(1) by (intro Cons.IH) (auto simp: room_Suc)
  ultimately show ?case by (simp add: add.assoc)
qed

text \<open>The URL of a request, from the blank before it to the one behind it.\<close>

lemma read_url:
  assumes "hp_state x = s_req_spaces_before_url" and "hp_errno x = HPE_OK" and "ex_mark x = (\<lambda>_. None)"
    and "hp_method x \<noteq> HTTP_PARSER_METHOD_CONNECT"
    and "\<forall>c \<in> set u. url_text c" and "room (length u + 2) (hp_nread x)"
  shows "execute_loop server_settings x (CHR ''/'' # u @ SP # rest) =
    execute_loop server_settings (x\<lparr>hp_nread := hp_nread x + of_nat (length u + 2), hp_state := s_req_http_start,
      ex_mark := (\<lambda>_. None), ex_calls := ex_calls x @ [Data on_url (hp_method x) (CHR ''/'' # u @ SP # rest) (length u + 1)]\<rparr>) rest"
proof -
  let ?data = "CHR ''/'' # u @ SP # rest"
  let ?y = "x\<lparr>hp_nread := hp_nread x + 1, ex_mark := (\<lambda>_. None)(on_url := Some ?data), hp_state := s_req_path\<rparr>"
  have slash: "parse_url_char s_req_spaces_before_url (CHR ''/'') = s_req_path"
    by (simp add: parse_url_char_def Let_def)
  have "in_state server_settings (x\<lparr>hp_nread := hp_nread x + 1\<rparr>) (CHR ''/'') (u @ SP # rest) = (?y, Next (u @ SP # rest))"
    using assms(1,3,4) slash
    by (simp add: in_state_def in_req_spaces_before_url_def url_char_def UPDATE_STATE_def MARK_def)
  then have "execute_loop server_settings x ?data = execute_loop server_settings ?y (u @ SP # rest)"
    using assms(1) room_less [OF assms(6), of 1]
    by (simp add: execute_loop.simps(2) byte_counts reexecute.simps PARSING_HEADER_def)
  also have "\<exists>s \<in> path_states. \<forall>rest. execute_loop server_settings ?y (u @ rest) =
      execute_loop server_settings (?y\<lparr>hp_nread := hp_nread ?y + of_nat (length u), hp_state := s\<rparr>) rest"
    using assms(5) room_Suc [of "length u"] room_less [OF assms(6), of "Suc (length u)"]
    by (intro read_path) (simp_all add: path_states_def)
  then obtain s where s: "s \<in> path_states" "execute_loop server_settings ?y (u @ SP # rest) =
      execute_loop server_settings (?y\<lparr>hp_nread := hp_nread ?y + of_nat (length u), hp_state := s\<rparr>) (SP # rest)"
    by blast
  note s(2)
  also have "execute_loop server_settings (?y\<lparr>hp_nread := hp_nread ?y + of_nat (length u), hp_state := s\<rparr>) (SP # rest) =
      execute_loop server_settings (x\<lparr>hp_nread := hp_nread x + of_nat (length u + 2), hp_state := s_req_http_start,
        ex_mark := (\<lambda>_. None), ex_calls := ex_calls x @ [Data on_url (hp_method x) ?data (length u + 1)]\<rparr>) rest"
    using assms(2,3) s(1) path_header [OF s(1)] room_add [of "length u + 1" 1] assms(6)
    by (simp add: execute_loop.simps(2) byte_counts reexecute.simps in_state_path in_req_url_def CALLBACK_DATA_def
        UPDATE_STATE_def add.assoc)
  finally show ?thesis .
qed

section \<open>Header lines\<close>

definition blank_exec :: exec where
  "blank_exec = http_parser.extend (http_parser_init HTTP_REQUEST) (exec.fields (\<lambda>_. None) [])"

text \<open>The header state a name leads to, when it has only characters of a name.\<close>

definition header_kind :: "string \<Rightarrow> header_states option" where
  "header_kind name =
     (case name of
        [] \<Rightarrow> None
      | c # cs \<Rightarrow>
          (case in_header_field_start blank_exec c cs of
             (x, Next q) \<Rightarrow>
               (if TOKEN c = NUL then None
                else case field_loop x cs of Some (y, []) \<Rightarrow> Some (hp_header_state y) | _ \<Rightarrow> None)
           | _ \<Rightarrow> None))"

lemma field_char_pure:
  assumes "hp_index y = hp_index x" and "hp_header_state y = hp_header_state x" and "field_char y ch c = Some z"
  shows "field_char x ch c = Some (x\<lparr>hp_index := hp_index z, hp_header_state := hp_header_state z\<rparr>)"
proof -
  have other: "x\<lparr>hp_index := hp_index x, hp_header_state := h\<rparr> = x\<lparr>hp_header_state := h\<rparr>" for h by simp
  have same: "x\<lparr>hp_index := hp_index x, hp_header_state := h\<rparr> = x" if "hp_header_state x = h" for h using that by auto
  show ?thesis
    using assms other same
    by (cases "hp_header_state x") (auto simp: field_char_def Let_def split: if_splits)
qed

lemma field_loop_pure:
  "field_loop y cs = Some (z, []) \<Longrightarrow> hp_index y = hp_index x \<Longrightarrow> hp_header_state y = hp_header_state x \<Longrightarrow> TOKEN d = NUL \<Longrightarrow>
    field_loop x (cs @ d # rest) = Some (x\<lparr>hp_index := hp_index z, hp_header_state := hp_header_state z\<rparr>, d # rest)"
proof (induction cs arbitrary: x y)
  case (Cons c cs)
  then have c: "TOKEN c \<noteq> NUL" by (auto simp: Let_def)
  then obtain w where w: "field_char y c (TOKEN c) = Some w" "field_loop w cs = Some (z, [])"
    using Cons.prems(1) by (auto simp: Let_def split: option.splits)
  show ?case
    using Cons.IH [OF w(2), of "x\<lparr>hp_index := hp_index w, hp_header_state := hp_header_state w\<rparr>"]
      field_char_pure [OF Cons.prems(2,3) w(1)] c Cons.prems(4) by simp
qed (auto simp: Let_def)

lemma token_colon [simp]: "TOKEN (CHR '':'') = NUL"
  by (simp add: TOKEN_def tokens_32_def)

lemma read_name:
  assumes "hp_state x = s_header_field_start" and "hp_errno x = HPE_OK" and "ex_mark x = (\<lambda>_. None)"
    and "header_kind name = Some h" and "room (length name + 1) (hp_nread x)"
  shows "\<exists>i. \<forall>rest. execute_loop server_settings x (name @ CHR '':'' # rest) =
    execute_loop server_settings (x\<lparr>hp_nread := hp_nread x + of_nat (length name + 1), ex_mark := (\<lambda>_. None), hp_index := i,
      hp_state := s_header_value_discard_ws, hp_header_state := h\<rparr>) rest"
proof -
  obtain c cs where name: "name = c # cs" using assms(4) by (cases name) (auto simp: header_kind_def)
  let ?x = "x\<lparr>hp_nread := hp_nread x + 1\<rparr>"
  obtain y q z where y: "in_header_field_start blank_exec c cs = (y, Next q)" "TOKEN c \<noteq> NUL"
      and z: "field_loop y cs = Some (z, [])" "hp_header_state z = h"
    using assms(4) unfolding name header_kind_def
    by (auto split: prod.splits control.splits option.splits list.splits if_splits)
  have c: "c \<noteq> CR" "c \<noteq> LF" using y(2) by (auto simp: TOKEN_def)
  have "execute_loop server_settings x (name @ CHR '':'' # rest) =
    execute_loop server_settings (x\<lparr>hp_nread := hp_nread x + of_nat (length name + 1), ex_mark := (\<lambda>_. None),
      hp_index := hp_index z, hp_state := s_header_value_discard_ws, hp_header_state := h\<rparr>) rest" for rest
  proof -
    let ?m = "(\<lambda>_. None)(on_header_field := Some (name @ CHR '':'' # rest))"
    let ?w = "x\<lparr>hp_nread := hp_nread x + 1, ex_mark := ?m, hp_index := 0, hp_state := s_header_field,
      hp_header_state := hp_header_state y\<rparr>"
    have "in_state server_settings ?x c (cs @ CHR '':'' # rest) = (?w, Next (cs @ CHR '':'' # rest))"
      using assms(1,3) y c name
      by (simp add: in_state_def in_header_field_start_def UPDATE_STATE_def MARK_def Let_def) auto
    then have "execute_loop server_settings x (name @ CHR '':'' # rest) = execute_loop server_settings ?w (cs @ CHR '':'' # rest)"
      using assms(1) room_less [OF assms(5), of 1] name
      by (simp add: execute_loop.simps(2) byte_counts reexecute.simps PARSING_HEADER_def)
    also have "\<dots> = execute_loop server_settings (x\<lparr>hp_nread := hp_nread x + of_nat (length name + 1), ex_mark := (\<lambda>_. None),
      hp_index := hp_index z, hp_state := s_header_value_discard_ws, hp_header_state := h\<rparr>) rest"
    proof -
      obtain d ds where d: "cs @ CHR '':'' # rest = d # ds" by (cases cs) auto
      let ?v = "?w\<lparr>hp_nread := hp_nread x + 1 + 1\<rparr>"
      have i: "hp_index y = 0"
        using y c by (auto simp: in_header_field_start_def UPDATE_STATE_def Let_def)
      have loop: "field_loop ?v (d # ds) = Some (?v\<lparr>hp_index := hp_index z, hp_header_state := h\<rparr>, CHR '':'' # rest)"
        using field_loop_pure [OF z(1), of ?v "CHR '':''" rest] i z(2) d by simp
      have len: "length (d # ds) - length (CHR '':'' # rest) = length cs" using d by (metis add_diff_cancel_right' length_append)
      have "room 0 (hp_nread x + 1 + 1 + of_nat (length cs))"
        using room_add [of "length name + 1" 0 "hp_nread x"] assms(5) name by (simp add: add.assoc)
      then have "in_state server_settings ?v d ds = (x\<lparr>hp_nread := hp_nread x + 1 + 1 + of_nat (length cs), ex_mark := (\<lambda>_. None),
          hp_index := hp_index z, hp_state := s_header_value_discard_ws, hp_header_state := h\<rparr>, Next rest)"
        unfolding in_state_def in_header_field_def loop
        using assms(2) len
        by (simp add: COUNT_HEADER_SIZE_def CALLBACK_DATA_def UPDATE_STATE_def room_def)
      then show ?thesis
        using room_less [OF room_Suc, of _ "hp_nread x" 1] assms(5) name d
        by (simp add: execute_loop.simps(2) byte_counts reexecute.simps PARSING_HEADER_def add.assoc)
    qed
    finally show ?thesis .
  qed
  then show ?thesis by blast
qed

text \<open>The header states in which the value is looked at.\<close>

definition value_matters :: "header_states \<Rightarrow> bool" where
  "value_matters h \<longleftrightarrow>
     h \<in> {h_connection, h_content_length, h_transfer_encoding, h_upgrade, h_matching_connection_token_start}"

definition value_text :: "char \<Rightarrow> bool" where
  "value_text c \<longleftrightarrow> IS_HEADER_CHAR c \<and> c \<noteq> CR \<and> c \<noteq> LF"

lemma memchr_found: "c \<notin> set cs \<Longrightarrow> memchr (cs @ c # q) c = Some (c # q)"
  by (induction cs) auto

lemma skip_value_found:
  assumes "CR \<notin> set cs" and "LF \<notin> set cs" and "length cs < HTTP_MAX_HEADER_SIZE"
  shows "skip_value (cs @ CR # rest) = CR # rest"
proof -
  let ?p = "cs @ CR # rest" and ?limit = "min (length (cs @ CR # rest)) HTTP_MAX_HEADER_SIZE"
  obtain k where k: "?limit = length cs + Suc k"
    using assms(3) by (metis add_Suc_right append_Cons le_add1 le_imp_less_or_eq length_append less_imp_Suc_add linorder_not_le list.size(4) min_less_iff_conj not_less_eq)
  have area: "take ?limit ?p = cs @ CR # take k rest" unfolding k by simp
  have cr: "memchr (take ?limit ?p) CR = Some (CR # take k rest)" unfolding area by (rule memchr_found [OF assms(1)])
  have klen: "length (take k rest) = k" using k by simp
  have at_cr: "?limit - length (CR # take k rest) = length cs" using k klen by simp
  have "length q \<le> k" if lf: "memchr (take ?limit ?p) LF = Some q" for q
  proof -
    obtain r q' where r: "cs @ CR # take k rest = r @ q" "LF \<notin> set r" "q = LF # q'" using memchr_suffix lf area by metis
    have "length cs < length r"
    proof (rule ccontr)
      assume "\<not> length cs < length r"
      then have "(cs @ CR # take k rest) ! length r = (cs @ [CR]) ! length r" by (simp add: nth_append)
      moreover have "(cs @ CR # take k rest) ! length r = LF" unfolding r(1,3) by simp
      ultimately have "LF \<in> set (cs @ [CR])" using \<open>\<not> length cs < length r\<close> by (metis length_append_singleton not_less_eq nth_mem)
      then show False using assms(2) by simp
    qed
    moreover have "length cs + Suc k = length r + length q" using arg_cong [OF r(1), of length] klen by simp
    ultimately show ?thesis by linarith
  qed
  then have lf: "?limit - length q \<ge> Suc (length cs)" if "memchr (take ?limit ?p) LF = Some q" for q
    using that k by (metis Suc_diff_le add_Suc_right add_Suc_shift add_diff_cancel_right' diff_add_inverse2 diff_le_mono2 le_add_diff_inverse2 add_diff_cancel_left' le_SucI linorder_not_le nat_le_linear)
  show ?thesis
    unfolding skip_value_def Let_def cr
    using at_cr lf by (force split: option.split)
qed

text \<open>The loop at the CR behind a value, and the line feed behind it.\<close>

lemma value_loop_cr:
  assumes "hp_errno x = HPE_OK" and "room k (hp_nread x)" and "n = length (CR # rest) + k"
  shows "value_loop server_settings x h n (CR # rest) =
    (x\<lparr>hp_nread := hp_nread x + of_nat k, ex_mark := (ex_mark x)(on_header_value := None), hp_state := s_header_almost_done,
      hp_header_state := h\<rparr>, Next rest)"
proof -
  have "room 0 (hp_nread x + of_nat k)" using room_add [of k 0] assms(2) by simp
  moreover have "(ex_mark x)(on_header_value := None) = ex_mark x" if "ex_mark x on_header_value = None"
    using that by (rule fun_upd_idem)
  ultimately show ?thesis
    using assms(1,3)
    by (cases "ex_mark x on_header_value")
      (simp_all add: COUNT_HEADER_SIZE_def CALLBACK_DATA_def UPDATE_STATE_def room_def Let_def)
qed

lemma read_lf:
  assumes "hp_state x = s_header_almost_done" and "room 1 (hp_nread x)"
  shows "execute_loop S x (LF # rest) = execute_loop S (x\<lparr>hp_nread := hp_nread x + 1, hp_state := s_header_value_lws\<rparr>) rest"
  using assms
  by (simp add: execute_loop.simps(2) byte_counts reexecute.simps PARSING_HEADER_def in_state_def in_header_almost_done_def
      UPDATE_STATE_def)

text \<open>The value of a header of no interest, with the blank before it and the end of the line.\<close>

lemma read_value:
  assumes "hp_state x = s_header_value_discard_ws" and "hp_errno x = HPE_OK" and "ex_mark x = (\<lambda>_. None)"
    and "\<not> value_matters (hp_header_state x)" and "v \<noteq> []" and "hd v \<noteq> SP" and "hd v \<noteq> TAB" and "\<forall>c \<in> set v. value_text c"
    and "room (length v + 3) (hp_nread x)"
  shows "execute_loop server_settings x (SP # v @ CR # LF # rest) =
    execute_loop server_settings (x\<lparr>ex_mark := (\<lambda>_. None), hp_index := 0, hp_header_state := h_general,
      hp_nread := hp_nread x + of_nat (length v + 3), hp_state := s_header_value_lws\<rparr>) rest"
proof -
  obtain c cs where v: "v = c # cs" using assms(5) by (cases v) auto
  let ?rest = "CR # LF # rest"
  let ?m = "(\<lambda>_. None)(on_header_value := Some (v @ ?rest))"
  let ?y = "x\<lparr>hp_nread := hp_nread x + 2, ex_mark := ?m, hp_index := 0, hp_state := s_header_value, hp_header_state := h_general\<rparr>"
  have r: "room 1 (hp_nread x)" "room 1 (hp_nread x + 1)" "room 1 (hp_nread x + 2)" "room (length cs) (hp_nread x + 2 + 1)"
    "room 1 (hp_nread x + 2 + 1 + of_nat (length cs))"
    using room_less [OF assms(9)] room_add [of 1 1 "hp_nread x"] room_add [of 2 1 "hp_nread x"]
      room_add [of 3 "length cs" "hp_nread x"] room_add [of "3 + length cs" 1 "hp_nread x"] assms(9)
    by (simp_all add: v add.assoc room_less [of "length cs + 4"])
  have "in_state server_settings (x\<lparr>hp_nread := hp_nread x + 1\<rparr>) SP (v @ ?rest) = (x\<lparr>hp_nread := hp_nread x + 1\<rparr>, Next (v @ ?rest))"
    using assms(1) by (simp add: in_state_def in_header_value_discard_ws_def)
  then have "execute_loop server_settings x (SP # v @ ?rest) =
      execute_loop server_settings (x\<lparr>hp_nread := hp_nread x + 1\<rparr>) (v @ ?rest)"
    using assms(1) r by (simp add: execute_loop.simps(2) byte_counts reexecute.simps PARSING_HEADER_def)
  also have "\<dots> = execute_loop server_settings ?y (cs @ ?rest)"
  proof -
    have "in_header_value_start (x\<lparr>hp_nread := hp_nread x + 2\<rparr>) c (cs @ ?rest) = (?y, Next (cs @ ?rest))"
      using assms(3,4) v
      by (cases "hp_header_state x") (simp_all add: in_header_value_start_def value_matters_def UPDATE_STATE_def MARK_def Let_def)
    then have "in_state server_settings (x\<lparr>hp_nread := hp_nread x + 2\<rparr>) c (cs @ ?rest) = (?y, Next (cs @ ?rest))"
      using assms(1,6,7,8) v by (simp add: in_state_def in_header_value_discard_ws_def value_text_def)
    then show ?thesis
      using assms(1) r v
      by (simp add: execute_loop.simps(2) byte_counts reexecute.simps PARSING_HEADER_def add.assoc)
  qed
  also have "\<dots> = execute_loop server_settings (x\<lparr>hp_nread := hp_nread x + 3 + of_nat (length cs), ex_mark := (\<lambda>_. None), hp_index := 0,
      hp_state := s_header_almost_done, hp_header_state := h_general\<rparr>) (LF # rest)"
  proof -
    let ?z = "?y\<lparr>hp_nread := hp_nread x + 2 + 1\<rparr>"
    obtain d ds where d: "cs @ ?rest = d # ds" by (cases cs) auto
    have clean: "CR \<notin> set cs" "LF \<notin> set cs" "length cs < HTTP_MAX_HEADER_SIZE"
      using assms(8,9) v by (auto simp: value_text_def room_def)
    have "value_loop server_settings ?z h_general (length (d # ds)) (cs @ ?rest) =
        value_loop server_settings ?z h_general (length (d # ds)) ?rest"
    proof (cases cs)
      case (Cons e es)
      then have "skip_value (e # es @ ?rest) = ?rest" using skip_value_found [OF clean] by simp
      then show ?thesis using Cons assms(8) v by (simp add: value_text_def)
    qed simp
    also have "\<dots> = (?z\<lparr>hp_nread := hp_nread x + 2 + 1 + of_nat (length cs), ex_mark := ?m(on_header_value := None),
        hp_state := s_header_almost_done, hp_header_state := h_general\<rparr>, Next (LF # rest))"
      using assms(2) r arg_cong [OF d, of length] by (subst value_loop_cr [where k = "length cs"]) simp_all
    finally have "in_state server_settings ?z d ds = (x\<lparr>hp_nread := hp_nread x + 3 + of_nat (length cs), ex_mark := (\<lambda>_. None), hp_index := 0,
      hp_state := s_header_almost_done, hp_header_state := h_general\<rparr>, Next (LF # rest))"
      using d by (simp add: in_state_def in_header_value_def add.assoc)
    then show ?thesis
      unfolding d using r by (simp add: execute_loop.simps(2) byte_counts reexecute.simps PARSING_HEADER_def)
  qed
  also have "\<dots> = execute_loop server_settings (x\<lparr>ex_mark := (\<lambda>_. None), hp_index := 0, hp_header_state := h_general,
      hp_nread := hp_nread x + of_nat (length v + 3), hp_state := s_header_value_lws\<rparr>) rest"
    using r by (subst read_lf) (simp_all add: v add.assoc)
  finally show ?thesis .
qed

text \<open>After a line the next one begins, unless it is continued.\<close>

lemma line_ends:
  assumes "hp_state x = s_header_value_lws" and "hp_header_state x \<in> {h_general, h_content_length}"
    and "ch \<noteq> SP" and "ch \<noteq> TAB" and "room 1 (hp_nread x)"
  shows "execute_loop S x (ch # rest) = execute_loop S (x\<lparr>hp_state := s_header_field_start\<rparr>) (ch # rest)"
proof -
  let ?y = "x\<lparr>hp_nread := hp_nread x + 1\<rparr>" and ?z = "x\<lparr>hp_state := s_header_field_start, hp_nread := hp_nread x + 1\<rparr>"
  have "header_flags ?y = ?y"
    using assms(2) by (auto simp: header_flags_def)
  then have "in_state S ?y ch rest = (?z, Reexecute ch rest)"
    using assms by (simp add: in_state_def in_header_value_lws_def UPDATE_STATE_def)
  then have "reexecute S ?y ch rest = reexecute S ?z ch rest"
    by (rule reexecute_again)
  then show ?thesis
    using assms by (simp add: execute_loop.simps(2) byte_counts PARSING_HEADER_def)
qed

section \<open>The length of the body\<close>

fun length_value :: "nat \<Rightarrow> string \<Rightarrow> nat" where
  "length_value n [] = n"
| "length_value n (c # cs) = length_value (n * 10 + (ord c - ord CHR ''0'')) cs"

lemma length_value_mono: "n \<le> length_value n ds"
proof (induction ds arbitrary: n)
  case (Cons c ds)
  show ?case using Cons.IH [of "n * 10 + (ord c - ord CHR ''0'')"] by simp
qed simp

lemma content_length_kind: "header_kind ''Content-Length'' = Some h_content_length"
  by (simp add: header_kind_def in_header_field_start_def blank_exec_def http_parser_init_def http_parser.defs exec.defs
      TOKEN_def tokens_32_def MARK_def UPDATE_STATE_def field_char_def match_word_def CONTENT_LENGTH_def Let_def)

lemma digit_facts:
  assumes "IS_NUM c"
  shows "c \<noteq> CR" and "c \<noteq> LF" and "c \<noteq> SP" and "c \<noteq> TAB" and "IS_HEADER_CHAR c"
  using assms by (auto simp: IS_NUM_def IS_HEADER_CHAR_def)

lemma next_length:
  assumes "n * 10 + d < 2 ^ 60"
  shows "of_nat n * 10 + of_nat d = (of_nat (n * 10 + d) :: u64)" and "\<not> (ULLONG_MAX - 10) div 10 < (of_nat n :: u64)"
proof -
  have n: "n < 2 ^ 60" "n < 2 ^ 64" using assms by simp_all
  then have "unat (of_nat n :: u64) = n" by (simp add: unat_of_nat)
  then show "\<not> (ULLONG_MAX - 10) div 10 < (of_nat n :: u64)"
    using n(1) by (simp add: ULLONG_MAX_def word_less_nat_alt unat_div)
qed simp

lemma read_digits:
  assumes "hp_content_length x = of_nat n" and "hp_errno x = HPE_OK" and "\<forall>c \<in> set ds. IS_NUM c" and "length_value n ds < 2 ^ 60"
    and "room k (hp_nread x)" and "l = length (CR # rest) + k"
  shows "value_loop server_settings x h_content_length l (ds @ CR # rest) =
    (x\<lparr>hp_content_length := of_nat (length_value n ds), hp_nread := hp_nread x + of_nat k,
       ex_mark := (ex_mark x)(on_header_value := None), hp_state := s_header_almost_done,
       hp_header_state := h_content_length\<rparr>, Next rest)"
  using assms
proof (induction ds arbitrary: x n)
  case Nil
  have "x\<lparr>hp_content_length := of_nat n\<rparr> = x" using Nil(1) by simp
  then show ?case using value_loop_cr [OF Nil(2,5,6), of h_content_length] by (simp add: fun_upd_def)
next
  case (Cons c ds)
  let ?d = "ord c - ord CHR ''0''" and ?m = "n * 10 + (ord c - ord CHR ''0'')"
  note c = digit_facts [of c]
  have "?m < 2 ^ 60" using Cons.prems(4) length_value_mono [of ?m ds] by simp
  note m = next_length [OF this]
  have "value_char x h_content_length c = Go (x\<lparr>hp_content_length := of_nat ?m\<rparr>) h_content_length"
    using Cons.prems(1,3) c m by (simp add: value_char_def Let_def)
  then have "value_loop server_settings x h_content_length l ((c # ds) @ CR # rest) =
      value_loop server_settings (x\<lparr>hp_content_length := of_nat ?m\<rparr>) h_content_length l (ds @ CR # rest)"
    using Cons.prems(3) c by simp
  also have "\<dots> = (x\<lparr>hp_content_length := of_nat (length_value n (c # ds)), hp_nread := hp_nread x + of_nat k,
       ex_mark := (ex_mark x)(on_header_value := None), hp_state := s_header_almost_done,
       hp_header_state := h_content_length\<rparr>, Next rest)"
    using Cons.prems by (subst Cons.IH [where n = ?m]) simp_all
  finally show ?case .
qed

lemma read_content_length:
  assumes "hp_state x = s_header_value_discard_ws" and "hp_errno x = HPE_OK" and "ex_mark x = (\<lambda>_. None)"
    and "hp_header_state x = h_content_length" and "hp_flags x = 0" and "ds \<noteq> []" and "\<forall>c \<in> set ds. IS_NUM c"
    and "length_value 0 ds < 2 ^ 60" and "room (length ds + 3) (hp_nread x)"
  shows "execute_loop server_settings x (SP # ds @ CR # LF # rest) =
    execute_loop server_settings (x\<lparr>hp_flags := F_CONTENTLENGTH, hp_index := 0, hp_content_length := of_nat (length_value 0 ds),
      ex_mark := (\<lambda>_. None), hp_header_state := h_content_length, hp_nread := hp_nread x + of_nat (length ds + 3),
      hp_state := s_header_value_lws\<rparr>) rest"
proof -
  obtain c cs where v: "ds = c # cs" using assms(6) by (cases ds) auto
  let ?rest = "CR # LF # rest"
  let ?m = "(\<lambda>_. None)(on_header_value := Some (ds @ ?rest))"
  let ?d = "ord c - ord CHR ''0''"
  let ?y = "x\<lparr>hp_nread := hp_nread x + 2, ex_mark := ?m, hp_index := 0, hp_state := s_header_value,
    hp_flags := F_CONTENTLENGTH, hp_content_length := of_nat ?d\<rparr>"
  have r: "room 1 (hp_nread x)" "room 1 (hp_nread x + 1)" "room 1 (hp_nread x + 2)" "room (length cs) (hp_nread x + 2 + 1)"
    "room 1 (hp_nread x + 2 + 1 + of_nat (length cs))"
    using room_less [OF assms(9)] room_add [of 1 1 "hp_nread x"] room_add [of 2 1 "hp_nread x"]
      room_add [of 3 "length cs" "hp_nread x"] room_add [of "3 + length cs" 1 "hp_nread x"] assms(9)
    by (simp_all add: v add.assoc room_less [of "length cs + 4"])
  note c = digit_facts [of c]
  have "in_state server_settings (x\<lparr>hp_nread := hp_nread x + 1\<rparr>) SP (ds @ ?rest) = (x\<lparr>hp_nread := hp_nread x + 1\<rparr>, Next (ds @ ?rest))"
    using assms(1) by (simp add: in_state_def in_header_value_discard_ws_def)
  then have "execute_loop server_settings x (SP # ds @ ?rest) =
      execute_loop server_settings (x\<lparr>hp_nread := hp_nread x + 1\<rparr>) (ds @ ?rest)"
    using assms(1) r by (simp add: execute_loop.simps(2) byte_counts reexecute.simps PARSING_HEADER_def)
  also have "\<dots> = execute_loop server_settings ?y (cs @ ?rest)"
  proof -
    have "in_state server_settings (x\<lparr>hp_nread := hp_nread x + 2\<rparr>) c (cs @ ?rest) = (?y, Next (cs @ ?rest))"
      using assms(1,3,4,5,7) c v
      by (simp add: in_state_def in_header_value_discard_ws_def in_header_value_start_def UPDATE_STATE_def MARK_def Let_def)
    then show ?thesis
      using assms(1) r v
      by (simp add: execute_loop.simps(2) byte_counts reexecute.simps PARSING_HEADER_def add.assoc)
  qed
  also have "\<dots> = execute_loop server_settings (x\<lparr>hp_flags := F_CONTENTLENGTH, hp_index := 0, hp_content_length := of_nat (length_value 0 ds),
      hp_nread := hp_nread x + 3 + of_nat (length cs), ex_mark := (\<lambda>_. None),
      hp_state := s_header_almost_done, hp_header_state := h_content_length\<rparr>) (LF # rest)"
  proof -
    let ?z = "?y\<lparr>hp_nread := hp_nread x + 2 + 1\<rparr>"
    obtain d es where d: "cs @ ?rest = d # es" by (cases cs) auto
    have "value_loop server_settings ?z h_content_length (length (d # es)) (cs @ ?rest) =
      (?z\<lparr>hp_content_length := of_nat (length_value ?d cs), hp_nread := hp_nread x + 2 + 1 + of_nat (length cs),
        ex_mark := ?m(on_header_value := None), hp_state := s_header_almost_done, hp_header_state := h_content_length\<rparr>, Next (LF # rest))"
      using assms(2,7,8) v r arg_cong [OF d, of length] by (subst read_digits [where n = ?d and k = "length cs"]) simp_all
    then have "in_state server_settings ?z d es = (x\<lparr>hp_flags := F_CONTENTLENGTH, hp_index := 0, hp_content_length := of_nat (length_value 0 ds),
      hp_nread := hp_nread x + 3 + of_nat (length cs), ex_mark := (\<lambda>_. None),
      hp_state := s_header_almost_done, hp_header_state := h_content_length\<rparr>, Next (LF # rest))"
      using d v assms(4) by (simp add: in_state_def in_header_value_def add.assoc)
    then show ?thesis
      unfolding d using r by (simp add: execute_loop.simps(2) byte_counts reexecute.simps PARSING_HEADER_def)
  qed
  also have "\<dots> = execute_loop server_settings (x\<lparr>hp_flags := F_CONTENTLENGTH, hp_index := 0, hp_content_length := of_nat (length_value 0 ds),
      ex_mark := (\<lambda>_. None), hp_header_state := h_content_length, hp_nread := hp_nread x + of_nat (length ds + 3),
      hp_state := s_header_value_lws\<rparr>) rest"
    using r by (subst read_lf) (simp_all add: v add.assoc)
  finally show ?thesis .
qed

section \<open>The end of the headers and the body\<close>

text \<open>Between two requests, and between two header lines of a request.\<close>

definition ready :: "exec \<Rightarrow> bool" where
  "ready x \<longleftrightarrow> hp_type x = HTTP_REQUEST \<and> hp_state x = s_start_req \<and> hp_errno x = HPE_OK \<and> hp_nread x = 0 \<and>
     ex_mark x = (\<lambda>_. None)"

definition in_headers :: "http_method \<Rightarrow> byte \<Rightarrow> u64 \<Rightarrow> http_event list \<Rightarrow> exec \<Rightarrow> bool" where
  "in_headers m f n calls x \<longleftrightarrow> hp_type x = HTTP_REQUEST \<and> hp_state x = s_header_field_start \<and> hp_errno x = HPE_OK \<and>
     ex_mark x = (\<lambda>_. None) \<and> hp_method x = m \<and> hp_flags x = f \<and> hp_content_length x = n \<and>
     hp_http_major x = 1 \<and> hp_http_minor x = 1 \<and> ex_calls x = calls"

definition in_body :: "http_method \<Rightarrow> u64 \<Rightarrow> http_event list \<Rightarrow> exec \<Rightarrow> bool" where
  "in_body m n calls x \<longleftrightarrow> hp_type x = HTTP_REQUEST \<and> hp_state x = s_body_identity \<and> hp_errno x = HPE_OK \<and> hp_nread x = 0 \<and>
     ex_mark x = (\<lambda>_. None) \<and> hp_method x = m \<and> hp_flags x = F_CONTENTLENGTH \<and> hp_content_length x = n \<and>
     hp_http_major x = 1 \<and> hp_http_minor x = 1 \<and> \<not> hp_upgrade x \<and> ex_calls x = calls"

lemma new_request: "hp_type x = HTTP_REQUEST \<Longrightarrow> hp_http_major x = 1 \<Longrightarrow> hp_http_minor x = 1 \<Longrightarrow>
    hp_flags x \<in> {0, F_CONTENTLENGTH} \<Longrightarrow> NEW_MESSAGE x = s_start_req"
  by (auto simp: NEW_MESSAGE_def http_should_keep_alive_def http_message_needs_eof_def F_CONTENTLENGTH_def F_CONNECTION_CLOSE_def)

lemma headers_end:
  assumes "in_headers m f n calls x" and "f \<in> {0, F_CONTENTLENGTH}" and "m \<noteq> HTTP_PARSER_METHOD_CONNECT"
    and "room 2 (hp_nread x)"
  shows "if n = 0 \<or> n = ULLONG_MAX
    then \<exists>y. ready y \<and> ex_calls y = calls @ [Notify on_message_complete] \<and>
      (\<forall>rest. execute_loop server_settings x (CR # LF # rest) = execute_loop server_settings y rest)
    else f = F_CONTENTLENGTH \<longrightarrow> (\<exists>y. in_body m n calls y \<and>
      (\<forall>rest. execute_loop server_settings x (CR # LF # rest) = execute_loop server_settings y rest))"
proof -
  let ?x = "x\<lparr>hp_nread := hp_nread x + 1, hp_state := s_headers_almost_done\<rparr>"
  let ?y = "x\<lparr>hp_nread := hp_nread x + 2, hp_state := s_headers_done, hp_upgrade := False\<rparr>"
  note a = assms(1) [unfolded in_headers_def]
  have r: "room 1 (hp_nread x)" "room 1 (hp_nread x + 1)"
    using assms(4) room_add [of 1 1] by (simp_all add: room_less)
  have "in_state server_settings (x\<lparr>hp_nread := hp_nread x + 1\<rparr>) CR (LF # rest) = (?x, Next (LF # rest))" for rest
    using a by (simp add: in_state_def in_header_field_start_def UPDATE_STATE_def)
  then have cr: "execute_loop server_settings x (CR # LF # rest) = execute_loop server_settings ?x (LF # rest)" for rest
    using a r by (simp add: execute_loop.simps(2) byte_counts reexecute.simps PARSING_HEADER_def)
  have flags: "f AND F_TRAILING = 0" "f AND F_CHUNKED = 0" "f AND F_SKIPBODY = 0"
    "f AND (F_UPGRADE OR F_CONNECTION_UPGRADE) \<noteq> F_UPGRADE OR F_CONNECTION_UPGRADE"
    using assms(2) by (auto simp: F_CONTENTLENGTH_def F_TRAILING_def F_CHUNKED_def F_SKIPBODY_def F_UPGRADE_def F_CONNECTION_UPGRADE_def)
  have almost: "reexecute server_settings (?x\<lparr>hp_nread := hp_nread x + 2\<rparr>) LF rest = reexecute server_settings ?y LF rest" for rest
    using a assms(3) flags
    by (intro reexecute_again) (simp add: in_state_def in_headers_almost_done_def STRICT_CHECK_def UPDATE_STATE_def)
  have lf: "on_byte server_settings ?x LF rest = reexecute server_settings ?y LF rest" for rest
    using r byte_counts [of ?x server_settings LF rest] almost by (simp add: PARSING_HEADER_def add.assoc)
  show ?thesis
  proof (cases "n = 0 \<or> n = ULLONG_MAX")
    case True
    let ?z = "x\<lparr>hp_upgrade := False, hp_nread := 0, hp_state := s_start_req, ex_calls := calls @ [Notify on_message_complete]\<rparr>"
    have new: "NEW_MESSAGE (?y\<lparr>hp_nread := 0\<rparr>) = s_start_req"
      using a assms(2) by (intro new_request) simp_all
    have "in_state server_settings ?y LF rest = (?z, Next rest)" for rest
      using a flags True new
      by (auto simp: in_state_def in_headers_done_def STRICT_CHECK_def UPDATE_STATE_def CALLBACK_NOTIFY_def
          http_message_needs_eof_def Let_def)
    then have "execute_loop server_settings ?x (LF # rest) = execute_loop server_settings ?z rest" for rest
      using lf by (simp add: execute_loop.simps(2) reexecute.simps)
    moreover have "ready ?z" using a by (simp add: ready_def)
    ultimately show ?thesis using True cr by (auto intro!: exI [of _ ?z])
  next
    case False
    let ?z = "x\<lparr>hp_upgrade := False, hp_nread := 0, hp_state := s_body_identity\<rparr>"
    have "in_state server_settings ?y LF rest = (?z, Next rest)" for rest
      using a flags False
      by (auto simp: in_state_def in_headers_done_def STRICT_CHECK_def UPDATE_STATE_def Let_def)
    then have "execute_loop server_settings ?x (LF # rest) = execute_loop server_settings ?z rest" for rest
      using lf by (simp add: execute_loop.simps(2) reexecute.simps)
    moreover have "in_body m n calls ?z" if "f = F_CONTENTLENGTH" using a that by (simp add: in_body_def)
    ultimately show ?thesis using False cr by (auto intro!: exI [of _ ?z])
  qed
qed

text \<open>A body in full, and a part of one.\<close>

lemma body_full:
  assumes "in_body m (of_nat (length body)) calls x" and "body \<noteq> []" and "length body < 2 ^ 60"
  shows "\<exists>y. ready y \<and> ex_calls y = calls @ [Data on_body m (body @ rest) (length body), Notify on_message_complete] \<and>
    execute_loop server_settings x (body @ rest) = execute_loop server_settings y rest"
proof -
  obtain c cs where body: "body = c # cs" using assms(2) by (cases body) auto
  note a = assms(1) [unfolded in_body_def]
  let ?n = "of_nat (length body) :: u64"
  have n: "unat ?n = length body" "?n \<noteq> 0" "?n \<noteq> ULLONG_MAX"
  proof -
    show u: "unat ?n = length body" using assms(3) by (simp add: unat_of_nat)
    show "?n \<noteq> 0" using u assms(2) by (metis length_0_conv unat_0)
    have "unat ULLONG_MAX = 18446744073709551615" by (simp add: ULLONG_MAX_def unsigned_minus_1_eq_mask mask_eq_exp_minus_1)
    then show "?n \<noteq> ULLONG_MAX" using u assms(3) by auto
  qed
  have read: "to_read x (c # cs @ rest) = Suc (length cs)"
    using a n(1) body by (simp add: to_read_def)
  have p: "tl (drop (length cs) (c # cs @ rest)) = rest" by (cases cs) (simp_all add: tl_drop)
  let ?y = "x\<lparr>ex_mark := (\<lambda>_. None), hp_content_length := 0, hp_state := s_message_done,
    ex_calls := calls @ [Data on_body m (body @ rest) (length body)]\<rparr>"
  let ?z = "?y\<lparr>hp_state := s_start_req, ex_calls := calls @ [Data on_body m (body @ rest) (length body), Notify on_message_complete]\<rparr>"
  have zero: "hp_content_length x - (1 + of_nat (length cs)) = 0" using a body by simp
  have "in_state server_settings x c (cs @ rest) = (?y, Reexecute c rest)"
    using a n read p zero body
    by (simp add: in_state_def in_body_identity_def MARK_def UPDATE_STATE_def CALLBACK_DATA_def Let_def)
  then have "reexecute server_settings x c (cs @ rest) = reexecute server_settings ?y c rest" by (rule reexecute_again)
  also have "\<dots> = (?z, Next rest)"
    using a new_request [of ?y]
    by (simp add: reexecute.simps in_state_def in_message_done_def CALLBACK_NOTIFY_def UPDATE_STATE_def Let_def)
  finally have "execute_loop server_settings x (body @ rest) = execute_loop server_settings ?z rest"
    using a body by (simp add: execute_loop.simps(2) on_byte_def PARSING_HEADER_def)
  moreover have "ready ?z" using a by (simp add: ready_def)
  ultimately show ?thesis by (intro exI [of _ ?z]) simp
qed

lemma body_part:
  assumes "in_body m (of_nat k) calls x" and "p \<noteq> []" and "length p < k" and "k < 2 ^ 60"
  shows "execute_loop server_settings x p =
    (x\<lparr>ex_mark := (\<lambda>_. None)(on_body := Some p), hp_content_length := of_nat (k - length p)\<rparr>, Next [])"
proof -
  obtain c cs where p: "p = c # cs" using assms(2) by (cases p) auto
  note a = assms(1) [unfolded in_body_def]
  have u: "unat (of_nat k :: u64) = k" using assms(4) by (simp add: unat_of_nat)
  have "unat ULLONG_MAX = 18446744073709551615" by (simp add: ULLONG_MAX_def unsigned_minus_1_eq_mask mask_eq_exp_minus_1)
  then have n: "(of_nat k :: u64) \<noteq> 0" "(of_nat k :: u64) \<noteq> ULLONG_MAX"
    using u assms(3,4) by (auto dest: arg_cong [where f = unat])
  have read: "to_read x (c # cs) = Suc (length cs)" using a u assms(3) p by (simp add: to_read_def)
  have left: "of_nat k - (1 + of_nat (length cs)) = (of_nat (k - Suc (length cs)) :: u64)"
    using assms(3) p by (simp add: of_nat_diff)
  have "unat (of_nat (k - Suc (length cs)) :: u64) = k - Suc (length cs)" using assms(4) by (simp add: unat_of_nat)
  then have "(of_nat (k - Suc (length cs)) :: u64) \<noteq> 0" using assms(3) p by (metis Suc_leI length_Cons unat_0 zero_less_diff less_numeral_extra(3))
  then have more: "(of_nat k :: u64) \<noteq> 1 + of_nat (length cs)" using left by auto
  have "tl (drop (length cs) (c # cs)) = []" by (cases cs) (simp_all add: tl_drop)
  then have "in_state server_settings x c cs =
      (x\<lparr>ex_mark := (\<lambda>_. None)(on_body := Some p), hp_content_length := of_nat (k - length p)\<rparr>, Next [])"
    using a n read left p more
    by (simp add: in_state_def in_body_identity_def MARK_def UPDATE_STATE_def Let_def)
  then show ?thesis
    using a p by (simp add: execute_loop.simps(2) on_byte_def PARSING_HEADER_def reexecute.simps)
qed

section \<open>Requests\<close>

text \<open>
  A request as a client writes it: the headers of no interest before and behind the length of the body, which is the
  text of a number, or \<open>None\<close> without a body.
\<close>

record request_t =
  rq_method :: http_method
  rq_url :: string
  rq_before :: "(string \<times> string) list"
  rq_length :: "string option"
  rq_after :: "(string \<times> string) list"
  rq_body :: string

definition header_text :: "string \<times> string \<Rightarrow> string" where
  "header_text h = fst h @ CHR '':'' # SP # snd h @ [CR, LF]"

definition request_headers :: "request_t \<Rightarrow> (string \<times> string) list" where
  "request_headers r =
     rq_before r @ (case rq_length r of None \<Rightarrow> [] | Some ds \<Rightarrow> [(''Content-Length'', ds)]) @ rq_after r"

definition behind_url :: "request_t \<Rightarrow> string" where
  "behind_url r = ''HTTP/1.1'' @ CR # LF # concat (map header_text (request_headers r)) @ [CR, LF]"

definition behind_method :: "request_t \<Rightarrow> string" where
  "behind_method r = rq_url r @ SP # behind_url r"

definition request_text :: "request_t \<Rightarrow> string" where
  "request_text r = method_strings (rq_method r) @ SP # behind_method r @ rq_body r"

definition plain_header :: "string \<times> string \<Rightarrow> bool" where
  "plain_header h \<longleftrightarrow>
     (case header_kind (fst h) of None \<Rightarrow> False | Some k \<Rightarrow> \<not> value_matters k) \<and>
     snd h \<noteq> [] \<and> hd (snd h) \<noteq> SP \<and> hd (snd h) \<noteq> TAB \<and> (\<forall>c \<in> set (snd h). value_text c)"

definition request_ok :: "request_t \<Rightarrow> bool" where
  "request_ok r \<longleftrightarrow>
     rq_method r \<in> {HTTP_PARSER_METHOD_GET, HTTP_PARSER_METHOD_POST, HTTP_PARSER_METHOD_PUT} \<and>
     rq_url r \<noteq> [] \<and> hd (rq_url r) = CHR ''/'' \<and> (\<forall>c \<in> set (tl (rq_url r)). url_text c) \<and>
     (\<forall>h \<in> set (rq_before r @ rq_after r). plain_header h) \<and>
     (case rq_length r of
        None \<Rightarrow> rq_body r = []
      | Some ds \<Rightarrow> ds \<noteq> [] \<and> (\<forall>c \<in> set ds. IS_NUM c) \<and> length_value 0 ds = length (rq_body r) \<and> length (rq_body r) < 2 ^ 60) \<and>
     length (behind_method r) + 10 \<le> HTTP_MAX_HEADER_SIZE"

text \<open>What the server is told of a request that other bytes follow.\<close>

definition body_events :: "request_t \<Rightarrow> string \<Rightarrow> http_event list" where
  "body_events r rest =
     (if rq_body r = [] then [] else [Data on_body (rq_method r) (rq_body r @ rest) (length (rq_body r))]) @
     [Notify on_message_complete]"

definition request_events :: "request_t \<Rightarrow> string \<Rightarrow> http_event list" where
  "request_events r rest =
     Data on_url (rq_method r) (behind_method r @ rq_body r @ rest) (length (rq_url r)) # body_events r rest"

lemma kind_first: "header_kind n = Some h \<Longrightarrow> \<exists>c cs. n = c # cs \<and> c \<noteq> SP \<and> c \<noteq> TAB"
  by (cases n) (auto simp: header_kind_def TOKEN_def tokens_32_def split: if_splits prod.splits control.splits)

text \<open>The lines behind a header begin with the name of the next one or with the empty line.\<close>

definition starts_line :: "string \<Rightarrow> bool" where
  "starts_line p \<longleftrightarrow> (\<exists>c cs. p = c # cs \<and> c \<noteq> SP \<and> c \<noteq> TAB)"

lemma read_header:
  assumes "in_headers m f n calls x" and "plain_header h" and "room (length (header_text h) + 1) (hp_nread x)"
  shows "\<exists>y. in_headers m f n calls y \<and> hp_nread y = hp_nread x + of_nat (length (header_text h)) \<and>
    (\<forall>rest. starts_line rest \<longrightarrow> execute_loop server_settings x (header_text h @ rest) = execute_loop server_settings y rest)"
proof -
  obtain name v where h: "h = (name, v)" by force
  let ?l = "length (header_text h)"
  have len: "?l = length name + 1 + (length v + 3)" by (simp add: header_text_def h)
  note a = assms(1) [unfolded in_headers_def]
  obtain k where k: "header_kind name = Some k" "\<not> value_matters k" and
      v: "v \<noteq> []" "hd v \<noteq> SP" "hd v \<noteq> TAB" "\<forall>c \<in> set v. value_text c"
    using assms(2) by (auto simp: plain_header_def h split: option.splits)
  have r: "room (length name + 1) (hp_nread x)" "room (length v + 3) (hp_nread x + of_nat (length name + 1))"
    "room 1 (hp_nread x + of_nat (length name + 1) + of_nat (length v + 3))"
    using room_less [OF assms(3)] room_add [of "length name + 1" "length v + 3" "hp_nread x"]
      room_add [of "length name + 1 + (length v + 3)" 1 "hp_nread x"] assms(3) len
    by (simp_all add: add.assoc)
  obtain i where name: "\<And>rest. execute_loop server_settings x (name @ CHR '':'' # rest) =
      execute_loop server_settings (x\<lparr>hp_nread := hp_nread x + of_nat (length name + 1), ex_mark := (\<lambda>_. None), hp_index := i,
        hp_state := s_header_value_discard_ws, hp_header_state := k\<rparr>) rest"
    using read_name [of x name k] a k(1) r(1) by blast
  let ?y = "x\<lparr>hp_nread := hp_nread x + of_nat (length name + 1), ex_mark := (\<lambda>_. None), hp_index := i,
        hp_state := s_header_value_discard_ws, hp_header_state := k\<rparr>"
  let ?w = "?y\<lparr>ex_mark := (\<lambda>_. None), hp_index := 0, hp_header_state := h_general,
      hp_nread := hp_nread ?y + of_nat (length v + 3), hp_state := s_header_value_lws\<rparr>"
  let ?z = "?w\<lparr>hp_state := s_header_field_start\<rparr>"
  have "execute_loop server_settings x (header_text h @ rest) = execute_loop server_settings ?z rest"
    if line: "starts_line rest" for rest
  proof -
    obtain c cs where c: "rest = c # cs" "c \<noteq> SP" "c \<noteq> TAB" using line by (auto simp: starts_line_def)
    have "execute_loop server_settings x (header_text h @ rest) = execute_loop server_settings ?y (SP # v @ CR # LF # rest)"
      using name by (simp add: header_text_def h)
    also have "\<dots> = execute_loop server_settings ?w rest"
      using a k(2) v r(2) by (intro read_value) simp_all
    also have "\<dots> = execute_loop server_settings ?z rest"
      unfolding c(1) using c r(3) by (intro line_ends) simp_all
    finally show ?thesis .
  qed
  moreover have "in_headers m f n calls ?z" using a by (simp add: in_headers_def)
  moreover have "hp_nread ?z = hp_nread x + of_nat ?l" using len by (simp add: add.assoc)
  ultimately show ?thesis by blast
qed

lemma lines_start:
  assumes "\<forall>h \<in> set hs. header_kind (fst h) \<noteq> None" and "starts_line p"
  shows "starts_line (concat (map header_text hs) @ p)"
proof (cases hs)
  case (Cons h hs')
  then obtain k where "header_kind (fst h) = Some k" using assms(1) by auto
  then obtain c cs where "fst h = c # cs" "c \<noteq> SP" "c \<noteq> TAB" using kind_first by blast
  then show ?thesis by (simp add: Cons starts_line_def header_text_def)
qed (use assms(2) in simp)

lemma plain_kind: "plain_header h \<Longrightarrow> header_kind (fst h) \<noteq> None"
  by (cases "header_kind (fst h)") (simp_all add: plain_header_def)

lemma read_headers:
  "in_headers m f n calls x \<Longrightarrow> \<forall>h \<in> set hs. plain_header h \<Longrightarrow> room (length (concat (map header_text hs)) + 1) (hp_nread x) \<Longrightarrow>
    \<exists>y. in_headers m f n calls y \<and> hp_nread y = hp_nread x + of_nat (length (concat (map header_text hs))) \<and>
      (\<forall>rest. starts_line rest \<longrightarrow>
        execute_loop server_settings x (concat (map header_text hs) @ rest) = execute_loop server_settings y rest)"
proof (induction hs arbitrary: x)
  case Nil
  then show ?case by (intro exI [of _ x]) simp
next
  case (Cons h hs)
  let ?l = "length (header_text h)" and ?k = "length (concat (map header_text hs))"
  have h: "plain_header h" using Cons.prems(2) by simp
  have r: "room (?l + 1) (hp_nread x)" "room (?k + 1) (hp_nread x + of_nat ?l)"
    using Cons.prems(3) room_less [of "?l + (?k + 1)" "hp_nread x" "?l + 1"] room_add [of ?l "?k + 1" "hp_nread x"]
    by (simp_all add: add.assoc)
  obtain y where y: "in_headers m f n calls y" "hp_nread y = hp_nread x + of_nat ?l"
      "\<And>rest. starts_line rest \<Longrightarrow> execute_loop server_settings x (header_text h @ rest) = execute_loop server_settings y rest"
    using read_header [OF Cons.prems(1) h r(1)] by blast
  obtain z where z: "in_headers m f n calls z" "hp_nread z = hp_nread y + of_nat ?k"
      "\<And>rest. starts_line rest \<Longrightarrow>
        execute_loop server_settings y (concat (map header_text hs) @ rest) = execute_loop server_settings z rest"
    using Cons.IH [OF y(1)] Cons.prems(2) r(2) y(2) by (force simp: ac_simps)
  have "starts_line (concat (map header_text hs) @ rest)" if "starts_line rest" for rest
    using Cons.prems(2) plain_kind that by (intro lines_start) auto
  then have "execute_loop server_settings x (concat (map header_text (h # hs)) @ rest) = execute_loop server_settings z rest"
    if "starts_line rest" for rest
    using y(3) z(3) that by simp
  then show ?case using z(1,2) y(2) by (intro exI [of _ z]) (simp add: add.assoc)
qed

lemma read_length_line:
  assumes "in_headers m 0 n calls x" and "ds \<noteq> []" and "\<forall>c \<in> set ds. IS_NUM c" and "length_value 0 ds < 2 ^ 60"
    and "room (length (header_text (''Content-Length'', ds)) + 1) (hp_nread x)"
  shows "\<exists>y. in_headers m F_CONTENTLENGTH (of_nat (length_value 0 ds)) calls y \<and>
    hp_nread y = hp_nread x + of_nat (length (header_text (''Content-Length'', ds))) \<and>
    (\<forall>rest. starts_line rest \<longrightarrow>
      execute_loop server_settings x (header_text (''Content-Length'', ds) @ rest) = execute_loop server_settings y rest)"
proof -
  let ?name = "''Content-Length''" and ?l = "length (header_text (''Content-Length'', ds))"
  have len: "?l = length ?name + 1 + (length ds + 3)" by (simp add: header_text_def)
  note a = assms(1) [unfolded in_headers_def]
  have r: "room (length ?name + 1) (hp_nread x)" "room (length ds + 3) (hp_nread x + of_nat (length ?name + 1))"
    "room 1 (hp_nread x + of_nat (length ?name + 1) + of_nat (length ds + 3))"
    using room_less [OF assms(5), of "length ?name + 1"] room_add [of "length ?name + 1" "length ds + 3" "hp_nread x"]
      room_less [OF assms(5), of "length ?name + 1 + (length ds + 3)"]
      room_add [of "length ?name + 1 + (length ds + 3)" 1 "hp_nread x"] assms(5)
    unfolding len by (simp_all only: add.assoc of_nat_add)
  obtain i where name: "\<And>rest. execute_loop server_settings x (?name @ CHR '':'' # rest) =
      execute_loop server_settings (x\<lparr>hp_nread := hp_nread x + of_nat (length ?name + 1), ex_mark := (\<lambda>_. None), hp_index := i,
        hp_state := s_header_value_discard_ws, hp_header_state := h_content_length\<rparr>) rest"
    using read_name [of x ?name h_content_length] a content_length_kind r(1) by blast
  let ?y = "x\<lparr>hp_nread := hp_nread x + of_nat (length ?name + 1), ex_mark := (\<lambda>_. None), hp_index := i,
        hp_state := s_header_value_discard_ws, hp_header_state := h_content_length\<rparr>"
  let ?w = "?y\<lparr>hp_flags := F_CONTENTLENGTH, hp_index := 0, hp_content_length := of_nat (length_value 0 ds),
      ex_mark := (\<lambda>_. None), hp_header_state := h_content_length, hp_nread := hp_nread ?y + of_nat (length ds + 3),
      hp_state := s_header_value_lws\<rparr>"
  let ?z = "?w\<lparr>hp_state := s_header_field_start\<rparr>"
  have "execute_loop server_settings x (header_text (?name, ds) @ rest) = execute_loop server_settings ?z rest"
    if line: "starts_line rest" for rest
  proof -
    obtain c cs where c: "rest = c # cs" "c \<noteq> SP" "c \<noteq> TAB" using line by (auto simp: starts_line_def)
    have "execute_loop server_settings x (header_text (?name, ds) @ rest) = execute_loop server_settings ?y (SP # ds @ CR # LF # rest)"
      using name [of "SP # ds @ CR # LF # rest"] by (simp add: header_text_def)
    also have "\<dots> = execute_loop server_settings ?w rest"
      using a assms(2-4) r(2) by (intro read_content_length) simp_all
    also have "\<dots> = execute_loop server_settings ?z rest"
      unfolding c(1) using c r(3) by (intro line_ends) simp_all
    finally show ?thesis .
  qed
  moreover have "in_headers m F_CONTENTLENGTH (of_nat (length_value 0 ds)) calls ?z" using a by (simp add: in_headers_def)
  moreover have "hp_nread ?z = hp_nread x + of_nat ?l" unfolding len by (simp add: add.assoc)
  ultimately show ?thesis by blast
qed

lemma read_method:
  assumes "hp_state x = s_start_req" and "hp_errno x = HPE_OK" and "room 10 (hp_nread x)"
    and "m \<in> {HTTP_PARSER_METHOD_GET, HTTP_PARSER_METHOD_POST, HTTP_PARSER_METHOD_PUT}"
  shows "execute_loop server_settings x (method_strings m @ SP # rest) =
    execute_loop server_settings (x\<lparr>hp_flags := 0, hp_content_length := ULLONG_MAX, hp_method := m,
      hp_nread := of_nat (length (method_strings m) + 1) + hp_nread x, hp_state := s_req_spaces_before_url,
      hp_index := of_nat (length (method_strings m) + 1)\<rparr>) rest"
  using assms(4) read_GET [OF assms(1-3), of rest] read_POST [OF assms(1-3), of rest] read_PUT [OF assms(1-3), of rest]
  by (auto simp: method_strings_def)

text \<open>All the headers of a request.\<close>

lemma read_all_headers:
  assumes "in_headers m 0 ULLONG_MAX calls x" and "request_ok r"
    and "room (length (concat (map header_text (request_headers r))) + 2) (hp_nread x)"
  shows "\<exists>y f n. in_headers m f n calls y \<and> room 2 (hp_nread y) \<and>
    (if rq_body r = [] then f \<in> {0, F_CONTENTLENGTH} \<and> (n = 0 \<or> n = ULLONG_MAX)
     else f = F_CONTENTLENGTH \<and> n = of_nat (length (rq_body r))) \<and>
    (\<forall>rest. execute_loop server_settings x (concat (map header_text (request_headers r)) @ CR # LF # rest) =
      execute_loop server_settings y (CR # LF # rest))"
proof -
  let ?t = "\<lambda>hs. concat (map header_text hs)"
  let ?b = "length (?t (rq_before r))" and ?a = "length (?t (rq_after r))"
  have plain: "\<forall>h \<in> set (rq_before r). plain_header h" "\<forall>h \<in> set (rq_after r). plain_header h"
    using assms(2) by (auto simp: request_ok_def)
  have line: "starts_line (CR # p)" for p by (simp add: starts_line_def)
  have after: "starts_line (?t (rq_after r) @ CR # p)" for p
    using plain(2) plain_kind line by (intro lines_start) auto
  show ?thesis
  proof (cases "rq_length r")
    case None
    then have hs: "request_headers r = rq_before r @ rq_after r" by (simp add: request_headers_def)
    have body: "rq_body r = []" using assms(2) None by (simp add: request_ok_def)
    have "\<exists>y. in_headers m 0 ULLONG_MAX calls y \<and> hp_nread y = hp_nread x + of_nat (length (?t (request_headers r))) \<and>
      (\<forall>rest. starts_line rest \<longrightarrow>
        execute_loop server_settings x (?t (request_headers r) @ rest) = execute_loop server_settings y rest)"
      using plain hs assms(1) room_less [OF assms(3)] by (intro read_headers) auto
    then obtain y where y: "in_headers m 0 ULLONG_MAX calls y" "hp_nread y = hp_nread x + of_nat (length (?t (request_headers r)))"
      "\<And>rest. starts_line rest \<Longrightarrow> execute_loop server_settings x (?t (request_headers r) @ rest) = execute_loop server_settings y rest"
      by blast
    have "room 2 (hp_nread y)" using room_add [OF assms(3)] y(2) by simp
    then show ?thesis using y(1,3) body line by (intro exI [of _ y] exI [of _ 0] exI [of _ ULLONG_MAX]) simp
  next
    case (Some ds)
    let ?c = "(''Content-Length'', ds)" and ?n = "length_value 0 ds"
    have hs: "request_headers r = rq_before r @ ?c # rq_after r" using Some by (simp add: request_headers_def)
    have ds: "ds \<noteq> []" "\<forall>c \<in> set ds. IS_NUM c" "?n = length (rq_body r)" "?n < 2 ^ 60"
      using assms(2) Some by (simp_all add: request_ok_def)
    let ?l = "length (header_text ?c)"
    have all: "room (?b + (?l + (?a + 2))) (hp_nread x)" using assms(3) by (simp add: hs add.assoc)
    have r: "room (?b + 1) (hp_nread x)" "room (?l + 1) (hp_nread x + of_nat ?b)"
      "room (?a + 1) (hp_nread x + of_nat ?b + of_nat ?l)" "room 2 (hp_nread x + of_nat ?b + of_nat ?l + of_nat ?a)"
      using room_less [OF all, of "?b + 1"] room_less [OF room_add [OF all], of "?l + 1"]
        room_less [OF room_add [OF room_add [OF all]], of "?a + 1"] room_add [OF room_add [OF room_add [OF all]]] by simp_all
    have cl: "starts_line (header_text ?c @ p)" for p by (simp add: starts_line_def header_text_def)
    obtain y where y: "in_headers m 0 ULLONG_MAX calls y" "hp_nread y = hp_nread x + of_nat ?b"
      "\<And>rest. starts_line rest \<Longrightarrow> execute_loop server_settings x (?t (rq_before r) @ rest) = execute_loop server_settings y rest"
      using read_headers [OF assms(1) plain(1) r(1)] by blast
    obtain z where z: "in_headers m F_CONTENTLENGTH (of_nat ?n) calls z" "hp_nread z = hp_nread y + of_nat ?l"
      "\<And>rest. starts_line rest \<Longrightarrow> execute_loop server_settings y (header_text ?c @ rest) = execute_loop server_settings z rest"
      using read_length_line [OF y(1) ds(1,2,4)] r(2) y(2) by auto
    obtain w where w: "in_headers m F_CONTENTLENGTH (of_nat ?n) calls w" "hp_nread w = hp_nread z + of_nat ?a"
      "\<And>rest. starts_line rest \<Longrightarrow> execute_loop server_settings z (?t (rq_after r) @ rest) = execute_loop server_settings w rest"
      using read_headers [OF z(1) plain(2)] r(3) y(2) z(2) by auto
    have "execute_loop server_settings x (?t (request_headers r) @ CR # LF # rest) = execute_loop server_settings w (CR # LF # rest)" for rest
      using y(3) z(3) w(3) cl after line by (simp add: hs)
    moreover have "room 2 (hp_nread w)" using r(4) w(2) z(2) y(2) by simp
    ultimately show ?thesis
      using w(1) ds(3) by (intro exI [of _ w] exI [of _ F_CONTENTLENGTH] exI [of _ "of_nat ?n"]) simp
  qed
qed

text \<open>The request line and the headers, with what follows them in the buffer.\<close>

definition request_head :: "request_t \<Rightarrow> string" where
  "request_head r = method_strings (rq_method r) @ SP # behind_method r"

definition url_event :: "request_t \<Rightarrow> string \<Rightarrow> http_event" where
  "url_event r rest = Data on_url (rq_method r) (behind_method r @ rest) (length (rq_url r))"

lemma body_length:
  assumes "request_ok r" and "rq_body r \<noteq> []"
  shows "length (rq_body r) < 2 ^ 60" and "(of_nat (length (rq_body r)) :: u64) \<notin> {0, ULLONG_MAX}"
proof -
  show len: "length (rq_body r) < 2 ^ 60" using assms by (cases "rq_length r") (auto simp: request_ok_def)
  let ?n = "of_nat (length (rq_body r)) :: u64"
  have "unat ?n = length (rq_body r)" using len by (simp add: unat_of_nat)
  moreover have "unat ULLONG_MAX = 18446744073709551615" by (simp add: ULLONG_MAX_def unsigned_minus_1_eq_mask mask_eq_exp_minus_1)
  ultimately have "unat ?n \<noteq> unat (0 :: u64)" "unat ?n \<noteq> unat ULLONG_MAX" using assms(2) len by simp_all
  then have "?n \<noteq> 0" "?n \<noteq> ULLONG_MAX" by metis+
  then show "?n \<notin> {0, ULLONG_MAX}" by blast
qed

definition at_version :: "http_method \<Rightarrow> http_event list \<Rightarrow> exec \<Rightarrow> bool" where
  "at_version m calls x \<longleftrightarrow> hp_type x = HTTP_REQUEST \<and> hp_state x = s_req_http_start \<and> hp_errno x = HPE_OK \<and>
     ex_mark x = (\<lambda>_. None) \<and> hp_method x = m \<and> hp_flags x = 0 \<and> hp_content_length x = ULLONG_MAX \<and> ex_calls x = calls"

lemma read_behind_url:
  assumes "at_version (rq_method r) calls x" and "request_ok r" and "room (length (behind_url r)) (hp_nread x)"
  shows "\<exists>y. (\<forall>rest. execute_loop server_settings x (behind_url r @ rest) = execute_loop server_settings y rest) \<and>
    (if rq_body r = [] then ready y \<and> ex_calls y = calls @ [Notify on_message_complete]
     else in_body (rq_method r) (of_nat (length (rq_body r))) calls y)"
proof -
  let ?S = server_settings and ?m = "rq_method r" and ?body = "rq_body r"
  let ?head = "concat (map header_text (request_headers r))"
  let ?x = "x\<lparr>hp_http_major := 1, hp_http_minor := 1, hp_nread := 10 + hp_nread x, hp_state := s_header_field_start\<rparr>"
  note a = assms(1) [unfolded at_version_def]
  have all: "room (10 + (length ?head + 2)) (hp_nread x)" using assms(3) by (simp add: behind_url_def room_def)
  have line: "execute_loop ?S x (behind_url r @ rest) = execute_loop ?S ?x (?head @ CR # LF # rest)" for rest
    using read_version [of x "?head @ CR # LF # rest"] a room_less [OF all, of 10] by (simp add: behind_url_def)
  have h: "in_headers ?m 0 ULLONG_MAX calls ?x" using a by (simp add: in_headers_def)
  have "room (length ?head + 2) (hp_nread ?x)" using room_add [OF all] by (simp add: add.commute)
  then obtain y f n where y: "in_headers ?m f n calls y" "room 2 (hp_nread y)"
      "if ?body = [] then f \<in> {0, F_CONTENTLENGTH} \<and> (n = 0 \<or> n = ULLONG_MAX) else f = F_CONTENTLENGTH \<and> n = of_nat (length ?body)"
      "\<And>rest. execute_loop ?S ?x (?head @ CR # LF # rest) = execute_loop ?S y (CR # LF # rest)"
    using read_all_headers [OF h assms(2)] by blast
  have connect: "?m \<noteq> HTTP_PARSER_METHOD_CONNECT" using assms(2) by (auto simp: request_ok_def)
  have f: "f \<in> {0, F_CONTENTLENGTH}" using y(3) by (auto split: if_splits)
  show ?thesis
  proof (cases "?body = []")
    case True
    then obtain z where "ready z" "ex_calls z = calls @ [Notify on_message_complete]"
        "\<And>rest. execute_loop ?S y (CR # LF # rest) = execute_loop ?S z rest"
      using headers_end [OF y(1) f connect y(2)] y(3) by auto
    then show ?thesis using True line y(4) by (intro exI [of _ z]) simp
  next
    case False
    then have n: "n \<noteq> 0" "n \<noteq> ULLONG_MAX" "n = of_nat (length ?body)" using body_length [OF assms(2)] y(3) by auto
    obtain z where "in_body ?m (of_nat (length ?body)) calls z"
        "\<And>rest. execute_loop ?S y (CR # LF # rest) = execute_loop ?S z rest"
      using headers_end [OF y(1) f connect y(2)] y(3) n False by auto
    then show ?thesis using False line y(4) by (intro exI [of _ z]) simp
  qed
qed

lemma request_facts:
  assumes "request_ok r"
  obtains u where "rq_url r = CHR ''/'' # u" and "\<forall>c \<in> set u. url_text c"
    and "rq_method r \<in> {HTTP_PARSER_METHOD_GET, HTTP_PARSER_METHOD_POST, HTTP_PARSER_METHOD_PUT}"
    and "length u + length (behind_url r) + 12 \<le> HTTP_MAX_HEADER_SIZE"
    and "length (method_strings (rq_method r)) + 1 \<le> 5"
  using assms by (cases "rq_url r") (auto simp: request_ok_def behind_method_def method_strings_def)

lemma read_head:
  assumes "ready x" and "request_ok r"
  shows "\<exists>y. execute_loop server_settings x (request_head r @ rest) = execute_loop server_settings y rest \<and>
    (if rq_body r = [] then ready y \<and> ex_calls y = ex_calls x @ [url_event r rest, Notify on_message_complete]
     else in_body (rq_method r) (of_nat (length (rq_body r))) (ex_calls x @ [url_event r rest]) y)"
proof -
  let ?S = server_settings and ?m = "rq_method r"
  obtain u where u: "rq_url r = CHR ''/'' # u" "\<forall>c \<in> set u. url_text c"
    and m: "?m \<in> {HTTP_PARSER_METHOD_GET, HTTP_PARSER_METHOD_POST, HTTP_PARSER_METHOD_PUT}"
    and size: "length u + length (behind_url r) + 12 \<le> HTTP_MAX_HEADER_SIZE" "length (method_strings ?m) + 1 \<le> 5"
    by (rule request_facts [OF assms(2)])
  let ?ml = "length (method_strings ?m) + 1"
  note a = assms(1) [unfolded ready_def]
  have all: "room (?ml + (length u + 2 + length (behind_url r))) 0" using size by (simp add: room_def)
  have r1: "room (length u + 2 + length (behind_url r)) (0 + of_nat ?ml)" using room_add [OF all] .
  have r: "room 10 (hp_nread x)" "room (length u + 2) (of_nat ?ml + hp_nread x)"
    "room (length (behind_url r)) (of_nat ?ml + hp_nread x + of_nat (length u + 2))"
    using a size room_less [OF r1, of "length u + 2"] room_add [OF r1] by (simp_all add: room_def)
  let ?x1 = "x\<lparr>hp_flags := 0, hp_content_length := ULLONG_MAX, hp_method := ?m, hp_nread := of_nat ?ml + hp_nread x,
    hp_state := s_req_spaces_before_url, hp_index := of_nat ?ml\<rparr>"
  let ?x2 = "?x1\<lparr>hp_nread := hp_nread ?x1 + of_nat (length u + 2), hp_state := s_req_http_start,
      ex_mark := (\<lambda>_. None), ex_calls := ex_calls ?x1 @ [url_event r rest]\<rparr>"
  have whole: "request_head r @ rest = method_strings ?m @ SP # rq_url r @ SP # behind_url r @ rest"
    by (simp add: request_head_def behind_method_def)
  have "execute_loop ?S x (request_head r @ rest) = execute_loop ?S ?x1 (rq_url r @ SP # behind_url r @ rest)"
    unfolding whole using a m r(1) by (intro read_method) simp_all
  also have "\<dots> = execute_loop ?S ?x2 (behind_url r @ rest)"
    using read_url [of ?x1 u "behind_url r @ rest"] a m u r(2) by (auto simp: url_event_def behind_method_def)
  finally have to_url: "execute_loop ?S x (request_head r @ rest) = execute_loop ?S ?x2 (behind_url r @ rest)" .
  have "at_version ?m (ex_calls x @ [url_event r rest]) ?x2" using a by (simp add: at_version_def)
  moreover have "room (length (behind_url r)) (hp_nread ?x2)" using r(3) by simp
  ultimately obtain y where y: "\<And>rest. execute_loop ?S ?x2 (behind_url r @ rest) = execute_loop ?S y rest"
      "if rq_body r = [] then ready y \<and> ex_calls y = (ex_calls x @ [url_event r rest]) @ [Notify on_message_complete]
       else in_body ?m (of_nat (length (rq_body r))) (ex_calls x @ [url_event r rest]) y"
    using read_behind_url [OF _ assms(2)] by blast
  then show ?thesis using to_url by (intro exI [of _ y]) (auto split: if_splits)
qed

text \<open>One request, with what follows it in the buffer.\<close>

lemma read_request:
  assumes "ready x" and "request_ok r"
  shows "\<exists>y. ready y \<and> ex_calls y = ex_calls x @ request_events r rest \<and>
    execute_loop server_settings x (request_text r @ rest) = execute_loop server_settings y rest"
proof -
  let ?S = server_settings and ?m = "rq_method r" and ?body = "rq_body r"
  have head: "request_text r @ rest = request_head r @ ?body @ rest" by (simp add: request_text_def request_head_def)
  obtain z where z: "execute_loop ?S x (request_head r @ ?body @ rest) = execute_loop ?S z (?body @ rest)"
      "if ?body = [] then ready z \<and> ex_calls z = ex_calls x @ [url_event r (?body @ rest), Notify on_message_complete]
       else in_body ?m (of_nat (length ?body)) (ex_calls x @ [url_event r (?body @ rest)]) z"
    using read_head [OF assms] by blast
  show ?thesis
  proof (cases "?body = []")
    case True
    then show ?thesis
      using head z by (intro exI [of _ z]) (simp add: request_events_def body_events_def url_event_def)
  next
    case False
    then have "in_body ?m (of_nat (length ?body)) (ex_calls x @ [url_event r (?body @ rest)]) z" using z(2) by simp
    then obtain w where "ready w" "ex_calls w = (ex_calls x @ [url_event r (?body @ rest)]) @
          [Data on_body ?m (?body @ rest) (length ?body), Notify on_message_complete]"
        "execute_loop ?S z (?body @ rest) = execute_loop ?S w rest"
      using body_full [OF _ False body_length(1) [OF assms(2) False]] by blast
    then show ?thesis
      using False head z(1) by (intro exI [of _ w]) (simp add: request_events_def body_events_def url_event_def)
  qed
qed

section \<open>Buffers\<close>

definition parser_ready :: "http_parser \<Rightarrow> bool" where
  "parser_ready p \<longleftrightarrow> hp_type p = HTTP_REQUEST \<and> hp_state p = s_start_req \<and> hp_errno p = HPE_OK \<and> hp_nread p = 0"

definition requests_text :: "request_t list \<Rightarrow> string" where
  "requests_text rs = concat (map request_text rs)"

fun requests_events :: "request_t list \<Rightarrow> http_event list" where
  "requests_events [] = []"
| "requests_events (r # rs) = request_events r (requests_text rs) @ requests_events rs"

lemma read_requests:
  "ready x \<Longrightarrow> \<forall>r \<in> set rs. request_ok r \<Longrightarrow>
    \<exists>y. ready y \<and> ex_calls y = ex_calls x @ requests_events rs \<and> execute_loop server_settings x (requests_text rs) = (y, Next [])"
proof (induction rs arbitrary: x)
  case Nil
  then show ?case by (simp add: requests_text_def)
next
  case (Cons r rs)
  then obtain y where y: "ready y" "ex_calls y = ex_calls x @ request_events r (requests_text rs)"
      "execute_loop server_settings x (request_text r @ requests_text rs) = execute_loop server_settings y (requests_text rs)"
    using read_request [OF Cons.prems(1), of r "requests_text rs"] by auto
  have text_cons: "requests_text (r # rs) = request_text r @ requests_text rs" by (simp add: requests_text_def)
  show ?case using Cons.IH [OF y(1)] Cons.prems(2) y(2,3) text_cons by auto
qed

lemma leftovers_none: "ex_mark x = (\<lambda>_. None) \<Longrightarrow> hp_errno x = HPE_OK \<Longrightarrow> leftovers S x = (x, Return [])"
  by (simp add: leftovers_def marked_def CALLBACK_DATA_def)

lemma execute_text:
  assumes "hp_errno p = HPE_OK" and "data \<noteq> []"
    and "execute_loop S (http_parser.extend p (exec.fields (first_marks (hp_state p) data) [])) data = (y, Next [])"
    and "leftovers S y = (z, Return [])"
  shows "http_parser_execute S p data = (http_parser.truncate z, ex_calls z, Some (length data))"
  using assms by (simp add: http_parser_execute_def)

lemma execute_requests:
  assumes "parser_ready p" and "rs \<noteq> []" and "\<forall>r \<in> set rs. request_ok r"
  shows "\<exists>q. parser_ready q \<and>
    http_parser_execute server_settings p (requests_text rs) = (q, requests_events rs, Some (length (requests_text rs)))"
proof -
  let ?x = "http_parser.extend p (exec.fields (first_marks (hp_state p) (requests_text rs)) [])"
  have first: "first_marks s_start_req d = (\<lambda>_. None)" for d by (auto simp: first_marks_def url_states_def)
  have "ready ?x"
    using assms(1) by (simp add: ready_def parser_ready_def first http_parser.defs exec.defs)
  then obtain y where y: "ready y" "ex_calls y = requests_events rs" "execute_loop server_settings ?x (requests_text rs) = (y, Next [])"
    using read_requests [of ?x rs] assms(3) by (auto simp: http_parser.defs exec.defs)
  have "requests_text rs \<noteq> []" using assms(2) by (cases rs) (simp_all add: requests_text_def request_text_def)
  then have "http_parser_execute server_settings p (requests_text rs) =
      (http_parser.truncate y, requests_events rs, Some (length (requests_text rs)))"
    using execute_text [OF _ _ y(3)] leftovers_none [of y] assms(1) y(1,2) by (simp add: ready_def parser_ready_def)
  moreover have "parser_ready (http_parser.truncate y)"
    using y(1) by (simp add: ready_def parser_ready_def http_parser.defs)
  ultimately show ?thesis by blast
qed

text \<open>
  C11: Requests are parsed as they are written: from a parser that is ready, the text of any number of requests in one
  buffer leads to the URL, the body and the end of each, in order and in full, and leaves the parser ready again.
\<close>

theorem requests_parsed:
  assumes "parser_ready p" and "rs \<noteq> []" and "\<forall>r \<in> set rs. request_ok r"
  shows "\<exists>q. parser_ready q \<and>
    http_parser_execute server_settings p (requests_text rs) = (q, requests_events rs, Some (length (requests_text rs)))"
  by (rule execute_requests [OF assms])

definition sample_request :: request_t where
  "sample_request = \<lparr>rq_method = HTTP_PARSER_METHOD_PUT, rq_url = ''/characteristics'',
     rq_before = [(''Host'', ''lamp._hap._tcp.local'')], rq_length = Some ''2'',
     rq_after = [(''Content-Type'', ''application/hap+json'')], rq_body = ''{}''\<rparr>"

lemma sample_kinds:
  "header_kind ''Host'' = Some h_general" "header_kind ''Content-Type'' = Some h_general"
  by (simp_all add: header_kind_def in_header_field_start_def blank_exec_def http_parser_init_def http_parser.defs exec.defs
      TOKEN_def tokens_32_def MARK_def UPDATE_STATE_def field_char_def match_word_def CONTENT_LENGTH_def Let_def)

lemma sample_request_ok: "request_ok sample_request"
  by (simp add: request_ok_def sample_request_def plain_header_def sample_kinds value_matters_def value_text_def IS_HEADER_CHAR_def
      url_text_def IS_URL_CHAR_def normal_url_char_def IS_NUM_def behind_method_def request_headers_def header_text_def
      behind_url_def HTTP_MAX_HEADER_SIZE_def)

lemma requests_parsed_witness:
  "\<exists>q. parser_ready q \<and> http_parser_execute server_settings (http_parser_init HTTP_REQUEST)
    (requests_text [sample_request, sample_request]) =
    (q, requests_events [sample_request, sample_request], Some (length (requests_text [sample_request, sample_request])))"
  by (rule requests_parsed) (simp_all add: parser_ready_def http_parser_init_def sample_request_ok)

subsection \<open>A body in several buffers\<close>

definition parser_in_body :: "http_method \<Rightarrow> nat \<Rightarrow> http_parser \<Rightarrow> bool" where
  "parser_in_body m n p \<longleftrightarrow> hp_type p = HTTP_REQUEST \<and> hp_state p = s_body_identity \<and> hp_errno p = HPE_OK \<and> hp_nread p = 0 \<and>
     hp_method p = m \<and> hp_flags p = F_CONTENTLENGTH \<and> hp_content_length p = of_nat n \<and>
     hp_http_major p = 1 \<and> hp_http_minor p = 1 \<and> \<not> hp_upgrade p"

lemma body_start:
  assumes "parser_in_body m n p"
  shows "in_body m (of_nat n) [] (http_parser.extend p (exec.fields (first_marks (hp_state p) data) []))"
proof -
  have "first_marks s_body_identity data = (\<lambda>_. None)" by (auto simp: first_marks_def url_states_def)
  then show ?thesis using assms by (simp add: parser_in_body_def in_body_def http_parser.defs exec.defs)
qed

lemma execute_part:
  assumes "parser_in_body m n p" and "b \<noteq> []" and "length b < n" and "n < 2 ^ 60"
  shows "\<exists>q. parser_in_body m (n - length b) q \<and>
    http_parser_execute server_settings p b = (q, [Data on_body m b (length b)], Some (length b))"
proof -
  let ?x = "http_parser.extend p (exec.fields (first_marks (hp_state p) b) [])"
  let ?y = "?x\<lparr>ex_mark := (\<lambda>_. None)(on_body := Some b), hp_content_length := of_nat (n - length b)\<rparr>"
  let ?z = "?x\<lparr>ex_mark := (\<lambda>_. None), hp_content_length := of_nat (n - length b), ex_calls := [Data on_body m b (length b)]\<rparr>"
  have x: "in_body m (of_nat n) [] ?x" by (rule body_start [OF assms(1)])
  have "execute_loop server_settings ?x b = (?y, Next [])" by (rule body_part [OF x assms(2-4)])
  moreover have "leftovers server_settings ?y = (?z, Return [])"
    using x by (simp add: leftovers_def marked_def CALLBACK_DATA_def in_body_def Let_def)
  ultimately have "http_parser_execute server_settings p b = (http_parser.truncate ?z, ex_calls ?z, Some (length b))"
    using assms(1,2) by (intro execute_text) (auto simp: parser_in_body_def)
  moreover have "parser_in_body m (n - length b) (http_parser.truncate ?z)"
    using assms(1) by (simp add: parser_in_body_def http_parser.defs)
  ultimately show ?thesis by auto
qed

lemma execute_last:
  assumes "parser_in_body m (length b) p" and "b \<noteq> []" and "length b < 2 ^ 60"
  shows "\<exists>q. parser_ready q \<and> http_parser_execute server_settings p b =
    (q, [Data on_body m b (length b), Notify on_message_complete], Some (length b))"
proof -
  let ?x = "http_parser.extend p (exec.fields (first_marks (hp_state p) b) [])"
  obtain y where y: "ready y" "ex_calls y = [Data on_body m b (length b), Notify on_message_complete]"
      "execute_loop server_settings ?x b = (y, Next [])"
    using body_full [OF body_start [OF assms(1)] assms(2,3), where rest = "[]"] by auto
  have "http_parser_execute server_settings p b = (http_parser.truncate y, ex_calls y, Some (length b))"
    using assms(1,2) y leftovers_none [of y] by (intro execute_text) (auto simp: parser_in_body_def ready_def)
  moreover have "parser_ready (http_parser.truncate y)" using y(1) by (simp add: ready_def parser_ready_def http_parser.defs)
  ultimately show ?thesis using y(2) by auto
qed

definition piece :: "http_method \<Rightarrow> string \<Rightarrow> http_event" where
  "piece m b = Data on_body m b (length b)"

lemma body_pieces:
  "parser_in_body m (length (concat bs)) p \<Longrightarrow> bs \<noteq> [] \<Longrightarrow> \<forall>b \<in> set bs. b \<noteq> [] \<Longrightarrow> length (concat bs) < 2 ^ 60 \<Longrightarrow>
    \<exists>q. parser_ready q \<and> parse_buffers server_settings p bs = Some (q, map (piece m) bs @ [Notify on_message_complete])"
proof (induction bs arbitrary: p)
  case (Cons b bs)
  show ?case
  proof (cases "bs = []")
    case True
    then show ?thesis using execute_last [of m b p] Cons.prems by (auto simp: piece_def)
  next
    case False
    then have "concat bs \<noteq> []" using Cons.prems(3) by (cases bs) auto
    then obtain q where q: "parser_in_body m (length (concat (b # bs)) - length b) q"
        "http_parser_execute server_settings p b = (q, [Data on_body m b (length b)], Some (length b))"
      using execute_part [OF Cons.prems(1), of b] Cons.prems(3,4) by auto
    then show ?thesis using Cons.IH [of q] Cons.prems False by (force simp: piece_def)
  qed
qed simp

text \<open>The head of a request in a buffer of its own.\<close>

lemma execute_head:
  assumes "parser_ready p" and "request_ok r" and "rq_body r \<noteq> []"
  shows "\<exists>q. parser_in_body (rq_method r) (length (rq_body r)) q \<and>
    http_parser_execute server_settings p (request_head r) = (q, [url_event r []], Some (length (request_head r)))"
proof -
  let ?x = "http_parser.extend p (exec.fields (first_marks (hp_state p) (request_head r)) [])"
  have first: "first_marks s_start_req d = (\<lambda>_. None)" for d by (auto simp: first_marks_def url_states_def)
  have x: "ready ?x" "ex_calls ?x = []" using assms(1) by (simp_all add: ready_def parser_ready_def first http_parser.defs exec.defs)
  obtain y where y: "execute_loop server_settings ?x (request_head r) = (y, Next [])"
      "in_body (rq_method r) (of_nat (length (rq_body r))) [url_event r []] y"
    using read_head [OF x(1) assms(2), of "[]"] assms(3) x(2) by auto
  note a = y(2) [unfolded in_body_def]
  have "http_parser_execute server_settings p (request_head r) =
      (http_parser.truncate y, ex_calls y, Some (length (request_head r)))"
    using assms(1) leftovers_none [of y] a by (intro execute_text [OF _ _ y(1)]) (auto simp: parser_ready_def request_head_def)
  moreover have "parser_in_body (rq_method r) (length (rq_body r)) (http_parser.truncate y)"
    using a by (simp add: parser_in_body_def http_parser.defs)
  ultimately show ?thesis using a by auto
qed

text \<open>
  C19: A body may come in any number of buffers: when the head of a request is one buffer and its body is split over
  others, none of them empty, the server is told the URL, each piece of the body as it comes and the end, and the parser
  is ready again.
\<close>

theorem body_in_pieces:
  assumes "parser_ready p" and "request_ok r" and "rq_body r = concat bs" and "bs \<noteq> []" and "\<forall>b \<in> set bs. b \<noteq> []"
  shows "\<exists>q. parser_ready q \<and> parse_buffers server_settings p (request_head r # bs) =
    Some (q, url_event r [] # map (piece (rq_method r)) bs @ [Notify on_message_complete])"
proof -
  have body: "rq_body r \<noteq> []" using assms(3-5) by (cases bs) auto
  obtain q where q: "parser_in_body (rq_method r) (length (concat bs)) q"
      "http_parser_execute server_settings p (request_head r) = (q, [url_event r []], Some (length (request_head r)))"
    using execute_head [OF assms(1,2) body] assms(3) by auto
  obtain t where "parser_ready t" "parse_buffers server_settings q bs = Some (t, map (piece (rq_method r)) bs @ [Notify on_message_complete])"
    using body_pieces [OF q(1) assms(4,5)] body_length(1) [OF assms(2) body] assms(3) by auto
  then show ?thesis using q(2) by simp
qed

lemma body_in_pieces_witness:
  "\<exists>q. parser_ready q \<and> parse_buffers server_settings (http_parser_init HTTP_REQUEST) [request_head sample_request, ''{'', ''}''] =
    Some (q, [url_event sample_request [], Data on_body HTTP_PARSER_METHOD_PUT ''{'' 1, Data on_body HTTP_PARSER_METHOD_PUT ''}'' 1,
      Notify on_message_complete])"
proof -
  have "parser_ready (http_parser_init HTTP_REQUEST)" by (simp add: parser_ready_def http_parser_init_def)
  moreover have "rq_body sample_request = concat [''{'', ''}'']" by (simp add: sample_request_def)
  ultimately have "\<exists>q. parser_ready q \<and> parse_buffers server_settings (http_parser_init HTTP_REQUEST)
      (request_head sample_request # [''{'', ''}'']) =
      Some (q, url_event sample_request [] # map (piece (rq_method sample_request)) [''{'', ''}''] @ [Notify on_message_complete])"
    by (intro body_in_pieces [OF _ sample_request_ok]) simp_all
  then show ?thesis by (simp add: piece_def sample_request_def [THEN arg_cong, where f = rq_method])
qed

subsection \<open>A URL in two buffers\<close>

definition parser_in_url :: "http_method \<Rightarrow> nat \<Rightarrow> http_parser \<Rightarrow> bool" where
  "parser_in_url m n p \<longleftrightarrow> hp_type p = HTTP_REQUEST \<and> hp_state p \<in> path_states \<and> hp_errno p = HPE_OK \<and> hp_nread p = of_nat n \<and>
     hp_method p = m \<and> hp_flags p = 0 \<and> hp_content_length p = ULLONG_MAX"

lemma execute_url_part:
  assumes "parser_ready p" and "m \<in> {HTTP_PARSER_METHOD_GET, HTTP_PARSER_METHOD_POST, HTTP_PARSER_METHOD_PUT}"
    and "\<forall>c \<in> set u. url_text c" and "length u + 10 \<le> HTTP_MAX_HEADER_SIZE"
  shows "\<exists>q. parser_in_url m (length (method_strings m) + 2 + length u) q \<and>
    http_parser_execute server_settings p (method_strings m @ SP # CHR ''/'' # u) =
      (q, [Data on_url m (CHR ''/'' # u) (length u + 1)], Some (length (method_strings m) + 2 + length u))"
proof -
  let ?S = server_settings and ?data = "method_strings m @ SP # CHR ''/'' # u" and ?ml = "length (method_strings m) + 1"
  let ?x = "http_parser.extend p (exec.fields (first_marks (hp_state p) ?data) [])"
  have first: "first_marks s_start_req d = (\<lambda>_. None)" for d by (auto simp: first_marks_def url_states_def)
  have x: "hp_type ?x = HTTP_REQUEST" "hp_state ?x = s_start_req" "hp_errno ?x = HPE_OK" "hp_nread ?x = 0"
      "ex_mark ?x = (\<lambda>_. None)" "ex_calls ?x = []"
    using assms(1) by (simp_all add: parser_ready_def first http_parser.defs exec.defs)
  have ml: "?ml \<le> 5" using assms(2) by (auto simp: method_strings_def)
  let ?x1 = "?x\<lparr>hp_flags := 0, hp_content_length := ULLONG_MAX, hp_method := m, hp_nread := of_nat ?ml + hp_nread ?x,
    hp_state := s_req_spaces_before_url, hp_index := of_nat ?ml\<rparr>"
  let ?x2 = "?x1\<lparr>hp_nread := hp_nread ?x1 + 1, ex_mark := (\<lambda>_. None)(on_url := Some (CHR ''/'' # u)), hp_state := s_req_path\<rparr>"
  have all: "room (?ml + (1 + length u)) 0" using assms(4) ml by (simp add: room_def)
  have r1: "room (1 + length u) (hp_nread ?x1)" using room_add [OF all] x(4) by simp
  have r2: "room (length u) (hp_nread ?x2)" using room_add [OF r1] by simp
  have "execute_loop ?S ?x ?data = execute_loop ?S ?x1 (CHR ''/'' # u)"
    using assms(2,4) x by (intro read_method) (simp_all add: room_def)
  also have "\<dots> = execute_loop ?S ?x2 u"
  proof -
    have slash: "parse_url_char s_req_spaces_before_url (CHR ''/'') = s_req_path"
      by (simp add: parse_url_char_def Let_def)
    have "m \<noteq> HTTP_PARSER_METHOD_CONNECT" using assms(2) by auto
    then have "in_state ?S (?x1\<lparr>hp_nread := hp_nread ?x1 + 1\<rparr>) (CHR ''/'') u = (?x2, Next u)"
      using slash x by (simp add: in_state_def in_req_spaces_before_url_def url_char_def UPDATE_STATE_def MARK_def)
    then show ?thesis
      using room_less [OF r1, of 1] by (simp add: execute_loop.simps(2) byte_counts reexecute.simps PARSING_HEADER_def)
  qed
  finally have to_path: "execute_loop ?S ?x ?data = execute_loop ?S ?x2 u" .
  have "\<exists>s \<in> path_states. \<forall>rest. execute_loop ?S ?x2 (u @ rest) =
      execute_loop ?S (?x2\<lparr>hp_nread := hp_nread ?x2 + of_nat (length u), hp_state := s\<rparr>) rest"
    using assms(3) r2 by (intro read_path) (simp_all add: path_states_def)
  then obtain s where s: "s \<in> path_states" "\<And>rest. execute_loop ?S ?x2 (u @ rest) =
      execute_loop ?S (?x2\<lparr>hp_nread := hp_nread ?x2 + of_nat (length u), hp_state := s\<rparr>) rest"
    by blast
  let ?y = "?x2\<lparr>hp_nread := hp_nread ?x2 + of_nat (length u), hp_state := s\<rparr>"
  let ?z = "?y\<lparr>ex_mark := (\<lambda>_. None), ex_calls := [Data on_url m (CHR ''/'' # u) (length u + 1)]\<rparr>"
  have loop: "execute_loop ?S ?x ?data = (?y, Next [])" using to_path s(2) [of "[]"] by simp
  have "leftovers ?S ?y = (?z, Return [])"
    using x by (simp add: leftovers_def marked_def CALLBACK_DATA_def Let_def)
  then have "http_parser_execute ?S p ?data = (http_parser.truncate ?z, ex_calls ?z, Some (length ?data))"
    using assms(1) by (intro execute_text [OF _ _ loop]) (auto simp: parser_ready_def)
  moreover have "parser_in_url m (length (method_strings m) + 2 + length u) (http_parser.truncate ?z)"
    using x(1,3,4) s(1) by (simp add: parser_in_url_def http_parser.defs)
  ultimately show ?thesis by auto
qed

lemma execute_url_rest:
  assumes "parser_in_url (rq_method r) n p" and "request_ok r" and "\<forall>c \<in> set u. url_text c" and "u \<noteq> []"
    and "n + length u + 1 + length (behind_url r) \<le> HTTP_MAX_HEADER_SIZE"
  shows "\<exists>q. parser_ready q \<and> http_parser_execute server_settings p (u @ SP # behind_url r @ rq_body r) =
    (q, Data on_url (rq_method r) (u @ SP # behind_url r @ rq_body r) (length u) # body_events r [],
     Some (length (u @ SP # behind_url r @ rq_body r)))"
proof -
  let ?S = server_settings and ?m = "rq_method r" and ?body = "rq_body r"
  let ?data = "u @ SP # behind_url r @ ?body" and ?event = "Data on_url ?m (u @ SP # behind_url r @ ?body) (length u)"
  let ?x = "http_parser.extend p (exec.fields (first_marks (hp_state p) ?data) [])"
  note a = assms(1) [unfolded parser_in_url_def]
  have "hp_state p \<in> url_states" using a by (auto simp: path_states_def url_states_def)
  then have first: "first_marks (hp_state p) ?data = (\<lambda>_. None)(on_url := Some ?data)"
    using a by (auto simp: first_marks_def path_states_def)
  have x: "hp_type ?x = HTTP_REQUEST" "hp_state ?x \<in> path_states" "hp_errno ?x = HPE_OK" "hp_nread ?x = of_nat n" "hp_method ?x = ?m"
      "hp_flags ?x = 0" "hp_content_length ?x = ULLONG_MAX" "ex_mark ?x = (\<lambda>_. None)(on_url := Some ?data)" "ex_calls ?x = []"
    using a by (simp_all add: first http_parser.defs exec.defs)
  have all: "room (n + (length u + (1 + length (behind_url r)))) 0" using assms(5) by (simp add: room_def)
  have r1: "room (length u + (1 + length (behind_url r))) (hp_nread ?x)" using room_add [OF all] x(4) by simp
  have r2: "room (1 + length (behind_url r)) (hp_nread ?x + of_nat (length u))" using room_add [OF r1] by simp
  have r3: "room (length (behind_url r)) (hp_nread ?x + of_nat (length u) + 1)" using room_add [OF r2] by simp
  obtain s where s: "s \<in> path_states" "\<And>rest. execute_loop ?S ?x (u @ rest) =
      execute_loop ?S (?x\<lparr>hp_nread := hp_nread ?x + of_nat (length u), hp_state := s\<rparr>) rest"
    using read_path [OF x(2) assms(3) room_less [OF r1]] by auto
  let ?y = "?x\<lparr>hp_nread := hp_nread ?x + of_nat (length u), hp_state := s\<rparr>"
  let ?z = "?y\<lparr>hp_nread := hp_nread ?y + 1, hp_state := s_req_http_start, ex_mark := (\<lambda>_. None), ex_calls := [?event]\<rparr>"
  have len: "length ?data - length (SP # behind_url r @ ?body) = length u" by simp
  have "in_state ?S (?y\<lparr>hp_nread := hp_nread ?y + 1\<rparr>) SP (behind_url r @ ?body) = (?z, Next (behind_url r @ ?body))"
    using x s(1) len by (simp add: in_state_path in_req_url_def CALLBACK_DATA_def UPDATE_STATE_def Let_def)
  then have "execute_loop ?S ?y (SP # behind_url r @ ?body) = execute_loop ?S ?z (behind_url r @ ?body)"
    using path_header [OF s(1)] room_less [OF r2, of 1] by (simp add: execute_loop.simps(2) byte_counts reexecute.simps)
  then have to_version: "execute_loop ?S ?x ?data = execute_loop ?S ?z (behind_url r @ ?body)" using s(2) by simp
  have "at_version ?m [?event] ?z" using x by (simp add: at_version_def)
  then obtain y where y: "\<And>rest. execute_loop ?S ?z (behind_url r @ rest) = execute_loop ?S y rest"
      "if ?body = [] then ready y \<and> ex_calls y = [?event] @ [Notify on_message_complete]
       else in_body ?m (of_nat (length ?body)) [?event] y"
    using read_behind_url [OF _ assms(2)] r3 by fastforce
  have "\<exists>w. ready w \<and> ex_calls w = ?event # body_events r [] \<and> execute_loop ?S ?x ?data = (w, Next [])"
  proof (cases "?body = []")
    case True
    then show ?thesis using y(1) [of "[]"] y(2) to_version by (intro exI [of _ y]) (simp add: body_events_def)
  next
    case False
    then have "in_body ?m (of_nat (length ?body)) [?event] y" using y(2) by simp
    then obtain w where "ready w" "ex_calls w = [?event] @ [Data on_body ?m (?body @ []) (length ?body), Notify on_message_complete]"
        "execute_loop ?S y (?body @ []) = execute_loop ?S w []"
      using body_full [OF _ False body_length(1) [OF assms(2) False]] by blast
    then show ?thesis using False y(1) to_version by (intro exI [of _ w]) (simp add: body_events_def)
  qed
  then obtain w where w: "ready w" "ex_calls w = ?event # body_events r []" "execute_loop ?S ?x ?data = (w, Next [])" by blast
  have "http_parser_execute ?S p ?data = (http_parser.truncate w, ex_calls w, Some (length ?data))"
    using a leftovers_none [of w] w(1) by (intro execute_text [OF _ _ w(3)]) (auto simp: ready_def)
  moreover have "parser_ready (http_parser.truncate w)" using w(1) by (simp add: ready_def parser_ready_def http_parser.defs)
  ultimately show ?thesis using w(2) by auto
qed

subsection \<open>What breaks a connection\<close>

text \<open>A parser with an error ignores every further buffer.\<close>

lemma error_ignores: "hp_errno p \<noteq> HPE_OK \<Longrightarrow> parse_buffers S p bs = Some (p, [])"
  by (induction bs) (simp_all add: http_parser_execute_def)

text \<open>
  An empty buffer in the middle of a request is the end of the connection for the parser: whatever comes
  afterwards, no callback is made any more.
\<close>

theorem empty_buffer_ends:
  assumes "parser_ready p" and "request_ok r" and "rq_body r \<noteq> []"
  shows "\<exists>q. hp_errno q = HPE_INVALID_EOF_STATE \<and>
    parse_buffers server_settings p (request_head r # [] # bs) = Some (q, [url_event r []])"
proof -
  obtain q where q: "parser_in_body (rq_method r) (length (rq_body r)) q"
      "http_parser_execute server_settings p (request_head r) = (q, [url_event r []], Some (length (request_head r)))"
    using execute_head [OF assms] by blast
  then have "http_parser_execute server_settings q [] = (q\<lparr>hp_errno := HPE_INVALID_EOF_STATE\<rparr>, [], Some 1)"
    by (simp add: http_parser_execute_def parser_in_body_def)
  then show ?thesis using q(2) error_ignores [of "q\<lparr>hp_errno := HPE_INVALID_EOF_STATE\<rparr>"] by simp
qed

lemma empty_buffer_ends_witness:
  "\<exists>q. hp_errno q = HPE_INVALID_EOF_STATE \<and> parse_buffers server_settings (http_parser_init HTTP_REQUEST)
    [request_head sample_request, [], ''{}'', request_text sample_request] = Some (q, [url_event sample_request []])"
  by (rule empty_buffer_ends [OF _ sample_request_ok]) (simp_all add: parser_ready_def http_parser_init_def sample_request_def)

end
