(* ===== verification/Server_Http.thy ===== *)
theory Server_Http
  imports Server_Loop Http_Requests
begin

text \<open>
  The server with its HTTP parser: \<open>homekit_client_process\<close> of \<open>src/arduino_homekit_server.cpp\<close> on the model of
  \<open>src/http_parser.c\<close>.  Requests that arrive as they are written reach their handlers; a URL in two parts, an empty
  buffer and a malformed byte do not.
\<close>

section \<open>The parser of the server\<close>

text \<open>The calls of the three callbacks that are set; the parser is that of the client.\<close>

definition server_call :: "http_event \<Rightarrow> http_call list" where
  "server_call e =
     (case e of
        Notify f \<Rightarrow> if f = on_message_complete then [On_message_complete] else []
      | Data f m p n \<Rightarrow>
          if f = on_url then [On_url m p n] else if f = on_body then [On_body (bytes (take n p))] else [])"

definition server_parser :: "http_parser \<Rightarrow> string \<Rightarrow> http_parser \<times> http_call list" where
  "server_parser p data =
     (let (q, calls, _) = http_parser_execute server_settings p data in (q, concat (map server_call calls)))"

lemma byte_char: "char_of (unat (of_char c :: byte)) = c"
proof -
  have "unat (of_nat (of_char c) :: byte) = of_char c"
    using nat_of_char_less_256 [of c] by (simp add: unat_of_nat)
  then show ?thesis by (simp only: of_nat_of_char char_of_char)
qed

lemma chars_bytes [simp]: "chars (bytes s) = s"
  by (induction s) (simp_all add: chars_def bytes_def byte_char)

lemma server_calls [simp]:
  "server_call (Data on_url m p n) = [On_url m p n]" "server_call (Data on_body m p n) = [On_body (bytes (take n p))]"
  "server_call (Notify on_message_complete) = [On_message_complete]"
  by (simp_all add: server_call_def)

section \<open>Requests and handlers\<close>

lemma modify_known: "client S i = Inr c \<Longrightarrow> modify_client S i f = Inr (set_client S i (f c))"
  by (simp add: modify_client_def)

text \<open>The text of a literal URL and the one of the request: only the bytes of the URL count.\<close>

lemma cstr_eq_n_prefix: "n \<le> length xs \<Longrightarrow> cstr_eq_n z n (xs @ ws) ys = cstr_eq_n z n xs ys"
proof (induction n arbitrary: xs ys)
  case (Suc n)
  then obtain x xs' where "xs = x # xs'" by (cases xs) auto
  then show ?case using Suc by (simp add: Let_def)
qed simp

lemma post_endpoint_prefix: "post_endpoint (u @ rest) (length u) = post_endpoint u (length u)"
  by (simp add: post_endpoint_def url_is_def cstr_eq_n_prefix)

lemma put_endpoint_prefix: "put_endpoint (u @ rest) (length u) = put_endpoint u (length u)"
  by (simp add: put_endpoint_def url_is_def cstr_eq_n_prefix)

text \<open>No URL that is served begins with another character than a slash.\<close>

lemma unknown_endpoint:
  assumes "n > 0" and "data \<noteq> []" and "hd data \<noteq> CHR ''/''"
  shows "post_endpoint data n = HOMEKIT_ENDPOINT_UNKNOWN" "put_endpoint data n = HOMEKIT_ENDPOINT_UNKNOWN"
proof -
  obtain k where k: "n = Suc k" using assms(1) by (cases n) auto
  obtain d ds where d: "data = d # ds" using assms(2) by (cases data) auto
  show "post_endpoint data n = HOMEKIT_ENDPOINT_UNKNOWN" "put_endpoint data n = HOMEKIT_ENDPOINT_UNKNOWN"
    using assms(3) by (simp_all add: k d post_endpoint_def put_endpoint_def url_is_def Let_def)
qed

text \<open>A whole request in one buffer.\<close>

lemma execute_request:
  assumes "client S i = Inr c" and "parser_ready (cl_parser c)" and "request_ok r"
  shows "\<exists>q. parser_ready q \<and> http_execute G E server_parser S i (bytes (request_text r)) =
    bind_res (homekit_server_on_url (rq_method r) (behind_method r @ rq_body r) (length (rq_url r)) S i) (\<lambda>S.
    bind_res (if rq_body r = [] then Inr S else homekit_server_on_body (bytes (rq_body r)) S i) (\<lambda>S.
    bind_res (homekit_server_on_message_complete G E S i) (\<lambda>S. modify_client S i (\<lambda>c. c\<lparr>cl_parser := q\<rparr>))))"
proof -
  obtain q where q: "parser_ready q"
      "http_parser_execute server_settings (cl_parser c) (request_text r) = (q, request_events r [], Some (length (request_text r)))"
    using execute_requests [OF assms(2), of "[r]"] assms(3) by (auto simp: requests_text_def)
  then have "server_parser (cl_parser c) (request_text r) =
      (q, [On_url (rq_method r) (behind_method r @ rq_body r) (length (rq_url r))] @
        (if rq_body r = [] then [] else [On_body (bytes (rq_body r))]) @ [On_message_complete])"
    by (simp add: server_parser_def request_events_def body_events_def)
  then show ?thesis
    using q(1) assms(1) by (intro exI [of _ q]) (simp add: http_execute_def bind_res_assoc)
qed

section \<open>A request that reaches its handler\<close>

text \<open>The state in which the handler runs, and what the server does when it is done.\<close>

definition request_client ::
  "request_t \<Rightarrow> homekit_endpoint_t \<Rightarrow> ('s, http_parser) client_context_t \<Rightarrow> ('s, http_parser) client_context_t" where
  "request_client r e c =
     c\<lparr>cl_endpoint := e, cl_body := (if rq_body r = [] then cl_body c else Some (body_of c @ bytes (rq_body r)))\<rparr>"

definition request_done :: "nat \<Rightarrow> http_parser \<Rightarrow> ('w, 's, http_parser) hk_server \<Rightarrow> fault + ('w, 's, http_parser) hk_server" where
  "request_done i q S = modify_client S i (\<lambda>c. c\<lparr>cl_endpoint_params := None, cl_body := None, cl_parser := q\<rparr>)"

lemma modify_twice: "bind_res (modify_client S i f) (\<lambda>S. modify_client S i g) = modify_client S i (\<lambda>c. g (f c))"
  by (cases "client S i") (simp_all add: modify_client_def client_set_same set_client_twice)

lemma message_done:
  "client S i = Inr c \<Longrightarrow>
    bind_res (homekit_server_on_message_complete G E S i) (\<lambda>S. modify_client S i (\<lambda>c. c\<lparr>cl_parser := q\<rparr>)) =
    bind_res (route G E S i c) (request_done i q)"
  by (simp add: homekit_server_on_message_complete_def bind_res_assoc modify_twice request_done_def [abs_def])

text \<open>A request whose endpoint is found without parameters.\<close>

lemma request_routed:
  assumes "client S i = Inr c" and "parser_ready (cl_parser c)" and "request_ok r"
    and "homekit_server_on_url (rq_method r) (behind_method r @ rq_body r) (length (rq_url r)) S i =
      Inr (set_client S i (c\<lparr>cl_endpoint := e\<rparr>))"
  shows "\<exists>q. parser_ready q \<and> http_execute G E server_parser S i (bytes (request_text r)) =
    bind_res (route G E (set_client S i (request_client r e c)) i (request_client r e c)) (request_done i q)"
proof -
  let ?S = "set_client S i (c\<lparr>cl_endpoint := e\<rparr>)" and ?T = "set_client S i (request_client r e c)"
  have c: "client ?S i = Inr (c\<lparr>cl_endpoint := e\<rparr>)" "client ?T i = Inr (request_client r e c)"
    using assms(1) by (simp_all add: client_set_same)
  have "(if rq_body r = [] then Inr ?S else homekit_server_on_body (bytes (rq_body r)) ?S i) = Inr ?T"
    using c by (simp add: homekit_server_on_body_def modify_known request_client_def set_client_twice body_of_def)
  then show ?thesis
    using execute_request [OF assms(1-3), of G E] assms(4) message_done [OF c(2), of G E] by auto
qed

text \<open>
  C10: A pair setup or pair verify request sent in the clear reaches its handler: from the bytes of a POST request that
  arrive in one buffer, the handler gets the body as it was written, on the client with the endpoint set; when it
  returns, the body is dropped and the parser is ready for the next request.
\<close>

theorem pairing_request_served:
  assumes "client S i = Inr c" and "parser_ready (cl_parser c)" and "\<not> cl_encrypted c" and "cl_body c = None"
    and "request_ok r" and "rq_method r = HTTP_PARSER_METHOD_POST" and "rq_body r \<noteq> []"
    and "rq_url r \<in> {''/pair-setup'', ''/pair-verify''}"
  shows "\<exists>q. parser_ready q \<and> http_execute G E server_parser S i (bytes (request_text r)) =
    (let body = bytes (rq_body r); T = (\<lambda>e. set_client S i (c\<lparr>cl_endpoint := e, cl_body := Some body\<rparr>)) in
     bind_res
       (if rq_url r = ''/pair-setup'' then homekit_server_on_pair_setup E (T HOMEKIT_ENDPOINT_PAIR_SETUP) i body
        else homekit_server_on_pair_verify E (T HOMEKIT_ENDPOINT_PAIR_VERIFY) i body)
       (request_done i q))"
proof -
  let ?e = "post_endpoint (rq_url r) (length (rq_url r))"
  have "behind_method r @ rq_body r = rq_url r @ SP # behind_url r @ rq_body r" by (simp add: behind_method_def)
  then have "homekit_server_on_url (rq_method r) (behind_method r @ rq_body r) (length (rq_url r)) S i =
      Inr (set_client S i (c\<lparr>cl_endpoint := ?e\<rparr>))"
    using assms(1,6) by (simp add: homekit_server_on_url_def post_endpoint_prefix modify_known)
  then obtain q where q: "parser_ready q" "http_execute G E server_parser S i (bytes (request_text r)) =
      bind_res (route G E (set_client S i (request_client r ?e c)) i (request_client r ?e c)) (request_done i q)"
    using request_routed [OF assms(1,2,5)] by blast
  have "request_client r e c = c\<lparr>cl_endpoint := e, cl_body := Some (bytes (rq_body r))\<rparr>" for e
    using assms(4,7) by (simp add: request_client_def body_of_def)
  moreover have "rq_url r = ''/pair-setup'' \<Longrightarrow> ?e = HOMEKIT_ENDPOINT_PAIR_SETUP"
      "rq_url r = ''/pair-verify'' \<Longrightarrow> ?e = HOMEKIT_ENDPOINT_PAIR_VERIFY"
    by (simp_all add: post_endpoint_def url_is_def)
  ultimately show ?thesis
    using q assms(3,8) by (intro exI [of _ q]) (auto simp: route_def body_of_def Let_def)
qed

text \<open>A connection that has just been made, and a request of a pair setup.\<close>

definition new_client :: "(byte list, http_parser) client_context_t" where
  "new_client =
     \<lparr>cl_socket = Some [], cl_endpoint = HOMEKIT_ENDPOINT_UNKNOWN, cl_endpoint_params = None, cl_data = replicate 1042 0,
      cl_data_available = 0, cl_body = None, cl_parser = http_parser_init HTTP_REQUEST, cl_pairing_id = - 1,
      cl_permissions = 0, cl_disconnect = False, cl_current_characteristic = None, cl_current_value = None,
      cl_encrypted = False, cl_read_key = [], cl_write_key = [], cl_count_reads = 0, cl_count_writes = 0,
      cl_event_queue = None, cl_verify_context = None, cl_step = HOMEKIT_CLIENT_STEP_NONE, cl_error_write = False\<rparr>"

definition new_server :: "(nat \<Rightarrow> byte, byte list, http_parser) hk_server" where
  "new_server =
     \<lparr>sv_flash = erased_ram, sv_accessory_id = replicate 17 0x41, sv_accessory_key = sample_key, sv_accessories = [],
      sv_category = 1, sv_config_number = 1, sv_password = Some ''111-11-111'', sv_setupId = None, sv_on_event = False,
      sv_events = [], sv_paired = False, sv_saved_preinit = None, sv_pairing = False, sv_nfds = 1,
      sv_clients = [(0, new_client)], sv_next = 1\<rparr>"

definition setup_request :: request_t where
  "setup_request = \<lparr>rq_method = HTTP_PARSER_METHOD_POST, rq_url = ''/pair-setup'',
     rq_before = [(''Host'', ''lamp._hap._tcp.local'')], rq_length = Some ''3'',
     rq_after = [(''Content-Type'', ''application/pairing+tlv8'')], rq_body = [CHR 0x06, CHR 0x01, CHR 0x01]\<rparr>"

lemma new_client_ok: "client new_server 0 = Inr new_client" "parser_ready (cl_parser new_client)"
  by (simp_all add: client_def new_server_def new_client_def parser_ready_def http_parser_init_def)

lemma setup_request_ok: "request_ok setup_request"
  by (simp add: request_ok_def setup_request_def plain_header_def sample_kinds value_matters_def value_text_def IS_HEADER_CHAR_def
      url_text_def IS_URL_CHAR_def normal_url_char_def IS_NUM_def behind_method_def request_headers_def header_text_def
      behind_url_def HTTP_MAX_HEADER_SIZE_def)

lemma setup_request_fields:
  "rq_method setup_request = HTTP_PARSER_METHOD_POST" "rq_body setup_request = [CHR 0x06, CHR 0x01, CHR 0x01]"
  "rq_url setup_request = ''/pair-setup''"
  by (simp_all add: setup_request_def)

lemma new_client_fields: "\<not> cl_encrypted new_client" "cl_body new_client = None"
  by (simp_all add: new_client_def)

lemma setup_request_body: "bytes [CHR 0x06, CHR 0x01, CHR 0x01] = [6, 1, 1]"
  by (simp add: bytes_def)

lemma pairing_request_served_witness:
  "\<exists>q. parser_ready q \<and> http_execute sample_app sample_env server_parser new_server 0 (bytes (request_text setup_request)) =
    bind_res (homekit_server_on_pair_setup sample_env (set_client new_server 0
      (new_client\<lparr>cl_endpoint := HOMEKIT_ENDPOINT_PAIR_SETUP, cl_body := Some [6, 1, 1]\<rparr>)) 0 [6, 1, 1]) (request_done 0 q)"
  using pairing_request_served [OF new_client_ok new_client_fields setup_request_ok, of sample_app sample_env]
  by (simp add: setup_request_fields setup_request_body Let_def)

section \<open>A URL in two segments\<close>

text \<open>The callback for a part of the URL that no endpoint begins with.\<close>

lemma url_part_unknown:
  assumes "client S i = Inr c" and "m \<in> {HTTP_PARSER_METHOD_POST, HTTP_PARSER_METHOD_PUT}"
    and "n > 0" and "data \<noteq> []" and "hd data \<noteq> CHR ''/''"
  shows "homekit_server_on_url m data n S i = Inr (set_client S i (c\<lparr>cl_endpoint := HOMEKIT_ENDPOINT_UNKNOWN\<rparr>))"
  using assms(1,2) unknown_endpoint [OF assms(3-5)] by (auto simp: homekit_server_on_url_def modify_known)

lemma url_part_known:
  assumes "client S i = Inr c" and "m \<in> {HTTP_PARSER_METHOD_POST, HTTP_PARSER_METHOD_PUT}"
  shows "\<exists>e. homekit_server_on_url m data n S i = Inr (set_client S i (c\<lparr>cl_endpoint := e\<rparr>))"
  using assms by (auto simp: homekit_server_on_url_def modify_known)

text \<open>The two executions of such a request.\<close>

lemma execute_part_of_url:
  assumes "client S i = Inr c" and "parser_ready (cl_parser c)"
    and "m \<in> {HTTP_PARSER_METHOD_POST, HTTP_PARSER_METHOD_PUT}"
    and "\<forall>c \<in> set u. url_text c" and "length u + 10 \<le> HTTP_MAX_HEADER_SIZE"
  shows "\<exists>p e. parser_in_url m (length (method_strings m) + 2 + length u) p \<and>
    http_execute G E server_parser S i (bytes (method_strings m @ SP # CHR ''/'' # u)) =
      Inr (set_client S i (c\<lparr>cl_endpoint := e, cl_parser := p\<rparr>))"
proof -
  obtain p where p: "parser_in_url m (length (method_strings m) + 2 + length u) p"
      "http_parser_execute server_settings (cl_parser c) (method_strings m @ SP # CHR ''/'' # u) =
        (p, [Data on_url m (CHR ''/'' # u) (length u + 1)], Some (length (method_strings m) + 2 + length u))"
    using execute_url_part [OF assms(2) _ assms(4,5), of m] assms(3) by auto
  obtain e where "homekit_server_on_url m (CHR ''/'' # u) (length u + 1) S i = Inr (set_client S i (c\<lparr>cl_endpoint := e\<rparr>))"
    using url_part_known [OF assms(1,3)] by blast
  then have "http_execute G E server_parser S i (bytes (method_strings m @ SP # CHR ''/'' # u)) =
      Inr (set_client S i (c\<lparr>cl_endpoint := e, cl_parser := p\<rparr>))"
    using assms(1) by (simp add: http_execute_def server_parser_def p(2) modify_known client_set_same set_client_twice)
  then show ?thesis using p(1) by blast
qed

lemma route_unknown: "cl_endpoint c = HOMEKIT_ENDPOINT_UNKNOWN \<Longrightarrow> route G E S i c = send_404_response (en_plat E) S i"
  by (simp add: route_def)

lemma execute_rest_of_url:
  assumes "client S i = Inr c" and "parser_in_url (rq_method r) n (cl_parser c)"
    and "rq_method r \<in> {HTTP_PARSER_METHOD_POST, HTTP_PARSER_METHOD_PUT}" and "request_ok r"
    and "\<forall>c \<in> set v. url_text c" and "n + length v + 1 + length (behind_url r) \<le> HTTP_MAX_HEADER_SIZE"
    and "v \<noteq> []" and "hd v \<noteq> CHR ''/''"
  shows "\<exists>q. parser_ready q \<and> http_execute G E server_parser S i (bytes (v @ SP # behind_url r @ rq_body r)) =
    bind_res (send_404_response (en_plat E) (set_client S i (request_client r HOMEKIT_ENDPOINT_UNKNOWN c)) i) (request_done i q)"
proof -
  let ?data = "v @ SP # behind_url r @ rq_body r" and ?U = HOMEKIT_ENDPOINT_UNKNOWN
  let ?S = "set_client S i (c\<lparr>cl_endpoint := ?U\<rparr>)" and ?T = "set_client S i (request_client r ?U c)"
  obtain q where q: "parser_ready q" "http_parser_execute server_settings (cl_parser c) ?data =
      (q, Data on_url (rq_method r) ?data (length v) # body_events r [], Some (length ?data))"
    using execute_url_rest [OF assms(2,4,5,7,6)] by blast
  have url: "homekit_server_on_url (rq_method r) ?data (length v) S i = Inr ?S"
    using assms(7,8) by (intro url_part_unknown [OF assms(1,3)]) auto
  have c: "client ?S i = Inr (c\<lparr>cl_endpoint := ?U\<rparr>)" "client ?T i = Inr (request_client r ?U c)"
    using assms(1) by (simp_all add: client_set_same)
  have body: "(if rq_body r = [] then Inr ?S else homekit_server_on_body (bytes (rq_body r)) ?S i) = Inr ?T"
    using c by (simp add: homekit_server_on_body_def modify_known request_client_def set_client_twice body_of_def)
  have "server_parser (cl_parser c) ?data = (q, [On_url (rq_method r) ?data (length v)] @
      (if rq_body r = [] then [] else [On_body (bytes (rq_body r))]) @ [On_message_complete])"
    by (simp add: server_parser_def q(2) body_events_def del: append_Cons)
  then have "http_execute G E server_parser S i (bytes ?data) =
      bind_res (homekit_server_on_message_complete G E ?T i) (\<lambda>S. modify_client S i (\<lambda>c. c\<lparr>cl_parser := q\<rparr>))"
    using assms(1) url body by (cases "rq_body r = []") (simp_all add: http_execute_def bind_res_assoc)
  then show ?thesis
    using q(1) message_done [OF c(2), of G E] by (intro exI [of _ q]) (simp add: route_unknown request_client_def)
qed



section \<open>A byte that no request begins with\<close>

text \<open>What the server looks at in the result of the parser is nothing: the connection stays, and is mute.\<close>

lemma mute_parser: "hp_errno p \<noteq> HPE_OK \<Longrightarrow> server_parser p data = (p, [])"
  by (simp add: server_parser_def http_parser_execute_def)

lemma mute_execute:
  assumes "client S i = Inr c" and "hp_errno (cl_parser c) \<noteq> HPE_OK"
  shows "http_execute G E server_parser S i payload = Inr (set_client S i c)"
  using assms by (simp add: http_execute_def mute_parser modify_known)

text \<open>The payloads of a client one after the other.\<close>

fun http_payloads ::
  "app \<Rightarrow> ('w, 's, 'p3, 'p2) hk_env \<Rightarrow> ('w, 's, http_parser) hk_server \<Rightarrow> nat \<Rightarrow> byte list list \<Rightarrow>
   fault + ('w, 's, http_parser) hk_server" where
  "http_payloads G E S i [] = Inr S"
| "http_payloads G E S i (b # bs) = bind_res (http_execute G E server_parser S i b) (\<lambda>S. http_payloads G E S i bs)"

lemma mute_payloads:
  "client S i = Inr c \<Longrightarrow> hp_errno (cl_parser c) \<noteq> HPE_OK \<Longrightarrow>
    http_payloads G E (set_client S i c) i bs = Inr (set_client S i c)"
proof (induction bs)
  case (Cons b bs)
  then have "http_execute G E server_parser (set_client S i c) i b = Inr (set_client S i c)"
    using mute_execute [OF client_set_same, OF Cons.prems] by (simp add: set_client_twice)
  then show ?case using Cons by simp
qed simp

lemma no_method:
  assumes "parser_ready p" and "ch \<notin> {CR, LF}" and "first_method ch = None"
  shows "\<exists>q. hp_errno q = HPE_INVALID_METHOD \<and> server_parser p (ch # data) = (q, [])"
  using assms
  by (auto simp: server_parser_def http_parser_execute_def parser_ready_def execute_loop.simps(2) on_byte_def
      COUNT_HEADER_SIZE_def PARSING_HEADER_def reexecute.simps in_state_def in_start_req_def fail_def first_marks_def
      url_states_def http_parser.defs exec.defs HTTP_MAX_HEADER_SIZE_def Let_def)

text \<open>
  C21: A byte that no method begins with, where a request should start, ends the service on a connection without ending
  the connection: whatever the client sends from then on, no handler runs, nothing is answered and the socket is kept.
\<close>

theorem invalid_start_mutes:
  assumes "client S i = Inr c" and "parser_ready (cl_parser c)" and "ch \<notin> {CR, LF}" and "first_method ch = None"
  shows "\<exists>p. hp_errno p = HPE_INVALID_METHOD \<and>
    http_payloads G E S i (bytes (ch # data) # payloads) = Inr (set_client S i (c\<lparr>cl_parser := p\<rparr>))"
proof -
  obtain p where p: "hp_errno p = HPE_INVALID_METHOD" "server_parser (cl_parser c) (ch # data) = (p, [])"
    using no_method [OF assms(2-4)] by blast
  let ?c = "c\<lparr>cl_parser := p\<rparr>"
  have "http_execute G E server_parser S i (bytes (ch # data)) = Inr (set_client S i ?c)"
    using assms(1) by (simp add: http_execute_def p(2) modify_known)
  then show ?thesis
    using mute_payloads [OF client_set_same [OF assms(1)], of ?c G E payloads] p(1)
    by (intro exI [of _ p]) (simp add: set_client_twice)
qed

lemma invalid_start_mutes_witness:
  "\<exists>p. hp_errno p = HPE_INVALID_METHOD \<and>
    http_payloads sample_app sample_env new_server 0 [bytes ''x'', bytes (request_text setup_request)] =
      Inr (set_client new_server 0 (new_client\<lparr>cl_parser := p\<rparr>))"
  by (rule invalid_start_mutes [OF new_client_ok]) (simp_all add: first_method_def)

end
