(* ===== verification/Spec2Isabelle.thy ===== *)
theory Spec2Isabelle
  imports HK_Prelude Tlv Base64 Query_Params CQueue Json_Stream Ed25519 Storage Accessories Characteristics Chacha_Poly Sha512 Hmac Srp Server_State Session
    Curve_Keys Pairings Pair_Setup Pair_Verify Char_Json Char_Update Notifications Server_Loop Server_Setup Server_Safety
    Http_Parser Http_Machine Http_Safety Http_Requests Server_Http
begin

text \<open>
  Verification development of the Arduino HomeKit accessory server for the ESP8266.
\<close>

end
